(* ===== verification/Prelude.thy ===== *)
theory Prelude
  imports Complex_Main "HOL-Library.Word" "HOL-Library.Char_ord" "HOL-Library.List_Lexorder"
    "HOL-Library.Multiset"
begin

text \<open>
  What every component of the model shares: the machine types of the Go source, the result
  type of a Go function that may return an error or panic, Go strings as bytes, hexadecimal
  coding (package encoding/hex), decimal printing, and stable sorting (sort.SliceStable).
\<close>

unbundle bit_operations_syntax

named_theorems res_simps \<open>unfolding of the error-result combinators\<close>
named_theorems no_panic \<open>introduction rules for the absence of run-time panics\<close>
named_theorems len_simps \<open>lengths of what the model's operations return\<close>

section \<open>Types\<close>

type_synonym byte = "8 word"
type_synonym u64 = "64 word"

text \<open>
  A Go function with an \<open>error\<close> result returns \<open>Inl\<close> of the error or \<open>Inr\<close> of its value. The
  errors of the modelled packages are plain errors (\<open>fmt.Errorf\<close>), the two error types of the
  graders (\<open>ValidateError\<close>, \<open>DecodeError\<close>), and a run-time panic, which is not an error value in
  Go but ends the call in the same way: nothing after it runs.
\<close>

datatype go_error =
    GoError string
  | ValidateError string
  | DecodeError string
  | Panic string

type_synonym 'a res = "go_error + 'a"

fun err_msg :: "go_error \<Rightarrow> string" where
  "err_msg (GoError m) = m"
| "err_msg (ValidateError m) = m"
| "err_msg (DecodeError m) = m"
| "err_msg (Panic m) = m"

fun is_panic :: "'a res \<Rightarrow> bool" where
  "is_panic (Inl (Panic _)) = True"
| "is_panic _ = False"

fun rbind :: "'a res \<Rightarrow> ('a \<Rightarrow> 'b res) \<Rightarrow> 'b res" where
  "rbind (Inl e) _ = Inl e"
| "rbind (Inr x) f = f x"

definition guard_res :: "bool \<Rightarrow> go_error \<Rightarrow> 'a res \<Rightarrow> 'a res" where
  "guard_res b e r = (if b then Inl e else r)"

fun res_map :: "('a \<Rightarrow> 'b res) \<Rightarrow> 'a list \<Rightarrow> 'b list res" where
  "res_map f [] = Inr []"
| "res_map f (x # xs) = rbind (f x) (\<lambda>y. rbind (res_map f xs) (\<lambda>ys. Inr (y # ys)))"

fun res_fold :: "('s \<Rightarrow> 'a \<Rightarrow> 's res) \<Rightarrow> 's \<Rightarrow> 'a list \<Rightarrow> 's res" where
  "res_fold f s [] = Inr s"
| "res_fold f s (x # xs) = rbind (f s x) (\<lambda>s'. res_fold f s' xs)"

lemma rbind_Inr_iff [res_simps]: "rbind m f = Inr y \<longleftrightarrow> (\<exists>x. m = Inr x \<and> f x = Inr y)"
  by (cases m) auto

lemma guard_res_Inr_iff [res_simps]: "guard_res b e r = Inr y \<longleftrightarrow> \<not> b \<and> r = Inr y"
  by (simp add: guard_res_def)

lemma guard_res_False [simp]: "\<not> b \<Longrightarrow> guard_res b e r = r"
  by (simp add: guard_res_def)

lemma guard_res_True [simp]: "b \<Longrightarrow> guard_res b e r = Inl e"
  by (simp add: guard_res_def)

lemma is_panic_guard:
  "is_panic (guard_res b e r) \<Longrightarrow> \<not> is_panic (Inl e :: 'a res) \<Longrightarrow> is_panic (r :: 'a res)"
  by (cases b) auto

lemma is_panic_rbind:
  "is_panic (rbind m f) \<longleftrightarrow> is_panic m \<or> (\<exists>x. m = Inr x \<and> is_panic (f x))"
proof (cases m)
  case (Inl e)
  then show ?thesis by (cases e) auto
qed auto

lemma no_panic_rbind [no_panic]:
  "\<not> is_panic m \<Longrightarrow> (\<And>x. m = Inr x \<Longrightarrow> \<not> is_panic (f x)) \<Longrightarrow> \<not> is_panic (rbind m f)"
  by (auto simp: is_panic_rbind)

lemma no_panic_guard [no_panic]:
  "\<not> is_panic (Inl e :: 'a res) \<Longrightarrow> (\<not> b \<Longrightarrow> \<not> is_panic r) \<Longrightarrow> \<not> is_panic (guard_res b e (r :: 'a res))"
  by (cases b) auto

lemma no_panic_sum [no_panic]:
  "\<not> is_panic m \<Longrightarrow> (\<And>x. m = Inr x \<Longrightarrow> \<not> is_panic (f x)) \<Longrightarrow>
     \<not> is_panic (case m of Inl e \<Rightarrow> Inl e | Inr x \<Rightarrow> f x)"
  by (cases m) (auto elim!: is_panic.elims)

lemma no_panic_prod [no_panic]:
  "(\<And>a b. x = (a, b) \<Longrightarrow> \<not> is_panic (f a b)) \<Longrightarrow> \<not> is_panic (case x of (a, b) \<Rightarrow> f a b)"
  by (cases x) auto

lemma no_panic_if [no_panic]:
  "(b \<Longrightarrow> \<not> is_panic x) \<Longrightarrow> (\<not> b \<Longrightarrow> \<not> is_panic y) \<Longrightarrow> \<not> is_panic (if b then x else y)"
  by auto

lemma no_panic_values [no_panic]:
  "\<not> is_panic (Inr x)" "\<not> is_panic (Inl (GoError s))" "\<not> is_panic (Inl (ValidateError s))"
  "\<not> is_panic (Inl (DecodeError s))"
  by auto

lemma no_panic_res_fold [no_panic]:
  "(\<And>s x. x \<in> set xs \<Longrightarrow> \<not> is_panic (f s x)) \<Longrightarrow> \<not> is_panic (res_fold f s xs)"
  by (induction xs arbitrary: s) (auto simp: is_panic_rbind)

lemma no_panic_res_map [no_panic]:
  "(\<And>x. x \<in> set xs \<Longrightarrow> \<not> is_panic (f x)) \<Longrightarrow> \<not> is_panic (res_map f xs)"
  by (induction xs) (auto simp: is_panic_rbind)

lemma res_map_Inr:
  "(\<And>x. x \<in> set xs \<Longrightarrow> f x = Inr (g x)) \<Longrightarrow> res_map f xs = Inr (map g xs)"
  by (induction xs) auto

lemma length_res_map [len_simps]: "res_map f xs = Inr ys \<Longrightarrow> length ys = length xs"
  by (induction xs arbitrary: ys) (auto simp: res_simps)

lemma res_fold_Inr:
  "(\<And>s x. x \<in> set xs \<Longrightarrow> f s x = Inr (g s x)) \<Longrightarrow> res_fold f s xs = Inr (foldl g s xs)"
  by (induction xs arbitrary: s) auto

section \<open>Bytes and strings\<close>

text \<open>A Go string is a sequence of bytes: \<open>[]byte(s)\<close> and \<open>string(b)\<close>.\<close>

definition bytes_of_string :: "string \<Rightarrow> byte list" where
  "bytes_of_string s = map of_char s"

definition string_of_bytes :: "byte list \<Rightarrow> string" where
  "string_of_bytes bs = map (\<lambda>b. char_of (unat b)) bs"

lemma unat_byte_less [simp]: "unat (b :: byte) < 256"
proof -
  have "unat b < 2 ^ LENGTH(8)" by (rule unsigned_less)
  then show ?thesis by simp
qed

lemma unat_of_char: "unat (of_char c :: byte) = of_char c"
proof -
  have "unat (of_char c :: byte) = unat (of_nat (of_char c) :: byte)"
    by (simp only: of_nat_of_char)
  also have "\<dots> = of_char c mod 256"
    by (simp only: unat_of_nat) (simp add: take_bit_eq_mod)
  finally show ?thesis
    using nat_of_char_less_256 [of c] by simp
qed

lemma string_of_bytes_inverse [simp]: "string_of_bytes (bytes_of_string s) = s"
  by (simp add: string_of_bytes_def bytes_of_string_def unat_of_char comp_def)

lemma of_char_char_of_byte: "(of_char (char_of (unat (b :: byte))) :: byte) = b"
proof -
  have "of_char (char_of (unat b)) = unat b"
    using unat_byte_less [of b] by (simp add: of_char_of)
  then have "unat (of_char (char_of (unat b)) :: byte) = unat b"
    by (simp add: unat_of_char)
  then show ?thesis
    by (simp add: word_unat_eq_iff)
qed

lemma bytes_of_string_inverse [simp]: "bytes_of_string (string_of_bytes bs) = bs"
  by (simp add: string_of_bytes_def bytes_of_string_def of_char_char_of_byte comp_def)

lemma length_bytes_of_string [simp]: "length (bytes_of_string s) = length s"
  by (simp add: bytes_of_string_def)

lemma length_string_of_bytes [simp]: "length (string_of_bytes bs) = length bs"
  by (simp add: string_of_bytes_def)

lemma bytes_of_string_eq_Nil [simp]: "bytes_of_string s = [] \<longleftrightarrow> s = []"
  by (simp add: bytes_of_string_def)

lemma bytes_of_string_inject [simp]: "bytes_of_string s = bytes_of_string t \<longleftrightarrow> s = t"
  by (metis string_of_bytes_inverse)

section \<open>Hexadecimal (encoding/hex)\<close>

definition hex_digit :: "nat \<Rightarrow> char" where
  "hex_digit n = ''0123456789abcdef'' ! n"

definition hex_of_byte :: "byte \<Rightarrow> string" where
  "hex_of_byte b = [hex_digit (unat b div 16), hex_digit (unat b mod 16)]"

text \<open>\<open>hex.EncodeToString\<close>, and \<open>fmt.Sprintf("%x", b)\<close> of a byte slice: lower-case digits.\<close>

definition hexEncode :: "byte list \<Rightarrow> string" where
  "hexEncode bs = concat (map hex_of_byte bs)"

definition unhex :: "char \<Rightarrow> nat option" where
  "unhex c = (let n = of_char c :: nat in
     if 48 \<le> n \<and> n \<le> 57 then Some (n - 48)
     else if 97 \<le> n \<and> n \<le> 102 then Some (n - 97 + 10)
     else if 65 \<le> n \<and> n \<le> 70 then Some (n - 65 + 10)
     else None)"

text \<open>\<open>hex.DecodeString\<close>: digits of either case; an odd length is an error.\<close>

fun hexDecode :: "string \<Rightarrow> byte list res" where
  "hexDecode [] = Inr []"
| "hexDecode [c] = (case unhex c of
      None \<Rightarrow> Inl (GoError ''encoding/hex: invalid byte'')
    | Some _ \<Rightarrow> Inl (GoError ''encoding/hex: odd length hex string''))"
| "hexDecode (c # d # cs) = (case (unhex c, unhex d) of
      (Some h, Some l) \<Rightarrow> rbind (hexDecode cs) (\<lambda>bs. Inr (word_of_nat (16 * h + l) # bs))
    | _ \<Rightarrow> Inl (GoError ''encoding/hex: invalid byte''))"

definition valid_hex :: "string \<Rightarrow> bool" where
  "valid_hex s = (case hexDecode s of Inl _ \<Rightarrow> False | Inr _ \<Rightarrow> True)"

lemma length_hexEncode [simp]: "length (hexEncode bs) = 2 * length bs"
  by (induction bs) (simp_all add: hexEncode_def hex_of_byte_def)

lemma hexEncode_Nil [simp]: "hexEncode [] = []"
  by (simp add: hexEncode_def)

lemma hexEncode_Cons: "hexEncode (b # bs) = hex_of_byte b @ hexEncode bs"
  by (simp add: hexEncode_def)

lemma hexEncode_append [simp]: "hexEncode (xs @ ys) = hexEncode xs @ hexEncode ys"
  by (simp add: hexEncode_def)

lemma unhex_hex_digit: "n < 16 \<Longrightarrow> unhex (hex_digit n) = Some n"
proof -
  have "list_all (\<lambda>n. unhex (hex_digit n) = Some n) [0..<16]"
    by code_simp
  then show "n < 16 \<Longrightarrow> unhex (hex_digit n) = Some n"
    by (simp add: list_all_iff)
qed

lemma hexDecode_hexEncode [simp]: "hexDecode (hexEncode bs) = Inr bs"
proof (induction bs)
  case Nil
  then show ?case by (simp add: hexEncode_def)
next
  case (Cons b bs)
  have "unat b div 16 < 16"
    using unat_byte_less [of b] by (intro less_mult_imp_div_less) simp
  moreover have "unat b mod 16 < 16"
    by simp
  ultimately have "unhex (hex_digit (unat b div 16)) = Some (unat b div 16)"
    "unhex (hex_digit (unat b mod 16)) = Some (unat b mod 16)"
    by (simp_all add: unhex_hex_digit)
  with Cons show ?case
    by (simp add: hexEncode_Cons hex_of_byte_def)
qed

lemma valid_hex_hexEncode [simp]: "valid_hex (hexEncode bs)"
  by (simp add: valid_hex_def)

lemma hexEncode_inject [simp]: "hexEncode xs = hexEncode ys \<longleftrightarrow> xs = ys"
  by (metis hexDecode_hexEncode sum.inject(2))

section \<open>Decimal printing\<close>

fun nat_digits :: "nat \<Rightarrow> string" where
  "nat_digits n = (if n < 10 then [''0123456789'' ! n]
                   else nat_digits (n div 10) @ [''0123456789'' ! (n mod 10)])"

declare nat_digits.simps [simp del]

text \<open>\<open>%d\<close> of an integer.\<close>

definition itoa :: "int \<Rightarrow> string" where
  "itoa i = (if i < 0 then CHR ''-'' # nat_digits (nat (- i)) else nat_digits (nat i))"

section \<open>Stable sorting\<close>

text \<open>
  \<open>sort.SliceStable(s, lt)\<close>. The result of a stable sort is determined by its contract when
  \<open>lt\<close> is a strict weak order, which is the case wherever the model uses it (a comparison of
  floats that contain no NaN, of unsigned integers, of strings); the model computes it by
  insertion.
\<close>

fun insert_by :: "('a \<Rightarrow> 'a \<Rightarrow> bool) \<Rightarrow> 'a \<Rightarrow> 'a list \<Rightarrow> 'a list" where
  "insert_by lt x [] = [x]"
| "insert_by lt x (y # ys) = (if lt y x then y # insert_by lt x ys else x # y # ys)"

definition sort_stable :: "('a \<Rightarrow> 'a \<Rightarrow> bool) \<Rightarrow> 'a list \<Rightarrow> 'a list" where
  "sort_stable lt xs = foldr (insert_by lt) xs []"

lemma mset_insert_by [simp]: "mset (insert_by lt x ys) = add_mset x (mset ys)"
  by (induction ys) auto

lemma mset_sort_stable [simp]: "mset (sort_stable lt xs) = mset xs"
  by (induction xs) (simp_all add: sort_stable_def)

lemma set_sort_stable [simp]: "set (sort_stable lt xs) = set xs"
  by (metis mset_sort_stable set_mset_mset)

lemma length_sort_stable [simp]: "length (sort_stable lt xs) = length xs"
  by (metis mset_sort_stable size_mset)

lemma insert_by_insort_key:
  fixes k :: "'a \<Rightarrow> 'k :: linorder"
  assumes "\<And>y. y \<in> set ys \<Longrightarrow> lt y x \<longleftrightarrow> k y < k x"
  shows "insert_by lt x ys = insort_key k x ys"
  using assms by (induction ys) (auto simp: not_le)

text \<open>Where \<open>lt\<close> compares a key of a linear order, the sort is the library's stable \<open>sort_key\<close>.\<close>

lemma sort_stable_sort_key:
  fixes k :: "'a \<Rightarrow> 'k :: linorder"
  assumes "\<And>x y. x \<in> set xs \<Longrightarrow> y \<in> set xs \<Longrightarrow> lt x y \<longleftrightarrow> k x < k y"
  shows "sort_stable lt xs = sort_key k xs"
  using assms
proof (induction xs)
  case Nil
  then show ?case by (simp add: sort_stable_def)
next
  case (Cons x xs)
  then have "sort_stable lt xs = sort_key k xs" by simp
  moreover have "insert_by lt x (sort_key k xs) = insort_key k x (sort_key k xs)"
    by (rule insert_by_insort_key) (simp add: Cons.prems)
  ultimately show ?case
    by (simp add: sort_stable_def)
qed

lemma sort_stable_sorted:
  fixes k :: "'a \<Rightarrow> 'k :: linorder"
  assumes "\<And>x y. x \<in> set xs \<Longrightarrow> y \<in> set xs \<Longrightarrow> lt x y \<longleftrightarrow> k x < k y"
  shows "sorted (map k (sort_stable lt xs))"
  by (simp add: sort_stable_sort_key [OF assms])

lemma sort_stable_map:
  assumes "\<And>x y. lt (f x) (f y) \<longleftrightarrow> lt' x y"
  shows "map f (sort_stable lt' xs) = sort_stable lt (map f xs)"
proof -
  have ins: "map f (insert_by lt' x ys) = insert_by lt (f x) (map f ys)" for x ys
    using assms by (induction ys) auto
  show ?thesis
    by (induction xs) (simp_all add: sort_stable_def ins)
qed

lemma sort_key_perm_unique:
  fixes k :: "'a \<Rightarrow> 'b :: linorder"
  assumes "mset xs = mset ys" "inj_on k (set xs)"
  shows "sort_key k xs = sort_key k ys"
proof -
  have "mset (map k (sort_key k xs)) = mset (map k (sort_key k ys))"
    using assms(1) by simp
  then have "map k (sort_key k xs) = map k (sort_key k ys)"
    using properties_for_sort [of "map k (sort_key k xs)" "map k (sort_key k ys)"]
      sorted_sort_key [of k xs] sorted_sort_key [of k ys] by (simp add: sorted_sort_id)
  moreover have "set xs = set ys"
    using assms(1) by (metis set_mset_mset)
  ultimately show ?thesis
    using assms(2) by (intro map_inj_on [of k]) simp_all
qed

section \<open>64-bit signed arithmetic\<close>

text \<open>Go's \<open>int\<close> and \<open>int64\<close> values are \<open>int\<close>; the result of an operation that can overflow wraps.\<close>

definition wrap64 :: "int \<Rightarrow> int" where
  "wrap64 x = sint (word_of_int x :: 64 word)"

lemma wrap64_id: "- (2 ^ 63) \<le> x \<Longrightarrow> x < 2 ^ 63 \<Longrightarrow> wrap64 x = x"
  by (simp add: wrap64_def sint_sbintrunc' signed_take_bit_int_eq_self)

text \<open>
  The sum of two non-negative values is negative exactly when it overflows; \<open>add_overflows\<close> is
  that test, which the decoders make after adding a length to an index.
\<close>

definition add_overflows :: "nat \<Rightarrow> int \<Rightarrow> bool" where
  "add_overflows i n \<longleftrightarrow> 2 ^ 63 \<le> int i + n"

lemma add_overflows_wrap64:
  assumes "int i < 2 ^ 63" "0 \<le> n" "n < 2 ^ 63"
  shows "add_overflows i n \<longleftrightarrow> wrap64 (int i + n) < 0"
proof (cases "int i + n < 2 ^ 63")
  case True
  then show ?thesis using assms(2) by (simp add: add_overflows_def wrap64_id)
next
  case False
  have "(word_of_int (2 ^ 64) :: 64 word) = 0" by (simp add: word_uint_eq_iff)
  then have "wrap64 (int i + n) = wrap64 (int i + n - 2 ^ 64)"
    by (simp only: wrap64_def of_int_diff diff_zero)
  also have "\<dots> = int i + n - 2 ^ 64"
    using assms False by (intro wrap64_id) simp_all
  finally show ?thesis using assms False by (simp add: add_overflows_def)
qed

end
