(* ===== verification/V2Proto.thy ===== *)
theory V2Proto
  imports Prelude
begin

unbundle bit_operations_syntax

text \<open>
  modules/opr/V2Content.pb.go: the protobuf encoding of a \<open>V2Content\<close>. The decoder keeps the
  index into the input as the code does; an index past the end is a panic of its own only where
  the code does not test for it. Slices are lists of bytes. The encoder's writes into the buffer
  of \<open>Size()\<close> bytes are appends, and a longer result is the panic an index past the end raises.
\<close>

section \<open>The message\<close>

record V2Content =
  Address :: string
  ID :: string
  Height :: "32 word"
  Winners :: "byte list list"
  Assets :: "u64 list"
  XXX_unrecognized :: "byte list"

definition zero_V2Content :: V2Content where
  "zero_V2Content = \<lparr>Address = [], ID = [], Height = 0, Winners = [], Assets = [],
     XXX_unrecognized = []\<rparr>"

section \<open>Encoding\<close>

function encodeVarint :: "u64 \<Rightarrow> byte list" where
  "encodeVarint v = (if 128 \<le> v then ucast ((v AND 0x7f) OR 0x80) # encodeVarint (drop_bit 7 v)
     else [ucast v])"
  by auto

lemma unat_drop_bit_7: "unat (drop_bit 7 (v :: u64)) = unat v div 128"
  unfolding unat_drop_bit_eq by (simp add: drop_bit_eq_div)

lemma drop_bit_7_less: "128 \<le> v \<Longrightarrow> unat (drop_bit 7 v) < unat (v :: u64)"
  unfolding unat_drop_bit_7 by (simp add: word_le_nat_alt)

termination encodeVarint
  by (relation "measure unat") (simp_all add: drop_bit_7_less)

declare encodeVarint.simps [simp del]

text \<open>The number of 7-bit groups; the loop tests after the shift.\<close>

function sov :: "u64 \<Rightarrow> nat" where
  "sov x = (let x' = drop_bit 7 x in if x' = 0 then 1 else 1 + sov x')"
  by auto

lemma drop_bit_7_nonzero: "drop_bit 7 x \<noteq> (0 :: u64) \<Longrightarrow> unat (drop_bit 7 x) < unat x"
  unfolding unat_eq_zero [symmetric] unat_drop_bit_7 by simp

termination sov
  by (relation "measure unat") (simp_all add: drop_bit_7_nonzero)

declare sov.simps [simp del]

definition len64 :: "'a list \<Rightarrow> u64" where
  "len64 xs = word_of_nat (length xs)"

definition enc_bytes :: "byte \<Rightarrow> byte list \<Rightarrow> byte list" where
  "enc_bytes tag bs = tag # encodeVarint (len64 bs) @ bs"

definition MarshalTo :: "V2Content \<Rightarrow> byte list" where
  "MarshalTo m =
     (if length (Address m) > 0 then enc_bytes 0x0a (bytes_of_string (Address m)) else [])
   @ (if length (ID m) > 0 then enc_bytes 0x12 (bytes_of_string (ID m)) else [])
   @ (if Height m \<noteq> 0 then 0x18 # encodeVarint (scast (Height m)) else [])
   @ concat (map (enc_bytes 0x22) (Winners m))
   @ (if length (Assets m) > 0 then enc_bytes 0x2a (concat (map encodeVarint (Assets m))) else [])
   @ XXX_unrecognized m"

definition sov_len :: "nat \<Rightarrow> nat" where
  "sov_len l = 1 + l + sov (word_of_nat l)"

definition Size :: "V2Content \<Rightarrow> nat" where
  "Size m =
     (if length (Address m) > 0 then sov_len (length (Address m)) else 0)
   + (if length (ID m) > 0 then sov_len (length (ID m)) else 0)
   + (if Height m \<noteq> 0 then 1 + sov (scast (Height m)) else 0)
   + sum_list (map (\<lambda>b. sov_len (length b)) (Winners m))
   + (if length (Assets m) > 0 then sov_len (sum_list (map sov (Assets m))) else 0)
   + length (XXX_unrecognized m)"

definition Marshal :: "V2Content \<Rightarrow> byte list res" where
  "Marshal m = (let size = Size m; out = MarshalTo m in
     guard_res (size < length out) (Panic ''index out of range'')
     (Inr (out @ replicate (size - length out) 0)))"

section \<open>Decoding\<close>

definition ErrIntOverflow :: go_error where
  "ErrIntOverflow = GoError ''proto: integer overflow''"
definition ErrInvalidLength :: go_error where
  "ErrInvalidLength = GoError ''proto: negative length found during unmarshaling''"
definition ErrUnexpectedEOF :: go_error where
  "ErrUnexpectedEOF = GoError ''unexpected EOF''"

text \<open>
  The varint loop, which the code repeats for every number it reads, with the accumulator at the
  width of the number: 64 bits for tags, lengths and assets, 32 bits for the height.
\<close>

function readVarint :: "byte list \<Rightarrow> nat \<Rightarrow> nat \<Rightarrow> 'a::len word \<Rightarrow> ('a word \<times> nat) res" where
  "readVarint dAtA iNdEx shift acc =
     (if 64 \<le> shift then Inl ErrIntOverflow
      else if length dAtA \<le> iNdEx then Inl ErrUnexpectedEOF
      else let b = dAtA ! iNdEx;
               acc' = acc OR push_bit shift (ucast (b AND 0x7f))
           in if b < 0x80 then Inr (acc', iNdEx + 1)
              else readVarint dAtA (iNdEx + 1) (shift + 7) acc')"
  by pat_completeness auto
termination readVarint
  by (relation "measure (\<lambda>(_, _, shift, _). 64 - shift)") auto

declare readVarint.simps [simp del]

text \<open>The end of a field of the given length that starts at \<open>iNdEx\<close>, with the code's tests.\<close>

definition field_end :: "byte list \<Rightarrow> nat \<Rightarrow> u64 \<Rightarrow> nat res" where
  "field_end dAtA iNdEx len = (let n = sint len; postIndex = iNdEx + nat n in
     guard_res (n < 0) ErrInvalidLength
     (guard_res (add_overflows iNdEx n) ErrInvalidLength
     (guard_res (length dAtA < postIndex) ErrUnexpectedEOF (Inr postIndex))))"

definition slice :: "byte list \<Rightarrow> nat \<Rightarrow> nat \<Rightarrow> byte list" where
  "slice dAtA lo hi = take (hi - lo) (drop lo dAtA)"

definition readBytes :: "byte list \<Rightarrow> nat \<Rightarrow> (byte list \<times> nat) res" where
  "readBytes dAtA iNdEx =
     rbind (readVarint dAtA iNdEx 0 (0 :: u64)) (\<lambda>(len, i).
     rbind (field_end dAtA i len) (\<lambda>postIndex.
     Inr (slice dAtA i postIndex, postIndex)))"

text \<open>
  \<open>skipV2Content\<close> on the rest of the input: one field of any wire type, a group with all its
  fields. Only the loop over a group's fields returns to it.
\<close>

function skipV2Content :: "byte list \<Rightarrow> nat res" and skip_group :: "byte list \<Rightarrow> nat \<Rightarrow> nat res" where
  "skipV2Content dAtA =
     (if length dAtA = 0 then Inl (Panic ''unreachable'')
      else case readVarint dAtA 0 0 (0 :: u64) of
        Inl e \<Rightarrow> Inl e
      | Inr (wire, iNdEx) \<Rightarrow> (let wireType = uint (wire AND 7) in
          if wireType = 0 then
            (case readVarint dAtA iNdEx 0 (0 :: u64) of Inl e \<Rightarrow> Inl e | Inr (_, i) \<Rightarrow> Inr i)
          else if wireType = 1 then Inr (iNdEx + 8)
          else if wireType = 2 then
            (case readVarint dAtA iNdEx 0 (0 :: u64) of
               Inl e \<Rightarrow> Inl e
             | Inr (len, i) \<Rightarrow>
                 guard_res (sint len < 0) ErrInvalidLength
                 (guard_res (add_overflows i (sint len)) ErrInvalidLength
                 (Inr (i + nat (sint len)))))
          else if wireType = 3 then skip_group dAtA iNdEx
          else if wireType = 4 then Inr iNdEx
          else if wireType = 5 then Inr (iNdEx + 4)
          else Inl (GoError ''proto: illegal wireType'')))"
| "skip_group dAtA start =
     (case readVarint dAtA start 0 (0 :: u64) of
        Inl e \<Rightarrow> Inl e
      | Inr (innerWire, iNdEx) \<Rightarrow>
          if uint (innerWire AND 7) = 4 then Inr iNdEx
          else case skipV2Content (drop start dAtA) of
            Inl e \<Rightarrow> Inl e
          | Inr next \<Rightarrow>
              if add_overflows start (int next) then Inl ErrInvalidLength
              else skip_group dAtA (start + next))"
  by pat_completeness auto


lemma readVarint_progress:
  "readVarint dAtA i shift acc = Inr (v, j) \<Longrightarrow> i < j \<and> i < length dAtA \<and> j \<le> length dAtA"
proof (induction dAtA i shift acc rule: readVarint.induct)
  case (1 dAtA i shift acc)
  show ?case
    using "1.prems" "1.IH" [OF _ _ refl refl]
    by (auto simp: readVarint.simps [of dAtA i shift acc] Let_def split: if_splits)
qed

lemma skip_progress:
  "skipV2Content_skip_group_dom (Inl d) \<Longrightarrow> skipV2Content d = Inr n \<Longrightarrow> 0 < n"
  "skipV2Content_skip_group_dom (Inr (d, s)) \<Longrightarrow> skip_group d s = Inr n \<Longrightarrow> s < n"
proof (induction arbitrary: n and n rule: skipV2Content_skip_group.pinduct)
  case (1 d)
  have "iNdEx < n" if "readVarint d 0 0 (0 :: u64) = Inr (wire, iNdEx)" "uint (wire AND 7) = 3"
    "skip_group d iNdEx = Inr n" "d \<noteq> []" for wire iNdEx
    using 1(2) [OF _ that(1) refl refl] that by simp
  with 1(1,3) show ?case
    by (auto simp: skipV2Content.psimps Let_def res_simps split: if_splits sum.splits prod.splits
        dest!: readVarint_progress)
next
  case (2 d s)
  then show ?case
    by (simp add: skip_group.psimps split: sum.splits prod.splits if_splits)
      (metis add_lessD1 readVarint_progress)+
qed

lemma skip_dom: "All skipV2Content_skip_group_dom"
  by (relation "measure (\<lambda>x. case x of Inl d \<Rightarrow> 2 * length d
        | Inr (d, s) \<Rightarrow> 2 * (length d - s) + 1)")
    (auto dest!: readVarint_progress skip_progress(1))

termination skipV2Content
  by (rule skip_dom)

declare skipV2Content.simps [simp del] skip_group.simps [simp del]

text \<open>One field: the tag, the checks on it, and the field by its number.\<close>

definition readAddress :: "byte list \<Rightarrow> V2Content \<Rightarrow> nat \<Rightarrow> int \<Rightarrow> (V2Content \<times> nat) res" where
  "readAddress dAtA m iNdEx wireType =
     guard_res (wireType \<noteq> 2) (GoError ''proto: wrong wireType for field Address'')
     (rbind (readBytes dAtA iNdEx) (\<lambda>(bs, i). Inr (m\<lparr>Address := string_of_bytes bs\<rparr>, i)))"

definition readID :: "byte list \<Rightarrow> V2Content \<Rightarrow> nat \<Rightarrow> int \<Rightarrow> (V2Content \<times> nat) res" where
  "readID dAtA m iNdEx wireType =
     guard_res (wireType \<noteq> 2) (GoError ''proto: wrong wireType for field ID'')
     (rbind (readBytes dAtA iNdEx) (\<lambda>(bs, i). Inr (m\<lparr>ID := string_of_bytes bs\<rparr>, i)))"

definition readHeight :: "byte list \<Rightarrow> V2Content \<Rightarrow> nat \<Rightarrow> int \<Rightarrow> (V2Content \<times> nat) res" where
  "readHeight dAtA m iNdEx wireType =
     guard_res (wireType \<noteq> 0) (GoError ''proto: wrong wireType for field Height'')
     (rbind (readVarint dAtA iNdEx 0 0) (\<lambda>(h, i). Inr (m\<lparr>Height := h\<rparr>, i)))"

definition readWinners :: "byte list \<Rightarrow> V2Content \<Rightarrow> nat \<Rightarrow> int \<Rightarrow> (V2Content \<times> nat) res" where
  "readWinners dAtA m iNdEx wireType =
     guard_res (wireType \<noteq> 2) (GoError ''proto: wrong wireType for field Winners'')
     (rbind (readBytes dAtA iNdEx) (\<lambda>(bs, i). Inr (m\<lparr>Winners := Winners m @ [bs]\<rparr>, i)))"

text \<open>The packed list: it is read until the index reaches its end, which the last number may pass.\<close>

function readPacked :: "byte list \<Rightarrow> u64 list \<Rightarrow> nat \<Rightarrow> nat \<Rightarrow> (u64 list \<times> nat) res" where
  "readPacked dAtA vs iNdEx postIndex =
     (if iNdEx < postIndex then
        (case readVarint dAtA iNdEx 0 0 of
           Inl e \<Rightarrow> Inl e
         | Inr (v, i) \<Rightarrow> readPacked dAtA (vs @ [v]) i postIndex)
      else Inr (vs, iNdEx))"
  by pat_completeness auto
termination
  by (relation "measure (\<lambda>(dAtA, _, iNdEx, _). length dAtA - iNdEx)")
    (auto dest!: readVarint_progress)

declare readPacked.simps [simp del]

definition readAssets :: "byte list \<Rightarrow> V2Content \<Rightarrow> nat \<Rightarrow> int \<Rightarrow> (V2Content \<times> nat) res" where
  "readAssets dAtA m iNdEx wireType =
     (if wireType = 0 then
        rbind (readVarint dAtA iNdEx 0 0) (\<lambda>(v, i). Inr (m\<lparr>Assets := Assets m @ [v]\<rparr>, i))
      else if wireType = 2 then
        rbind (readVarint dAtA iNdEx 0 (0 :: u64)) (\<lambda>(packedLen, i).
        rbind (field_end dAtA i packedLen) (\<lambda>postIndex.
        rbind (readPacked dAtA (Assets m) i postIndex) (\<lambda>(vs, j). Inr (m\<lparr>Assets := vs\<rparr>, j))))
      else Inl (GoError ''proto: wrong wireType for field Assets''))"

definition readUnknown :: "byte list \<Rightarrow> V2Content \<Rightarrow> nat \<Rightarrow> (V2Content \<times> nat) res" where
  "readUnknown dAtA m preIndex =
     rbind (skipV2Content (drop preIndex dAtA)) (\<lambda>skippy.
     guard_res (add_overflows preIndex (int skippy)) ErrInvalidLength
     (guard_res (length dAtA < preIndex + skippy) ErrUnexpectedEOF
     (Inr (m\<lparr>XXX_unrecognized := XXX_unrecognized m @ slice dAtA preIndex (preIndex + skippy)\<rparr>,
           preIndex + skippy))))"

definition readField :: "byte list \<Rightarrow> V2Content \<Rightarrow> nat \<Rightarrow> (V2Content \<times> nat) res" where
  "readField dAtA m preIndex =
     rbind (readVarint dAtA preIndex 0 (0 :: u64)) (\<lambda>(wire, iNdEx).
     let fieldNum = sint (ucast (drop_bit 3 wire) :: 32 word); wireType = uint (wire AND 7) in
     guard_res (wireType = 4) (GoError ''proto: V2Content: wiretype end group for non-group'')
     (guard_res (fieldNum \<le> 0) (GoError ''proto: V2Content: illegal tag'')
     (if fieldNum = 1 then readAddress dAtA m iNdEx wireType
      else if fieldNum = 2 then readID dAtA m iNdEx wireType
      else if fieldNum = 3 then readHeight dAtA m iNdEx wireType
      else if fieldNum = 4 then readWinners dAtA m iNdEx wireType
      else if fieldNum = 5 then readAssets dAtA m iNdEx wireType
      else readUnknown dAtA m preIndex)))"

lemma field_end_ge: "field_end dAtA i len = Inr j \<Longrightarrow> i \<le> j \<and> j \<le> length dAtA"
  by (auto simp: field_end_def Let_def res_simps)

lemma readBytes_progress: "readBytes dAtA i = Inr (bs, j) \<Longrightarrow> i < j"
  by (auto simp: readBytes_def res_simps dest!: readVarint_progress field_end_ge)

lemma readPacked_ge: "readPacked dAtA vs i p = Inr (vs', j) \<Longrightarrow> i \<le> j"
proof (induction dAtA vs i p rule: readPacked.induct)
  case (1 dAtA vs i p)
  show ?case
  proof (cases "i < p")
    case True
    with "1.prems" obtain v k where k: "readVarint dAtA i 0 0 = Inr (v, k)"
        "readPacked dAtA (vs @ [v]) k p = Inr (vs', j)"
      by (auto simp: readPacked.simps [of dAtA vs i p] split: sum.splits)
    then have "k \<le> j" using "1.IH" [OF True k(1) refl] by simp
    with readVarint_progress [OF k(1)] show ?thesis by simp
  qed (use "1.prems" in \<open>simp add: readPacked.simps [of dAtA vs i p]\<close>)
qed

lemma skip_pos: "skipV2Content d = Inr n \<Longrightarrow> 0 < n"
  by (rule skip_progress(1) [OF spec [OF skip_dom]])

lemma readAddress_progress: "readAddress d m i w = Inr (m', j) \<Longrightarrow> i < j"
  by (auto simp: readAddress_def res_simps dest: readBytes_progress)

lemma readID_progress: "readID d m i w = Inr (m', j) \<Longrightarrow> i < j"
  by (auto simp: readID_def res_simps dest: readBytes_progress)

lemma readHeight_progress: "readHeight d m i w = Inr (m', j) \<Longrightarrow> i < j"
  by (auto simp: readHeight_def res_simps dest: readVarint_progress)

lemma readWinners_progress: "readWinners d m i w = Inr (m', j) \<Longrightarrow> i < j"
  by (auto simp: readWinners_def res_simps dest: readBytes_progress)

lemma readAssets_progress: "readAssets d m i w = Inr (m', j) \<Longrightarrow> i < j"
  by (auto simp: readAssets_def res_simps split: if_splits
      dest!: readVarint_progress readPacked_ge)

lemma readUnknown_progress: "readUnknown d m i = Inr (m', j) \<Longrightarrow> i < j"
  by (auto simp: readUnknown_def res_simps dest: skip_pos)

lemmas reader_progress = readAddress_progress readID_progress readHeight_progress
  readWinners_progress readAssets_progress readUnknown_progress

lemma readField_progress:
  assumes "readField dAtA m i = Inr (m', j)"
  shows "i < j \<and> i < length dAtA"
proof -
  obtain wire k where w: "readVarint dAtA i 0 (0 :: u64) = Inr (wire, k)"
    using assms by (auto simp: readField_def res_simps)
  note progress = readVarint_progress [OF this]
  have "i < j"
    using assms w progress
    by (simp add: readField_def Let_def res_simps split: if_splits) (auto dest!: reader_progress)
  with progress show ?thesis by simp
qed

function unmarshal_loop :: "byte list \<Rightarrow> V2Content \<Rightarrow> nat \<Rightarrow> V2Content res" where
  "unmarshal_loop dAtA m iNdEx =
     (if iNdEx < length dAtA then
        (case readField dAtA m iNdEx of
           Inl e \<Rightarrow> Inl e
         | Inr (m', i) \<Rightarrow> unmarshal_loop dAtA m' i)
      else if length dAtA < iNdEx then Inl ErrUnexpectedEOF
      else Inr m)"
  by pat_completeness auto
termination
  by (relation "measure (\<lambda>(dAtA, _, iNdEx). length dAtA - iNdEx)")
    (auto dest!: readField_progress)

declare unmarshal_loop.simps [simp del]

definition Unmarshal :: "V2Content \<Rightarrow> byte list \<Rightarrow> V2Content res" where
  "Unmarshal m dAtA = unmarshal_loop dAtA m 0"


section \<open>Reading back what was written\<close>

lemma drop_bit_7_zero: "drop_bit 7 (v :: u64) = 0 \<longleftrightarrow> v < 128"
proof -
  have "drop_bit 7 v = 0 \<longleftrightarrow> unat v div 128 = 0"
    unfolding unat_drop_bit_7 [symmetric] by (simp add: unat_eq_zero)
  then show ?thesis by (simp add: word_less_nat_alt div_eq_0_iff)
qed

lemma length_encodeVarint [len_simps]: "length (encodeVarint v) = sov v"
proof (induction v rule: encodeVarint.induct)
  case (1 v)
  show ?case
  proof (cases "128 \<le> v")
    case True
    then show ?thesis
      using 1 by (simp add: encodeVarint.simps [of v] sov.simps [of v] drop_bit_7_zero Let_def leD)
  next
    case False
    then show ?thesis
      by (simp add: encodeVarint.simps [of v] sov.simps [of v] drop_bit_7_zero Let_def del: not_less) (simp add: not_le)
  qed
qed

lemma length_enc_bytes [len_simps]: "length (enc_bytes t bs) = sov_len (length bs)"
  by (simp add: enc_bytes_def sov_len_def len64_def len_simps)

lemma length_MarshalTo: "length (MarshalTo m) = Size m"
  by (simp add: MarshalTo_def Size_def len_simps length_concat comp_def)

lemma Marshal_eq: "Marshal m = Inr (MarshalTo m)"
  by (simp add: Marshal_def length_MarshalTo Let_def)

lemma low_byte: "(ucast ((v AND 0x7f) OR 0x80 :: u64) :: byte) AND 0x7f = ucast (take_bit 7 v)"
proof (rule bit_word_eqI)
  fix n assume "n < LENGTH(8)"
  have m: "(0x7f :: u64) = mask 7" "(0x7f :: byte) = mask 7"
    by (simp_all add: mask_numeral)
  have h: "(0x80 :: u64) = 2 ^ 7" by simp
  have h2: "\<not> bit (0x80 :: u64) n" if "n < 7"
    unfolding h bit_exp_iff using that by simp
  show "bit ((ucast ((v AND 0x7f) OR 0x80 :: u64) :: byte) AND 0x7f) n = bit (ucast (take_bit 7 v) :: byte) n"
    unfolding m using \<open>n < LENGTH(8)\<close> h2 by (auto simp: bit_simps take_bit_eq_mask)
qed

lemma varint_acc_step:
  fixes v :: u64 and acc :: "'a::len word"
  assumes "LENGTH('a) \<le> 64"
  shows "(acc OR push_bit s (ucast (ucast (take_bit 7 v) :: byte)))
     OR push_bit (s + 7) (ucast (drop_bit 7 v)) = acc OR push_bit s (ucast v)"
proof (rule bit_word_eqI)
  fix n assume n: "n < LENGTH('a)"
  have "bit (push_bit s (ucast (ucast (take_bit 7 v) :: byte)) :: 'a word) n
      \<or> bit (push_bit (s + 7) (ucast (drop_bit 7 v)) :: 'a word) n
      \<longleftrightarrow> bit (push_bit s (ucast v) :: 'a word) n"
  proof (cases "n < s + 7")
    case True
    then show ?thesis using n assms by (auto simp: bit_simps)
  next
    case False
    then have "7 + (n - (s + 7)) = n - s" by simp
    then show ?thesis using n assms False by (auto simp: bit_simps)
  qed
  then show "bit ((acc OR push_bit s (ucast (ucast (take_bit 7 v) :: byte)))
     OR push_bit (s + 7) (ucast (drop_bit 7 v))) n = bit (acc OR push_bit s (ucast v)) n"
    by (simp only: bit_or_iff disj_assoc)
qed

lemma byte_less_128: "(v :: byte) < 128 \<longleftrightarrow> take_bit 7 v = v"
  by (simp add: word_less_nat_alt word_unat_eq_iff unsigned_take_bit_eq take_bit_nat_eq_self_iff)

lemma u64_less_128: "(v :: u64) < 128 \<longleftrightarrow> take_bit 7 v = v"
  by (simp add: word_less_nat_alt word_unat_eq_iff unsigned_take_bit_eq take_bit_nat_eq_self_iff)

lemma low_128:
  assumes "(v :: u64) < 128"
  shows "(ucast v :: byte) < 0x80" "(ucast v :: byte) AND 0x7f = ucast v"
    "ucast (ucast v :: byte) = (ucast v :: 'a::len word)"
proof -
  have v: "take_bit 7 v = v" using assms by (simp add: u64_less_128)
  have b: "bit v n \<Longrightarrow> n < 7" for n
    using v by (metis bit_take_bit_iff)
  have t: "take_bit 7 (ucast v :: byte) = ucast v"
    by (rule bit_word_eqI) (auto simp: bit_simps dest: b)
  then show "(ucast v :: byte) < 0x80" by (simp add: byte_less_128)
  have "(0x7f :: byte) = mask 7" by (simp add: mask_numeral)
  with t show "(ucast v :: byte) AND 0x7f = ucast v" by (simp add: take_bit_eq_mask)
  show "ucast (ucast v :: byte) = (ucast v :: 'a word)"
    by (rule bit_word_eqI) (auto simp: bit_simps dest: b)
qed

lemma low_byte_ge: "\<not> (ucast ((v AND 0x7f) OR 0x80 :: u64) :: byte) < 0x80"
proof -
  have h: "(0x80 :: u64) = 2 ^ 7" by simp
  have "bit (ucast ((v AND 0x7f) OR 0x80 :: u64) :: byte) 7"
    unfolding h by (simp only: bit_simps) simp
  then show ?thesis
    unfolding byte_less_128 by (metis bit_take_bit_iff less_irrefl)
qed

lemma readVarint_encode:
  fixes acc :: "'a::len word" and v :: u64
  assumes "LENGTH('a) \<le> 64" "s < 64" "unat v < 2 ^ (64 - s)"
  shows "readVarint (pre @ encodeVarint v @ suf) (length pre) s acc
    = Inr (acc OR push_bit s (ucast v), length pre + length (encodeVarint v))"
  using assms(2,3)
proof (induction v arbitrary: pre s acc rule: encodeVarint.induct)
  case (1 v)
  show ?case
  proof (cases "128 \<le> v")
    case False
    then have e: "encodeVarint v = [ucast v]" by (simp add: encodeVarint.simps [of v])
    from False have lt: "v < 128" by simp
    from low_128(1,2) [OF lt] low_128(3) [OF lt, where 'a = 'a] 1(2) show ?thesis
      by (simp add: readVarint.simps [of _ "length pre"] e Let_def nth_append)
  next
    case True
    let ?b = "ucast ((v AND 0x7f) OR 0x80) :: byte"
    have e: "encodeVarint v = ?b # encodeVarint (drop_bit 7 v)"
      using True by (simp add: encodeVarint.simps [of v])
    have big: "128 \<le> unat v" using True by (simp add: word_le_nat_alt)
    have s: "s + 7 < 64"
    proof (rule ccontr)
      assume "\<not> s + 7 < 64"
      then have "(2 :: nat) ^ (64 - s) \<le> 2 ^ 7" by (intro power_increasing) auto
      with big 1(3) show False by simp
    qed
    have "64 - s = (64 - (s + 7)) + 7" using s by simp
    then have "(2 :: nat) ^ (64 - s) = 2 ^ (64 - (s + 7)) * 2 ^ 7" by (metis power_add)
    then have "unat v < 2 ^ (64 - (s + 7)) * 2 ^ 7" using 1(3) by simp
    then have lt: "unat (drop_bit 7 v) < 2 ^ (64 - (s + 7))"
      unfolding unat_drop_bit_7 by (simp add: div_less_iff_less_mult)
    have "readVarint (pre @ encodeVarint v @ suf) (length pre) s acc
        = readVarint ((pre @ [?b]) @ encodeVarint (drop_bit 7 v) @ suf) (length (pre @ [?b])) (s + 7)
            (acc OR push_bit s (ucast (ucast (take_bit 7 v) :: byte)))"
      using 1(2) by (simp add: readVarint.simps [of _ "length pre"] e low_byte_ge low_byte Let_def nth_append del: readVarint.simps)
    also have "\<dots> = Inr ((acc OR push_bit s (ucast (ucast (take_bit 7 v) :: byte)))
        OR push_bit (s + 7) (ucast (drop_bit 7 v)), length (pre @ [?b]) + length (encodeVarint (drop_bit 7 v)))"
      by (rule 1(1) [OF True s lt])
    finally show ?thesis
      by (simp only: varint_acc_step [OF assms(1)]) (simp add: e)
  qed
qed

lemma readVarint_encode0:
  fixes v :: u64
  assumes "LENGTH('a) \<le> 64"
  shows "readVarint (pre @ encodeVarint v @ suf) (length pre) 0 (0 :: 'a::len word)
    = Inr (ucast v, length pre + length (encodeVarint v))"
proof -
  have "unat v < 2 ^ (64 - 0)"
    using unsigned_less [of v, where 'a = nat] by simp
  from readVarint_encode [OF assms _ this] show ?thesis by simp
qed

lemma readVarint_encode_u64:
  "readVarint (pre @ encodeVarint v @ suf) (length pre) 0 (0 :: u64)
    = Inr (v, length pre + length (encodeVarint v))"
  by (simp add: readVarint_encode0)

lemma field_end_len64:
  assumes "length bs < 2 ^ 63" "length pre + length bs < 2 ^ 63"
  shows "field_end (pre @ bs @ suf) (length pre) (len64 bs) = Inr (length pre + length bs)"
proof -
  have "sint (len64 bs) = int (length bs)"
  proof -
    have "len64 bs = word_of_int (int (length bs))" by (simp add: len64_def)
    then show ?thesis using assms(1) by (simp only: sint_sbintrunc') (simp add: signed_take_bit_int_eq_self)
  qed
  then show ?thesis using assms(2) by (simp add: field_end_def Let_def add_overflows_def)
qed

lemma slice_mid [simp]: "slice (pre @ bs @ suf) (length pre) (length pre + length bs) = bs"
  by (simp add: slice_def)

lemma readBytes_enc:
  assumes "length (pre @ enc_bytes t bs @ suf) < 2 ^ 63"
  shows "readBytes (pre @ enc_bytes t bs @ suf) (length pre + 1) = Inr (bs, length pre + length (enc_bytes t bs))"
proof -
  have d: "pre @ enc_bytes t bs @ suf = (pre @ [t]) @ encodeVarint (len64 bs) @ (bs @ suf)"
    "pre @ enc_bytes t bs @ suf = (pre @ t # encodeVarint (len64 bs)) @ bs @ suf"
    by (simp_all add: enc_bytes_def)
  have 1: "readVarint (pre @ enc_bytes t bs @ suf) (length pre + 1) 0 (0 :: u64)
      = Inr (len64 bs, length (pre @ t # encodeVarint (len64 bs)))"
    unfolding d(1) using readVarint_encode_u64 [of "pre @ [t]" "len64 bs" "bs @ suf"] by simp
  have 2: "field_end (pre @ enc_bytes t bs @ suf) (length (pre @ t # encodeVarint (len64 bs))) (len64 bs)
      = Inr (length (pre @ t # encodeVarint (len64 bs)) + length bs)"
    unfolding d(2) using assms by (intro field_end_len64) (simp_all add: enc_bytes_def)
  show ?thesis
    unfolding readBytes_def 1 rbind.simps prod.case 2
    using slice_mid [of "pre @ t # encodeVarint (len64 bs)" bs suf] by (simp add: enc_bytes_def)
qed

lemma readVarint_tag:
  assumes "t < 0x80"
  shows "readVarint (pre @ t # suf) (length pre) 0 (0 :: u64) = Inr (ucast t, length pre + 1)"
proof -
  have "take_bit 7 t = t" using assms by (simp add: byte_less_128)
  moreover have "(0x7f :: byte) = mask 7" by (simp add: mask_numeral)
  ultimately have "t AND 0x7f = t" by (metis take_bit_eq_mask)
  with assms show ?thesis
    by (simp add: readVarint.simps [of _ "length pre"] Let_def nth_append)
qed

lemma enc_bytes_Cons: "pre @ enc_bytes t bs @ suf = pre @ t # (encodeVarint (len64 bs) @ bs @ suf)"
  by (simp add: enc_bytes_def)

lemma readField_Address:
  assumes "length (pre @ enc_bytes 0x0a bs @ suf) < 2 ^ 63"
  shows "readField (pre @ enc_bytes 0x0a bs @ suf) m (length pre)
    = Inr (m\<lparr>Address := string_of_bytes bs\<rparr>, length pre + length (enc_bytes 0x0a bs))"
proof -
  have t: "readVarint (pre @ enc_bytes 0x0a bs @ suf) (length pre) 0 (0 :: u64) = Inr (0x0a, length pre + 1)"
    unfolding enc_bytes_Cons by (subst readVarint_tag) simp_all
  have c: "drop_bit 3 (0x0a :: u64) = 1" "uint ((0x0a :: u64) AND 7) = 2" by code_simp+
  show ?thesis
    using readBytes_enc [OF assms]
    by (simp add: readField_def t c readAddress_def rbind.simps Let_def)
qed

lemma readField_ID:
  assumes "length (pre @ enc_bytes 0x12 bs @ suf) < 2 ^ 63"
  shows "readField (pre @ enc_bytes 0x12 bs @ suf) m (length pre)
    = Inr (m\<lparr>ID := string_of_bytes bs\<rparr>, length pre + length (enc_bytes 0x12 bs))"
proof -
  have t: "readVarint (pre @ enc_bytes 0x12 bs @ suf) (length pre) 0 (0 :: u64) = Inr (0x12, length pre + 1)"
    unfolding enc_bytes_Cons by (subst readVarint_tag) simp_all
  have c: "drop_bit 3 (0x12 :: u64) = 2" "uint ((0x12 :: u64) AND 7) = 2" by code_simp+
  show ?thesis
    using readBytes_enc [OF assms]
    by (simp add: readField_def t c readID_def Let_def)
qed

lemma readField_Winner:
  assumes "length (pre @ enc_bytes 0x22 bs @ suf) < 2 ^ 63"
  shows "readField (pre @ enc_bytes 0x22 bs @ suf) m (length pre)
    = Inr (m\<lparr>Winners := Winners m @ [bs]\<rparr>, length pre + length (enc_bytes 0x22 bs))"
proof -
  have t: "readVarint (pre @ enc_bytes 0x22 bs @ suf) (length pre) 0 (0 :: u64) = Inr (0x22, length pre + 1)"
    unfolding enc_bytes_Cons by (subst readVarint_tag) simp_all
  have c: "drop_bit 3 (0x22 :: u64) = 4" "uint ((0x22 :: u64) AND 7) = 2" by code_simp+
  show ?thesis
    using readBytes_enc [OF assms]
    by (simp add: readField_def t c readWinners_def Let_def)
qed

lemma ucast_scast_height: "ucast (scast (h :: 32 word) :: u64) = h"
proof (rule bit_word_eqI)
  fix n assume "n < LENGTH(32)"
  then have "n < 31 \<or> n = 31" by auto
  then show "bit (ucast (scast h :: u64) :: 32 word) n = bit h n"
    by (auto simp: bit_simps min_def)
qed

lemma readField_Height:
  "readField (pre @ (0x18 # encodeVarint (scast h)) @ suf) m (length pre)
    = Inr (m\<lparr>Height := h\<rparr>, length pre + length (0x18 # encodeVarint (scast h)))"
proof -
  have t: "readVarint (pre @ 0x18 # encodeVarint (scast h) @ suf) (length pre) 0 (0 :: u64) = Inr (0x18, length pre + 1)"
    using readVarint_tag [of "0x18" pre "encodeVarint (scast h) @ suf"] by simp
  have c: "drop_bit 3 (0x18 :: u64) = 3" "uint ((0x18 :: u64) AND 7) = 0" by code_simp+
  have "readVarint (pre @ (0x18 # encodeVarint (scast h)) @ suf) (length pre + 1) 0 (0 :: 32 word)
      = Inr (h, length pre + length (0x18 # encodeVarint (scast h)))"
    using readVarint_encode0 [where 'a = 32, of "pre @ [0x18]" "scast h" suf]
    by (simp add: ucast_scast_height)
  then show ?thesis
    by (simp add: readField_def t c readHeight_def Let_def)
qed

lemma readPacked_encode:
  "readPacked (pre @ concat (map encodeVarint vs) @ suf) acc (length pre)
     (length pre + length (concat (map encodeVarint vs)))
   = Inr (acc @ vs, length pre + length (concat (map encodeVarint vs)))"
proof (induction vs arbitrary: pre acc)
  case Nil
  then show ?case by (simp add: readPacked.simps)
next
  case (Cons v vs)
  let ?rest = "concat (map encodeVarint vs)"
  have pos: "0 < length (encodeVarint v)"
    by (simp add: encodeVarint.simps [of v])
  have "readVarint (pre @ concat (map encodeVarint (v # vs)) @ suf) (length pre) 0 (0 :: u64)
      = Inr (v, length (pre @ encodeVarint v))"
    using readVarint_encode_u64 [of pre v "?rest @ suf"] by simp
  then have "readPacked (pre @ concat (map encodeVarint (v # vs)) @ suf) acc (length pre)
     (length pre + length (concat (map encodeVarint (v # vs))))
    = readPacked ((pre @ encodeVarint v) @ ?rest @ suf) (acc @ [v]) (length (pre @ encodeVarint v))
       (length (pre @ encodeVarint v) + length ?rest)"
    using pos by (simp add: readPacked.simps [of _ _ "length pre"] add.assoc)
  also have "\<dots> = Inr ((acc @ [v]) @ vs, length (pre @ encodeVarint v) + length ?rest)"
    by (rule Cons)
  finally show ?case by (simp add: add.assoc)
qed

lemma readField_Assets:
  fixes vs
  defines "bs \<equiv> concat (map encodeVarint vs)"
  assumes "length (pre @ enc_bytes 0x2a bs @ suf) < 2 ^ 63"
  shows "readField (pre @ enc_bytes 0x2a bs @ suf) m (length pre)
    = Inr (m\<lparr>Assets := Assets m @ vs\<rparr>, length pre + length (enc_bytes 0x2a bs))"
proof -
  let ?pre = "pre @ 0x2a # encodeVarint (len64 bs)"
  have t: "readVarint (pre @ enc_bytes 0x2a bs @ suf) (length pre) 0 (0 :: u64) = Inr (0x2a, length pre + 1)"
    unfolding enc_bytes_Cons by (subst readVarint_tag) simp_all
  have c: "drop_bit 3 (0x2a :: u64) = 5" "uint ((0x2a :: u64) AND 7) = 2" by code_simp+
  have d: "pre @ enc_bytes 0x2a bs @ suf = ?pre @ bs @ suf" by (simp add: enc_bytes_def)
  have l: "readVarint (pre @ enc_bytes 0x2a bs @ suf) (length pre + 1) 0 (0 :: u64) = Inr (len64 bs, length ?pre)"
    using readVarint_encode_u64 [of "pre @ [0x2a]" "len64 bs" "bs @ suf"] by (simp add: enc_bytes_def)
  have e: "field_end (pre @ enc_bytes 0x2a bs @ suf) (length ?pre) (len64 bs) = Inr (length ?pre + length bs)"
    unfolding d using assms(2) by (intro field_end_len64) (simp_all add: enc_bytes_def)
  have r: "readPacked (pre @ enc_bytes 0x2a bs @ suf) (Assets m) (length ?pre) (length ?pre + length bs)
      = Inr (Assets m @ vs, length ?pre + length bs)"
    unfolding d by (simp only: bs_def readPacked_encode)
  have "length ?pre + length bs = length pre + length (enc_bytes 0x2a bs)" by (simp add: enc_bytes_def)
  with l e r show ?thesis
    by (simp add: readField_def t c readAssets_def Let_def)
qed

text \<open>One more field of the loop.\<close>

lemma unmarshal_step:
  assumes "readField (pre @ part @ suf) m (length pre) = Inr (m', length pre + length part)"
    "part \<noteq> []"
  shows "unmarshal_loop (pre @ part @ suf) m (length pre)
    = unmarshal_loop (pre @ part @ suf) m' (length (pre @ part))"
  using assms by (simp add: unmarshal_loop.simps [of _ m])

lemma enc_bytes_not_Nil [simp]: "enc_bytes t bs \<noteq> []"
  by (simp add: enc_bytes_def)

lemma unmarshal_Winners:
  assumes "length (pre @ concat (map (enc_bytes 0x22) ws) @ suf) < 2 ^ 63"
  shows "unmarshal_loop (pre @ concat (map (enc_bytes 0x22) ws) @ suf) m (length pre)
    = unmarshal_loop (pre @ concat (map (enc_bytes 0x22) ws) @ suf)
        (m\<lparr>Winners := Winners m @ ws\<rparr>) (length (pre @ concat (map (enc_bytes 0x22) ws)))"
  using assms
proof (induction ws arbitrary: pre m)
  case (Cons w ws)
  let ?rest = "concat (map (enc_bytes 0x22) ws)"
  have "unmarshal_loop (pre @ enc_bytes 0x22 w @ (?rest @ suf)) m (length pre)
      = unmarshal_loop (pre @ enc_bytes 0x22 w @ (?rest @ suf)) (m\<lparr>Winners := Winners m @ [w]\<rparr>)
          (length (pre @ enc_bytes 0x22 w))"
    using Cons.prems by (intro unmarshal_step readField_Winner) simp_all
  also have "pre @ enc_bytes 0x22 w @ (?rest @ suf) = (pre @ enc_bytes 0x22 w) @ ?rest @ suf" by simp
  also have "unmarshal_loop ((pre @ enc_bytes 0x22 w) @ ?rest @ suf) (m\<lparr>Winners := Winners m @ [w]\<rparr>)
          (length (pre @ enc_bytes 0x22 w))
      = unmarshal_loop ((pre @ enc_bytes 0x22 w) @ ?rest @ suf)
          (m\<lparr>Winners := Winners m @ [w], Winners := Winners (m\<lparr>Winners := Winners m @ [w]\<rparr>) @ ws\<rparr>)
          (length ((pre @ enc_bytes 0x22 w) @ ?rest))"
    using Cons.prems by (intro Cons.IH) simp
  finally show ?case by simp
qed simp


lemma unmarshal_Address:
  fixes a
  defines "A \<equiv> if length a > 0 then enc_bytes 0x0a (bytes_of_string a) else []"
  assumes "length (pre @ A @ suf) < 2 ^ 63" "Address m = []"
  shows "unmarshal_loop (pre @ A @ suf) m (length pre)
    = unmarshal_loop (pre @ A @ suf) (m\<lparr>Address := a\<rparr>) (length (pre @ A))"
proof (cases "a = []")
  case True
  then show ?thesis using assms(3) by (cases m) (simp add: A_def)
next
  case False
  then have "A = enc_bytes 0x0a (bytes_of_string a)" by (simp add: A_def)
  then show ?thesis
    using assms(2) readField_Address [of pre "bytes_of_string a" suf m]
      unmarshal_step [of pre A suf m "m\<lparr>Address := a\<rparr>"] by simp
qed

lemma unmarshal_ID:
  fixes a
  defines "A \<equiv> if length a > 0 then enc_bytes 0x12 (bytes_of_string a) else []"
  assumes "length (pre @ A @ suf) < 2 ^ 63" "ID m = []"
  shows "unmarshal_loop (pre @ A @ suf) m (length pre)
    = unmarshal_loop (pre @ A @ suf) (m\<lparr>ID := a\<rparr>) (length (pre @ A))"
proof (cases "a = []")
  case True
  then show ?thesis using assms(3) by (cases m) (simp add: A_def)
next
  case False
  then have "A = enc_bytes 0x12 (bytes_of_string a)" by (simp add: A_def)
  then show ?thesis
    using assms(2) readField_ID [of pre "bytes_of_string a" suf m]
      unmarshal_step [of pre A suf m "m\<lparr>ID := a\<rparr>"] by simp
qed

lemma unmarshal_Height:
  fixes h
  defines "H \<equiv> if h \<noteq> 0 then 0x18 # encodeVarint (scast h) else []"
  assumes "Height m = 0"
  shows "unmarshal_loop (pre @ H @ suf) m (length pre)
    = unmarshal_loop (pre @ H @ suf) (m\<lparr>Height := h\<rparr>) (length (pre @ H))"
proof (cases "h = 0")
  case True
  then show ?thesis using assms(2) by (cases m) (simp add: H_def)
next
  case False
  then have "H = 0x18 # encodeVarint (scast h)" by (simp add: H_def)
  then show ?thesis
    using readField_Height [of pre h suf m]
      unmarshal_step [of pre H suf m "m\<lparr>Height := h\<rparr>"] by simp
qed

lemma unmarshal_Assets:
  fixes vs
  defines "A \<equiv> if length vs > 0 then enc_bytes 0x2a (concat (map encodeVarint vs)) else []"
  assumes "length (pre @ A @ suf) < 2 ^ 63" "Assets m = []"
  shows "unmarshal_loop (pre @ A @ suf) m (length pre)
    = unmarshal_loop (pre @ A @ suf) (m\<lparr>Assets := vs\<rparr>) (length (pre @ A))"
proof (cases "vs = []")
  case True
  then show ?thesis using assms(3) by (cases m) (simp add: A_def)
next
  case False
  then have "A = enc_bytes 0x2a (concat (map encodeVarint vs))" by (simp add: A_def)
  then show ?thesis
    using assms(2,3) readField_Assets [of pre vs suf m]
      unmarshal_step [of pre A suf m "m\<lparr>Assets := vs\<rparr>"] by simp
qed

lemma Unmarshal_MarshalTo:
  assumes "length (MarshalTo m) < 2 ^ 63" "XXX_unrecognized m = []"
  shows "Unmarshal zero_V2Content (MarshalTo m) = Inr m"
proof -
  define A where "A = (if Address m \<noteq> [] then enc_bytes 0x0a (bytes_of_string (Address m)) else [])"
  define I where "I = (if ID m \<noteq> [] then enc_bytes 0x12 (bytes_of_string (ID m)) else [])"
  define H where "H = (if Height m \<noteq> 0 then 0x18 # encodeVarint (scast (Height m)) else [])"
  define W where "W = concat (map (enc_bytes 0x22) (Winners m))"
  define S where "S = (if Assets m \<noteq> [] then enc_bytes 0x2a (concat (map encodeVarint (Assets m))) else [])"
  note parts = A_def I_def H_def W_def S_def
  let ?d = "A @ I @ H @ W @ S"
  have d: "MarshalTo m = ?d" by (simp add: MarshalTo_def parts assms(2))
  have len: "length ?d < 2 ^ 63" using assms(1) d by simp
  let ?m1 = "zero_V2Content\<lparr>Address := Address m\<rparr>"
  let ?m2 = "?m1\<lparr>ID := ID m\<rparr>"
  let ?m3 = "?m2\<lparr>Height := Height m\<rparr>"
  let ?m4 = "?m3\<lparr>Winners := Winners m\<rparr>"
  let ?m5 = "?m4\<lparr>Assets := Assets m\<rparr>"
  note zero = zero_V2Content_def
  have "unmarshal_loop ?d zero_V2Content 0 = unmarshal_loop ?d ?m1 (length A)"
    using unmarshal_Address [of "[]" "Address m" "I @ H @ W @ S" zero_V2Content] len
    by (simp add: zero flip: A_def)
  also have "\<dots> = unmarshal_loop ?d ?m2 (length (A @ I))"
    using unmarshal_ID [of A "ID m" "H @ W @ S" ?m1] len by (simp add: zero flip: I_def)
  also have "\<dots> = unmarshal_loop ?d ?m3 (length (A @ I @ H))"
    using unmarshal_Height [of ?m2 "A @ I" "Height m" "W @ S"] by (simp add: zero flip: H_def)
  also have "\<dots> = unmarshal_loop ?d ?m4 (length (A @ I @ H @ W))"
    using unmarshal_Winners [of "A @ I @ H" "Winners m" S ?m3] len by (simp add: zero flip: W_def)
  also have "\<dots> = unmarshal_loop ?d ?m5 (length ?d)"
    using unmarshal_Assets [of "A @ I @ H @ W" "Assets m" "[]" ?m4] len by (simp add: zero flip: S_def)
  also have "\<dots> = Inr ?m5"
    by (simp add: unmarshal_loop.simps)
  also have "?m5 = m" using assms(2) by (cases m) (simp add: zero)
  finally show ?thesis by (simp add: Unmarshal_def d)
qed


section \<open>The decoder does not panic\<close>

lemma Err_no_panic [no_panic]:
  "\<not> is_panic (Inl ErrIntOverflow)" "\<not> is_panic (Inl ErrInvalidLength)" "\<not> is_panic (Inl ErrUnexpectedEOF)"
  by (simp_all add: ErrIntOverflow_def ErrInvalidLength_def ErrUnexpectedEOF_def)

lemma readVarint_no_panic [no_panic]: "\<not> is_panic (readVarint d i s acc)"
proof (induction d i s acc rule: readVarint.induct)
  case (1 d i s acc)
  then show ?case
    by (subst readVarint.simps) (auto simp: Let_def no_panic)
qed

lemma field_end_no_panic [no_panic]: "\<not> is_panic (field_end d i len)"
  unfolding field_end_def Let_def by (intro no_panic)

lemma readBytes_no_panic [no_panic]: "\<not> is_panic (readBytes d i)"
  unfolding readBytes_def by (intro no_panic)

lemma readPacked_no_panic [no_panic]: "\<not> is_panic (readPacked d vs i p)"
proof (induction d vs i p rule: readPacked.induct)
  case (1 d vs i p)
  then show ?case
    by (subst readPacked.simps) (intro no_panic, auto)
qed

lemma skip_no_panic:
  "d \<noteq> [] \<Longrightarrow> \<not> is_panic (skipV2Content d)" "\<not> is_panic (skip_group d s)"
proof (induction d and d s rule: skipV2Content_skip_group.induct)
  case (1 d)
  show ?case
    unfolding skipV2Content.simps [of d] Let_def
    using 1 by (intro no_panic) auto
next
  case (2 d s)
  show ?case
    unfolding skip_group.simps [of d s]
    using 2 by (intro no_panic) (fastforce dest: readVarint_progress)+
qed

lemma reader_no_panic [no_panic]:
  "\<not> is_panic (readAddress d m i w)" "\<not> is_panic (readID d m i w)" "\<not> is_panic (readHeight d m i w)"
  "\<not> is_panic (readWinners d m i w)" "\<not> is_panic (readAssets d m i w)"
  unfolding readAddress_def readID_def readHeight_def readWinners_def readAssets_def
  by (intro no_panic)+

lemma readField_no_panic: "i < length d \<Longrightarrow> \<not> is_panic (readField d m i)"
  unfolding readField_def Let_def readUnknown_def
  by (intro no_panic) (auto simp: skip_no_panic(1))

lemma unmarshal_loop_no_panic: "\<not> is_panic (unmarshal_loop d m i)"
proof (induction d m i rule: unmarshal_loop.induct)
  case (1 d m i)
  show ?case
    unfolding unmarshal_loop.simps [of d m i]
    using 1 by (intro no_panic) (auto simp: readField_no_panic)
qed

text \<open>
  C8. Encoding cannot fail: the buffer of \<open>Size\<close> bytes is filled exactly; and decoding the encoded
  bytes into an empty message gives the message back, if it carries no unrecognised fields.
\<close>

theorem Marshal_Unmarshal:
  assumes "Size m < 2 ^ 63" "XXX_unrecognized m = []"
  shows "\<exists>bs. Marshal m = Inr bs \<and> length bs = Size m \<and> Unmarshal zero_V2Content bs = Inr m"
  using Unmarshal_MarshalTo [OF _ assms(2)] assms(1) by (simp add: Marshal_eq length_MarshalTo)

definition sample_content :: V2Content where
  "sample_content = \<lparr>Address = ''FA2'', ID = ''miner'', Height = - 7, Winners = [[1, 2, 3], []],
     Assets = [0, 300, 2 ^ 63], XXX_unrecognized = []\<rparr>"

lemma Marshal_Unmarshal_witness:
  "\<exists>bs. Marshal sample_content = Inr bs \<and> length bs = Size sample_content
     \<and> Unmarshal zero_V2Content bs = Inr sample_content"
  by (rule Marshal_Unmarshal)
    (simp_all add: sample_content_def Size_def sov_len_def sov.simps)


text \<open>
  The last number of a packed list may run past the end that the message declares for the list, so a list
  declared as one byte long takes its second byte from what follows.
\<close>

theorem packed_overrun:
  "Unmarshal zero_V2Content [0x2a, 1, 0x80, 1] = Inr (zero_V2Content\<lparr>Assets := [128]\<rparr>)"
  by code_simp

end
