(* ===== verification/Go_Float.thy ===== *)
theory Go_Float
  imports Prelude
begin

text \<open>
  Go's \<open>float64\<close>: the IEEE 754 binary64 values and the operations the oracle uses on them, each
  the exact rational result rounded to nearest, ties to even. The sign of a zero is not
  represented: no modelled operation observes it (the only divisors are counts, 1e8 and averages
  that were tested to be positive, and no float is printed). A fused multiply-add, which the Go
  specification allows on some architectures, is not modelled: amd64 never fuses.
\<close>

named_theorems float_simps \<open>unfolding of the float operations\<close>

section \<open>Values\<close>

datatype f64 = NaN | Inf bool \<comment> \<open>\<open>Inf True\<close> is plus infinity\<close> | Fin rat

definition pow2 :: "int \<Rightarrow> rat" where
  "pow2 e = (if 0 \<le> e then 2 ^ nat e else 1 / 2 ^ nat (- e))"

fun nbits :: "nat \<Rightarrow> nat" where
  "nbits n = (if n = 0 then 0 else Suc (nbits (n div 2)))"

declare nbits.simps [simp del]

text \<open>The exponent of the leading bit of a positive rational, \<open>\<lfloor>log 2 x\<rfloor>\<close>.\<close>

definition ilog2 :: "rat \<Rightarrow> int" where
  "ilog2 x = (let (p, q) = quotient_of x; k = int (nbits (nat p)) - int (nbits (nat q))
    in if pow2 k \<le> x then k else k - 1)"

definition round_half_even :: "rat \<Rightarrow> int" where
  "round_half_even x = (let f = \<lfloor>x\<rfloor>; d = x - of_int f in
     if d < 1 / 2 then f else if 1 / 2 < d then f + 1 else if even f then f else f + 1)"

text \<open>The exponent of the unit in the last place: 53 significant bits, subnormals below 2^-1022.\<close>

definition ulp_exp :: "rat \<Rightarrow> int" where
  "ulp_exp x = max (- 1074) (ilog2 \<bar>x\<bar> - 52)"

definition rnd_val :: "rat \<Rightarrow> rat" where
  "rnd_val x = (if x = 0 then 0
     else of_int (round_half_even (x / pow2 (ulp_exp x))) * pow2 (ulp_exp x))"

definition rnd :: "rat \<Rightarrow> f64" where
  "rnd x = (let r = rnd_val x in
     if pow2 1024 \<le> r then Inf True else if r \<le> - pow2 1024 then Inf False else Fin r)"

section \<open>Operations\<close>

fun fadd :: "f64 \<Rightarrow> f64 \<Rightarrow> f64" where
  "fadd (Fin x) (Fin y) = rnd (x + y)"
| "fadd (Fin _) (Inf s) = Inf s"
| "fadd (Inf s) (Fin _) = Inf s"
| "fadd (Inf s) (Inf t) = (if s = t then Inf s else NaN)"
| "fadd NaN _ = NaN"
| "fadd _ NaN = NaN"

fun fneg :: "f64 \<Rightarrow> f64" where
  "fneg (Fin x) = Fin (- x)"
| "fneg (Inf s) = Inf (\<not> s)"
| "fneg NaN = NaN"

definition fsub :: "f64 \<Rightarrow> f64 \<Rightarrow> f64" where
  "fsub a b = fadd a (fneg b)"

fun fmul :: "f64 \<Rightarrow> f64 \<Rightarrow> f64" where
  "fmul (Fin x) (Fin y) = rnd (x * y)"
| "fmul (Fin x) (Inf s) = (if x = 0 then NaN else Inf (s \<longleftrightarrow> 0 < x))"
| "fmul (Inf s) (Fin x) = (if x = 0 then NaN else Inf (s \<longleftrightarrow> 0 < x))"
| "fmul (Inf s) (Inf t) = Inf (s \<longleftrightarrow> t)"
| "fmul NaN _ = NaN"
| "fmul _ NaN = NaN"

fun fdiv :: "f64 \<Rightarrow> f64 \<Rightarrow> f64" where
  "fdiv (Fin x) (Fin y) = (if y = 0 then (if x = 0 then NaN else Inf (0 < x)) else rnd (x / y))"
| "fdiv (Fin _) (Inf _) = Fin 0"
| "fdiv (Inf s) (Fin y) = Inf (s \<longleftrightarrow> 0 \<le> y)"
| "fdiv (Inf _) (Inf _) = NaN"
| "fdiv NaN _ = NaN"
| "fdiv _ NaN = NaN"

fun fabs :: "f64 \<Rightarrow> f64" where
  "fabs (Fin x) = Fin \<bar>x\<bar>"
| "fabs (Inf _) = Inf True"
| "fabs NaN = NaN"

text \<open>Comparisons: every one is false when an operand is NaN.\<close>

fun flt :: "f64 \<Rightarrow> f64 \<Rightarrow> bool" where
  "flt (Fin x) (Fin y) = (x < y)"
| "flt (Fin _) (Inf s) = s"
| "flt (Inf s) (Fin _) = (\<not> s)"
| "flt (Inf s) (Inf t) = (\<not> s \<and> t)"
| "flt NaN _ = False"
| "flt _ NaN = False"

fun feq :: "f64 \<Rightarrow> f64 \<Rightarrow> bool" where
  "feq NaN _ = False"
| "feq _ NaN = False"
| "feq a b = (a = b)"

definition fle :: "f64 \<Rightarrow> f64 \<Rightarrow> bool" where
  "fle a b = (flt a b \<or> feq a b)"

text \<open>Conversions: \<open>float64(u)\<close>, \<open>float64(n)\<close>, \<open>math.Round\<close> (halves away from zero),
  \<open>int(f)\<close> and \<open>uint64(f)\<close>. The last two truncate; out of range their value is
  implementation-defined in Go, here the argument \<open>oob\<close>.\<close>

definition f64_of_int :: "int \<Rightarrow> f64" where
  "f64_of_int n = rnd (of_int n)"

definition f64_of_u64 :: "u64 \<Rightarrow> f64" where
  "f64_of_u64 u = f64_of_int (uint u)"

definition trunc_rat :: "rat \<Rightarrow> int" where
  "trunc_rat x = (if 0 \<le> x then \<lfloor>x\<rfloor> else \<lceil>x\<rceil>)"

fun fround :: "f64 \<Rightarrow> f64" where
  "fround (Fin x) = Fin (of_int (if 0 \<le> x then \<lfloor>x + 1 / 2\<rfloor> else \<lceil>x - 1 / 2\<rceil>))"
| "fround a = a"

fun int_of_f64 :: "(f64 \<Rightarrow> int) \<Rightarrow> f64 \<Rightarrow> int" where
  "int_of_f64 oob (Fin x) = (let n = trunc_rat x in
     if - (2 ^ 63) \<le> n \<and> n < 2 ^ 63 then n else oob (Fin x))"
| "int_of_f64 oob a = oob a"

fun u64_of_f64 :: "(f64 \<Rightarrow> u64) \<Rightarrow> f64 \<Rightarrow> u64" where
  "u64_of_f64 oob (Fin x) = (let n = trunc_rat x in
     if 0 \<le> n \<and> n < 2 ^ 64 then word_of_int n else oob (Fin x))"
| "u64_of_f64 oob a = oob a"

text \<open>A float64 constant of the source is the rational rounded.\<close>

definition f64_const :: "rat \<Rightarrow> f64" where
  "f64_const x = rnd x"

section \<open>The order on non-NaN values\<close>

text \<open>A linear order that extends Go's \<open><\<close>, with NaN on top; \<open>sort_key\<close> uses it.\<close>

fun f64_rank :: "f64 \<Rightarrow> int \<times> rat" where
  "f64_rank (Inf False) = (0, 0)"
| "f64_rank (Fin x) = (1, x)"
| "f64_rank (Inf True) = (2, 0)"
| "f64_rank NaN = (3, 0)"

lemma f64_rank_inject: "f64_rank a = f64_rank b \<longleftrightarrow> a = b"
  by (cases a rule: f64_rank.cases; cases b rule: f64_rank.cases) auto

instantiation f64 :: linorder
begin

definition less_eq_f64 :: "f64 \<Rightarrow> f64 \<Rightarrow> bool" where
  "less_eq_f64 a b \<longleftrightarrow> fst (f64_rank a) < fst (f64_rank b) \<or>
     fst (f64_rank a) = fst (f64_rank b) \<and> snd (f64_rank a) \<le> snd (f64_rank b)"

definition less_f64 :: "f64 \<Rightarrow> f64 \<Rightarrow> bool" where
  "less_f64 a b \<longleftrightarrow> fst (f64_rank a) < fst (f64_rank b) \<or>
     fst (f64_rank a) = fst (f64_rank b) \<and> snd (f64_rank a) < snd (f64_rank b)"

instance
  by standard (auto simp: less_eq_f64_def less_f64_def prod_eq_iff simp flip: f64_rank_inject)

end

lemma Fin_le_iff [simp]: "Fin x \<le> Fin y \<longleftrightarrow> x \<le> y"
  by (simp add: less_eq_f64_def)

lemma Fin_less_iff [simp]: "Fin x < Fin y \<longleftrightarrow> x < y"
  by (simp add: less_f64_def)

lemma flt_iff_less: "a \<noteq> NaN \<Longrightarrow> b \<noteq> NaN \<Longrightarrow> flt a b \<longleftrightarrow> a < b"
  by (cases a rule: f64_rank.cases; cases b rule: f64_rank.cases) (auto simp: less_f64_def)

lemma fle_iff_le: "a \<noteq> NaN \<Longrightarrow> b \<noteq> NaN \<Longrightarrow> fle a b \<longleftrightarrow> a \<le> b"
  by (cases a rule: f64_rank.cases; cases b rule: f64_rank.cases)
    (auto simp: fle_def less_eq_f64_def)

lemma le_Inf_True [simp]: "a \<noteq> NaN \<Longrightarrow> a \<le> Inf True"
  by (cases a rule: f64_rank.cases) (auto simp: less_eq_f64_def)

lemma Fin_le_Inf [simp]: "Fin x \<le> Inf s \<longleftrightarrow> s"
  by (cases s) (auto simp: less_eq_f64_def)

lemma Inf_le_Fin [simp]: "Inf s \<le> Fin x \<longleftrightarrow> \<not> s"
  by (cases s) (auto simp: less_eq_f64_def)

lemma Inf_le_Inf [simp]: "Inf s \<le> Inf t \<longleftrightarrow> \<not> s \<or> t"
  by (cases s; cases t) (auto simp: less_eq_f64_def)

lemma NaN_le_iff [simp]: "NaN \<le> a \<longleftrightarrow> a = NaN"
  by (cases a rule: f64_rank.cases) (auto simp: less_eq_f64_def)

lemma le_NaN [simp]: "a \<le> NaN"
  by (cases a rule: f64_rank.cases) (auto simp: less_eq_f64_def)

section \<open>Powers of two\<close>

lemma pow2_powi: "pow2 e = 2 powi e"
  by (simp add: pow2_def power_int_def power_one_over inverse_eq_divide)

lemma pow2_pos [simp]: "0 < pow2 e"
  by (simp add: pow2_powi)

lemma pow2_not_le_0 [simp]: "\<not> pow2 e \<le> 0"
  by (simp add: pow2_powi not_le)

lemma pow2_nonneg [simp]: "0 \<le> pow2 e"
  by (simp add: pow2_powi)

lemma pow2_neq_0 [simp]: "pow2 e \<noteq> 0"
  by (simp add: pow2_powi)

lemma pow2_add: "pow2 (a + b) = pow2 a * pow2 b"
  by (simp add: pow2_powi power_int_add)

lemma pow2_diff: "pow2 (a - b) = pow2 a / pow2 b"
  by (simp add: pow2_powi power_int_diff)

lemma pow2_less: "a < b \<Longrightarrow> pow2 a < pow2 b"
  by (simp add: pow2_powi power_int_strict_increasing)

lemma pow2_less_iff [simp]: "pow2 a < pow2 b \<longleftrightarrow> a < b"
  using pow2_less [of a b] pow2_less [of b a] by (cases a b rule: linorder_cases) auto

lemma pow2_le_iff [simp]: "pow2 a \<le> pow2 b \<longleftrightarrow> a \<le> b"
  by (simp add: not_less flip: linorder_not_less)

lemma pow2_int: "pow2 (int n) = 2 ^ n"
  by (simp add: pow2_def)

lemma pow2_nat: "0 \<le> e \<Longrightarrow> pow2 e = of_int (2 ^ nat e)"
  by (simp add: pow2_def)

section \<open>The leading bit\<close>

lemma nbits_bounds: "0 < n \<Longrightarrow> 0 < nbits n \<and> 2 ^ (nbits n - 1) \<le> n \<and> n < 2 ^ nbits n"
proof (induction n rule: nbits.induct)
  case (1 n)
  show ?case
  proof (cases "n = 1")
    case True
    then show ?thesis by (simp add: nbits.simps)
  next
    case False
    with 1 have IH: "0 < nbits (n div 2)" "2 ^ (nbits (n div 2) - 1) \<le> n div 2"
      "n div 2 < 2 ^ nbits (n div 2)"
      by auto
    have "nbits n = Suc (nbits (n div 2))"
      using 1 by (simp add: nbits.simps [of n])
    moreover have "2 ^ nbits (n div 2) = 2 * (2 :: nat) ^ (nbits (n div 2) - 1)"
      using IH(1) by (simp flip: power_Suc)
    ultimately show ?thesis
      using IH by simp linarith
  qed
qed

lemma ilog2_bounds:
  assumes "0 < x"
  shows "pow2 (ilog2 x) \<le> x \<and> x < pow2 (ilog2 x + 1)"
proof -
  obtain p q where pq: "quotient_of x = (p, q)" by (cases "quotient_of x")
  then have q: "0 < q" and x: "x = of_int p / of_int q"
    using quotient_of_denom_pos quotient_of_div by auto
  with assms have p: "0 < p"
    by (simp add: zero_less_divide_iff)
  define a b where "a = nbits (nat p)" and "b = nbits (nat q)"
  have ab: "0 < a" "2 ^ (a - 1) \<le> nat p" "nat p < 2 ^ a" "0 < b" "2 ^ (b - 1) \<le> nat q" "nat q < 2 ^ b"
    using nbits_bounds [of "nat p"] nbits_bounds [of "nat q"] p q by (auto simp: a_def b_def)
  have conv: "pow2 (int n - 1) \<le> of_int z \<and> of_int z < pow2 (int n)"
    if "0 < n" "0 < z" "2 ^ (n - 1) \<le> nat z" "nat z < 2 ^ n" for n z
  proof -
    have z: "(of_int z :: rat) = of_nat (nat z)"
      using that by simp
    have n: "pow2 (int n - 1) = of_nat (2 ^ (n - 1))" "pow2 (int n) = of_nat (2 ^ n)"
      using that pow2_int [of "n - 1"] pow2_int [of n] by (simp_all add: of_nat_diff)
    show ?thesis
      unfolding z n of_nat_le_iff of_nat_less_iff using that by simp
  qed
  from conv [of a p] conv [of b q] ab p q
  have pl: "pow2 (int a - 1) \<le> of_int p" and pu: "of_int p < pow2 (int a)"
    and ql: "pow2 (int b - 1) \<le> of_int q" and qu: "of_int q < pow2 (int b)"
    by blast+
  have "x < pow2 (int a) / pow2 (int b - 1)"
    unfolding x using pu ql p q by (intro frac_less) auto
  then have u: "x < pow2 (int a - int b + 1)"
    by (simp flip: pow2_diff add: algebra_simps)
  have "pow2 (int a - 1) / pow2 (int b) \<le> x"
    unfolding x using pl qu p q by (intro frac_le) auto
  then have l: "pow2 (int a - int b - 1) \<le> x"
    by (simp flip: pow2_diff add: algebra_simps)
  show ?thesis
    using l u by (auto simp: ilog2_def pq Let_def a_def b_def)
qed

lemma ilog2_mono: "0 < x \<Longrightarrow> x \<le> y \<Longrightarrow> ilog2 x \<le> ilog2 y"
proof -
  assume *: "0 < x" "x \<le> y"
  then have "pow2 (ilog2 x) < pow2 (ilog2 y + 1)"
    using ilog2_bounds [of x] ilog2_bounds [of y] by linarith
  then show ?thesis by simp
qed

lemma ilog2_unique: "pow2 k \<le> x \<Longrightarrow> x < pow2 (k + 1) \<Longrightarrow> ilog2 x = k"
proof -
  assume *: "pow2 k \<le> x" "x < pow2 (k + 1)"
  then have "0 < x" using pow2_pos [of k] by linarith
  then have "pow2 (ilog2 x) < pow2 (k + 1)" "pow2 k < pow2 (ilog2 x + 1)"
    using * ilog2_bounds [of x] by linarith+
  then show ?thesis by simp
qed

section \<open>Rounding to an integer\<close>

lemma round_half_even_int [simp]: "round_half_even (of_int n) = n"
  by (simp add: round_half_even_def)

lemma round_half_even_0 [simp]: "round_half_even 0 = 0"
  using round_half_even_int [of 0] by simp

lemma round_half_even_floor: "\<lfloor>x\<rfloor> \<le> round_half_even x \<and> round_half_even x \<le> \<lfloor>x\<rfloor> + 1"
  by (simp add: round_half_even_def Let_def)

lemma round_half_even_error: "\<bar>of_int (round_half_even x) - x\<bar> \<le> 1 / 2"
proof -
  have "of_int \<lfloor>x\<rfloor> \<le> x" "x < of_int \<lfloor>x\<rfloor> + 1" by linarith+
  then show ?thesis
    by (auto simp: round_half_even_def Let_def)
qed

lemma round_half_even_mono: "x \<le> y \<Longrightarrow> round_half_even x \<le> round_half_even y"
proof -
  assume xy: "x \<le> y"
  then have "\<lfloor>x\<rfloor> \<le> \<lfloor>y\<rfloor>" by (rule floor_mono)
  then consider "\<lfloor>x\<rfloor> = \<lfloor>y\<rfloor>" | "\<lfloor>x\<rfloor> + 1 \<le> \<lfloor>y\<rfloor>" by linarith
  then show ?thesis
  proof cases
    case 1
    with xy show ?thesis by (auto simp: round_half_even_def Let_def)
  next
    case 2
    with round_half_even_floor [of x] round_half_even_floor [of y] show ?thesis by linarith
  qed
qed

lemma round_half_even_neg: "round_half_even (- x) = - round_half_even x"
proof (cases "x = of_int \<lfloor>x\<rfloor>")
  case True
  then show ?thesis by (metis of_int_minus round_half_even_int)
next
  case False
  then have "of_int \<lfloor>x\<rfloor> < x" by linarith
  then have "\<lfloor>- x\<rfloor> = - \<lfloor>x\<rfloor> - 1"
    by (simp add: floor_eq_iff) linarith
  then show ?thesis
    by (auto simp: round_half_even_def Let_def)
qed

section \<open>Rounding to a float\<close>

lemma ulp_exp_neg [simp]: "ulp_exp (- x) = ulp_exp x"
  by (simp add: ulp_exp_def)

lemma rnd_val_0 [simp]: "rnd_val 0 = 0"
  by (simp add: rnd_val_def)

lemma rnd_val_neg: "rnd_val (- x) = - rnd_val x"
  by (simp add: rnd_val_def round_half_even_neg)

lemma ulp_exp_mono: "0 < x \<Longrightarrow> x \<le> y \<Longrightarrow> ulp_exp x \<le> ulp_exp y"
  using ilog2_mono [of x y] by (auto simp: ulp_exp_def)

text \<open>The rounded value of anything at most a grid point is at most that grid point.\<close>

lemma rnd_val_le_grid:
  assumes "x \<le> of_int m * pow2 (ulp_exp x)" and "x \<noteq> 0"
  shows "rnd_val x \<le> of_int m * pow2 (ulp_exp x)"
proof -
  have "x / pow2 (ulp_exp x) \<le> of_int m"
    using assms by (simp add: divide_le_eq)
  then have "round_half_even (x / pow2 (ulp_exp x)) \<le> m"
    by (metis round_half_even_mono round_half_even_int)
  then have "of_int (round_half_even (x / pow2 (ulp_exp x))) \<le> (of_int m :: rat)"
    by (simp only: of_int_le_iff)
  with assms(2) show ?thesis
    by (simp add: rnd_val_def mult_right_mono)
qed

lemma rnd_val_ge_grid:
  assumes "of_int m * pow2 (ulp_exp x) \<le> x" and "x \<noteq> 0"
  shows "of_int m * pow2 (ulp_exp x) \<le> rnd_val x"
  using rnd_val_le_grid [of "- x" "- m"] assms by (simp add: rnd_val_neg)

lemma rnd_val_exact:
  assumes "x = of_int m * pow2 e" and "ulp_exp x \<le> e"
  shows "rnd_val x = x"
proof (cases "x = 0")
  case False
  have "pow2 e = of_int (2 ^ nat (e - ulp_exp x)) * pow2 (ulp_exp x)"
    using assms(2) pow2_nat [of "e - ulp_exp x"] pow2_add [of "e - ulp_exp x" "ulp_exp x"] by simp
  then have "x = of_int (m * 2 ^ nat (e - ulp_exp x)) * pow2 (ulp_exp x)"
    using assms(1) by simp
  with False show ?thesis
    using rnd_val_le_grid [of x] rnd_val_ge_grid [of _ x] by (metis order_antisym order_refl)
qed simp

lemma rnd_val_nonneg: "0 \<le> x \<Longrightarrow> 0 \<le> rnd_val x"
  using rnd_val_ge_grid [of 0 x] by (cases "x = 0") auto

lemma rnd_val_pow2: "- 1074 \<le> k \<Longrightarrow> rnd_val (pow2 k) = pow2 k"
proof (rule rnd_val_exact [of _ 1 k])
  assume "- 1074 \<le> k"
  moreover have "ilog2 (pow2 k) = k"
    by (rule ilog2_unique) simp_all
  ultimately show "ulp_exp (pow2 k) \<le> k"
    by (simp add: ulp_exp_def)
qed simp

lemma rnd_val_mono_pos:
  assumes "0 < x" and "x \<le> y"
  shows "rnd_val x \<le> rnd_val y"
proof (cases "ulp_exp x = ulp_exp y")
  case True
  have "x / pow2 (ulp_exp y) \<le> y / pow2 (ulp_exp y)"
    using assms by (intro divide_right_mono) auto
  then have "of_int (round_half_even (x / pow2 (ulp_exp y)))
      \<le> (of_int (round_half_even (y / pow2 (ulp_exp y))) :: rat)"
    by (simp only: of_int_le_iff round_half_even_mono)
  with assms True show ?thesis
    by (simp add: rnd_val_def mult_right_mono)
next
  case False
  define k where "k = ilog2 y"
  have lt: "ulp_exp x < ulp_exp y"
    using False ulp_exp_mono [OF assms] by simp
  with assms have e: "ulp_exp y = k - 52" "ulp_exp x < k - 52" "ilog2 x < k"
    by (auto simp: ulp_exp_def k_def)
  have grid: "pow2 k = of_int (2 ^ nat (k - ulp_exp z)) * pow2 (ulp_exp z)" if "ulp_exp z \<le> k" for z
    using that pow2_nat [of "k - ulp_exp z"] pow2_add [of "k - ulp_exp z" "ulp_exp z"] by simp
  have "x < pow2 (ilog2 x + 1)" and "pow2 k \<le> y"
    using ilog2_bounds [of x] ilog2_bounds [of y] assms by (auto simp: k_def)
  moreover have "pow2 (ilog2 x + 1) \<le> pow2 k"
    using e by simp
  ultimately have "x \<le> pow2 k" "pow2 k \<le> y" by linarith+
  moreover have "x \<noteq> 0" "y \<noteq> 0" using assms by auto
  moreover have "ulp_exp x \<le> k" "ulp_exp y \<le> k" using e by auto
  ultimately have "rnd_val x \<le> pow2 k" "pow2 k \<le> rnd_val y"
    using rnd_val_le_grid [of x] rnd_val_ge_grid [of _ y] grid [of x] grid [of y] by metis+
  then show ?thesis by linarith
qed

lemma rnd_val_mono: "x \<le> y \<Longrightarrow> rnd_val x \<le> rnd_val y"
proof -
  assume xy: "x \<le> y"
  consider "0 < x" | "x \<le> 0" "0 \<le> y" | "y < 0" by linarith
  then show ?thesis
  proof cases
    case 1
    then show ?thesis using xy by (rule rnd_val_mono_pos)
  next
    case 2
    then have "0 \<le> rnd_val (- x)" "0 \<le> rnd_val y"
      by (simp_all add: rnd_val_nonneg)
    then show ?thesis by (simp add: rnd_val_neg)
  next
    case 3
    with xy have "rnd_val (- y) \<le> rnd_val (- x)"
      by (intro rnd_val_mono_pos) auto
    then show ?thesis by (simp add: rnd_val_neg)
  qed
qed

lemma rnd_val_abs: "rnd_val \<bar>x\<bar> = \<bar>rnd_val x\<bar>"
  using rnd_val_nonneg [of x] rnd_val_nonneg [of "- x"] by (cases "0 \<le> x") (auto simp: rnd_val_neg)

lemma rnd_val_error:
  assumes "pow2 (- 1022) \<le> \<bar>x\<bar>"
  shows "\<bar>rnd_val x - x\<bar> \<le> \<bar>x\<bar> * pow2 (- 53)"
proof -
  have x: "x \<noteq> 0" "0 < \<bar>x\<bar>"
    using assms pow2_pos [of "- 1022"] by (auto simp del: pow2_pos)
  then have b: "pow2 (ilog2 \<bar>x\<bar>) \<le> \<bar>x\<bar>" "\<bar>x\<bar> < pow2 (ilog2 \<bar>x\<bar> + 1)"
    using ilog2_bounds [of "\<bar>x\<bar>"] by auto
  with assms have "pow2 (- 1022) < pow2 (ilog2 \<bar>x\<bar> + 1)"
    by linarith
  then have u: "ulp_exp x = ilog2 \<bar>x\<bar> - 52"
    by (simp add: ulp_exp_def)
  let ?u = "pow2 (ulp_exp x)"
  have "rnd_val x - x = (of_int (round_half_even (x / ?u)) - x / ?u) * ?u"
    using x by (simp add: rnd_val_def algebra_simps)
  then have "\<bar>rnd_val x - x\<bar> = \<bar>of_int (round_half_even (x / ?u)) - x / ?u\<bar> * ?u"
    by (simp add: abs_mult)
  also have "\<dots> \<le> 1 / 2 * ?u"
    by (intro mult_right_mono round_half_even_error) simp
  also have "\<dots> = pow2 (ilog2 \<bar>x\<bar>) * pow2 (- 53)"
  proof -
    have half: "(1 :: rat) / 2 = pow2 (- 1)" by (simp add: pow2_def)
    show ?thesis unfolding half u pow2_add [symmetric] by simp
  qed
  also have "\<dots> \<le> \<bar>x\<bar> * pow2 (- 53)"
    using b by (intro mult_right_mono) auto
  finally show ?thesis .
qed

lemma rnd_val_int:
  assumes "\<bar>n\<bar> \<le> 2 ^ 53"
  shows "rnd_val (of_int n) = of_int n"
proof (cases "\<bar>n\<bar> = 2 ^ 53")
  case True
  then have "\<bar>of_int n :: rat\<bar> = pow2 53"
    by (simp add: pow2_def flip: of_int_abs)
  then have "of_int n = pow2 53 \<or> of_int n = - pow2 53"
    by linarith
  then show ?thesis
    by (auto simp: rnd_val_neg rnd_val_pow2 simp del: of_int_minus)
next
  case False
  show ?thesis
  proof (cases "n = 0")
    case False
    have "\<bar>of_int n :: rat\<bar> < pow2 53"
      using assms \<open>\<bar>n\<bar> \<noteq> 2 ^ 53\<close> by (simp add: pow2_def flip: of_int_abs)
    moreover have "pow2 (ilog2 \<bar>of_int n\<bar>) \<le> \<bar>of_int n :: rat\<bar>"
      using False ilog2_bounds [of "\<bar>of_int n\<bar>"] by simp
    ultimately have "ilog2 \<bar>of_int n :: rat\<bar> < 53"
      by (meson le_less_trans pow2_less_iff)
    then have "ulp_exp (of_int n) \<le> 0"
      by (simp add: ulp_exp_def)
    then show ?thesis
      by (intro rnd_val_exact [of _ n 0]) (simp_all add: pow2_def)
  qed simp
qed

section \<open>Results of the operations\<close>

lemma rnd_not_NaN [simp]: "rnd x \<noteq> NaN" "NaN \<noteq> rnd x"
  by (auto simp: rnd_def Let_def)

lemma rnd_mono: "x \<le> y \<Longrightarrow> rnd x \<le> rnd y"
  using rnd_val_mono [of x y] pow2_pos [of 1024] by (auto simp: rnd_def Let_def)

lemma rnd_0 [simp]: "rnd 0 = Fin 0"
  using pow2_pos [of 1024] by (simp add: rnd_def)

lemma rnd_nonneg: "0 \<le> x \<Longrightarrow> Fin 0 \<le> rnd x"
  using rnd_mono [of 0 x] by simp

lemma rnd_pow2: "- 1074 \<le> k \<Longrightarrow> k < 1024 \<Longrightarrow> rnd (pow2 k) = Fin (pow2 k)"
  using pow2_pos [of 1024] pow2_pos [of k] by (simp add: rnd_def rnd_val_pow2 del: pow2_pos)

lemma rnd_abs: "fabs (rnd x) = rnd \<bar>x\<bar>"
  using pow2_pos [of 1024] rnd_val_nonneg [of x] rnd_val_nonneg [of "- x"]
  by (cases "0 \<le> x") (auto simp: rnd_def Let_def rnd_val_neg)

lemma rnd_Fin_bound:
  assumes "0 \<le> x" "x \<le> pow2 k" "- 1074 \<le> k" "k < 1024"
  shows "\<exists>r. rnd x = Fin r \<and> r = rnd_val x \<and> 0 \<le> r \<and> r \<le> pow2 k"
proof -
  have "rnd_val x \<le> pow2 k" "0 \<le> rnd_val x"
    using rnd_val_mono [OF assms(2)] rnd_val_nonneg [OF assms(1)] assms(3)
    by (simp_all add: rnd_val_pow2)
  moreover have "pow2 k < pow2 1024" using assms by simp
  ultimately have "rnd_val x < pow2 1024" "- pow2 1024 < rnd_val x"
    using pow2_pos [of 1024] by linarith+
  then have "rnd x = Fin (rnd_val x)"
    by (simp add: rnd_def)
  with \<open>rnd_val x \<le> pow2 k\<close> \<open>0 \<le> rnd_val x\<close> show ?thesis by simp
qed

lemma rnd_int: "\<bar>n\<bar> \<le> 2 ^ 53 \<Longrightarrow> rnd (of_int n) = Fin (of_int n)"
proof -
  assume n: "\<bar>n\<bar> \<le> 2 ^ 53"
  then have "\<bar>of_int n :: rat\<bar> \<le> pow2 53"
    by (simp add: pow2_def flip: of_int_abs)
  moreover have "pow2 53 < pow2 1024" by simp
  ultimately have "of_int n < pow2 1024" "- pow2 1024 < of_int n"
    by linarith+
  then show ?thesis
    using rnd_val_int [OF n] by (simp add: rnd_def)
qed

lemma f64_of_int_exact: "\<bar>n\<bar> \<le> 2 ^ 53 \<Longrightarrow> f64_of_int n = Fin (of_int n)"
  by (simp add: f64_of_int_def rnd_int)

text \<open>Non-negative values that are not NaN, closed under what the graders compute with them.\<close>

definition fnonneg :: "f64 \<Rightarrow> bool" where
  "fnonneg a \<longleftrightarrow> a \<noteq> NaN \<and> Fin 0 \<le> a"

lemma fnonneg_cases:
  assumes "fnonneg a"
  obtains "a = Inf True" | x where "a = Fin x" "0 \<le> x"
  using assms by (cases a rule: f64_rank.cases) (auto simp: fnonneg_def)

lemma fnonneg_Fin [simp]: "fnonneg (Fin x) \<longleftrightarrow> 0 \<le> x"
  by (simp add: fnonneg_def)

lemma fnonneg_Inf [simp]: "fnonneg (Inf s) \<longleftrightarrow> s"
  by (simp add: fnonneg_def)

lemma fnonneg_NaN [simp]: "\<not> fnonneg NaN"
  by (simp add: fnonneg_def)

lemma fnonneg_rnd [simp]: "0 \<le> x \<Longrightarrow> fnonneg (rnd x)"
  by (simp add: fnonneg_def rnd_nonneg)

lemma fnonneg_fadd: "fnonneg a \<Longrightarrow> fnonneg b \<Longrightarrow> fnonneg (fadd a b)"
  by (elim fnonneg_cases) auto

lemma fadd_mono:
  assumes "fnonneg a" "fnonneg b" "fnonneg a'" "fnonneg b'" "a \<le> a'" "b \<le> b'"
  shows "fadd a b \<le> fadd a' b'"
  using assms by (elim fnonneg_cases) (auto intro: rnd_mono)

text \<open>\<open>d * d * d * d\<close>, parsed from the left.\<close>

definition fquart :: "f64 \<Rightarrow> f64" where
  "fquart d = fmul (fmul (fmul d d) d) d"

lemma fmul_nonneg:
  assumes "fnonneg a" "fnonneg b" "b = Fin 0 \<longrightarrow> a \<noteq> Inf True" "a = Fin 0 \<longrightarrow> b \<noteq> Inf True"
  shows "fnonneg (fmul a b)"
  using assms by (elim fnonneg_cases) auto

lemma fmul_mono:
  assumes "fnonneg a" "fnonneg b" "a \<le> a'" "b \<le> b'" "fnonneg (fmul a b)" "fnonneg (fmul a' b')"
    and "fnonneg a'" "fnonneg b'"
  shows "fmul a b \<le> fmul a' b'"
proof -
  have "rnd (x * y) \<le> rnd (x' * y')" if "0 \<le> x" "0 \<le> y" "x \<le> x'" "y \<le> y'" for x y x' y' :: rat
    using that by (intro rnd_mono mult_mono) auto
  moreover have "fmul a b \<noteq> NaN" "fmul a' b' \<noteq> NaN"
    using assms(5,6) by auto
  ultimately show ?thesis
    using assms by (elim fnonneg_cases [of a] fnonneg_cases [of b] fnonneg_cases [of a'] fnonneg_cases [of b'])
      (auto split: if_splits)
qed

lemma fpow_nonneg:
  assumes "fnonneg d"
  shows "fnonneg (fmul d d)" "fnonneg (fmul (fmul d d) d)" "fnonneg (fquart d)"
proof -
  have sp: "fmul (Fin 0) (Fin 0) = Fin 0" "fmul (Inf True) (Inf True) = Inf True" by simp_all
  show 1: "fnonneg (fmul d d)"
    using assms by (intro fmul_nonneg) auto
  show 2: "fnonneg (fmul (fmul d d) d)"
    by (cases "d = Fin 0"; cases "d = Inf True")
      (use assms 1 in \<open>auto intro!: fmul_nonneg simp del: fmul.simps simp add: sp\<close>)
  show "fnonneg (fquart d)"
    unfolding fquart_def
    by (cases "d = Fin 0"; cases "d = Inf True")
      (use assms 2 in \<open>auto intro!: fmul_nonneg simp del: fmul.simps simp add: sp\<close>)
qed

lemma fquart_mono: "fnonneg d \<Longrightarrow> fnonneg d' \<Longrightarrow> d \<le> d' \<Longrightarrow> fquart d \<le> fquart d'"
  unfolding fquart_def
  by (intro fmul_mono) (simp_all add: fpow_nonneg [unfolded fquart_def])

lemma fquart_0 [simp]: "fquart (Fin 0) = Fin 0"
  by (simp add: fquart_def)

section \<open>Deviation from a positive average, with a tolerance band\<close>

text \<open>\<open>math.Abs((v - avg) / avg)\<close>\<close>

definition fdev :: "f64 \<Rightarrow> f64 \<Rightarrow> f64" where
  "fdev v avg = fabs (fdiv (fsub v avg) avg)"

text \<open>\<open>if d <= band { d = 0 } else { d -= band }\<close>\<close>

definition fband :: "f64 \<Rightarrow> f64 \<Rightarrow> f64" where
  "fband band d = (if fle d band then Fin 0 else fsub d band)"

lemma fdev_Fin:
  assumes "0 < a"
  shows "fdev (Fin v) (Fin a) = (case rnd \<bar>v - a\<bar> of Fin r \<Rightarrow> rnd (r / a) | z \<Rightarrow> Inf True)"
proof -
  have s: "fsub (Fin v) (Fin a) = rnd (v - a)"
    by (simp add: fsub_def)
  show ?thesis
  proof (cases "rnd (v - a)")
    case (Fin r)
    then have "rnd \<bar>v - a\<bar> = Fin \<bar>r\<bar>"
      using rnd_abs [of "v - a"] by simp
    with Fin s assms show ?thesis
      by (simp add: fdev_def rnd_abs abs_divide)
  next
    case (Inf t)
    then have "rnd \<bar>v - a\<bar> = Inf True"
      using rnd_abs [of "v - a"] by simp
    with Inf s assms show ?thesis by (simp add: fdev_def)
  qed simp
qed

lemma fdev_nonneg: "0 < a \<Longrightarrow> fnonneg (fdev (Fin v) (Fin a))"
  using rnd_nonneg [of "\<bar>v - a\<bar>"] by (auto simp: fdev_Fin split: f64.splits)

lemma fdev_mono:
  assumes "0 < a" "\<bar>v - a\<bar> \<le> \<bar>w - a\<bar>"
  shows "fdev (Fin v) (Fin a) \<le> fdev (Fin w) (Fin a)"
proof -
  have "rnd \<bar>v - a\<bar> \<le> rnd \<bar>w - a\<bar>" "Fin 0 \<le> rnd \<bar>v - a\<bar>"
    using assms by (auto intro: rnd_mono rnd_nonneg)
  with assms(1) show ?thesis
    by (auto simp: fdev_Fin divide_right_mono intro!: rnd_mono split: f64.splits)
qed

lemma fband_nonneg: "fnonneg d \<Longrightarrow> 0 \<le> b \<Longrightarrow> fnonneg (fband (Fin b) d)"
  by (elim fnonneg_cases) (auto simp: fband_def fsub_def fle_iff_le)

lemma fband_mono:
  assumes "fnonneg d" "fnonneg d'" "0 \<le> b" "d \<le> d'"
  shows "fband (Fin b) d \<le> fband (Fin b) d'"
  using assms
  by (elim fnonneg_cases) (auto simp: fband_def fsub_def fle_iff_le intro: rnd_mono rnd_nonneg)

lemma fband_within: "fle d band \<Longrightarrow> fband band d = Fin 0"
  by (simp add: fband_def)

section \<open>The fixed-point round trip\<close>

text \<open>\<open>math.Round(float64(u) / 1e8 * 1e8)\<close> gives \<open>u\<close> back while two roundings stay below a half.\<close>

lemma fixed_point_error:
  fixes u c :: rat
  assumes "1 \<le> u" "u \<le> pow2 50" "0 < c" "c \<le> pow2 60"
  defines "v \<equiv> rnd_val (u / c)"
  shows "\<bar>rnd_val (v * c) - u\<bar> < 1 / 2" "0 < v"
proof -
  let ?e = "pow2 (- 53)"
  have e: "0 < ?e" "?e \<le> 1 / 4" by (simp_all add: pow2_def)
  have "pow2 (- 60) \<le> 1 / c"
    using assms by (simp add: pow2_def field_simps)
  also have "\<dots> \<le> u / c"
    using assms by (intro divide_right_mono) auto
  finally have uc: "pow2 (- 60) \<le> u / c" .
  moreover have "pow2 (- 1022) \<le> pow2 (- 60)" by simp
  ultimately have "pow2 (- 1022) \<le> \<bar>u / c\<bar>" by linarith
  then have 1: "\<bar>v - u / c\<bar> \<le> \<bar>u / c\<bar> * ?e"
    unfolding v_def by (rule rnd_val_error)
  have "\<bar>v * c - u\<bar> = \<bar>v - u / c\<bar> * c"
  proof -
    have "v * c - u = (v - u / c) * c"
      using assms(3) by (simp add: field_simps)
    then show ?thesis using assms(3) by (simp add: abs_mult)
  qed
  also have "\<dots> \<le> \<bar>u / c\<bar> * ?e * c"
    using 1 assms by (intro mult_right_mono) auto
  also have "\<dots> = u * ?e"
    using assms by simp
  finally have 2: "\<bar>v * c - u\<bar> \<le> u * ?e" .
  have ue: "u * ?e \<le> pow2 50 * ?e"
    using assms by (intro mult_right_mono) auto
  also have "\<dots> = 1 / 8"
    by (simp add: pow2_def)
  finally have ue: "u * ?e \<le> 1 / 8" .
  have vc: "1 / 2 \<le> v * c" "v * c \<le> 2 * u"
    using 2 ue assms by linarith+
  moreover have "pow2 (- 1022) \<le> pow2 (- 1)" by simp
  moreover have "pow2 (- 1) = 1 / 2" by (simp add: pow2_def)
  ultimately have "pow2 (- 1022) \<le> \<bar>v * c\<bar>"
    by linarith
  then have "\<bar>rnd_val (v * c) - v * c\<bar> \<le> \<bar>v * c\<bar> * ?e"
    by (rule rnd_val_error)
  also have "\<dots> \<le> 2 * u * ?e"
    using vc e by (intro mult_right_mono) auto
  also have "\<dots> \<le> 1 / 4"
    using ue by simp
  finally show "\<bar>rnd_val (v * c) - u\<bar> < 1 / 2"
    using 2 ue by linarith
  show "0 < v"
  proof -
    have "0 < v * c" using vc by linarith
    then show ?thesis using assms(3) by (simp add: zero_less_mult_iff)
  qed
qed

lemma fround_near_int:
  assumes "\<bar>x - of_int n\<bar> < 1 / 2" "0 \<le> x"
  shows "fround (Fin x) = Fin (of_int n)"
proof -
  have "of_int n \<le> x + 1 / 2" "x + 1 / 2 < of_int n + 1"
    using assms(1) by linarith+
  then have "\<lfloor>x + 1 / 2\<rfloor> = n"
    by (simp add: floor_eq_iff)
  with assms(2) show ?thesis by simp
qed

lemma u64_of_f64_int: "0 \<le> n \<Longrightarrow> n < 2 ^ 64 \<Longrightarrow> u64_of_f64 oob (Fin (of_int n)) = word_of_int n"
  by (simp add: trunc_rat_def)

section \<open>Rounding twice\<close>

lemma rnd_val_idem_pos:
  assumes "0 < x"
  shows "rnd_val (rnd_val x) = rnd_val x"
proof -
  let ?y = "rnd_val x" and ?K = "max (ilog2 x + 1) (- 1074)"
  have y: "0 \<le> ?y" using assms by (intro rnd_val_nonneg) simp
  have "pow2 (ilog2 x + 1) \<le> pow2 ?K" by (simp only: pow2_le_iff max.cobounded1)
  then have "x \<le> pow2 ?K" using ilog2_bounds [OF assms] by linarith
  then have "?y \<le> pow2 ?K" using rnd_val_mono [of x "pow2 ?K"] rnd_val_pow2 [of ?K] by simp
  then consider "?y = 0" | "?y = pow2 ?K" | "0 < ?y" "?y < pow2 ?K" using y by linarith
  then show ?thesis
  proof cases
    case 2
    then show ?thesis using rnd_val_pow2 [of ?K] by simp
  next
    case 3
    then have "pow2 (ilog2 ?y) < pow2 ?K" using ilog2_bounds [of ?y] by linarith
    then have "ilog2 ?y < ?K" by (simp only: pow2_less_iff)
    then have "ulp_exp ?y \<le> ulp_exp x" using 3 assms by (auto simp: ulp_exp_def)
    moreover have "?y = of_int (round_half_even (x / pow2 (ulp_exp x))) * pow2 (ulp_exp x)"
      using assms by (simp add: rnd_val_def)
    ultimately show ?thesis by (rule rnd_val_exact [rotated])
  qed simp
qed

lemma rnd_val_idem: "rnd_val (rnd_val x) = rnd_val x"
proof -
  consider "0 < x" | "x = 0" | "0 < - x" by linarith
  then show ?thesis
  proof cases
    case 3
    have "rnd_val (rnd_val (- x)) = rnd_val (- x)" by (rule rnd_val_idem_pos [OF 3])
    then show ?thesis by (simp add: rnd_val_neg)
  qed (simp_all add: rnd_val_idem_pos)
qed

lemma rnd_idem: "rnd x = Fin y \<Longrightarrow> rnd y = Fin y"
  by (auto simp: rnd_def Let_def rnd_val_idem split: if_splits)

text \<open>Every deviation is a float, so that a band of zero takes nothing from it.\<close>

lemma fsub_zero: "fabs (fdiv u v) = d \<Longrightarrow> fsub d (Fin 0) = d"
proof -
  assume d: "fabs (fdiv u v) = d"
  have rep: "rnd \<bar>y\<bar> = Fin \<bar>y\<bar>" if "fdiv u v = Fin y" for y
  proof -
    have "rnd y = Fin y"
      using that by (cases u; cases v) (auto intro: rnd_idem split: if_splits)
    then show ?thesis using rnd_abs [of y] by simp
  qed
  show ?thesis
  proof (cases "fdiv u v")
    case (Fin y)
    then have "d = Fin \<bar>y\<bar>" using d by simp
    then show ?thesis using rep [OF Fin] by (simp add: fsub_def)
  qed (use d in \<open>auto simp: fsub_def\<close>)
qed

lemma fband_zero: "fband (Fin 0) (fdev v a) = fdev v a"
proof -
  have "fdev v a = Fin 0" if "fle (fdev v a) (Fin 0)"
    using that by (cases "fdiv (fsub v a) a") (auto simp: fdev_def fle_def)
  then show ?thesis
    using fsub_zero [of "fsub v a" a] by (auto simp: fband_def fdev_def)
qed

end
