(* ===== verification/Assets.thy ===== *)
theory Assets
  imports Go_Float
begin

text \<open>
  modules/opr/assets.go and util.go: the asset lists of the record versions, the named prices of a
  record, and the conversion between prices as floats and as integers of 8 decimals.
\<close>

section \<open>The asset lists\<close>

definition V1Assets :: "string list" where
  "V1Assets = [
    ''PNT'', ''USD'', ''EUR'', ''JPY'', ''GBP'', ''CAD'', ''CHF'', ''INR'', ''SGD'', ''CNY'',
    ''HKD'', ''KRW'', ''BRL'', ''PHP'', ''MXN'', ''XAU'', ''XAG'', ''XPD'', ''XPT'', ''XBT'',
    ''ETH'', ''LTC'', ''RVN'', ''XBC'', ''FCT'', ''BNB'', ''XLM'', ''ADA'', ''XMR'', ''DASH'',
    ''ZEC'', ''DCR'']"

definition V2Assets :: "string list" where
  "V2Assets = [
    ''PEG'', ''USD'', ''EUR'', ''JPY'', ''GBP'', ''CAD'', ''CHF'', ''INR'', ''SGD'', ''CNY'',
    ''HKD'', ''KRW'', ''BRL'', ''PHP'', ''MXN'', ''XAU'', ''XAG'', ''XBT'', ''ETH'', ''LTC'',
    ''RVN'', ''XBC'', ''FCT'', ''BNB'', ''XLM'', ''ADA'', ''XMR'', ''DASH'', ''ZEC'', ''DCR'']"

definition V4Assets :: "string list" where
  "V4Assets = [
    ''PEG'', ''USD'', ''EUR'', ''JPY'', ''GBP'', ''CAD'', ''CHF'', ''INR'', ''SGD'', ''CNY'',
    ''HKD'', ''KRW'', ''BRL'', ''PHP'', ''MXN'', ''XAU'', ''XAG'', ''XBT'', ''ETH'', ''LTC'',
    ''RVN'', ''XBC'', ''FCT'', ''BNB'', ''XLM'', ''ADA'', ''XMR'', ''DASH'', ''ZEC'', ''DCR'',
    ''AUD'', ''NZD'', ''SEK'', ''NOK'', ''RUB'', ''ZAR'', ''TRY'', ''EOS'', ''LINK'', ''ATOM'',
    ''BAT'', ''XTZ'']"

definition V5Assets :: "string list" where
  "V5Assets = [
    ''PEG'', ''USD'', ''EUR'', ''JPY'', ''GBP'', ''CAD'', ''CHF'', ''INR'', ''SGD'', ''CNY'',
    ''HKD'', ''KRW'', ''BRL'', ''PHP'', ''MXN'', ''XAU'', ''XAG'', ''XBT'', ''ETH'', ''LTC'',
    ''RVN'', ''XBC'', ''FCT'', ''BNB'', ''XLM'', ''ADA'', ''XMR'', ''DASH'', ''ZEC'', ''DCR'',
    ''AUD'', ''NZD'', ''SEK'', ''NOK'', ''RUB'', ''ZAR'', ''TRY'', ''EOS'', ''LINK'', ''ATOM'',
    ''BAT'', ''XTZ'', ''HBAR'', ''NEO'', ''CRO'', ''ETC'', ''ONT'', ''DOGE'', ''VET'', ''HT'',
    ''ALGO'', ''DGB'', ''AED'', ''ARS'', ''TWD'', ''RWF'', ''KES'', ''UGX'', ''TZS'', ''BIF'',
    ''ETB'', ''NGN'']"

text \<open>\<open>AssetFloat\<close> and \<open>AssetUint\<close> are one record at two value types.\<close>

record 'v Asset =
  Name :: string
  Value :: 'v

type_synonym AssetFloat = "f64 Asset"
type_synonym AssetUint = "u64 Asset"

section \<open>Fixed-point prices\<close>

text \<open>\<open>math.Round\<close> and the conversion to an integer; \<open>oob\<close> is what the platform returns for a value
  that does not fit, which Go leaves to the implementation.\<close>

definition FloatToUint64 :: "(f64 \<Rightarrow> u64) \<Rightarrow> f64 \<Rightarrow> u64" where
  "FloatToUint64 oob f = u64_of_f64 oob (fround (fmul f (f64_const 100000000)))"

definition Uint64ToFloat :: "u64 \<Rightarrow> f64" where
  "Uint64ToFloat u = fdiv (f64_of_u64 u) (f64_const 100000000)"


section \<open>The lists have no duplicates and extend each other\<close>

lemma distinct_V1Assets: "distinct V1Assets" by code_simp
lemma distinct_V2Assets: "distinct V2Assets" by code_simp
lemma distinct_V4Assets: "distinct V4Assets" by code_simp
lemma distinct_V5Assets: "distinct V5Assets" by code_simp

lemma length_Assets [len_simps]:
  "length V1Assets = 32" "length V2Assets = 30" "length V4Assets = 42" "length V5Assets = 62"
  by (simp_all add: V1Assets_def V2Assets_def V4Assets_def V5Assets_def)

text \<open>
  The asset lists are what their comments say: no name occurs twice; the second list is the
  first with PNT renamed to PEG and without XPD and XPT; each later list extends the one before
  it, so an index into an older record names the same asset in a newer one.
\<close>

theorem Assets_extend:
  "V2Assets = ''PEG'' # filter (\<lambda>a. a \<noteq> ''XPD'' \<and> a \<noteq> ''XPT'') (tl V1Assets)
   \<and> hd V1Assets = ''PNT''
   \<and> take (length V2Assets) V4Assets = V2Assets \<and> take (length V4Assets) V5Assets = V4Assets
   \<and> distinct V1Assets \<and> distinct V5Assets"
proof (intro conjI)
  show "V2Assets = ''PEG'' # filter (\<lambda>a. a \<noteq> ''XPD'' \<and> a \<noteq> ''XPT'') (tl V1Assets)" by code_simp
  show "hd V1Assets = ''PNT''" by code_simp
  show "take (length V2Assets) V4Assets = V2Assets" by (simp add: V2Assets_def V4Assets_def)
  show "take (length V4Assets) V5Assets = V4Assets" by (simp add: V4Assets_def V5Assets_def)
qed (rule distinct_V1Assets distinct_V5Assets)+

section \<open>Prices as integers\<close>

lemma f64_const_1e8: "f64_const 100000000 = Fin 100000000"
  using rnd_int [of 100000000] by (simp add: f64_const_def)

lemma rnd_nonneg_Fin: "0 \<le> x \<Longrightarrow> x \<le> pow2 1023 \<Longrightarrow> rnd x = Fin (rnd_val x) \<and> 0 \<le> rnd_val x"
  using rnd_Fin_bound [of x 1023] by auto

lemma rnd_val_ge_pow2: "pow2 k \<le> x \<Longrightarrow> - 1074 \<le> k \<Longrightarrow> pow2 k \<le> rnd_val x"
  using rnd_val_mono [of "pow2 k" x] by (simp add: rnd_val_pow2)

lemma rnd_val_le_pow2: "x \<le> pow2 k \<Longrightarrow> - 1074 \<le> k \<Longrightarrow> rnd_val x \<le> pow2 k"
  using rnd_val_mono [of x "pow2 k"] by (simp add: rnd_val_pow2)

text \<open>A price is finite and not negative, and positive unless the integer is zero.\<close>

lemma Uint64ToFloat_Fin:
  "\<exists>r. Uint64ToFloat u = Fin r \<and> 0 \<le> r \<and> r \<le> pow2 64 \<and> (u \<noteq> 0 \<longrightarrow> 0 < r)"
proof -
  let ?u = "of_int (uint u) :: rat"
  have b: "?u \<le> pow2 64"
  proof -
    have "uint u < 2 ^ LENGTH(64)" by (rule unsigned_less)
    then have "uint u \<le> 2 ^ 64" by simp
    then have "?u \<le> of_int (2 ^ 64)" by (simp only: of_int_le_iff)
    then show ?thesis by (simp add: pow2_def)
  qed
  have "pow2 64 \<le> pow2 1023" by simp
  with b have le_max: "?u \<le> pow2 1023" by linarith
  have "0 \<le> ?u" by (simp only: of_int_0_le_iff uint_nonnegative)
  then have f: "f64_of_u64 u = Fin (rnd_val ?u)" "0 \<le> rnd_val ?u"
    using rnd_nonneg_Fin [OF _ le_max] by (simp_all add: f64_of_u64_def f64_of_int_def)
  have le: "rnd_val ?u / 100000000 \<le> pow2 64"
  proof -
    have "rnd_val ?u \<le> pow2 64" using b by (intro rnd_val_le_pow2) simp_all
    then show ?thesis using f(2) by linarith
  qed
  moreover have "pow2 64 \<le> pow2 1023" by simp
  ultimately have "rnd_val ?u / 100000000 \<le> pow2 1023" by linarith
  then have q: "Uint64ToFloat u = Fin (rnd_val (rnd_val ?u / 100000000))" "0 \<le> rnd_val (rnd_val ?u / 100000000)"
    using rnd_nonneg_Fin [of "rnd_val ?u / 100000000"] f
    by (simp_all add: Uint64ToFloat_def f64_const_1e8)
  have pos: "0 < rnd_val (rnd_val ?u / 100000000)" if "u \<noteq> 0"
  proof -
    have "1 \<le> uint u" using that by (metis int_one_le_iff_zero_less order.not_eq_order_implies_strict uint_0_iff uint_nonnegative)
    then have "of_int 1 \<le> ?u" by (simp only: of_int_le_iff)
    then have "pow2 0 \<le> ?u" by (simp add: pow2_def)
    then have "pow2 0 \<le> rnd_val ?u" by (rule rnd_val_ge_pow2) simp
    then have "pow2 (- 27) \<le> rnd_val ?u / 100000000" by (simp add: pow2_def)
    then have "pow2 (- 27) \<le> rnd_val (rnd_val ?u / 100000000)" by (rule rnd_val_ge_pow2) simp
    then show ?thesis using pow2_pos [of "- 27"] by linarith
  qed
  have "rnd_val (rnd_val ?u / 100000000) \<le> pow2 64"
    using le by (rule rnd_val_le_pow2) simp
  with q pos show ?thesis by blast
qed

text \<open>
  A price of at most \<open>2^50\<close> units of \<open>10^-8\<close>, about eleven million dollars, survives the
  conversion to a float and back.
\<close>

theorem price_roundtrip:
  assumes "uint u \<le> 2 ^ 50"
  shows "FloatToUint64 oob (Uint64ToFloat u) = u"
proof (cases "uint u = 0")
  case True
  have "\<lfloor>1 / 2 :: rat\<rfloor> = 0" by (simp add: floor_eq_iff)
  with True show ?thesis
    by (simp add: Uint64ToFloat_def f64_of_u64_def FloatToUint64_def f64_const_1e8
        f64_of_int_def trunc_rat_def uint_0_iff)
next
  case False
  let ?u = "of_int (uint u) :: rat"
  have "1 \<le> uint u" using False uint_nonnegative [of u] by linarith
  then have "of_int 1 \<le> ?u" by (simp only: of_int_le_iff)
  moreover have "?u \<le> of_int (2 ^ 50)" using assms by (simp only: of_int_le_iff)
  ultimately have u: "1 \<le> ?u" "?u \<le> pow2 50" by (simp_all add: pow2_def)
  define v where "v = rnd_val (?u / 100000000)"
  have err: "\<bar>rnd_val (v * 100000000) - ?u\<bar> < 1 / 2" "0 < v"
    unfolding v_def using fixed_point_error [OF u, of 100000000] by (simp_all add: pow2_def)
  have "pow2 50 \<le> pow2 1023" by simp
  with u have "0 \<le> ?u / 100000000" "?u / 100000000 \<le> pow2 1023" by linarith+
  then have "rnd (?u / 100000000) = Fin v"
    using rnd_nonneg_Fin [of "?u / 100000000"] by (simp add: v_def)
  moreover have "f64_of_u64 u = Fin ?u"
    using assms by (simp add: f64_of_u64_def f64_of_int_exact)
  ultimately have f: "Uint64ToFloat u = Fin v"
    by (simp add: Uint64ToFloat_def f64_const_1e8)
  have le: "v * 100000000 \<le> pow2 1023"
  proof -
    have "v \<le> pow2 50" unfolding v_def
      using u by (intro rnd_val_le_pow2) linarith+
    then show ?thesis by (simp add: pow2_def)
  qed
  have "fmul (Fin v) (Fin 100000000) = Fin (rnd_val (v * 100000000))" "0 \<le> rnd_val (v * 100000000)"
    using rnd_nonneg_Fin [OF _ le] err(2) by simp_all
  then have "fround (fmul (Fin v) (Fin 100000000)) = Fin ?u"
    using fround_near_int [of "rnd_val (v * 100000000)" "uint u"] err(1) by simp
  then have "FloatToUint64 oob (Uint64ToFloat u) = u64_of_f64 oob (Fin (of_int (uint u)))"
    by (simp add: FloatToUint64_def f f64_const_1e8 del: fmul.simps fround.simps)
  also have "\<dots> = word_of_int (uint u)"
    using unsigned_less [of u, where 'a = int] by (intro u64_of_f64_int) simp_all
  finally show ?thesis by simp
qed

lemma price_roundtrip_witness:
  "FloatToUint64 (\<lambda>_. 0) (Uint64ToFloat 123456789012345) = 123456789012345"
  by (rule price_roundtrip) simp

end
