(* ===== verification/OprContent.thy ===== *)
theory OprContent
  imports V2Proto Assets
begin

text \<open>
  modules/opr: the oracle price record of each version behind the interface \<open>OPR\<close>, and the parsers.
  V1 is JSON, the later versions are the protobuf message of V2Proto read with a longer asset list.
  \<open>json.Unmarshal\<close> into a \<open>V1Content\<close> is an argument \<open>json\<close> of the definitions that use it.
\<close>

section \<open>Records\<close>

type_synonym V1AssetList = "string \<rightharpoonup> f64"

record V1Content =
  CoinbaseAddress :: string
  Dbht :: "32 word"
  WinPreviousOPR :: "string list"
  FactomDigitalID :: string
  V1ContentAssets :: V1AssetList

text \<open>The implementations of the interface; V4 and V5 embed a \<open>V2Content\<close>.\<close>

datatype OPR =
    OPR_V1 V1Content
  | OPR_V2 V2Content
  | OPR_V4 V2Content
  | OPR_V5 V2Content

datatype Type = V1 | V2

section \<open>V1AssetList.go, V1Content.go\<close>

text \<open>A missing key reads as the zero value.\<close>

definition asset_at :: "V1AssetList \<Rightarrow> string \<Rightarrow> f64" where
  "asset_at al k = (case al k of None \<Rightarrow> Fin 0 | Some v \<Rightarrow> v)"

text \<open>
  \<open>MarshalJSON\<close> writes the assets in the order of \<open>V1Assets\<close>; \<open>json_float\<close> is \<open>json.Marshal\<close> of a
  float, which fails on what JSON cannot express. No name in the list needs escaping.
\<close>

definition escape_quotes :: "string \<Rightarrow> string" where
  "escape_quotes k = concat (map (\<lambda>c. if c = CHR 0x22 then [CHR 0x5C, CHR 0x22] else [c]) k)"

definition V1AssetList_MarshalJSON :: "(f64 \<Rightarrow> string res) \<Rightarrow> V1AssetList \<Rightarrow> string res" where
  "V1AssetList_MarshalJSON json_float al =
     rbind (res_fold (\<lambda>s k. rbind (json_float (asset_at al k)) (\<lambda>vBytes.
         Inr (s @ [CHR 0x22] @ escape_quotes k @ [CHR 0x22] @ '':'' @ vBytes @ '','')))
       ''{'' V1Assets)
     (\<lambda>s. Inr ((if length V1Assets > 0 then butlast s else s) @ ''}''))"

definition V1AssetList_Clone :: "V1AssetList \<Rightarrow> V1AssetList" where
  "V1AssetList_Clone al = (\<lambda>k. al k)"

definition V1_GetOrderedAssetsFloat :: "V1Content \<Rightarrow> AssetFloat list" where
  "V1_GetOrderedAssetsFloat c =
     map (\<lambda>name. \<lparr>Name = name, Value = asset_at (V1ContentAssets c) name\<rparr>) V1Assets"

definition V1_GetOrderedAssetsUint :: "(f64 \<Rightarrow> u64) \<Rightarrow> V1Content \<Rightarrow> AssetUint list" where
  "V1_GetOrderedAssetsUint oob c =
     map (\<lambda>name. \<lparr>Name = name, Value = FloatToUint64 oob (asset_at (V1ContentAssets c) name)\<rparr>)
       V1Assets"

definition V1_Clone :: "V1Content \<Rightarrow> V1Content" where
  "V1_Clone c = \<lparr>CoinbaseAddress = CoinbaseAddress c, Dbht = Dbht c,
     WinPreviousOPR = WinPreviousOPR c, FactomDigitalID = FactomDigitalID c,
     V1ContentAssets = V1AssetList_Clone (V1ContentAssets c)\<rparr>"

section \<open>V2Content.go, V4Content.go, V5Content.go\<close>

text \<open>
  The list has as many places as the record has assets and is filled in the order of the names:
  with fewer assets than names the index runs out of range, with more the rest stay zero.
\<close>

definition ordered_assets :: "string list \<Rightarrow> 'v \<Rightarrow> (u64 \<Rightarrow> 'v) \<Rightarrow> u64 list \<Rightarrow> 'v Asset list res" where
  "ordered_assets names zero f vals =
     guard_res (length vals < length names) (Panic ''index out of range'')
     (Inr (map2 (\<lambda>name v. \<lparr>Name = name, Value = f v\<rparr>) names vals
       @ replicate (length vals - length names) \<lparr>Name = [], Value = zero\<rparr>))"

definition V2_GetOrderedAssetsFloat :: "V2Content \<Rightarrow> AssetFloat list res" where
  "V2_GetOrderedAssetsFloat m = ordered_assets V2Assets (Fin 0) Uint64ToFloat (Assets m)"

definition V2_GetOrderedAssetsUint :: "V2Content \<Rightarrow> AssetUint list res" where
  "V2_GetOrderedAssetsUint m = ordered_assets V2Assets 0 id (Assets m)"

definition V4_GetOrderedAssetsFloat :: "V2Content \<Rightarrow> AssetFloat list res" where
  "V4_GetOrderedAssetsFloat m = ordered_assets V4Assets (Fin 0) Uint64ToFloat (Assets m)"

definition V4_GetOrderedAssetsUint :: "V2Content \<Rightarrow> AssetUint list res" where
  "V4_GetOrderedAssetsUint m = ordered_assets V4Assets 0 id (Assets m)"

definition V5_GetOrderedAssetsFloat :: "V2Content \<Rightarrow> AssetFloat list res" where
  "V5_GetOrderedAssetsFloat m = ordered_assets V5Assets (Fin 0) Uint64ToFloat (Assets m)"

definition V5_GetOrderedAssetsUint :: "V2Content \<Rightarrow> AssetUint list res" where
  "V5_GetOrderedAssetsUint m = ordered_assets V5Assets 0 id (Assets m)"

text \<open>The previous winners are kept as bytes and shown in hexadecimal.\<close>

definition V2_GetPreviousWinners :: "V2Content \<Rightarrow> string list" where
  "V2_GetPreviousWinners m = map hexEncode (Winners m)"

definition V4_GetPreviousWinners :: "V2Content \<Rightarrow> string list" where
  "V4_GetPreviousWinners m = map hexEncode (Winners m)"

definition V5_GetPreviousWinners :: "V2Content \<Rightarrow> string list" where
  "V5_GetPreviousWinners m = map hexEncode (Winners m)"

text \<open>The clones start from a new message, so they drop the unrecognised fields.\<close>

definition V2_Clone :: "V2Content \<Rightarrow> V2Content" where
  "V2_Clone m = zero_V2Content\<lparr>Address := Address m, Height := Height m, ID := ID m,
     Assets := Assets m, Winners := Winners m\<rparr>"

definition V4_Clone :: "V2Content \<Rightarrow> V2Content" where
  "V4_Clone m = zero_V2Content\<lparr>Address := Address m, Height := Height m, ID := ID m,
     Assets := Assets m, Winners := Winners m\<rparr>"

definition V5_Clone :: "V2Content \<Rightarrow> V2Content" where
  "V5_Clone m = zero_V2Content\<lparr>Address := Address m, Height := Height m, ID := ID m,
     Assets := Assets m, Winners := Winners m\<rparr>"

section \<open>The interface\<close>

fun GetHeight :: "OPR \<Rightarrow> 32 word" where
  "GetHeight (OPR_V1 c) = Dbht c"
| "GetHeight (OPR_V2 m) = Height m"
| "GetHeight (OPR_V4 m) = Height m"
| "GetHeight (OPR_V5 m) = Height m"

fun GetAddress :: "OPR \<Rightarrow> string" where
  "GetAddress (OPR_V1 c) = CoinbaseAddress c"
| "GetAddress (OPR_V2 m) = Address m"
| "GetAddress (OPR_V4 m) = Address m"
| "GetAddress (OPR_V5 m) = Address m"

fun GetID :: "OPR \<Rightarrow> string" where
  "GetID (OPR_V1 c) = FactomDigitalID c"
| "GetID (OPR_V2 m) = ID m"
| "GetID (OPR_V4 m) = ID m"
| "GetID (OPR_V5 m) = ID m"

fun GetPreviousWinners :: "OPR \<Rightarrow> string list" where
  "GetPreviousWinners (OPR_V1 c) = WinPreviousOPR c"
| "GetPreviousWinners (OPR_V2 m) = V2_GetPreviousWinners m"
| "GetPreviousWinners (OPR_V4 m) = V4_GetPreviousWinners m"
| "GetPreviousWinners (OPR_V5 m) = V5_GetPreviousWinners m"

fun GetOrderedAssetsFloat :: "OPR \<Rightarrow> AssetFloat list res" where
  "GetOrderedAssetsFloat (OPR_V1 c) = Inr (V1_GetOrderedAssetsFloat c)"
| "GetOrderedAssetsFloat (OPR_V2 m) = V2_GetOrderedAssetsFloat m"
| "GetOrderedAssetsFloat (OPR_V4 m) = V4_GetOrderedAssetsFloat m"
| "GetOrderedAssetsFloat (OPR_V5 m) = V5_GetOrderedAssetsFloat m"

fun GetOrderedAssetsUint :: "(f64 \<Rightarrow> u64) \<Rightarrow> OPR \<Rightarrow> AssetUint list res" where
  "GetOrderedAssetsUint oob (OPR_V1 c) = Inr (V1_GetOrderedAssetsUint oob c)"
| "GetOrderedAssetsUint oob (OPR_V2 m) = V2_GetOrderedAssetsUint m"
| "GetOrderedAssetsUint oob (OPR_V4 m) = V4_GetOrderedAssetsUint m"
| "GetOrderedAssetsUint oob (OPR_V5 m) = V5_GetOrderedAssetsUint m"

fun GetType :: "OPR \<Rightarrow> Type" where
  "GetType (OPR_V1 _) = V1"
| "GetType (OPR_V2 _) = V2"
| "GetType (OPR_V4 _) = V2"
| "GetType (OPR_V5 _) = V2"

fun OPR_Clone :: "OPR \<Rightarrow> OPR" where
  "OPR_Clone (OPR_V1 c) = OPR_V1 (V1_Clone c)"
| "OPR_Clone (OPR_V2 m) = OPR_V2 (V2_Clone m)"
| "OPR_Clone (OPR_V4 m) = OPR_V4 (V4_Clone m)"
| "OPR_Clone (OPR_V5 m) = OPR_V5 (V5_Clone m)"

section \<open>parse.go\<close>

definition ParseV1Content :: "(byte list \<Rightarrow> V1Content res) \<Rightarrow> byte list \<Rightarrow> V1Content res" where
  "ParseV1Content json data = json data"

definition ParseV2Content :: "byte list \<Rightarrow> V2Content res" where
  "ParseV2Content data = guard_res (length data = 0) (GoError ''no bytes to decode'')
     (Unmarshal zero_V2Content data)"

definition Parse :: "(byte list \<Rightarrow> V1Content res) \<Rightarrow> byte list \<Rightarrow> OPR res" where
  "Parse json data = (case ParseV1Content json data of
     Inr js \<Rightarrow> Inr (OPR_V1 js)
   | Inl _ \<Rightarrow> (case ParseV2Content data of
       Inr p \<Rightarrow> Inr (OPR_V2 p)
     | Inl _ \<Rightarrow> Inl (GoError ''unable to detect format'')))"

section \<open>What the interface promises\<close>

lemma ordered_assets_Inr:
  "length names \<le> length vals \<Longrightarrow> \<exists>as. ordered_assets names zero f vals = Inr as
     \<and> length as = length vals \<and> take (length names) (map Name as) = names
     \<and> map Value as = map f (take (length names) vals) @ replicate (length vals - length names) zero"
proof -
  assume le: "length names \<le> length vals"
  then have "map fst (zip names vals) = names" "map snd (zip names vals) = take (length names) vals"
    by (simp_all add: map_fst_zip_take map_snd_zip_take min_def)
  moreover have "map (\<lambda>x. f (snd x)) (zip names vals) = map f (map snd (zip names vals))" by simp
  ultimately show ?thesis using le by (simp add: ordered_assets_def comp_def split_def)
qed

lemma V2_Clone_eq: "XXX_unrecognized m = [] \<Longrightarrow> V2_Clone m = m"
  by (cases m) (simp add: V2_Clone_def zero_V2Content_def)

lemma Clone_same:
  "V4_Clone m = V2_Clone m" "V5_Clone m = V2_Clone m" "V1_Clone c = c"
  by (simp_all add: V2_Clone_def V4_Clone_def V5_Clone_def V1_Clone_def V1AssetList_Clone_def)

lemma Clone_sel [simp]:
  "Address (V2_Clone m) = Address m" "ID (V2_Clone m) = ID m" "Height (V2_Clone m) = Height m"
  "Winners (V2_Clone m) = Winners m" "Assets (V2_Clone m) = Assets m"
  by (simp_all add: V2_Clone_def)

lemma OPR_Clone_assets [simp]: "GetOrderedAssetsFloat (OPR_Clone p) = GetOrderedAssetsFloat p"
  by (cases p) (simp_all add: Clone_same V2_GetOrderedAssetsFloat_def V4_GetOrderedAssetsFloat_def
      V5_GetOrderedAssetsFloat_def)

text \<open>
  A clone answers every call of the interface as the record it was cloned from, and cloning it
  again changes nothing.
\<close>

theorem OPR_Clone_same:
  "GetHeight (OPR_Clone p) = GetHeight p \<and> GetAddress (OPR_Clone p) = GetAddress p
   \<and> GetID (OPR_Clone p) = GetID p \<and> GetPreviousWinners (OPR_Clone p) = GetPreviousWinners p
   \<and> GetOrderedAssetsFloat (OPR_Clone p) = GetOrderedAssetsFloat p
   \<and> GetOrderedAssetsUint oob (OPR_Clone p) = GetOrderedAssetsUint oob p
   \<and> GetType (OPR_Clone p) = GetType p \<and> OPR_Clone (OPR_Clone p) = OPR_Clone p"
  by (cases p)
    (simp_all add: Clone_same V2_GetPreviousWinners_def V4_GetPreviousWinners_def
      V5_GetPreviousWinners_def V2_GetOrderedAssetsFloat_def V4_GetOrderedAssetsFloat_def
      V5_GetOrderedAssetsFloat_def V2_GetOrderedAssetsUint_def V4_GetOrderedAssetsUint_def
      V5_GetOrderedAssetsUint_def V2_Clone_eq, simp_all add: V2_Clone_def zero_V2Content_def)

end
