(* ===== verification/Base58.thy ===== *)
theory Base58
  imports Prelude
begin

text \<open>
  modules/factoidaddress/base58.go: the base58 coding of byte strings with Bitcoin's alphabet.
  Big integers are \<open>int\<close>; the loops over them are recursive functions with their termination
  proofs. The positional-number lemmas are stated once, for any base.
\<close>

section \<open>Positional notation\<close>

function digits_be :: "int \<Rightarrow> int \<Rightarrow> int list" where
  "digits_be B x = (if 0 < x \<and> 1 < B then digits_be B (x div B) @ [x mod B] else [])"
  by pat_completeness auto
termination
  by (relation "measure (\<lambda>(B, x). nat x)") (auto intro: int_div_less_self)

declare digits_be.simps [simp del]

definition val_be :: "int \<Rightarrow> int list \<Rightarrow> int" where
  "val_be B ds = foldl (\<lambda>a d. a * B + d) 0 ds"

lemma digits_be_0 [simp]: "digits_be B 0 = []"
  by (simp add: digits_be.simps)

lemma digits_be_step: "0 < x \<Longrightarrow> 1 < B \<Longrightarrow> digits_be B x = digits_be B (x div B) @ [x mod B]"
  by (simp add: digits_be.simps [of B x])

lemma val_be_Nil [simp]: "val_be B [] = 0"
  by (simp add: val_be_def)

lemma val_be_snoc [simp]: "val_be B (ds @ [d]) = val_be B ds * B + d"
  by (simp add: val_be_def)

lemma val_be_digits_be [simp]: "1 < B \<Longrightarrow> 0 \<le> x \<Longrightarrow> val_be B (digits_be B x) = x"
proof (induction B x rule: digits_be.induct)
  case (1 B x)
  then show ?case
    by (cases "0 < x") (simp_all add: digits_be_step pos_imp_zdiv_nonneg_iff)
qed

lemma digits_be_range: "1 < B \<Longrightarrow> d \<in> set (digits_be B x) \<Longrightarrow> 0 \<le> d \<and> d < B"
proof (induction B x rule: digits_be.induct)
  case (1 B x)
  then show ?case
    by (cases "0 < x") (auto simp: digits_be_step digits_be.simps [of B x])
qed

lemma val_be_nonneg: "0 \<le> B \<Longrightarrow> (\<And>d. d \<in> set ds \<Longrightarrow> 0 \<le> d) \<Longrightarrow> 0 \<le> val_be B ds"
  by (induction ds rule: rev_induct) auto

lemma hd_digits_be: "1 < B \<Longrightarrow> 0 < x \<Longrightarrow> digits_be B x \<noteq> [] \<and> hd (digits_be B x) \<noteq> 0"
proof (induction B x rule: digits_be.induct)
  case (1 B x)
  show ?case
  proof (cases "0 < x div B")
    case True
    with 1 have IH: "digits_be B (x div B) \<noteq> [] \<and> hd (digits_be B (x div B)) \<noteq> 0"
      by blast
    have "digits_be B x = digits_be B (x div B) @ [x mod B]"
      using "1.prems" by (intro digits_be_step)
    with IH show ?thesis by simp
  next
    case False
    with 1 have "x div B = 0"
      using pos_imp_zdiv_nonneg_iff [of B x] by simp
    then have "x mod B = x"
      using div_mult_mod_eq [of x B] by simp
    with 1 \<open>x div B = 0\<close> show ?thesis
      by (simp add: digits_be_step)
  qed
qed

lemma val_be_leading_zeros [simp]: "val_be B (replicate n 0 @ ds) = val_be B ds"
  by (induction n) (simp_all add: val_be_def)

text \<open>The digits of the value of a digit string are the string without its leading zeros.\<close>

lemma digits_be_val_be:
  "1 < B \<Longrightarrow> (\<And>d. d \<in> set ds \<Longrightarrow> 0 \<le> d \<and> d < B) \<Longrightarrow>
   digits_be B (val_be B ds) = dropWhile (\<lambda>d. d = 0) ds"
proof (induction ds rule: rev_induct)
  case (snoc d ds)
  let ?v = "val_be B ds"
  have v: "0 \<le> ?v"
    using snoc.prems by (intro val_be_nonneg) auto
  have d: "0 \<le> d" "d < B"
    using snoc.prems by auto
  have IH: "digits_be B ?v = dropWhile (\<lambda>d. d = 0) ds"
    using snoc by simp
  show ?case
  proof (cases "?v * B + d = 0")
    case True
    moreover have "0 \<le> ?v * B" using v snoc.prems(1) by simp
    ultimately have "d = 0" "?v = 0"
      using v d snoc.prems(1) by (auto simp: add_nonneg_eq_0_iff)
    with IH have "dropWhile (\<lambda>d. d = 0) ds = []" by simp
    moreover have "val_be B (ds @ [d]) = 0" using True by simp
    ultimately show ?thesis
      using \<open>d = 0\<close> by (simp add: dropWhile_append del: val_be_snoc)
  next
    case False
    moreover have "0 \<le> ?v * B + d" using v d snoc.prems(1) by simp
    ultimately have "digits_be B (?v * B + d) = digits_be B ?v @ [d]"
      using d snoc.prems(1) by (simp add: digits_be_step)
    moreover have "dropWhile (\<lambda>d. d = 0) (ds @ [d]) = dropWhile (\<lambda>d. d = 0) ds @ [d]"
    proof (cases "\<forall>x\<in>set ds. x = 0")
      case True
      then have "ds = replicate (length ds) 0"
        by (simp add: replicate_length_same)
      then have "?v = 0"
        using val_be_leading_zeros [of B "length ds" "[]"] by simp
      with False True show ?thesis by (simp add: dropWhile_append)
    qed (auto simp: dropWhile_append dropWhile_eq_Nil_conv)
    ultimately show ?thesis
      using IH by simp
  qed
qed simp

section \<open>The alphabet\<close>

definition alphabet :: string where
  "alphabet = ''123456789ABCDEFGHJKLMNPQRSTUVWXYZabcdefghijkmnopqrstuvwxyz''"

abbreviation alphabetIdx0 :: char where
  "alphabetIdx0 \<equiv> CHR ''1''"

definition b58 :: "int list" where
  "b58 = [
    255, 255, 255, 255, 255, 255, 255, 255, 255, 255, 255, 255, 255, 255, 255, 255,
    255, 255, 255, 255, 255, 255, 255, 255, 255, 255, 255, 255, 255, 255, 255, 255,
    255, 255, 255, 255, 255, 255, 255, 255, 255, 255, 255, 255, 255, 255, 255, 255,
    255, 0, 1, 2, 3, 4, 5, 6, 7, 8, 255, 255, 255, 255, 255, 255,
    255, 9, 10, 11, 12, 13, 14, 15, 16, 255, 17, 18, 19, 20, 21, 255,
    22, 23, 24, 25, 26, 27, 28, 29, 30, 31, 32, 255, 255, 255, 255, 255,
    255, 33, 34, 35, 36, 37, 38, 39, 40, 41, 42, 43, 255, 44, 45, 46,
    47, 48, 49, 50, 51, 52, 53, 54, 55, 56, 57, 255, 255, 255, 255, 255,
    255, 255, 255, 255, 255, 255, 255, 255, 255, 255, 255, 255, 255, 255, 255, 255,
    255, 255, 255, 255, 255, 255, 255, 255, 255, 255, 255, 255, 255, 255, 255, 255,
    255, 255, 255, 255, 255, 255, 255, 255, 255, 255, 255, 255, 255, 255, 255, 255,
    255, 255, 255, 255, 255, 255, 255, 255, 255, 255, 255, 255, 255, 255, 255, 255,
    255, 255, 255, 255, 255, 255, 255, 255, 255, 255, 255, 255, 255, 255, 255, 255,
    255, 255, 255, 255, 255, 255, 255, 255, 255, 255, 255, 255, 255, 255, 255, 255,
    255, 255, 255, 255, 255, 255, 255, 255, 255, 255, 255, 255, 255, 255, 255, 255,
    255, 255, 255, 255, 255, 255, 255, 255, 255, 255, 255, 255, 255, 255, 255, 255]"

definition b58_index :: "char \<Rightarrow> int" where
  "b58_index c = b58 ! of_char c"

definition b58_char :: "int \<Rightarrow> char" where
  "b58_char d = alphabet ! nat d"

section \<open>Coding\<close>

text \<open>\<open>big.Int.Bytes\<close> and \<open>big.Int.SetBytes\<close>: big-endian, without leading zero bytes.\<close>

definition int_bytes :: "int \<Rightarrow> byte list" where
  "int_bytes x = map word_of_int (digits_be 256 x)"

definition bytes_int :: "byte list \<Rightarrow> int" where
  "bytes_int bs = val_be 256 (map uint bs)"

text \<open>The loop of \<open>Base58Decode\<close> from the last character to the first; \<open>None\<close> is its early return.\<close>

fun decode_loop :: "string \<Rightarrow> int \<Rightarrow> int \<Rightarrow> int option" where
  "decode_loop [] answer j = Some answer"
| "decode_loop (c # cs) answer j = (let tmp = b58_index c in
     if tmp = 255 then None else decode_loop cs (answer + j * tmp) (j * 58))"

definition Base58Decode :: "string \<Rightarrow> byte list" where
  "Base58Decode b = (case decode_loop (rev b) 0 1 of
     None \<Rightarrow> []
   | Some answer \<Rightarrow> (let tmpval = int_bytes answer;
       numZeros = length (takeWhile (\<lambda>c. c = alphabetIdx0) b)
       in replicate numZeros 0 @ tmpval))"

function encode_loop :: "int \<Rightarrow> string" where
  "encode_loop x = (if 0 < x then b58_char (x mod 58) # encode_loop (x div 58) else [])"
  by pat_completeness auto
termination
  by (relation "measure nat") (auto intro: int_div_less_self)

declare encode_loop.simps [simp del]

definition Base58Encode :: "byte list \<Rightarrow> string" where
  "Base58Encode b = rev (encode_loop (bytes_int b)
     @ replicate (length (takeWhile (\<lambda>i. i = 0) b)) alphabetIdx0)"

section \<open>The alphabet and its inverse table\<close>

lemma b58_index_b58_char:
  assumes "0 \<le> d" "d < 58"
  shows "b58_index (b58_char d) = d"
proof -
  have "list_all (\<lambda>d. b58_index (b58_char d) = d) [0..57]"
    by (simp add: upto.simps [of _ 57] b58_index_def b58_char_def alphabet_def b58_def)
  with assms show ?thesis
    by (simp add: list_all_iff)
qed

lemma b58_char_b58_index:
  assumes "b58_index c \<noteq> 255"
  shows "b58_char (b58_index c) = c \<and> 0 \<le> b58_index c \<and> b58_index c < 58"
proof -
  let ?n = "of_char c :: nat"
  have "list_all (\<lambda>p. snd p \<noteq> 255 \<longrightarrow>
      of_char (alphabet ! nat (snd p)) = fst p \<and> 0 \<le> snd p \<and> snd p < 58) (zip [0..255] b58)"
    unfolding b58_def alphabet_def by (simp add: upto.simps [of _ 255])
  moreover have "length b58 = 256"
    by (simp add: b58_def)
  moreover have "?n < 256"
    by (rule nat_of_char_less_256)
  ultimately have "b58 ! ?n \<noteq> 255 \<longrightarrow> of_char (alphabet ! nat (b58 ! ?n)) = int ?n
      \<and> 0 \<le> b58 ! ?n \<and> b58 ! ?n < 58"
    by (auto simp: list_all_length dest!: spec [of _ ?n])
  moreover have "int ?n = of_char c"
    by (simp only: of_nat_of_char)
  ultimately show ?thesis
    using assms by (auto simp: b58_index_def b58_char_def)
qed

lemma b58_char_0: "b58_char 0 = alphabetIdx0"
  by (simp add: b58_char_def alphabet_def)

lemma b58_char_eq_0: "0 \<le> d \<Longrightarrow> d < 58 \<Longrightarrow> b58_char d = alphabetIdx0 \<longleftrightarrow> d = 0"
  by (metis b58_char_0 b58_index_b58_char order_refl zero_less_numeral)

section \<open>Round trips\<close>

lemma encode_loop_digits: "encode_loop x = map b58_char (rev (digits_be 58 x))"
proof (induction x rule: encode_loop.induct)
  case (1 x)
  then show ?case
    by (cases "0 < x") (simp_all add: encode_loop.simps [of x] digits_be.simps [of 58 x])
qed

lemma Base58Encode_digits:
  "Base58Encode b = replicate (length (takeWhile (\<lambda>i. i = 0) b)) alphabetIdx0
     @ map b58_char (digits_be 58 (bytes_int b))"
  by (simp add: Base58Encode_def encode_loop_digits rev_map)

lemma decode_loop_acc:
  "decode_loop cs a j = (if \<exists>c\<in>set cs. b58_index c = 255 then None
     else Some (a + j * val_be 58 (map b58_index (rev cs))))"
proof (induction cs arbitrary: a j)
  case (Cons c cs)
  then show ?case by (simp add: Let_def algebra_simps)
qed simp

lemma decode_loop_rev:
  "decode_loop (rev s) 0 1 = (if \<exists>c\<in>set s. b58_index c = 255 then None
     else Some (val_be 58 (map b58_index s)))"
  by (simp add: decode_loop_acc)

lemma uint_lt2p_byte: "uint (b :: byte) < 2 ^ 8"
proof -
  have "uint b < 2 ^ LENGTH(8)" by (rule unsigned_less)
  then show ?thesis by simp
qed

lemma bytes_int_nonneg [simp]: "0 \<le> bytes_int bs"
  unfolding bytes_int_def by (rule val_be_nonneg) auto

lemma uint_byte_less [simp]: "uint (b :: byte) < 256"
  using uint_lt2p_byte [of b] by simp

lemma int_bytes_bytes_int: "int_bytes (bytes_int bs) = dropWhile (\<lambda>b. b = 0) bs"
proof -
  have "digits_be 256 (bytes_int bs) = dropWhile (\<lambda>d. d = 0) (map uint bs)"
    unfolding bytes_int_def by (rule digits_be_val_be) auto
  then show ?thesis
    by (simp add: int_bytes_def dropWhile_map comp_def uint_0_iff)
qed

lemma bytes_int_int_bytes: "0 \<le> x \<Longrightarrow> bytes_int (int_bytes x) = x"
proof -
  assume x: "0 \<le> x"
  have "map (uint \<circ> (word_of_int :: int \<Rightarrow> byte)) (digits_be 256 x) = digits_be 256 x"
    by (rule map_idI) (use digits_be_range [of 256 _ x] in \<open>simp add: uint_word_of_int\<close>)
  with x show ?thesis
    by (simp add: bytes_int_def int_bytes_def)
qed

lemma replicate_takeWhile_dropWhile:
  "replicate (length (takeWhile (\<lambda>x. x = z) xs)) z @ dropWhile (\<lambda>x. x = z) xs = xs"
proof -
  have "replicate (length (takeWhile (\<lambda>x. x = z) xs)) z = takeWhile (\<lambda>x. x = z) xs"
    by (rule replicate_eqI [symmetric]) (auto dest: set_takeWhileD)
  then show ?thesis by simp
qed

lemma takeWhile_replicate_append:
  "xs = [] \<or> hd xs \<noteq> z \<Longrightarrow> takeWhile (\<lambda>x. x = z) (replicate n z @ xs) = replicate n z"
  by (induction n) (cases xs; auto)+

lemma Base58Decode_Encode: "Base58Decode (Base58Encode bs) = bs"
proof -
  let ?ds = "digits_be 58 (bytes_int bs)" and ?z = "length (takeWhile (\<lambda>b. b = 0) bs)"
  let ?s = "replicate ?z alphabetIdx0 @ map b58_char ?ds"
  have range: "\<And>d. d \<in> set ?ds \<Longrightarrow> 0 \<le> d \<and> d < 58"
    by (rule digits_be_range) simp_all
  have idx0: "b58_index alphabetIdx0 = 0"
    using b58_index_b58_char [of 0] by (simp add: b58_char_0)
  have map_idx: "map b58_index (map b58_char ?ds) = ?ds"
    by (simp add: comp_def map_idI b58_index_b58_char range)
  have ok: "\<not> (\<exists>c\<in>set ?s. b58_index c = 255)"
    using range range [of 255] by (auto simp: idx0 b58_index_b58_char)
  have "val_be 58 (map b58_index ?s) = bytes_int bs"
    by (simp only: map_append map_replicate idx0 map_idx val_be_leading_zeros) simp
  moreover have "takeWhile (\<lambda>c. c = alphabetIdx0) ?s = replicate ?z alphabetIdx0"
  proof (rule takeWhile_replicate_append)
    show "map b58_char ?ds = [] \<or> hd (map b58_char ?ds) \<noteq> alphabetIdx0"
    proof (cases "?ds = []")
      case False
      then have "0 < bytes_int bs"
        by (metis bytes_int_nonneg digits_be_0 order_le_less)
      then have "hd ?ds \<noteq> 0"
        using hd_digits_be [of 58 "bytes_int bs"] by simp
      with False range [of "hd ?ds"] show ?thesis
        by (simp add: hd_map b58_char_eq_0)
    qed simp
  qed
  ultimately have "Base58Decode ?s = replicate ?z 0 @ dropWhile (\<lambda>b. b = 0) bs"
    using ok by (simp only: Base58Decode_def decode_loop_rev if_False option.case Let_def
        length_replicate int_bytes_bytes_int)
  then show ?thesis
    by (simp add: Base58Encode_digits replicate_takeWhile_dropWhile)
qed

lemma Base58Encode_Decode:
  assumes "\<And>c. c \<in> set s \<Longrightarrow> b58_index c \<noteq> 255"
  shows "Base58Encode (Base58Decode s) = s"
proof -
  let ?x = "val_be 58 (map b58_index s)" and ?z = "length (takeWhile (\<lambda>c. c = alphabetIdx0) s)"
  have range: "\<And>d. d \<in> set (map b58_index s) \<Longrightarrow> 0 \<le> d \<and> d < 58"
    using assms b58_char_b58_index by auto
  have x: "0 \<le> ?x"
    using range by (intro val_be_nonneg) auto
  have dec: "Base58Decode s = replicate ?z 0 @ int_bytes ?x"
    using assms by (auto simp: Base58Decode_def decode_loop_rev Let_def)
  have "int_bytes ?x = [] \<or> hd (int_bytes ?x) \<noteq> 0"
  proof (cases "?x = 0")
    case False
    with x have "digits_be 256 ?x \<noteq> []" "hd (digits_be 256 ?x) \<noteq> 0"
      using hd_digits_be [of 256 ?x] by auto
    moreover have "0 \<le> hd (digits_be 256 ?x) \<and> hd (digits_be 256 ?x) < 256"
      using hd_in_set [OF calculation(1)] by (intro digits_be_range) simp_all
    ultimately show ?thesis
      by (simp add: int_bytes_def hd_map word_of_int_eq_0_iff zdvd_not_zless)
  qed (simp add: int_bytes_def)
  then have z: "takeWhile (\<lambda>b. b = 0) (replicate ?z 0 @ int_bytes ?x) = replicate ?z 0"
    by (rule takeWhile_replicate_append)
  have "bytes_int (replicate ?z 0 @ int_bytes ?x) = ?x"
    using bytes_int_int_bytes [OF x] by (simp add: bytes_int_def)
  then have "Base58Encode (Base58Decode s)
      = replicate ?z alphabetIdx0 @ map b58_char (digits_be 58 ?x)"
    unfolding dec Base58Encode_digits z by simp
  also have "digits_be 58 ?x = dropWhile (\<lambda>d. d = 0) (map b58_index s)"
    using range by (intro digits_be_val_be) auto
  also have "map b58_char \<dots> = dropWhile (\<lambda>c. c = alphabetIdx0) s"
  proof -
    have "b58_char (b58_index c) = c \<and> (b58_index c = 0 \<longleftrightarrow> c = alphabetIdx0)" if "c \<in> set s" for c
      using b58_char_b58_index [OF assms [OF that]] b58_char_eq_0 [of "b58_index c"] by auto
    note c = this
    have "dropWhile (\<lambda>d. d = 0) (map b58_index s) = map b58_index (dropWhile (\<lambda>c. b58_index c = 0) s)"
      by (simp add: dropWhile_map comp_def)
    also have "dropWhile (\<lambda>c. b58_index c = 0) s = dropWhile (\<lambda>c. c = alphabetIdx0) s"
      using c by (intro dropWhile_cong) auto
    finally show ?thesis
      using c by (auto simp: comp_def intro!: map_idI dest: set_dropWhileD)
  qed
  finally show ?thesis
    by (simp add: replicate_takeWhile_dropWhile)
qed

end
