(* ===== verification/Go_Sha256.thy ===== *)
theory Go_Sha256
  imports Prelude
begin

text \<open>
  \<open>crypto/sha256.Sum256\<close> of the Go standard library: the SHA-256 function of FIPS 180-4 on byte
  slices. The oracle uses it for the OPR and SPR hashes, for the address checksum and for chain
  identifiers. Properties of the components only use that a digest has 32 bytes; the definition
  is concrete so that addresses can be evaluated.
\<close>

type_synonym w32 = "32 word"

definition rotr :: "nat \<Rightarrow> w32 \<Rightarrow> w32" where
  "rotr n x = drop_bit n x OR push_bit (32 - n) x"

text \<open>The constants, written as rows of eight words each.\<close>

definition row_words :: "256 word \<Rightarrow> w32 list" where
  "row_words r = map (\<lambda>i. ucast (drop_bit (32 * (7 - i)) r)) [0..<8]"

definition sha_k :: "w32 list" where
  "sha_k = concat (map row_words
    [0x428a2f9871374491b5c0fbcfe9b5dba53956c25b59f111f1923f82a4ab1c5ed5,
     0xd807aa9812835b01243185be550c7dc372be5d7480deb1fe9bdc06a7c19bf174,
     0xe49b69c1efbe47860fc19dc6240ca1cc2de92c6f4a7484aa5cb0a9dc76f988da,
     0x983e5152a831c66db00327c8bf597fc7c6e00bf3d5a7914706ca635114292967,
     0x27b70a852e1b21384d2c6dfc53380d13650a7354766a0abb81c2c92e92722c85,
     0xa2bfe8a1a81a664bc24b8b70c76c51a3d192e819d6990624f40e3585106aa070,
     0x19a4c1161e376c082748774c34b0bcb5391c0cb34ed8aa4a5b9cca4f682e6ff3,
     0x748f82ee78a5636f84c878148cc7020890befffaa4506cebbef9a3f7c67178f2])"

definition sha_init :: "w32 list" where
  "sha_init = row_words
    0x6a09e667bb67ae853c6ef372a54ff53a510e527f9b05688c1f83d9ab5be0cd19"

section \<open>Padding and parsing\<close>

definition be_bytes64 :: "nat \<Rightarrow> byte list" where
  "be_bytes64 n = map (\<lambda>i. word_of_int (int n div 256 ^ (7 - i))) [0..<8]"

definition sha_pad :: "byte list \<Rightarrow> byte list" where
  "sha_pad m = (let l = length m; z = (119 - l mod 64) mod 64
     in m @ [0x80] @ replicate z 0 @ be_bytes64 (8 * l))"

fun words32 :: "byte list \<Rightarrow> w32 list" where
  "words32 (a # b # c # d # bs) =
     (push_bit 24 (ucast a) OR push_bit 16 (ucast b) OR push_bit 8 (ucast c) OR ucast d) # words32 bs"
| "words32 _ = []"

definition bytes32 :: "w32 \<Rightarrow> byte list" where
  "bytes32 w = [ucast (drop_bit 24 w), ucast (drop_bit 16 w), ucast (drop_bit 8 w), ucast w]"

section \<open>Compression\<close>

text \<open>The message schedule, kept as a window of the last 16 words.\<close>

fun sha_schedule :: "nat \<Rightarrow> w32 list \<Rightarrow> w32 list" where
  "sha_schedule 0 ws = []"
| "sha_schedule (Suc n) ws = (let w0 = ws ! 0; w1 = ws ! 1; w9 = ws ! 9; w14 = ws ! 14;
     s0 = rotr 7 w1 XOR rotr 18 w1 XOR drop_bit 3 w1;
     s1 = rotr 17 w14 XOR rotr 19 w14 XOR drop_bit 10 w14
     in w0 # sha_schedule n (tl ws @ [w0 + s0 + w9 + s1]))"

datatype sha_state = Sha w32 w32 w32 w32 w32 w32 w32 w32

fun sha_round :: "sha_state \<Rightarrow> w32 \<times> w32 \<Rightarrow> sha_state" where
  "sha_round (Sha a b c d e f g h) (k, w) = (let
     s1 = rotr 6 e XOR rotr 11 e XOR rotr 25 e;
     ch = (e AND f) XOR (NOT e AND g);
     t1 = h + s1 + ch + k + w;
     s0 = rotr 2 a XOR rotr 13 a XOR rotr 22 a;
     maj = (a AND b) XOR (a AND c) XOR (b AND c)
     in Sha (t1 + (s0 + maj)) a b c (d + t1) e f g)"

fun sha_add :: "sha_state \<Rightarrow> sha_state \<Rightarrow> sha_state" where
  "sha_add (Sha a b c d e f g h) (Sha a' b' c' d' e' f' g' h') =
     Sha (a + a') (b + b') (c + c') (d + d') (e + e') (f + f') (g + g') (h + h')"

definition sha_block :: "sha_state \<Rightarrow> w32 list \<Rightarrow> sha_state" where
  "sha_block s ws = sha_add s (foldl sha_round s (zip sha_k (sha_schedule 64 ws)))"

function sha_blocks :: "sha_state \<Rightarrow> byte list \<Rightarrow> sha_state" where
  "sha_blocks s bs = (if bs = [] then s else sha_blocks (sha_block s (words32 (take 64 bs))) (drop 64 bs))"
  by pat_completeness auto
termination
  by (relation "measure (\<lambda>(s, bs). length bs)") auto

declare sha_blocks.simps [simp del]

fun sha_list :: "sha_state \<Rightarrow> w32 list" where
  "sha_list (Sha a b c d e f g h) = [a, b, c, d, e, f, g, h]"

definition sha_start :: sha_state where
  "sha_start = Sha (sha_init ! 0) (sha_init ! 1) (sha_init ! 2) (sha_init ! 3)
     (sha_init ! 4) (sha_init ! 5) (sha_init ! 6) (sha_init ! 7)"

definition sha256 :: "byte list \<Rightarrow> byte list" where
  "sha256 m = concat (map bytes32 (sha_list (sha_blocks sha_start (sha_pad m))))"

lemma length_sha256 [simp]: "length (sha256 m) = 32"
  by (cases "sha_blocks sha_start (sha_pad m)") (simp add: sha256_def bytes32_def)

end
