(* ===== verification/FactoidAddress.thy ===== *)
theory FactoidAddress
  imports Base58 Go_Sha256
begin

text \<open>
  modules/factoidaddress/factoidaddress.go: the human-readable Factoid (FCT) addresses that OPRs
  and SPRs name as their payout address. An address is the base58 coding of a two-byte prefix, a
  32-byte RCD hash and a four-byte checksum, the head of the double SHA-256 of the first 34 bytes.
\<close>

definition FactoidAddressPrefix :: "byte list" where
  "FactoidAddressPrefix = [0x5f, 0xb1]"

definition Checksum :: "byte list \<Rightarrow> byte list res" where
  "Checksum data =
     guard_res (length data \<noteq> 34)
       (GoError (''expected 34 bytes, only found '' @ itoa (int (length data))))
     (let sha = sha256 data; shad = sha256 sha in Inr (take 4 shad))"

definition Valid :: "string \<Rightarrow> unit res" where
  "Valid addr = (let data = Base58Decode addr in
     guard_res (length data = 0) (GoError ''address must be in base58'')
     (guard_res (length data \<noteq> 2 + 32 + 4) (GoError ''address is of wrong length'')
     (guard_res (take 2 data \<noteq> FactoidAddressPrefix) (GoError ''address has wrong prefix'')
     (let checksum = drop (length data - 4) data in
      rbind (Checksum (take 34 data)) (\<lambda>expected.
        guard_res (expected \<noteq> checksum) (GoError ''checksum is not correct'') (Inr ()))))))"

definition Encode :: "byte list \<Rightarrow> string res" where
  "Encode rcd = (let addr = FactoidAddressPrefix @ rcd in
     rbind (Checksum addr) (\<lambda>checksum. Inr (Base58Encode (addr @ checksum))))"

text \<open>\<open>Random\<close> ignores both errors: \<open>random_bytes\<close> is what \<open>crypto/rand\<close> put into the 32-byte buffer.\<close>

definition Random :: "byte list \<Rightarrow> string" where
  "Random random_bytes = (case Encode random_bytes of Inl _ \<Rightarrow> [] | Inr addr \<Rightarrow> addr)"

section \<open>Properties of the checksum and the encoder\<close>

lemma length_FactoidAddressPrefix [simp]: "length FactoidAddressPrefix = 2"
  by (simp add: FactoidAddressPrefix_def)

lemma Checksum_34: "length data = 34 \<Longrightarrow> Checksum data = Inr (take 4 (sha256 (sha256 data)))"
  by (simp add: Checksum_def Let_def)

lemma Encode_32: "length rcd = 32 \<Longrightarrow> Encode rcd = Inr (Base58Encode (FactoidAddressPrefix @ rcd
    @ take 4 (sha256 (sha256 (FactoidAddressPrefix @ rcd)))))"
  by (simp add: Encode_def Checksum_34)

lemma Encode_Inr_iff: "(\<exists>a. Encode rcd = Inr a) \<longleftrightarrow> length rcd = 32"
  by (auto simp: Encode_def Checksum_def Let_def res_simps)

lemma Valid_Encode: "Encode rcd = Inr addr \<Longrightarrow> Valid addr = Inr ()"
proof -
  assume enc: "Encode rcd = Inr addr"
  then have rcd: "length rcd = 32" using Encode_Inr_iff by blast
  let ?p = "FactoidAddressPrefix @ rcd"
  let ?d = "?p @ take 4 (sha256 (sha256 ?p))"
  have "addr = Base58Encode ?d"
    using enc rcd by (simp add: Encode_32)
  then have "Base58Decode addr = ?d"
    by (simp add: Base58Decode_Encode)
  moreover have "take 34 ?d = ?p" "drop (length ?d - 4) ?d = take 4 (sha256 (sha256 ?p))"
    "take 2 ?d = FactoidAddressPrefix" "length ?d = 38" "length ?p = 34"
    using rcd by simp_all
  ultimately show ?thesis
    by (simp only: Valid_def Let_def Checksum_34 rbind.simps guard_res_def) simp
qed

lemma Valid_decodes:
  assumes "Valid addr = Inr ()"
  shows "\<exists>rcd. length rcd = 32 \<and> Encode rcd = Inr addr"
proof -
  let ?d = "Base58Decode addr"
  let ?rcd = "take 32 (drop 2 ?d)"
  from assms have len: "length ?d = 38" and pre: "take 2 ?d = FactoidAddressPrefix"
    and ck: "take 4 (sha256 (sha256 (take 34 ?d))) = drop 34 ?d"
    by (auto simp: Valid_def Let_def Checksum_def res_simps guard_res_def split: if_splits)
  have none: "?d = []" if "\<exists>c\<in>set addr. b58_index c = 255"
    using that by (simp only: Base58Decode_def decode_loop_rev if_True option.case)
  have "\<not> (\<exists>c\<in>set addr. b58_index c = 255)"
  proof
    assume "\<exists>c\<in>set addr. b58_index c = 255"
    then have "?d = []" by (rule none)
    with len show False by simp
  qed
  then have again: "Base58Encode ?d = addr"
    by (intro Base58Encode_Decode) auto
  have split: "take 34 ?d = FactoidAddressPrefix @ ?rcd"
    using take_add [of 2 32 ?d] by (simp add: pre)
  have "Encode ?rcd = Inr (Base58Encode (take 34 ?d @ drop 34 ?d))"
    using len by (simp add: Encode_32 split ck [symmetric])
  with again len show ?thesis by (intro exI [of _ ?rcd]) simp
qed

section \<open>The shape of a valid address\<close>

lemma digits_be_split:
  assumes "1 < B" "0 < x div B ^ k"
  shows "\<exists>ds. digits_be B x = digits_be B (x div B ^ k) @ ds \<and> length ds = k"
  using assms(2)
proof (induction k arbitrary: x)
  case (Suc k)
  have "x div B ^ Suc k = x div B div B ^ k"
    using assms(1) by (simp add: zdiv_zmult2_eq)
  with Suc.prems have *: "0 < x div B div B ^ k" by simp
  then have "0 < x"
    using assms(1) by (metis div_0 linorder_not_le div_neg_pos_less0 le_less
        less_trans zero_less_one zero_less_power)
  obtain ds where "digits_be B (x div B) = digits_be B (x div B div B ^ k) @ ds" "length ds = k"
    using Suc.IH [OF *] by blast
  with \<open>0 < x\<close> assms(1) \<open>x div B ^ Suc k = x div B div B ^ k\<close> show ?case
    by (intro exI [of _ "ds @ [x mod B]"]) (simp add: digits_be_step)
qed simp

lemma val_be_append: "val_be B (xs @ ys) = val_be B xs * B ^ length ys + val_be B ys"
  by (induction ys rule: rev_induct) (simp_all add: algebra_simps flip: append_assoc)

lemma bytes_int_less: "bytes_int bs < 256 ^ length bs"
proof (induction bs rule: rev_induct)
  case (snoc b bs)
  have "bytes_int (bs @ [b]) = bytes_int bs * 256 + uint b"
    by (simp add: bytes_int_def)
  also have "\<dots> < (bytes_int bs + 1) * 256"
    by simp
  also have "\<dots> \<le> 256 ^ length bs * 256"
    using snoc by simp
  finally show ?case by simp
qed (simp add: bytes_int_def)

lemma Encode_shape:
  assumes "Encode rcd = Inr addr"
  shows "length addr = 52 \<and> take 2 addr = ''FA''"
proof -
  have "length rcd = 32" using assms Encode_Inr_iff by blast
  then obtain rest where addr: "addr = Base58Encode (FactoidAddressPrefix @ rest)" and
    rest: "length rest = 36"
    using assms by (force simp: Encode_32)
  let ?x = "bytes_int (FactoidAddressPrefix @ rest)"
  have x: "?x = 24497 * 256 ^ 36 + bytes_int rest"
    by (simp add: bytes_int_def val_be_append rest)
      (simp add: FactoidAddressPrefix_def val_be_def)
  have "bytes_int rest < 256 ^ 36"
    using bytes_int_less [of rest] rest by simp
  then have "821 * 58 ^ 50 \<le> ?x" "?x < 822 * 58 ^ 50"
    unfolding x using bytes_int_nonneg [of rest] by simp_all
  then have "?x div 58 ^ 50 = 821"
    by (intro int_div_pos_eq [of _ _ _ "?x - 821 * 58 ^ 50"]) simp_all
  then obtain ds where ds: "digits_be 58 ?x = digits_be 58 821 @ ds" "length ds = 50"
    using digits_be_split [of 58 ?x 50] by auto
  have "digits_be 58 821 = [14, 9]"
    by (simp add: digits_be_step)
  moreover have "map b58_char [14, 9] = ''FA''"
    by (simp add: b58_char_def alphabet_def)
  ultimately have "map b58_char (digits_be 58 ?x) = ''FA'' @ map b58_char ds"
    using ds by simp
  moreover have "takeWhile (\<lambda>i. i = 0) (FactoidAddressPrefix @ rest) = []"
    by (simp add: FactoidAddressPrefix_def)
  ultimately show ?thesis
    using ds(2) unfolding addr Base58Encode_digits by simp
qed

text \<open>
  C40. The addresses that are accepted are exactly the encodings of 32-byte hashes: all are 52
  characters that start with FA, and decoding one gives its hash back.
\<close>

theorem Valid_iff_Encode:
  "Valid addr = Inr () \<longleftrightarrow> (\<exists>rcd. length rcd = 32 \<and> Encode rcd = Inr addr \<and> length addr = 52
     \<and> take 2 addr = ''FA'' \<and> take 32 (drop 2 (Base58Decode addr)) = rcd)"
proof -
  have "take 32 (drop 2 (Base58Decode addr)) = rcd" if "length rcd = 32" "Encode rcd = Inr addr" for rcd
    using that by (auto simp: Encode_32 Base58Decode_Encode)
  then show ?thesis using Valid_decodes Valid_Encode Encode_shape by blast
qed

end
