(* ===== verification/Grader_Base.thy ===== *)
theory Grader_Base
  imports OprContent FactoidAddress Go_Sha256
begin

text \<open>
  modules/grader: gradingOPR.go, util.go, base.go and baseGradedBlock.go. The hash function \<open>LX\<close> of
  package LXRHash is an argument \<open>lx\<close>, initialised before it is used. The graders copy what they
  are given before they change it, so the records are values here.
\<close>

section \<open>gradingOPR.go\<close>

record GradingOPR =
  EntryHash :: "byte list"
  Nonce :: "byte list"
  SelfReportedDifficulty :: u64
  Grade :: f64
  OPRHash :: "byte list"
  position :: int
  payout :: int
  OPR :: OPR

definition GradingOPR_Clone :: "GradingOPR \<Rightarrow> GradingOPR" where
  "GradingOPR_Clone g = \<lparr>EntryHash = EntryHash g, Nonce = Nonce g,
     SelfReportedDifficulty = SelfReportedDifficulty g, Grade = Grade g, OPRHash = OPRHash g,
     position = position g, payout = payout g, OPR = OPR_Clone (OPR g)\<rparr>"

definition Shorthash :: "GradingOPR \<Rightarrow> string res" where
  "Shorthash g = guard_res (length (EntryHash g) < 8) (Panic ''slice bounds out of range'')
     (Inr (hexEncode (take 8 (EntryHash g))))"

section \<open>util.go\<close>

text \<open>
  All of the strings empty, or all of them 16 hexadecimal digits, as the first one is empty or not.
\<close>

definition verifyWinnerFormat :: "string list \<Rightarrow> nat \<Rightarrow> bool" where
  "verifyWinnerFormat winners n =
     (if length winners \<noteq> n then False
      else let notEmpty = (length winners > 0 \<and> length (winners ! 0) > 0) in
        list_all (\<lambda>s. if notEmpty then length s = 16 \<and> valid_hex s else length s = 0) winners)"

definition verifyWinners :: "string list \<Rightarrow> string list \<Rightarrow> bool" where
  "verifyWinners got wanted =
     (if length got \<noteq> length wanted then False
      else list_all (\<lambda>i. got ! i = wanted ! i) [0..<length got])"

lemma verifyWinners_eq [simp]: "verifyWinners xs ys \<longleftrightarrow> xs = ys"
  by (auto simp: verifyWinners_def list_all_iff intro: nth_equalityI)

section \<open>base.go: the graders\<close>

record baseGrader =
  oprs :: "GradingOPR list"
  height :: "32 word"
  prevWinners :: "string list"

datatype BlockGrader =
    V1BlockGrader baseGrader
  | V2BlockGrader baseGrader
  | V3BlockGrader baseGrader
  | V4BlockGrader baseGrader
  | V5BlockGrader baseGrader

definition new_base :: "32 word \<Rightarrow> string list \<Rightarrow> baseGrader" where
  "new_base h winners = \<lparr>oprs = [], height = h, prevWinners = winners\<rparr>"

definition NewGrader :: "byte \<Rightarrow> 32 word \<Rightarrow> string list \<Rightarrow> BlockGrader res" where
  "NewGrader version h previousWinners =
     guard_res (sint h < 0) (GoError ''height must be > 0'')
     (if version = 1 then
        (if length previousWinners = 0 then Inr (V1BlockGrader (new_base h (replicate 10 [])))
         else guard_res (\<not> verifyWinnerFormat previousWinners 10) (GoError ''invalid previous winners'')
           (Inr (V1BlockGrader (new_base h previousWinners))))
      else if version = 2 then
        (if length previousWinners = 0 then Inr (V2BlockGrader (new_base h (replicate 25 [])))
         else guard_res (\<not> verifyWinnerFormat previousWinners 10 \<and> \<not> verifyWinnerFormat previousWinners 25)
           (GoError ''invalid previous winners'')
           (Inr (V2BlockGrader (new_base h previousWinners))))
      else if version = 3 then
        (if length previousWinners = 0 then Inr (V3BlockGrader (new_base h (replicate 25 [])))
         else guard_res (\<not> verifyWinnerFormat previousWinners 25) (GoError ''invalid previous winners'')
           (Inr (V3BlockGrader (new_base h previousWinners))))
      else if version = 4 then
        (if length previousWinners = 0 then Inr (V4BlockGrader (new_base h (replicate 25 [])))
         else guard_res (\<not> verifyWinnerFormat previousWinners 25) (GoError ''invalid previous winners'')
           (Inr (V4BlockGrader (new_base h previousWinners))))
      else if version = 5 then
        (if length previousWinners = 0 then Inr (V5BlockGrader (new_base h (replicate 25 [])))
         else guard_res (\<not> verifyWinnerFormat previousWinners 25) (GoError ''invalid previous winners'')
           (Inr (V5BlockGrader (new_base h previousWinners))))
      else Inl (GoError ''unsupported version''))"

fun base_of :: "BlockGrader \<Rightarrow> baseGrader" where
  "base_of (V1BlockGrader b) = b"
| "base_of (V2BlockGrader b) = b"
| "base_of (V3BlockGrader b) = b"
| "base_of (V4BlockGrader b) = b"
| "base_of (V5BlockGrader b) = b"

definition Count :: "BlockGrader \<Rightarrow> nat" where
  "Count g = length (oprs (base_of g))"

definition PreviousWinners :: "BlockGrader \<Rightarrow> string list" where
  "PreviousWinners g = prevWinners (base_of g)"

definition GraderHeight :: "BlockGrader \<Rightarrow> 32 word" where
  "GraderHeight g = height (base_of g)"

section \<open>baseGradedBlock.go\<close>

record baseGradedBlock =
  graded_oprs :: "GradingOPR list"
  cutoff :: int
  block_height :: "32 word"
  block_count :: nat
  shorthashes :: "string list"

definition cloneOPRS :: "GradingOPR list \<Rightarrow> baseGradedBlock \<Rightarrow> baseGradedBlock" where
  "cloneOPRS os b = b\<lparr>graded_oprs := map GradingOPR_Clone os, block_count := length os\<rparr>"

definition AmountGraded :: "baseGradedBlock \<Rightarrow> nat" where
  "AmountGraded b = length (graded_oprs b)"

definition createShortHashes :: "nat \<Rightarrow> baseGradedBlock \<Rightarrow> baseGradedBlock res" where
  "createShortHashes n b =
     (if n \<le> length (graded_oprs b)
      then rbind (res_map Shorthash (take n (graded_oprs b))) (\<lambda>hs. Inr (b\<lparr>shorthashes := hs\<rparr>))
      else Inr (b\<lparr>shorthashes := replicate n []\<rparr>))"

text \<open>\<open>binary.BigEndian.Uint64\<close> reads the first eight bytes and panics on fewer.\<close>

definition be_u64 :: "byte list \<Rightarrow> u64 res" where
  "be_u64 bs = guard_res (length bs < 8) (Panic ''index out of range'')
     (Inr (foldl (\<lambda>acc b. acc * 256 + ucast b) 0 (take 8 bs)))"

definition more_difficult :: "GradingOPR \<Rightarrow> GradingOPR \<Rightarrow> bool" where
  "more_difficult a b \<longleftrightarrow> SelfReportedDifficulty b < SelfReportedDifficulty a"

definition lx_difficulty :: "(byte list \<Rightarrow> byte list) \<Rightarrow> GradingOPR \<Rightarrow> u64 res" where
  "lx_difficulty lx g = be_u64 (lx (OPRHash g @ Nonce g))"

fun take_honest :: "(byte list \<Rightarrow> byte list) \<Rightarrow> int \<Rightarrow> GradingOPR list \<Rightarrow> GradingOPR list
    \<Rightarrow> GradingOPR list res" where
  "take_honest lx limit topX [] = Inr topX"
| "take_honest lx limit topX (g # gs) = rbind (lx_difficulty lx g) (\<lambda>diff.
     if diff \<noteq> SelfReportedDifficulty g then take_honest lx limit topX gs
     else let topX' = topX @ [g] in
       if limit \<le> int (length topX') then Inr topX' else take_honest lx limit topX' gs)"

definition sortByDifficulty ::
  "(byte list \<Rightarrow> byte list) \<Rightarrow> int \<Rightarrow> baseGradedBlock \<Rightarrow> baseGradedBlock res" where
  "sortByDifficulty lx limit b =
     rbind (take_honest lx limit [] (sort_stable more_difficult (graded_oprs b)))
       (\<lambda>topX. Inr (b\<lparr>graded_oprs := topX\<rparr>))"

fun filter_dups :: "byte list set \<Rightarrow> GradingOPR list \<Rightarrow> GradingOPR list" where
  "filter_dups added [] = []"
| "filter_dups added (g # gs) = (let id = Nonce g @ OPRHash g in
     if id \<in> added then filter_dups added gs else g # filter_dups (insert id added) gs)"

definition filterDuplicates :: "baseGradedBlock \<Rightarrow> baseGradedBlock" where
  "filterDuplicates b = b\<lparr>graded_oprs := filter_dups {} (graded_oprs b)\<rparr>"


section \<open>What the filters keep\<close>

definition opr_id :: "GradingOPR \<Rightarrow> byte list" where
  "opr_id g = Nonce g @ OPRHash g"

lemma filter_dups_set: "set (filter_dups A gs) \<subseteq> set gs"
  by (induction A gs rule: filter_dups.induct) (auto simp: Let_def)

lemma filter_dups_ids: "opr_id ` set (filter_dups A gs) = opr_id ` set gs - A"
  by (induction A gs rule: filter_dups.induct) (auto simp: Let_def opr_id_def)

lemma filter_dups_distinct: "distinct (map opr_id (filter_dups A gs))"
proof (induction A gs rule: filter_dups.induct)
  case (2 A g gs)
  then show ?case
    using filter_dups_ids [of "insert (opr_id g) A" gs] by (auto simp: Let_def opr_id_def)
qed simp

lemma filter_dups_id: "distinct (map opr_id gs) \<Longrightarrow> opr_id ` set gs \<inter> A = {} \<Longrightarrow> filter_dups A gs = gs"
  by (induction A gs rule: filter_dups.induct) (auto simp: Let_def opr_id_def)

lemma filter_dups_length: "length (filter_dups A gs) \<le> length gs"
  by (induction A gs rule: filter_dups.induct) (auto simp: Let_def le_SucI)

text \<open>The records whose reported difficulty is their hash's.\<close>

definition honest :: "(byte list \<Rightarrow> byte list) \<Rightarrow> GradingOPR \<Rightarrow> bool" where
  "honest lx g \<longleftrightarrow> lx_difficulty lx g = Inr (SelfReportedDifficulty g)"

definition lx_ok :: "(byte list \<Rightarrow> byte list) \<Rightarrow> bool" where
  "lx_ok lx \<longleftrightarrow> (\<forall>bs. 8 \<le> length (lx bs))"

lemma lx_difficulty_Inr: "lx_ok lx \<Longrightarrow> \<exists>d. lx_difficulty lx g = Inr d"
  by (simp add: lx_difficulty_def be_u64_def lx_ok_def not_less)

lemma take_honest_filter:
  assumes "lx_ok lx"
  shows "take_honest lx limit topX gs
    = Inr (topX @ take (nat (max 1 (limit - int (length topX)))) (filter (honest lx) gs))"
proof (induction gs arbitrary: topX)
  case (Cons g gs)
  obtain d where d: "lx_difficulty lx g = Inr d" using lx_difficulty_Inr [OF assms] by blast
  let ?n = "limit - int (length topX)"
  show ?case
  proof (cases "d = SelfReportedDifficulty g")
    case True
    then have h: "honest lx g" by (simp add: honest_def d)
    show ?thesis
    proof (cases "limit \<le> int (length topX) + 1")
      case True
      then have "nat (max 1 ?n) = Suc 0" by simp
      with True h d \<open>d = SelfReportedDifficulty g\<close> show ?thesis by (simp add: Let_def add.commute)
    next
      case False
      then have "nat (max 1 ?n) = Suc (nat (max 1 (limit - int (length (topX @ [g])))))" by simp
      with False h d \<open>d = SelfReportedDifficulty g\<close> Cons show ?thesis
        by (simp add: Let_def add.commute)
    qed
  next
    case False
    then have "\<not> honest lx g" by (simp add: honest_def d)
    with False d Cons show ?thesis by simp
  qed
qed simp

definition difficulty_order :: "GradingOPR \<Rightarrow> int" where
  "difficulty_order g = - uint (SelfReportedDifficulty g)"

lemma more_difficult_order: "more_difficult a b \<longleftrightarrow> difficulty_order a < difficulty_order b"
  by (simp add: more_difficult_def difficulty_order_def word_less_def)

lemma sort_more_difficult: "sort_stable more_difficult gs = sort_key difficulty_order gs"
  by (rule sort_stable_sort_key) (simp add: more_difficult_order)

text \<open>The records that go on to be graded: the honest ones of the greatest difficulty.\<close>

definition top_honest :: "(byte list \<Rightarrow> byte list) \<Rightarrow> int \<Rightarrow> GradingOPR list \<Rightarrow> GradingOPR list" where
  "top_honest lx limit gs =
     take (nat (max 1 limit)) (filter (honest lx) (sort_key difficulty_order gs))"

lemma sortByDifficulty_eq:
  "lx_ok lx \<Longrightarrow> sortByDifficulty lx limit b
     = Inr (b\<lparr>graded_oprs := top_honest lx limit (graded_oprs b)\<rparr>)"
  by (simp add: sortByDifficulty_def take_honest_filter sort_more_difficult top_honest_def)

lemma set_top_honest: "set (top_honest lx limit gs) \<subseteq> {g \<in> set gs. honest lx g}"
  by (auto simp: top_honest_def dest!: in_set_takeD)

lemma length_top_honest: "1 \<le> limit \<Longrightarrow> int (length (top_honest lx limit gs)) \<le> limit"
  by (auto simp: top_honest_def min_def)

lemma distinct_map_take_filter:
  "distinct (map f xs) \<Longrightarrow> distinct (map f (take n (filter P xs)))"
  by (metis distinct_map_filter distinct_take take_map)

lemma distinct_top_honest:
  assumes "distinct (map opr_id gs)" shows "distinct (map opr_id (top_honest lx limit gs))"
proof -
  have "mset (map opr_id (sort_key difficulty_order gs)) = mset (map opr_id gs)" by simp
  then have "distinct (map opr_id (sort_key difficulty_order gs))"
    using assms mset_eq_imp_distinct_iff by blast
  then show ?thesis unfolding top_honest_def by (rule distinct_map_take_filter)
qed

text \<open>No honest record that is left out is more difficult than one that is kept.\<close>

lemma top_honest_greatest:
  assumes "g \<in> set gs" "honest lx g" "g \<notin> set (top_honest lx limit gs)"
    "h \<in> set (top_honest lx limit gs)"
  shows "SelfReportedDifficulty g \<le> SelfReportedDifficulty h"
    and "length (top_honest lx limit gs) = nat (max 1 limit)"
proof -
  let ?fs = "filter (honest lx) (sort_key difficulty_order gs)" and ?n = "nat (max 1 limit)"
  have g: "g \<in> set ?fs" using assms by simp
  then have drop: "g \<in> set (drop ?n ?fs)"
    using assms(3) by (metis UnE append_take_drop_id set_append top_honest_def)
  have "sorted (map difficulty_order ?fs)"
    by (simp add: sorted_filter)
  then have "sorted (map difficulty_order (take ?n ?fs) @ map difficulty_order (drop ?n ?fs))"
    by (simp flip: map_append)
  then have "difficulty_order h \<le> difficulty_order g"
    using drop assms(4) unfolding top_honest_def by (simp add: sorted_append)
  then show "SelfReportedDifficulty g \<le> SelfReportedDifficulty h"
    by (simp add: difficulty_order_def word_le_def)
  show "length (top_honest lx limit gs) = ?n"
    using drop by (auto simp: top_honest_def min_def)
qed

text \<open>With pairwise different difficulties the order of the input does not matter.\<close>

lemma top_honest_mset:
  assumes "mset gs = mset hs" "inj_on SelfReportedDifficulty (set gs)"
  shows "top_honest lx limit gs = top_honest lx limit hs"
proof -
  have "inj_on difficulty_order (set gs)"
    using assms(2) by (auto simp: inj_on_def difficulty_order_def simp flip: word_uint_eq_iff)
  then have "sort_key difficulty_order gs = sort_key difficulty_order hs"
    using assms(1) by (intro sort_key_perm_unique)
  then show ?thesis by (simp add: top_honest_def)
qed

end
