(* ===== verification/Grader_Algo.thy ===== *)
theory Grader_Algo
  imports Assets
begin

text \<open>
  The grading algorithm that modules/grader (v1_util.go, v2_util.go, v5_util.go) and
  modules/graderStake (s1_util.go) share: averages of price vectors, the distance of a vector to an
  average, and the passes of the elimination. The records are a type parameter with a function
  \<open>prices\<close> that reads their ordered assets; a read that panics ends the computation.
\<close>

section \<open>Averages\<close>

text \<open>
  The element-wise updates \<open>avg[i] += v\<close> and \<open>data[i] = append(data[i], v)\<close> for the assets of one
  record; an index past the end panics, places past the assets stay as they are.
\<close>

definition update_each :: "('a \<Rightarrow> f64 \<Rightarrow> 'a) \<Rightarrow> 'a list \<Rightarrow> f64 list \<Rightarrow> 'a list res" where
  "update_each f xs vals =
     guard_res (length xs < length vals) (Panic ''index out of range'')
     (Inr (map2 f xs vals @ drop (length vals) xs))"

definition sum_price :: "f64 \<Rightarrow> f64 \<Rightarrow> f64" where
  "sum_price acc v = (if fle (Fin 0) v then fadd acc v else fsub acc v)"

definition average_mean :: "('o \<Rightarrow> f64 list res) \<Rightarrow> 'o list \<Rightarrow> f64 list res" where
  "average_mean prices os = (case os of
     [] \<Rightarrow> Inl (Panic ''index out of range'')
   | o1 # _ \<Rightarrow> rbind (prices o1) (\<lambda>first.
       rbind (res_fold (\<lambda>avg p. rbind (prices p) (update_each sum_price avg))
         (replicate (length first) (Fin 0)) os) (\<lambda>totals.
       Inr (map (\<lambda>s. fdiv s (f64_of_int (int (length os)))) totals))))"

definition TrimmedMeanFloat :: "f64 list \<Rightarrow> nat \<Rightarrow> f64 res" where
  "TrimmedMeanFloat data p = (let sorted_data = sort_stable flt data; n = length sorted_data in
     if n \<le> 3 then
       guard_res (n = 0) (Panic ''index out of range'') (Inr (sorted_data ! (n div 2)))
     else Inr (fdiv (foldl (\<lambda>acc i. fadd acc (sorted_data ! i)) (Fin 0) [p..<n - p])
       (f64_of_int (int n - 2 * int p))))"

text \<open>\<open>int(float64(n) * 0.1)\<close>; the product is far below the range where the conversion is undefined.\<close>

definition noisy_length :: "nat \<Rightarrow> nat" where
  "noisy_length n = nat (int_of_f64 (\<lambda>_. 0) (fmul (f64_of_int (int n)) (f64_const (1 / 10))))"

definition average_trimmed :: "('o \<Rightarrow> f64 list res) \<Rightarrow> 'o list \<Rightarrow> f64 list res" where
  "average_trimmed prices os = (case os of
     [] \<Rightarrow> Inl (Panic ''index out of range'')
   | o1 # _ \<Rightarrow> rbind (prices o1) (\<lambda>first.
       rbind (res_fold (\<lambda>data p. rbind (prices p) (update_each (\<lambda>xs v. xs @ [v]) data))
         (replicate (length first) []) os) (\<lambda>data.
       res_map (\<lambda>xs. TrimmedMeanFloat xs (noisy_length (length xs) + 1)) data)))"

section \<open>Distances\<close>

text \<open>The loop over the assets: only those with a positive average count.\<close>

fun grade_sum :: "(f64 \<Rightarrow> f64 \<Rightarrow> f64) \<Rightarrow> f64 list \<Rightarrow> f64 list \<Rightarrow> f64 \<Rightarrow> f64 res" where
  "grade_sum dst avg [] acc = Inr acc"
| "grade_sum dst [] (v # vs) acc = Inl (Panic ''index out of range'')"
| "grade_sum dst (a # avg) (v # vs) acc =
     grade_sum dst avg vs (if flt (Fin 0) a then fadd acc (fquart (dst v a)) else acc)"

definition plain_distance :: "f64 \<Rightarrow> f64 \<Rightarrow> f64" where
  "plain_distance v a = fdiv (fsub v a) a"

definition banded_distance :: "f64 \<Rightarrow> f64 \<Rightarrow> f64 \<Rightarrow> f64" where
  "banded_distance band v a = fband band (fdev v a)"

section \<open>The passes\<close>

text \<open>\<open>for i := cutoff; i >= stop; i--\<close>, each round a pass over the first \<open>i\<close> records.\<close>

fun grade_passes :: "(nat \<Rightarrow> 'o list \<Rightarrow> 'o list res) \<Rightarrow> nat \<Rightarrow> nat \<Rightarrow> 'o list \<Rightarrow> 'o list res" where
  "grade_passes pass stop 0 os = Inr os"
| "grade_passes pass stop (Suc i) os =
     (if Suc i < stop then Inr os
      else rbind (pass (Suc i) os) (\<lambda>os'. grade_passes pass stop i os'))"

section \<open>Bounds of sums\<close>

lemma rnd_val_grid:
  assumes "0 \<le> k" "k \<le> 2 ^ 53" "- 1074 \<le> m"
  shows "rnd_val (of_int k * pow2 m) = of_int k * pow2 m"
proof (cases "k = 0 \<or> k = 2 ^ 53")
  case True
  then show ?thesis
  proof
    assume "k = 2 ^ 53"
    then have "of_int k * pow2 m = pow2 (53 + m)" by (simp add: pow2_add) (simp add: pow2_def)
    then show ?thesis using assms by (simp add: rnd_val_pow2)
  qed simp
next
  case False
  then have k: "1 \<le> k" "k < 2 ^ 53" using assms by auto
  show ?thesis
  proof (rule rnd_val_exact [of _ k m])
    have "(of_int k :: rat) < of_int (2 ^ 53)" using k(2) by (simp only: of_int_less_iff)
    then have "of_int k < pow2 53" by (simp add: pow2_def)
    then have "of_int k * pow2 m < pow2 (53 + m)" by (simp add: pow2_add)
    moreover have pos: "0 < of_int k * pow2 m" using k by simp
    ultimately have "pow2 (ilog2 (of_int k * pow2 m)) < pow2 (53 + m)"
      using ilog2_bounds [OF pos] by linarith
    with assms(3) pos show "ulp_exp (of_int k * pow2 m) \<le> m" by (simp add: ulp_exp_def)
  qed simp
qed

lemma fadd_grid:
  assumes "0 \<le> x" "x \<le> of_int k * pow2 m" "0 \<le> y" "y \<le> pow2 m" "0 \<le> k" "k < 2 ^ 53"
    "- 1074 \<le> m" "m \<le> 970"
  shows "\<exists>r. fadd (Fin x) (Fin y) = Fin r \<and> 0 \<le> r \<and> r \<le> of_int (k + 1) * pow2 m"
proof -
  have xy: "x + y \<le> of_int (k + 1) * pow2 m" using assms by (simp add: algebra_simps)
  have le: "rnd_val (x + y) \<le> of_int (k + 1) * pow2 m"
    using rnd_val_mono [OF xy] rnd_val_grid [of "k + 1" m] assms by simp
  have "(of_int (k + 1) :: rat) \<le> of_int (2 ^ 53)" using assms(6) by (simp only: of_int_le_iff)
  then have "of_int (k + 1) * pow2 m \<le> pow2 53 * pow2 970"
    using assms by (intro mult_mono) (simp_all add: pow2_def [of 53])
  also have "\<dots> < pow2 1024" by (simp flip: pow2_add)
  finally have "rnd_val (x + y) < pow2 1024" using le by linarith
  moreover have "0 \<le> rnd_val (x + y)" using assms by (intro rnd_val_nonneg) simp
  ultimately have "rnd (x + y) = Fin (rnd_val (x + y))"
    using pow2_pos [of 1024] by (simp add: rnd_def)
  with le \<open>0 \<le> rnd_val (x + y)\<close> show ?thesis by simp
qed


text \<open>Prices up to \<open>2^m\<close> in size; those of the protobuf records are not negative.\<close>

definition bounded_price :: "int \<Rightarrow> f64 \<Rightarrow> bool" where
  "bounded_price m v \<longleftrightarrow> (\<exists>x. v = Fin x \<and> \<bar>x\<bar> \<le> pow2 m)"

definition below_grid :: "int \<Rightarrow> int \<Rightarrow> f64 \<Rightarrow> bool" where
  "below_grid k m v \<longleftrightarrow> (\<exists>x. v = Fin x \<and> 0 \<le> x \<and> x \<le> of_int k * pow2 m)"

lemma sum_price_bounded:
  assumes "below_grid k m a" "bounded_price m v" "0 \<le> k" "k < 2 ^ 53" "- 1074 \<le> m" "m \<le> 970"
  shows "below_grid (k + 1) m (sum_price a v)"
proof -
  obtain x y where xy: "a = Fin x" "0 \<le> x" "x \<le> of_int k * pow2 m" "v = Fin y" "\<bar>y\<bar> \<le> pow2 m"
    using assms(1,2) by (auto simp: below_grid_def bounded_price_def)
  then have "sum_price a v = fadd (Fin x) (Fin \<bar>y\<bar>)"
    by (simp add: sum_price_def fle_iff_le fsub_def)
  with fadd_grid [of x k m "\<bar>y\<bar>"] xy assms show ?thesis by (auto simp: below_grid_def)
qed

lemma divide_bounded:
  assumes "below_grid n m s" "1 \<le> n" "n \<le> 2 ^ 53" "- 1074 \<le> m" "m \<le> 970"
  shows "below_grid 1 m (fdiv s (f64_of_int n))"
proof -
  obtain x where x: "s = Fin x" "0 \<le> x" "x \<le> of_int n * pow2 m"
    using assms(1) by (auto simp: below_grid_def)
  have n: "0 < (of_int n :: rat)" using assms(2) by simp
  have "x / of_int n \<le> pow2 m" using x n by (simp add: pos_divide_le_eq mult.commute)
  with rnd_Fin_bound [of "x / of_int n" m] x n assms show ?thesis
    by (auto simp: f64_of_int_exact below_grid_def)
qed

lemma foldl_fadd_bounded:
  assumes "\<forall>v \<in> set vs. below_grid 1 m v" "below_grid k m a" "0 \<le> k" "k + int (length vs) \<le> 2 ^ 53"
    "- 1074 \<le> m" "m \<le> 970"
  shows "below_grid (k + int (length vs)) m (foldl fadd a vs)"
  using assms
proof (induction vs arbitrary: k a)
  case (Cons v vs)
  obtain x y where "a = Fin x" "0 \<le> x" "x \<le> of_int k * pow2 m" "v = Fin y" "0 \<le> y" "y \<le> pow2 m"
    using Cons.prems by (auto simp: below_grid_def)
  then have "below_grid (k + 1) m (fadd a v)"
    using fadd_grid [of x k m y] Cons.prems by (auto simp: below_grid_def)
  from Cons.IH [OF _ this] Cons.prems show ?case by (simp add: add.assoc)
qed simp

lemma update_each_Inr:
  "length vals = length xs \<Longrightarrow> update_each f xs vals = Inr (map2 f xs vals)"
  by (simp add: update_each_def)

section \<open>The averages of bounded prices\<close>

definition readable :: "('o \<Rightarrow> f64 list res) \<Rightarrow> nat \<Rightarrow> (f64 \<Rightarrow> bool) \<Rightarrow> 'o \<Rightarrow> bool" where
  "readable prices L good x \<longleftrightarrow> (\<exists>vs. prices x = Inr vs \<and> length vs = L \<and> list_all good vs)"

lemma sum_loop:
  assumes "\<forall>x \<in> set os. readable prices L (bounded_price m) x" "length xs = L"
    "\<forall>a \<in> set xs. below_grid k m a" "0 \<le> k" "k + int (length os) \<le> 2 ^ 53" "- 1074 \<le> m" "m \<le> 970"
  shows "\<exists>ys. res_fold (\<lambda>avg p. rbind (prices p) (update_each sum_price avg)) xs os = Inr ys
    \<and> length ys = L \<and> (\<forall>a \<in> set ys. below_grid (k + int (length os)) m a)"
  using assms
proof (induction os arbitrary: xs k)
  case (Cons x os)
  obtain vs where vs: "prices x = Inr vs" "length vs = L" "list_all (bounded_price m) vs"
    using Cons.prems(1) by (auto simp: readable_def)
  have "\<forall>a \<in> set (map2 sum_price xs vs). below_grid (k + 1) m a"
    using Cons.prems vs
    by (auto simp: list_all_iff intro!: sum_price_bounded dest: set_zip_leftD set_zip_rightD)
  moreover have "length (map2 sum_price xs vs) = L" using Cons.prems vs by simp
  ultimately have "\<exists>ys. res_fold (\<lambda>avg p. rbind (prices p) (update_each sum_price avg))
      (map2 sum_price xs vs) os = Inr ys \<and> length ys = L
      \<and> (\<forall>a \<in> set ys. below_grid (k + 1 + int (length os)) m a)"
    using Cons.prems by (intro Cons.IH) auto
  with vs Cons.prems show ?case by (simp add: update_each_Inr add.assoc)
qed auto

lemma average_mean_ok:
  assumes "\<forall>x \<in> set os. readable prices L (bounded_price m) x" "os \<noteq> []"
    "int (length os) \<le> 2 ^ 53" "- 1074 \<le> m" "m \<le> 970"
  shows "\<exists>avg. average_mean prices os = Inr avg \<and> length avg = L \<and> list_all (below_grid 1 m) avg"
proof -
  obtain o1 rest where os: "os = o1 # rest" using assms(2) by (cases os) auto
  then obtain first where first: "prices o1 = Inr first" "length first = L"
    using assms(1) by (auto simp: readable_def)
  have "below_grid 0 m (Fin 0)" by (simp add: below_grid_def)
  then obtain ys where ys: "res_fold (\<lambda>avg p. rbind (prices p) (update_each sum_price avg)) (replicate L (Fin 0)) os = Inr ys"
    "length ys = L" "\<forall>a \<in> set ys. below_grid (int (length os)) m a"
    using sum_loop [of os prices L m "replicate L (Fin 0)" 0] assms by auto
  have "list_all (below_grid 1 m) (map (\<lambda>s. fdiv s (f64_of_int (int (length os)))) ys)"
    using ys(3) assms os by (auto simp: list_all_iff intro!: divide_bounded)
  with ys first show ?thesis
    by (simp add: average_mean_def os [symmetric] flip: os) (simp add: os)
qed


section \<open>The trimmed mean\<close>

lemma noisy_length_le:
  assumes "int n \<le> 2 ^ 50"
  shows "noisy_length n \<le> n div 8"
proof -
  have c: "rnd (1 / 10) \<le> rnd (pow2 (- 3))" by (rule rnd_mono) (simp add: pow2_def)
  have "rnd (pow2 (- 3)) = Fin (1 / 8)" by (subst rnd_pow2) (simp_all add: pow2_def)
  moreover have "Fin 0 \<le> rnd (1 / 10)" by (rule rnd_nonneg) simp
  ultimately obtain q where q: "rnd (1 / 10) = Fin q" "0 \<le> q" "q \<le> 1 / 8"
    using c by (cases "rnd (1 / 10)") (auto simp: Inf_le_Fin)
  have "(of_int (int n) :: rat) \<le> of_int (2 ^ 50)" using assms by (simp only: of_int_le_iff)
  then have n: "(of_nat n :: rat) \<le> pow2 50" by (simp add: pow2_def)
  have nq: "of_nat n * q \<le> of_int (int n) * pow2 (- 3)"
    using q by (intro mult_mono) (simp_all add: pow2_def)
  then have "rnd_val (of_nat n * q) \<le> of_int (int n) * pow2 (- 3)"
    using rnd_val_mono [OF nq] rnd_val_grid [of "int n" "- 3"] assms by simp
  then have r: "rnd_val (of_nat n * q) \<le> of_nat n / 8" by (simp add: pow2_def)
  have r0: "0 \<le> rnd_val (of_nat n * q)" using q by (intro rnd_val_nonneg) simp
  have lt: "rnd_val (of_nat n * q) < 2 ^ 48"
    using r n by (simp add: pow2_def)
  then have "rnd (of_nat n * q) = Fin (rnd_val (of_nat n * q))"
    using r0 pow2_less [of 48 1024] by (simp add: rnd_def pow2_def [of 48])
  then have "fmul (f64_of_int (int n)) (f64_const (1 / 10)) = Fin (rnd_val (of_nat n * q))"
    using assms by (simp add: f64_of_int_exact f64_const_def q(1))
  moreover have "\<lfloor>rnd_val (of_nat n * q)\<rfloor> \<le> int n div 8"
  proof -
    have "\<lfloor>rnd_val (of_nat n * q)\<rfloor> \<le> \<lfloor>of_nat n / (8 :: rat)\<rfloor>" using r by (rule floor_mono)
    also have "\<dots> = int n div 8" using floor_divide_of_nat_eq [of n 8, where 'a = rat] by simp
    finally show ?thesis .
  qed
  moreover have "0 \<le> \<lfloor>rnd_val (of_nat n * q)\<rfloor>" using r0 by simp
  moreover have "int n div 8 \<le> int n" by (simp add: div_le_dividend flip: zdiv_int)
  then have "int n div 8 < 2 ^ 63" using assms by simp
  moreover have "nat \<lfloor>rnd_val (of_nat n * q)\<rfloor> \<le> n div 8"
    using \<open>\<lfloor>rnd_val (of_nat n * q)\<rfloor> \<le> int n div 8\<close> by (simp add: nat_le_iff zdiv_int)
  ultimately show ?thesis by (simp add: noisy_length_def trunc_rat_def r0)
qed

lemma sort_stable_flt: "\<forall>v \<in> set data. v \<noteq> NaN \<Longrightarrow> sort_stable flt data = sort data"
  using sort_stable_sort_key [of data flt "\<lambda>x. x"] by (simp add: flt_iff_less)

lemma foldl_nth_slice:
  assumes "q \<le> length xs"
  shows "foldl (\<lambda>acc i. f acc (xs ! i)) a [p..<q] = foldl f a (take (q - p) (drop p xs))"
proof -
  have "map ((!) xs) [p..<q] = take (q - p) (drop p xs)"
    using assms by (intro nth_equalityI) auto
  then have "foldl f a (take (q - p) (drop p xs)) = foldl f a (map ((!) xs) [p..<q])" by simp
  then show ?thesis by (simp add: foldl_map)
qed

lemma TrimmedMeanFloat_eq:
  assumes "\<forall>v \<in> set data. v \<noteq> NaN" "3 < length data" "p \<le> length data"
  shows "TrimmedMeanFloat data p = Inr (fdiv
     (foldl fadd (Fin 0) (take (length data - 2 * p) (drop p (sort data))))
     (f64_of_int (int (length data) - 2 * int p)))"
proof -
  have "length data - p - p = length data - 2 * p" by simp
  with assms show ?thesis
    by (simp add: TrimmedMeanFloat_def sort_stable_flt Let_def foldl_nth_slice)
qed

lemma TrimmedMeanFloat_bounded:
  assumes "\<forall>v \<in> set data. below_grid 1 m v" "data \<noteq> []" "int (length data) \<le> 2 ^ 50"
    "- 1074 \<le> m" "m \<le> 970"
  shows "\<exists>a. TrimmedMeanFloat data (noisy_length (length data) + 1) = Inr a \<and> below_grid 1 m a"
proof -
  let ?n = "length data" and ?p = "noisy_length (length data) + 1"
  have nan: "\<forall>v \<in> set data. v \<noteq> NaN" using assms(1) by (auto simp: below_grid_def)
  show ?thesis
  proof (cases "?n \<le> 3")
    case True
    have "sort data ! (?n div 2) \<in> set data"
      using assms(2) by (metis div_less_dividend length_greater_0_conv length_sort nth_mem one_less_numeral_iff semiring_norm(76) set_sort)
    with True nan assms show ?thesis
      by (auto simp: TrimmedMeanFloat_def Let_def sort_stable_flt)
  next
    case False
    have p: "2 * ?p < ?n" using noisy_length_le [OF assms(3)] False by simp
    let ?mid = "take (?n - 2 * ?p) (drop ?p (sort data))"
    have len: "length ?mid = ?n - 2 * ?p" using p by simp
    have "\<forall>v \<in> set ?mid. below_grid 1 m v"
      using assms(1) by (metis in_set_dropD in_set_takeD set_sort)
    then have "below_grid (0 + int (length ?mid)) m (foldl fadd (Fin 0) ?mid)"
      using assms by (intro foldl_fadd_bounded) (auto simp: below_grid_def)
    then have "below_grid 1 m (fdiv (foldl fadd (Fin 0) ?mid) (f64_of_int (int ?n - 2 * int ?p)))"
      using p assms len by (intro divide_bounded) auto
    moreover have "TrimmedMeanFloat data ?p = Inr (fdiv (foldl fadd (Fin 0) ?mid) (f64_of_int (int ?n - 2 * int ?p)))"
      using False p nan by (intro TrimmedMeanFloat_eq) auto
    ultimately show ?thesis by blast
  qed
qed

lemma gather_loop:
  assumes "\<forall>x \<in> set os. readable prices L good x" "length xs = L"
    "\<forall>a \<in> set xs. length a = k \<and> list_all good a"
  shows "\<exists>ys. res_fold (\<lambda>data p. rbind (prices p) (update_each (\<lambda>xs v. xs @ [v]) data)) xs os = Inr ys
    \<and> length ys = L \<and> (\<forall>a \<in> set ys. length a = k + length os \<and> list_all good a)"
  using assms
proof (induction os arbitrary: xs k)
  case (Cons x os)
  obtain vs where vs: "prices x = Inr vs" "length vs = L" "list_all good vs"
    using Cons.prems(1) by (auto simp: readable_def)
  have "\<forall>a \<in> set (map2 (\<lambda>xs v. xs @ [v]) xs vs). length a = k + 1 \<and> list_all good a"
    using Cons.prems vs by (auto simp: list_all_iff dest: set_zip_leftD set_zip_rightD)
  moreover have "length (map2 (\<lambda>xs v. xs @ [v]) xs vs) = L" using Cons.prems vs by simp
  ultimately have "\<exists>ys. res_fold (\<lambda>data p. rbind (prices p) (update_each (\<lambda>xs v. xs @ [v]) data))
      (map2 (\<lambda>xs v. xs @ [v]) xs vs) os = Inr ys \<and> length ys = L
      \<and> (\<forall>a \<in> set ys. length a = k + 1 + length os \<and> list_all good a)"
    using Cons.prems by (intro Cons.IH) auto
  with vs Cons.prems show ?case by (simp add: update_each_Inr)
qed auto

lemma res_map_all:
  "\<forall>x \<in> set xs. \<exists>y. f x = Inr y \<and> P y \<Longrightarrow> \<exists>ys. res_map f xs = Inr ys \<and> length ys = length xs \<and> list_all P ys"
  by (induction xs) auto

lemma average_trimmed_ok:
  assumes "\<forall>x \<in> set os. readable prices L (below_grid 1 m) x" "os \<noteq> []"
    "int (length os) \<le> 2 ^ 50" "- 1074 \<le> m" "m \<le> 970"
  shows "\<exists>avg. average_trimmed prices os = Inr avg \<and> length avg = L \<and> list_all (below_grid 1 m) avg"
proof -
  obtain o1 rest where os: "os = o1 # rest" using assms(2) by (cases os) auto
  then obtain first where first: "prices o1 = Inr first" "length first = L"
    using assms(1) by (auto simp: readable_def)
  obtain data where data: "res_fold (\<lambda>data p. rbind (prices p) (update_each (\<lambda>xs v. xs @ [v]) data)) (replicate L []) os = Inr data"
    "length data = L" "\<forall>a \<in> set data. length a = length os \<and> list_all (below_grid 1 m) a"
    using gather_loop [of os prices L "below_grid 1 m" "replicate L []" 0] assms by auto
  have "\<forall>xs \<in> set data. \<exists>a. TrimmedMeanFloat xs (noisy_length (length xs) + 1) = Inr a \<and> below_grid 1 m a"
  proof
    fix xs assume "xs \<in> set data"
    then have "length xs = length os" "\<forall>v \<in> set xs. below_grid 1 m v"
      using data(3) by (auto simp: list_all_iff)
    moreover from this have "xs \<noteq> []" using assms(2) by auto
    ultimately show "\<exists>a. TrimmedMeanFloat xs (noisy_length (length xs) + 1) = Inr a \<and> below_grid 1 m a"
      using assms by (intro TrimmedMeanFloat_bounded) simp_all
  qed
  from res_map_all [OF this] obtain avg where
    "res_map (\<lambda>xs. TrimmedMeanFloat xs (noisy_length (length xs) + 1)) data = Inr avg"
    "length avg = L" "list_all (below_grid 1 m) avg"
    using data(2) by auto
  with data first show ?thesis
    by (simp add: average_trimmed_def os)
qed


section \<open>Distances\<close>

lemma rnd_neg: "rnd (- x) = fneg (rnd x)"
proof -
  have "\<not> (pow2 1024 \<le> r \<and> pow2 1024 \<le> - r)" for r
    using pow2_pos [of 1024] by linarith
  then show ?thesis by (auto simp: rnd_def Let_def rnd_val_neg)
qed

lemma fmul_neg: "fmul a (fneg b) = fneg (fmul a b)" "fmul (fneg a) b = fneg (fmul a b)"
  by (cases a; cases b; auto simp flip: rnd_neg simp: not_less)+

lemma fneg_fneg [simp]: "fneg (fneg a) = a"
  by (cases a) auto

lemma fquart_neg: "fquart (fneg d) = fquart d"
  by (simp add: fquart_def fmul_neg)

lemma fquart_abs: "fquart (fabs d) = fquart d"
proof (cases "fabs d = d")
  case False
  then have "fabs d = fneg d" by (cases d) auto
  then show ?thesis by (simp add: fquart_neg)
qed simp

lemma fquart_plain: "fquart (plain_distance v a) = fquart (fdev v a)"
  by (simp add: plain_distance_def fdev_def fquart_abs)

definition finite_price :: "f64 \<Rightarrow> bool" where
  "finite_price v \<longleftrightarrow> (\<exists>x. v = Fin x)"

text \<open>A distance whose fourth power is a number, not negative, for a positive finite average.\<close>

definition sound_distance :: "(f64 \<Rightarrow> f64 \<Rightarrow> f64) \<Rightarrow> bool" where
  "sound_distance dst \<longleftrightarrow> (\<forall>x a. 0 < a \<longrightarrow> fnonneg (fquart (dst (Fin x) (Fin a))))"

lemma sound_plain: "sound_distance plain_distance"
  by (simp add: sound_distance_def fquart_plain fpow_nonneg fdev_nonneg)

lemma sound_banded: "0 \<le> b \<Longrightarrow> sound_distance (banded_distance (Fin b))"
  by (simp add: sound_distance_def banded_distance_def fpow_nonneg fband_nonneg fdev_nonneg)

lemma grade_step_nonneg:
  assumes "sound_distance dst" "below_grid 1 m a" "finite_price v" "fnonneg acc"
  shows "fnonneg (if flt (Fin 0) a then fadd acc (fquart (dst v a)) else acc)"
  using assms by (auto simp: below_grid_def finite_price_def sound_distance_def intro: fnonneg_fadd)

lemma grade_sum_ok:
  assumes "sound_distance dst" "list_all (below_grid 1 m) avg" "list_all finite_price vs"
    "length vs \<le> length avg" "fnonneg acc"
  shows "\<exists>g. grade_sum dst avg vs acc = Inr g \<and> fnonneg g"
  using assms(2-)
proof (induction vs arbitrary: avg acc)
  case (Cons v vs)
  then obtain a avg' where "avg = a # avg'" by (cases avg) auto
  with Cons grade_step_nonneg [OF assms(1), of m a v acc] show ?case by simp
qed simp

text \<open>
  Being at least as close to the average in every asset never makes the grade worse.
\<close>

definition closer :: "f64 \<Rightarrow> f64 \<Rightarrow> f64 \<Rightarrow> bool" where
  "closer a v w \<longleftrightarrow> (\<exists>x y z. a = Fin x \<and> v = Fin y \<and> w = Fin z \<and> \<bar>y - x\<bar> \<le> \<bar>z - x\<bar>)"

definition monotone_distance :: "(f64 \<Rightarrow> f64 \<Rightarrow> f64) \<Rightarrow> bool" where
  "monotone_distance dst \<longleftrightarrow> (\<forall>x y a. 0 < a \<longrightarrow> \<bar>x - a\<bar> \<le> \<bar>y - a\<bar> \<longrightarrow>
     fquart (dst (Fin x) (Fin a)) \<le> fquart (dst (Fin y) (Fin a)))"

lemma monotone_plain: "monotone_distance plain_distance"
  by (simp add: monotone_distance_def fquart_plain fquart_mono fdev_nonneg fdev_mono)

lemma monotone_banded: "0 \<le> b \<Longrightarrow> monotone_distance (banded_distance (Fin b))"
  by (simp add: monotone_distance_def banded_distance_def fquart_mono fband_nonneg fband_mono
      fdev_nonneg fdev_mono)


lemma grade_sum_mono:
  assumes "sound_distance dst" "monotone_distance dst" "list_all (below_grid 1 m) avg"
    "list_all finite_price vs" "list_all finite_price ws" "length vs = length avg" "length ws = length avg"
    "\<forall>i < length avg. closer (avg ! i) (vs ! i) (ws ! i)"
    "fnonneg c" "fnonneg d" "c \<le> d"
    "grade_sum dst avg vs c = Inr g" "grade_sum dst avg ws d = Inr h"
  shows "g \<le> h"
  using assms(3-)
proof (induction avg arbitrary: vs ws c d)
  case (Cons a avg)
  obtain v vs' w ws' where vw: "vs = v # vs'" "ws = w # ws'"
    using Cons.prems(4,5) by (cases vs; cases ws) auto
  let ?step = "\<lambda>acc v. if flt (Fin 0) a then fadd acc (fquart (dst v a)) else acc"
  have n: "fnonneg (?step c v)" "fnonneg (?step d w)"
    using grade_step_nonneg [OF assms(1), of m a v c] grade_step_nonneg [OF assms(1), of m a w d]
      Cons.prems vw by simp_all
  have "closer a v w" using Cons.prems(6) vw by force
  then have "?step c v \<le> ?step d w"
    using Cons.prems vw assms(1,2)
    by (auto simp: closer_def sound_distance_def monotone_distance_def intro!: fadd_mono)
  moreover have "\<forall>i < length avg. closer (avg ! i) (vs' ! i) (ws' ! i)"
    using Cons.prems(6) vw by force
  ultimately show ?case
    using Cons.prems n vw by (intro Cons.IH [of vs' ws' "?step c v" "?step d w"]) auto
qed simp

text \<open>Prices within the band of every average have the best grade, zero.\<close>

lemma grade_sum_within_band:
  assumes "length vs \<le> length avg" "\<forall>i < length vs. flt (Fin 0) (avg ! i) \<longrightarrow> fle (fdev (vs ! i) (avg ! i)) band"
  shows "grade_sum (banded_distance band) avg vs (Fin 0) = Inr (Fin 0)"
  using assms
proof (induction vs arbitrary: avg)
  case (Cons v vs)
  then obtain a avg' where avg: "avg = a # avg'" by (cases avg) auto
  have "(if flt (Fin 0) a then fadd (Fin 0) (fquart (banded_distance band v a)) else Fin 0) = Fin 0"
    using Cons.prems(2) avg by (auto simp: banded_distance_def fband_within)
  moreover have "\<forall>i < length vs. flt (Fin 0) (avg' ! i) \<longrightarrow> fle (fdev (vs ! i) (avg' ! i)) band"
    using Cons.prems(2) avg by force
  ultimately show ?case using Cons.IH [of avg'] Cons.prems(1) avg by simp
qed simp


section \<open>A round of the elimination and its interface\<close>

text \<open>
  One round over the first \<open>i\<close> records: average, grade each of them, sort them again. The rest of
  the list is not touched.
\<close>

definition grading_round :: "('o list \<Rightarrow> f64 list res) \<Rightarrow> (nat \<Rightarrow> f64 list \<Rightarrow> 'o \<Rightarrow> 'o res) \<Rightarrow>
    ('o list \<Rightarrow> 'o list) \<Rightarrow> nat \<Rightarrow> 'o list \<Rightarrow> 'o list res" where
  "grading_round avg grade resort i os =
     rbind (avg (take i os)) (\<lambda>a.
     rbind (res_map (grade i a) (take i os)) (\<lambda>graded.
     Inr (resort graded @ drop i os)))"

text \<open>
  What an algorithm promises to the elimination: on well-formed records (\<open>ok\<close>), and up to \<open>maxn\<close> of
  them, averages exist and grades are numbers that do not depend on the grade a record had, and
  the sort puts the best grade first.
\<close>

locale grading =
  fixes ok :: "'o \<Rightarrow> bool"
    and grade_of :: "'o \<Rightarrow> f64"
    and set_grade :: "f64 \<Rightarrow> 'o \<Rightarrow> 'o"
    and avg :: "'o list \<Rightarrow> f64 list res"
    and grade :: "nat \<Rightarrow> f64 list \<Rightarrow> 'o \<Rightarrow> 'o res"
    and resort :: "'o list \<Rightarrow> 'o list"
    and good_avg :: "f64 list \<Rightarrow> bool"
    and maxn :: nat
  assumes avg_ok: "os \<noteq> [] \<Longrightarrow> length os \<le> maxn \<Longrightarrow> \<forall>x \<in> set os. ok x \<Longrightarrow>
      \<exists>a. avg os = Inr a \<and> good_avg a"
    and grade_ok: "good_avg a \<Longrightarrow> ok x \<Longrightarrow> \<exists>g. grade i a x = Inr (set_grade g x) \<and> g \<noteq> NaN"
    and grade_erase: "grade i a (set_grade g x) = grade i a x"
    and ok_set_grade: "ok (set_grade g x) = ok x"
    and set_set: "set_grade g (set_grade h x) = set_grade g x"
    and grade_set: "grade_of (set_grade g x) = g"
    and resort_mset: "mset (resort xs) = mset xs"
    and resort_sorted: "\<forall>x \<in> set xs. grade_of x \<noteq> NaN \<Longrightarrow> sorted (map grade_of (resort xs))"
begin

definition strip :: "'o \<Rightarrow> 'o" where
  "strip x = set_grade (Fin 0) x"

text \<open>The grade of a record against an average.\<close>

definition score :: "nat \<Rightarrow> f64 list \<Rightarrow> 'o \<Rightarrow> f64" where
  "score i a x = (case grade i a x of Inr y \<Rightarrow> grade_of y | Inl _ \<Rightarrow> NaN)"

lemma ok_strip [simp]: "ok (strip x) = ok x"
  by (simp add: strip_def ok_set_grade)

lemma score_strip [simp]: "score i a (strip x) = score i a x"
  by (simp add: score_def strip_def grade_erase)

lemma strip_set [simp]: "strip (set_grade g x) = strip x"
  by (simp add: strip_def set_set)

lemma ok_mset:
  assumes "mset (map strip xs) = mset (map strip ys)" "\<forall>x \<in> set xs. ok x"
  shows "\<forall>y \<in> set ys. ok y"
proof
  fix y assume "y \<in> set ys"
  then have "strip y \<in> set (map strip xs)" using assms(1) by (metis image_eqI set_map set_mset_mset)
  then show "ok y" using assms(2) by (metis (no_types, lifting) imageE ok_strip set_map)
qed

lemma grade_all:
  assumes "good_avg a" "\<forall>x \<in> set xs. ok x"
  shows "\<exists>gs. res_map (grade i a) xs = Inr gs \<and> map strip gs = map strip xs
    \<and> (\<forall>x \<in> set gs. grade_of x = score i a x \<and> score i a x \<noteq> NaN)"
  using assms(2)
proof (induction xs)
  case (Cons x xs)
  obtain g where g: "grade i a x = Inr (set_grade g x)" "g \<noteq> NaN"
    using grade_ok [OF assms(1), of x i] Cons.prems by auto
  then have "score i a (set_grade g x) = g" by (simp add: score_def grade_erase grade_set)
  with Cons g show ?case by (fastforce simp: grade_set)
qed simp

lemma round_ok:
  assumes "0 < i" "i \<le> length os" "i \<le> maxn" "\<forall>x \<in> set os. ok x"
  shows "\<exists>rs a. grading_round avg grade resort i os = Inr (rs @ drop i os) \<and> length rs = i
    \<and> avg (take i os) = Inr a \<and> good_avg a
    \<and> mset (map strip rs) = mset (map strip (take i os))
    \<and> (\<forall>x \<in> set rs. grade_of x = score i a x \<and> score i a x \<noteq> NaN) \<and> sorted (map grade_of rs)"
proof -
  have ok: "\<forall>x \<in> set (take i os). ok x" using assms(4) by (auto dest: in_set_takeD)
  have "take i os \<noteq> []" "length (take i os) \<le> maxn" using assms by auto
  then obtain a where a: "avg (take i os) = Inr a" "good_avg a" using avg_ok ok by blast
  obtain gs where gs: "res_map (grade i a) (take i os) = Inr gs" "map strip gs = map strip (take i os)"
    "\<forall>x \<in> set gs. grade_of x = score i a x \<and> score i a x \<noteq> NaN"
    using grade_all [OF a(2) ok] by blast
  have set: "set (resort gs) = set gs" using resort_mset by (metis set_mset_mset)
  have "mset (map strip (resort gs)) = mset (map strip gs)" by (simp add: resort_mset)
  moreover have "length (resort gs) = length gs" using resort_mset by (metis size_mset)
  moreover have "length gs = i" using gs(2) assms(2) by (metis length_map length_take min.absorb2)
  moreover have "sorted (map grade_of (resort gs))" using gs(3) by (intro resort_sorted) simp
  ultimately show ?thesis
    using a gs set by (intro exI [of _ "resort gs"] exI [of _ a]) (simp add: grading_round_def)
qed

text \<open>
  The elimination: the record that ends at place \<open>i\<close> was, in the round over \<open>i\<close> records, one with
  the worst grade against the average of the records that end at the places up to \<open>i\<close>.
\<close>

definition eliminated :: "nat \<Rightarrow> 'o list \<Rightarrow> bool" where
  "eliminated i rs \<longleftrightarrow> (\<exists>ord a. mset (map strip ord) = mset (map strip (take i rs))
     \<and> avg ord = Inr a \<and> (\<forall>x \<in> set (take i rs). score i a x \<le> score i a (rs ! (i - 1))))"

lemma sorted_last_max:
  "sorted (map f xs) \<Longrightarrow> x \<in> set xs \<Longrightarrow> f x \<le> f (xs ! (length xs - 1))"
proof -
  assume *: "sorted (map f xs)" "x \<in> set xs"
  then obtain i where "i < length xs" "x = xs ! i" by (auto simp: in_set_conv_nth)
  then show ?thesis using sorted_nth_mono [OF *(1), of i "length xs - 1"] by simp
qed

lemma strip_set_eq:
  assumes "mset (map strip xs) = mset (map strip ys)" "x \<in> set xs"
  shows "\<exists>y \<in> set ys. strip y = strip x"
proof -
  have "strip x \<in> set (map strip ys)" using assms by (metis image_eqI set_map set_mset_mset)
  then show ?thesis by auto
qed

lemma passes_ok:
  assumes "1 \<le> stop" "n \<le> length os" "n \<le> maxn" "\<forall>x \<in> set os. ok x"
  shows "\<exists>rs. grade_passes (grading_round avg grade resort) stop n os = Inr rs
    \<and> mset (map strip (take n rs)) = mset (map strip (take n os)) \<and> drop n rs = drop n os
    \<and> length rs = length os \<and> (\<forall>i. stop \<le> i \<longrightarrow> i \<le> n \<longrightarrow> eliminated i rs)"
  using assms(2-)
proof (induction n arbitrary: os)
  case 0
  then show ?case using assms(1) by auto
next
  case (Suc n)
  show ?case
  proof (cases "Suc n < stop")
    case False
    obtain rs1 a where round: "grading_round avg grade resort (Suc n) os = Inr (rs1 @ drop (Suc n) os)"
      "length rs1 = Suc n" "avg (take (Suc n) os) = Inr a"
      "mset (map strip rs1) = mset (map strip (take (Suc n) os))"
      "\<forall>x \<in> set rs1. grade_of x = score (Suc n) a x" "sorted (map grade_of rs1)"
      using round_ok [of "Suc n" os] Suc.prems by auto
    let ?os1 = "rs1 @ drop (Suc n) os"
    have "\<forall>x \<in> set rs1. ok x"
      by (rule ok_mset [OF round(4) [symmetric]]) (use Suc.prems in \<open>auto dest: in_set_takeD\<close>)
    then have "\<forall>x \<in> set ?os1. ok x" using Suc.prems by (auto dest: in_set_dropD)
    moreover have "n \<le> length ?os1" "n \<le> maxn" using Suc.prems round(2) by simp_all
    ultimately have "\<exists>rs. grade_passes (grading_round avg grade resort) stop n ?os1 = Inr rs
      \<and> mset (map strip (take n rs)) = mset (map strip (take n ?os1)) \<and> drop n rs = drop n ?os1
      \<and> length rs = length ?os1 \<and> (\<forall>i. stop \<le> i \<longrightarrow> i \<le> n \<longrightarrow> eliminated i rs)"
      by (intro Suc.IH)
    then obtain rs where rs: "grade_passes (grading_round avg grade resort) stop n ?os1 = Inr rs"
      "mset (map strip (take n rs)) = mset (map strip (take n ?os1))" "drop n rs = drop n ?os1"
      "length rs = length ?os1" "\<forall>i. stop \<le> i \<longrightarrow> i \<le> n \<longrightarrow> eliminated i rs"
      by (elim exE conjE)
    have len: "n < length rs" "length rs = length os" using rs(4) round(2) Suc.prems by simp_all
    have "rs ! n # drop (Suc n) rs = rs1 ! n # drop (Suc n) os"
      using rs(3) round(2) len Cons_nth_drop_Suc [of n rs] Cons_nth_drop_Suc [of n rs1] by simp
    then have nth: "rs ! n = rs1 ! n" and dropSuc: "drop (Suc n) rs = drop (Suc n) os" by simp_all
    have "take (Suc n) rs = take n rs @ [rs1 ! n]"
      using len nth by (simp add: take_Suc_conv_app_nth)
    moreover have e1: "take (Suc n) rs1 = take n rs1 @ [rs1 ! n]"
      by (rule take_Suc_conv_app_nth) (simp add: round(2))
    have e2: "take (Suc n) rs1 = rs1" using round(2) by simp
    have "rs1 = take n rs1 @ [rs1 ! n]" by (rule trans [OF e2 [symmetric] e1])
    from arg_cong [OF this, of "\<lambda>xs. mset (map strip xs)"]
    have "mset (map strip rs1) = add_mset (strip (rs1 ! n)) (mset (map strip (take n rs1)))"
      by simp
    ultimately have takeSuc: "mset (map strip (take (Suc n) rs)) = mset (map strip rs1)"
      using rs(2) round(2) by simp
    have "eliminated (Suc n) rs"
      unfolding eliminated_def
    proof (intro exI conjI ballI)
      show "mset (map strip (take (Suc n) os)) = mset (map strip (take (Suc n) rs))"
        using takeSuc round(4) by simp
      show "avg (take (Suc n) os) = Inr a" by (rule round(3))
      fix x assume "x \<in> set (take (Suc n) rs)"
      then obtain y where y: "y \<in> set rs1" "strip y = strip x"
        using strip_set_eq [OF takeSuc] by blast
      then have "score (Suc n) a x = grade_of y" using round(5) by (metis score_strip)
      moreover have "grade_of y \<le> grade_of (rs1 ! n)"
        using sorted_last_max [OF round(6) y(1)] round(2) by simp
      moreover have "grade_of (rs1 ! n) = score (Suc n) a (rs ! n)"
        using round(2,5) nth by simp
      ultimately show "score (Suc n) a x \<le> score (Suc n) a (rs ! (Suc n - 1))" by simp
    qed
    then show ?thesis
      using False round rs takeSuc dropSuc Suc.prems(1) by (auto simp: le_Suc_eq)
  qed (use Suc.prems in auto)
qed

end

end
