(* ===== verification/Graders.thy ===== *)
theory Graders
  imports Grader_Base Grader_Algo
begin

text \<open>
  modules/grader: the payouts, the validators, the grading algorithms and the graders of the five
  versions (v1_util.go to v5_util.go, v1grader.go to v5grader.go, v1GradedBlock.go to
  v5GradedBlock.go). V3 and V4 embed the V2 grader: only their validators and version differ.
\<close>

section \<open>Payouts\<close>

definition V1Payout :: "int \<Rightarrow> int" where
  "V1Payout index = (if index \<ge> 10 \<or> index < 0 then 0
     else if index = 0 then 800 * 100000000
     else if index = 1 then 600 * 100000000
     else 450 * 100000000)"

definition V2Payout :: "int \<Rightarrow> int" where
  "V2Payout index = (if index \<ge> 25 \<or> index < 0 then 0 else 200 * 100000000)"

definition V5Payout :: "int \<Rightarrow> int" where
  "V5Payout index = (if index \<ge> 25 \<or> index < 0 then 0 else 360 * 100000000)"

section \<open>Validation\<close>

definition newGradingOPR :: "byte list \<Rightarrow> byte list list \<Rightarrow> byte list \<Rightarrow> OPR \<Rightarrow> GradingOPR res" where
  "newGradingOPR entryhash extids content p = rbind (be_u64 (extids ! 1)) (\<lambda>difficulty.
     Inr \<lparr>EntryHash = entryhash, Nonce = extids ! 0, SelfReportedDifficulty = difficulty,
       Grade = Fin 0, OPRHash = sha256 content, position = 0, payout = 0, OPR = p\<rparr>)"

definition decode_error :: "'a res \<Rightarrow> 'a res" where
  "decode_error r = (case r of Inl (Panic m) \<Rightarrow> Inl (Panic m) | Inl e \<Rightarrow> Inl (DecodeError (err_msg e)) | Inr x \<Rightarrow> Inr x)"

definition check_V1_asset :: "V1AssetList \<Rightarrow> unit \<Rightarrow> string \<Rightarrow> unit res" where
  "check_V1_asset assets u code = (case assets code of
     None \<Rightarrow> Inl (ValidateError ''asset list is not correct'')
   | Some v \<Rightarrow> guard_res (code \<noteq> ''PNT'' \<and> feq v (Fin 0))
       (ValidateError ''all values other than PNT must be nonzero'') (Inr ()))"

definition ValidateV1 :: "(byte list \<Rightarrow> V1Content res) \<Rightarrow> byte list \<Rightarrow> byte list list \<Rightarrow> 32 word \<Rightarrow>
    string list \<Rightarrow> byte list \<Rightarrow> GradingOPR res" where
  "ValidateV1 json entryhash extids h winners content =
     guard_res (length entryhash \<noteq> 32) (ValidateError ''invalid entry hash length'')
     (guard_res (length extids \<noteq> 3) (ValidateError ''invalid extid count'')
     (guard_res (length (extids ! 2) \<noteq> 1 \<or> extids ! 2 ! 0 \<noteq> 1) (ValidateError ''invalid version'')
     (guard_res (length (extids ! 1) \<noteq> 8)
       (ValidateError ''self reported difficulty must be 8 bytes'')
     (rbind (decode_error (ParseV1Content json content)) (\<lambda>c.
     guard_res (Dbht c \<noteq> h) (ValidateError ''invalid height'')
     (rbind (res_fold (check_V1_asset (V1ContentAssets c)) () V1Assets) (\<lambda>_.
     guard_res (\<not> verifyWinnerFormat (WinPreviousOPR c) 10)
       (ValidateError ''invalid list of previous winners'')
     (guard_res (\<not> verifyWinners (WinPreviousOPR c) winners)
       (ValidateError ''incorrect set of previous winners'')
     (newGradingOPR entryhash extids content (OPR_V1 c))))))))))"

text \<open>\<open>regexp.MatchString("^[a-zA-Z0-9,]+$", id)\<close>\<close>

definition id_char :: "char \<Rightarrow> bool" where
  "id_char c = (let n = of_char c :: nat in
     (97 \<le> n \<and> n \<le> 122) \<or> (65 \<le> n \<and> n \<le> 90) \<or> (48 \<le> n \<and> n \<le> 57) \<or> n = 44)"

definition valid_identity :: "string \<Rightarrow> bool" where
  "valid_identity s \<longleftrightarrow> s \<noteq> [] \<and> list_all id_char s"

definition check_address :: "string \<Rightarrow> 'a res \<Rightarrow> 'a res" where
  "check_address addr r = (case Valid addr of
     Inl e \<Rightarrow> Inl (ValidateError (''factoidaddress is invalid : '' @ err_msg e))
   | Inr _ \<Rightarrow> r)"

definition ValidateV2 :: "byte list \<Rightarrow> byte list list \<Rightarrow> 32 word \<Rightarrow> string list \<Rightarrow> byte list \<Rightarrow>
    GradingOPR res" where
  "ValidateV2 entryhash extids h winners content =
     guard_res (length entryhash \<noteq> 32) (ValidateError ''invalid entry hash length'')
     (guard_res (length extids \<noteq> 3) (ValidateError ''invalid extid count'')
     (guard_res (length (extids ! 1) \<noteq> 8)
       (ValidateError ''self reported difficulty must be 8 bytes'')
     (guard_res (length (extids ! 2) \<noteq> 1 \<or> extids ! 2 ! 0 \<noteq> 2) (ValidateError ''invalid version'')
     (rbind (decode_error (ParseV2Content content)) (\<lambda>m.
     guard_res (Height m \<noteq> h) (ValidateError ''invalid height'')
     (guard_res (length (Assets m) \<noteq> length V2Assets) (ValidateError ''invalid assets'')
     (guard_res (list_ex (\<lambda>(i, val). i > 0 \<and> val = 0) (enumerate 0 (Assets m)))
       (ValidateError ''assets must be greater than 0'')
     (guard_res (length (Winners m) \<noteq> 10 \<and> length (Winners m) \<noteq> 25)
       (ValidateError ''must have exactly 10 or 25 previous winning shorthashes'')
     (check_address (Address m)
     (guard_res (\<not> valid_identity (ID m))
       (ValidateError ''only alphanumeric characters and commas are allowed in the identity'')
     (guard_res (\<not> verifyWinnerFormat (V2_GetPreviousWinners m) 10
         \<and> \<not> verifyWinnerFormat (V2_GetPreviousWinners m) 25)
       (ValidateError ''incorrect amount of previous winners'')
     (guard_res (\<not> verifyWinners (V2_GetPreviousWinners m) winners)
       (ValidateError ''incorrect set of previous winners'')
     (newGradingOPR entryhash extids content (OPR_V2 m))))))))))))))"

definition ValidateV3 :: "byte list \<Rightarrow> byte list list \<Rightarrow> 32 word \<Rightarrow> string list \<Rightarrow> byte list \<Rightarrow>
    GradingOPR res" where
  "ValidateV3 entryhash extids h winners content =
     guard_res (length entryhash \<noteq> 32) (ValidateError ''invalid entry hash length'')
     (guard_res (length extids \<noteq> 3) (ValidateError ''invalid extid count'')
     (guard_res (length (extids ! 1) \<noteq> 8)
       (ValidateError ''self reported difficulty must be 8 bytes'')
     (guard_res (length (extids ! 2) \<noteq> 1 \<or> extids ! 2 ! 0 \<noteq> 3) (ValidateError ''invalid version'')
     (rbind (decode_error (ParseV2Content content)) (\<lambda>m.
     guard_res (Height m \<noteq> h) (ValidateError ''invalid height'')
     (guard_res (length (Assets m) \<noteq> length V2Assets) (ValidateError ''invalid assets'')
     (guard_res (list_ex (\<lambda>val. val = 0) (Assets m))
       (ValidateError ''assets must be greater than 0'')
     (guard_res (length (Winners m) \<noteq> 25)
       (ValidateError ''must have exactly 25 previous winning shorthashes'')
     (check_address (Address m)
     (guard_res (\<not> valid_identity (ID m))
       (ValidateError ''only alphanumeric characters and commas are allowed in the identity'')
     (guard_res (\<not> verifyWinnerFormat (V2_GetPreviousWinners m) 25)
       (ValidateError ''incorrect amount of previous winners'')
     (guard_res (\<not> verifyWinners (V2_GetPreviousWinners m) winners)
       (ValidateError ''incorrect set of previous winners'')
     (newGradingOPR entryhash extids content (OPR_V2 m))))))))))))))"

definition ValidateV4 :: "byte list \<Rightarrow> byte list list \<Rightarrow> 32 word \<Rightarrow> string list \<Rightarrow> byte list \<Rightarrow>
    GradingOPR res" where
  "ValidateV4 entryhash extids h winners content =
     guard_res (length entryhash \<noteq> 32) (ValidateError ''invalid entry hash length'')
     (guard_res (length extids \<noteq> 3) (ValidateError ''invalid extid count'')
     (guard_res (length (extids ! 1) \<noteq> 8)
       (ValidateError ''self reported difficulty must be 8 bytes'')
     (guard_res (length (extids ! 2) \<noteq> 1 \<or> extids ! 2 ! 0 \<noteq> 4) (ValidateError ''invalid version'')
     (rbind (decode_error (ParseV2Content content)) (\<lambda>m.
     guard_res (Height m \<noteq> h) (ValidateError ''invalid height'')
     (guard_res (length (Assets m) \<noteq> length V4Assets) (ValidateError ''invalid assets'')
     (guard_res (list_ex (\<lambda>val. val = 0) (Assets m))
       (ValidateError ''assets must be greater than 0'')
     (check_address (Address m)
     (guard_res (\<not> valid_identity (ID m))
       (ValidateError ''only alphanumeric characters and commas are allowed in the identity'')
     (guard_res (\<not> verifyWinnerFormat (V4_GetPreviousWinners m) 25)
       (ValidateError ''incorrect amount of previous winners'')
     (guard_res (\<not> verifyWinners (V4_GetPreviousWinners m) winners)
       (ValidateError ''incorrect set of previous winners'')
     (newGradingOPR entryhash extids content (OPR_V4 m)))))))))))))"

definition ValidateV5 :: "byte list \<Rightarrow> byte list list \<Rightarrow> 32 word \<Rightarrow> string list \<Rightarrow> byte list \<Rightarrow>
    GradingOPR res" where
  "ValidateV5 entryhash extids h winners content =
     guard_res (length entryhash \<noteq> 32) (ValidateError ''invalid entry hash length'')
     (guard_res (length extids \<noteq> 3) (ValidateError ''invalid extid count'')
     (guard_res (length (extids ! 1) \<noteq> 8)
       (ValidateError ''self reported difficulty must be 8 bytes'')
     (guard_res (length (extids ! 2) \<noteq> 1 \<or> extids ! 2 ! 0 \<noteq> 5) (ValidateError ''invalid version'')
     (rbind (decode_error (ParseV2Content content)) (\<lambda>m.
     guard_res (Height m \<noteq> h) (ValidateError ''invalid height'')
     (guard_res (length (Assets m) \<noteq> length V5Assets) (ValidateError ''invalid assets'')
     (guard_res (list_ex (\<lambda>val. val = 0) (Assets m))
       (ValidateError ''assets must be greater than 0'')
     (check_address (Address m)
     (guard_res (\<not> valid_identity (ID m))
       (ValidateError ''only alphanumeric characters and commas are allowed in the identity'')
     (guard_res (\<not> verifyWinnerFormat (V5_GetPreviousWinners m) 25)
       (ValidateError ''incorrect amount of previous winners'')
     (guard_res (\<not> verifyWinners (V5_GetPreviousWinners m) winners)
       (ValidateError ''incorrect set of previous winners'')
     (newGradingOPR entryhash extids content (OPR_V5 m)))))))))))))"

lemma decode_error_Inr [simp]: "decode_error r = Inr x \<longleftrightarrow> r = Inr x"
  by (auto simp: decode_error_def split: sum.splits go_error.splits)

lemma check_address_Inr: "check_address a r = Inr x \<longleftrightarrow> Valid a = Inr () \<and> r = Inr x"
  by (auto simp: check_address_def split: sum.splits)

section \<open>Grading\<close>

definition opr_prices :: "GradingOPR \<Rightarrow> f64 list res" where
  "opr_prices g = rbind (GetOrderedAssetsFloat (OPR g)) (\<lambda>as. Inr (map Value as))"

definition averageV1 :: "GradingOPR list \<Rightarrow> f64 list res" where
  "averageV1 os = average_mean opr_prices os"

definition gradeV1 :: "f64 list \<Rightarrow> GradingOPR \<Rightarrow> GradingOPR res" where
  "gradeV1 avg g = rbind (opr_prices g) (\<lambda>vs.
     rbind (grade_sum plain_distance avg vs (Fin 0)) (\<lambda>s. Inr (g\<lparr>Grade := s\<rparr>)))"

definition gradeV2 :: "f64 list \<Rightarrow> GradingOPR \<Rightarrow> f64 \<Rightarrow> GradingOPR res" where
  "gradeV2 avg g band = rbind (opr_prices g) (\<lambda>vs.
     rbind (grade_sum (banded_distance band) avg vs (Fin 0)) (\<lambda>s. Inr (g\<lparr>Grade := s\<rparr>)))"

definition gradeV5 :: "f64 list \<Rightarrow> GradingOPR \<Rightarrow> f64 \<Rightarrow> GradingOPR res" where
  "gradeV5 avg g band = rbind (opr_prices g) (\<lambda>vs.
     rbind (grade_sum (banded_distance band) avg vs (Fin 0)) (\<lambda>s. Inr (g\<lparr>Grade := s\<rparr>)))"

definition averageV5 :: "GradingOPR list \<Rightarrow> f64 list res" where
  "averageV5 os = average_trimmed opr_prices os"

definition V2Band :: f64 where "V2Band = f64_const (1 / 100)"
definition V5Band :: f64 where "V5Band = f64_const (1 / 100)"

text \<open>The two stable sorts of a round.\<close>

definition lower_grade :: "GradingOPR \<Rightarrow> GradingOPR \<Rightarrow> bool" where
  "lower_grade a b = flt (Grade a) (Grade b)"

definition resort :: "GradingOPR list \<Rightarrow> GradingOPR list" where
  "resort os = sort_stable lower_grade (sort_stable more_difficult os)"

definition set_positions :: "(int \<Rightarrow> int) \<Rightarrow> GradingOPR list \<Rightarrow> GradingOPR list" where
  "set_positions pay os =
     map (\<lambda>(i, g). g\<lparr>position := int i, payout := pay (int i)\<rparr>) (enumerate 0 os)"

definition clamp_cutoff :: "baseGradedBlock \<Rightarrow> baseGradedBlock" where
  "clamp_cutoff b = (if int (length (graded_oprs b)) < cutoff b
     then b\<lparr>cutoff := int (length (graded_oprs b))\<rparr> else b)"

definition V1_grade :: "baseGradedBlock \<Rightarrow> baseGradedBlock res" where
  "V1_grade b0 =
     (if length (graded_oprs b0) < 10 then Inr b0
      else let b = clamp_cutoff b0 in
        rbind (grade_passes (grading_round averageV1 (\<lambda>i. gradeV1) resort) 10
            (nat (cutoff b)) (graded_oprs b)) (\<lambda>os.
        Inr (b\<lparr>graded_oprs := set_positions V1Payout os\<rparr>)))"

definition V2_grade :: "baseGradedBlock \<Rightarrow> baseGradedBlock res" where
  "V2_grade b0 =
     (if length (graded_oprs b0) < 25 then Inr b0
      else let b = clamp_cutoff b0 in
        rbind (grade_passes (grading_round averageV1
              (\<lambda>i avg g. gradeV2 avg g (if 25 \<le> i then V2Band else Fin 0)) resort) 1
            (nat (cutoff b)) (graded_oprs b)) (\<lambda>os.
        Inr (b\<lparr>graded_oprs := set_positions V2Payout os\<rparr>)))"

definition V5_grade :: "baseGradedBlock \<Rightarrow> baseGradedBlock res" where
  "V5_grade b0 =
     (if length (graded_oprs b0) < 25 then Inr b0
      else let b = clamp_cutoff b0 in
        rbind (grade_passes (grading_round averageV5
              (\<lambda>i avg g. gradeV5 avg g (if 25 \<le> i then V5Band else Fin 0)) resort) 1
            (nat (cutoff b)) (graded_oprs b)) (\<lambda>os.
        Inr (b\<lparr>graded_oprs := set_positions V5Payout os\<rparr>)))"

section \<open>The graders\<close>

definition AddOPR_V1 :: "(byte list \<Rightarrow> V1Content res) \<Rightarrow> baseGrader \<Rightarrow> byte list \<Rightarrow> byte list list \<Rightarrow>
    byte list \<Rightarrow> baseGrader res" where
  "AddOPR_V1 json v entryhash extids content =
     rbind (ValidateV1 json entryhash extids (height v) (prevWinners v) content)
       (\<lambda>gopr. Inr (v\<lparr>oprs := oprs v @ [gopr]\<rparr>))"

definition AddOPR_V2 :: "baseGrader \<Rightarrow> byte list \<Rightarrow> byte list list \<Rightarrow> byte list \<Rightarrow> baseGrader res" where
  "AddOPR_V2 v entryhash extids content =
     rbind (ValidateV2 entryhash extids (height v) (prevWinners v) content)
       (\<lambda>gopr. Inr (v\<lparr>oprs := oprs v @ [gopr]\<rparr>))"

definition AddOPR_V3 :: "baseGrader \<Rightarrow> byte list \<Rightarrow> byte list list \<Rightarrow> byte list \<Rightarrow> baseGrader res" where
  "AddOPR_V3 v entryhash extids content =
     rbind (ValidateV3 entryhash extids (height v) (prevWinners v) content)
       (\<lambda>gopr. Inr (v\<lparr>oprs := oprs v @ [gopr]\<rparr>))"

definition AddOPR_V4 :: "baseGrader \<Rightarrow> byte list \<Rightarrow> byte list list \<Rightarrow> byte list \<Rightarrow> baseGrader res" where
  "AddOPR_V4 v entryhash extids content =
     rbind (ValidateV4 entryhash extids (height v) (prevWinners v) content)
       (\<lambda>gopr. Inr (v\<lparr>oprs := oprs v @ [gopr]\<rparr>))"

definition AddOPR_V5 :: "baseGrader \<Rightarrow> byte list \<Rightarrow> byte list list \<Rightarrow> byte list \<Rightarrow> baseGrader res" where
  "AddOPR_V5 v entryhash extids content =
     rbind (ValidateV5 entryhash extids (height v) (prevWinners v) content)
       (\<lambda>gopr. Inr (v\<lparr>oprs := oprs v @ [gopr]\<rparr>))"

definition new_block :: "baseGrader \<Rightarrow> int \<Rightarrow> baseGradedBlock" where
  "new_block v c = cloneOPRS (oprs v)
     \<lparr>graded_oprs = [], cutoff = c, block_height = height v, block_count = 0, shorthashes = []\<rparr>"

definition V1_GradeCustom :: "(byte list \<Rightarrow> byte list) \<Rightarrow> baseGrader \<Rightarrow> int \<Rightarrow> baseGradedBlock res" where
  "V1_GradeCustom lx v c =
     rbind (sortByDifficulty lx c (filterDuplicates (new_block v c))) (\<lambda>b.
     rbind (V1_grade b) (\<lambda>b.
     if length (graded_oprs b) < 10 then Inr (b\<lparr>shorthashes := prevWinners v\<rparr>)
     else createShortHashes 10 b))"

definition V2_GradeCustom :: "(byte list \<Rightarrow> byte list) \<Rightarrow> baseGrader \<Rightarrow> int \<Rightarrow> baseGradedBlock res" where
  "V2_GradeCustom lx v c =
     rbind (sortByDifficulty lx c (filterDuplicates (new_block v c))) (\<lambda>b.
     rbind (V2_grade b) (\<lambda>b.
     if length (graded_oprs b) < 25 then Inr (b\<lparr>shorthashes := prevWinners v\<rparr>)
     else createShortHashes 25 b))"

definition V5_GradeCustom :: "(byte list \<Rightarrow> byte list) \<Rightarrow> baseGrader \<Rightarrow> int \<Rightarrow> baseGradedBlock res" where
  "V5_GradeCustom lx v c =
     rbind (sortByDifficulty lx c (filterDuplicates (new_block v c))) (\<lambda>b.
     rbind (V5_grade b) (\<lambda>b.
     if length (graded_oprs b) < 25 then Inr (b\<lparr>shorthashes := prevWinners v\<rparr>)
     else createShortHashes 25 b))"

section \<open>The interfaces \<open>BlockGrader\<close> and \<open>GradedBlock\<close>\<close>

datatype GradedBlock =
    V1GradedBlock baseGradedBlock
  | V2GradedBlock baseGradedBlock
  | V3GradedBlock GradedBlock
  | V4GradedBlock GradedBlock
  | V5GradedBlock baseGradedBlock

fun AddOPR :: "(byte list \<Rightarrow> V1Content res) \<Rightarrow> BlockGrader \<Rightarrow> byte list \<Rightarrow> byte list list \<Rightarrow>
    byte list \<Rightarrow> BlockGrader res" where
  "AddOPR json (V1BlockGrader v) eh ext c = rbind (AddOPR_V1 json v eh ext c) (\<lambda>v. Inr (V1BlockGrader v))"
| "AddOPR json (V2BlockGrader v) eh ext c = rbind (AddOPR_V2 v eh ext c) (\<lambda>v. Inr (V2BlockGrader v))"
| "AddOPR json (V3BlockGrader v) eh ext c = rbind (AddOPR_V3 v eh ext c) (\<lambda>v. Inr (V3BlockGrader v))"
| "AddOPR json (V4BlockGrader v) eh ext c = rbind (AddOPR_V4 v eh ext c) (\<lambda>v. Inr (V4BlockGrader v))"
| "AddOPR json (V5BlockGrader v) eh ext c = rbind (AddOPR_V5 v eh ext c) (\<lambda>v. Inr (V5BlockGrader v))"

fun GradeCustom :: "(byte list \<Rightarrow> byte list) \<Rightarrow> BlockGrader \<Rightarrow> int \<Rightarrow> GradedBlock res" where
  "GradeCustom lx (V1BlockGrader v) c = rbind (V1_GradeCustom lx v c) (\<lambda>b. Inr (V1GradedBlock b))"
| "GradeCustom lx (V2BlockGrader v) c = rbind (V2_GradeCustom lx v c) (\<lambda>b. Inr (V2GradedBlock b))"
| "GradeCustom lx (V3BlockGrader v) c =
     rbind (V2_GradeCustom lx v c) (\<lambda>b. Inr (V3GradedBlock (V2GradedBlock b)))"
| "GradeCustom lx (V4BlockGrader v) c =
     rbind (V2_GradeCustom lx v c) (\<lambda>b. Inr (V4GradedBlock (V2GradedBlock b)))"
| "GradeCustom lx (V5BlockGrader v) c = rbind (V5_GradeCustom lx v c) (\<lambda>b. Inr (V5GradedBlock b))"

definition GradeBlock :: "(byte list \<Rightarrow> byte list) \<Rightarrow> BlockGrader \<Rightarrow> GradedBlock res" where
  "GradeBlock lx g = GradeCustom lx g 50"

fun Version :: "BlockGrader \<Rightarrow> byte" where
  "Version (V1BlockGrader _) = 1"
| "Version (V2BlockGrader _) = 2"
| "Version (V3BlockGrader _) = 3"
| "Version (V4BlockGrader _) = 4"
| "Version (V5BlockGrader _) = 5"

fun GraderWinnerAmount :: "BlockGrader \<Rightarrow> nat" where
  "GraderWinnerAmount (V1BlockGrader _) = 10"
| "GraderWinnerAmount (V2BlockGrader _) = 25"
| "GraderWinnerAmount (V3BlockGrader _) = 25"
| "GraderWinnerAmount (V4BlockGrader _) = 25"
| "GraderWinnerAmount (V5BlockGrader _) = 25"

fun GraderPayout :: "BlockGrader \<Rightarrow> int \<Rightarrow> int" where
  "GraderPayout (V1BlockGrader _) i = V1Payout i"
| "GraderPayout (V2BlockGrader _) i = V2Payout i"
| "GraderPayout (V3BlockGrader _) i = V2Payout i"
| "GraderPayout (V4BlockGrader _) i = V2Payout i"
| "GraderPayout (V5BlockGrader _) i = V5Payout i"

fun BlockVersion :: "GradedBlock \<Rightarrow> byte" where
  "BlockVersion (V1GradedBlock _) = 1"
| "BlockVersion (V2GradedBlock _) = 2"
| "BlockVersion (V3GradedBlock _) = 3"
| "BlockVersion (V4GradedBlock _) = 4"
| "BlockVersion (V5GradedBlock _) = 5"

fun block_of :: "GradedBlock \<Rightarrow> baseGradedBlock" where
  "block_of (V1GradedBlock b) = b"
| "block_of (V2GradedBlock b) = b"
| "block_of (V3GradedBlock g) = block_of g"
| "block_of (V4GradedBlock g) = block_of g"
| "block_of (V5GradedBlock b) = b"

fun WinnerAmount :: "GradedBlock \<Rightarrow> nat" where
  "WinnerAmount (V1GradedBlock _) = 10"
| "WinnerAmount (V2GradedBlock _) = 25"
| "WinnerAmount (V3GradedBlock g) = WinnerAmount g"
| "WinnerAmount (V4GradedBlock g) = WinnerAmount g"
| "WinnerAmount (V5GradedBlock _) = 25"

fun BlockWinners :: "GradedBlock \<Rightarrow> GradingOPR list" where
  "BlockWinners (V1GradedBlock b) =
     (if length (graded_oprs b) < 10 then [] else take 10 (graded_oprs b))"
| "BlockWinners (V2GradedBlock b) =
     (if length (graded_oprs b) < 25 then [] else take 25 (graded_oprs b))"
| "BlockWinners (V3GradedBlock g) = BlockWinners g"
| "BlockWinners (V4GradedBlock g) = BlockWinners g"
| "BlockWinners (V5GradedBlock b) =
     (if length (graded_oprs b) < 25 then [] else take 25 (graded_oprs b))"

definition WinnersShortHashes :: "GradedBlock \<Rightarrow> string list" where
  "WinnersShortHashes g = shorthashes (block_of g)"

definition Graded :: "GradedBlock \<Rightarrow> GradingOPR list" where
  "Graded g = graded_oprs (block_of g)"

definition Cutoff :: "GradedBlock \<Rightarrow> int" where
  "Cutoff g = cutoff (block_of g)"

definition BlockCount :: "GradedBlock \<Rightarrow> nat" where
  "BlockCount g = block_count (block_of g)"

section \<open>The algorithms implement the grading interface\<close>

lemma below_grid_bounded: "below_grid 1 m v \<Longrightarrow> bounded_price m v"
  by (auto simp: below_grid_def bounded_price_def)

lemma bounded_finite: "bounded_price m v \<Longrightarrow> finite_price v"
  by (auto simp: bounded_price_def finite_price_def)

lemma readable_mono:
  "readable prices L P x \<Longrightarrow> (\<And>v. P v \<Longrightarrow> Q v) \<Longrightarrow> readable prices L Q x"
  by (auto simp: readable_def list_all_iff)

lemma opr_prices_Grade [simp]: "opr_prices (g\<lparr>Grade := s\<rparr>) = opr_prices g"
  by (simp add: opr_prices_def)

lemma readable_Grade [simp]: "readable opr_prices L P (g\<lparr>Grade := s\<rparr>) = readable opr_prices L P g"
  by (simp add: readable_def)

lemma mset_resort: "mset (resort os) = mset os"
  by (simp add: resort_def)

lemma sorted_resort: "\<forall>x \<in> set os. Grade x \<noteq> NaN \<Longrightarrow> sorted (map Grade (resort os))"
  unfolding resort_def by (rule sort_stable_sorted) (simp add: lower_grade_def flt_iff_less)

lemma grade_sum_readable:
  assumes "sound_distance dst" "length a = L \<and> list_all (below_grid 1 m) a"
    "readable opr_prices L finite_price g"
  shows "\<exists>s. rbind (opr_prices g) (\<lambda>vs. rbind (grade_sum dst a vs (Fin 0)) (\<lambda>s. Inr (g\<lparr>Grade := s\<rparr>)))
     = Inr (g\<lparr>Grade := s\<rparr>) \<and> s \<noteq> NaN"
proof -
  obtain vs where vs: "opr_prices g = Inr vs" "length vs = L" "list_all finite_price vs"
    using assms(3) by (auto simp: readable_def)
  obtain s where "grade_sum dst a vs (Fin 0) = Inr s" "fnonneg s"
    using grade_sum_ok [OF assms(1), of m a vs "Fin 0"] assms(2) vs by auto
  with vs show ?thesis by (intro exI [of _ s]) (auto simp: fnonneg_def)
qed

lemma V2Band_Fin: "\<exists>b. V2Band = Fin b \<and> 0 \<le> b"
  using rnd_Fin_bound [of "1 / 100" 0] by (auto simp: V2Band_def f64_const_def pow2_def)

lemma V5Band_Fin: "\<exists>b. V5Band = Fin b \<and> 0 \<le> b"
  using V2Band_Fin by (simp add: V2Band_def V5Band_def)

interpretation v1: grading "readable opr_prices L (bounded_price 970)" Grade
  "\<lambda>s g. g\<lparr>Grade := s\<rparr>" averageV1 "\<lambda>i. gradeV1" resort
  "\<lambda>a. length a = L \<and> list_all (below_grid 1 970) a" "2 ^ 53" for L
proof unfold_locales
  show "\<exists>a. averageV1 os = Inr a \<and> length a = L \<and> list_all (below_grid 1 970) a"
    if "os \<noteq> []" "length os \<le> 2 ^ 53" "\<forall>x \<in> set os. readable opr_prices L (bounded_price 970) x" for os
    using average_mean_ok [of os opr_prices L 970] that by (simp add: averageV1_def)
  show "\<exists>g. gradeV1 a x = Inr (x\<lparr>Grade := g\<rparr>) \<and> g \<noteq> NaN"
    if "length a = L \<and> list_all (below_grid 1 970) a" "readable opr_prices L (bounded_price 970) x" for a x
    unfolding gradeV1_def
    by (rule grade_sum_readable [OF sound_plain that(1)]) (rule readable_mono [OF that(2) bounded_finite])
qed (simp_all add: gradeV1_def mset_resort sorted_resort)

lemma sound_V2: "sound_distance (banded_distance (if 25 \<le> (i :: nat) then V2Band else Fin 0))"
proof -
  obtain b where b: "V2Band = Fin b" "0 \<le> b" using V2Band_Fin by blast
  then have "sound_distance (banded_distance V2Band)" unfolding b(1) by (intro sound_banded)
  moreover have "sound_distance (banded_distance (Fin 0))" by (intro sound_banded) simp
  ultimately show ?thesis by simp
qed

lemma sound_V5: "sound_distance (banded_distance (if 25 \<le> (i :: nat) then V5Band else Fin 0))"
proof -
  obtain b where b: "V5Band = Fin b" "0 \<le> b" using V5Band_Fin by blast
  then have "sound_distance (banded_distance V5Band)" unfolding b(1) by (intro sound_banded)
  moreover have "sound_distance (banded_distance (Fin 0))" by (intro sound_banded) simp
  ultimately show ?thesis by simp
qed

interpretation v2: grading "readable opr_prices L (below_grid 1 64)" Grade
  "\<lambda>s g. g\<lparr>Grade := s\<rparr>" averageV1 "\<lambda>i avg g. gradeV2 avg g (if 25 \<le> i then V2Band else Fin 0)" resort
  "\<lambda>a. length a = L \<and> list_all (below_grid 1 64) a" "2 ^ 53" for L
proof unfold_locales
  show "\<exists>a. averageV1 os = Inr a \<and> length a = L \<and> list_all (below_grid 1 64) a"
    if "os \<noteq> []" "length os \<le> 2 ^ 53" "\<forall>x \<in> set os. readable opr_prices L (below_grid 1 64) x" for os
    using average_mean_ok [of os opr_prices L 64] that
    by (simp add: averageV1_def) (metis below_grid_bounded readable_mono)
  show "\<exists>g. gradeV2 a x (if 25 \<le> i then V2Band else Fin 0) = Inr (x\<lparr>Grade := g\<rparr>) \<and> g \<noteq> NaN"
    if "length a = L \<and> list_all (below_grid 1 64) a" "readable opr_prices L (below_grid 1 64) x" for a x and i :: nat
    unfolding gradeV2_def
    by (rule grade_sum_readable [OF sound_V2 that(1)])
      (rule readable_mono [OF that(2) bounded_finite [OF below_grid_bounded]])
qed (simp_all add: gradeV2_def mset_resort sorted_resort)

interpretation v5: grading "readable opr_prices L (below_grid 1 64)" Grade
  "\<lambda>s g. g\<lparr>Grade := s\<rparr>" averageV5 "\<lambda>i avg g. gradeV5 avg g (if 25 \<le> i then V5Band else Fin 0)" resort
  "\<lambda>a. length a = L \<and> list_all (below_grid 1 64) a" "2 ^ 50" for L
proof unfold_locales
  show "\<exists>a. averageV5 os = Inr a \<and> length a = L \<and> list_all (below_grid 1 64) a"
    if "os \<noteq> []" "length os \<le> 2 ^ 50" "\<forall>x \<in> set os. readable opr_prices L (below_grid 1 64) x" for os
    using average_trimmed_ok [of os opr_prices L 64] that by (simp add: averageV5_def)
  show "\<exists>g. gradeV5 a x (if 25 \<le> i then V5Band else Fin 0) = Inr (x\<lparr>Grade := g\<rparr>) \<and> g \<noteq> NaN"
    if "length a = L \<and> list_all (below_grid 1 64) a" "readable opr_prices L (below_grid 1 64) x" for a x and i :: nat
    unfolding gradeV5_def
    by (rule grade_sum_readable [OF sound_V5 that(1)])
      (rule readable_mono [OF that(2) bounded_finite [OF below_grid_bounded]])
qed (simp_all add: gradeV5_def mset_resort sorted_resort)


section \<open>What the three algorithms have in common\<close>

definition strip_grade :: "GradingOPR \<Rightarrow> GradingOPR" where
  "strip_grade g = g\<lparr>Grade := Fin 0\<rparr>"

lemma strip_grade_eq [simp]: "v1.strip = strip_grade" "v2.strip = strip_grade" "v5.strip = strip_grade"
  by (auto simp: fun_eq_iff v1.strip_def v2.strip_def v5.strip_def strip_grade_def)

lemma strip_grade_sel [simp]:
  "EntryHash (strip_grade g) = EntryHash g" "Nonce (strip_grade g) = Nonce g"
  "SelfReportedDifficulty (strip_grade g) = SelfReportedDifficulty g"
  "OPRHash (strip_grade g) = OPRHash g" "OPR (strip_grade g) = OPR g"
  by (simp_all add: strip_grade_def)

definition grade_with where
  "grade_with W passes pay b0 =
     (if length (graded_oprs b0) < W then Inr b0
      else let b = clamp_cutoff b0 in
        rbind (passes (nat (cutoff b)) (graded_oprs b)) (\<lambda>os.
        Inr (b\<lparr>graded_oprs := set_positions pay os\<rparr>)))"

definition grade_custom_with where
  "grade_custom_with lx W passes pay v c =
     rbind (sortByDifficulty lx c (filterDuplicates (new_block v c))) (\<lambda>b.
     rbind (grade_with W passes pay b) (\<lambda>b.
     if length (graded_oprs b) < W then Inr (b\<lparr>shorthashes := prevWinners v\<rparr>)
     else createShortHashes W b))"

text \<open>The records that are graded.\<close>

definition candidates :: "(byte list \<Rightarrow> byte list) \<Rightarrow> int \<Rightarrow> baseGrader \<Rightarrow> GradingOPR list" where
  "candidates lx c v = top_honest lx c (filter_dups {} (map GradingOPR_Clone (oprs v)))"

lemma length_candidates: "1 \<le> c \<Longrightarrow> int (length (candidates lx c v)) \<le> c"
  unfolding candidates_def by (rule length_top_honest)

lemma length_set_positions [simp]: "length (set_positions pay os) = length os"
  by (simp add: set_positions_def)

lemma nth_set_positions: "i < length os \<Longrightarrow>
    set_positions pay os ! i = (os ! i)\<lparr>position := int i, payout := pay (int i)\<rparr>"
  by (simp add: set_positions_def nth_enumerate_eq)

lemma res_map_Shorthash:
  "\<forall>g \<in> set os. length (EntryHash g) = 32 \<Longrightarrow>
     res_map Shorthash os = Inr (map (\<lambda>g. hexEncode (take 8 (EntryHash g))) os)"
  by (intro res_map_Inr) (simp add: Shorthash_def)

lemma EntryHash_strip:
  assumes "mset (map strip_grade rs) = mset (map strip_grade os)"
    "\<forall>g \<in> set os. length (EntryHash g) = 32"
  shows "\<forall>g \<in> set rs. length (EntryHash g) = 32"
proof
  fix g assume "g \<in> set rs"
  then have "strip_grade g \<in> set (map strip_grade os)"
    using assms(1) by (metis image_eqI set_map set_mset_mset)
  then show "length (EntryHash g) = 32" using assms(2) by (metis (no_types, lifting) imageE set_map strip_grade_sel(1))
qed

lemma grade_custom_with_few:
  assumes "lx_ok lx" "length (candidates lx c v) < W"
  shows "grade_custom_with lx W passes pay v c = Inr ((new_block v c)
     \<lparr>graded_oprs := candidates lx c v, shorthashes := prevWinners v\<rparr>)"
  using assms
  by (simp add: grade_custom_with_def grade_with_def sortByDifficulty_eq filterDuplicates_def
      candidates_def new_block_def cloneOPRS_def)

lemma grade_custom_with_many:
  assumes "lx_ok lx" "W \<le> length (candidates lx c v)" "1 \<le> c"
    "passes (length (candidates lx c v)) (candidates lx c v) = Inr rs"
    "mset (map strip_grade rs) = mset (map strip_grade (candidates lx c v))"
    "\<forall>g \<in> set (candidates lx c v). length (EntryHash g) = 32"
  shows "grade_custom_with lx W passes pay v c = Inr ((new_block v c)
     \<lparr>graded_oprs := set_positions pay rs, cutoff := int (length rs),
      shorthashes := map (\<lambda>g. hexEncode (take 8 (EntryHash g))) (take W rs)\<rparr>)"
proof -
  let ?os = "candidates lx c v" and ?b = "(new_block v c)\<lparr>graded_oprs := candidates lx c v\<rparr>"
  have len: "length rs = length ?os" using assms(5) by (metis length_map size_mset)
  have clamp: "clamp_cutoff ?b = ?b\<lparr>cutoff := int (length ?os)\<rparr>"
    using length_candidates [OF assms(3), of lx v]
    by (cases "int (length ?os) = c") (auto simp: clamp_cutoff_def new_block_def cloneOPRS_def)
  have "grade_with W passes pay ?b
      = Inr (?b\<lparr>cutoff := int (length ?os), graded_oprs := set_positions pay rs\<rparr>)"
    using assms(2,4) by (simp add: grade_with_def clamp Let_def)
  moreover have "sortByDifficulty lx c (filterDuplicates (new_block v c)) = Inr ?b"
    using assms(1) by (simp add: sortByDifficulty_eq filterDuplicates_def candidates_def new_block_def cloneOPRS_def)
  moreover have "res_map Shorthash (take W (set_positions pay rs))
      = Inr (map (\<lambda>g. hexEncode (take 8 (EntryHash g))) (take W rs))"
  proof -
    have "\<forall>g \<in> set rs. length (EntryHash g) = 32" using EntryHash_strip assms(5,6) by blast
    then have "\<forall>g \<in> set (take W (set_positions pay rs)). length (EntryHash g) = 32"
      by (auto simp: set_positions_def dest!: in_set_takeD in_set_enumerate_eq [THEN iffD1])
    moreover have "map EntryHash (set_positions pay rs) = map EntryHash rs"
      by (intro nth_equalityI) (simp_all add: nth_set_positions)
    then have "map (\<lambda>g. hexEncode (take 8 (EntryHash g))) (take W (set_positions pay rs))
        = map (\<lambda>g. hexEncode (take 8 (EntryHash g))) (take W rs)"
      by (intro nth_equalityI) (simp_all add: nth_set_positions)
    ultimately show ?thesis by (simp add: res_map_Shorthash)
  qed
  ultimately show ?thesis
    using assms(2) len by (simp add: grade_custom_with_def createShortHashes_def new_block_def cloneOPRS_def)
qed


end
