(* ===== verification/Grader_Correct.thy ===== *)
theory Grader_Correct
  imports Graders
begin

text \<open>
  What the graders of modules/grader guarantee: exact conditions of the validators, the graders
  reachable by \<open>NewGrader\<close> and \<open>AddOPR\<close>, and the properties of a graded block.
\<close>

section \<open>What a validated record is\<close>

definition big_endian :: "byte list \<Rightarrow> u64" where
  "big_endian bs = foldl (\<lambda>acc b. acc * 256 + ucast b) 0 (take 8 bs)"

lemma be_u64_8: "8 \<le> length bs \<Longrightarrow> be_u64 bs = Inr (big_endian bs)"
  by (simp add: be_u64_def big_endian_def)

definition accepted :: "byte list \<Rightarrow> byte list list \<Rightarrow> byte list \<Rightarrow> OPR \<Rightarrow> GradingOPR" where
  "accepted eh ext content p = \<lparr>EntryHash = eh, Nonce = ext ! 0,
     SelfReportedDifficulty = big_endian (ext ! 1), Grade = Fin 0, OPRHash = sha256 content,
     position = 0, payout = 0, OPR = p\<rparr>"

lemma newGradingOPR_8: "length (ext ! 1) = 8 \<Longrightarrow> newGradingOPR eh ext c p = Inr (accepted eh ext c p)"
  by (simp add: newGradingOPR_def be_u64_8 accepted_def)

text \<open>The entry: the hash, and the three external identifiers nonce, difficulty, version.\<close>

definition entry_ok :: "byte \<Rightarrow> byte list \<Rightarrow> byte list list \<Rightarrow> bool" where
  "entry_ok ver eh ext \<longleftrightarrow> length eh = 32 \<and> length ext = 3 \<and> length (ext ! 1) = 8 \<and> ext ! 2 = [ver]"

lemma version_byte: "length (x :: byte list) = 1 \<and> x ! 0 = v \<longleftrightarrow> x = [v]"
  by (cases x) auto

lemma check_V1_assets_Inr:
  "res_fold (check_V1_asset al) () codes = Inr u \<longleftrightarrow>
     (\<forall>code \<in> set codes. \<exists>v. al code = Some v \<and> (code \<noteq> ''PNT'' \<longrightarrow> \<not> feq v (Fin 0)))"
  by (induction codes) (auto simp: check_V1_asset_def res_simps split: option.splits)

definition v1_content_ok :: "32 word \<Rightarrow> string list \<Rightarrow> V1Content \<Rightarrow> bool" where
  "v1_content_ok h winners c \<longleftrightarrow> Dbht c = h
     \<and> (\<forall>code \<in> set V1Assets. \<exists>v. V1ContentAssets c code = Some v \<and> (code \<noteq> ''PNT'' \<longrightarrow> \<not> feq v (Fin 0)))
     \<and> verifyWinnerFormat (WinPreviousOPR c) 10 \<and> WinPreviousOPR c = winners"

lemma ValidateV1_Inr:
  "ValidateV1 json eh ext h winners content = Inr x \<longleftrightarrow> entry_ok 1 eh ext
     \<and> (\<exists>c. json content = Inr c \<and> v1_content_ok h winners c \<and> x = accepted eh ext content (OPR_V1 c))"
proof (cases "entry_ok 1 eh ext")
  case True
  then show ?thesis
    by (auto simp: ValidateV1_def ParseV1Content_def entry_ok_def v1_content_ok_def res_simps
        check_V1_assets_Inr newGradingOPR_8)
next
  case False
  then show ?thesis
    unfolding entry_ok_def version_byte [symmetric]
    by (auto simp: ValidateV1_def res_simps)
qed

text \<open>The conditions the later versions share, with the number of assets and the allowed winners.\<close>

definition proto_content_ok :: "nat \<Rightarrow> nat set \<Rightarrow> 32 word \<Rightarrow> string list \<Rightarrow> V2Content \<Rightarrow> bool" where
  "proto_content_ok n ws h winners m \<longleftrightarrow> Height m = h \<and> length (Assets m) = n
     \<and> Valid (Address m) = Inr () \<and> valid_identity (ID m)
     \<and> (\<exists>k \<in> ws. verifyWinnerFormat (map hexEncode (Winners m)) k) \<and> map hexEncode (Winners m) = winners"

lemma verifyWinnerFormat_length: "verifyWinnerFormat ws k \<Longrightarrow> length ws = k"
  by (auto simp: verifyWinnerFormat_def split: if_splits)

lemma verifyWinnerFormat_hex: "verifyWinnerFormat (map hexEncode ws) k \<Longrightarrow> length ws = k"
  using verifyWinnerFormat_length [of "map hexEncode ws" k] by simp

lemma enumerate_zero_Suc:
  "list_ex (\<lambda>(i, val). i > 0 \<and> val = 0) (enumerate (Suc k) ys) \<longleftrightarrow> (0 :: u64) \<in> set ys"
  by (induction ys arbitrary: k) auto

lemma enumerate_zero:
  "list_ex (\<lambda>(i, val). i > 0 \<and> val = 0) (enumerate 0 xs) \<longleftrightarrow> (0 :: u64) \<in> set (tl xs)"
  by (cases xs) (simp_all add: enumerate_zero_Suc)

lemma ValidateV2_Inr:
  "ValidateV2 eh ext h winners content = Inr x \<longleftrightarrow> entry_ok 2 eh ext
     \<and> (\<exists>m. ParseV2Content content = Inr m \<and> proto_content_ok 30 {10, 25} h winners m
          \<and> 0 \<notin> set (tl (Assets m)) \<and> x = accepted eh ext content (OPR_V2 m))"
proof (cases "entry_ok 2 eh ext")
  case True
  then show ?thesis
    by (auto simp: ValidateV2_def entry_ok_def proto_content_ok_def res_simps len_simps enumerate_zero
        check_address_Inr newGradingOPR_8 V2_GetPreviousWinners_def dest: verifyWinnerFormat_hex)
next
  case False
  then show ?thesis
    unfolding entry_ok_def version_byte [symmetric]
    by (auto simp: ValidateV2_def res_simps)
qed

lemma ValidateV3_Inr:
  "ValidateV3 eh ext h winners content = Inr x \<longleftrightarrow> entry_ok 3 eh ext
     \<and> (\<exists>m. ParseV2Content content = Inr m \<and> proto_content_ok 30 {25} h winners m
          \<and> 0 \<notin> set (Assets m) \<and> x = accepted eh ext content (OPR_V2 m))"
proof (cases "entry_ok 3 eh ext")
  case True
  then show ?thesis
    by (auto simp: ValidateV3_def entry_ok_def proto_content_ok_def res_simps len_simps list_ex_iff
        check_address_Inr newGradingOPR_8 V2_GetPreviousWinners_def dest: verifyWinnerFormat_hex)
next
  case False
  then show ?thesis
    unfolding entry_ok_def version_byte [symmetric]
    by (auto simp: ValidateV3_def res_simps)
qed

lemma ValidateV4_Inr:
  "ValidateV4 eh ext h winners content = Inr x \<longleftrightarrow> entry_ok 4 eh ext
     \<and> (\<exists>m. ParseV2Content content = Inr m \<and> proto_content_ok 42 {25} h winners m
          \<and> 0 \<notin> set (Assets m) \<and> x = accepted eh ext content (OPR_V4 m))"
proof (cases "entry_ok 4 eh ext")
  case True
  then show ?thesis
    by (auto simp: ValidateV4_def entry_ok_def proto_content_ok_def res_simps len_simps list_ex_iff
        check_address_Inr newGradingOPR_8 V4_GetPreviousWinners_def dest: verifyWinnerFormat_hex)
next
  case False
  then show ?thesis
    unfolding entry_ok_def version_byte [symmetric]
    by (auto simp: ValidateV4_def res_simps)
qed

lemma ValidateV5_Inr:
  "ValidateV5 eh ext h winners content = Inr x \<longleftrightarrow> entry_ok 5 eh ext
     \<and> (\<exists>m. ParseV2Content content = Inr m \<and> proto_content_ok 62 {25} h winners m
          \<and> 0 \<notin> set (Assets m) \<and> x = accepted eh ext content (OPR_V5 m))"
proof (cases "entry_ok 5 eh ext")
  case True
  then show ?thesis
    by (auto simp: ValidateV5_def entry_ok_def proto_content_ok_def res_simps len_simps list_ex_iff
        check_address_Inr newGradingOPR_8 V5_GetPreviousWinners_def dest: verifyWinnerFormat_hex)
next
  case False
  then show ?thesis
    unfolding entry_ok_def version_byte [symmetric]
    by (auto simp: ValidateV5_def res_simps)
qed


section \<open>Reachable graders\<close>

inductive reachable :: "(byte list \<Rightarrow> V1Content res) \<Rightarrow> BlockGrader \<Rightarrow> bool" for json where
  new: "NewGrader ver h winners = Inr g \<Longrightarrow> reachable json g"
| add: "reachable json g \<Longrightarrow> AddOPR json g eh ext content = Inr g' \<Longrightarrow> reachable json g'"

inductive_cases reachable_elim: "reachable json g"

text \<open>The decoded content that a version's grader holds, and the formats of the winner list.\<close>

fun content_kind :: "BlockGrader \<Rightarrow> OPR \<Rightarrow> bool" where
  "content_kind (V1BlockGrader _) (OPR_V1 c) = True"
| "content_kind (V2BlockGrader _) (OPR_V2 m) = (length (Assets m) = 30)"
| "content_kind (V3BlockGrader _) (OPR_V2 m) = (length (Assets m) = 30)"
| "content_kind (V4BlockGrader _) (OPR_V4 m) = (length (Assets m) = 42)"
| "content_kind (V5BlockGrader _) (OPR_V5 m) = (length (Assets m) = 62)"
| "content_kind _ _ = False"

fun winner_formats :: "BlockGrader \<Rightarrow> nat set" where
  "winner_formats (V1BlockGrader _) = {10}"
| "winner_formats (V2BlockGrader _) = {10, 25}"
| "winner_formats (V3BlockGrader _) = {25}"
| "winner_formats (V4BlockGrader _) = {25}"
| "winner_formats (V5BlockGrader _) = {25}"

definition record_ok :: "BlockGrader \<Rightarrow> GradingOPR \<Rightarrow> bool" where
  "record_ok g x \<longleftrightarrow> length (EntryHash x) = 32 \<and> length (OPRHash x) = 32
     \<and> Grade x = Fin 0 \<and> position x = 0 \<and> payout x = 0 \<and> content_kind g (OPR x)
     \<and> GetHeight (OPR x) = GraderHeight g \<and> GetPreviousWinners (OPR x) = PreviousWinners g"

definition grader_ok :: "BlockGrader \<Rightarrow> bool" where
  "grader_ok g \<longleftrightarrow> (\<forall>x \<in> set (oprs (base_of g)). record_ok g x)
     \<and> (\<exists>k \<in> winner_formats g. verifyWinnerFormat (PreviousWinners g) k) \<and> 0 \<le> sint (GraderHeight g)"

lemma empty_winners: "verifyWinnerFormat (replicate k []) k"
  by (cases k) (simp_all add: verifyWinnerFormat_def list_all_iff)

lemma NewGrader_ok: "NewGrader ver h winners = Inr g \<Longrightarrow> grader_ok g"
  using empty_winners [of 10] empty_winners [of 25]
  by (auto simp: NewGrader_def res_simps grader_ok_def new_base_def PreviousWinners_def
      GraderHeight_def split: if_splits)

fun add_record :: "BlockGrader \<Rightarrow> GradingOPR \<Rightarrow> BlockGrader" where
  "add_record (V1BlockGrader v) x = V1BlockGrader (v\<lparr>oprs := oprs v @ [x]\<rparr>)"
| "add_record (V2BlockGrader v) x = V2BlockGrader (v\<lparr>oprs := oprs v @ [x]\<rparr>)"
| "add_record (V3BlockGrader v) x = V3BlockGrader (v\<lparr>oprs := oprs v @ [x]\<rparr>)"
| "add_record (V4BlockGrader v) x = V4BlockGrader (v\<lparr>oprs := oprs v @ [x]\<rparr>)"
| "add_record (V5BlockGrader v) x = V5BlockGrader (v\<lparr>oprs := oprs v @ [x]\<rparr>)"

lemma add_record_sel [simp]:
  "oprs (base_of (add_record g x)) = oprs (base_of g) @ [x]"
  "PreviousWinners (add_record g x) = PreviousWinners g"
  "GraderHeight (add_record g x) = GraderHeight g"
  "winner_formats (add_record g x) = winner_formats g"
  by (cases g; simp add: PreviousWinners_def GraderHeight_def)+

lemma record_ok_add [simp]: "record_ok (add_record g x) y = record_ok g y"
proof -
  have "content_kind (add_record g x) p = content_kind g p" for p
    by (cases g; cases p) simp_all
  then show ?thesis by (simp add: record_ok_def)
qed

lemma accepted_record:
  assumes "entry_ok ver eh ext"
  shows "record_ok g (accepted eh ext content p) \<longleftrightarrow> content_kind g p
     \<and> GetHeight p = GraderHeight g \<and> GetPreviousWinners p = PreviousWinners g"
  using assms by (simp add: record_ok_def accepted_def entry_ok_def)

text \<open>What \<open>AddOPR\<close> accepts is a record of the version for this height and these winners.\<close>

lemma AddOPR_record:
  assumes "AddOPR json g eh ext content = Inr g'"
  shows "\<exists>x. g' = add_record g x \<and> record_ok g x \<and> EntryHash x = eh"
proof (cases g)
  case (V1BlockGrader v)
  then obtain c where c: "entry_ok 1 eh ext" "v1_content_ok (height v) (prevWinners v) c"
    "g' = add_record g (accepted eh ext content (OPR_V1 c))"
    using assms by (auto simp: AddOPR_V1_def res_simps ValidateV1_Inr)
  then have "record_ok g (accepted eh ext content (OPR_V1 c))"
    using V1BlockGrader
    by (simp add: accepted_record [OF c(1)] v1_content_ok_def GraderHeight_def PreviousWinners_def)
  with c show ?thesis by (auto simp: accepted_def)
next
  case (V2BlockGrader v)
  then obtain m where m: "entry_ok 2 eh ext" "proto_content_ok 30 {10, 25} (height v) (prevWinners v) m"
    "g' = add_record g (accepted eh ext content (OPR_V2 m))"
    using assms by (auto simp: AddOPR_V2_def res_simps ValidateV2_Inr)
  then have "record_ok g (accepted eh ext content (OPR_V2 m))"
    using V2BlockGrader
    by (simp add: accepted_record [OF m(1)] proto_content_ok_def GraderHeight_def
        PreviousWinners_def V2_GetPreviousWinners_def)
  with m show ?thesis by (auto simp: accepted_def)
next
  case (V3BlockGrader v)
  then obtain m where m: "entry_ok 3 eh ext" "proto_content_ok 30 {25} (height v) (prevWinners v) m"
    "g' = add_record g (accepted eh ext content (OPR_V2 m))"
    using assms by (auto simp: AddOPR_V3_def res_simps ValidateV3_Inr)
  then have "record_ok g (accepted eh ext content (OPR_V2 m))"
    using V3BlockGrader
    by (simp add: accepted_record [OF m(1)] proto_content_ok_def GraderHeight_def
        PreviousWinners_def V2_GetPreviousWinners_def)
  with m show ?thesis by (auto simp: accepted_def)
next
  case (V4BlockGrader v)
  then obtain m where m: "entry_ok 4 eh ext" "proto_content_ok 42 {25} (height v) (prevWinners v) m"
    "g' = add_record g (accepted eh ext content (OPR_V4 m))"
    using assms by (auto simp: AddOPR_V4_def res_simps ValidateV4_Inr)
  then have "record_ok g (accepted eh ext content (OPR_V4 m))"
    using V4BlockGrader
    by (simp add: accepted_record [OF m(1)] proto_content_ok_def GraderHeight_def
        PreviousWinners_def V4_GetPreviousWinners_def)
  with m show ?thesis by (auto simp: accepted_def)
next
  case (V5BlockGrader v)
  then obtain m where m: "entry_ok 5 eh ext" "proto_content_ok 62 {25} (height v) (prevWinners v) m"
    "g' = add_record g (accepted eh ext content (OPR_V5 m))"
    using assms by (auto simp: AddOPR_V5_def res_simps ValidateV5_Inr)
  then have "record_ok g (accepted eh ext content (OPR_V5 m))"
    using V5BlockGrader
    by (simp add: accepted_record [OF m(1)] proto_content_ok_def GraderHeight_def
        PreviousWinners_def V5_GetPreviousWinners_def)
  with m show ?thesis by (auto simp: accepted_def)
qed

lemma AddOPR_ok: "AddOPR json g eh ext content = Inr g' \<Longrightarrow> grader_ok g \<Longrightarrow> grader_ok g'"
  by (drule AddOPR_record) (auto simp: grader_ok_def)

lemma reachable_ok: "reachable json g \<Longrightarrow> grader_ok g"
  by (induction rule: reachable.induct) (auto intro: NewGrader_ok AddOPR_ok)


section \<open>The algorithm of a grader\<close>

fun grader_average :: "BlockGrader \<Rightarrow> GradingOPR list \<Rightarrow> f64 list res" where
  "grader_average (V5BlockGrader _) = averageV5"
| "grader_average _ = averageV1"

fun grader_grade :: "BlockGrader \<Rightarrow> nat \<Rightarrow> f64 list \<Rightarrow> GradingOPR \<Rightarrow> GradingOPR res" where
  "grader_grade (V1BlockGrader _) i a x = gradeV1 a x"
| "grader_grade (V5BlockGrader _) i a x = gradeV5 a x (if 25 \<le> i then V5Band else Fin 0)"
| "grader_grade _ i a x = gradeV2 a x (if 25 \<le> i then V2Band else Fin 0)"

fun last_round :: "BlockGrader \<Rightarrow> nat" where
  "last_round (V1BlockGrader _) = 10"
| "last_round _ = 1"

fun is_V1 :: "BlockGrader \<Rightarrow> bool" where
  "is_V1 (V1BlockGrader _) = True"
| "is_V1 _ = False"

fun num_assets :: "BlockGrader \<Rightarrow> nat" where
  "num_assets (V1BlockGrader _) = 32"
| "num_assets (V4BlockGrader _) = 42"
| "num_assets (V5BlockGrader _) = 62"
| "num_assets _ = 30"

definition grader_passes :: "BlockGrader \<Rightarrow> nat \<Rightarrow> GradingOPR list \<Rightarrow> GradingOPR list res" where
  "grader_passes g = grade_passes (grading_round (grader_average g) (grader_grade g) resort) (last_round g)"

fun wrap_block :: "BlockGrader \<Rightarrow> baseGradedBlock \<Rightarrow> GradedBlock" where
  "wrap_block (V1BlockGrader _) b = V1GradedBlock b"
| "wrap_block (V2BlockGrader _) b = V2GradedBlock b"
| "wrap_block (V3BlockGrader _) b = V3GradedBlock (V2GradedBlock b)"
| "wrap_block (V4BlockGrader _) b = V4GradedBlock (V2GradedBlock b)"
| "wrap_block (V5BlockGrader _) b = V5GradedBlock b"

lemma block_of_wrap [simp]: "block_of (wrap_block g b) = b"
  by (cases g) simp_all

lemma WinnerAmount_wrap [simp]: "WinnerAmount (wrap_block g b) = GraderWinnerAmount g"
  by (cases g) simp_all

lemma BlockVersion_wrap [simp]: "BlockVersion (wrap_block g b) = Version g"
  by (cases g) simp_all

lemma BlockWinners_wrap [simp]: "BlockWinners (wrap_block g b)
    = (if length (graded_oprs b) < GraderWinnerAmount g then [] else take (GraderWinnerAmount g) (graded_oprs b))"
  by (cases g) simp_all

text \<open>The five graders are one procedure at five algorithms.\<close>

lemma grader_grade_simps:
  "grader_grade (V1BlockGrader v) = (\<lambda>i. gradeV1)"
  "grader_grade (V2BlockGrader v) = (\<lambda>i a x. gradeV2 a x (if 25 \<le> i then V2Band else Fin 0))"
  "grader_grade (V3BlockGrader v) = (\<lambda>i a x. gradeV2 a x (if 25 \<le> i then V2Band else Fin 0))"
  "grader_grade (V4BlockGrader v) = (\<lambda>i a x. gradeV2 a x (if 25 \<le> i then V2Band else Fin 0))"
  "grader_grade (V5BlockGrader v) = (\<lambda>i a x. gradeV5 a x (if 25 \<le> i then V5Band else Fin 0))"
  by (simp_all add: fun_eq_iff)

lemma GradeCustom_eq:
  "GradeCustom lx g c = rbind (grade_custom_with lx (GraderWinnerAmount g) (grader_passes g)
     (GraderPayout g) (base_of g) c) (\<lambda>b. Inr (wrap_block g b))"
proof -
  have pay: "GraderPayout (V1BlockGrader v) = V1Payout" "GraderPayout (V2BlockGrader v) = V2Payout"
    "GraderPayout (V3BlockGrader v) = V2Payout" "GraderPayout (V4BlockGrader v) = V2Payout"
    "GraderPayout (V5BlockGrader v) = V5Payout" for v
    by (simp_all add: fun_eq_iff)
  have "V1_grade = grade_with 10 (grade_passes (grading_round averageV1 (\<lambda>i. gradeV1) resort) 10) V1Payout"
    "V2_grade = grade_with 25 (grade_passes (grading_round averageV1
       (\<lambda>i a x. gradeV2 a x (if 25 \<le> i then V2Band else Fin 0)) resort) 1) V2Payout"
    "V5_grade = grade_with 25 (grade_passes (grading_round averageV5
       (\<lambda>i a x. gradeV5 a x (if 25 \<le> i then V5Band else Fin 0)) resort) 1) V5Payout"
    by (simp_all add: fun_eq_iff V1_grade_def V2_grade_def V5_grade_def grade_with_def)
  then show ?thesis
    by (cases g) (simp_all add: V1_GradeCustom_def V2_GradeCustom_def V5_GradeCustom_def
        grade_custom_with_def grader_passes_def grader_grade_simps pay)
qed

section \<open>Readable prices\<close>

lemma opr_prices_Clone [simp]: "opr_prices (GradingOPR_Clone x) = opr_prices x"
  by (simp add: opr_prices_def GradingOPR_Clone_def)

lemma Clone_sels [simp]:
  "EntryHash (GradingOPR_Clone x) = EntryHash x" "Nonce (GradingOPR_Clone x) = Nonce x"
  "SelfReportedDifficulty (GradingOPR_Clone x) = SelfReportedDifficulty x"
  "OPRHash (GradingOPR_Clone x) = OPRHash x" "Grade (GradingOPR_Clone x) = Grade x"
  "position (GradingOPR_Clone x) = position x" "payout (GradingOPR_Clone x) = payout x"
  by (simp_all add: GradingOPR_Clone_def)

lemma honest_Clone [simp]: "honest lx (GradingOPR_Clone x) = honest lx x"
  by (simp add: honest_def lx_difficulty_def)

lemma opr_id_Clone [simp]: "opr_id (GradingOPR_Clone x) = opr_id x"
  by (simp add: opr_id_def)

text \<open>
  JSON numbers are only bounded by the float range; \<open>small_prices\<close> excludes those above \<open>2^970\<close>,
  whose sums could overflow. The prices of the protobuf versions are 64-bit integers over 1e8.
\<close>

definition small_prices :: "GradingOPR \<Rightarrow> bool" where
  "small_prices x \<longleftrightarrow> (case OPR x of
     OPR_V1 c \<Rightarrow> list_all (\<lambda>k. bounded_price 970 (asset_at (V1ContentAssets c) k)) V1Assets
   | _ \<Rightarrow> True)"

lemma Uint64ToFloat_below: "below_grid 1 64 (Uint64ToFloat u)"
  using Uint64ToFloat_Fin [of u] by (auto simp: below_grid_def)

lemma readable_ordered:
  assumes "GetOrderedAssetsFloat (OPR x) = ordered_assets names (Fin 0) Uint64ToFloat vals"
    "length vals = n" "length names = n"
  shows "readable opr_prices n (below_grid 1 64) x"
  using assms
  by (simp add: readable_def opr_prices_def ordered_assets_def comp_def split_def list_all_iff
      Uint64ToFloat_below)

lemma record_readable:
  assumes "record_ok g x"
  shows "\<not> is_V1 g \<Longrightarrow> readable opr_prices (num_assets g) (below_grid 1 64) x"
    and "is_V1 g \<Longrightarrow> small_prices x \<Longrightarrow> readable opr_prices 32 (bounded_price 970) x"
proof -
  have k: "content_kind g (OPR x)" using assms by (simp add: record_ok_def)
  show "readable opr_prices (num_assets g) (below_grid 1 64) x" if "\<not> is_V1 g"
    using k that
    by (cases g; cases "OPR x")
      (auto intro!: readable_ordered simp: V2_GetOrderedAssetsFloat_def V4_GetOrderedAssetsFloat_def
        V5_GetOrderedAssetsFloat_def len_simps)
  show "readable opr_prices 32 (bounded_price 970) x" if v1: "is_V1 g" and small: "small_prices x"
  proof -
    obtain v c where "g = V1BlockGrader v" "OPR x = OPR_V1 c"
      using k v1 by (cases g; cases "OPR x") auto
    then show ?thesis
      using small by (simp add: readable_def opr_prices_def V1_GetOrderedAssetsFloat_def small_prices_def
          list_all_iff len_simps)
  qed
qed


section \<open>A block is graded\<close>

text \<open>A record without what the grader writes into it.\<close>

definition base_record :: "GradingOPR \<Rightarrow> GradingOPR" where
  "base_record x = x\<lparr>Grade := Fin 0, position := 0, payout := 0\<rparr>"

lemma candidates_Clone:
  "candidates lx c v = map GradingOPR_Clone (top_honest lx c (filter_dups {} (oprs v)))"
proof -
  have f: "filter_dups A (map GradingOPR_Clone xs) = map GradingOPR_Clone (filter_dups A xs)" for A xs
    by (induction A xs rule: filter_dups.induct) (auto simp: Let_def)
  have s: "sort_key difficulty_order (map GradingOPR_Clone xs)
      = map GradingOPR_Clone (sort_key difficulty_order xs)" for xs
    using sort_stable_map [of more_difficult GradingOPR_Clone more_difficult xs]
    by (simp add: more_difficult_def flip: sort_more_difficult)
  have h: "filter (honest lx) (map GradingOPR_Clone xs) = map GradingOPR_Clone (filter (honest lx) xs)" for xs
    by (simp add: filter_map comp_def)
  show ?thesis by (simp add: candidates_def top_honest_def f s h take_map)
qed

lemma set_candidates:
  "x \<in> set (candidates lx c v) \<Longrightarrow> \<exists>y \<in> set (oprs v). x = GradingOPR_Clone y \<and> honest lx y"
  using set_top_honest [of lx c "filter_dups {} (oprs v)"] filter_dups_set [of "{}" "oprs v"]
  by (auto simp: candidates_Clone)

lemma record_ok_Clone:
  "record_ok g x \<Longrightarrow> length (EntryHash (GradingOPR_Clone x)) = 32
     \<and> base_record (GradingOPR_Clone x) = GradingOPR_Clone x"
  by (cases x) (simp add: record_ok_def base_record_def GradingOPR_Clone_def)

text \<open>The grade of a record in the round over \<open>i\<close> records with averages \<open>a\<close>.\<close>

definition round_grade :: "BlockGrader \<Rightarrow> nat \<Rightarrow> f64 list \<Rightarrow> GradingOPR \<Rightarrow> f64" where
  "round_grade g i a x = (case grader_grade g i a x of Inr y \<Rightarrow> Grade y | Inl _ \<Rightarrow> NaN)"

text \<open>
  Place \<open>i\<close> of a ranking is decided fairly: in the round over the records at the first \<open>i\<close>
  places, in the order \<open>ord\<close> they had then, none had a worse grade than the one at place \<open>i\<close>.
\<close>

definition worst_of_round :: "BlockGrader \<Rightarrow> nat \<Rightarrow> GradingOPR list \<Rightarrow> bool" where
  "worst_of_round g i rs \<longleftrightarrow> (\<exists>ord a. mset (map base_record ord) = mset (map base_record (take i rs))
     \<and> grader_average g ord = Inr a
     \<and> (\<forall>x \<in> set (take i rs). round_grade g i a x \<le> round_grade g i a (rs ! (i - 1))))"

definition grading_hyps :: "(byte list \<Rightarrow> byte list) \<Rightarrow> BlockGrader \<Rightarrow> int \<Rightarrow> bool" where
  "grading_hyps lx g c \<longleftrightarrow> lx_ok lx \<and> grader_ok g \<and> 1 \<le> c \<and> c \<le> 2 ^ 50
     \<and> (\<forall>x \<in> set (oprs (base_of g)). small_prices x)"


fun grader_distance :: "BlockGrader \<Rightarrow> nat \<Rightarrow> f64 \<Rightarrow> f64 \<Rightarrow> f64" where
  "grader_distance (V1BlockGrader _) i = plain_distance"
| "grader_distance (V5BlockGrader _) i = banded_distance (if 25 \<le> i then V5Band else Fin 0)"
| "grader_distance _ i = banded_distance (if 25 \<le> i then V2Band else Fin 0)"

lemma round_grade_eq:
  "round_grade g i a x = (case rbind (opr_prices x) (\<lambda>vs. grade_sum (grader_distance g i) a vs (Fin 0)) of
     Inr s \<Rightarrow> s | Inl _ \<Rightarrow> NaN)"
proof -
  have *: "(case rbind r (\<lambda>vs. rbind (f vs) (\<lambda>s. Inr (x\<lparr>Grade := s\<rparr>))) of
      Inr y \<Rightarrow> Grade y | Inl _ \<Rightarrow> NaN) = (case rbind r f of Inr s \<Rightarrow> s | Inl _ \<Rightarrow> NaN)"
    for r :: "f64 list res" and f
  proof (cases r)
    case (Inr vs)
    then show ?thesis by (cases "f vs") simp_all
  qed simp
  show ?thesis
    by (cases g) (simp_all add: round_grade_def gradeV1_def gradeV2_def gradeV5_def *)
qed

lemma opr_prices_upd [simp]:
  "opr_prices (x\<lparr>position := i, payout := p\<rparr>) = opr_prices x"
  "opr_prices (base_record x) = opr_prices x"
  by (simp_all add: opr_prices_def base_record_def)

lemma base_record_upd [simp]:
  "base_record (x\<lparr>position := i, payout := p\<rparr>) = base_record x"
  "base_record (strip_grade x) = base_record x"
  by (simp_all add: base_record_def strip_grade_def)

lemma base_record_mset:
  assumes "mset (map strip_grade xs) = mset (map strip_grade ys)"
  shows "mset (map base_record xs) = mset (map base_record ys)"
proof -
  have "mset (map base_record (map strip_grade xs)) = mset (map base_record (map strip_grade ys))"
    using assms by (metis mset_map)
  then show ?thesis by (simp add: comp_def)
qed

lemma map_set_positions:
  "(\<And>x i p. f (x\<lparr>position := i, payout := p\<rparr>) = f x) \<Longrightarrow> map f (set_positions pay rs) = map f rs"
  by (intro nth_equalityI) (simp_all add: nth_set_positions)

lemma take_set_positions: "take i (set_positions pay rs) = set_positions pay (take i rs)"
  by (intro nth_equalityI) (simp_all add: nth_set_positions)

lemma worst_of_round_positions:
  assumes "worst_of_round g i rs" "0 < i" "i \<le> length rs"
  shows "worst_of_round g i (set_positions pay rs)"
proof -
  obtain ord a where o: "mset (map base_record ord) = mset (map base_record (take i rs))"
    "grader_average g ord = Inr a"
    "\<forall>x \<in> set (take i rs). round_grade g i a x \<le> round_grade g i a (rs ! (i - 1))"
    using assms(1) by (auto simp: worst_of_round_def)
  have upd: "round_grade g i a (x\<lparr>position := j, payout := p\<rparr>) = round_grade g i a x" for x j p
    by (simp add: round_grade_eq)
  have "map base_record (take i (set_positions pay rs)) = map base_record (take i rs)"
    by (simp add: take_set_positions map_set_positions)
  moreover have "\<forall>x \<in> set (take i (set_positions pay rs)).
      round_grade g i a x \<le> round_grade g i a (set_positions pay rs ! (i - 1))"
  proof -
    have "round_grade g i a ` set (take i (set_positions pay rs)) = round_grade g i a ` set (take i rs)"
      using map_set_positions [of "round_grade g i a" pay "take i rs"] upd
      by (simp add: take_set_positions flip: set_map)
    moreover have "round_grade g i a (set_positions pay rs ! (i - 1)) = round_grade g i a (rs ! (i - 1))"
      using assms by (simp add: nth_set_positions upd)
    ultimately show ?thesis using o(3) by (metis (no_types, lifting) imageE imageI)
  qed
  ultimately show ?thesis using o(1,2) by (auto simp: worst_of_round_def)
qed

lemma worst_of_roundI:
  assumes "mset (map strip_grade ord) = mset (map strip_grade (take i rs))"
    "grader_average g ord = Inr a"
    "\<forall>x \<in> set (take i rs). round_grade g i a x \<le> round_grade g i a (rs ! (i - 1))"
  shows "worst_of_round g i rs"
  using base_record_mset [OF assms(1)] assms(2,3) unfolding worst_of_round_def by blast

lemma score_round_grade:
  "v1.score = round_grade (V1BlockGrader v)" "v2.score = round_grade (V2BlockGrader v)"
  "v5.score = round_grade (V5BlockGrader v)"
  "round_grade (V3BlockGrader v) = round_grade (V2BlockGrader v)"
  "round_grade (V4BlockGrader v) = round_grade (V2BlockGrader v)"
  by (simp_all add: fun_eq_iff v1.score_def v2.score_def v5.score_def round_grade_def)

lemma eliminated_worst:
  shows "v1.eliminated i rs \<Longrightarrow> worst_of_round (V1BlockGrader v) i rs"
    and "v2.eliminated i rs \<Longrightarrow> worst_of_round (V2BlockGrader v) i rs"
    and "v2.eliminated i rs \<Longrightarrow> worst_of_round (V3BlockGrader v) i rs"
    and "v2.eliminated i rs \<Longrightarrow> worst_of_round (V4BlockGrader v) i rs"
    and "v5.eliminated i rs \<Longrightarrow> worst_of_round (V5BlockGrader v) i rs"
  unfolding v1.eliminated_def v2.eliminated_def v5.eliminated_def strip_grade_eq
  by (elim exE conjE, rule worst_of_roundI, assumption, simp, simp add: score_round_grade [of v])+

lemma grading_passes_ok:
  assumes "grading_hyps lx g c" "os = candidates lx c (base_of g)"
  shows "\<exists>rs. grader_passes g (length os) os = Inr rs
    \<and> mset (map strip_grade rs) = mset (map strip_grade os)
    \<and> (\<forall>i. last_round g \<le> i \<longrightarrow> i \<le> length os \<longrightarrow> worst_of_round g i rs)"
proof -
  have n: "int (length os) \<le> 2 ^ 50"
    using assms length_candidates [of c lx "base_of g"] by (auto simp: grading_hyps_def)
  then have n50: "length os \<le> 2 ^ 50" by simp
  have "(2 :: nat) ^ 50 \<le> 2 ^ 53" by simp
  with n50 have n53: "length os \<le> 2 ^ 53" by linarith
  have ok: "\<exists>y. record_ok g y \<and> small_prices y \<and> opr_prices x = opr_prices y" if "x \<in> set os" for x
    using that assms set_candidates [of x lx c "base_of g"]
    by (auto simp: grading_hyps_def grader_ok_def)
  have rd: "\<not> is_V1 g \<Longrightarrow> \<forall>x \<in> set os. readable opr_prices (num_assets g) (below_grid 1 64) x"
    "is_V1 g \<Longrightarrow> \<forall>x \<in> set os. readable opr_prices 32 (bounded_price 970) x"
    using ok record_readable [of g] by (fastforce simp: readable_def)+
  have full: "take (length os) rs = rs" if "length rs = length os" for rs :: "GradingOPR list"
    using that by simp
  have final: "\<exists>rs. grader_passes g (length os) os = Inr rs
      \<and> mset (map strip_grade rs) = mset (map strip_grade os)
      \<and> (\<forall>i. last_round g \<le> i \<longrightarrow> i \<le> length os \<longrightarrow> worst_of_round g i rs)"
    if "\<exists>rs. grader_passes g (length os) os = Inr rs
      \<and> mset (map strip_grade (take (length os) rs)) = mset (map strip_grade (take (length os) os))
      \<and> drop (length os) rs = drop (length os) os \<and> length rs = length os
      \<and> (\<forall>i. last_round g \<le> i \<longrightarrow> i \<le> length os \<longrightarrow> worst_of_round g i rs)"
    using that by auto
  show ?thesis
  proof (rule final, cases g)
    case (V1BlockGrader v)
    then show "\<exists>rs. grader_passes g (length os) os = Inr rs
      \<and> mset (map strip_grade (take (length os) rs)) = mset (map strip_grade (take (length os) os))
      \<and> drop (length os) rs = drop (length os) os \<and> length rs = length os
      \<and> (\<forall>i. last_round g \<le> i \<longrightarrow> i \<le> length os \<longrightarrow> worst_of_round g i rs)"
      using v1.passes_ok [of 10 "length os" os 32, OF _ order_refl n53] rd(2) eliminated_worst(1)
      by (fastforce simp: grader_passes_def grader_grade_simps)
  next
    case (V2BlockGrader v)
    then show "\<exists>rs. grader_passes g (length os) os = Inr rs
      \<and> mset (map strip_grade (take (length os) rs)) = mset (map strip_grade (take (length os) os))
      \<and> drop (length os) rs = drop (length os) os \<and> length rs = length os
      \<and> (\<forall>i. last_round g \<le> i \<longrightarrow> i \<le> length os \<longrightarrow> worst_of_round g i rs)"
      using v2.passes_ok [of 1 "length os" os 30, OF _ order_refl n53] rd(1) eliminated_worst(2)
      by (fastforce simp: grader_passes_def grader_grade_simps)
  next
    case (V3BlockGrader v)
    then show "\<exists>rs. grader_passes g (length os) os = Inr rs
      \<and> mset (map strip_grade (take (length os) rs)) = mset (map strip_grade (take (length os) os))
      \<and> drop (length os) rs = drop (length os) os \<and> length rs = length os
      \<and> (\<forall>i. last_round g \<le> i \<longrightarrow> i \<le> length os \<longrightarrow> worst_of_round g i rs)"
      using v2.passes_ok [of 1 "length os" os 30, OF _ order_refl n53] rd(1) eliminated_worst(3)
      by (fastforce simp: grader_passes_def grader_grade_simps)
  next
    case (V4BlockGrader v)
    then show "\<exists>rs. grader_passes g (length os) os = Inr rs
      \<and> mset (map strip_grade (take (length os) rs)) = mset (map strip_grade (take (length os) os))
      \<and> drop (length os) rs = drop (length os) os \<and> length rs = length os
      \<and> (\<forall>i. last_round g \<le> i \<longrightarrow> i \<le> length os \<longrightarrow> worst_of_round g i rs)"
      using v2.passes_ok [of 1 "length os" os 42, OF _ order_refl n53] rd(1) eliminated_worst(4)
      by (fastforce simp: grader_passes_def grader_grade_simps)
  next
    case (V5BlockGrader v)
    then show "\<exists>rs. grader_passes g (length os) os = Inr rs
      \<and> mset (map strip_grade (take (length os) rs)) = mset (map strip_grade (take (length os) os))
      \<and> drop (length os) rs = drop (length os) os \<and> length rs = length os
      \<and> (\<forall>i. last_round g \<le> i \<longrightarrow> i \<le> length os \<longrightarrow> worst_of_round g i rs)"
      using v5.passes_ok [of 1 "length os" os 62, OF _ order_refl n50] rd(1) eliminated_worst(5)
      by (fastforce simp: grader_passes_def grader_grade_simps)
  qed
qed


lemma candidates_records:
  assumes "grader_ok g" "x \<in> set (candidates lx c (base_of g))"
  shows "length (EntryHash x) = 32" "base_record x = x"
  using set_candidates [OF assms(2)] assms(1) record_ok_Clone [of g] by (auto simp: grader_ok_def)

lemma GradeCustom_few:
  assumes "grading_hyps lx g c" "length (candidates lx c (base_of g)) < GraderWinnerAmount g"
  shows "GradeCustom lx g c = Inr (wrap_block g ((new_block (base_of g) c)
     \<lparr>graded_oprs := candidates lx c (base_of g), shorthashes := PreviousWinners g\<rparr>))"
  using assms grade_custom_with_few [of lx c "base_of g" "GraderWinnerAmount g" "grader_passes g" "GraderPayout g"]
  by (simp add: GradeCustom_eq grading_hyps_def PreviousWinners_def)

lemma GradeCustom_many:
  assumes "grading_hyps lx g c" "GraderWinnerAmount g \<le> length (candidates lx c (base_of g))"
  shows "\<exists>rs. GradeCustom lx g c = Inr (wrap_block g ((new_block (base_of g) c)
     \<lparr>graded_oprs := set_positions (GraderPayout g) rs, cutoff := int (length rs),
      shorthashes := map (\<lambda>x. hexEncode (take 8 (EntryHash x))) (take (GraderWinnerAmount g) rs)\<rparr>))
   \<and> length rs = length (candidates lx c (base_of g))
   \<and> mset (map base_record rs) = mset (candidates lx c (base_of g))
   \<and> (\<forall>i. last_round g \<le> i \<longrightarrow> i \<le> length rs \<longrightarrow> worst_of_round g i (set_positions (GraderPayout g) rs))"
proof -
  let ?os = "candidates lx c (base_of g)"
  have h: "lx_ok lx" "1 \<le> c" "grader_ok g" using assms(1) by (auto simp: grading_hyps_def)
  obtain rs where rs: "grader_passes g (length ?os) ?os = Inr rs"
    "mset (map strip_grade rs) = mset (map strip_grade ?os)"
    "\<forall>i. last_round g \<le> i \<longrightarrow> i \<le> length ?os \<longrightarrow> worst_of_round g i rs"
    using grading_passes_ok [OF assms(1) refl] by blast
  have len: "length rs = length ?os" using rs(2) by (metis length_map size_mset)
  have "map base_record ?os = ?os"
    using candidates_records(2) [OF h(3)] by (intro map_idI) blast
  then have "mset (map base_record rs) = mset ?os" using base_record_mset [OF rs(2)] by simp
  moreover have "0 < i" if "last_round g \<le> i" for i using that by (cases g) auto
  then have "\<forall>i. last_round g \<le> i \<longrightarrow> i \<le> length rs \<longrightarrow> worst_of_round g i (set_positions (GraderPayout g) rs)"
    using rs(3) len by (auto intro: worst_of_round_positions)
  moreover have "\<forall>x \<in> set ?os. length (EntryHash x) = 32"
    using candidates_records(1) [OF h(3)] by blast
  ultimately show ?thesis
    using grade_custom_with_many [where passes = "grader_passes g", OF h(1) assms(2) h(2) rs(1,2)] len
    by (intro exI [of _ rs]) (simp add: GradeCustom_eq)
qed

text \<open>In both cases the graded records are the candidates, with what the grader writes into them.\<close>

lemma GradeCustom_Graded:
  assumes "grading_hyps lx g c"
  shows "\<exists>b. GradeCustom lx g c = Inr b \<and> mset (map base_record (Graded b)) = mset (candidates lx c (base_of g))
    \<and> BlockVersion b = Version g \<and> WinnerAmount b = GraderWinnerAmount g \<and> BlockCount b = Count g"
proof -
  have nb: "block_count (new_block (base_of g) c) = Count g"
    by (simp add: new_block_def cloneOPRS_def Count_def)
  show ?thesis
  proof (cases "length (candidates lx c (base_of g)) < GraderWinnerAmount g")
    case True
    have "map base_record (candidates lx c (base_of g)) = candidates lx c (base_of g)"
      using assms candidates_records(2) by (intro map_idI) (auto simp: grading_hyps_def)
    then have "image_mset base_record (mset (candidates lx c (base_of g))) = mset (candidates lx c (base_of g))"
      by (metis mset_map)
    with GradeCustom_few [OF assms True] nb show ?thesis
      by (simp add: Graded_def BlockCount_def)
  next
    case False
    with GradeCustom_many [OF assms] nb show ?thesis
      by (fastforce simp: Graded_def BlockCount_def map_set_positions)
  qed
qed

lemma reachable_hyps:
  "reachable json g \<Longrightarrow> lx_ok lx \<Longrightarrow> 1 \<le> c \<Longrightarrow> c \<le> 2 ^ 50 \<Longrightarrow>
     \<forall>x \<in> set (oprs (base_of g)). small_prices x \<Longrightarrow> grading_hyps lx g c"
  by (simp add: grading_hyps_def reachable_ok)

section \<open>A block to apply the properties to\<close>

definition sample_v1 :: V1Content where
  "sample_v1 = \<lparr>CoinbaseAddress = [], Dbht = 1, WinPreviousOPR = replicate 10 [],
     FactomDigitalID = [], V1ContentAssets = (\<lambda>_. Some (Fin 1))\<rparr>"

definition sample_ext :: "nat \<Rightarrow> byte \<Rightarrow> byte list list" where
  "sample_ext i d = [[word_of_nat i], [0, 0, 0, 0, 0, 0, 0, d], [1]]"

definition sample_record :: "nat \<Rightarrow> byte \<Rightarrow> GradingOPR" where
  "sample_record i d = accepted (replicate 32 0) (sample_ext i d) [] (OPR_V1 sample_v1)"

definition sample_with :: "GradingOPR list \<Rightarrow> BlockGrader" where
  "sample_with rs = V1BlockGrader \<lparr>oprs = rs, height = 1, prevWinners = replicate 10 []\<rparr>"

definition sample_grader :: "nat \<Rightarrow> BlockGrader" where
  "sample_grader n = sample_with (map (\<lambda>i. sample_record i 5) [0..<n])"

definition sample_lx :: "byte list \<Rightarrow> byte list" where
  "sample_lx bs = [0, 0, 0, 0, 0, 0, 0, 5]"

lemma sample_lx_ok: "lx_ok sample_lx"
  by (simp add: lx_ok_def sample_lx_def)

lemma sample_Add:
  "AddOPR (\<lambda>_. Inr sample_v1) (sample_with rs) (replicate 32 0) (sample_ext i d) []
     = Inr (sample_with (rs @ [sample_record i d]))"
proof -
  have "ValidateV1 (\<lambda>_. Inr sample_v1) (replicate 32 0) (sample_ext i d) 1 (replicate 10 []) []
      = Inr (sample_record i d)"
    unfolding ValidateV1_Inr
    using empty_winners [of 10]
    by (simp add: entry_ok_def sample_ext_def v1_content_ok_def sample_v1_def sample_record_def)
  then show ?thesis by (simp add: sample_with_def AddOPR_V1_def)
qed

lemma sample_reachable: "reachable (\<lambda>_. Inr sample_v1) (sample_grader n)"
proof (induction n)
  case 0
  have "NewGrader 1 1 [] = Inr (sample_grader 0)"
    by (simp add: NewGrader_def sample_grader_def sample_with_def new_base_def)
  then show ?case by (rule reachable.new)
next
  case (Suc n)
  then show ?case
    by (rule reachable.add [where eh = "replicate 32 0" and ext = "sample_ext n 5" and content = "[]"])
      (simp add: sample_grader_def sample_Add)
qed

lemma sample_small: "\<forall>x \<in> set (oprs (base_of (sample_grader n))). small_prices x"
proof -
  have "bounded_price 970 (Fin 1)" by (simp add: bounded_price_def pow2_def)
  then show ?thesis
    by (auto simp: sample_grader_def sample_with_def sample_record_def accepted_def small_prices_def
        sample_v1_def asset_at_def list_all_iff)
qed

lemma sample_honest: "honest sample_lx (sample_record i d) \<longleftrightarrow> d = 5"
proof -
  have "unat d < 2 ^ 8" using unsigned_less [of d, where 'a = nat] by simp
  also have "(2 :: nat) ^ 8 \<le> 2 ^ 64" by simp
  finally have "take_bit 64 (unat d) = unat d" by (rule take_bit_nat_eq_self)
  then have "unat (ucast d :: u64) = unat d" by (simp add: unsigned_ucast_eq)
  then have "(ucast d :: u64) = 5 \<longleftrightarrow> d = 5" by (simp add: word_unat_eq_iff)
  then show ?thesis
    by (auto simp: honest_def lx_difficulty_def sample_lx_def be_u64_def sample_record_def accepted_def
      sample_ext_def big_endian_def)
qed

lemma sample_ids: "n \<le> 256 \<Longrightarrow> distinct (map opr_id (map (\<lambda>i. sample_record i 5) [0..<n]))"
  by (auto simp: distinct_map inj_on_def opr_id_def sample_record_def accepted_def sample_ext_def
      word_of_nat_eq_iff take_bit_nat_eq_self)

lemma sample_candidates:
  "n \<le> 50 \<Longrightarrow> length (candidates sample_lx 50 (base_of (sample_grader n))) = n"
proof -
  let ?rs = "map (\<lambda>i. sample_record i 5) [0..<n]"
  assume n: "n \<le> 50"
  have "filter_dups {} ?rs = ?rs"
    using n sample_ids [of n] by (intro filter_dups_id) simp_all
  moreover have "filter (honest sample_lx) (sort_key difficulty_order ?rs) = sort_key difficulty_order ?rs"
    by (auto simp: filter_id_conv sample_honest)
  ultimately show ?thesis
    using n by (simp add: candidates_Clone sample_grader_def sample_with_def top_honest_def)
qed


lemmas sample_facts = sample_reachable [of 10] sample_lx_ok sample_small [of 10]

lemma sample_GradeCustom: "\<exists>b. GradeCustom sample_lx (sample_grader 10) 50 = Inr b"
  using GradeCustom_Graded [OF reachable_hyps [OF sample_reachable [of 10] sample_lx_ok _ _ sample_small, of 50]]
  by auto

section \<open>Properties of a graded block\<close>

text \<open>
  C1. Grading never fails: for every grader that \<open>NewGrader\<close> and successful calls of \<open>AddOPR\<close>
  produce, of any version, \<open>GradeCustom\<close> returns a block of that version without a panic,
  whatever was added. The prices of a V1 record have to stay below \<open>2^970\<close>.
\<close>

theorem GradeCustom_total:
  assumes "reachable json g" "lx_ok lx" "1 \<le> c" "c \<le> 2 ^ 50"
    "\<forall>x \<in> set (oprs (base_of g)). small_prices x"
  shows "\<exists>b. GradeCustom lx g c = Inr b \<and> BlockVersion b = Version g
    \<and> WinnerAmount b = GraderWinnerAmount g \<and> BlockCount b = Count g \<and> int (length (Graded b)) \<le> c"
proof -
  have "length xs = length ys" if "mset (map base_record xs) = mset ys" for xs ys
    using that by (metis length_map size_mset)
  then show ?thesis
    using GradeCustom_Graded [OF reachable_hyps [OF assms]] length_candidates [OF assms(3), of lx "base_of g"]
    by fastforce
qed

lemma GradeCustom_total_witness:
  "\<exists>b. GradeCustom sample_lx (sample_grader 10) 50 = Inr b \<and> BlockVersion b = 1"
  using GradeCustom_total [OF sample_reachable [of 10] sample_lx_ok _ _ sample_small, of 50]
  by (auto simp: sample_grader_def sample_with_def)

text \<open>
  C2. The graded records are the most difficult honest ones: each is one of the added records with
  only grade, position and payout written into it, its reported difficulty is the one of its LX
  hash, and no two have the same nonce and content; and when an honest record that is not a
  duplicate is left out, the block is full and all of its records are at least as difficult.
\<close>

theorem Graded_selection:
  assumes "reachable json g" "lx_ok lx" "1 \<le> c" "c \<le> 2 ^ 50"
    "\<forall>x \<in> set (oprs (base_of g)). small_prices x" "GradeCustom lx g c = Inr b"
  shows "(\<forall>x \<in> set (Graded b). \<exists>y \<in> set (oprs (base_of g)).
          base_record x = GradingOPR_Clone y \<and> honest lx y)
    \<and> distinct (map opr_id (Graded b))
    \<and> (\<forall>y \<in> set (filter_dups {} (oprs (base_of g))).
         honest lx y \<longrightarrow> opr_id y \<notin> opr_id ` set (Graded b) \<longrightarrow>
         int (length (Graded b)) = c
         \<and> (\<forall>x \<in> set (Graded b). SelfReportedDifficulty y \<le> SelfReportedDifficulty x))"
proof -
  let ?cand = "candidates lx c (base_of g)" and ?ys = "filter_dups {} (oprs (base_of g))"
  let ?top = "top_honest lx c ?ys"
  obtain b' where "GradeCustom lx g c = Inr b'" "mset (map base_record (Graded b')) = mset ?cand"
    using GradeCustom_Graded [OF reachable_hyps [OF assms(1-5)]] by blast
  then have mset: "mset (map base_record (Graded b)) = mset ?cand" using assms(6) by simp
  then have set: "base_record ` set (Graded b) = set ?cand" by (metis set_map set_mset_mset)
  have id: "opr_id (base_record x) = opr_id x" "SelfReportedDifficulty (base_record x) = SelfReportedDifficulty x" for x
    by (simp_all add: opr_id_def base_record_def)
  have cand: "map opr_id ?cand = map opr_id ?top" by (simp add: candidates_Clone comp_def)
  have ids: "mset (map opr_id (Graded b)) = mset (map opr_id ?top)"
  proof -
    have "mset (map opr_id (map base_record (Graded b))) = mset (map opr_id ?cand)"
      using mset by (metis mset_map)
    then show ?thesis by (simp add: comp_def id cand flip: mset_map)
  qed
  then have idset: "opr_id ` set (Graded b) = opr_id ` set ?top" by (metis set_map set_mset_mset)
  have len: "length (Graded b) = length ?top" using ids by (metis length_map size_mset)
  have 1: "\<forall>x \<in> set (Graded b). \<exists>y \<in> set (oprs (base_of g)). base_record x = GradingOPR_Clone y \<and> honest lx y"
    using set set_candidates by blast
  have 2: "distinct (map opr_id (Graded b))"
    using ids distinct_top_honest [OF filter_dups_distinct] mset_eq_imp_distinct_iff by blast
  have 3: "int (length (Graded b)) = c \<and> (\<forall>x \<in> set (Graded b). SelfReportedDifficulty y \<le> SelfReportedDifficulty x)"
    if y: "y \<in> set ?ys" "honest lx y" "opr_id y \<notin> opr_id ` set (Graded b)" for y
  proof -
    have notin: "y \<notin> set ?top" using y(3) idset by blast
    have "?top \<noteq> []"
      using y(1,2) assms(3) by (auto simp: top_honest_def filter_empty_conv)
    then obtain h where h: "h \<in> set ?top" by (cases ?top) auto
    have "SelfReportedDifficulty y \<le> SelfReportedDifficulty x" if x: "x \<in> set (Graded b)" for x
    proof -
      have "base_record x \<in> GradingOPR_Clone ` set ?top" using x set by (auto simp: candidates_Clone)
      then obtain z where "z \<in> set ?top" "base_record x = GradingOPR_Clone z" by blast
      then show ?thesis
        using top_honest_greatest(1) [OF y(1,2) notin, of z] by (metis Clone_sels(3) id(2))
    qed
    then show ?thesis
      using top_honest_greatest(2) [OF y(1,2) notin h] assms(3) len by auto
  qed
  from 1 2 3 show ?thesis by blast
qed

lemma Graded_selection_witness:
  "\<exists>b. GradeCustom sample_lx (sample_grader 10) 50 = Inr b \<and> distinct (map opr_id (Graded b))"
  using sample_GradeCustom
    Graded_selection [OF sample_reachable [of 10] sample_lx_ok _ _ sample_small, of 50]
  by fastforce


definition block_reward :: "BlockGrader \<Rightarrow> int" where
  "block_reward g = (case g of V5BlockGrader _ \<Rightarrow> 9000 * 100000000 | _ \<Rightarrow> 5000 * 100000000)"

lemma payout_total:
  assumes "GraderWinnerAmount g \<le> n"
  shows "(\<Sum>i\<leftarrow>[0..<n]. GraderPayout g (int i)) = block_reward g"
proof -
  have big: "GraderPayout g (int i) = 0" if "GraderWinnerAmount g \<le> i" for i
    using that by (cases g) (simp_all add: V1Payout_def V2Payout_def V5Payout_def)
  have "(\<Sum>i\<leftarrow>[0..<n]. GraderPayout g (int i))
      = (\<Sum>i\<leftarrow>[0..<GraderWinnerAmount g]. GraderPayout g (int i))
        + (\<Sum>i\<leftarrow>[GraderWinnerAmount g..<n]. GraderPayout g (int i))"
    using assms upt_add_eq_append [of 0 "GraderWinnerAmount g" "n - GraderWinnerAmount g"] by simp
  moreover have "(\<Sum>i\<leftarrow>[GraderWinnerAmount g..<n]. GraderPayout g (int i)) = 0"
  proof -
    have "map (\<lambda>i. GraderPayout g (int i)) [GraderWinnerAmount g..<n] = map (\<lambda>_. 0) [GraderWinnerAmount g..<n]"
      by (intro map_cong) (auto simp: big)
    then show ?thesis by (simp only: sum_list_0)
  qed
  moreover have "(\<Sum>i\<leftarrow>[0..<GraderWinnerAmount g]. GraderPayout g (int i)) = block_reward g"
    by (cases g) (simp_all add: upt_rec numeral_eq_Suc V1Payout_def V2Payout_def V5Payout_def block_reward_def)
  ultimately show ?thesis by simp
qed

text \<open>
  C10. Places and payouts: with enough graded records, ten for V1 and 25 later, the record at place
  \<open>i\<close> has position \<open>i\<close> and the payout of that place, the winners are the first places, and the
  payouts add up to 5000 PEG, 9000 in V5; with fewer there are no winners, nobody is paid, and the
  winners of the previous block are handed on.
\<close>

theorem Graded_payouts:
  assumes "reachable json g" "lx_ok lx" "1 \<le> c" "c \<le> 2 ^ 50"
    "\<forall>x \<in> set (oprs (base_of g)). small_prices x" "GradeCustom lx g c = Inr b"
  shows "if GraderWinnerAmount g \<le> length (Graded b)
    then (\<forall>i < length (Graded b). position (Graded b ! i) = int i
            \<and> payout (Graded b ! i) = GraderPayout g (int i))
       \<and> BlockWinners b = take (GraderWinnerAmount g) (Graded b)
       \<and> (\<Sum>x\<leftarrow>Graded b. payout x) = block_reward g
    else (\<forall>x \<in> set (Graded b). payout x = 0) \<and> BlockWinners b = []
       \<and> WinnersShortHashes b = PreviousWinners g"
proof -
  note hyps = reachable_hyps [OF assms(1-5)]
  have ok: "grader_ok g" using hyps by (simp add: grading_hyps_def)
  show ?thesis
  proof (cases "length (candidates lx c (base_of g)) < GraderWinnerAmount g")
    case True
    have "payout x = 0" if "x \<in> set (candidates lx c (base_of g))" for x
    proof -
      have "payout (base_record x) = 0" by (simp add: base_record_def)
      then show ?thesis using candidates_records(2) [OF ok that] by simp
    qed
    with True GradeCustom_few [OF hyps True] assms(6) show ?thesis
      by (auto simp: Graded_def WinnersShortHashes_def)
  next
    case False
    then obtain rs where rs: "Graded b = set_positions (GraderPayout g) rs"
      "length rs = length (candidates lx c (base_of g))"
      "BlockWinners b = (if length rs < GraderWinnerAmount g then []
         else take (GraderWinnerAmount g) (set_positions (GraderPayout g) rs))"
      using GradeCustom_many [OF hyps] assms(6) by (fastforce simp: Graded_def)
    have "map payout (set_positions (GraderPayout g) rs) = map (\<lambda>i. GraderPayout g (int i)) [0..<length rs]"
      by (intro nth_equalityI) (simp_all add: nth_set_positions)
    then have "(\<Sum>x\<leftarrow>Graded b. payout x) = block_reward g"
      using payout_total [of g "length rs"] False rs(1,2) by simp
    with rs False show ?thesis by (simp add: nth_set_positions)
  qed
qed

lemma sample_WinnerAmount: "GraderWinnerAmount (sample_grader n) = 10"
  by (simp add: sample_grader_def sample_with_def)

lemma sample_Graded_10:
  assumes "GradeCustom sample_lx (sample_grader 10) 50 = Inr b"
  shows "length (Graded b) = 10"
proof -
  have "mset (map base_record (Graded b)) = mset (candidates sample_lx 50 (base_of (sample_grader 10)))"
    using GradeCustom_Graded [OF reachable_hyps [OF sample_reachable [of 10] sample_lx_ok _ _ sample_small, of 50]]
      assms by auto
  from arg_cong [OF this, of size] show ?thesis using sample_candidates [of 10] by simp
qed

lemma Graded_payouts_witness:
  "\<exists>b. GradeCustom sample_lx (sample_grader 10) 50 = Inr b \<and> (\<Sum>x\<leftarrow>Graded b. payout x) = 500000000000"
proof -
  obtain b where b: "GradeCustom sample_lx (sample_grader 10) 50 = Inr b"
    using sample_GradeCustom by blast
  then show ?thesis
    using Graded_payouts [OF sample_reachable [of 10] sample_lx_ok _ _ sample_small b] sample_Graded_10 [OF b]
    by (simp add: sample_grader_def sample_with_def block_reward_def)
qed

text \<open>
  C3. The ranking is an elimination: for every place from the last graded one down to the tenth
  (V1) or the first (later versions), the record there had, when the records at the places up to it
  were graded against their own averages, a grade that none of them exceeded.
\<close>

theorem Graded_elimination:
  assumes "reachable json g" "lx_ok lx" "1 \<le> c" "c \<le> 2 ^ 50"
    "\<forall>x \<in> set (oprs (base_of g)). small_prices x" "GradeCustom lx g c = Inr b"
    "GraderWinnerAmount g \<le> length (Graded b)" "last_round g \<le> i" "i \<le> length (Graded b)"
  shows "worst_of_round g i (Graded b)"
proof -
  note hyps = reachable_hyps [OF assms(1-5)]
  have few: "\<not> length (candidates lx c (base_of g)) < GraderWinnerAmount g"
    using GradeCustom_few [OF hyps] assms(6,7) by (auto simp: Graded_def)
  then obtain rs where "Graded b = set_positions (GraderPayout g) rs"
    "\<forall>i. last_round g \<le> i \<longrightarrow> i \<le> length rs \<longrightarrow> worst_of_round g i (set_positions (GraderPayout g) rs)"
    using GradeCustom_many [OF hyps] assms(6) by (fastforce simp: Graded_def)
  with assms(8,9) show ?thesis by simp
qed

lemma Graded_elimination_witness:
  "\<exists>b. GradeCustom sample_lx (sample_grader 10) 50 = Inr b \<and> worst_of_round (sample_grader 10) 10 (Graded b)"
proof -
  obtain b where b: "GradeCustom sample_lx (sample_grader 10) 50 = Inr b"
    using sample_GradeCustom by blast
  then show ?thesis
    using Graded_elimination [OF sample_reachable [of 10] sample_lx_ok _ _ sample_small b] sample_Graded_10 [OF b]
    by (simp add: sample_grader_def sample_with_def)
qed


lemma verifyWinnerFormat_hashes:
  assumes "\<forall>s \<in> set hs. length s = 16 \<and> valid_hex s" "length hs = k" "0 < k"
  shows "verifyWinnerFormat hs k"
  using assms by (auto simp: verifyWinnerFormat_def list_all_iff Let_def)

lemma NewGrader_accepts:
  assumes "k \<in> winner_formats g" "verifyWinnerFormat ws k" "0 \<le> sint h"
  shows "\<exists>g'. NewGrader (Version g) h ws = Inr g'"
proof -
  have "k \<noteq> 0" using assms(1) by (cases g) auto
  then have "ws \<noteq> []" using verifyWinnerFormat_length [OF assms(2)] by auto
  then show ?thesis using assms by (cases g) (auto simp: NewGrader_def)
qed

text \<open>
  C11. The chain of winners never breaks within a version: the short hashes of a graded block are
  winners that \<open>NewGrader\<close> accepts for the same version at every later height; ten of them in V1,
  and 25 in the later versions if there were enough records.
\<close>

theorem Winners_chain:
  assumes "reachable json g" "lx_ok lx" "1 \<le> c" "c \<le> 2 ^ 50"
    "\<forall>x \<in> set (oprs (base_of g)). small_prices x" "GradeCustom lx g c = Inr b" "0 \<le> sint h"
  shows "(\<exists>g'. NewGrader (BlockVersion b) h (WinnersShortHashes b) = Inr g')
    \<and> (GraderWinnerAmount g \<le> length (Graded b) \<longrightarrow>
        WinnersShortHashes b = map (\<lambda>x. hexEncode (take 8 (EntryHash x))) (BlockWinners b)
        \<and> verifyWinnerFormat (WinnersShortHashes b) (GraderWinnerAmount g))"
proof -
  note hyps = reachable_hyps [OF assms(1-5)]
  have ok: "grader_ok g" using hyps by (simp add: grading_hyps_def)
  show ?thesis
  proof (cases "length (candidates lx c (base_of g)) < GraderWinnerAmount g")
    case True
    with GradeCustom_few [OF hyps True] assms(6) have "BlockVersion b = Version g"
      "WinnersShortHashes b = PreviousWinners g" "length (Graded b) < GraderWinnerAmount g"
      by (auto simp: Graded_def WinnersShortHashes_def)
    with ok NewGrader_accepts [of _ g "PreviousWinners g" h] assms(7) show ?thesis
      by (auto simp: grader_ok_def)
  next
    case False
    let ?W = "GraderWinnerAmount g" and ?hash = "\<lambda>x. hexEncode (take 8 (EntryHash x))"
    obtain rs where rs: "Graded b = set_positions (GraderPayout g) rs" "BlockVersion b = Version g"
      "length rs = length (candidates lx c (base_of g))" "WinnersShortHashes b = map ?hash (take ?W rs)"
      "BlockWinners b = take ?W (set_positions (GraderPayout g) rs)"
      "mset (map base_record rs) = mset (candidates lx c (base_of g))"
      using GradeCustom_many [OF hyps] assms(6) False by (fastforce simp: Graded_def WinnersShortHashes_def)
    have W: "0 < ?W" "?W \<in> winner_formats g" by (cases g; simp)+
    have "length (EntryHash x) = 32" if "x \<in> set rs" for x
    proof -
      have "base_record x \<in> set (candidates lx c (base_of g))"
        using that rs(6) by (metis image_eqI set_map set_mset_mset)
      from candidates_records(1) [OF ok this] show ?thesis by (simp add: base_record_def)
    qed
    then have "verifyWinnerFormat (WinnersShortHashes b) ?W"
      unfolding rs(4) using W(1) rs(3) False
      by (intro verifyWinnerFormat_hashes) (auto simp: len_simps dest!: in_set_takeD)
    moreover have "map ?hash (BlockWinners b) = WinnersShortHashes b"
      by (simp add: rs take_set_positions map_set_positions)
    ultimately show ?thesis
      using rs(2) W(2) NewGrader_accepts [of ?W g] assms(7) by auto
  qed
qed

lemma Winners_chain_witness:
  "\<exists>b. GradeCustom sample_lx (sample_grader 10) 50 = Inr b \<and> verifyWinnerFormat (WinnersShortHashes b) 10
    \<and> (\<exists>g'. NewGrader (BlockVersion b) 2 (WinnersShortHashes b) = Inr g')"
proof -
  obtain b where b: "GradeCustom sample_lx (sample_grader 10) 50 = Inr b"
    using sample_GradeCustom by blast
  then show ?thesis
    using Winners_chain [OF sample_reachable [of 10] sample_lx_ok _ _ sample_small b, of 2] sample_Graded_10 [OF b]
    by (auto simp: sample_WinnerAmount)
qed

fun with_records :: "BlockGrader \<Rightarrow> GradingOPR list \<Rightarrow> BlockGrader" where
  "with_records (V1BlockGrader v) xs = V1BlockGrader (v\<lparr>oprs := xs\<rparr>)"
| "with_records (V2BlockGrader v) xs = V2BlockGrader (v\<lparr>oprs := xs\<rparr>)"
| "with_records (V3BlockGrader v) xs = V3BlockGrader (v\<lparr>oprs := xs\<rparr>)"
| "with_records (V4BlockGrader v) xs = V4BlockGrader (v\<lparr>oprs := xs\<rparr>)"
| "with_records (V5BlockGrader v) xs = V5BlockGrader (v\<lparr>oprs := xs\<rparr>)"

lemma sortByDifficulty_order:
  assumes "mset xs = mset ys" "distinct (map opr_id ys)" "inj_on SelfReportedDifficulty (set ys)"
  shows "sortByDifficulty lx c (filterDuplicates (new_block (v\<lparr>oprs := xs\<rparr>) c))
    = sortByDifficulty lx c (filterDuplicates (new_block (v\<lparr>oprs := ys\<rparr>) c))"
proof -
  have m: "mset (map GradingOPR_Clone xs) = mset (map GradingOPR_Clone ys)" using assms(1) by simp
  have ids: "map opr_id (map GradingOPR_Clone zs) = map opr_id zs" for zs by simp
  have "mset (map opr_id xs) = mset (map opr_id ys)" using assms(1) by simp
  then have "distinct (map opr_id xs)" using assms(2) mset_eq_imp_distinct_iff by blast
  then have d: "filter_dups {} (map GradingOPR_Clone xs) = map GradingOPR_Clone xs"
    "filter_dups {} (map GradingOPR_Clone ys) = map GradingOPR_Clone ys"
    using assms(2) by (intro filter_dups_id; simp only: ids; simp)+
  have set: "set xs = set ys" using assms(1) by (rule mset_eq_setD)
  have "inj_on difficulty_order (set (map GradingOPR_Clone xs))"
  proof (rule inj_onI)
    fix a b assume ab: "a \<in> set (map GradingOPR_Clone xs)" "b \<in> set (map GradingOPR_Clone xs)"
      "difficulty_order a = difficulty_order b"
    then obtain x y where xy: "x \<in> set ys" "a = GradingOPR_Clone x" "y \<in> set ys" "b = GradingOPR_Clone y"
      using set by auto
    have "uint (SelfReportedDifficulty a) = uint (SelfReportedDifficulty b)"
      using ab(3) by (simp add: difficulty_order_def)
    then have "SelfReportedDifficulty x = SelfReportedDifficulty y"
      unfolding xy(2,4) Clone_sels by (rule word_uint_eqI)
    with inj_onD [OF assms(3)] xy show "a = b" by blast
  qed
  then have "sort_stable more_difficult (map GradingOPR_Clone xs) = sort_stable more_difficult (map GradingOPR_Clone ys)"
    unfolding sort_more_difficult by (intro sort_key_perm_unique m)
  moreover have "length xs = length ys" using assms(1) by (metis size_mset)
  ultimately show ?thesis
    by (simp add: sortByDifficulty_def filterDuplicates_def new_block_def cloneOPRS_def d)
qed

text \<open>
  C12. The order in which records are added does not matter, for any version and hash function, as
  long as no two of them report the same difficulty or have the same nonce and content.
\<close>

theorem Grade_order_independent:
  assumes "mset xs = mset ys" "distinct (map opr_id ys)" "inj_on SelfReportedDifficulty (set ys)"
  shows "GradeCustom lx (with_records g xs) c = GradeCustom lx (with_records g ys) c"
  using sortByDifficulty_order [OF assms]
  by (cases g) (simp_all add: V1_GradeCustom_def V2_GradeCustom_def V5_GradeCustom_def cong: if_cong)

lemma Grade_order_independent_witness:
  "GradeCustom sample_lx (with_records (sample_grader 0) [sample_record 1 5, sample_record 2 6]) 50
   = GradeCustom sample_lx (with_records (sample_grader 0) [sample_record 2 6, sample_record 1 5]) 50"
  by (rule Grade_order_independent)
    (simp_all add: opr_id_def sample_record_def accepted_def sample_ext_def big_endian_def)

text \<open>
  With a duplicate the order does matter, and an honest record can be suppressed: a copy of its
  nonce and content with a false difficulty, added first, makes \<open>filterDuplicates\<close> drop the honest
  one, after which \<open>sortByDifficulty\<close> drops the copy.
\<close>

theorem duplicate_suppresses:
  "reachable (\<lambda>_. Inr sample_v1) (sample_with [sample_record 1 9, sample_record 1 5])
   \<and> honest sample_lx (sample_record 1 5)
   \<and> (\<exists>b. GradeCustom sample_lx (sample_with [sample_record 1 9, sample_record 1 5]) 50 = Inr b \<and> Graded b = [])
   \<and> (\<exists>b. GradeCustom sample_lx (sample_with [sample_record 1 5, sample_record 1 9]) 50 = Inr b
        \<and> Graded b = [GradingOPR_Clone (sample_record 1 5)])"
proof -
  have empty: "reachable (\<lambda>_. Inr sample_v1) (sample_with [])"
    using sample_reachable [of 0] by (simp add: sample_grader_def)
  have add: "reachable (\<lambda>_. Inr sample_v1) (sample_with (rs @ [sample_record i d]))"
    if "reachable (\<lambda>_. Inr sample_v1) (sample_with rs)" for rs i d
    using reachable.add [OF that sample_Add] .
  have both: "reachable (\<lambda>_. Inr sample_v1) (sample_with [sample_record 1 d, sample_record 1 e])" for d e
    using add [OF add [OF empty, of 1 d], of 1 e] by simp
  have small: "\<forall>x \<in> set (oprs (base_of (sample_with [sample_record 1 d, sample_record 1 e]))). small_prices x" for d e
    by (auto simp: sample_with_def sample_record_def accepted_def small_prices_def bounded_price_def
        sample_v1_def asset_at_def list_all_iff pow2_def)
  have dup: "opr_id (sample_record 1 d) = opr_id (sample_record 1 e)" for d e
    by (simp add: opr_id_def sample_record_def accepted_def sample_ext_def)
  have cand: "candidates sample_lx 50 (base_of (sample_with [sample_record 1 d, sample_record 1 e]))
      = (if d = 5 then [GradingOPR_Clone (sample_record 1 d)] else [])" for d e
    using dup [of e d]
    by (simp add: candidates_Clone top_honest_def sample_with_def opr_id_def sample_honest Let_def)
  have "\<exists>b. GradeCustom sample_lx (sample_with [sample_record 1 d, sample_record 1 e]) 50 = Inr b
      \<and> Graded b = (if d = 5 then [GradingOPR_Clone (sample_record 1 d)] else [])" for d e
  proof -
    let ?g = "sample_with [sample_record 1 d, sample_record 1 e]"
    have "length (candidates sample_lx 50 (base_of ?g)) < 10" by (simp only: cand) simp
    moreover have "GraderWinnerAmount ?g = 10" by (simp add: sample_with_def)
    ultimately have few: "length (candidates sample_lx 50 (base_of ?g)) < GraderWinnerAmount ?g" by simp
    have "grading_hyps sample_lx ?g 50" by (rule reachable_hyps [OF both sample_lx_ok _ _ small]) simp_all
    from GradeCustom_few [OF this few] show ?thesis
      unfolding cand by (intro exI conjI) (assumption, simp add: Graded_def)
  qed
  from this [of 9 5] this [of 5 9] both [of 9 5] show ?thesis by (simp add: sample_honest)
qed

end
