(* ===== verification/TransactionId.thy ===== *)
theory TransactionId
  imports Prelude "HOL-Library.Product_Lexorder"
begin

text \<open>
  modules/transactionid/txid.go: transaction identifiers of the form \<open>[TxIndex]-[BatchHash]\<close>,
  their validation, formatting and sorting, with the parts of package strconv and fmt they use.
\<close>

section \<open>strconv.ParseInt(s, 10, 32) and strings.Split(s, "-")\<close>

definition digit_val :: "char \<Rightarrow> nat option" where
  "digit_val c = (let n = of_char c :: nat in if 48 \<le> n \<and> n \<le> 57 then Some (n - 48) else None)"

fun parse_digits :: "string \<Rightarrow> int \<Rightarrow> int option" where
  "parse_digits [] acc = Some acc"
| "parse_digits (c # cs) acc = (case digit_val c of
      None \<Rightarrow> None
    | Some d \<Rightarrow> parse_digits cs (acc * 10 + int d))"

text \<open>An optional sign, at least one digit, and a value of the given width.\<close>

definition parse_int32 :: "string \<Rightarrow> int option" where
  "parse_int32 s = (let (neg, ds) = (case s of
       c # cs \<Rightarrow> if c = CHR ''-'' then (True, cs) else if c = CHR ''+'' then (False, cs) else (False, s)
     | [] \<Rightarrow> (False, s))
   in if ds = [] then None
      else case parse_digits ds 0 of
        None \<Rightarrow> None
      | Some n \<Rightarrow> let v = (if neg then - n else n) in
          if - (2 ^ 31) \<le> v \<and> v < 2 ^ 31 then Some v else None)"

fun split_dash :: "string \<Rightarrow> string list" where
  "split_dash [] = [[]]"
| "split_dash (c # cs) = (if c = CHR ''-'' then [] # split_dash cs
     else case split_dash cs of (x # xs) \<Rightarrow> (c # x) # xs | [] \<Rightarrow> [[c]])"

section \<open>Splitting and verifying\<close>

text \<open>
  The three results of the Go functions are the index, the batch hash and the error; on an error
  the first two are \<open>-1\<close> and the empty string, which \<open>SortTxIDS\<close> relies on.
\<close>

definition SplitTxID :: "string \<Rightarrow> int \<times> string \<times> go_error option" where
  "SplitTxID txid = (case split_dash txid of
     [i, h] \<Rightarrow>
       (case parse_int32 i of
          None \<Rightarrow> (- 1, [], Some (GoError ''index must be a valid integer''))
        | Some txIndex \<Rightarrow>
            if length h \<noteq> 64
            then (- 1, [], Some (GoError ''hash must be 32 bytes (64 hex characters)''))
            else if \<not> valid_hex h
            then (- 1, [], Some (GoError ''hash must be a valid hex string''))
            else (txIndex, h, None))
   | _ \<Rightarrow> (- 1, [], Some (GoError
       ''txid does not match txid format, format: [TxIndex]-[EntryHash]'')))"

definition VerifyTransactionHash :: "string \<Rightarrow> int \<times> string \<times> go_error option" where
  "VerifyTransactionHash hash =
     (if length hash = 64
      then (case hexDecode hash of Inl e \<Rightarrow> (- 1, [], Some e) | Inr _ \<Rightarrow> (- 1, hash, None))
      else SplitTxID hash)"

section \<open>Formatting\<close>

text \<open>
  \<open>fmt.Sprintf("%0<pad>d-%s", index, hash)\<close>: zero padding to the width, after the sign. A negative
  \<open>pad\<close> prints as a minus flag, which pads with spaces on the right.
\<close>

definition DefaultPad :: int where
  "DefaultPad = 1"

definition pad_int :: "int \<Rightarrow> int \<Rightarrow> string" where
  "pad_int pad i = (let s = itoa i; w = nat \<bar>pad\<bar> in
     if pad < 0 then s @ replicate (w - length s) CHR '' ''
     else if i < 0 then CHR ''-'' # replicate (w - length s) CHR ''0'' @ tl s
     else replicate (w - length s) CHR ''0'' @ s)"

definition FormatTxIDWithPad :: "int \<Rightarrow> int \<Rightarrow> string \<Rightarrow> string" where
  "FormatTxIDWithPad pad i hash = pad_int pad i @ [CHR ''-''] @ hash"

definition FormatTxID :: "int \<Rightarrow> string \<Rightarrow> string" where
  "FormatTxID i hash = FormatTxIDWithPad DefaultPad i hash"

section \<open>Sorting\<close>

definition txid_less :: "string \<Rightarrow> string \<Rightarrow> bool" where
  "txid_less a b = (case (SplitTxID a, SplitTxID b) of
     ((idxI, hI, _), (idxJ, hJ, _)) \<Rightarrow> if hI \<noteq> hJ then hI < hJ else idxI < idxJ)"

definition SortTxIDS :: "string list \<Rightarrow> string list" where
  "SortTxIDS txids = sort_stable txid_less txids"

section \<open>The order of \<open>SortTxIDS\<close>\<close>

text \<open>Batch hash first, then index; an identifier that does not split has the least key.\<close>

definition txid_key :: "string \<Rightarrow> string \<times> int" where
  "txid_key t = (fst (snd (SplitTxID t)), fst (SplitTxID t))"

lemma txid_less_key: "txid_less a b \<longleftrightarrow> txid_key a < txid_key b"
  by (auto simp: txid_less_def txid_key_def less_prod_def' split: prod.splits)

lemma SortTxIDS_sort_key: "SortTxIDS ts = sort_key txid_key ts"
  unfolding SortTxIDS_def by (rule sort_stable_sort_key) (simp add: txid_less_key)

lemma SortTxIDS_hd_le:
  assumes "ts \<noteq> []" "u \<in> set ts"
  shows "hd (SortTxIDS ts) \<in> set ts \<and> txid_key (hd (SortTxIDS ts)) \<le> txid_key u"
proof -
  obtain t rest where s: "sort_key txid_key ts = t # rest"
    using assms(1) by (metis length_0_conv length_sort list.exhaust)
  moreover have "sorted (map txid_key (t # rest))"
    using sorted_sort_key [of txid_key ts] s by simp
  moreover have "set ts = set (t # rest)"
    using s by (metis set_sort)
  ultimately show ?thesis
    using assms(2) by (auto simp: SortTxIDS_sort_key)
qed

section \<open>Parsing what was printed\<close>

lemma digit_val_digit: "n < 10 \<Longrightarrow> digit_val (''0123456789'' ! n) = Some n"
proof -
  have "list_all (\<lambda>n. digit_val (''0123456789'' ! n) = Some n) [0..<10]"
    by code_simp
  then show "n < 10 \<Longrightarrow> digit_val (''0123456789'' ! n) = Some n"
    by (simp add: list_all_iff)
qed

lemma parse_digits_append:
  "parse_digits (xs @ ys) a = (case parse_digits xs a of None \<Rightarrow> None | Some b \<Rightarrow> parse_digits ys b)"
  by (induction xs arbitrary: a) (simp_all split: option.split)

lemma parse_nat_digits:
  "parse_digits (nat_digits n) a = Some (a * 10 ^ length (nat_digits n) + int n)"
proof (induction n arbitrary: a rule: nat_digits.induct)
  case (1 n)
  show ?case
  proof (cases "n < 10")
    case True
    then show ?thesis
      by (simp add: nat_digits.simps [of n] digit_val_digit)
  next
    case False
    then have "parse_digits (nat_digits n) a
        = Some ((a * 10 ^ length (nat_digits (n div 10)) + int (n div 10)) * 10 + int (n mod 10))"
      using 1 by (simp add: nat_digits.simps [of n] parse_digits_append digit_val_digit)
    also have "int (n div 10) * 10 + int (n mod 10) = int n"
      by presburger
    then have "(a * 10 ^ length (nat_digits (n div 10)) + int (n div 10)) * 10 + int (n mod 10)
        = a * 10 ^ length (nat_digits n) + int n"
      using False by (simp add: nat_digits.simps [of n] algebra_simps)
    finally show ?thesis .
  qed
qed

lemma parse_zeros: "parse_digits (replicate k CHR ''0'' @ ds) 0 = parse_digits ds 0"
  by (induction k) (simp_all add: digit_val_def)

lemma nat_digits_chars: "c \<in> set (nat_digits n) \<Longrightarrow> digit_val c \<noteq> None"
proof (induction n rule: nat_digits.induct)
  case (1 n)
  then show ?case
    by (cases "n < 10") (auto simp: nat_digits.simps [of n] digit_val_digit)
qed

lemma nat_digits_not_Nil [simp]: "nat_digits n \<noteq> []"
  by (simp add: nat_digits.simps [of n])

lemma digit_not_sign: "digit_val c \<noteq> None \<Longrightarrow> c \<noteq> CHR ''-'' \<and> c \<noteq> CHR ''+''"
  by (auto simp: digit_val_def)

lemma parse_int32_unsigned:
  assumes "ds \<noteq> []" "\<And>c. c \<in> set ds \<Longrightarrow> digit_val c \<noteq> None" "parse_digits ds 0 = Some n" "n < 2 ^ 31" "0 \<le> n"
  shows "parse_int32 ds = Some n"
proof -
  obtain c cs where ds: "ds = c # cs" using assms(1) by (cases ds) auto
  then have "c \<noteq> CHR ''-''" "c \<noteq> CHR ''+''"
    using assms(2) [of c] digit_not_sign [of c] by auto
  with assms ds show ?thesis
    by (simp add: parse_int32_def)
qed

lemma split_dash_no_dash:
  assumes "CHR ''-'' \<notin> set xs"
  shows "split_dash xs = [xs]" "split_dash (xs @ CHR ''-'' # ys) = xs # split_dash ys"
  using assms by (induction xs) auto

lemma valid_hex_no_dash: "valid_hex h \<Longrightarrow> CHR ''-'' \<notin> set h"
proof -
  have unhex: "unhex (CHR ''-'') = None" by (simp add: unhex_def)
  have "hexDecode h = Inr bs \<Longrightarrow> CHR ''-'' \<notin> set h" for bs
  proof (induction h arbitrary: bs rule: hexDecode.induct)
    case (3 a b cs)
    then show ?case
      by (cases "hexDecode cs") (auto simp: unhex res_simps split: option.splits)
  qed (auto split: option.splits)
  then show "valid_hex h \<Longrightarrow> CHR ''-'' \<notin> set h"
    by (auto simp: valid_hex_def split: sum.splits)
qed

lemma SplitTxID_FormatTxIDWithPad:
  assumes "0 \<le> i" "i < 2 ^ 31" "length h = 64" "valid_hex h" "0 \<le> pad"
  shows "SplitTxID (FormatTxIDWithPad pad i h) = (i, h, None)"
proof -
  let ?p = "pad_int pad i"
  have p: "?p = replicate (nat pad - length (nat_digits (nat i))) CHR ''0'' @ nat_digits (nat i)"
    using assms by (simp add: pad_int_def itoa_def Let_def)
  have digits: "\<And>c. c \<in> set ?p \<Longrightarrow> digit_val c \<noteq> None"
    unfolding p using nat_digits_chars by (auto simp: digit_val_def)
  have "parse_digits ?p 0 = Some i"
    unfolding p using assms(1) by (simp add: parse_zeros parse_nat_digits)
  moreover have "?p \<noteq> []" unfolding p by simp
  ultimately have "parse_int32 ?p = Some i"
    using digits assms by (intro parse_int32_unsigned) auto
  moreover have "CHR ''-'' \<notin> set ?p"
    using digits digit_not_sign by blast
  then have "split_dash (FormatTxIDWithPad pad i h) = [?p, h]"
    using valid_hex_no_dash [OF assms(4)]
    by (simp add: FormatTxIDWithPad_def split_dash_no_dash)
  ultimately show ?thesis
    using assms by (simp add: SplitTxID_def)
qed

section \<open>What an identifier that splits is\<close>

lemma parse_digits_nonneg: "parse_digits ds a = Some n \<Longrightarrow> 0 \<le> a \<Longrightarrow> 0 \<le> n"
  by (induction ds arbitrary: a) (auto split: option.splits)

lemma split_dash_parts: "s \<in> set (split_dash t) \<Longrightarrow> CHR ''-'' \<notin> set s"
  by (induction t arbitrary: s) (auto split: if_splits list.splits)

lemma parse_int32_bounds: "parse_int32 s = Some i \<Longrightarrow> CHR ''-'' \<notin> set s \<Longrightarrow> 0 \<le> i \<and> i < 2 ^ 31"
  using parse_digits_nonneg
  by (fastforce simp: parse_int32_def Let_def split: list.splits if_splits option.splits)

lemma SplitTxID_None:
  assumes "SplitTxID t = (i, h, None)"
  shows "0 \<le> i \<and> i < 2 ^ 31 \<and> length h = 64 \<and> valid_hex h"
proof -
  obtain x where x: "split_dash t = [x, h]" "parse_int32 x = Some i" "length h = 64" "valid_hex h"
    using assms by (auto simp: SplitTxID_def split: list.splits option.splits if_splits)
  moreover have "CHR ''-'' \<notin> set x" using split_dash_parts [of x t] x(1) by simp
  ultimately show ?thesis using parse_int32_bounds by blast
qed

text \<open>
  Every identifier that splits has a canonical form: its index is a non-negative 32-bit number
  and its hash 64 hexadecimal digits, and printing them with any padding gives an identifier that
  splits into the same two.
\<close>

theorem TxID_canonical:
  assumes "SplitTxID t = (i, h, None)" "0 \<le> pad"
  shows "0 \<le> i \<and> i < 2 ^ 31 \<and> length h = 64 \<and> valid_hex h
    \<and> SplitTxID (FormatTxIDWithPad pad i h) = (i, h, None)
    \<and> VerifyTransactionHash (FormatTxID i h) = (i, h, None)"
proof -
  have b: "0 \<le> i" "i < 2 ^ 31" "length h = 64" "valid_hex h" using SplitTxID_None [OF assms(1)] by auto
  have "length (FormatTxID i h) \<noteq> 64" using b by (simp add: FormatTxID_def FormatTxIDWithPad_def)
  then show ?thesis
    using b SplitTxID_FormatTxIDWithPad [OF b assms(2)] SplitTxID_FormatTxIDWithPad [OF b, of DefaultPad]
    by (simp add: VerifyTransactionHash_def FormatTxID_def DefaultPad_def)
qed

lemma TxID_canonical_witness:
  "SplitTxID (FormatTxIDWithPad 4 7 (replicate 64 CHR ''a'')) = (7, replicate 64 CHR ''a'', None)"
proof -
  have "SplitTxID (''+007-'' @ replicate 64 CHR ''a'') = (7, replicate 64 CHR ''a'', None)" by code_simp
  from TxID_canonical [OF this, of 4] show ?thesis by simp
qed

end
