(* ===== verification/Conversions.thy ===== *)
theory Conversions
  imports TransactionId
begin

text \<open>
  modules/conversions: converting between assets at given rates, and the per-block limit on
  conversions into PEG. \<open>big.Int\<close> values are \<open>int\<close>, \<open>uint64\<close> amounts are 64-bit words, \<open>int64\<close>
  amounts are \<open>int\<close> with the wrap-around of their subtraction written out.
\<close>

section \<open>conversions.go\<close>

definition Convert :: "int \<Rightarrow> u64 \<Rightarrow> u64 \<Rightarrow> int res" where
  "Convert amount fromRate toRate =
     guard_res (amount < 0) (GoError ''invalid amount: must be greater than or equal to zero'')
     (guard_res (fromRate = 0 \<or> toRate = 0) (GoError ''invalid rate: 0'')
     (let num = (amount * uint fromRate) div uint toRate in
      guard_res (\<not> (- (2 ^ 63) \<le> num \<and> num < 2 ^ 63)) (GoError ''integer overflow'') (Inr num)))"

section \<open>conversionlimit.go\<close>

definition PerBlock :: u64 where "PerBlock = 5000 * 100000000"
definition PerBlockMiners :: int where "PerBlockMiners = 5000 * 100000000"
definition PerBlockPastMiners :: int where "PerBlockPastMiners = 4000 * 100000000"
definition PerBlockAssetHolders :: int where "PerBlockAssetHolders = 4500 * 100000000"
definition PerBlockStakers :: int where "PerBlockStakers = 4500 * 100000000"
definition PerBlockDevelopers :: int where "PerBlockDevelopers = 2000 * 100000000"

definition PerBlockPegNet2 :: u64 where
  "PerBlockPegNet2 = word_of_int (PerBlockMiners + PerBlockPastMiners + PerBlockAssetHolders
     + PerBlockStakers + PerBlockDevelopers)"

text \<open>
  The requests are a Go map; it is kept as the association list of its entries, with distinct
  keys. Go iterates a map in an arbitrary order, so \<open>Payouts\<close> takes the order of the iteration
  whose order matters as an argument.
\<close>

record ConversionSupplySet =
  Bank :: u64
  ConversionRequests :: "(string \<times> u64) list"
  totalRequested :: int

definition NewConversionSupply :: "u64 \<Rightarrow> ConversionSupplySet" where
  "NewConversionSupply bank = \<lparr>Bank = bank, ConversionRequests = [], totalRequested = 0\<rparr>"

definition AddConversion ::
  "ConversionSupplySet \<Rightarrow> string \<Rightarrow> u64 \<Rightarrow> ConversionSupplySet res" where
  "AddConversion s txid pegAmt = (case VerifyTransactionHash txid of
     (_, _, Some err) \<Rightarrow> Inl err
   | (_, _, None) \<Rightarrow>
       guard_res (map_of (ConversionRequests s) txid \<noteq> None)
         (GoError ''txid already exists in the this set'')
         (Inr (s\<lparr>ConversionRequests := ConversionRequests s @ [(txid, pegAmt)],
                 totalRequested := totalRequested s + uint pegAmt\<rparr>)))"

definition TotalRequested :: "ConversionSupplySet \<Rightarrow> u64" where
  "TotalRequested s = word_of_int (totalRequested s)"

definition is_uint64 :: "int \<Rightarrow> bool" where
  "is_uint64 x \<longleftrightarrow> 0 \<le> x \<and> x < 2 ^ 64"

definition PayoutBig :: "u64 \<Rightarrow> u64 \<Rightarrow> int \<Rightarrow> u64" where
  "PayoutBig requested bank totalReq =
     (if requested = 0 \<or> bank = 0 \<or> (is_uint64 totalReq \<and> (word_of_int totalReq :: u64) = 0) then 0
      else word_of_int ((uint requested * uint bank) div totalReq))"

definition Payout :: "u64 \<Rightarrow> u64 \<Rightarrow> u64 \<Rightarrow> u64" where
  "Payout requested bank totalReq = PayoutBig requested bank (uint totalReq)"

text \<open>The loop that finds the highest request, over the entries in the order they are iterated.\<close>

fun top_requests :: "(string \<times> u64) list \<Rightarrow> u64 \<Rightarrow> string list \<Rightarrow> string list" where
  "top_requests [] most tops = tops"
| "top_requests ((txid, amt) # rest) most tops =
     (if most < amt then top_requests rest amt [txid]
      else if amt = most then top_requests rest most (tops @ [txid])
      else top_requests rest most tops)"

definition add_dust :: "string \<Rightarrow> u64 \<Rightarrow> (string \<times> u64) list \<Rightarrow> (string \<times> u64) list" where
  "add_dust t dust payouts = map (\<lambda>(txid, p). (txid, if txid = t then p + dust else p)) payouts"

definition Payouts ::
  "(string \<times> u64) list \<Rightarrow> ConversionSupplySet \<Rightarrow> (string \<times> u64) list res" where
  "Payouts order s =
     (if length (ConversionRequests s) = 0 then Inr []
      else if is_uint64 (totalRequested s) \<and> (word_of_int (totalRequested s) :: u64) < Bank s
      then Inr (ConversionRequests s)
      else let
        payouts = map (\<lambda>(txid, c). (txid, PayoutBig c (Bank s) (totalRequested s)))
          (ConversionRequests s);
        totalPaid = sum_list (map snd payouts);
        dust = Bank s - totalPaid;
        tops = top_requests order 0 []
        in case (if length tops = 1 then tops else SortTxIDS tops) of
             [] \<Rightarrow> Inl (Panic ''index out of range'')
           | t # _ \<Rightarrow> Inr (add_dust t dust payouts))"

text \<open>\<open>Refund\<close> ignores the errors of \<open>Convert\<close>, whose value is then 0.\<close>

definition ignore_err :: "int res \<Rightarrow> int" where
  "ignore_err r = (case r of Inl _ \<Rightarrow> 0 | Inr x \<Rightarrow> x)"

definition Refund :: "int \<Rightarrow> int \<Rightarrow> u64 \<Rightarrow> u64 \<Rightarrow> int" where
  "Refund inputAmount pegYield inputRate pegRate = (let
     maxPEGYield = ignore_err (Convert inputAmount inputRate pegRate);
     refundPEG = wrap64 (maxPEGYield - pegYield)
     in ignore_err (Convert refundPEG pegRate inputRate))"

section \<open>Convert and Refund\<close>

lemma Convert_Inr_iff:
  "Convert x a b = Inr y \<longleftrightarrow>
     0 \<le> x \<and> a \<noteq> 0 \<and> b \<noteq> 0 \<and> y = (x * uint a) div uint b \<and> y < 2 ^ 63"
proof -
  have "0 \<le> (x * uint a) div uint b" if "0 \<le> x" "b \<noteq> 0"
    using that by (simp add: pos_imp_zdiv_nonneg_iff word_neq_0_conv uint_0_iff order_neq_le_trans)
  then show ?thesis
    by (auto simp: Convert_def res_simps Let_def)
qed

lemma uint_pos: "(u :: u64) \<noteq> 0 \<Longrightarrow> 0 < uint u"
  by (simp add: order_neq_le_trans uint_0_iff)

lemma Convert_bounds:
  assumes "Convert x a b = Inr y"
  shows "0 \<le> y \<and> y * uint b \<le> x * uint a \<and> x * uint a < (y + 1) * uint b"
proof -
  from assms have x: "0 \<le> x" "0 < uint b" "y = (x * uint a) div uint b"
    by (auto simp: Convert_Inr_iff uint_pos)
  have "y * uint b + (x * uint a) mod uint b = x * uint a"
    unfolding x(3) by simp
  moreover have "0 \<le> (x * uint a) mod uint b" "(x * uint a) mod uint b < uint b"
    using x(2) by simp_all
  moreover have "0 \<le> y"
    using x by (simp add: pos_imp_zdiv_nonneg_iff)
  ultimately show ?thesis by (simp add: algebra_simps)
qed

text \<open>Converting forth and back never gains anything.\<close>

lemma Convert_back_le:
  assumes "Convert x a b = Inr y" "Convert z b a = Inr w" "z \<le> y"
  shows "w \<le> x"
proof -
  have "0 < uint a"
    using assms(1) by (auto simp: Convert_Inr_iff uint_pos)
  have "w * uint a \<le> z * uint b"
    using Convert_bounds [OF assms(2)] by simp
  also have "\<dots> \<le> y * uint b"
    using assms(3) by (intro mult_right_mono) auto
  also have "\<dots> \<le> x * uint a"
    using Convert_bounds [OF assms(1)] by simp
  finally show ?thesis
    using \<open>0 < uint a\<close> by simp
qed

lemma ignore_err_nonneg: "0 \<le> ignore_err (Convert x a b)"
  using Convert_bounds [of x a b] by (auto simp: ignore_err_def split: sum.splits)

lemma Refund_le_input:
  assumes "0 \<le> x" "0 \<le> y" "y < 2 ^ 63"
  shows "0 \<le> Refund x y a b \<and> Refund x y a b \<le> x"
proof -
  define m where "m = ignore_err (Convert x a b)"
  have m: "0 \<le> m" "m < 2 ^ 63"
    using ignore_err_nonneg [of x a b] Convert_Inr_iff [of x a b]
    by (auto simp: m_def ignore_err_def split: sum.splits)
  have R: "Refund x y a b = ignore_err (Convert (m - y) b a)"
    using m assms by (simp add: Refund_def Let_def wrap64_id flip: m_def)
  have "ignore_err (Convert (m - y) b a) \<le> x"
  proof (cases "Convert (m - y) b a")
    case (Inr w)
    show ?thesis
    proof (cases "Convert x a b")
      case (Inr v)
      with \<open>Convert (m - y) b a = Inr w\<close> assms(2) show ?thesis
        by (auto simp: ignore_err_def m_def intro: Convert_back_le)
    next
      case (Inl e)
      then have "m = 0" by (simp add: m_def ignore_err_def)
      with Inr assms have "w = 0" by (auto simp: Convert_Inr_iff)
      with Inr assms(1) show ?thesis by (simp add: ignore_err_def)
    qed
  qed (simp add: ignore_err_def assms(1))
  then show ?thesis
    using R ignore_err_nonneg by simp
qed

section \<open>The supply set\<close>

definition req_total :: "(string \<times> u64) list \<Rightarrow> int" where
  "req_total rs = sum_list (map (\<lambda>(_, c). uint c) rs)"

definition supply_inv :: "ConversionSupplySet \<Rightarrow> bool" where
  "supply_inv s \<longleftrightarrow> distinct (map fst (ConversionRequests s))
     \<and> totalRequested s = req_total (ConversionRequests s)
     \<and> (\<forall>txid \<in> set (map fst (ConversionRequests s)).
           snd (snd (VerifyTransactionHash txid)) = None)"

lemma req_total_Nil [simp]: "req_total [] = 0"
  by (simp add: req_total_def)

lemma req_total_Cons [simp]: "req_total ((t, c) # rs) = uint c + req_total rs"
  by (simp add: req_total_def)

lemma req_total_append [simp]: "req_total (xs @ ys) = req_total xs + req_total ys"
  by (simp add: req_total_def)

lemma req_total_nonneg [simp]: "0 \<le> req_total rs"
  by (induction rs) auto

lemma req_total_member: "(t, c) \<in> set rs \<Longrightarrow> uint c \<le> req_total rs"
  by (induction rs) (auto intro: add_increasing2 add_increasing)

lemma supply_inv_New: "supply_inv (NewConversionSupply bank)"
  by (simp add: supply_inv_def NewConversionSupply_def)

lemma supply_inv_Add: "supply_inv s \<Longrightarrow> AddConversion s txid amt = Inr s' \<Longrightarrow> supply_inv s'"
  by (auto simp: AddConversion_def supply_inv_def res_simps map_of_eq_None_iff
      split: prod.splits option.splits)

section \<open>Payouts\<close>

lemma uint_lt2p_u64: "uint (u :: u64) < 2 ^ 64"
proof -
  have "uint u < 2 ^ LENGTH(64)" by (rule unsigned_less)
  then show ?thesis by simp
qed

lemma uint_sum_list_le:
  assumes "(\<Sum>w\<leftarrow>ws. uint w) < 2 ^ 64"
  shows "uint (sum_list ws :: u64) = (\<Sum>w\<leftarrow>ws. uint w)"
  using assms
proof (induction ws)
  case (Cons w ws)
  have nonneg: "0 \<le> (\<Sum>w\<leftarrow>ws. uint w)" by (rule sum_list_nonneg) auto
  have "(\<Sum>w\<leftarrow>ws. uint w) < 2 ^ 64"
    using Cons.prems by (simp add: add_nonneg_pos) (metis add_increasing le_less_trans order_refl uint_nonnegative)
  with Cons nonneg show ?case
    by (simp add: uint_word_ariths)
qed simp

lemma PayoutBig_uint:
  assumes "uint c \<le> t" "uint b \<le> t" "0 < t"
  shows "uint (PayoutBig c b t) = (uint c * uint b) div t"
proof (cases "c = 0 \<or> b = 0")
  case True
  then show ?thesis by (auto simp: PayoutBig_def)
next
  case False
  have t0: "\<not> (is_uint64 t \<and> (word_of_int t :: u64) = 0)"
    using assms(3) by (auto simp: is_uint64_def word_of_int_eq_0_iff zdvd_not_zless)
  have "(uint c * uint b) div t \<le> (t * uint b) div t"
    using assms by (intro zdiv_mono1 mult_right_mono) auto
  then have "(uint c * uint b) div t \<le> uint b"
    using assms(3) by simp
  then have "(uint c * uint b) div t < 2 ^ 64"
    using uint_lt2p_u64 [of b] by linarith
  moreover have "PayoutBig c b t = word_of_int ((uint c * uint b) div t)"
    using False t0 by (auto simp: PayoutBig_def)
  ultimately show ?thesis
    using assms(3) by (simp add: uint_word_of_int pos_imp_zdiv_nonneg_iff)
qed


text \<open>The loop returns the entries with the largest amount, in the order they are iterated.\<close>

lemma fold_max_ge: "m \<le> fold max xs (m :: 'a :: linorder)"
proof (induction xs arbitrary: m)
  case (Cons x xs)
  have "m \<le> max x m" by simp
  also have "\<dots> \<le> fold max xs (max x m)" by (rule Cons)
  finally show ?case by simp
qed simp

lemma top_requests_filter:
  "top_requests xs m ts = (let M = fold max (map snd xs) m in
     (if M = m then ts else []) @ map fst (filter (\<lambda>x. snd x = M) xs))"
proof (induction xs m ts rule: top_requests.induct)
  case (2 txid amt rest most tops)
  have ge: "amt \<le> fold max (map snd rest) amt" "most \<le> fold max (map snd rest) most"
    by (rule fold_max_ge)+
  consider "most < amt" | "amt = most" | "amt < most" by (rule linorder_cases [of most amt]) auto
  then show ?case
  proof cases
    case 1
    then have "max amt most = amt" by simp
    with 1 2 ge show ?thesis by (auto simp: Let_def)
  next
    case 2
    then show ?thesis using "2.IH"(2) ge by (auto simp: Let_def)
  next
    case 3
    then have "max amt most = most" by simp
    with 3 2 ge show ?thesis by (auto simp: Let_def)
  qed
qed simp

definition most_requested :: "(string \<times> u64) list \<Rightarrow> u64" where
  "most_requested rs = fold max (map snd rs) 0"

lemma top_requests_eq:
  "top_requests rs 0 [] = map fst (filter (\<lambda>x. snd x = most_requested rs) rs)"
  by (simp add: top_requests_filter most_requested_def Let_def)

lemma fold_max_word_Max: "fold max xs (m :: u64) = Max (insert m (set xs))"
  by (simp add: Max.set_eq_fold [of m xs, symmetric, simplified])

lemma most_requested_Max: "most_requested rs = Max (insert 0 (snd ` set rs))"
  by (simp add: most_requested_def fold_max_word_Max)

lemma top_requests_not_Nil:
  assumes "rs \<noteq> []" shows "top_requests rs 0 [] \<noteq> []"
proof -
  obtain t a rest where rs: "rs = (t, a) # rest" using assms by (cases rs) auto
  have "Max (insert 0 (snd ` set rs)) = Max (snd ` set rs)"
    using rs by (subst Max_insert) auto
  moreover have "Max (snd ` set rs) \<in> snd ` set rs"
    using rs by (intro Max_in) auto
  ultimately show ?thesis
    by (fastforce simp: top_requests_eq most_requested_Max filter_empty_conv)
qed

lemma mset_top_requests:
  assumes "mset xs = mset ys"
  shows "mset (top_requests xs 0 []) = mset (top_requests ys 0 [])"
proof -
  have "set xs = set ys" using assms by (metis set_mset_mset)
  then have "most_requested xs = most_requested ys" by (simp add: most_requested_Max)
  then show ?thesis using assms by (simp add: top_requests_eq mset_filter)
qed

text \<open>The requester that gets the dust: the least identifier among the largest requests.\<close>

definition dust_winner :: "(string \<times> u64) list \<Rightarrow> string" where
  "dust_winner order = hd (SortTxIDS (top_requests order 0 []))"

lemma SortTxIDS_single: "length ts = 1 \<Longrightarrow> SortTxIDS ts = ts"
  by (cases ts) (auto simp: SortTxIDS_sort_key)

lemma SortTxIDS_Nil [simp]: "SortTxIDS ts = [] \<longleftrightarrow> ts = []"
  by (metis SortTxIDS_sort_key length_0_conv length_sort)

definition raw_payouts :: "ConversionSupplySet \<Rightarrow> (string \<times> u64) list" where
  "raw_payouts s = map (\<lambda>(txid, c). (txid, PayoutBig c (Bank s) (totalRequested s)))
     (ConversionRequests s)"

definition dust_of :: "ConversionSupplySet \<Rightarrow> u64" where
  "dust_of s = Bank s - sum_list (map snd (raw_payouts s))"

lemma is_uint64_less: "is_uint64 t \<and> (word_of_int t :: u64) < b \<longleftrightarrow> 0 \<le> t \<and> t < uint b"
  using uint_lt2p_u64 [of b]
  by (auto simp: is_uint64_def word_less_def uint_word_of_int)

lemma Payouts_eq:
  assumes "mset order = mset (ConversionRequests s)" "supply_inv s"
  shows "Payouts order s =
     (if ConversionRequests s = [] then Inr []
      else if totalRequested s < uint (Bank s) then Inr (ConversionRequests s)
      else Inr (add_dust (dust_winner order) (dust_of s) (raw_payouts s)))"
proof -
  have ne: "order \<noteq> []" if "ConversionRequests s \<noteq> []"
    using assms(1) that by auto
  have "0 \<le> totalRequested s" using assms(2) by (simp add: supply_inv_def)
  then have lt: "is_uint64 (totalRequested s) \<and> (word_of_int (totalRequested s) :: u64) < Bank s
      \<longleftrightarrow> totalRequested s < uint (Bank s)"
    by (simp add: is_uint64_less)
  have tops: "(if length ts = Suc 0 then ts else SortTxIDS ts) = SortTxIDS ts" for ts
    using SortTxIDS_single [of ts] by auto
  show ?thesis
  proof (cases "ConversionRequests s = []")
    case False
    then obtain t rest where t: "SortTxIDS (top_requests order 0 []) = t # rest"
      using top_requests_not_Nil [OF ne] by (metis SortTxIDS_Nil neq_Nil_conv)
    show ?thesis
      using False t
      by (simp add: Payouts_def lt tops Let_def dust_winner_def dust_of_def
          flip: raw_payouts_def del: map_map)
  qed (simp add: Payouts_def)
qed


lemma map_fst_add_dust [simp]: "map fst (add_dust t d ps) = map fst ps"
  by (simp add: add_dust_def split_def comp_def)

lemma map_fst_raw_payouts [simp]: "map fst (raw_payouts s) = map fst (ConversionRequests s)"
  by (simp add: raw_payouts_def split_def comp_def)

lemma sum_add_dust:
  assumes "distinct (map fst ps)" "t \<in> set (map fst ps)"
  shows "sum_list (map snd (add_dust t d ps)) = sum_list (map snd ps) + (d :: u64)"
  using assms
proof (induction ps)
  case (Cons x ps)
  show ?case
  proof (cases "fst x = t")
    case True
    then have "t \<notin> set (map fst ps)" using Cons.prems by auto
    then have "add_dust t d ps = ps"
      by (force simp: add_dust_def intro!: map_idI)
    with True show ?thesis by (simp add: add_dust_def split_def add.assoc add.commute)
  next
    case False
    with Cons show ?thesis by (auto simp: add_dust_def split_def add.assoc)
  qed
qed simp

lemma sum_floor_le:
  fixes b t :: int
  assumes "0 < t"
  shows "(\<Sum>c\<leftarrow>cs. (c * b) div t) * t \<le> sum_list cs * b"
    and "sum_list cs * b \<le> (\<Sum>c\<leftarrow>cs. (c * b) div t) * t + int (length cs) * (t - 1)"
proof (induction cs)
  case (Cons c cs)
  have d: "(c * b) div t * t + (c * b) mod t = c * b" by simp
  have m: "0 \<le> (c * b) mod t" "(c * b) mod t < t" using assms by simp_all
  { case 1 show ?case using Cons.IH(1) d m unfolding list.map sum_list.Cons distrib_right by linarith }
  { case 2
    have "int (length (c # cs)) * (t - 1) = int (length cs) * (t - 1) + (t - 1)"
      by (simp add: distrib_right)
    with Cons.IH(2) d m show ?case unfolding list.map sum_list.Cons distrib_right by linarith }
qed simp_all

lemma raw_payouts_total:
  assumes "supply_inv s" "uint (Bank s) \<le> totalRequested s" "0 < totalRequested s"
  shows "(\<Sum>p\<leftarrow>map snd (raw_payouts s). uint p) \<le> uint (Bank s)"
    and "uint (Bank s) < (\<Sum>p\<leftarrow>map snd (raw_payouts s). uint p) + int (length (ConversionRequests s))"
proof -
  let ?t = "totalRequested s" and ?b = "uint (Bank s)"
  let ?cs = "map (\<lambda>x. uint (snd x)) (ConversionRequests s)"
  have t: "?t = sum_list ?cs" using assms(1) by (simp add: supply_inv_def req_total_def split_def)
  have "uint c \<le> ?t" if "(k, c) \<in> set (ConversionRequests s)" for k c
    using that assms(1) by (auto simp: supply_inv_def req_total_member)
  then have eq: "(\<Sum>p\<leftarrow>map snd (raw_payouts s). uint p) = (\<Sum>c\<leftarrow>?cs. (c * ?b) div ?t)"
    using assms(2,3)
    by (auto simp: raw_payouts_def comp_def split_def intro!: arg_cong [of _ _ sum_list] map_cong PayoutBig_uint)
  have f: "(\<Sum>c\<leftarrow>?cs. (c * ?b) div ?t) * ?t \<le> ?b * ?t"
    using sum_floor_le(1) [OF assms(3), where cs = ?cs and b = ?b] by (simp add: t mult.commute)
  then show "(\<Sum>p\<leftarrow>map snd (raw_payouts s). uint p) \<le> ?b"
    using assms(3) eq by simp
  have ne: "0 < length (ConversionRequests s)" using assms(3) t by (cases "ConversionRequests s") auto
  have "?b * ?t \<le> (\<Sum>c\<leftarrow>?cs. (c * ?b) div ?t) * ?t + int (length ?cs) * (?t - 1)"
    using sum_floor_le(2) [OF assms(3), where cs = ?cs and b = ?b] t by (simp add: mult.commute)
  also have "int (length ?cs) * (?t - 1) < int (length (ConversionRequests s)) * ?t"
    using ne by simp
  finally have "?b * ?t < ((\<Sum>c\<leftarrow>?cs. (c * ?b) div ?t) + int (length (ConversionRequests s))) * ?t"
    by (simp add: distrib_right)
  then show "?b < (\<Sum>p\<leftarrow>map snd (raw_payouts s). uint p) + int (length (ConversionRequests s))"
    using assms(3) eq mult_less_cancel_right_pos by metis
qed

lemma dust_of_uint:
  assumes "supply_inv s" "uint (Bank s) \<le> totalRequested s" "0 < totalRequested s"
  shows "uint (dust_of s) = uint (Bank s) - (\<Sum>p\<leftarrow>map snd (raw_payouts s). uint p)"
    and "uint (dust_of s) < int (length (ConversionRequests s))"
proof -
  let ?sum = "(\<Sum>p\<leftarrow>map snd (raw_payouts s). uint p)"
  have "?sum < 2 ^ 64"
    using raw_payouts_total(1) [OF assms] uint_lt2p_u64 [of "Bank s"] by linarith
  then have u: "uint (sum_list (map snd (raw_payouts s))) = ?sum"
    using uint_sum_list_le by simp
  then have "uint (dust_of s) = uint (Bank s) - ?sum"
    using raw_payouts_total(1) [OF assms]
    unfolding dust_of_def u [symmetric] by (simp only: word_le_def [symmetric] uint_minus_simple_alt)
  then show "uint (dust_of s) = uint (Bank s) - ?sum" .
  then show "uint (dust_of s) < int (length (ConversionRequests s))"
    using raw_payouts_total(2) [OF assms] by simp
qed


section \<open>Properties of the supply limit\<close>

text \<open>A supply set filled by a sequence of calls of \<open>AddConversion\<close>.\<close>

definition filled_supply :: "u64 \<Rightarrow> (string \<times> u64) list \<Rightarrow> ConversionSupplySet res" where
  "filled_supply bank adds =
     res_fold (\<lambda>s (txid, amt). AddConversion s txid amt) (NewConversionSupply bank) adds"

lemma fold_AddConversion:
  assumes "res_fold (\<lambda>s (txid, amt). AddConversion s txid amt) s adds = Inr s'" "supply_inv s"
  shows "supply_inv s' \<and> Bank s' = Bank s
     \<and> ConversionRequests s' = ConversionRequests s @ adds"
  using assms
proof (induction adds arbitrary: s)
  case (Cons x adds)
  then obtain s1 where s1: "AddConversion s (fst x) (snd x) = Inr s1"
      "res_fold (\<lambda>s (txid, amt). AddConversion s txid amt) s1 adds = Inr s'"
    by (auto simp: res_simps split_def)
  moreover have "supply_inv s1" using s1 Cons.prems supply_inv_Add by blast
  moreover have "Bank s1 = Bank s" "ConversionRequests s1 = ConversionRequests s @ [x]"
    using s1(1) by (auto simp: AddConversion_def res_simps split: prod.splits option.splits)
  ultimately show ?case using Cons.IH by fastforce
qed simp

lemma filled_supply_inv:
  assumes "filled_supply bank adds = Inr s"
  shows "supply_inv s" "Bank s = bank" "ConversionRequests s = adds" "totalRequested s = req_total adds"
  using fold_AddConversion [of "NewConversionSupply bank" adds s] assms supply_inv_New
  by (auto simp: filled_supply_def supply_inv_def NewConversionSupply_def)

lemma dust_winner_request:
  assumes "order \<noteq> []"
  shows "(dust_winner order, most_requested order) \<in> set order"
    and "(u, most_requested order) \<in> set order \<Longrightarrow> txid_key (dust_winner order) \<le> txid_key u"
proof -
  note ne = top_requests_not_Nil [OF assms]
  have "hd (SortTxIDS (top_requests order 0 [])) \<in> set (top_requests order 0 [])"
    using SortTxIDS_hd_le [OF ne] ne by (meson hd_in_set)
  then show "(dust_winner order, most_requested order) \<in> set order"
    by (auto simp: dust_winner_def top_requests_eq)
  show "txid_key (dust_winner order) \<le> txid_key u" if "(u, most_requested order) \<in> set order"
    using SortTxIDS_hd_le [OF ne, of u] that by (force simp: dust_winner_def top_requests_eq)
qed

lemma payouts_over_bank:
  assumes "filled_supply bank adds = Inr s" "mset order = mset adds" "adds \<noteq> []"
    "uint bank \<le> req_total adds"
  shows "Payouts order s = Inr (add_dust (dust_winner order) (dust_of s) (raw_payouts s))"
  using Payouts_eq [of order s] filled_supply_inv [OF assms(1)] assms by simp

lemma payouts_under_bank:
  assumes "filled_supply bank adds = Inr s" "mset order = mset adds" "req_total adds < uint bank"
  shows "Payouts order s = Inr adds"
  using Payouts_eq [of order s] filled_supply_inv [OF assms(1)] assms by simp

lemma sum_uint_add_dust:
  assumes "distinct (map fst ps)" "t \<in> set (map fst ps)"
    "(\<Sum>p\<leftarrow>map snd ps. uint p) + uint (d :: u64) < 2 ^ 64"
  shows "(\<Sum>p\<leftarrow>map snd (add_dust t d ps). uint p) = (\<Sum>p\<leftarrow>map snd ps. uint p) + uint d"
  using assms
proof (induction ps)
  case (Cons x ps)
  have rest: "0 \<le> (\<Sum>p\<leftarrow>map snd ps. uint p)" by (rule sum_list_nonneg) auto
  show ?case
  proof (cases "fst x = t")
    case True
    then have "t \<notin> set (map fst ps)" using Cons.prems by auto
    then have "add_dust t d ps = ps"
      by (force simp: add_dust_def intro!: map_idI)
    moreover have "uint (snd x) + uint d < 2 ^ 64" using Cons.prems(3) rest by simp
    then have "uint (snd x + d) = uint (snd x) + uint d" by (simp add: uint_word_ariths)
    ultimately show ?thesis using True by (simp add: add_dust_def split_def)
  next
    case False
    have "(\<Sum>p\<leftarrow>map snd ps. uint p) + uint d < 2 ^ 64"
      using Cons.prems(3) by (simp add: add.assoc) (meson add_increasing le_less_trans order_refl uint_nonnegative)
    with Cons False have "(\<Sum>p\<leftarrow>map snd (add_dust t d ps). uint p) = (\<Sum>p\<leftarrow>map snd ps. uint p) + uint d"
      by auto
    with False show ?thesis by (simp add: add_dust_def split_def)
  qed
qed simp

lemma raw_payouts_zero:
  assumes "totalRequested s = 0"
  shows "sum_list (map snd (raw_payouts s)) = 0" "(\<Sum>p\<leftarrow>map snd (raw_payouts s). uint p) = 0"
proof -
  have "map snd (raw_payouts s) = map (\<lambda>_. 0) (ConversionRequests s)"
    using assms by (auto simp: raw_payouts_def PayoutBig_def is_uint64_def)
  then show "sum_list (map snd (raw_payouts s)) = 0" "(\<Sum>p\<leftarrow>map snd (raw_payouts s). uint p) = 0"
    by (simp_all add: map_replicate_const sum_list_replicate comp_def)
qed

lemma payouts_sum_over:
  assumes "filled_supply bank adds = Inr s" "mset order = mset adds" "adds \<noteq> []"
    "uint bank \<le> req_total adds"
  shows "(\<Sum>p\<leftarrow>map snd (add_dust (dust_winner order) (dust_of s) (raw_payouts s)). uint p) = uint bank"
proof -
  note inv = filled_supply_inv [OF assms(1)]
  have "order \<noteq> []" using assms by auto
  then have "dust_winner order \<in> set (map fst order)"
    using dust_winner_request(1) by (metis fst_conv image_eqI list.set_map)
  moreover have "set (map fst order) = set (map fst adds)"
    using assms(2) by (metis mset_map set_mset_mset)
  ultimately have w: "dust_winner order \<in> set (map fst (raw_payouts s))" by (simp add: inv)
  have "(\<Sum>p\<leftarrow>map snd (raw_payouts s). uint p) + uint (dust_of s) = uint bank"
  proof (cases "0 < totalRequested s")
    case True
    then show ?thesis using dust_of_uint(1) inv assms(4) by simp
  next
    case False
    then have "totalRequested s = 0" using inv by (metis order.not_eq_order_implies_strict req_total_nonneg)
    moreover from this have "bank = 0" using assms(4) inv by (simp add: uint_0_iff order_antisym)
    ultimately show ?thesis using raw_payouts_zero inv by (simp add: dust_of_def)
  qed
  moreover have "distinct (map fst (raw_payouts s))"
    using inv by (simp add: supply_inv_def)
  ultimately show ?thesis
    using sum_uint_add_dust [OF _ w, of "dust_of s"] uint_lt2p_u64 [of bank] by simp
qed

text \<open>
  C4. The supply limit is exact: for every way of iterating over the requests, \<open>Payouts\<close> returns
  without a panic one payout per request, and the payouts (as numbers, so no sum wraps around)
  add up to the smaller of the bank and everything that was requested.
\<close>

theorem Payouts_exact:
  assumes "filled_supply bank adds = Inr s" "mset order = mset adds"
  shows "\<exists>ps. Payouts order s = Inr ps \<and> map fst ps = map fst adds
    \<and> (\<Sum>p\<leftarrow>map snd ps. uint p) = min (uint bank) (req_total adds)"
proof (cases "adds = [] \<or> req_total adds < uint bank")
  case True
  moreover have "(\<Sum>p\<leftarrow>map snd adds. uint p) = req_total adds"
    by (simp add: req_total_def comp_def split_def)
  moreover have "Payouts order s = Inr adds"
    using True payouts_under_bank [OF assms] Payouts_eq [of order s] filled_supply_inv [OF assms(1)] assms
    by auto
  ultimately show ?thesis by auto
next
  case False
  then have "Payouts order s = Inr (add_dust (dust_winner order) (dust_of s) (raw_payouts s))"
    using payouts_over_bank [OF assms] by simp
  then show ?thesis
    using False payouts_sum_over [OF assms] filled_supply_inv(3) [OF assms(1)] by simp
qed

definition sample_txids :: "string list" where
  "sample_txids = map (\<lambda>i. FormatTxID i (replicate 64 CHR ''0'')) [0, 1, 2]"

lemma sample_txids_Verify: "list_all (\<lambda>t. VerifyTransactionHash t = (fst (SplitTxID t), replicate 64 CHR ''0'', None)) sample_txids"
  by code_simp

lemma Payouts_exact_witness:
  "\<exists>ps. Payouts (zip sample_txids [7, 7, 3])
      (\<lparr>Bank = 5, ConversionRequests = zip sample_txids [7, 7, 3], totalRequested = 17\<rparr>) = Inr ps
    \<and> map fst ps = sample_txids \<and> (\<Sum>p\<leftarrow>map snd ps. uint p) = 5"
proof -
  have "filled_supply 5 (zip sample_txids [7, 7, 3])
      = Inr \<lparr>Bank = 5, ConversionRequests = zip sample_txids [7, 7, 3], totalRequested = 17\<rparr>"
    by code_simp
  from Payouts_exact [OF this refl] show ?thesis by (simp add: sample_txids_def req_total_def)
qed


text \<open>
  C7. Above the bank every requester gets its proportional share rounded down, and a single one, a
  requester of the largest amount with the least (batch hash, index) pair among those, gets the
  rest, which is less than one unit per request: the ties go to the lowest hash.
\<close>

theorem Payouts_fair:
  assumes "filled_supply bank adds = Inr s" "mset order = mset adds"
    "uint bank \<le> req_total adds" "0 < req_total adds"
  shows "\<exists>w dust ps. Payouts order s = Inr ps
    \<and> (w, Max (snd ` set adds)) \<in> set adds
    \<and> (\<forall>u. (u, Max (snd ` set adds)) \<in> set adds \<longrightarrow> txid_key w \<le> txid_key u)
    \<and> uint dust < int (length adds)
    \<and> ps = map (\<lambda>(t, c). (t, word_of_int ((uint c * uint bank) div req_total adds)
                             + (if t = w then dust else 0))) adds"
proof -
  note inv = filled_supply_inv [OF assms(1)]
  have ne: "adds \<noteq> []" "order \<noteq> []" using assms by auto
  have set: "set order = set adds" using assms(2) by (metis set_mset_mset)
  have "Max (insert 0 (snd ` set adds)) = Max (snd ` set adds)"
    using ne by (subst Max_insert) auto
  then have most: "most_requested order = Max (snd ` set adds)"
    by (simp add: most_requested_Max set)
  have P: "PayoutBig c bank (req_total adds) = word_of_int ((uint c * uint bank) div req_total adds)" for c
  proof -
    have "\<not> (is_uint64 (req_total adds) \<and> (word_of_int (req_total adds) :: u64) = 0)"
      using assms(4) by (auto simp: is_uint64_def word_of_int_eq_0_iff zdvd_not_zless)
    then show ?thesis by (auto simp: PayoutBig_def)
  qed
  have "add_dust (dust_winner order) (dust_of s) (raw_payouts s)
      = map (\<lambda>(t, c). (t, word_of_int ((uint c * uint bank) div req_total adds)
                             + (if t = dust_winner order then dust_of s else 0))) adds"
    using inv by (auto simp: add_dust_def raw_payouts_def P)
  moreover have "uint (dust_of s) < int (length adds)"
    using dust_of_uint(2) [of s] inv assms by simp
  ultimately show ?thesis
    using payouts_over_bank [OF assms(1,2) ne(1) assms(3)] dust_winner_request [OF ne(2)]
    by (intro exI [of _ "dust_winner order"] exI [of _ "dust_of s"]) (auto simp: most set)
qed

lemma sample_supply:
  "filled_supply 5 (zip sample_txids [7, 7, 3])
      = Inr \<lparr>Bank = 5, ConversionRequests = zip sample_txids [7, 7, 3], totalRequested = 17\<rparr>"
  by code_simp

lemma sample_total: "req_total (zip sample_txids [7, 7, 3]) = 17"
  by (simp add: sample_txids_def req_total_def)

lemma Payouts_fair_witness:
  "\<exists>w dust ps. Payouts (zip sample_txids [7, 7, 3])
      (\<lparr>Bank = 5, ConversionRequests = zip sample_txids [7, 7, 3], totalRequested = 17\<rparr>) = Inr ps
    \<and> uint dust < 3 \<and> ps = map (\<lambda>(t, c). (t, word_of_int ((uint c * 5) div 17)
                             + (if t = w then dust else 0))) (zip sample_txids [7 :: u64, 7, 3])"
proof -
  have len: "length (zip sample_txids [7 :: u64, 7, 3]) = 3" by (simp add: sample_txids_def)
  have u: "uint (5 :: u64) = 5" by simp
  have "uint (5 :: u64) \<le> req_total (zip sample_txids [7, 7, 3])" "0 < req_total (zip sample_txids [7, 7, 3])"
    by (simp_all add: sample_total)
  from Payouts_fair [OF sample_supply refl this] show ?thesis
    unfolding sample_total len u of_nat_numeral by blast
qed

definition formatted_txid :: "string \<Rightarrow> bool" where
  "formatted_txid t = (case SplitTxID t of (i, h, e) \<Rightarrow> e = None \<and> 0 \<le> i \<and> i < 2 ^ 31 \<and> t = FormatTxID i h)"

lemma formatted_txid_inj: "inj_on txid_key {t. formatted_txid t}"
  by (rule inj_onI) (auto simp: formatted_txid_def txid_key_def split: prod.splits)

text \<open>
  When every request is a formatted transaction identifier, the payouts do not depend on the
  order in which Go iterates over the map of the requests.
\<close>

theorem Payouts_order_independent:
  assumes "filled_supply bank adds = Inr s" "mset order = mset adds" "mset order' = mset adds"
    "\<forall>t \<in> set (map fst adds). formatted_txid t"
  shows "Payouts order s = Payouts order' s"
proof -
  have "mset (top_requests order 0 []) = mset (top_requests order' 0 [])"
    using assms by (intro mset_top_requests) simp
  moreover have "set (top_requests order 0 []) \<subseteq> {t. formatted_txid t}"
  proof -
    have "set order = set adds" using assms(2) by (metis set_mset_mset)
    then show ?thesis using assms(4) by (auto simp: top_requests_eq)
  qed
  then have "inj_on txid_key (set (top_requests order 0 []))"
    using formatted_txid_inj inj_on_subset by blast
  ultimately have "dust_winner order = dust_winner order'"
    by (simp add: dust_winner_def SortTxIDS_sort_key sort_key_perm_unique)
  then show ?thesis
    using Payouts_eq [of order s] Payouts_eq [of order' s] assms filled_supply_inv [OF assms(1)]
    by simp
qed

lemma Payouts_order_independent_witness:
  "Payouts (zip sample_txids [7, 7, 3])
      (\<lparr>Bank = 5, ConversionRequests = zip sample_txids [7, 7, 3], totalRequested = 17\<rparr>)
   = Payouts (rev (zip sample_txids [7, 7, 3]))
      (\<lparr>Bank = 5, ConversionRequests = zip sample_txids [7, 7, 3], totalRequested = 17\<rparr>)"
proof -
  have "list_all formatted_txid (map fst (zip sample_txids [7 :: u64, 7, 3]))" by code_simp
  then show ?thesis
    by (intro Payouts_order_independent [OF sample_supply]) (simp_all add: list_all_iff)
qed

text \<open>
  Without an index the payouts do depend on that order: \<open>AddConversion\<close> accepts a bare batch
  hash, on which \<open>SplitTxID\<close> fails when \<open>Payouts\<close> breaks a tie, so two equal requests by batch hash
  are paid differently under two orders of iteration.
\<close>

definition batch_hash_requests :: "(string \<times> u64) list" where
  "batch_hash_requests = [(replicate 64 CHR ''0'', 5), (replicate 64 CHR ''1'', 5)]"

theorem Payouts_batch_hash_order_dependent:
  "case filled_supply 5 batch_hash_requests of
     Inl _ \<Rightarrow> False
   | Inr s \<Rightarrow> Payouts batch_hash_requests s = Inr [(replicate 64 CHR ''0'', 3), (replicate 64 CHR ''1'', 2)]
       \<and> Payouts (rev batch_hash_requests) s
           = Inr [(replicate 64 CHR ''0'', 2), (replicate 64 CHR ''1'', 3)]"
  by code_simp

text \<open>
  The dust can lift a payout above the request: with three requests of two units against a bank
  of five, the winner is paid three.
\<close>

theorem Payouts_above_request:
  "case filled_supply 5 (zip sample_txids [2, 2, 2]) of
     Inl _ \<Rightarrow> False
   | Inr s \<Rightarrow> Payouts (zip sample_txids [2, 2, 2]) s = Inr (zip sample_txids [3, 1, 1])"
  by code_simp

text \<open>
  A conversion yields the exact quotient rounded down, and converting the yield, or any part
  of it, back never returns more than was put in.
\<close>

theorem Convert_no_gain:
  assumes "Convert x a b = Inr y" "z \<le> y" "Convert z b a = Inr w"
  shows "y * uint b \<le> x * uint a \<and> x * uint a < (y + 1) * uint b \<and> 0 \<le> y \<and> w \<le> x"
  using Convert_bounds [OF assms(1)] Convert_back_le [OF assms(1,3,2)] by simp

lemma Convert_no_gain_witness:
  "\<exists>y w. Convert 100 7 3 = Inr y \<and> y = 233 \<and> Convert 233 3 7 = Inr w \<and> w = 99 \<and> w \<le> 100"
proof -
  have "Convert 100 7 3 = Inr 233" "Convert 233 3 7 = Inr 99" by code_simp+
  with Convert_no_gain [OF this(1) _ this(2)] show ?thesis by simp
qed

text \<open>
  A refund lies between zero and the input, for every yield that fits in an \<open>int64\<close> and every
  pair of rates, whatever the two ignored errors of \<open>Convert\<close> are; the yield allotted and the
  refund together never convert to more than the input.
\<close>

theorem Refund_bounded:
  assumes "0 \<le> x" "0 \<le> y" "y < 2 ^ 63"
  shows "0 \<le> Refund x y a b \<and> Refund x y a b \<le> x
    \<and> (Convert x a b = Inr m \<longrightarrow> y \<le> m \<longrightarrow> y * uint b + Refund x y a b * uint a \<le> x * uint a)"
proof (intro conjI impI)
  show "0 \<le> Refund x y a b" "Refund x y a b \<le> x" using Refund_le_input [OF assms] by auto
  assume m: "Convert x a b = Inr m" and y: "y \<le> m"
  then have R: "Refund x y a b = ignore_err (Convert (m - y) b a)"
    using assms Convert_Inr_iff [of x a b m] by (simp add: Refund_def ignore_err_def wrap64_id)
  have "Refund x y a b * uint a \<le> (m - y) * uint b"
    using Convert_bounds [of "m - y" b a] y by (auto simp: R ignore_err_def split: sum.splits)
  moreover have "m * uint b \<le> x * uint a" using Convert_bounds [OF m] by simp
  ultimately show "y * uint b + Refund x y a b * uint a \<le> x * uint a"
    by (simp add: left_diff_distrib)
qed

lemma Refund_bounded_witness: "0 \<le> Refund 199 1 1 100 \<and> Refund 199 1 1 100 \<le> 199
    \<and> Convert 199 1 100 = Inr 1
    \<and> 1 * uint (100 :: u64) + Refund 199 1 1 100 * uint (1 :: u64) \<le> 199 * uint (1 :: u64)"
proof -
  have "Convert 199 1 100 = Inr 1" by code_simp
  with Refund_bounded [of 199 1 1 100 1] show ?thesis by simp
qed

end
