(* ===== verification/StakeGrader.thy ===== *)
theory StakeGrader
  imports Graders
begin

text \<open>
  modules/spr and modules/graderStake: staking price records and the graders of versions 5 to 7
  (S1 to S3). They share the averages, distances and passes of the mining graders; there is no proof
  of work, a record is identified by its payout address, and from S2 on the content is signed. The
  signature check of factomd, \<open>primitives.VerifySignature\<close>, is an argument \<open>verify\<close> of the
  definitions that use it: whether it returns no error for a message, a public key and a signature.
\<close>

section \<open>modules/spr\<close>

text \<open>\<open>S1Content\<close> embeds a \<open>V2Content\<close> and is the only implementation of the interface \<open>SPR\<close>.\<close>

type_synonym S1Content = V2Content

definition spr_Uint64ToFloat :: "u64 \<Rightarrow> f64" where
  "spr_Uint64ToFloat u = fdiv (f64_of_u64 u) (f64_const 100000000)"

definition S1_GetOrderedAssetsFloat :: "S1Content \<Rightarrow> AssetFloat list res" where
  "S1_GetOrderedAssetsFloat m = ordered_assets V5Assets (Fin 0) spr_Uint64ToFloat (Assets m)"

definition S1_GetOrderedAssetsUint :: "S1Content \<Rightarrow> AssetUint list res" where
  "S1_GetOrderedAssetsUint m = ordered_assets V5Assets 0 id (Assets m)"

definition S1_GetPreviousWinners :: "S1Content \<Rightarrow> string list" where
  "S1_GetPreviousWinners m = map hexEncode (Winners m)"

definition S1_GetType :: "S1Content \<Rightarrow> Type" where
  "S1_GetType m = V2"

definition S1_Clone :: "S1Content \<Rightarrow> S1Content" where
  "S1_Clone m = zero_V2Content\<lparr>Address := Address m, Height := Height m, ID := ID m,
     Assets := Assets m, Winners := Winners m\<rparr>"

definition ParseS1Content :: "byte list \<Rightarrow> V2Content res" where
  "ParseS1Content data = guard_res (length data = 0) (GoError ''no bytes to decode'')
     (Unmarshal zero_V2Content data)"

section \<open>gradingSPR.go\<close>

record GradingSPR =
  spr_EntryHash :: "byte list"
  spr_CoinbaseAddress :: string
  spr_Grade :: f64
  SPRHash :: "byte list"
  spr_position :: int
  spr_payout :: int
  SPR :: S1Content

definition GradingSPR_Clone :: "GradingSPR \<Rightarrow> GradingSPR" where
  "GradingSPR_Clone g = \<lparr>spr_EntryHash = spr_EntryHash g, spr_CoinbaseAddress = spr_CoinbaseAddress g,
     spr_Grade = spr_Grade g, SPRHash = SPRHash g, spr_position = spr_position g,
     spr_payout = spr_payout g, SPR = S1_Clone (SPR g)\<rparr>"

definition spr_Shorthash :: "GradingSPR \<Rightarrow> string res" where
  "spr_Shorthash g = guard_res (length (spr_EntryHash g) < 8) (Panic ''slice bounds out of range'')
     (Inr (hexEncode (take 8 (spr_EntryHash g))))"

section \<open>base.go: the graders\<close>

record baseStakeGrader =
  sprs :: "GradingSPR list"
  stake_height :: "32 word"
  stake_prevWinners :: "string list"

datatype StakeGrader =
    S1BlockGrader baseStakeGrader
  | S2BlockGrader baseStakeGrader
  | S3BlockGrader baseStakeGrader

definition new_stake_base :: "32 word \<Rightarrow> baseStakeGrader" where
  "new_stake_base h = \<lparr>sprs = [], stake_height = h, stake_prevWinners = []\<rparr>"

definition NewStakeGrader :: "byte \<Rightarrow> 32 word \<Rightarrow> StakeGrader res" where
  "NewStakeGrader version h =
     guard_res (sint h < 0) (GoError ''height must be > 0'')
     (if version = 5 then Inr (S1BlockGrader (new_stake_base h))
      else if version = 6 then Inr (S2BlockGrader (new_stake_base h))
      else if version = 7 then Inr (S3BlockGrader (new_stake_base h))
      else Inl (GoError ''unsupported version''))"

fun stake_base_of :: "StakeGrader \<Rightarrow> baseStakeGrader" where
  "stake_base_of (S1BlockGrader b) = b"
| "stake_base_of (S2BlockGrader b) = b"
| "stake_base_of (S3BlockGrader b) = b"

definition StakeCount :: "StakeGrader \<Rightarrow> nat" where
  "StakeCount g = length (sprs (stake_base_of g))"

definition StakePreviousWinners :: "StakeGrader \<Rightarrow> string list" where
  "StakePreviousWinners g = stake_prevWinners (stake_base_of g)"

definition StakeHeight :: "StakeGrader \<Rightarrow> 32 word" where
  "StakeHeight g = stake_height (stake_base_of g)"

fun StakeVersion :: "StakeGrader \<Rightarrow> byte" where
  "StakeVersion (S1BlockGrader _) = 5"
| "StakeVersion (S2BlockGrader _) = 5"
| "StakeVersion (S3BlockGrader _) = 7"

section \<open>baseGradedBlock.go\<close>

record baseStakeBlock =
  graded_sprs :: "GradingSPR list"
  stake_cutoff :: int
  stake_block_height :: "32 word"
  stake_block_count :: nat
  stake_shorthashes :: "string list"

definition cloneSPRS :: "GradingSPR list \<Rightarrow> baseStakeBlock \<Rightarrow> baseStakeBlock" where
  "cloneSPRS os b = b\<lparr>graded_sprs := map GradingSPR_Clone os, stake_block_count := length os\<rparr>"

definition spr_AmountGraded :: "baseStakeBlock \<Rightarrow> nat" where
  "spr_AmountGraded b = length (graded_sprs b)"

text \<open>No grader calls this one.\<close>

definition spr_createShortHashes :: "nat \<Rightarrow> baseStakeBlock \<Rightarrow> baseStakeBlock res" where
  "spr_createShortHashes n b =
     (if n \<le> length (graded_sprs b)
      then rbind (res_map spr_Shorthash (take n (graded_sprs b)))
        (\<lambda>hs. Inr (b\<lparr>stake_shorthashes := hs\<rparr>))
      else Inr (b\<lparr>stake_shorthashes := replicate n []\<rparr>))"

fun spr_filter_dups :: "string set \<Rightarrow> GradingSPR list \<Rightarrow> GradingSPR list" where
  "spr_filter_dups added [] = []"
| "spr_filter_dups added (g # gs) = (let id = spr_CoinbaseAddress g in
     if id \<in> added then spr_filter_dups added gs else g # spr_filter_dups (insert id added) gs)"

definition spr_filterDuplicates :: "baseStakeBlock \<Rightarrow> baseStakeBlock" where
  "spr_filterDuplicates b = b\<lparr>graded_sprs := spr_filter_dups {} (graded_sprs b)\<rparr>"

section \<open>Validation\<close>

definition S1Payout :: "int \<Rightarrow> int" where
  "S1Payout index = (if index \<ge> 25 \<or> index < 0 then 0 else 180 * 100000000)"

definition newGradingSPR :: "byte list \<Rightarrow> byte list \<Rightarrow> S1Content \<Rightarrow> GradingSPR" where
  "newGradingSPR entryhash content m = \<lparr>spr_EntryHash = entryhash, spr_CoinbaseAddress = Address m,
     spr_Grade = Fin 0, SPRHash = sha256 content, spr_position = 0, spr_payout = 0, SPR = m\<rparr>"

definition ValidateS1 :: "byte list \<Rightarrow> byte list list \<Rightarrow> 32 word \<Rightarrow> byte list \<Rightarrow> GradingSPR res" where
  "ValidateS1 entryhash extids h content =
     guard_res (length entryhash \<noteq> 32) (ValidateError ''invalid entry hash length'')
     (guard_res (length extids \<noteq> 3) (ValidateError ''invalid extid count'')
     (guard_res (length (extids ! 0) \<noteq> 1 \<or> extids ! 0 ! 0 \<noteq> 5) (ValidateError ''invalid version'')
     (rbind (decode_error (ParseS1Content content)) (\<lambda>m.
     guard_res (Height m \<noteq> h) (ValidateError ''invalid height'')
     (guard_res (length (Assets m) \<noteq> length V5Assets) (ValidateError ''invalid assets'')
     (guard_res (list_ex (\<lambda>val. val = 0) (Assets m))
       (ValidateError ''assets must be greater than 0'')
     (check_address (Address m)
     (Inr (newGradingSPR entryhash content m)))))))))"

text \<open>The third external identifier is the public key and the signature of the content.\<close>

definition check_signature ::
  "(byte list \<Rightarrow> byte list \<Rightarrow> byte list \<Rightarrow> bool) \<Rightarrow> byte list \<Rightarrow> byte list \<Rightarrow> 'a res \<Rightarrow> 'a res" where
  "check_signature verify content ext r =
     guard_res (length ext \<noteq> 96) (ValidateError ''invalid signature length'')
     (guard_res (\<not> verify content (take 32 ext) (drop 32 ext)) (ValidateError ''invalid signature'') r)"

definition ValidateS2 :: "(byte list \<Rightarrow> byte list \<Rightarrow> byte list \<Rightarrow> bool) \<Rightarrow> byte list \<Rightarrow>
    byte list list \<Rightarrow> 32 word \<Rightarrow> byte list \<Rightarrow> GradingSPR res" where
  "ValidateS2 verify entryhash extids h content =
     guard_res (length entryhash \<noteq> 32) (ValidateError ''invalid entry hash length'')
     (guard_res (length extids \<noteq> 3) (ValidateError ''invalid extid count'')
     (guard_res (length (extids ! 0) \<noteq> 1 \<or> extids ! 0 ! 0 \<noteq> 6) (ValidateError ''invalid version'')
     (rbind (decode_error (ParseS1Content content)) (\<lambda>m.
     check_signature verify content (extids ! 2)
     (guard_res (Height m \<noteq> h) (ValidateError ''invalid height'')
     (guard_res (length (Assets m) \<noteq> length V5Assets) (ValidateError ''invalid assets'')
     (guard_res (list_ex (\<lambda>val. val = 0) (Assets m))
       (ValidateError ''assets must be greater than 0'')
     (check_address (Address m)
     (Inr (newGradingSPR entryhash content m))))))))))"

definition ValidateS3 :: "(byte list \<Rightarrow> byte list \<Rightarrow> byte list \<Rightarrow> bool) \<Rightarrow> byte list \<Rightarrow>
    byte list list \<Rightarrow> 32 word \<Rightarrow> byte list \<Rightarrow> GradingSPR res" where
  "ValidateS3 verify entryhash extids h content =
     guard_res (length entryhash \<noteq> 32) (ValidateError ''invalid entry hash length'')
     (guard_res (length extids \<noteq> 3) (ValidateError ''invalid extid count'')
     (guard_res (length (extids ! 0) \<noteq> 1 \<or> extids ! 0 ! 0 \<noteq> 7) (ValidateError ''invalid version'')
     (rbind (decode_error (ParseS1Content content)) (\<lambda>m.
     check_signature verify content (extids ! 2)
     (guard_res (Height m \<noteq> h) (ValidateError ''invalid height'')
     (guard_res (length (Assets m) \<noteq> length V5Assets) (ValidateError ''invalid assets'')
     (guard_res (list_ex (\<lambda>val. val = 0) (Assets m))
       (ValidateError ''assets must be greater than 0'')
     (check_address (Address m)
     (Inr (newGradingSPR entryhash content m))))))))))"

section \<open>Grading\<close>

definition spr_prices :: "GradingSPR \<Rightarrow> f64 list res" where
  "spr_prices g = rbind (S1_GetOrderedAssetsFloat (SPR g)) (\<lambda>as. Inr (map Value as))"

definition averageS1 :: "GradingSPR list \<Rightarrow> f64 list res" where
  "averageS1 os = average_trimmed spr_prices os"

definition gradeS1 :: "f64 list \<Rightarrow> GradingSPR \<Rightarrow> f64 \<Rightarrow> GradingSPR res" where
  "gradeS1 avg g band = rbind (spr_prices g) (\<lambda>vs.
     rbind (grade_sum (banded_distance band) avg vs (Fin 0)) (\<lambda>s. Inr (g\<lparr>spr_Grade := s\<rparr>)))"

definition S1Band :: f64 where "S1Band = f64_const (1 / 100)"
definition S2Band :: f64 where "S2Band = f64_const (1 / 100)"
definition S3Band :: f64 where "S3Band = f64_const (1 / 100)"

definition spr_lower_grade :: "GradingSPR \<Rightarrow> GradingSPR \<Rightarrow> bool" where
  "spr_lower_grade a b = flt (spr_Grade a) (spr_Grade b)"

definition spr_resort :: "GradingSPR list \<Rightarrow> GradingSPR list" where
  "spr_resort os = sort_stable spr_lower_grade os"

definition spr_set_positions :: "(int \<Rightarrow> int) \<Rightarrow> GradingSPR list \<Rightarrow> GradingSPR list" where
  "spr_set_positions pay os =
     map (\<lambda>(i, g). g\<lparr>spr_position := int i, spr_payout := pay (int i)\<rparr>) (enumerate 0 os)"

definition spr_clamp_cutoff :: "baseStakeBlock \<Rightarrow> baseStakeBlock" where
  "spr_clamp_cutoff b = (if int (length (graded_sprs b)) < stake_cutoff b
     then b\<lparr>stake_cutoff := int (length (graded_sprs b))\<rparr> else b)"

definition S1_grade :: "baseStakeBlock \<Rightarrow> baseStakeBlock res" where
  "S1_grade b0 =
     (if length (graded_sprs b0) < 25 then Inr b0
      else let b = spr_clamp_cutoff b0 in
        rbind (grade_passes (grading_round averageS1
              (\<lambda>i avg g. gradeS1 avg g (if 25 \<le> i then S1Band else Fin 0)) spr_resort) 1
            (nat (stake_cutoff b)) (graded_sprs b)) (\<lambda>os.
        Inr (b\<lparr>graded_sprs := spr_set_positions S1Payout os\<rparr>)))"

definition S2_grade :: "baseStakeBlock \<Rightarrow> baseStakeBlock res" where
  "S2_grade b0 =
     (if length (graded_sprs b0) < 25 then Inr b0
      else let b = spr_clamp_cutoff b0 in
        rbind (grade_passes (grading_round averageS1
              (\<lambda>i avg g. gradeS1 avg g (if 25 \<le> i then S2Band else Fin 0)) spr_resort) 1
            (nat (stake_cutoff b)) (graded_sprs b)) (\<lambda>os.
        Inr (b\<lparr>graded_sprs := spr_set_positions S1Payout os\<rparr>)))"

definition S3_grade :: "baseStakeBlock \<Rightarrow> baseStakeBlock res" where
  "S3_grade b0 =
     (if length (graded_sprs b0) < 25 then Inr b0
      else let b = spr_clamp_cutoff b0 in
        rbind (grade_passes (grading_round averageS1
              (\<lambda>i avg g. gradeS1 avg g (if 25 \<le> i then S3Band else Fin 0)) spr_resort) 1
            (nat (stake_cutoff b)) (graded_sprs b)) (\<lambda>os.
        Inr (b\<lparr>graded_sprs := spr_set_positions S1Payout os\<rparr>)))"

section \<open>The graders\<close>

definition AddSPR_S1 :: "baseStakeGrader \<Rightarrow> byte list \<Rightarrow> byte list list \<Rightarrow> byte list \<Rightarrow>
    baseStakeGrader res" where
  "AddSPR_S1 s entryhash extids content =
     rbind (ValidateS1 entryhash extids (stake_height s) content)
       (\<lambda>gspr. Inr (s\<lparr>sprs := sprs s @ [gspr]\<rparr>))"

definition AddSPR_S2 :: "(byte list \<Rightarrow> byte list \<Rightarrow> byte list \<Rightarrow> bool) \<Rightarrow> baseStakeGrader \<Rightarrow>
    byte list \<Rightarrow> byte list list \<Rightarrow> byte list \<Rightarrow> baseStakeGrader res" where
  "AddSPR_S2 verify s entryhash extids content =
     rbind (ValidateS2 verify entryhash extids (stake_height s) content)
       (\<lambda>gspr. Inr (s\<lparr>sprs := sprs s @ [gspr]\<rparr>))"

definition AddSPR_S3 :: "(byte list \<Rightarrow> byte list \<Rightarrow> byte list \<Rightarrow> bool) \<Rightarrow> baseStakeGrader \<Rightarrow>
    byte list \<Rightarrow> byte list list \<Rightarrow> byte list \<Rightarrow> baseStakeGrader res" where
  "AddSPR_S3 verify s entryhash extids content =
     rbind (ValidateS3 verify entryhash extids (stake_height s) content)
       (\<lambda>gspr. Inr (s\<lparr>sprs := sprs s @ [gspr]\<rparr>))"

fun AddSPR :: "(byte list \<Rightarrow> byte list \<Rightarrow> byte list \<Rightarrow> bool) \<Rightarrow> StakeGrader \<Rightarrow> byte list \<Rightarrow>
    byte list list \<Rightarrow> byte list \<Rightarrow> StakeGrader res" where
  "AddSPR verify (S1BlockGrader s) eh ext c = rbind (AddSPR_S1 s eh ext c) (\<lambda>s. Inr (S1BlockGrader s))"
| "AddSPR verify (S2BlockGrader s) eh ext c =
     rbind (AddSPR_S2 verify s eh ext c) (\<lambda>s. Inr (S2BlockGrader s))"
| "AddSPR verify (S3BlockGrader s) eh ext c =
     rbind (AddSPR_S3 verify s eh ext c) (\<lambda>s. Inr (S3BlockGrader s))"

definition new_stake_block :: "baseStakeGrader \<Rightarrow> int \<Rightarrow> baseStakeBlock" where
  "new_stake_block s c = cloneSPRS (sprs s) \<lparr>graded_sprs = [], stake_cutoff = c,
     stake_block_height = stake_height s, stake_block_count = 0, stake_shorthashes = []\<rparr>"

definition S1_GradeCustom :: "baseStakeGrader \<Rightarrow> int \<Rightarrow> baseStakeBlock res" where
  "S1_GradeCustom s c = S1_grade (spr_filterDuplicates (new_stake_block s c))"

definition S2_GradeCustom :: "baseStakeGrader \<Rightarrow> int \<Rightarrow> baseStakeBlock res" where
  "S2_GradeCustom s c = S2_grade (spr_filterDuplicates (new_stake_block s c))"

definition S3_GradeCustom :: "baseStakeGrader \<Rightarrow> int \<Rightarrow> baseStakeBlock res" where
  "S3_GradeCustom s c = S3_grade (spr_filterDuplicates (new_stake_block s c))"

datatype StakeBlock =
    S1GradedBlock baseStakeBlock
  | S2GradedBlock baseStakeBlock
  | S3GradedBlock baseStakeBlock

fun StakeGradeCustom :: "StakeGrader \<Rightarrow> int \<Rightarrow> StakeBlock res" where
  "StakeGradeCustom (S1BlockGrader s) c = rbind (S1_GradeCustom s c) (\<lambda>b. Inr (S1GradedBlock b))"
| "StakeGradeCustom (S2BlockGrader s) c = rbind (S2_GradeCustom s c) (\<lambda>b. Inr (S2GradedBlock b))"
| "StakeGradeCustom (S3BlockGrader s) c = rbind (S3_GradeCustom s c) (\<lambda>b. Inr (S3GradedBlock b))"

definition StakeGrade :: "StakeGrader \<Rightarrow> StakeBlock res" where
  "StakeGrade g = StakeGradeCustom g 50"

fun StakePayout :: "StakeGrader \<Rightarrow> int \<Rightarrow> int" where
  "StakePayout (S1BlockGrader _) i = S1Payout i"
| "StakePayout (S2BlockGrader _) i = S1Payout i"
| "StakePayout (S3BlockGrader _) i = S1Payout i"

fun stake_block_of :: "StakeBlock \<Rightarrow> baseStakeBlock" where
  "stake_block_of (S1GradedBlock b) = b"
| "stake_block_of (S2GradedBlock b) = b"
| "stake_block_of (S3GradedBlock b) = b"

fun StakeBlockVersion :: "StakeBlock \<Rightarrow> byte" where
  "StakeBlockVersion (S1GradedBlock _) = 5"
| "StakeBlockVersion (S2GradedBlock _) = 6"
| "StakeBlockVersion (S3GradedBlock _) = 7"

fun StakeWinnerAmount :: "StakeBlock \<Rightarrow> nat" where
  "StakeWinnerAmount (S1GradedBlock _) = 25"
| "StakeWinnerAmount (S2GradedBlock _) = 25"
| "StakeWinnerAmount (S3GradedBlock _) = 25"

definition stake_winners :: "baseStakeBlock \<Rightarrow> GradingSPR list" where
  "stake_winners b = (if length (graded_sprs b) < 25 then [] else take 25 (graded_sprs b))"

fun StakeWinners :: "StakeBlock \<Rightarrow> GradingSPR list" where
  "StakeWinners (S1GradedBlock b) = stake_winners b"
| "StakeWinners (S2GradedBlock b) = stake_winners b"
| "StakeWinners (S3GradedBlock b) = stake_winners b"

definition StakeShortHashes :: "StakeBlock \<Rightarrow> string list" where
  "StakeShortHashes g = stake_shorthashes (stake_block_of g)"

definition StakeGraded :: "StakeBlock \<Rightarrow> GradingSPR list" where
  "StakeGraded g = graded_sprs (stake_block_of g)"

definition StakeCutoff :: "StakeBlock \<Rightarrow> int" where
  "StakeCutoff g = stake_cutoff (stake_block_of g)"

definition StakeBlockCount :: "StakeBlock \<Rightarrow> nat" where
  "StakeBlockCount g = stake_block_count (stake_block_of g)"

section \<open>The algorithm implements the grading interface\<close>

lemma spr_Uint64ToFloat_eq: "spr_Uint64ToFloat = Uint64ToFloat"
  by (simp add: fun_eq_iff spr_Uint64ToFloat_def Uint64ToFloat_def)

lemma stake_bands: "S1Band = V5Band" "S2Band = V5Band" "S3Band = V5Band"
  by (simp_all add: S1Band_def S2Band_def S3Band_def V5Band_def)

lemma spr_prices_Grade [simp]: "spr_prices (g\<lparr>spr_Grade := s\<rparr>) = spr_prices g"
  by (simp add: spr_prices_def)

lemma spr_readable_Grade [simp]:
  "readable spr_prices L P (g\<lparr>spr_Grade := s\<rparr>) = readable spr_prices L P g"
  by (simp add: readable_def)

lemma spr_sorted_resort:
  "\<forall>x \<in> set os. spr_Grade x \<noteq> NaN \<Longrightarrow> sorted (map spr_Grade (spr_resort os))"
  unfolding spr_resort_def
  by (rule sort_stable_sorted) (simp add: spr_lower_grade_def flt_iff_less)

lemma gradeS1_readable:
  assumes "sound_distance (banded_distance band)" "length a = L \<and> list_all (below_grid 1 m) a"
    "readable spr_prices L finite_price g"
  shows "\<exists>s. gradeS1 a g band = Inr (g\<lparr>spr_Grade := s\<rparr>) \<and> s \<noteq> NaN"
proof -
  obtain vs where vs: "spr_prices g = Inr vs" "length vs = L" "list_all finite_price vs"
    using assms(3) by (auto simp: readable_def)
  obtain s where "grade_sum (banded_distance band) a vs (Fin 0) = Inr s" "fnonneg s"
    using grade_sum_ok [OF assms(1), of m a vs "Fin 0"] assms(2) vs by auto
  with vs show ?thesis by (intro exI [of _ s]) (auto simp: gradeS1_def fnonneg_def)
qed

interpretation s1: grading "readable spr_prices L (below_grid 1 64)" spr_Grade
  "\<lambda>s g. g\<lparr>spr_Grade := s\<rparr>" averageS1
  "\<lambda>i avg g. gradeS1 avg g (if 25 \<le> i then V5Band else Fin 0)" spr_resort
  "\<lambda>a. length a = L \<and> list_all (below_grid 1 64) a" "2 ^ 50" for L
proof unfold_locales
  show "\<exists>a. averageS1 os = Inr a \<and> length a = L \<and> list_all (below_grid 1 64) a"
    if "os \<noteq> []" "length os \<le> 2 ^ 50" "\<forall>x \<in> set os. readable spr_prices L (below_grid 1 64) x" for os
    using average_trimmed_ok [of os spr_prices L 64] that by (simp add: averageS1_def)
  show "\<exists>g. gradeS1 a x (if 25 \<le> i then V5Band else Fin 0) = Inr (x\<lparr>spr_Grade := g\<rparr>) \<and> g \<noteq> NaN"
    if "length a = L \<and> list_all (below_grid 1 64) a" "readable spr_prices L (below_grid 1 64) x"
    for a x and i :: nat
    by (rule gradeS1_readable [OF sound_V5 that(1)])
      (rule readable_mono [OF that(2) bounded_finite [OF below_grid_bounded]])
qed (simp_all add: gradeS1_def spr_resort_def spr_sorted_resort [unfolded spr_resort_def])

end
