(* ===== verification/StakeGrader_Correct.thy ===== *)
theory StakeGrader_Correct
  imports StakeGrader
begin

text \<open>
  What the staking graders guarantee: conditions of their validators, the graders reachable by
  \<open>NewStakeGrader\<close> and \<open>AddSPR\<close>, the properties of a graded block, and what a signature does not
  protect.
\<close>

section \<open>One record for each address\<close>

lemma spr_filter_dups_set: "set (spr_filter_dups A gs) \<subseteq> set gs"
  by (induction A gs rule: spr_filter_dups.induct) (auto simp: Let_def)

lemma spr_filter_dups_addresses:
  "spr_CoinbaseAddress ` set (spr_filter_dups A gs) = spr_CoinbaseAddress ` set gs - A"
  by (induction A gs rule: spr_filter_dups.induct) (auto simp: Let_def)

lemma spr_filter_dups_distinct: "distinct (map spr_CoinbaseAddress (spr_filter_dups A gs))"
proof (induction A gs rule: spr_filter_dups.induct)
  case (2 A g gs)
  then show ?case
    using spr_filter_dups_addresses [of "insert (spr_CoinbaseAddress g) A" gs] by (auto simp: Let_def)
qed simp

text \<open>The record kept for an address is the first one added.\<close>

lemma spr_filter_dups_first:
  assumes "g \<in> set (spr_filter_dups A gs)"
  shows "find (\<lambda>h. spr_CoinbaseAddress h = spr_CoinbaseAddress g) gs = Some g
    \<and> spr_CoinbaseAddress g \<notin> A"
  using assms
proof (induction A gs rule: spr_filter_dups.induct)
  case (2 A h gs)
  show ?case
  proof (cases "spr_CoinbaseAddress h \<in> A")
    case True
    with 2(1) 2(3) have "find (\<lambda>h. spr_CoinbaseAddress h = spr_CoinbaseAddress g) gs = Some g"
      "spr_CoinbaseAddress g \<notin> A" by (simp_all add: Let_def)
    with True show ?thesis by auto
  next
    case False
    then consider "g = h" | "g \<in> set (spr_filter_dups (insert (spr_CoinbaseAddress h) A) gs)"
      using 2(3) by (auto simp: Let_def)
    then show ?thesis
    proof cases
      case 2
      with "2.IH"(2) [OF refl False] show ?thesis by auto
    qed (use False in simp)
  qed
qed simp

lemma spr_Clone_sels [simp]:
  "spr_EntryHash (GradingSPR_Clone x) = spr_EntryHash x" "SPRHash (GradingSPR_Clone x) = SPRHash x"
  "spr_CoinbaseAddress (GradingSPR_Clone x) = spr_CoinbaseAddress x"
  "spr_Grade (GradingSPR_Clone x) = spr_Grade x" "spr_position (GradingSPR_Clone x) = spr_position x"
  "spr_payout (GradingSPR_Clone x) = spr_payout x" "Assets (SPR (GradingSPR_Clone x)) = Assets (SPR x)"
  by (simp_all add: GradingSPR_Clone_def S1_Clone_def)

lemma spr_prices_Clone [simp]: "spr_prices (GradingSPR_Clone x) = spr_prices x"
  by (simp add: spr_prices_def S1_GetOrderedAssetsFloat_def)

text \<open>The records that are graded.\<close>

definition stake_candidates :: "StakeGrader \<Rightarrow> GradingSPR list" where
  "stake_candidates g = spr_filter_dups {} (map GradingSPR_Clone (sprs (stake_base_of g)))"

lemma set_stake_candidates:
  "x \<in> set (stake_candidates g) \<Longrightarrow> \<exists>y \<in> set (sprs (stake_base_of g)). x = GradingSPR_Clone y"
  using spr_filter_dups_set [of "{}" "map GradingSPR_Clone (sprs (stake_base_of g))"]
  by (auto simp: stake_candidates_def)

lemma stake_candidates_Clone:
  "stake_candidates g = map GradingSPR_Clone (spr_filter_dups {} (sprs (stake_base_of g)))"
proof -
  have "spr_filter_dups A (map GradingSPR_Clone xs) = map GradingSPR_Clone (spr_filter_dups A xs)" for A xs
    by (induction A xs rule: spr_filter_dups.induct) (auto simp: Let_def)
  then show ?thesis by (simp add: stake_candidates_def)
qed

section \<open>What a validated record is\<close>

definition stake_entry_ok :: "byte \<Rightarrow> byte list \<Rightarrow> byte list list \<Rightarrow> bool" where
  "stake_entry_ok ver eh ext \<longleftrightarrow> length eh = 32 \<and> length ext = 3 \<and> ext ! 0 = [ver]"

definition stake_content_ok :: "32 word \<Rightarrow> V2Content \<Rightarrow> bool" where
  "stake_content_ok h m \<longleftrightarrow> Height m = h \<and> length (Assets m) = 62 \<and> 0 \<notin> set (Assets m)
     \<and> Valid (Address m) = Inr ()"

definition signed_by :: "(byte list \<Rightarrow> byte list \<Rightarrow> byte list \<Rightarrow> bool) \<Rightarrow> byte list \<Rightarrow> byte list \<Rightarrow> bool" where
  "signed_by verify content ext \<longleftrightarrow> length ext = 96 \<and> verify content (take 32 ext) (drop 32 ext)"

lemma check_signature_Inr:
  "check_signature verify c ext r = Inr x \<longleftrightarrow> signed_by verify c ext \<and> r = Inr x"
  by (auto simp: check_signature_def signed_by_def res_simps)

lemma one_byteI [intro]: "length (x :: byte list) = Suc 0 \<Longrightarrow> x ! 0 = v \<Longrightarrow> x = [v]"
  by (cases x) auto

lemmas validate_simps = res_simps check_address_Inr check_signature_Inr list_ex_iff len_simps
  stake_entry_ok_def stake_content_ok_def

lemma ValidateS1_Inr:
  "ValidateS1 eh ext h content = Inr x \<longleftrightarrow> stake_entry_ok 5 eh ext
     \<and> (\<exists>m. ParseS1Content content = Inr m \<and> stake_content_ok h m \<and> x = newGradingSPR eh content m)"
  by (auto simp: ValidateS1_def validate_simps)

lemma ValidateS2_Inr:
  "ValidateS2 verify eh ext h content = Inr x \<longleftrightarrow> stake_entry_ok 6 eh ext
     \<and> signed_by verify content (ext ! 2)
     \<and> (\<exists>m. ParseS1Content content = Inr m \<and> stake_content_ok h m \<and> x = newGradingSPR eh content m)"
  by (auto simp: ValidateS2_def validate_simps)

lemma ValidateS3_Inr:
  "ValidateS3 verify eh ext h content = Inr x \<longleftrightarrow> stake_entry_ok 7 eh ext
     \<and> signed_by verify content (ext ! 2)
     \<and> (\<exists>m. ParseS1Content content = Inr m \<and> stake_content_ok h m \<and> x = newGradingSPR eh content m)"
  by (auto simp: ValidateS3_def validate_simps)

section \<open>Reachable graders\<close>

inductive stake_reachable :: "(byte list \<Rightarrow> byte list \<Rightarrow> byte list \<Rightarrow> bool) \<Rightarrow> StakeGrader \<Rightarrow> bool"
  for verify where
  new: "NewStakeGrader ver h = Inr g \<Longrightarrow> stake_reachable verify g"
| add: "stake_reachable verify g \<Longrightarrow> AddSPR verify g eh ext content = Inr g' \<Longrightarrow> stake_reachable verify g'"

inductive_cases stake_reachable_elim: "stake_reachable verify g"

definition stake_record_ok :: "32 word \<Rightarrow> GradingSPR \<Rightarrow> bool" where
  "stake_record_ok h x \<longleftrightarrow> length (spr_EntryHash x) = 32 \<and> length (SPRHash x) = 32
     \<and> spr_CoinbaseAddress x = Address (SPR x) \<and> stake_content_ok h (SPR x)
     \<and> spr_Grade x = Fin 0 \<and> spr_position x = 0 \<and> spr_payout x = 0"

fun add_spr :: "StakeGrader \<Rightarrow> GradingSPR \<Rightarrow> StakeGrader" where
  "add_spr (S1BlockGrader s) x = S1BlockGrader (s\<lparr>sprs := sprs s @ [x]\<rparr>)"
| "add_spr (S2BlockGrader s) x = S2BlockGrader (s\<lparr>sprs := sprs s @ [x]\<rparr>)"
| "add_spr (S3BlockGrader s) x = S3BlockGrader (s\<lparr>sprs := sprs s @ [x]\<rparr>)"

fun entry_version :: "StakeGrader \<Rightarrow> byte" where
  "entry_version (S1BlockGrader _) = 5"
| "entry_version (S2BlockGrader _) = 6"
| "entry_version (S3BlockGrader _) = 7"

fun wants_signature :: "StakeGrader \<Rightarrow> bool" where
  "wants_signature (S1BlockGrader _) = False"
| "wants_signature _ = True"

lemma add_spr_sel [simp]:
  "sprs (stake_base_of (add_spr g x)) = sprs (stake_base_of g) @ [x]"
  "StakeHeight (add_spr g x) = StakeHeight g"
  "StakePreviousWinners (add_spr g x) = StakePreviousWinners g"
  by (cases g; simp add: StakeHeight_def StakePreviousWinners_def)+

text \<open>Exactly what \<open>AddSPR\<close> accepts, and what it adds.\<close>

lemma AddSPR_Inr:
  "AddSPR verify g eh ext content = Inr g' \<longleftrightarrow> stake_entry_ok (entry_version g) eh ext
     \<and> (wants_signature g \<longrightarrow> signed_by verify content (ext ! 2))
     \<and> (\<exists>m. ParseS1Content content = Inr m \<and> stake_content_ok (StakeHeight g) m
          \<and> g' = add_spr g (newGradingSPR eh content m))"
  by (cases g) (auto simp: AddSPR_S1_def AddSPR_S2_def AddSPR_S3_def res_simps ValidateS1_Inr
      ValidateS2_Inr ValidateS3_Inr StakeHeight_def)

lemma newGradingSPR_ok:
  "length eh = 32 \<Longrightarrow> stake_content_ok h m \<Longrightarrow> stake_record_ok h (newGradingSPR eh content m)"
  by (simp add: stake_record_ok_def newGradingSPR_def)

definition stake_grader_ok :: "StakeGrader \<Rightarrow> bool" where
  "stake_grader_ok g \<longleftrightarrow> (\<forall>x \<in> set (sprs (stake_base_of g)). stake_record_ok (StakeHeight g) x)
     \<and> StakePreviousWinners g = [] \<and> 0 \<le> sint (StakeHeight g)"

lemma stake_reachable_ok: "stake_reachable verify g \<Longrightarrow> stake_grader_ok g"
proof (induction rule: stake_reachable.induct)
  case (new ver h g)
  then show ?case
    by (auto simp: NewStakeGrader_def res_simps stake_grader_ok_def new_stake_base_def
        StakePreviousWinners_def StakeHeight_def split: if_splits)
next
  case (add g eh ext content g')
  then show ?case
    by (auto simp: AddSPR_Inr stake_grader_ok_def stake_entry_ok_def newGradingSPR_ok)
qed


section \<open>A block is graded\<close>

text \<open>A record without what the grader writes into it.\<close>

definition spr_base :: "GradingSPR \<Rightarrow> GradingSPR" where
  "spr_base x = x\<lparr>spr_Grade := Fin 0, spr_position := 0, spr_payout := 0\<rparr>"

definition spr_strip :: "GradingSPR \<Rightarrow> GradingSPR" where
  "spr_strip x = x\<lparr>spr_Grade := Fin 0\<rparr>"

lemma s1_strip [simp]: "s1.strip = spr_strip"
  by (simp add: fun_eq_iff s1.strip_def spr_strip_def)

lemma spr_base_upd [simp]:
  "spr_base (x\<lparr>spr_position := i, spr_payout := p\<rparr>) = spr_base x" "spr_base (spr_strip x) = spr_base x"
  by (simp_all add: spr_base_def spr_strip_def)

lemma spr_base_sel [simp]:
  "spr_CoinbaseAddress (spr_base x) = spr_CoinbaseAddress x" "spr_EntryHash (spr_base x) = spr_EntryHash x"
  by (simp_all add: spr_base_def)

lemma spr_base_mset:
  assumes "mset (map spr_strip xs) = mset (map spr_strip ys)"
  shows "mset (map spr_base xs) = mset (map spr_base ys)"
proof -
  have "mset (map spr_base (map spr_strip xs)) = mset (map spr_base (map spr_strip ys))"
    using assms by (metis mset_map)
  then show ?thesis by (simp add: comp_def)
qed

lemma length_spr_set_positions [simp]: "length (spr_set_positions pay os) = length os"
  by (simp add: spr_set_positions_def)

lemma nth_spr_set_positions: "i < length os \<Longrightarrow>
    spr_set_positions pay os ! i = (os ! i)\<lparr>spr_position := int i, spr_payout := pay (int i)\<rparr>"
  by (simp add: spr_set_positions_def nth_enumerate_eq)

lemma map_spr_set_positions:
  "(\<And>x i p. f (x\<lparr>spr_position := i, spr_payout := p\<rparr>) = f x) \<Longrightarrow>
     map f (spr_set_positions pay rs) = map f rs"
  by (intro nth_equalityI) (simp_all add: nth_spr_set_positions)

lemma take_spr_set_positions: "take i (spr_set_positions pay rs) = spr_set_positions pay (take i rs)"
  by (intro nth_equalityI) (simp_all add: nth_spr_set_positions)

text \<open>The grade of a record in the round over \<open>i\<close> records with averages \<open>a\<close>.\<close>

definition stake_grade :: "nat \<Rightarrow> f64 list \<Rightarrow> GradingSPR \<Rightarrow> f64" where
  "stake_grade i a x = (case gradeS1 a x (if 25 \<le> i then S1Band else Fin 0) of
     Inr y \<Rightarrow> spr_Grade y | Inl _ \<Rightarrow> NaN)"

definition stake_worst :: "nat \<Rightarrow> GradingSPR list \<Rightarrow> bool" where
  "stake_worst i rs \<longleftrightarrow> (\<exists>ord a. mset (map spr_base ord) = mset (map spr_base (take i rs))
     \<and> averageS1 ord = Inr a
     \<and> (\<forall>x \<in> set (take i rs). stake_grade i a x \<le> stake_grade i a (rs ! (i - 1))))"

lemma s1_score: "s1.score = stake_grade"
  by (simp add: fun_eq_iff s1.score_def stake_grade_def stake_bands)

lemma s1_eliminated: "s1.eliminated i rs \<Longrightarrow> stake_worst i rs"
  unfolding s1.eliminated_def s1_strip s1_score stake_worst_def using spr_base_mset by blast

lemma stake_grade_upd [simp]:
  "stake_grade i a (x\<lparr>spr_position := j, spr_payout := p\<rparr>) = stake_grade i a x"
proof -
  have "gradeS1 a (x\<lparr>spr_position := j, spr_payout := p\<rparr>) b
      = rbind (gradeS1 a x b) (\<lambda>y. Inr (y\<lparr>spr_position := j, spr_payout := p\<rparr>))" for b
  proof (cases "spr_prices x")
    case (Inr vs)
    then show ?thesis
      by (cases "grade_sum (banded_distance b) a vs (Fin 0)") (simp_all add: gradeS1_def spr_prices_def)
  qed (simp add: gradeS1_def spr_prices_def)
  then show ?thesis
    by (cases "gradeS1 a x (if 25 \<le> i then S1Band else Fin 0)") (simp_all add: stake_grade_def)
qed

lemma stake_worst_positions:
  assumes "stake_worst i rs" "0 < i" "i \<le> length rs"
  shows "stake_worst i (spr_set_positions pay rs)"
proof -
  obtain ord a where o: "mset (map spr_base ord) = mset (map spr_base (take i rs))" "averageS1 ord = Inr a"
    "\<forall>x \<in> set (take i rs). stake_grade i a x \<le> stake_grade i a (rs ! (i - 1))"
    using assms(1) by (auto simp: stake_worst_def)
  have "stake_grade i a ` set (take i (spr_set_positions pay rs)) = stake_grade i a ` set (take i rs)"
    using map_spr_set_positions [of "stake_grade i a" pay "take i rs"]
    by (simp add: take_spr_set_positions flip: set_map)
  moreover have "stake_grade i a (spr_set_positions pay rs ! (i - 1)) = stake_grade i a (rs ! (i - 1))"
    using assms by (simp add: nth_spr_set_positions)
  ultimately have "\<forall>x \<in> set (take i (spr_set_positions pay rs)).
      stake_grade i a x \<le> stake_grade i a (spr_set_positions pay rs ! (i - 1))"
    using o(3) by (metis (no_types, lifting) imageE imageI)
  moreover have "map spr_base (take i (spr_set_positions pay rs)) = map spr_base (take i rs)"
    by (simp add: take_spr_set_positions map_spr_set_positions)
  ultimately show ?thesis using o(1,2) unfolding stake_worst_def by metis
qed

text \<open>The three graders are one procedure.\<close>

fun wrap_stake :: "StakeGrader \<Rightarrow> baseStakeBlock \<Rightarrow> StakeBlock" where
  "wrap_stake (S1BlockGrader _) b = S1GradedBlock b"
| "wrap_stake (S2BlockGrader _) b = S2GradedBlock b"
| "wrap_stake (S3BlockGrader _) b = S3GradedBlock b"

lemma wrap_stake_sel [simp]:
  "stake_block_of (wrap_stake g b) = b" "StakeWinnerAmount (wrap_stake g b) = 25"
  "StakeBlockVersion (wrap_stake g b) = entry_version g" "StakeWinners (wrap_stake g b) = stake_winners b"
  by (cases g; simp)+

definition stake_passes :: "nat \<Rightarrow> GradingSPR list \<Rightarrow> GradingSPR list res" where
  "stake_passes = grade_passes (grading_round averageS1
     (\<lambda>i avg g. gradeS1 avg g (if 25 \<le> i then V5Band else Fin 0)) spr_resort) 1"

lemma StakeGradeCustom_eq:
  "StakeGradeCustom g c = rbind (S1_grade ((new_stake_block (stake_base_of g) c)
     \<lparr>graded_sprs := stake_candidates g\<rparr>)) (\<lambda>b. Inr (wrap_stake g b))"
proof -
  have "S2_grade = S1_grade" "S3_grade = S1_grade"
    by (simp_all add: fun_eq_iff S1_grade_def S2_grade_def S3_grade_def stake_bands cong: if_cong)
  then show ?thesis
    by (cases g) (simp_all add: S1_GradeCustom_def S2_GradeCustom_def S3_GradeCustom_def
        spr_filterDuplicates_def stake_candidates_def new_stake_block_def cloneSPRS_def)
qed

lemma S1_grade_eq:
  "S1_grade b0 = (if length (graded_sprs b0) < 25 then Inr b0 else
     rbind (stake_passes (nat (min (stake_cutoff b0) (int (length (graded_sprs b0))))) (graded_sprs b0))
     (\<lambda>os. Inr (b0\<lparr>stake_cutoff := min (stake_cutoff b0) (int (length (graded_sprs b0))),
       graded_sprs := spr_set_positions S1Payout os\<rparr>)))"
proof -
  have "spr_clamp_cutoff b0 = b0\<lparr>stake_cutoff := min (stake_cutoff b0) (int (length (graded_sprs b0)))\<rparr>"
    by (simp add: spr_clamp_cutoff_def min_def)
  then show ?thesis by (simp add: S1_grade_def stake_passes_def Let_def stake_bands cong: if_cong)
qed

lemma stake_record_readable:
  "stake_record_ok h x \<Longrightarrow> readable spr_prices 62 (below_grid 1 64) x"
  using Uint64ToFloat_Fin
  by (simp add: readable_def spr_prices_def S1_GetOrderedAssetsFloat_def ordered_assets_def
      stake_record_ok_def stake_content_ok_def len_simps comp_def split_def list_all_iff
      spr_Uint64ToFloat_eq below_grid_def) blast

lemma stake_candidates_ok:
  assumes "stake_grader_ok g" "x \<in> set (stake_candidates g)"
  shows "readable spr_prices 62 (below_grid 1 64) x" "spr_base x = x" "spr_payout x = 0"
proof -
  obtain y where y: "stake_record_ok (StakeHeight g) y" "x = GradingSPR_Clone y"
    using set_stake_candidates [OF assms(2)] assms(1) by (auto simp: stake_grader_ok_def)
  from stake_record_readable [OF y(1)] y(2) show "readable spr_prices 62 (below_grid 1 64) x"
    by (simp add: readable_def)
  from y show "spr_base x = x" "spr_payout x = 0"
    by (cases y, simp add: stake_record_ok_def spr_base_def GradingSPR_Clone_def)+
qed

definition graded_part :: "StakeGrader \<Rightarrow> int \<Rightarrow> nat" where
  "graded_part g c = nat (min c (int (length (stake_candidates g))))"

lemma graded_part_le: "graded_part g c \<le> length (stake_candidates g)"
  by (simp add: graded_part_def)

lemma StakeGradeCustom_few:
  assumes "length (stake_candidates g) < 25"
  shows "StakeGradeCustom g c = Inr (wrap_stake g ((new_stake_block (stake_base_of g) c)
     \<lparr>graded_sprs := stake_candidates g\<rparr>))"
  using assms by (simp add: StakeGradeCustom_eq S1_grade_eq)

lemma StakeGradeCustom_many:
  assumes "stake_grader_ok g" "25 \<le> length (stake_candidates g)" "c \<le> 2 ^ 50"
  shows "\<exists>rs. StakeGradeCustom g c = Inr (wrap_stake g ((new_stake_block (stake_base_of g) c)
     \<lparr>graded_sprs := spr_set_positions S1Payout rs,
      stake_cutoff := min c (int (length (stake_candidates g)))\<rparr>))
   \<and> mset (map spr_base (take (graded_part g c) rs)) = mset (take (graded_part g c) (stake_candidates g))
   \<and> drop (graded_part g c) rs = drop (graded_part g c) (stake_candidates g)
   \<and> length rs = length (stake_candidates g)
   \<and> (\<forall>i. 1 \<le> i \<longrightarrow> i \<le> graded_part g c \<longrightarrow> stake_worst i (spr_set_positions S1Payout rs))"
proof -
  let ?os = "stake_candidates g" and ?k = "graded_part g c"
  have k: "?k \<le> length ?os" "?k \<le> 2 ^ 50" using assms(3) by (auto simp: graded_part_def)
  have "\<forall>x \<in> set ?os. readable spr_prices 62 (below_grid 1 64) x"
    using stake_candidates_ok(1) [OF assms(1)] by blast
  then obtain rs where rs: "stake_passes ?k ?os = Inr rs"
    "mset (map spr_strip (take ?k rs)) = mset (map spr_strip (take ?k ?os))" "drop ?k rs = drop ?k ?os"
    "length rs = length ?os" "\<forall>i. 1 \<le> i \<longrightarrow> i \<le> ?k \<longrightarrow> s1.eliminated i rs"
    using s1.passes_ok [of 1 ?k ?os 62, OF _ k] unfolding stake_passes_def s1_strip by auto
  have "map spr_base (take ?k ?os) = take ?k ?os"
    using stake_candidates_ok(2) [OF assms(1)] by (intro map_idI) (auto dest: in_set_takeD)
  then have "mset (map spr_base (take ?k rs)) = mset (take ?k ?os)"
    using spr_base_mset [OF rs(2)] by simp
  moreover have "StakeGradeCustom g c = Inr (wrap_stake g ((new_stake_block (stake_base_of g) c)
     \<lparr>graded_sprs := spr_set_positions S1Payout rs, stake_cutoff := min c (int (length ?os))\<rparr>))"
    using assms(2) rs(1)
    by (simp add: StakeGradeCustom_eq S1_grade_eq graded_part_def new_stake_block_def cloneSPRS_def)
  moreover have "stake_worst i (spr_set_positions S1Payout rs)" if "1 \<le> i" "i \<le> ?k" for i
    using that rs(4,5) k(1) by (intro stake_worst_positions s1_eliminated) auto
  ultimately show ?thesis using rs(3,4) by blast
qed


section \<open>A block to apply the properties to\<close>

definition sample_rcd :: "nat \<Rightarrow> byte list" where
  "sample_rcd i = replicate 31 0 @ [word_of_nat i]"

definition sample_spr :: "nat \<Rightarrow> V2Content" where
  "sample_spr i = \<lparr>Address = Random (sample_rcd i), ID = [], Height = 1, Winners = [],
     Assets = replicate 62 1, XXX_unrecognized = []\<rparr>"

definition sample_stake_record :: "nat \<Rightarrow> GradingSPR" where
  "sample_stake_record i = newGradingSPR (replicate 32 0) (MarshalTo (sample_spr i)) (sample_spr i)"

definition sample_stake :: "nat \<Rightarrow> StakeGrader" where
  "sample_stake n = S3BlockGrader \<lparr>sprs = map sample_stake_record [0..<n], stake_height = 1,
     stake_prevWinners = []\<rparr>"

lemma sample_address: "Encode (sample_rcd i) = Inr (Random (sample_rcd i))"
proof -
  have "length (sample_rcd i) = 32" by (simp add: sample_rcd_def)
  then obtain a where "Encode (sample_rcd i) = Inr a" using Encode_Inr_iff by blast
  then show ?thesis by (simp add: Random_def)
qed

lemma length_sample_rcd [simp]: "length (sample_rcd i) = 32"
  by (simp add: sample_rcd_def)

lemma sample_rcd_inj: "sample_rcd i = sample_rcd j \<Longrightarrow> i < 256 \<Longrightarrow> j < 256 \<Longrightarrow> i = j"
  unfolding sample_rcd_def append1_eq_conv word_of_nat_eq_iff by (simp add: take_bit_nat_eq_self)

lemma sample_address_decodes:
  "\<exists>ck. Base58Decode (Random (sample_rcd k)) = FactoidAddressPrefix @ sample_rcd k @ ck"
  using sample_address [of k] Base58Decode_Encode
  unfolding Encode_32 [OF length_sample_rcd] sum.inject by metis

lemma sample_address_inj:
  assumes "Random (sample_rcd i) = Random (sample_rcd j)" "i < 256" "j < 256"
  shows "i = j"
proof -
  obtain c d where "FactoidAddressPrefix @ sample_rcd i @ c = FactoidAddressPrefix @ sample_rcd j @ d"
    using sample_address_decodes [of i] sample_address_decodes [of j] assms(1) by metis
  then have "sample_rcd i @ c = sample_rcd j @ d" by (simp only: same_append_eq)
  then have "sample_rcd i = sample_rcd j" by (rule append_eq_append_conv [THEN iffD1, THEN conjunct1, rotated]) simp
  then show ?thesis using assms(2,3) by (rule sample_rcd_inj)
qed

lemma sample_Parse: "ParseS1Content (MarshalTo (sample_spr i)) = Inr (sample_spr i)"
proof -
  have l: "length (Random (sample_rcd i)) = 52" using Encode_shape [OF sample_address] by blast
  then have "Size (sample_spr i) < 2 ^ 63" "0 < Size (sample_spr i)"
    by (simp_all add: Size_def sample_spr_def sov_len_def sov.simps sum_list_replicate)
  then show ?thesis
    using Unmarshal_MarshalTo [of "sample_spr i"]
    by (simp add: ParseS1Content_def length_MarshalTo sample_spr_def)
qed

lemma sample_content_ok: "stake_content_ok 1 (sample_spr i)"
  using Valid_Encode [OF sample_address] by (simp add: stake_content_ok_def sample_spr_def)

lemma sample_AddSPR:
  "AddSPR (\<lambda>_ _ _. True) (sample_stake n) (replicate 32 0) [[7], [], replicate 96 0]
     (MarshalTo (sample_spr n)) = Inr (sample_stake (Suc n))"
  by (simp add: AddSPR_Inr stake_entry_ok_def signed_by_def sample_Parse)
    (simp add: sample_stake_def StakeHeight_def sample_content_ok sample_stake_record_def)

lemma sample_stake_reachable: "stake_reachable (\<lambda>_ _ _. True) (sample_stake n)"
proof (induction n)
  case 0
  have "NewStakeGrader 7 1 = Inr (sample_stake 0)"
    by (simp add: NewStakeGrader_def sample_stake_def new_stake_base_def)
  then show ?case by (rule stake_reachable.new)
qed (rule stake_reachable.add [OF _ sample_AddSPR])

lemma spr_filter_dups_id:
  "distinct (map spr_CoinbaseAddress gs) \<Longrightarrow> spr_CoinbaseAddress ` set gs \<inter> A = {} \<Longrightarrow>
     spr_filter_dups A gs = gs"
  by (induction A gs rule: spr_filter_dups.induct) (auto simp: Let_def)

lemma sample_stake_candidates:
  assumes "n \<le> 256" shows "length (stake_candidates (sample_stake n)) = n"
proof -
  have "distinct (map spr_CoinbaseAddress (map sample_stake_record [0..<n]))"
    using sample_address_inj assms
    by (auto simp: distinct_map inj_on_def sample_stake_record_def newGradingSPR_def sample_spr_def)
  then show ?thesis
    by (simp add: stake_candidates_Clone sample_stake_def spr_filter_dups_id)
qed

section \<open>Properties of a graded block\<close>

lemma StakeGraded_records:
  assumes "stake_grader_ok g" "c \<le> 2 ^ 50" "StakeGradeCustom g c = Inr b"
  shows "mset (map spr_base (StakeGraded b)) = mset (stake_candidates g)"
proof (cases "length (stake_candidates g) < 25")
  case True
  have "map spr_base (stake_candidates g) = stake_candidates g"
    using stake_candidates_ok(2) [OF assms(1)] by (intro map_idI)
  with StakeGradeCustom_few [OF True, of c] assms(3) show ?thesis
    by (auto simp: StakeGraded_def simp flip: mset_map)
next
  case False
  let ?k = "graded_part g c"
  obtain rs where rs: "StakeGraded b = spr_set_positions S1Payout rs"
    "mset (map spr_base (take ?k rs)) = mset (take ?k (stake_candidates g))"
    "drop ?k rs = drop ?k (stake_candidates g)"
    using StakeGradeCustom_many [OF assms(1) _ assms(2)] False assms(3) by (fastforce simp: StakeGraded_def)
  have "map spr_base (drop ?k (stake_candidates g)) = drop ?k (stake_candidates g)"
    using stake_candidates_ok(2) [OF assms(1)] by (intro map_idI) (auto dest: in_set_dropD)
  then have "mset (map spr_base (take ?k rs @ drop ?k rs))
      = mset (take ?k (stake_candidates g) @ drop ?k (stake_candidates g))"
    by (simp only: map_append mset_append rs(2,3))
  then show ?thesis
    unfolding append_take_drop_id by (simp only: rs(1) map_spr_set_positions spr_base_upd)
qed

lemma StakeGraded_length:
  assumes "stake_grader_ok g" "c \<le> 2 ^ 50" "StakeGradeCustom g c = Inr b"
  shows "length (StakeGraded b) = length (stake_candidates g)"
  using StakeGraded_records [OF assms] by (metis length_map size_mset)

text \<open>
  Grading a staking block never fails, whatever was added and whatever the cutoff; the block has
  the version of the entries, counts every added record, and hands on no winners: the short hashes
  are never set.
\<close>

theorem Stake_total:
  assumes "stake_reachable verify g" "c \<le> 2 ^ 50"
  shows "\<exists>b. StakeGradeCustom g c = Inr b \<and> StakeBlockVersion b = entry_version g
    \<and> StakeBlockCount b = StakeCount g \<and> StakeShortHashes b = []"
proof -
  have nb: "stake_block_count (new_stake_block (stake_base_of g) c) = StakeCount g"
    "stake_shorthashes (new_stake_block (stake_base_of g) c) = []"
    by (simp_all add: new_stake_block_def cloneSPRS_def StakeCount_def)
  show ?thesis
  proof (cases "length (stake_candidates g) < 25")
    case True
    from StakeGradeCustom_few [OF this, of c] nb show ?thesis
      by (simp add: StakeBlockCount_def StakeShortHashes_def)
  next
    case False
    with StakeGradeCustom_many [OF stake_reachable_ok [OF assms(1)] _ assms(2)] nb show ?thesis
      by (fastforce simp: StakeBlockCount_def StakeShortHashes_def)
  qed
qed

lemma Stake_total_witness:
  "\<exists>b. StakeGradeCustom (sample_stake 25) 50 = Inr b \<and> StakeBlockVersion b = 7 \<and> StakeShortHashes b = []"
  using Stake_total [OF sample_stake_reachable [of 25], of 50] by (auto simp: sample_stake_def)



text \<open>
  C14. With at least 25 addresses the record at place \<open>i\<close> has position \<open>i\<close>, the first 25 win 180
  PEG each, 4500 PEG in all, and nobody else is paid; with fewer nobody wins or is paid.
\<close>

theorem Stake_payouts:
  assumes "stake_reachable verify g" "c \<le> 2 ^ 50" "StakeGradeCustom g c = Inr b"
  shows "if 25 \<le> length (StakeGraded b)
    then (\<forall>i < length (StakeGraded b). spr_position (StakeGraded b ! i) = int i
            \<and> spr_payout (StakeGraded b ! i) = (if i < 25 then 18000000000 else 0))
       \<and> StakeWinners b = take 25 (StakeGraded b)
       \<and> (\<Sum>x\<leftarrow>StakeGraded b. spr_payout x) = 450000000000
    else (\<forall>x \<in> set (StakeGraded b). spr_payout x = 0) \<and> StakeWinners b = []"
proof (cases "length (stake_candidates g) < 25")
  case True
  with StakeGradeCustom_few [OF True, of c] assms(3) stake_candidates_ok(3) [OF stake_reachable_ok [OF assms(1)]]
  show ?thesis by (auto simp: StakeGraded_def stake_winners_def)
next
  case False
  then obtain rs where rs: "StakeGraded b = spr_set_positions S1Payout rs"
    "length rs = length (stake_candidates g)" "StakeWinners b = take 25 (StakeGraded b)"
    using StakeGradeCustom_many [OF stake_reachable_ok [OF assms(1)] _ assms(2)] assms(3)
    by (fastforce simp: StakeGraded_def stake_winners_def)
  have pay: "S1Payout (int i) = (if i < 25 then 18000000000 else 0)" for i
    by (simp add: S1Payout_def)
  have "map spr_payout (StakeGraded b) = map (\<lambda>i. S1Payout (int i)) [0..<length rs]"
    by (intro nth_equalityI) (simp_all add: rs(1) nth_spr_set_positions)
  also have "[0..<length rs] = [0..<25] @ [25..<length rs]"
    using False rs(2) upt_add_eq_append [of 0 25 "length rs - 25"] by simp
  finally have "map spr_payout (StakeGraded b) = map (\<lambda>i. S1Payout (int i)) ([0..<25] @ [25..<length rs])" .
  moreover have "map (\<lambda>i. S1Payout (int i)) [25..<length rs] = map (\<lambda>_. 0) [25..<length rs]"
    by (intro map_cong) (simp_all add: pay)
  moreover have "map (\<lambda>i. S1Payout (int i)) [0..<25] = map (\<lambda>_. 18000000000) [0..<25]"
    by (intro map_cong) (simp_all add: pay)
  ultimately have "(\<Sum>x\<leftarrow>StakeGraded b. spr_payout x) = 450000000000"
    by (simp add: sum_list_triv)
  with rs False show ?thesis by (simp add: nth_spr_set_positions pay)
qed

lemma sample_stake_graded:
  "\<exists>b. StakeGradeCustom (sample_stake 25) 50 = Inr b \<and> length (StakeGraded b) = 25"
proof -
  have ok: "stake_grader_ok (sample_stake 25)" by (rule stake_reachable_ok [OF sample_stake_reachable])
  have "25 \<le> length (stake_candidates (sample_stake 25))" by (simp add: sample_stake_candidates)
  from StakeGradeCustom_many [OF ok this, of 50] obtain b where
    "StakeGradeCustom (sample_stake 25) 50 = Inr b" by auto
  with StakeGraded_length [OF ok _ this] show ?thesis by (simp add: sample_stake_candidates)
qed

lemma Stake_payouts_witness:
  "\<exists>b. StakeGradeCustom (sample_stake 25) 50 = Inr b \<and> (\<Sum>x\<leftarrow>StakeGraded b. spr_payout x) = 450000000000"
proof -
  obtain b where b: "StakeGradeCustom (sample_stake 25) 50 = Inr b" "length (StakeGraded b) = 25"
    using sample_stake_graded by blast
  then show ?thesis using Stake_payouts [OF sample_stake_reachable [of 25] _ b(1)] by simp
qed

text \<open>
  The ranking of a staking block is an elimination among the first \<open>c\<close> records only: each of
  their places went to a record whose grade none of those before it exceeded in its round; the
  records added after the first \<open>c\<close> are not graded and keep their places, so with the default
  cutoff none of them can win.
\<close>

theorem Stake_elimination:
  assumes "stake_reachable verify g" "c \<le> 2 ^ 50" "StakeGradeCustom g c = Inr b"
    "25 \<le> length (StakeGraded b)"
  shows "(\<forall>i. 1 \<le> i \<longrightarrow> int i \<le> c \<longrightarrow> i \<le> length (StakeGraded b) \<longrightarrow> stake_worst i (StakeGraded b))
    \<and> (\<forall>i < length (StakeGraded b). c \<le> int i \<longrightarrow>
         spr_base (StakeGraded b ! i)
         = GradingSPR_Clone (spr_filter_dups {} (sprs (stake_base_of g)) ! i))"
proof -
  let ?k = "graded_part g c"
  note ok = stake_reachable_ok [OF assms(1)]
  have "25 \<le> length (stake_candidates g)" using StakeGraded_length [OF ok assms(2,3)] assms(4) by simp
  then obtain rs where rs: "StakeGraded b = spr_set_positions S1Payout rs"
    "drop ?k rs = drop ?k (stake_candidates g)" "length rs = length (stake_candidates g)"
    "\<forall>i. 1 \<le> i \<longrightarrow> i \<le> ?k \<longrightarrow> stake_worst i (spr_set_positions S1Payout rs)"
    using StakeGradeCustom_many [OF ok _ assms(2)] assms(3) by (fastforce simp: StakeGraded_def)
  have "spr_base (StakeGraded b ! i) = GradingSPR_Clone (spr_filter_dups {} (sprs (stake_base_of g)) ! i)"
    if i: "i < length (StakeGraded b)" "c \<le> int i" for i
  proof -
    have k: "?k \<le> i" "i < length rs" using i rs(1) by (auto simp: graded_part_def)
    then have "rs ! i = stake_candidates g ! i"
      using rs(3) arg_cong [OF rs(2), of "\<lambda>xs. xs ! (i - ?k)"] by simp
    moreover have "spr_base (stake_candidates g ! i) = stake_candidates g ! i"
      using k rs(3) by (intro stake_candidates_ok(2) [OF ok]) simp
    ultimately show ?thesis using k rs by (simp add: nth_spr_set_positions stake_candidates_Clone)
  qed
  moreover have "stake_worst i (StakeGraded b)" if "1 \<le> i" "int i \<le> c" "i \<le> length (StakeGraded b)" for i
    using that rs by (auto simp: graded_part_def)
  ultimately show ?thesis by blast
qed

lemma Stake_elimination_witness:
  "\<exists>b. StakeGradeCustom (sample_stake 25) 50 = Inr b \<and> stake_worst 25 (StakeGraded b)"
proof -
  obtain b where b: "StakeGradeCustom (sample_stake 25) 50 = Inr b" "length (StakeGraded b) = 25"
    using sample_stake_graded by blast
  then show ?thesis using Stake_elimination [OF sample_stake_reachable [of 25] _ b(1)] by simp
qed

text \<open>
  C15. The signature does not tie a record to its payout address: whatever a grader accepts it also
  accepts, with the same result, when the same content is signed with any other key, because the key
  is taken from the entry and not compared with the address.
\<close>

theorem Stake_key_unbound:
  assumes "AddSPR verify g eh ext content = Inr g'" "length pk = 32" "length sg = 64"
    "verify content pk sg"
  shows "AddSPR verify g eh (ext[1 := rcd, 2 := pk @ sg]) content = Inr g'"
  using assms by (auto simp: AddSPR_Inr stake_entry_ok_def signed_by_def)

lemma Stake_key_unbound_witness:
  "AddSPR (\<lambda>_ _ _. True) (sample_stake 0) (replicate 32 0)
     ([[7], [], replicate 96 0][1 := [1], 2 := replicate 32 1 @ replicate 64 2]) (MarshalTo (sample_spr 0))
   = Inr (sample_stake (Suc 0))"
  by (rule Stake_key_unbound [OF sample_AddSPR]) simp_all

end
