(* ===== verification/Common.thy ===== *)
theory Common
  imports Assets FactoidAddress
begin

text \<open>
  Package common: the networks and their activation heights (common.go, activation.go), the asset
  lists (assets.go), the addresses of PegNet tokens and the chain identifiers (utils.go,
  factomUtils.go). The third-party base58 coder is a pair of arguments \<open>enc\<close> and \<open>dec\<close>; what the code
  relies on is the locale \<open>base58_coder\<close>.
\<close>

section \<open>common.go\<close>

definition MainNetwork :: string where "MainNetwork = ''MainNet''"
definition TestNetwork :: string where "TestNetwork = ''TestNet-pM7''"
definition UnitTestNetwork :: string where "UnitTestNetwork = ''unit-test''"

definition lower_char :: "char \<Rightarrow> char" where
  "lower_char c = (let n = of_char c :: nat in if 65 \<le> n \<and> n \<le> 90 then char_of (n + 32) else c)"

text \<open>\<open>strings.ToLower\<close> of an ASCII string.\<close>

definition ToLower :: "string \<Rightarrow> string" where
  "ToLower s = map lower_char s"

definition GetNetwork :: "string \<Rightarrow> string res" where
  "GetNetwork network = (let n = ToLower network in
     if n = ToLower MainNetwork then Inr MainNetwork
     else if n = ToLower TestNetwork \<or> n = ToLower ''TestNet'' then Inr TestNetwork
     else if n = ToLower UnitTestNetwork \<or> n = ToLower ''UnitTest'' then Inr UnitTestNetwork
     else Inl (GoError ([CHR 0x27] @ network @ [CHR 0x27] @ '' is not a valid network'')))"

section \<open>activation.go\<close>

text \<open>
  The heights are package variables; the unit tests change them and the version of the unit-test
  network, the rest of the program only reads them.
\<close>

definition ActivationHeights :: "string \<rightharpoonup> int" where
  "ActivationHeights = [MainNetwork \<mapsto> 206422, TestNetwork \<mapsto> 0]"

definition V2GradingActivation :: int where "V2GradingActivation = 210330"
definition FloatingPegPriceActivation :: int where "FloatingPegPriceActivation = 222270"
definition V4HeightActivation :: int where "V4HeightActivation = 231620"
definition V20HeightActivation :: int where "V20HeightActivation = 258796"
definition SprSignatureActivation :: int where "SprSignatureActivation = 260118"
definition V202EnhanceActivation :: int where "V202EnhanceActivation = 274036"

definition main_grading_version :: "int \<Rightarrow> byte" where
  "main_grading_version height =
     (if height < V2GradingActivation then 1
      else if height < FloatingPegPriceActivation then 2
      else if height < V4HeightActivation then 3
      else if height < V20HeightActivation then 4
      else 5)"

definition GradingHeights :: "string \<rightharpoonup> (int \<Rightarrow> byte)" where
  "GradingHeights = [MainNetwork \<mapsto> main_grading_version, TestNetwork \<mapsto> (\<lambda>_. 5)]"

definition staking_version :: "int \<Rightarrow> byte" where
  "staking_version height =
     (if height < SprSignatureActivation then 5
      else if height < V202EnhanceActivation then 6
      else 7)"

definition StakingHeights :: "string \<rightharpoonup> (int \<Rightarrow> byte)" where
  "StakingHeights = [MainNetwork \<mapsto> staking_version, TestNetwork \<mapsto> staking_version]"

definition NetworkActive :: "string \<Rightarrow> int \<Rightarrow> bool" where
  "NetworkActive network height = (case ActivationHeights network of
     Some m \<Rightarrow> height \<ge> m | None \<Rightarrow> True)"

text \<open>An unknown network reads as a nil function, and calling it panics.\<close>

definition OPRVersion :: "string \<Rightarrow> int \<Rightarrow> byte res" where
  "OPRVersion network height = (case GradingHeights network of
     Some f \<Rightarrow> Inr (f height) | None \<Rightarrow> Inl (Panic ''nil pointer dereference''))"

definition SPRVersion :: "string \<Rightarrow> int \<Rightarrow> byte res" where
  "SPRVersion network height = (case StakingHeights network of
     Some f \<Rightarrow> Inr (f height) | None \<Rightarrow> Inl (Panic ''nil pointer dereference''))"

section \<open>assets.go\<close>

definition PEGAsset :: "string list" where "PEGAsset = [''PEG'']"

definition CurrencyAssets :: "string list" where
  "CurrencyAssets = [''USD'', ''EUR'', ''JPY'', ''GBP'', ''CAD'', ''CHF'', ''INR'', ''SGD'', ''CNY'',
     ''HKD'', ''KRW'', ''BRL'', ''PHP'', ''MXN'']"

definition CommodityAssets :: "string list" where
  "CommodityAssets = [''XAU'', ''XAG'', ''XPD'', ''XPT'']"

definition CryptoAssets :: "string list" where
  "CryptoAssets = [''XBT'', ''ETH'', ''LTC'', ''RVN'', ''XBC'', ''FCT'', ''BNB'', ''XLM'', ''ADA'',
     ''XMR'', ''DASH'', ''ZEC'', ''DCR'']"

definition V4CurrencyAdditions :: "string list" where
  "V4CurrencyAdditions = [''AUD'', ''NZD'', ''SEK'', ''NOK'', ''RUB'', ''ZAR'', ''TRY'']"

definition V4CryptoAdditions :: "string list" where
  "V4CryptoAdditions = [''EOS'', ''LINK'', ''ATOM'', ''BAT'', ''XTZ'']"

definition V5CryptoAdditions :: "string list" where
  "V5CryptoAdditions = [''HBAR'', ''NEO'', ''CRO'', ''ETC'', ''ONT'', ''DOGE'', ''VET'', ''HT'',
     ''ALGO'', ''DGB'']"

definition V5CurrencyAdditions :: "string list" where
  "V5CurrencyAdditions = [''AED'', ''ARS'', ''TWD'', ''RWF'', ''KES'', ''UGX'', ''TZS'', ''BIF'',
     ''ETB'', ''NGN'']"

fun AssetListContains :: "string list \<Rightarrow> string \<Rightarrow> bool" where
  "AssetListContains [] asset = False"
| "AssetListContains (a # as) asset = (asset = a \<or> AssetListContains as asset)"

definition AssetListContainsCaseInsensitive :: "string list \<Rightarrow> string \<Rightarrow> bool" where
  "AssetListContainsCaseInsensitive assetList asset =
     list_ex (\<lambda>a. ToLower asset = ToLower a) assetList"

definition SubtractFromSet :: "string list \<Rightarrow> string list \<Rightarrow> string list" where
  "SubtractFromSet s sub = filter (\<lambda>r. \<not> AssetListContains sub r) s"

definition MergeLists :: "string list list \<Rightarrow> string list" where
  "MergeLists ls = foldl (@) [] ls"

definition AllAssets :: "string list" where
  "AllAssets = MergeLists [PEGAsset, CurrencyAssets, CommodityAssets, CryptoAssets,
     V4CurrencyAdditions, V4CryptoAdditions, V5CryptoAdditions, V5CurrencyAdditions]"

definition AssetsV1 :: "string list" where
  "AssetsV1 = MergeLists [PEGAsset, CurrencyAssets, CommodityAssets, CryptoAssets]"

definition AssetsV1WithPNT :: "string list" where
  "AssetsV1WithPNT = MergeLists [[''PNT''], SubtractFromSet AssetsV1 [''PEG'']]"

definition AssetsV2 :: "string list" where
  "AssetsV2 = SubtractFromSet AssetsV1 [''XPD'', ''XPT'']"

definition AssetsV4 :: "string list" where
  "AssetsV4 = MergeLists [AssetsV2, V4CurrencyAdditions, V4CryptoAdditions]"

definition AssetsV5 :: "string list" where
  "AssetsV5 = MergeLists [AssetsV4, V5CryptoAdditions, V5CurrencyAdditions]"

section \<open>utils.go: token addresses\<close>

definition PegAssetNames :: "string list" where
  "PegAssetNames = map (\<lambda>asset. if asset \<noteq> ''PEG'' then ''p'' @ asset else asset) AllAssets"

definition TestPegAssetNames :: "string list" where
  "TestPegAssetNames = map (\<lambda>asset. ''t'' @ asset) AllAssets"

definition CheckPrefix :: "string \<Rightarrow> bool" where
  "CheckPrefix name \<longleftrightarrow> name \<in> set PegAssetNames \<or> name \<in> set TestPegAssetNames"

definition asset_checksum :: "string \<Rightarrow> byte list \<Rightarrow> byte list" where
  "asset_checksum prefix adr = take 4 (sha256 (sha256 (bytes_of_string (prefix @ ''_'') @ adr)))"

definition ConvertRawToPegNetAsset :: "(byte list \<Rightarrow> string) \<Rightarrow> string \<Rightarrow> byte list \<Rightarrow> string res" where
  "ConvertRawToPegNetAsset enc prefix adr =
     guard_res (\<not> CheckPrefix prefix) (GoError (prefix @ '' is not a valid PegNet prefix''))
     (Inr (prefix @ ''_'' @ enc (adr @ asset_checksum prefix adr)))"

text \<open>\<open>strings.Index(address, "_")\<close> and the text before it; the results without one are \<open>-1\<close>, "".\<close>

fun index_of :: "char \<Rightarrow> string \<Rightarrow> int" where
  "index_of c [] = - 1"
| "index_of c (d # s) = (if d = c then 0 else let i = index_of c s in if i < 0 then - 1 else i + 1)"

definition GetPrefix :: "string \<Rightarrow> int \<times> string" where
  "GetPrefix address = (let idx = index_of CHR ''_'' address in
     if idx < 0 then (- 1, []) else (idx, take (nat idx) address))"

definition ConvertPegNetAssetToRaw :: "(string \<Rightarrow> byte list) \<Rightarrow> string \<Rightarrow> (string \<times> byte list) res" where
  "ConvertPegNetAssetToRaw dec adr =
     guard_res (length adr < 42 \<or> length adr > 56)
       (GoError (''valid pegNet token addresses are 44 to 56 characters in length. len(adr)=''
         @ itoa (int (length adr)) @ '' ''))
     (let (prefixLen, prefix) = GetPrefix adr in
      guard_res (\<not> CheckPrefix prefix) (GoError (prefix @ '' is not a valid PegNet prefix''))
      (let raw = dec (drop (nat (prefixLen + 1)) adr) in
       guard_res (length raw = 0) (GoError ''invalid base58 encoding'')
       (guard_res (length raw < 4) (Panic ''slice bounds out of range'')
       (let rawAdr = take (length raw - 4) raw; chksum = drop (length raw - 4) raw in
        guard_res (asset_checksum prefix rawAdr \<noteq> chksum) (GoError ''checksum failure'')
        (Inr (prefix, rawAdr))))))"

definition ValidatePegNetAssetAddress :: "(string \<Rightarrow> byte list) \<Rightarrow> string \<Rightarrow> unit res" where
  "ValidatePegNetAssetAddress dec adr = rbind (ConvertPegNetAssetToRaw dec adr) (\<lambda>_. Inr ())"

definition fcPubPrefix :: "byte list" where "fcPubPrefix = [0x5f, 0xb1]"
definition fcSecPrefix :: "byte list" where "fcSecPrefix = [0x64, 0x78]"
definition ecPubPrefix :: "byte list" where "ecPubPrefix = [0x59, 0x2a]"
definition ecSecPrefix :: "byte list" where "ecSecPrefix = [0x5d, 0xb6]"

definition ConvertRawToFCT :: "(byte list \<Rightarrow> string) \<Rightarrow> byte list \<Rightarrow> string" where
  "ConvertRawToFCT enc addr = (let dat = fcPubPrefix @ addr in
     enc (dat @ take 4 (sha256 (sha256 dat))))"

definition ConvertRawToEC :: "(byte list \<Rightarrow> string) \<Rightarrow> byte list \<Rightarrow> string" where
  "ConvertRawToEC enc addr = (let dat = ecPubPrefix @ addr in
     enc (dat @ take 4 (sha256 (sha256 dat))))"

text \<open>Slicing what the decoder returns panics when it is too short, as for a bad digit.\<close>

definition ConvertFCTtoRaw :: "(string \<Rightarrow> byte list) \<Rightarrow> string \<Rightarrow> byte list res" where
  "ConvertFCTtoRaw dec userFAddr =
     guard_res (length userFAddr \<noteq> 52) (GoError ''invalid length of a factoid address'')
     (let v = dec userFAddr in
      guard_res (length v < 2) (Panic ''slice bounds out of range'')
      (guard_res (take 2 v \<noteq> fcPubPrefix) (GoError ''wrong format for a factoid address'')
      (guard_res (length v < 34) (Panic ''slice bounds out of range'')
      (guard_res (take 4 (sha256 (sha256 (take 34 v))) \<noteq> drop 34 v) (GoError '''')
      (Inr (drop 2 (take 34 v)))))))"

definition ConvertAnyFactomAdrToRaw :: "(string \<Rightarrow> byte list) \<Rightarrow> string \<Rightarrow> byte list res" where
  "ConvertAnyFactomAdrToRaw dec userFAddr = (let v = dec userFAddr in
     guard_res (length v < 2) (Panic ''slice bounds out of range'')
     (guard_res (take 2 v \<notin> {fcPubPrefix, fcSecPrefix, ecPubPrefix, ecSecPrefix})
       (GoError ''unknown prefix'')
     (guard_res (length v < 34) (Panic ''slice bounds out of range'') (Inr (drop 2 (take 34 v))))))"

definition ConvertFCTtoPegNetAsset :: "(byte list \<Rightarrow> string) \<Rightarrow> (string \<Rightarrow> byte list) \<Rightarrow> string \<Rightarrow>
    string \<Rightarrow> string \<Rightarrow> string res" where
  "ConvertFCTtoPegNetAsset enc dec network asset userFAdr =
     rbind (ConvertFCTtoRaw dec userFAdr) (\<lambda>raw.
     if network = TestNetwork then ConvertRawToPegNetAsset enc (''t'' @ asset) raw
     else if network = MainNetwork then
       (if asset \<noteq> ''PEG'' then ConvertRawToPegNetAsset enc (''p'' @ asset) raw
        else ConvertRawToPegNetAsset enc asset raw)
     else Inr [])"

text \<open>All token addresses of a Factoid address, two for each asset; a failure panics.\<close>

definition ConvertFCTtoAllPegNetAssets :: "(byte list \<Rightarrow> string) \<Rightarrow> (string \<Rightarrow> byte list) \<Rightarrow> string \<Rightarrow>
    string list res" where
  "ConvertFCTtoAllPegNetAssets enc dec userFctAddr = (let v = dec userFctAddr in
     guard_res (length v < 34) (Panic ''slice bounds out of range'')
     (let raw = drop 2 (take 34 v);
          cvt = (\<lambda>asset. case ConvertRawToPegNetAsset enc asset raw of
            Inl e \<Rightarrow> Inl (Panic (err_msg e)) | Inr s \<Rightarrow> Inr s)
      in rbind (res_map (\<lambda>asset. rbind (cvt (if asset = ''PEG'' then ''PEG'' else ''p'' @ asset)) (\<lambda>p.
          rbind (cvt (''t'' @ asset)) (\<lambda>t. Inr [p, t]))) AllAssets) (\<lambda>ps. Inr (concat ps))))"

definition FindIndexInStringArray :: "string list \<Rightarrow> string \<Rightarrow> int" where
  "FindIndexInStringArray haystack needle =
     (case List.find (\<lambda>i. haystack ! i = needle) [0..<length haystack] of
        Some i \<Rightarrow> int i | None \<Rightarrow> - 1)"

text \<open>\<open>-v\<close> overflows for the least integer.\<close>

definition AbsInt :: "int \<Rightarrow> int" where
  "AbsInt v = (if v < 0 then wrap64 (v * - 1) else v)"

section \<open>factomUtils.go\<close>

definition ComputeChainIDFromFields :: "byte list list \<Rightarrow> byte list" where
  "ComputeChainIDFromFields fs = sha256 (concat (map sha256 fs))"

definition ComputeChainIDFromStrings :: "string list \<Rightarrow> byte list" where
  "ComputeChainIDFromStrings fs = ComputeChainIDFromFields (map bytes_of_string fs)"

definition ComputeRCDFromPubkey :: "byte list \<Rightarrow> byte list" where
  "ComputeRCDFromPubkey pubKey = sha256 (sha256 (0x01 # pubKey))"


section \<open>Versions\<close>

lemma main_grading_version_cases: "main_grading_version h \<in> {1, 2, 3, 4, 5}"
  by (simp add: main_grading_version_def)

lemma staking_version_cases: "staking_version h \<in> {5, 6, 7}"
  by (simp add: staking_version_def)

lemmas activation_defs = V2GradingActivation_def FloatingPegPriceActivation_def V4HeightActivation_def
  V20HeightActivation_def SprSignatureActivation_def V202EnhanceActivation_def

lemma main_grading_version_mono: "h \<le> k \<Longrightarrow> main_grading_version h \<le> main_grading_version k"
  by (auto simp: main_grading_version_def activation_defs)

lemma staking_version_mono: "h \<le> k \<Longrightarrow> staking_version h \<le> staking_version k"
  by (auto simp: staking_version_def activation_defs)

lemma networks_distinct [simp]: "MainNetwork \<noteq> TestNetwork" "TestNetwork \<noteq> MainNetwork"
  by (simp_all add: MainNetwork_def TestNetwork_def)

lemma OPRVersion_simps [simp]:
  "OPRVersion MainNetwork h = Inr (main_grading_version h)" "OPRVersion TestNetwork h = Inr 5"
  "SPRVersion MainNetwork h = Inr (staking_version h)" "SPRVersion TestNetwork h = Inr (staking_version h)"
  by (simp_all add: OPRVersion_def SPRVersion_def GradingHeights_def StakingHeights_def)

text \<open>
  The format of the records never goes back: with the height the version of the mining records
  and that of the staking records only grow, on both networks.
\<close>

theorem versions_grow:
  assumes "h \<le> k" "network \<in> {MainNetwork, TestNetwork}"
  shows "\<exists>v w v' w'. OPRVersion network h = Inr v \<and> OPRVersion network k = Inr w \<and> v \<le> w
    \<and> SPRVersion network h = Inr v' \<and> SPRVersion network k = Inr w' \<and> v' \<le> w'"
  using assms main_grading_version_mono staking_version_mono by auto

lemma versions_grow_witness:
  "\<exists>v w. OPRVersion MainNetwork 210329 = Inr v \<and> OPRVersion MainNetwork 210330 = Inr w \<and> v \<le> w"
  using versions_grow [of 210329 210330 MainNetwork] by auto

section \<open>The asset lists of the two packages\<close>

text \<open>
  Package common builds its asset lists by merging and subtracting; they are the lists that
  modules/opr spells out, in the same order, and \<open>AllAssets\<close> has every asset of every version.
\<close>

theorem common_assets_agree:
  "AssetsV1WithPNT = V1Assets \<and> AssetsV2 = V2Assets \<and> AssetsV4 = V4Assets \<and> AssetsV5 = V5Assets
   \<and> set AllAssets = set AssetsV1 \<union> set AssetsV5 \<and> distinct AllAssets"
proof (intro conjI)
  show "AssetsV1WithPNT = V1Assets" "AssetsV2 = V2Assets" "AssetsV4 = V4Assets" "AssetsV5 = V5Assets"
    by code_simp+
  show "distinct AllAssets" by code_simp
  show "set AllAssets = set AssetsV1 \<union> set AssetsV5"
    by (auto simp: AllAssets_def AssetsV1_def AssetsV5_def AssetsV4_def AssetsV2_def MergeLists_def
        SubtractFromSet_def CommodityAssets_def)
qed

section \<open>Token addresses\<close>

text \<open>What the code relies on of the base58 coder.\<close>

locale base58_coder =
  fixes enc :: "byte list \<Rightarrow> string" and dec :: "string \<Rightarrow> byte list"
  assumes dec_enc: "dec (enc bs) = bs"
    and enc_dec: "dec s \<noteq> [] \<Longrightarrow> enc (dec s) = s"
begin

lemma enc_inj: "enc xs = enc ys \<Longrightarrow> xs = ys"
  by (metis dec_enc)

end

interpretation b58: base58_coder Base58Encode Base58Decode
proof
  show "Base58Decode (Base58Encode bs) = bs" for bs by (rule Base58Decode_Encode)
  show "Base58Encode (Base58Decode s) = s" if "Base58Decode s \<noteq> []" for s
  proof (rule Base58Encode_Decode)
    fix c assume "c \<in> set s"
    with that show "b58_index c \<noteq> 255"
      by (auto simp: Base58Decode_def decode_loop_rev split: if_splits)
  qed
qed

lemma CheckPrefix_no_underscore: "CheckPrefix p \<Longrightarrow> CHR ''_'' \<notin> set p"
proof -
  have "list_all (\<lambda>p. CHR ''_'' \<notin> set p) (PegAssetNames @ TestPegAssetNames)" by code_simp
  then show "CheckPrefix p \<Longrightarrow> CHR ''_'' \<notin> set p" by (auto simp: CheckPrefix_def list_all_iff)
qed

lemma index_of_prefix: "c \<notin> set p \<Longrightarrow> index_of c (p @ c # s) = int (length p)"
  by (induction p) (auto simp: Let_def)

lemma index_of_split: "0 \<le> index_of c s \<Longrightarrow>
    \<exists>p t. s = p @ c # t \<and> c \<notin> set p \<and> index_of c s = int (length p)"
proof (induction s)
  case (Cons d s)
  show ?case
  proof (cases "d = c")
    case False
    then have "0 \<le> index_of c s" using Cons.prems by (simp add: Let_def split: if_splits)
    with Cons.IH obtain p t where "s = p @ c # t" "c \<notin> set p" "index_of c s = int (length p)" by blast
    with False show ?thesis by (intro exI [of _ "d # p"] exI [of _ t]) (auto simp: Let_def)
  qed (intro exI [of _ "[]"] exI [of _ s], simp)
qed simp

lemma GetPrefix_prefix: "CHR ''_'' \<notin> set p \<Longrightarrow> GetPrefix (p @ CHR ''_'' # s) = (int (length p), p)"
  by (simp add: GetPrefix_def index_of_prefix Let_def)

lemma GetPrefix_split:
  assumes "GetPrefix adr = (n, p)" "CheckPrefix p"
  shows "\<exists>s. adr = p @ CHR ''_'' # s \<and> n = int (length p)"
proof -
  have "\<not> CheckPrefix []" by code_simp
  then have "0 \<le> index_of CHR ''_'' adr"
    using assms by (auto simp: GetPrefix_def Let_def split: if_splits)
  from index_of_split [OF this] obtain q s where
    "adr = q @ CHR ''_'' # s" "CHR ''_'' \<notin> set q" by blast
  then show ?thesis using assms(1) by (auto simp: GetPrefix_prefix)
qed

lemma length_asset_checksum [simp]: "length (asset_checksum p adr) = 4"
  by (simp add: asset_checksum_def)

lemma asset_checksum_not_Nil [simp]: "asset_checksum p adr \<noteq> []"
  using length_asset_checksum [of p adr] by (metis list.size(3) zero_neq_numeral)

lemma ConvertPegNetAssetToRaw_address:
  assumes "CheckPrefix p" "42 \<le> length (p @ CHR ''_'' # s)" "length (p @ CHR ''_'' # s) \<le> 56"
  shows "ConvertPegNetAssetToRaw dec (p @ CHR ''_'' # s) = Inr (q, raw)
    \<longleftrightarrow> q = p \<and> dec s = raw @ asset_checksum p raw"
proof -
  have g: "GetPrefix (p @ CHR ''_'' # s) = (int (length p), p)"
    using CheckPrefix_no_underscore [OF assms(1)] by (rule GetPrefix_prefix)
  have "nat (int (length p) + 1) = Suc (length p)" by simp
  then have d: "drop (nat (int (length p) + 1)) (p @ CHR ''_'' # s) = s" by simp
  have iff: "(4 \<le> length r \<and> asset_checksum p (take (length r - 4) r) = drop (length r - 4) r
      \<and> take (length r - 4) r = raw) \<longleftrightarrow> r = raw @ asset_checksum p raw" for r
    by (metis append_eq_conv_conj append_take_drop_id diff_add_inverse2 le_add2 length_append
        length_asset_checksum)
  have "ConvertPegNetAssetToRaw dec (p @ CHR ''_'' # s) = Inr (q, raw) \<longleftrightarrow>
      p = q \<and> (4 \<le> length (dec s)
        \<and> asset_checksum p (take (length (dec s) - 4) (dec s)) = drop (length (dec s) - 4) (dec s)
        \<and> take (length (dec s) - 4) (dec s) = raw)"
    unfolding ConvertPegNetAssetToRaw_def g Let_def prod.case d
    using assms by (auto simp: res_simps not_less simp del: length_append)
  with iff show ?thesis by auto
qed

text \<open>
  A token address and its parts determine each other: what is accepted as an address is exactly
  what the other direction prints for the prefix and the raw address it is read as, among the
  strings of 42 to 56 characters. The base58 coder is any pair of inverse functions.
\<close>

theorem token_address_roundtrip:
  assumes "base58_coder enc dec"
  shows "ConvertPegNetAssetToRaw dec adr = Inr (p, raw)
    \<longleftrightarrow> ConvertRawToPegNetAsset enc p raw = Inr adr \<and> 42 \<le> length adr \<and> length adr \<le> 56"
proof
  assume l: "ConvertPegNetAssetToRaw dec adr = Inr (p, raw)"
  obtain n q where g: "GetPrefix adr = (n, q)" by fastforce
  have q: "CheckPrefix q" and len: "42 \<le> length adr" "length adr \<le> 56"
    using l by (auto simp: ConvertPegNetAssetToRaw_def g res_simps)
  obtain s where s: "adr = q @ CHR ''_'' # s" using GetPrefix_split [OF g q] by blast
  have "p = q" and d: "dec s = raw @ asset_checksum q raw"
    using l ConvertPegNetAssetToRaw_address [OF q, of s dec p raw] len by (auto simp: s)
  moreover have "enc (dec s) = s"
    using d by (intro base58_coder.enc_dec [OF assms]) auto
  ultimately show "ConvertRawToPegNetAsset enc p raw = Inr adr \<and> 42 \<le> length adr \<and> length adr \<le> 56"
    using q len by (simp add: ConvertRawToPegNetAsset_def s flip: d)
next
  assume r: "ConvertRawToPegNetAsset enc p raw = Inr adr \<and> 42 \<le> length adr \<and> length adr \<le> 56"
  then have "CheckPrefix p" "adr = p @ CHR ''_'' # enc (raw @ asset_checksum p raw)"
    by (auto simp: ConvertRawToPegNetAsset_def res_simps)
  with r show "ConvertPegNetAssetToRaw dec adr = Inr (p, raw)"
    using ConvertPegNetAssetToRaw_address [of p "enc (raw @ asset_checksum p raw)" dec p raw]
    by (simp add: base58_coder.dec_enc [OF assms])
qed


text \<open>How long the base58 coding of 36 bytes is, to apply this to an address.\<close>

lemma digits_be_length_bounds:
  assumes "1 < B" "0 < x"
  shows "B ^ (length (digits_be B x) - 1) \<le> x \<and> x < B ^ length (digits_be B x)"
  using assms
proof (induction B x rule: digits_be.induct)
  case (1 B x)
  show ?case
  proof (cases "x < B")
    case True
    then have "digits_be B x = [x]" using 1 by (simp add: digits_be_step)
    with True 1 show ?thesis by simp
  next
    case False
    let ?n = "length (digits_be B (x div B))"
    have pos: "0 < x div B" using 1 False by (simp add: pos_imp_zdiv_pos_iff)
    then have ih: "B ^ (?n - 1) \<le> x div B" "x div B < B ^ ?n" using 1 by auto
    have n: "0 < ?n" using pos 1 hd_digits_be [of B "x div B"] by auto
    have "B ^ (?n - 1) * B \<le> x div B * B" "(x div B + 1) * B \<le> B ^ ?n * B"
      using ih 1 by (intro mult_right_mono; simp)+
    moreover have "x div B * B \<le> x" "x < (x div B + 1) * B"
      using 1 div_mult_mod_eq [of x B] pos_mod_bound [of B x] pos_mod_sign [of B x]
      unfolding distrib_right by linarith+
    moreover have "B ^ (?n - 1) * B = B ^ ?n" using n by (metis power_minus_mult)
    moreover have "digits_be B x = digits_be B (x div B) @ [x mod B]" using 1 by (intro digits_be_step)
    ultimately show ?thesis by (simp only: length_append_singleton diff_Suc_1 power_Suc2) linarith
  qed
qed

lemma length_Base58Encode_36:
  assumes "length bs = 36" "hd bs \<noteq> 0"
  shows "48 \<le> length (Base58Encode bs) \<and> length (Base58Encode bs) \<le> 50"
proof -
  obtain b rest where bs: "bs = b # rest" "b \<noteq> 0" "length rest = 35" using assms by (cases bs) auto
  have "bytes_int bs = uint b * 256 ^ 35 + bytes_int rest"
    using val_be_append [of 256 "[uint b]" "map uint rest"] bs by (simp add: bytes_int_def val_be_def)
  moreover have "1 \<le> uint b" using bs(2) by (metis uint_0_iff uint_nonnegative zless_imp_add1_zle order_le_less add_0)
  moreover have "bytes_int bs < 256 ^ 36" using bytes_int_less [of bs] assms(1) by simp
  moreover have "0 \<le> bytes_int rest" by simp
  moreover have "(58 :: int) ^ 47 < 256 ^ 35" "(256 :: int) ^ 36 < 58 ^ 50" by simp_all
  moreover have "1 * 256 ^ 35 \<le> uint b * 256 ^ 35" using calculation(2) by (rule mult_right_mono) simp
  ultimately have x: "58 ^ 47 < bytes_int bs" "bytes_int bs < 58 ^ 50" by linarith+
  let ?n = "length (digits_be 58 (bytes_int bs))"
  have "0 < bytes_int bs" using x(1) by (rule less_trans [rotated]) simp
  then have n: "58 ^ (?n - 1) \<le> bytes_int bs" "bytes_int bs < 58 ^ ?n"
    using digits_be_length_bounds [of 58 "bytes_int bs"] by simp_all
  have "(58 :: int) ^ 47 < 58 ^ ?n" using x n by linarith
  then have "47 < ?n" by (rule power_less_imp_less_exp [rotated]) simp
  moreover have "(58 :: int) ^ (?n - 1) < 58 ^ 50" using x n by linarith
  then have "?n - 1 < 50" by (rule power_less_imp_less_exp [rotated]) simp
  moreover have "takeWhile (\<lambda>i. i = 0) bs = []" using bs by simp
  ultimately show ?thesis by (simp add: Base58Encode_digits)
qed

lemma token_address_roundtrip_witness:
  "\<exists>adr. ConvertRawToPegNetAsset Base58Encode ''PEG'' (replicate 32 1) = Inr adr
     \<and> ConvertPegNetAssetToRaw Base58Decode adr = Inr (''PEG'', replicate 32 1)"
proof -
  let ?adr = "''PEG'' @ ''_'' @ Base58Encode (replicate 32 1 @ asset_checksum ''PEG'' (replicate 32 1))"
  have "hd (replicate 32 1 @ asset_checksum ''PEG'' (replicate 32 1)) \<noteq> (0 :: byte)"
    by (simp add: hd_append)
  then have "42 \<le> length ?adr" "length ?adr \<le> 56"
    using length_Base58Encode_36 [of "replicate 32 1 @ asset_checksum ''PEG'' (replicate 32 1)"] by auto
  moreover have "CheckPrefix ''PEG''" by code_simp
  then have "ConvertRawToPegNetAsset Base58Encode ''PEG'' (replicate 32 1) = Inr ?adr"
    by (simp add: ConvertRawToPegNetAsset_def)
  ultimately show ?thesis
    using token_address_roundtrip [OF b58.base58_coder_axioms, of ?adr "''PEG''" "replicate 32 1"] by blast
qed

section \<open>Factoid addresses\<close>

lemma ConvertFCTtoRaw_Inr:
  "ConvertFCTtoRaw dec a = Inr raw \<longleftrightarrow> length a = 52 \<and> length raw = 32
     \<and> dec a = fcPubPrefix @ raw @ take 4 (sha256 (sha256 (fcPubPrefix @ raw)))"
proof
  assume l: "ConvertFCTtoRaw dec a = Inr raw"
  then have v: "length a = 52" "34 \<le> length (dec a)" "take 2 (dec a) = fcPubPrefix"
    "take 4 (sha256 (sha256 (take 34 (dec a)))) = drop 34 (dec a)" "raw = drop 2 (take 34 (dec a))"
    by (auto simp: ConvertFCTtoRaw_def res_simps Let_def)
  have t: "take 34 (dec a) = fcPubPrefix @ raw"
  proof -
    have "take 2 (take 34 (dec a)) = fcPubPrefix" using v(3) by simp
    then show ?thesis using append_take_drop_id [of 2 "take 34 (dec a)"] v(5) by metis
  qed
  have "dec a = (fcPubPrefix @ raw) @ take 4 (sha256 (sha256 (fcPubPrefix @ raw)))"
    using append_take_drop_id [of 34 "dec a"] unfolding v(4) [symmetric] t by (rule sym)
  moreover have "length raw = 32" using v(2,5) by (simp add: min_def)
  ultimately show "length a = 52 \<and> length raw = 32
     \<and> dec a = fcPubPrefix @ raw @ take 4 (sha256 (sha256 (fcPubPrefix @ raw)))"
    using v(1) by simp
qed (simp add: ConvertFCTtoRaw_def fcPubPrefix_def)

text \<open>
  Package common and modules/factoidaddress accept the same payout addresses, with the same raw
  address; but where the module returns an error for text that is not base58, the code of package
  common slices the empty result of the decoder and panics.
\<close>

theorem fct_addresses_agree:
  "(ConvertFCTtoRaw Base58Decode a = Inr raw \<longleftrightarrow> length raw = 32 \<and> Encode raw = Inr a)
   \<and> (length raw = 32 \<and> Encode raw = Inr a
        \<longleftrightarrow> length raw = 32 \<and> a = ConvertRawToFCT Base58Encode raw)
   \<and> is_panic (ConvertFCTtoRaw Base58Decode (replicate 52 CHR ''0''))
   \<and> \<not> is_panic (Valid (replicate 52 CHR ''0''))"
proof (intro conjI)
  have prefix: "fcPubPrefix = FactoidAddressPrefix" by (simp add: fcPubPrefix_def FactoidAddressPrefix_def)
  show "is_panic (ConvertFCTtoRaw Base58Decode (replicate 52 CHR ''0''))"
    "\<not> is_panic (Valid (replicate 52 CHR ''0''))"
  proof -
    have "Base58Decode (replicate 52 CHR ''0'') = []" by code_simp
    then show "is_panic (ConvertFCTtoRaw Base58Decode (replicate 52 CHR ''0''))"
      "\<not> is_panic (Valid (replicate 52 CHR ''0''))"
      by (simp_all add: ConvertFCTtoRaw_def Valid_def)
  qed
  have "Encode raw = Inr (ConvertRawToFCT Base58Encode raw)" if "length raw = 32"
    using that by (simp add: Encode_32 ConvertRawToFCT_def prefix Let_def)
  then show "length raw = 32 \<and> Encode raw = Inr a
      \<longleftrightarrow> length raw = 32 \<and> a = ConvertRawToFCT Base58Encode raw"
    by auto
  let ?bs = "FactoidAddressPrefix @ raw @ take 4 (sha256 (sha256 (FactoidAddressPrefix @ raw)))"
  have "?bs \<noteq> []" by (simp add: FactoidAddressPrefix_def)
  then have "Base58Decode a = ?bs \<longleftrightarrow> Base58Encode ?bs = a"
    using b58.enc_dec [of a] b58.dec_enc [of ?bs] by metis
  then show "ConvertFCTtoRaw Base58Decode a = Inr raw \<longleftrightarrow> length raw = 32 \<and> Encode raw = Inr a"
    unfolding ConvertFCTtoRaw_Inr prefix
    using Encode_shape [of raw a] Encode_32 [of raw] by (metis sum.inject(2))
qed

end
