(* ===== verification/OprRecord.thy ===== *)
theory OprRecord
  imports Common V2Proto "HOL-Library.AList"
begin

text \<open>
  The oracle price record of the miner: opr/opr.go, opr/assetList.go and the message of
  opr/oprencoding. A record with its prices is validated, encoded (JSON in version 1, a protobuf
  message later), put into a Factom entry, and decoded again.

  Third-party code is an argument of what uses it: \<open>proto.Marshal\<close> and \<open>proto.Unmarshal\<close> of
  golang/protobuf (\<open>pmarshal\<close>, \<open>punmarshal\<close>, with the locale \<open>proto_codec\<close> for what is relied on), the
  address check of package factom and its base58 decoder. \<open>json.Marshal\<close> and \<open>json.Unmarshal\<close> of a
  record are arguments too: the text of the assets, which the repository writes itself, is modelled.
\<close>

section \<open>assetList.go\<close>

text \<open>
  A Go map with its entries in the order in which a range visits them, which Go leaves open; the
  nil map, \<open>None\<close>, reads as empty and cannot be written. No key occurs twice.
\<close>

type_synonym AssetMap = "(string \<times> u64) list option"

definition entries :: "AssetMap \<Rightarrow> (string \<times> u64) list" where
  "entries m = (case m of None \<Rightarrow> [] | Some xs \<Rightarrow> xs)"

fun Contains :: "AssetMap \<Rightarrow> string list \<Rightarrow> bool" where
  "Contains m [] = True"
| "Contains m (asset # as) = (if map_of (entries m) asset = None then False else Contains m as)"

definition ContainsExactly :: "AssetMap \<Rightarrow> string list \<Rightarrow> bool" where
  "ContainsExactly m as = (if length (entries m) \<noteq> length as then False else Contains m as)"

definition SetValueFromUint64 :: "AssetMap \<Rightarrow> string \<Rightarrow> u64 \<Rightarrow> AssetMap res" where
  "SetValueFromUint64 m asset v = (case m of
     None \<Rightarrow> Inl (Panic ''assignment to entry in nil map'')
   | Some xs \<Rightarrow> Inr (Some (AList.update asset v xs)))"

definition SetValue :: "(f64 \<Rightarrow> u64) \<Rightarrow> AssetMap \<Rightarrow> string \<Rightarrow> f64 \<Rightarrow> AssetMap res" where
  "SetValue oob m asset value =
     SetValueFromUint64 m asset (u64_of_f64 oob (fround (fmul value (f64_const 100000000))))"

definition Uint64Value :: "AssetMap \<Rightarrow> string \<Rightarrow> u64" where
  "Uint64Value m asset = (case map_of (entries m) asset of None \<Rightarrow> 0 | Some v \<Rightarrow> v)"

definition AssetValue :: "AssetMap \<Rightarrow> string \<Rightarrow> f64" where
  "AssetValue m asset = fdiv (f64_of_u64 (Uint64Value m asset)) (f64_const 100000000)"

record Token =
  Code :: string
  TokenValue :: f64

text \<open>The assets of a version; every other version reads as the first.\<close>

definition version_assets :: "byte \<Rightarrow> string list" where
  "version_assets v =
     (if v = 2 \<or> v = 3 then AssetsV2
      else if v = 4 then AssetsV4
      else if v = 5 then AssetsV5
      else AssetsV1)"

definition ListTokens :: "AssetMap \<Rightarrow> byte \<Rightarrow> Token list" where
  "ListTokens m version =
     map (\<lambda>asset. \<lparr>Code = asset, TokenValue = AssetValue m asset\<rparr>) (version_assets version)"

definition AssetsUnmarshalJSON :: "(f64 \<Rightarrow> u64) \<Rightarrow> AssetMap \<Rightarrow> (string \<times> f64) list \<Rightarrow> AssetMap res" where
  "AssetsUnmarshalJSON oob m floatMap = res_fold (\<lambda>m (k, v). SetValue oob m k v) m floatMap"

definition delete_asset :: "AssetMap \<Rightarrow> string \<Rightarrow> AssetMap" where
  "delete_asset m k = map_option (AList.delete k) m"

text \<open>The quotes of a name are escaped; the names of the lists have none.\<close>

definition escape_name :: "string \<Rightarrow> string" where
  "escape_name k = concat (map (\<lambda>c. if c = CHR 0x22 then [CHR 0x5C, CHR 0x22] else [c]) k)"

text \<open>\<open>int(m["version"])\<close> selects the list; a version the switch does not know has no assets.\<close>

definition json_assets :: "u64 \<Rightarrow> string list" where
  "json_assets version =
     (if version = 1 then AssetsV1WithPNT
      else if version = 2 \<or> version = 3 then AssetsV2
      else if version = 4 then AssetsV4
      else if version = 5 then AssetsV5
      else [])"

definition AssetsMarshalJSON :: "(f64 \<Rightarrow> string res) \<Rightarrow> AssetMap \<Rightarrow> string res" where
  "AssetsMarshalJSON json_float m =
     (case map_of (entries m) ''version'' of
        None \<Rightarrow> Inl (GoError ''marshaling json must be called through a safe function'')
      | Some version \<Rightarrow>
         (let o1 = delete_asset m ''version''; as = json_assets version in
          guard_res (version = 0) (GoError ''version unset for json marshalling'')
          (rbind (res_fold (\<lambda>s k. rbind (json_float (AssetValue o1 k)) (\<lambda>vBytes.
              Inr (s @ [CHR 0x22] @ escape_name k @ [CHR 0x22] @ '':'' @ vBytes @ '',''))) ''{'' as)
            (\<lambda>s. Inr ((if length as > 0 then butlast s else s) @ ''}'')))))"

section \<open>opr.go: records\<close>

record OraclePriceRecord =
  Protocol :: string
  Network :: string
  Difficulty :: u64
  Grade :: f64
  OPRHash :: "byte list"
  OPRChainID :: string
  CoinbasePEGAddress :: string
  OprMinimumDifficulty :: u64
  EntryHash :: "byte list"
  Nonce :: "byte list"
  SelfReportedDifficulty :: "byte list"
  Version :: byte
  CoinbaseAddress :: string
  Dbht :: "32 word"
  WinPreviousOPR :: "string list"
  FactomDigitalID :: string
  Assets :: AssetMap

definition NewOraclePriceRecord :: OraclePriceRecord where
  "NewOraclePriceRecord =
     \<lparr>Protocol = [], Network = [], Difficulty = 0, Grade = Fin 0, OPRHash = [], OPRChainID = [],
      CoinbasePEGAddress = [], OprMinimumDifficulty = 0, EntryHash = [], Nonce = [],
      SelfReportedDifficulty = [], Version = 0, CoinbaseAddress = [], Dbht = 0,
      WinPreviousOPR = [], FactomDigitalID = [], Assets = Some []\<rparr>"

definition CloneEntryData :: "OraclePriceRecord \<Rightarrow> OraclePriceRecord" where
  "CloneEntryData c = NewOraclePriceRecord
     \<lparr>OPRChainID := OPRChainID c, Dbht := Dbht c, Version := Version c,
      WinPreviousOPR := WinPreviousOPR c, CoinbaseAddress := CoinbaseAddress c,
      CoinbasePEGAddress := CoinbasePEGAddress c, FactomDigitalID := FactomDigitalID c,
      Assets := Some (foldl (\<lambda>xs (k, v). AList.update k v xs) [] (entries (Assets c)))\<rparr>"

definition GetTokens :: "OraclePriceRecord \<Rightarrow> Token list" where
  "GetTokens r = ListTokens (Assets r) (Version r)"

definition ValidFCTAddress :: "(string \<Rightarrow> bool) \<Rightarrow> string \<Rightarrow> bool" where
  "ValidFCTAddress isValidAddress addr \<longleftrightarrow>
     length addr > 2 \<and> take 2 addr = ''FA'' \<and> isValidAddress addr"

text \<open>\<open>ValidIdentity\<close> of common/utils.go: the regular expression allows letters, digits and commas.\<close>

definition identity_char :: "char \<Rightarrow> bool" where
  "identity_char c = (let n = of_char c :: nat in
     (97 \<le> n \<and> n \<le> 122) \<or> (65 \<le> n \<and> n \<le> 90) \<or> (48 \<le> n \<and> n \<le> 57) \<or> n = 44)"

definition ValidIdentity :: "string \<Rightarrow> bool" where
  "ValidIdentity s \<longleftrightarrow> s \<noteq> [] \<and> list_all identity_char s"

definition zero_price :: "byte \<Rightarrow> string \<times> u64 \<Rightarrow> bool" where
  "zero_price v kv \<longleftrightarrow> snd kv = 0 \<and> \<not> (v \<le> 2 \<and> fst kv = ''PEG'')"

text \<open>\<open>net\<close> is the network of the configuration; the error of reading it is not looked at.\<close>

definition ValidateOPR :: "(string \<Rightarrow> bool) \<Rightarrow> string \<Rightarrow> int \<Rightarrow> OraclePriceRecord \<Rightarrow> bool res" where
  "ValidateOPR isValidAddress net dbht r =
     (if \<not> NetworkActive net dbht then Inr False
      else if list_ex (zero_price (Version r)) (entries (Assets r)) then Inr False
      else if Version r > 1 \<and> \<not> ValidIdentity (FactomDigitalID r) then Inr False
      else if Version r > 1 \<and> \<not> ValidFCTAddress isValidAddress (CoinbaseAddress r) then Inr False
      else if sint (Dbht r) \<noteq> dbht then Inr False
      else rbind (OPRVersion net dbht) (\<lambda>v.
        if Version r \<noteq> v then Inr False
        else if Version r = 1
        then (if length (WinPreviousOPR r) \<noteq> 10 then Inr False
              else Inr (ContainsExactly (Assets r) AssetsV1))
        else if Version r = 2 \<or> Version r = 3 then Inr (ContainsExactly (Assets r) AssetsV2)
        else if Version r = 4 then Inr (ContainsExactly (Assets r) AssetsV4)
        else if Version r = 5 then Inr (ContainsExactly (Assets r) AssetsV5)
        else Inr False))"

text \<open>The prices polled, in the order in which the range visits them.\<close>

definition set_peg_value ::
  "(f64 \<Rightarrow> u64) \<Rightarrow> OraclePriceRecord \<Rightarrow> string \<times> f64 \<Rightarrow> OraclePriceRecord res" where
  "set_peg_value oob r av =
     (case av of (asset, v) \<Rightarrow>
        rbind (if asset = ''PEG'' \<and> Version r \<le> 2 then SetValueFromUint64 (Assets r) asset 0
               else SetValue oob (Assets r) asset v)
          (\<lambda>as. Inr (r\<lparr>Assets := as\<rparr>)))"

definition SetPegValues ::
  "(f64 \<Rightarrow> u64) \<Rightarrow> OraclePriceRecord \<Rightarrow> (string \<times> f64) list \<Rightarrow> OraclePriceRecord res" where
  "SetPegValues oob r prices = res_fold (set_peg_value oob) r prices"

section \<open>opr.go: encoding\<close>

text \<open>The message \<open>ProtoOPR\<close> of opr/oprencoding, encoded and decoded by package proto.\<close>

record ProtoOPR =
  PAddress :: string
  PID :: string
  PHeight :: "32 word"
  PWinners :: "byte list list"
  PAssets :: "u64 list"

text \<open>
  What the code relies on: a message that can be encoded is decoded to itself. (Encoding fails on
  strings that are not UTF-8.)
\<close>

locale proto_codec =
  fixes pmarshal :: "ProtoOPR \<Rightarrow> byte list res" and punmarshal :: "byte list \<Rightarrow> ProtoOPR res"
  assumes decode_encode: "pmarshal m = Inr bs \<Longrightarrow> punmarshal bs = Inr m"

text \<open>
  The generated coder of the same message in modules/opr is such a codec, for messages of a size
  that fits an \<open>int\<close>.
\<close>

definition V2_of_proto :: "ProtoOPR \<Rightarrow> V2Content" where
  "V2_of_proto m = \<lparr>V2Content.Address = PAddress m, V2Content.ID = PID m, V2Content.Height = PHeight m,
     V2Content.Winners = PWinners m, V2Content.Assets = PAssets m, V2Content.XXX_unrecognized = []\<rparr>"

definition proto_of_V2 :: "V2Content \<Rightarrow> ProtoOPR" where
  "proto_of_V2 m = \<lparr>PAddress = V2Content.Address m, PID = V2Content.ID m, PHeight = V2Content.Height m,
     PWinners = V2Content.Winners m, PAssets = V2Content.Assets m\<rparr>"

definition module_pmarshal :: "ProtoOPR \<Rightarrow> byte list res" where
  "module_pmarshal m =
     guard_res (2 ^ 63 \<le> length (MarshalTo (V2_of_proto m))) (GoError ''message too large'')
       (Marshal (V2_of_proto m))"

definition module_punmarshal :: "byte list \<Rightarrow> ProtoOPR res" where
  "module_punmarshal bs = rbind (Unmarshal zero_V2Content bs) (\<lambda>m. Inr (proto_of_V2 m))"

lemma module_pmarshal_Inr:
  "module_pmarshal m = Inr bs \<longleftrightarrow>
     length (MarshalTo (V2_of_proto m)) < 2 ^ 63 \<and> bs = MarshalTo (V2_of_proto m)"
  by (auto simp: module_pmarshal_def res_simps Marshal_eq)

lemma module_decode:
  "module_pmarshal m = Inr bs \<Longrightarrow> Unmarshal zero_V2Content bs = Inr (V2_of_proto m)"
  by (auto simp: module_pmarshal_Inr V2_of_proto_def intro!: Unmarshal_MarshalTo)

interpretation module: proto_codec module_pmarshal module_punmarshal
proof
  show "module_punmarshal bs = Inr m" if "module_pmarshal m = Inr bs" for m bs
    using module_decode [OF that] by (simp add: module_punmarshal_def proto_of_V2_def V2_of_proto_def)
qed

definition assign_prices :: "AssetMap \<Rightarrow> string list \<Rightarrow> u64 list res" where
  "assign_prices m as =
     res_fold (\<lambda>prices (i, asset).
         guard_res (length prices \<le> i) (Panic ''index out of range'')
         (Inr (prices[i := Uint64Value m asset])))
       (replicate (length (entries m)) 0) (enumerate 0 as)"

definition proto_assets :: "byte \<Rightarrow> string list" where
  "proto_assets v = (if v = 5 then AssetsV5 else if v = 4 then AssetsV4 else AssetsV2)"

definition proto_version :: "byte \<Rightarrow> bool" where
  "proto_version v \<longleftrightarrow> v = 2 \<or> v = 3 \<or> v = 4 \<or> v = 5"

text \<open>
  \<open>SafeMarshal\<close> changes the map of the record on the way, so it also returns the record. The JSON of
  version 1 names the asset PEG as PNT; the record never does outside of the encoder.
\<close>

definition marshal_v1 ::
  "(f64 \<Rightarrow> string res) \<Rightarrow> (OraclePriceRecord \<Rightarrow> string \<Rightarrow> byte list res) \<Rightarrow> OraclePriceRecord
     \<Rightarrow> byte list res \<times> OraclePriceRecord" where
  "marshal_v1 json_float json_record r =
     (let xs = entries (Assets r);
          ys = AList.delete ''PEG'' (AList.update ''PNT'' (Uint64Value (Assets r) ''PEG'') xs);
          zs = AList.update ''version'' (ucast (Version r)) ys;
          result = rbind (AssetsMarshalJSON json_float (Some zs)) (json_record r);
          us = AList.delete ''version'' zs;
          ws = AList.delete ''PNT'' (AList.update ''PEG'' (Uint64Value (Some us) ''PNT'') us)
      in (result, r\<lparr>Assets := Some ws\<rparr>))"

definition marshal_proto :: "(ProtoOPR \<Rightarrow> byte list res) \<Rightarrow> OraclePriceRecord \<Rightarrow> byte list res" where
  "marshal_proto pmarshal r =
     rbind (assign_prices (Assets r) (proto_assets (Version r))) (\<lambda>prices.
     rbind (res_map hexDecode (WinPreviousOPR r)) (\<lambda>winners.
     pmarshal \<lparr>PAddress = CoinbaseAddress r, PID = FactomDigitalID r, PHeight = Dbht r,
       PWinners = winners, PAssets = prices\<rparr>))"

definition SafeMarshal ::
  "(f64 \<Rightarrow> string res) \<Rightarrow> (OraclePriceRecord \<Rightarrow> string \<Rightarrow> byte list res)
     \<Rightarrow> (ProtoOPR \<Rightarrow> byte list res) \<Rightarrow> OraclePriceRecord \<Rightarrow> byte list res \<times> OraclePriceRecord" where
  "SafeMarshal json_float json_record pmarshal r =
     (if Version r = 0 then (Inl (GoError ''opr version is 0''), r)
      else if Assets r = None then (Inl (GoError ''assets is nil, cannot marshal''), r)
      else if map_of (entries (Assets r)) ''PNT'' \<noteq> None
      then (Inl (GoError ''this opr has asset PNT, it should have PEG''), r)
      else if Version r = 1 then marshal_v1 json_float json_record r
      else if proto_version (Version r) then (marshal_proto pmarshal r, r)
      else (Inl (GoError ''opr version not supported''), r))"

text \<open>
  \<open>SafeUnmarshal\<close>. \<open>json_decode\<close> gives the record with the decoded fields and the object of the assets,
  if there is one. What an error leaves in the record is not returned; every caller drops it.
\<close>

definition unmarshal_v1 ::
  "(f64 \<Rightarrow> u64) \<Rightarrow> (byte list \<Rightarrow> OraclePriceRecord
       \<Rightarrow> (OraclePriceRecord \<times> (string \<times> f64) list option) res)
     \<Rightarrow> byte list \<Rightarrow> OraclePriceRecord \<Rightarrow> OraclePriceRecord res" where
  "unmarshal_v1 oob json_decode data r =
     rbind (json_decode data r) (\<lambda>(r1, floatMap).
     rbind (case floatMap of None \<Rightarrow> Inr (Assets r1) | Some fs \<Rightarrow> AssetsUnmarshalJSON oob (Assets r1) fs)
       (\<lambda>as. case map_of (entries as) ''PNT'' of
          None \<Rightarrow> Inl (GoError ''exp version 1 to have PNT, but it did not'')
        | Some v \<Rightarrow> rbind (SetValueFromUint64 as ''PEG'' v) (\<lambda>as.
            Inr (r1\<lparr>Assets := delete_asset as ''PNT''\<rparr>))))"

definition unmarshal_proto ::
  "(byte list \<Rightarrow> ProtoOPR res) \<Rightarrow> byte list \<Rightarrow> OraclePriceRecord \<Rightarrow> OraclePriceRecord res" where
  "unmarshal_proto punmarshal data r =
     rbind (punmarshal data) (\<lambda>m.
     (let as = proto_assets (Version r) in
      guard_res (length (PAssets m) \<noteq> length as) (GoError ''found assets, expected other number'')
      (Inr (r\<lparr>Assets := Some (foldl (\<lambda>xs (k, v). AList.update k v xs) [] (zip as (PAssets m))),
              CoinbaseAddress := PAddress m, FactomDigitalID := PID m, Dbht := PHeight m,
              WinPreviousOPR := map hexEncode (PWinners m)\<rparr>))))"

definition SafeUnmarshal ::
  "(f64 \<Rightarrow> u64) \<Rightarrow> (byte list \<Rightarrow> OraclePriceRecord
       \<Rightarrow> (OraclePriceRecord \<times> (string \<times> f64) list option) res)
     \<Rightarrow> (byte list \<Rightarrow> ProtoOPR res) \<Rightarrow> byte list \<Rightarrow> OraclePriceRecord \<Rightarrow> OraclePriceRecord res" where
  "SafeUnmarshal oob json_decode punmarshal data r =
     (if Version r = 0 then Inl (GoError ''opr version is 0'')
      else if Version r = 1 then unmarshal_v1 oob json_decode data r
      else if proto_version (Version r) then unmarshal_proto punmarshal data r
      else Inl (GoError ''opr version not supported''))"

text \<open>\<open>CheckAndPanic\<close> ends the process on an error; like a panic, nothing after it runs.\<close>

definition GetHash ::
  "(f64 \<Rightarrow> string res) \<Rightarrow> (OraclePriceRecord \<Rightarrow> string \<Rightarrow> byte list res)
     \<Rightarrow> (ProtoOPR \<Rightarrow> byte list res) \<Rightarrow> OraclePriceRecord \<Rightarrow> (byte list \<times> OraclePriceRecord) res" where
  "GetHash json_float json_record pmarshal r =
     (if length (OPRHash r) > 0 then Inr (OPRHash r, r)
      else (case SafeMarshal json_float json_record pmarshal r of
              (Inl _, _) \<Rightarrow> Inl (Panic ''An error was encountered'')
            | (Inr data, r') \<Rightarrow> (let h = sha256 data in Inr (h, r'\<lparr>OPRHash := h\<rparr>))))"

definition OPR_ComputeDifficulty ::
  "(byte list \<Rightarrow> byte list) \<Rightarrow> OraclePriceRecord \<Rightarrow> byte list \<Rightarrow> u64 res" where
  "OPR_ComputeDifficulty lx r nonce =
     (let h = lx (OPRHash r @ nonce) in
      guard_res (length h < 8) (Panic ''index out of range'')
      (Inr (foldl (\<lambda>d i. push_bit 8 d + ucast (h ! i)) 0 [0..<8])))"

section \<open>opr.go: the Factom entry\<close>

record FactomEntry =
  ChainID :: string
  ExtIDs :: "byte list list"
  Content :: "byte list"

definition PutUint64 :: "u64 \<Rightarrow> byte list" where
  "PutUint64 d = map (\<lambda>i. ucast (drop_bit (56 - 8 * i) d)) [0..<8]"

definition CreateOPREntry ::
  "(string \<Rightarrow> byte list) \<Rightarrow> (f64 \<Rightarrow> string res) \<Rightarrow> (OraclePriceRecord \<Rightarrow> string \<Rightarrow> byte list res)
     \<Rightarrow> (ProtoOPR \<Rightarrow> byte list res) \<Rightarrow> OraclePriceRecord \<Rightarrow> byte list \<Rightarrow> u64 \<Rightarrow> FactomEntry res" where
  "CreateOPREntry dec json_float json_record pmarshal r nonce difficulty =
     rbind (fst (SafeMarshal json_float json_record pmarshal r)) (\<lambda>content.
       Inr \<lparr>ChainID = hexEncode (dec (OPRChainID r)),
            ExtIDs = [nonce, PutUint64 difficulty, [Version r]], Content = content\<rparr>)"

section \<open>Maps\<close>

lemma Contains_iff: "Contains m as \<longleftrightarrow> (\<forall>a \<in> set as. map_of (entries m) a \<noteq> None)"
  by (induction as) auto

lemma ContainsExactly_keys:
  assumes "ContainsExactly m as" "distinct as" "distinct (map fst (entries m))"
  shows "set (map fst (entries m)) = set as"
proof -
  have "set as \<subseteq> set (map fst (entries m))"
    using assms(1) by (auto simp: ContainsExactly_def Contains_iff map_of_eq_None_iff split: if_splits)
  moreover have "card (set as) = card (set (map fst (entries m)))"
    using assms by (simp add: ContainsExactly_def distinct_card del: set_map split: if_splits)
  ultimately show ?thesis
    using card_subset_eq [of "set (map fst (entries m))" "set as"] by simp
qed

lemma map_of_rev_keys: "distinct (map fst kvs) \<Longrightarrow> map_of (rev kvs) = map_of kvs"
  by (intro map_of_inject_set [THEN iffD2]) (simp_all add: rev_map [symmetric])

lemma fold_update_map:
  "map_of (foldl (\<lambda>xs (k, v). AList.update k v xs) xs kvs) = map_of xs ++ map_of (rev kvs)"
  by (induction kvs arbitrary: xs) (auto simp: update_conv' map_add_upd split: prod.splits)

lemma fold_update_distinct:
  "distinct (map fst xs) \<Longrightarrow> distinct (map fst (foldl (\<lambda>xs (k, v). AList.update k v xs) xs kvs))"
  by (induction kvs arbitrary: xs) (auto simp: distinct_update split: prod.splits)

lemma assign_loop:
  "n + length as \<le> length xs \<Longrightarrow>
     res_fold (\<lambda>prices (i, asset).
         guard_res (length prices \<le> i) (Panic ''index out of range'')
         (Inr (prices[i := f asset]))) xs (enumerate n as)
     = Inr (take n xs @ map f as @ drop (n + length as) xs)"
proof (induction as arbitrary: n xs)
  case (Cons a as)
  from Cons.IH [of "Suc n" "xs[n := f a]"] Cons.prems show ?case
    by (simp add: take_Suc_conv_app_nth)
qed simp

lemma assign_prices_Inr:
  "length as \<le> length (entries m) \<Longrightarrow>
     assign_prices m as = Inr (map (Uint64Value m) as @ replicate (length (entries m) - length as) 0)"
  by (simp add: assign_prices_def assign_loop)

lemma assign_prices_exact:
  "ContainsExactly m as \<Longrightarrow> assign_prices m as = Inr (map (Uint64Value m) as)"
  by (simp add: ContainsExactly_def assign_prices_Inr split: if_splits)

text \<open>With fewer prices than names the encoder panics.\<close>

lemma assign_loop_short:
  "n \<le> length xs \<Longrightarrow> length xs < n + length as \<Longrightarrow>
     is_panic (res_fold (\<lambda>prices (i, asset).
         guard_res (length prices \<le> i) (Panic ''index out of range'')
         (Inr (prices[i := f asset]))) xs (enumerate n as))"
proof (induction as arbitrary: n xs)
  case (Cons a as)
  show ?case
  proof (cases "n = length xs")
    case False
    with Cons.IH [of "Suc n" "xs[n := f a]"] Cons.prems show ?thesis by simp
  qed simp
qed simp

lemma assign_prices_short:
  "length (entries m) < length as \<Longrightarrow> is_panic (assign_prices m as)"
  unfolding assign_prices_def by (rule assign_loop_short) simp_all

lemma distinct_proto_assets: "distinct (proto_assets v)"
proof -
  have "distinct AssetsV5 \<and> distinct AssetsV4 \<and> distinct AssetsV2" by code_simp
  then show ?thesis by (simp add: proto_assets_def)
qed

section \<open>Correctness of the record\<close>

text \<open>
  C37. A record of version 2 or later whose prices are exactly those of its version is encoded unless
  the protobuf encoder fails, it is not changed by that, and decoding its bytes gives back the
  payout address, the height, the identity, the previous winners and every price.
\<close>

theorem OPR_roundtrip:
  assumes "proto_codec pmarshal punmarshal"
    and "proto_version (Version r)" "ContainsExactly (Assets r) (proto_assets (Version r))"
    and "distinct (map fst (entries (Assets r)))" "WinPreviousOPR r = map hexEncode ws"
    and "SafeMarshal json_float json_record pmarshal r = (Inr bs, r')" "Version q = Version r"
  shows "r' = r \<and> (\<exists>p. SafeUnmarshal oob json_decode punmarshal bs q = Inr p
     \<and> CoinbaseAddress p = CoinbaseAddress r \<and> Dbht p = Dbht r
     \<and> FactomDigitalID p = FactomDigitalID r \<and> WinPreviousOPR p = WinPreviousOPR r
     \<and> map_of (entries (Assets p)) = map_of (entries (Assets r)))"
proof -
  let ?as = "proto_assets (Version r)" and ?o = "Assets r"
  let ?m = "\<lparr>PAddress = CoinbaseAddress r, PID = FactomDigitalID r, PHeight = Dbht r,
       PWinners = ws, PAssets = map (Uint64Value ?o) ?as\<rparr>"
  have v: "Version r \<noteq> 0" "Version r \<noteq> 1" using assms(2) by (auto simp: proto_version_def)
  have "res_map hexDecode (map hexEncode ws) = Inr ws"
    by (induction ws) simp_all
  then have "marshal_proto pmarshal r = pmarshal ?m"
    by (simp add: marshal_proto_def assign_prices_exact [OF assms(3)] assms(5))
  then have r: "r' = r" "pmarshal ?m = Inr bs"
    using assms(2,6) v by (auto simp: SafeMarshal_def split: if_splits)
  then have dec: "punmarshal bs = Inr ?m"
    using assms(1) by (auto simp: proto_codec_def)
  let ?p = "foldl (\<lambda>xs (k, v). AList.update k v xs) [] (zip ?as (map (Uint64Value ?o) ?as))"
  have keys: "set (map fst (entries ?o)) = set ?as"
    using assms(3,4) by (intro ContainsExactly_keys distinct_proto_assets)
  have "map_of ?p = map_of (rev (zip ?as (map (Uint64Value ?o) ?as)))"
    by (simp add: fold_update_map)
  also have "\<dots> = map_of (zip ?as (map (Uint64Value ?o) ?as))"
    by (rule map_of_rev_keys) (simp add: distinct_proto_assets)
  also have "\<dots> = map_of (entries ?o)"
  proof
    fix k
    show "map_of (zip ?as (map (Uint64Value ?o) ?as)) k = map_of (entries ?o) k"
    proof (cases "k \<in> set ?as")
      case True
      then obtain v where "map_of (entries ?o) k = Some v"
        using keys by (metis map_of_eq_None_iff not_Some_eq set_map)
      with True show ?thesis
        by (simp add: map_of_zip_map Uint64Value_def)
    next
      case False
      then have "map_of (entries ?o) k = None"
        using keys by (metis map_of_eq_None_iff set_map)
      with False show ?thesis by (simp add: map_of_zip_map)
    qed
  qed
  finally have "map_of ?p = map_of (entries ?o)" .
  then have "map_of (entries (Some ?p)) = map_of (entries ?o)" by (simp add: entries_def)
  then show ?thesis
    using r(1) v assms(2,5,7) by (simp add: SafeUnmarshal_def unmarshal_proto_def dec Let_def)
qed

definition sample_opr :: OraclePriceRecord where
  "sample_opr = NewOraclePriceRecord\<lparr>Version := 2, CoinbaseAddress := ''FA'', Dbht := 210400,
     FactomDigitalID := ''miner'', Assets := Some (map (\<lambda>a. (a, 7)) AssetsV2)\<rparr>"

definition sample_message :: ProtoOPR where
  "sample_message = \<lparr>PAddress = ''FA'', PID = ''miner'', PHeight = 210400, PWinners = [],
     PAssets = replicate 30 7\<rparr>"

definition sample_bytes :: "byte list" where
  "sample_bytes = MarshalTo (V2_of_proto sample_message)"

lemma sample_opr_marshal:
  "SafeMarshal f j module_pmarshal sample_opr = (Inr sample_bytes, sample_opr)"
proof -
  have "length (MarshalTo (V2_of_proto sample_message)) < 100" by code_simp
  then have "module_pmarshal sample_message = Inr sample_bytes"
    by (simp add: module_pmarshal_Inr sample_bytes_def)
  moreover have "Version sample_opr = 2" "Assets sample_opr \<noteq> None"
    "WinPreviousOPR sample_opr = []"
    by (simp_all add: sample_opr_def NewOraclePriceRecord_def)
  moreover have "map_of (entries (Assets sample_opr)) ''PNT'' = None"
    by code_simp
  moreover have "assign_prices (Assets sample_opr) (proto_assets 2) = Inr (replicate 30 7)"
    by code_simp
  moreover have "\<lparr>PAddress = CoinbaseAddress sample_opr, PID = FactomDigitalID sample_opr,
      PHeight = Dbht sample_opr, PWinners = [], PAssets = replicate 30 7\<rparr> = sample_message"
    by (simp add: sample_opr_def sample_message_def NewOraclePriceRecord_def)
  ultimately show ?thesis
    by (simp add: SafeMarshal_def proto_version_def marshal_proto_def)
qed

lemma sample_opr_ok:
  "ContainsExactly (Assets sample_opr) (proto_assets (Version sample_opr))"
  "distinct (map fst (entries (Assets sample_opr)))" "proto_version (Version sample_opr)"
  "WinPreviousOPR sample_opr = map hexEncode []"
  "Version (NewOraclePriceRecord\<lparr>Version := 2\<rparr>) = Version sample_opr"
  by code_simp+

theorem OPR_roundtrip_witness:
  "sample_opr = sample_opr \<and> (\<exists>p. SafeUnmarshal (\<lambda>_. 0) (\<lambda>_ r. Inr (r, None)) module_punmarshal
        sample_bytes (NewOraclePriceRecord\<lparr>Version := 2\<rparr>) = Inr p
     \<and> CoinbaseAddress p = CoinbaseAddress sample_opr \<and> Dbht p = Dbht sample_opr
     \<and> FactomDigitalID p = FactomDigitalID sample_opr \<and> WinPreviousOPR p = WinPreviousOPR sample_opr
     \<and> map_of (entries (Assets p)) = map_of (entries (Assets sample_opr)))"
  using OPR_roundtrip [OF module.proto_codec_axioms sample_opr_ok(3,1,2,4)
      sample_opr_marshal [of "\<lambda>_. Inr []" "\<lambda>_ _. Inr []"] sample_opr_ok(5)] .

text \<open>
  The encoder of version 5 panics on exactly the records with fewer prices than the version has
  assets, whichever prices these are; more prices are dropped silently.
\<close>

theorem SafeMarshal_short:
  "is_panic (fst (SafeMarshal json_float json_record (\<lambda>_. Inr [])
       (r\<lparr>Version := 5, Assets := Some xs, WinPreviousOPR := []\<rparr>)))
   \<longleftrightarrow> map_of xs ''PNT'' = None \<and> length xs < 62"
proof -
  have len: "length AssetsV5 = 62" by code_simp
  have "is_panic (assign_prices (Some xs) AssetsV5) \<longleftrightarrow> length xs < 62"
    using assign_prices_short [of "Some xs" AssetsV5] assign_prices_Inr [of AssetsV5 "Some xs"] len
    by (cases "length xs < 62") (simp_all add: entries_def)
  then show ?thesis
    by (simp add: SafeMarshal_def proto_version_def marshal_proto_def proto_assets_def is_panic_rbind
        entries_def)
qed

definition same_prices :: "OraclePriceRecord res \<Rightarrow> OraclePriceRecord res \<Rightarrow> bool" where
  "same_prices x y = (case (x, y) of
     (Inr p, Inr q) \<Rightarrow> p\<lparr>Assets := None\<rparr> = q\<lparr>Assets := None\<rparr>
       \<and> map_of (entries (Assets p)) = map_of (entries (Assets q))
   | (Inl e, Inl f) \<Rightarrow> e = f
   | _ \<Rightarrow> False)"

definition peg_price :: "(f64 \<Rightarrow> u64) \<Rightarrow> byte \<Rightarrow> string \<times> f64 \<Rightarrow> string \<times> u64" where
  "peg_price oob v av = (fst av, if fst av = ''PEG'' \<and> v \<le> 2 then 0
     else u64_of_f64 oob (fround (fmul (snd av) (f64_const 100000000))))"

lemma set_peg_value_Some:
  "Assets r = Some xs \<Longrightarrow> set_peg_value oob r av
     = Inr (r\<lparr>Assets := Some (AList.update (fst av) (snd (peg_price oob (Version r) av)) xs)\<rparr>)"
  by (cases av) (simp add: set_peg_value_def SetValue_def SetValueFromUint64_def peg_price_def)

lemma SetPegValues_Some:
  "Assets r = Some xs \<Longrightarrow> SetPegValues oob r prices = Inr (r\<lparr>Assets := Some (foldl
      (\<lambda>xs (k, v). AList.update k v xs) xs (map (peg_price oob (Version r)) prices))\<rparr>)"
  unfolding SetPegValues_def
proof (induction prices arbitrary: r xs)
  case (Cons av prices)
  let ?r = "r\<lparr>Assets := Some (AList.update (fst av) (snd (peg_price oob (Version r) av)) xs)\<rparr>"
  have "Assets ?r = Some (AList.update (fst av) (snd (peg_price oob (Version r) av)) xs)" by simp
  from Cons.IH [OF this] show ?case
    by (simp add: set_peg_value_Some [OF Cons.prems] split_beta peg_price_def [of _ _ av])
qed simp

text \<open>
  The prices polled come as a map, and Go visits its entries in any order: the record that
  \<open>SetPegValues\<close> fills has the same prices in every order.
\<close>

theorem SetPegValues_order:
  assumes "distinct (map fst prices)" "mset prices = mset prices'"
  shows "same_prices (SetPegValues oob r prices) (SetPegValues oob r prices')"
proof (cases "Assets r")
  case None
  then show ?thesis
    using assms(2) unfolding SetPegValues_def
    by (cases prices; cases prices')
      (auto simp: same_prices_def set_peg_value_def SetValue_def SetValueFromUint64_def)
next
  case (Some xs)
  let ?f = "peg_price oob (Version r)"
  have fst: "map fst (map ?f ps) = map fst ps" for ps
    by (induction ps) (auto simp: peg_price_def)
  have "mset (map fst prices) = mset (map fst prices')"
    using assms(2) by (simp del: mset_map add: mset_map)
  then have d: "distinct (map fst prices')"
    using assms(1) mset_eq_imp_distinct_iff by blast
  have "set (map ?f prices) = set (map ?f prices')"
    using assms(2) by (metis mset_map set_mset_mset)
  then have "map_of (map ?f prices) = map_of (map ?f prices')"
    using assms(1) d by (intro map_of_inject_set [THEN iffD2]) (simp_all only: fst)
  then have "map_of (rev (map ?f prices)) = map_of (rev (map ?f prices'))"
    using assms(1) d by (simp only: map_of_rev_keys fst)
  then show ?thesis
    by (simp add: same_prices_def SetPegValues_Some [OF Some] entries_def fold_update_map)
qed

theorem SetPegValues_order_witness:
  "same_prices (SetPegValues (\<lambda>_. 0) sample_opr [(''USD'', Fin 1), (''PEG'', Fin 2)])
     (SetPegValues (\<lambda>_. 0) sample_opr [(''PEG'', Fin 2), (''USD'', Fin 1)])"
  by (rule SetPegValues_order) simp_all

end
