(* ===== verification/Nonces.thy ===== *)
theory Nonces
  imports Prelude
begin

text \<open>
  The ranking of the nonces a miner found: opr/aggregator.go. A ranking keeps the \<open>Keep\<close> most
  difficult of the nonces added to it; the rankings of all miners are merged into the one whose
  nonces are written to the chain.

  The list of a ranking is a slice of pointers, here of options: a slot not taken yet is a nil
  pointer, and reading one is a panic. \<open>sort.Slice\<close> is not stable and its documentation leaves the
  order of equal elements open, so it is a parameter \<open>srt\<close> of what uses it, with its contract as
  the locale \<open>sort_slice\<close>; the stable sort of the prelude is an instance. A nonce is copied when it
  is added, so that slices have the semantics of values.
\<close>

section \<open>The model\<close>

record UniqueOPRData =
  UNonce :: "byte list"
  UDifficulty :: u64

record NonceRanking =
  Keep :: int
  RankList :: "UniqueOPRData option list"
  MinimumDifficulty :: u64
  WorstDiff :: u64
  WorstIndex :: int
  taken :: int

definition NewNonceRanking :: "int \<Rightarrow> NonceRanking res" where
  "NewNonceRanking keep =
     guard_res (keep < 0) (Panic ''makeslice: len out of range'')
     (Inr \<lparr>Keep = keep, RankList = replicate (nat keep) None, MinimumDifficulty = 0,
           WorstDiff = 0, WorstIndex = 0, taken = 0\<rparr>)"

text \<open>The comparison of the sort reads both elements; any sort of two or more reads every one.\<close>

definition SortNonceRanks ::
  "((UniqueOPRData option \<Rightarrow> UniqueOPRData option \<Rightarrow> bool) \<Rightarrow> UniqueOPRData option list
      \<Rightarrow> UniqueOPRData option list)
   \<Rightarrow> UniqueOPRData option list \<Rightarrow> UniqueOPRData option list res" where
  "SortNonceRanks srt xs =
     guard_res (2 \<le> length xs \<and> None \<in> set xs) (Panic ''nil pointer dereference'')
     (Inr (srt (\<lambda>a b. UDifficulty (the a) > UDifficulty (the b)) xs))"

definition GetNonces ::
  "((UniqueOPRData option \<Rightarrow> UniqueOPRData option \<Rightarrow> bool) \<Rightarrow> UniqueOPRData option list
      \<Rightarrow> UniqueOPRData option list)
   \<Rightarrow> NonceRanking \<Rightarrow> (NonceRanking \<times> UniqueOPRData option list) res" where
  "GetNonces srt r =
     rbind (SortNonceRanks srt (take (nat (taken r)) (RankList r)))
       (\<lambda>xs. Inr (r\<lparr>RankList := xs\<rparr>, xs))"

text \<open>\<open>r.List[i] = v\<close> and the loop that looks for the new worst element.\<close>

definition set_slot :: "int \<Rightarrow> UniqueOPRData \<Rightarrow> NonceRanking \<Rightarrow> NonceRanking res" where
  "set_slot i v r =
     guard_res (i < 0 \<or> int (length (RankList r)) \<le> i) (Panic ''index out of range'')
     (Inr (r\<lparr>RankList := (RankList r)[nat i := Some v]\<rparr>))"

fun update_worst :: "int \<Rightarrow> UniqueOPRData option list \<Rightarrow> NonceRanking \<Rightarrow> NonceRanking res" where
  "update_worst i [] r = Inr r"
| "update_worst i (None # vs) r = Inl (Panic ''nil pointer dereference'')"
| "update_worst i (Some v # vs) r =
     update_worst (i + 1) vs
       (if UDifficulty v < WorstDiff r then r\<lparr>WorstDiff := UDifficulty v, WorstIndex := i\<rparr> else r)"

definition AddNonce :: "NonceRanking \<Rightarrow> byte list \<Rightarrow> u64 \<Rightarrow> (NonceRanking \<times> bool) res" where
  "AddNonce r nonce difficulty =
     (let v = \<lparr>UNonce = nonce, UDifficulty = difficulty\<rparr> in
      if difficulty < MinimumDifficulty r then Inr (r, False)
      else if taken r < Keep r
      then rbind (set_slot (taken r) v r) (\<lambda>r1.
        let r2 = (if taken r1 = 0 \<or> difficulty < WorstDiff r1
                  then r1\<lparr>WorstDiff := difficulty, WorstIndex := taken r1\<rparr> else r1)
        in Inr (r2\<lparr>taken := taken r2 + 1\<rparr>, True))
      else if difficulty < WorstDiff r then Inr (r, False)
      else rbind (set_slot (WorstIndex r) v r) (\<lambda>r1.
        rbind (update_worst 0 (RankList r1) (r1\<lparr>WorstDiff := difficulty\<rparr>)) (\<lambda>r2.
        Inr (r2, True))))"

text \<open>
  \<open>MergeNonceRankings\<close>: the loop that collects the nonces sorts and shortens the list of every
  ranking it visits; the model returns the rankings as they are afterwards. A \<open>nil\<close> among them is
  that of a cancelled miner.
\<close>

fun collect_nonces ::
  "((UniqueOPRData option \<Rightarrow> UniqueOPRData option \<Rightarrow> bool) \<Rightarrow> UniqueOPRData option list
      \<Rightarrow> UniqueOPRData option list)
   \<Rightarrow> NonceRanking option list \<Rightarrow> (NonceRanking option list \<times> UniqueOPRData option list) res" where
  "collect_nonces srt [] = Inr ([], [])"
| "collect_nonces srt (None # ls) =
     rbind (collect_nonces srt ls) (\<lambda>(ls', xs). Inr (None # ls', xs))"
| "collect_nonces srt (Some l # ls) =
     rbind (GetNonces srt l) (\<lambda>(l', ys).
     rbind (collect_nonces srt ls) (\<lambda>(ls', xs). Inr (Some l' # ls', ys @ xs)))"

definition add_slot :: "NonceRanking \<Rightarrow> UniqueOPRData option \<Rightarrow> NonceRanking res" where
  "add_slot n v =
     (case v of
        None \<Rightarrow> Inl (Panic ''nil pointer dereference'')
      | Some u \<Rightarrow> rbind (AddNonce n (UNonce u) (UDifficulty u)) (\<lambda>(n', _). Inr n'))"

definition MergeNonceRankings ::
  "((UniqueOPRData option \<Rightarrow> UniqueOPRData option \<Rightarrow> bool) \<Rightarrow> UniqueOPRData option list
      \<Rightarrow> UniqueOPRData option list)
   \<Rightarrow> int \<Rightarrow> NonceRanking option list \<Rightarrow> (NonceRanking \<times> NonceRanking option list) res" where
  "MergeNonceRankings srt keep rankings =
     rbind (collect_nonces srt rankings) (\<lambda>(rankings', xs).
     rbind (SortNonceRanks srt xs) (\<lambda>ys.
     rbind (NewNonceRanking keep) (\<lambda>n.
     rbind (res_fold add_slot n ys) (\<lambda>n'. Inr (n', rankings')))))"

text \<open>What a miner does with the nonces it finds: all of them are added, one after the other.\<close>

definition add_nonce :: "NonceRanking \<Rightarrow> UniqueOPRData \<Rightarrow> NonceRanking res" where
  "add_nonce n u = add_slot n (Some u)"

section \<open>The contract of \<open>sort.Slice\<close>\<close>

locale sort_slice =
  fixes srt :: "('a \<Rightarrow> 'a \<Rightarrow> bool) \<Rightarrow> 'a list \<Rightarrow> 'a list"
  assumes perm: "mset (srt lt xs) = mset xs"
    and sorted: "(\<And>x y. lt x y \<longleftrightarrow> k x < (k y :: nat)) \<Longrightarrow> sorted (map k (srt lt xs))"
begin

lemma same_set [simp]: "set (srt lt xs) = set xs"
  by (metis perm set_mset_mset)

lemma same_length [simp]: "length (srt lt xs) = length xs"
  by (metis perm size_mset)

end

interpretation stable: sort_slice sort_stable
proof
  show "mset (sort_stable lt xs) = mset xs" for lt and xs :: "'a list"
    by simp
  show "sorted (map k (sort_stable lt xs))" if "\<And>x y. lt x y \<longleftrightarrow> k x < k y"
    for lt and k :: "'a \<Rightarrow> nat" and xs
    using that by (intro sort_stable_sorted) simp
qed


section \<open>The best of the nonces\<close>

text \<open>
  What a ranking is for: the multiset \<open>K\<close> holds the best \<open>k\<close> of \<open>M\<close>, all of \<open>M\<close> when there are no
  more than \<open>k\<close>. Which of several nonces of equal difficulty it holds is left open.
\<close>

definition best_of :: "nat \<Rightarrow> UniqueOPRData multiset \<Rightarrow> UniqueOPRData multiset \<Rightarrow> bool" where
  "best_of k M K \<longleftrightarrow> K \<subseteq># M \<and> size K = min k (size M)
     \<and> (\<forall>x \<in># K. \<forall>y \<in># M - K. UDifficulty y \<le> UDifficulty x)"

text \<open>The nonces of a ranking, and its invariant.\<close>

definition kept :: "NonceRanking \<Rightarrow> UniqueOPRData multiset" where
  "kept r = mset (map the (take (nat (taken r)) (RankList r)))"

definition ranking_ok :: "NonceRanking \<Rightarrow> bool" where
  "ranking_ok r \<longleftrightarrow> 0 < Keep r \<and> 0 \<le> taken r \<and> taken r \<le> Keep r \<and> length (RankList r) = nat (Keep r)
     \<and> None \<notin> set (take (nat (taken r)) (RankList r))
     \<and> (0 < taken r \<longrightarrow> 0 \<le> WorstIndex r \<and> WorstIndex r < taken r
           \<and> UDifficulty (the (RankList r ! nat (WorstIndex r))) = WorstDiff r)
     \<and> (\<forall>x \<in># kept r. WorstDiff r \<le> UDifficulty x)"

lemma best_of_iff:
  "best_of k M K \<longleftrightarrow> (\<exists>R. M = K + R \<and> size K = min k (size K + size R)
     \<and> (\<forall>x \<in># K. \<forall>y \<in># R. UDifficulty y \<le> UDifficulty x))"
  by (auto simp: best_of_def mset_subset_eq_exists_conv)

lemma best_of_room:
  assumes "best_of k M K" "size K < k"
  shows "best_of k (add_mset x M) (add_mset x K)"
proof -
  have "size K = size M" "K \<subseteq># M" using assms by (auto simp: best_of_def)
  then have "K = M" by (metis mset_subset_size subset_mset.less_le less_irrefl)
  then show ?thesis using assms by (simp add: best_of_def)
qed

lemma best_of_full:
  assumes "best_of k M K" "size K = k"
  obtains R where "M = K + R" "\<And>x y. x \<in># K \<Longrightarrow> y \<in># R \<Longrightarrow> UDifficulty y \<le> UDifficulty x"
  using assms by (auto simp: best_of_iff)

lemma best_of_skip:
  assumes "best_of k M K" "size K = k" "\<And>y. y \<in># K \<Longrightarrow> UDifficulty x \<le> UDifficulty y"
  shows "best_of k (add_mset x M) K"
proof -
  obtain R where "M = K + R" "\<And>x y. x \<in># K \<Longrightarrow> y \<in># R \<Longrightarrow> UDifficulty y \<le> UDifficulty x"
    by (rule best_of_full [OF assms(1,2)]) blast
  then show ?thesis
    using assms(2,3) unfolding best_of_iff by (intro exI [of _ "add_mset x R"]) auto
qed

lemma best_of_replace:
  assumes "best_of k M K" "size K = k" "w \<in># K" "\<And>y. y \<in># K \<Longrightarrow> UDifficulty w \<le> UDifficulty y"
    and "UDifficulty w \<le> UDifficulty x"
  shows "best_of k (add_mset x M) (add_mset x (K - {#w#}))"
proof -
  obtain R where R: "M = K + R"
    "\<And>x y. x \<in># K \<Longrightarrow> y \<in># R \<Longrightarrow> UDifficulty y \<le> UDifficulty x"
    by (rule best_of_full [OF assms(1,2)]) blast
  obtain L where L: "K = add_mset w L"
    using assms(3) by (meson multi_member_split)
  have "UDifficulty b \<le> UDifficulty a"
    if "a \<in># add_mset x L" "b \<in># add_mset w R" for a b
  proof -
    have "UDifficulty b \<le> UDifficulty w"
      using that(2) R(2) [of w b] assms(3) by auto
    also have "\<dots> \<le> UDifficulty a"
      using that(1) assms(4,5) L by auto
    finally show ?thesis .
  qed
  then show ?thesis
    using R(1) L assms(2) unfolding best_of_iff by (intro exI [of _ "add_mset w R"]) auto
qed

lemma best_of_merge:
  assumes "best_of k1 M1 K1" "k \<le> k1" "best_of k (K1 + N) K"
  shows "best_of k (M1 + N) K"
proof (cases "size M1 \<le> k1")
  case True
  then have "K1 = M1"
    using assms(1) by (auto simp: best_of_iff min_def split: if_splits)
  with assms(3) show ?thesis by simp
next
  case False
  then have k1: "size K1 = k1" using assms(1) by (simp add: best_of_def)
  obtain R1 where R1: "M1 = K1 + R1"
    "\<And>x y. x \<in># K1 \<Longrightarrow> y \<in># R1 \<Longrightarrow> UDifficulty y \<le> UDifficulty x"
    by (rule best_of_full [OF assms(1) k1]) blast
  obtain R where R: "K1 + N = K + R" "size K = min k (size K + size R)"
    "\<And>x y. x \<in># K \<Longrightarrow> y \<in># R \<Longrightarrow> UDifficulty y \<le> UDifficulty x"
    using assms(3) by (auto simp: best_of_iff)
  have "size K1 + size N = size K + size R"
    using R(1) by (metis size_union)
  then have size: "size K = k"
    using R(2) k1 assms(2) by linarith
  have "UDifficulty y \<le> UDifficulty x" if x: "x \<in># K" and y: "y \<in># R1" for x y
  proof (cases "\<exists>w. w \<in># K1 \<and> w \<in># R")
    case True
    then show ?thesis using R1(2) R(3) x y by (metis order_trans)
  next
    case False
    have "count K1 w \<le> count K w" for w
    proof (cases "w \<in># R")
      case True
      with False have "w \<notin># K1" by blast
      then show ?thesis by (simp add: not_in_iff)
    next
      case False
      then show ?thesis
        using arg_cong [OF R(1), of "\<lambda>M. count M w"] by (simp add: not_in_iff)
    qed
    then have "K1 \<subseteq># K" by (simp add: mset_subset_eqI)
    moreover have "size K \<le> size K1" using k1 size assms(2) by simp
    ultimately have "K1 = K"
      by (metis leD mset_subset_size subset_mset.less_le)
    then show ?thesis using R1(2) x y by blast
  qed
  moreover have "M1 + N = K + (R + R1)"
    using R1(1) R(1) by (metis union_assoc union_commute)
  ultimately show ?thesis
    using size R(3) unfolding best_of_iff by (intro exI [of _ "R + R1"]) auto
qed

lemma best_of_merge_list:
  "list_all2 (\<lambda>M K. \<exists>k1 \<ge> k. best_of k1 M K) Ms Ks \<Longrightarrow> best_of k (N + sum_list Ks) K \<Longrightarrow>
     best_of k (N + sum_list Ms) K"
proof (induction arbitrary: N rule: list_all2_induct)
  case (Cons M Ms K' Ks)
  have "best_of k ((N + K') + sum_list Ks) K"
    using Cons.prems by (simp add: add.assoc)
  then have "best_of k ((N + K') + sum_list Ms) K"
    using Cons.IH [of "N + K'"] by blast
  then have "best_of k (K' + (N + sum_list Ms)) K"
    by (simp add: ac_simps)
  with Cons.hyps(1) have "best_of k (M + (N + sum_list Ms)) K"
    by (blast intro: best_of_merge)
  then show ?case by (simp add: ac_simps)
qed simp


section \<open>Adding nonces\<close>

definition fits :: "NonceRanking \<Rightarrow> UniqueOPRData \<Rightarrow> bool" where
  "fits r u \<longleftrightarrow> MinimumDifficulty r \<le> UDifficulty u"

lemma size_kept: "ranking_ok r \<Longrightarrow> size (kept r) = nat (taken r)"
  by (simp add: kept_def ranking_ok_def min_absorb2 nat_mono)

lemma update_worst_ok:
  assumes "None \<notin> set vs"
  shows "\<exists>d j. update_worst i vs r = Inr (r\<lparr>WorstDiff := d, WorstIndex := j\<rparr>)
      \<and> d \<le> WorstDiff r \<and> (\<forall>v \<in> set vs. d \<le> UDifficulty (the v))
      \<and> (d = WorstDiff r \<and> j = WorstIndex r
         \<or> i \<le> j \<and> j < i + int (length vs) \<and> UDifficulty (the (vs ! nat (j - i))) = d)"
  using assms
proof (induction i vs r rule: update_worst.induct)
  case (1 i r)
  have "r = r\<lparr>WorstDiff := WorstDiff r, WorstIndex := WorstIndex r\<rparr>" by simp
  then show ?case by (metis empty_iff list.set(1) order_refl update_worst.simps(1))
next
  case (3 i v vs r)
  let ?r = "if UDifficulty v < WorstDiff r then r\<lparr>WorstDiff := UDifficulty v, WorstIndex := i\<rparr> else r"
  obtain d j where IH: "update_worst (i + 1) vs ?r = Inr (?r\<lparr>WorstDiff := d, WorstIndex := j\<rparr>)"
    "d \<le> WorstDiff ?r" "\<forall>v \<in> set vs. d \<le> UDifficulty (the v)"
    "d = WorstDiff ?r \<and> j = WorstIndex ?r
     \<or> i + 1 \<le> j \<and> j < i + 1 + int (length vs) \<and> UDifficulty (the (vs ! nat (j - (i + 1)))) = d"
    using 3 by auto
  have "nat (j - i) = Suc (nat (j - (i + 1)))" if "i + 1 \<le> j"
    using that by simp
  then show ?case
    using IH by (intro exI [of _ d] exI [of _ j]) (auto split: if_splits)
qed simp

lemma kept_room:
  assumes "ranking_ok r" "taken r < Keep r"
  shows "add_mset v (kept r) =
    kept (r\<lparr>RankList := (RankList r)[nat (taken r) := Some v], taken := taken r + 1\<rparr>)"
proof -
  have "nat (taken r) < length (RankList r)" "nat (taken r + 1) = Suc (nat (taken r))"
    using assms by (auto simp: ranking_ok_def)
  then show ?thesis
    by (simp add: kept_def take_Suc_conv_app_nth)
qed

lemma AddNonce_room:
  assumes "ranking_ok r" "fits r \<lparr>UNonce = nonce, UDifficulty = d\<rparr>" "taken r < Keep r"
  shows "\<exists>r'. AddNonce r nonce d = Inr (r', True) \<and> ranking_ok r'
     \<and> kept r' = add_mset \<lparr>UNonce = nonce, UDifficulty = d\<rparr> (kept r)
     \<and> Keep r' = Keep r \<and> MinimumDifficulty r' = MinimumDifficulty r"
proof -
  let ?v = "\<lparr>UNonce = nonce, UDifficulty = d\<rparr>"
  let ?first = "taken r = 0 \<or> d < WorstDiff r"
  define r' where "r' = r\<lparr>RankList := (RankList r)[nat (taken r) := Some ?v],
    WorstDiff := if ?first then d else WorstDiff r,
    WorstIndex := if ?first then taken r else WorstIndex r, taken := taken r + 1\<rparr>"
  have inv: "0 \<le> taken r" "length (RankList r) = nat (Keep r)" "0 < Keep r"
    "None \<notin> set (take (nat (taken r)) (RankList r))"
    "0 < taken r \<Longrightarrow> 0 \<le> WorstIndex r \<and> WorstIndex r < taken r
           \<and> UDifficulty (the (RankList r ! nat (WorstIndex r))) = WorstDiff r"
    "\<forall>x \<in># kept r. WorstDiff r \<le> UDifficulty x"
    using assms(1) by (auto simp: ranking_ok_def)
  have add: "AddNonce r nonce d = Inr (r', True)"
    using assms inv by (auto simp: AddNonce_def fits_def set_slot_def r'_def Let_def not_less)
  have kept': "kept r' = add_mset ?v (kept r)"
    using kept_room [OF assms(1,3), of ?v] by (simp add: r'_def kept_def)
  have slot: "nat (taken r) < length (RankList r)" "nat (taken r + 1) = Suc (nat (taken r))"
    using assms(3) inv by auto
  have some: "None \<notin> set (take (nat (taken r')) (RankList r'))"
    using inv(4) slot by (simp add: r'_def take_Suc_conv_app_nth)
  have bound: "\<forall>x \<in># kept r'. WorstDiff r' \<le> UDifficulty x"
  proof -
    have "taken r = 0 \<Longrightarrow> kept r = {#}" by (simp add: kept_def)
    then show ?thesis
      unfolding kept' using inv(6) by (auto simp: r'_def not_less)
  qed
  have "0 \<le> WorstIndex r' \<and> WorstIndex r' < taken r'
      \<and> UDifficulty (the (RankList r' ! nat (WorstIndex r'))) = WorstDiff r'"
    using inv(1,5) slot by (auto simp: r'_def nth_list_update)
  then have "ranking_ok r'"
    using inv assms(3) some bound by (simp add: ranking_ok_def) (simp add: r'_def)
  with add kept' show ?thesis by (auto simp: r'_def)
qed

lemma AddNonce_replace:
  assumes "ranking_ok r" "fits r \<lparr>UNonce = nonce, UDifficulty = d\<rparr>" "taken r = Keep r"
    "WorstDiff r \<le> d"
  shows "\<exists>r' w. AddNonce r nonce d = Inr (r', True) \<and> ranking_ok r'
     \<and> w \<in># kept r \<and> UDifficulty w = WorstDiff r
     \<and> kept r' = add_mset \<lparr>UNonce = nonce, UDifficulty = d\<rparr> (kept r - {#w#})
     \<and> Keep r' = Keep r \<and> MinimumDifficulty r' = MinimumDifficulty r"
proof -
  let ?v = "\<lparr>UNonce = nonce, UDifficulty = d\<rparr>" and ?i = "nat (WorstIndex r)"
  define w where "w = the (RankList r ! ?i)"
  define xs where "xs = (RankList r)[?i := Some ?v]"
  have inv: "0 < Keep r" "length (RankList r) = nat (Keep r)" "None \<notin> set (RankList r)"
    "0 \<le> WorstIndex r" "WorstIndex r < Keep r" "UDifficulty w = WorstDiff r"
    "kept r = mset (map the (RankList r))"
    using assms(1,3) by (auto simp: ranking_ok_def kept_def w_def)
  have i: "?i < length (RankList r)" using inv by simp
  have xs: "None \<notin> set xs" "length xs = nat (Keep r)" "xs ! ?i = Some ?v"
    using inv(2,3) i set_update_subset_insert [of "RankList r" ?i "Some ?v"] by (auto simp: xs_def)
  have mset: "mset (map the xs) = add_mset ?v (kept r - {#w#})"
    using i by (simp add: xs_def map_update mset_update inv(7) w_def)
  obtain e j where u: "update_worst 0 xs (r\<lparr>RankList := xs, WorstDiff := d\<rparr>)
      = Inr (r\<lparr>RankList := xs, WorstDiff := e, WorstIndex := j\<rparr>)"
    "\<forall>v \<in> set xs. e \<le> UDifficulty (the v)"
    "e = d \<and> j = WorstIndex r \<or> 0 \<le> j \<and> j < int (length xs) \<and> UDifficulty (the (xs ! nat j)) = e"
    using update_worst_ok [OF xs(1), of 0 "r\<lparr>RankList := xs, WorstDiff := d\<rparr>"] by auto
  define r' where "r' = r\<lparr>RankList := xs, WorstDiff := e, WorstIndex := j\<rparr>"
  have "AddNonce r nonce d = Inr (r', True)"
    using assms inv i u(1) by (auto simp: AddNonce_def fits_def set_slot_def r'_def xs_def Let_def not_le not_less)
  moreover have kept': "kept r' = add_mset ?v (kept r - {#w#})"
    using xs(2) assms(3) mset by (simp add: kept_def r'_def)
  moreover have "ranking_ok r'"
  proof -
    have "0 \<le> j \<and> j < Keep r \<and> UDifficulty (the (xs ! nat j)) = e"
      using u(3) inv xs by auto
    moreover have "\<forall>x \<in># kept r'. e \<le> UDifficulty x"
      using u(2) xs(2) assms(3) by (auto simp: kept_def r'_def)
    ultimately show ?thesis
      using inv xs assms(3) by (simp add: ranking_ok_def) (simp add: r'_def)
  qed
  moreover have "w \<in># kept r"
    using i by (simp add: inv(7) w_def)
  ultimately show ?thesis
    using inv(6) by (intro exI [of _ r'] exI [of _ w]) (simp add: r'_def)
qed

text \<open>One step of the refinement: the ranking keeps the best of what was added to it.\<close>

lemma add_nonce_step:
  assumes "ranking_ok r" "best_of (nat (Keep r)) M (kept r)"
  shows "\<exists>r'. add_nonce r u = Inr r' \<and> ranking_ok r'
     \<and> Keep r' = Keep r \<and> MinimumDifficulty r' = MinimumDifficulty r
     \<and> best_of (nat (Keep r)) (if fits r u then add_mset u M else M) (kept r')"
proof -
  obtain nonce d where u: "u = \<lparr>UNonce = nonce, UDifficulty = d\<rparr>"
    by (cases u) auto
  have inv: "0 \<le> taken r" "taken r \<le> Keep r" "\<forall>x \<in># kept r. WorstDiff r \<le> UDifficulty x"
    using assms(1) by (auto simp: ranking_ok_def)
  consider "\<not> fits r u" | "fits r u" "taken r < Keep r"
    | "fits r u" "taken r = Keep r" "d < WorstDiff r"
    | "fits r u" "taken r = Keep r" "WorstDiff r \<le> d"
    using inv(2) by fastforce
  then show ?thesis
  proof cases
    case 1
    then have "add_nonce r u = Inr r"
      by (simp add: add_nonce_def add_slot_def AddNonce_def fits_def u Let_def not_le)
    with 1 assms show ?thesis by simp
  next
    case 2
    then show ?thesis
      using AddNonce_room [of r nonce d] best_of_room [OF assms(2), of u] assms(1) inv
      by (auto simp: u add_nonce_def add_slot_def size_kept)
  next
    case 3
    then have "best_of (nat (Keep r)) (add_mset u M) (kept r)"
      using inv by (intro best_of_skip [OF assms(2)]) (auto simp: u size_kept assms(1) intro: order_trans)
    moreover have "add_nonce r u = Inr r"
      using 3 by (simp add: add_nonce_def add_slot_def AddNonce_def u Let_def)
    ultimately show ?thesis
      using assms(1) 3(1) by simp
  next
    case 4
    then obtain r' w where r': "AddNonce r nonce d = Inr (r', True)" "ranking_ok r'"
      "w \<in># kept r" "UDifficulty w = WorstDiff r" "kept r' = add_mset u (kept r - {#w#})"
      "Keep r' = Keep r" "MinimumDifficulty r' = MinimumDifficulty r"
      using AddNonce_replace [of r nonce d] assms(1) by (auto simp: u)
    have "best_of (nat (Keep r)) (add_mset u M) (kept r')"
      unfolding r'(5) using 4 inv r'(3,4)
      by (intro best_of_replace [OF assms(2)]) (auto simp: u size_kept assms(1))
    with 4 r' show ?thesis
      by (simp add: add_nonce_def add_slot_def u)
  qed
qed

lemma add_nonces:
  assumes "ranking_ok r" "best_of (nat (Keep r)) M (kept r)"
  shows "\<exists>r'. res_fold add_nonce r us = Inr r' \<and> ranking_ok r'
     \<and> Keep r' = Keep r \<and> MinimumDifficulty r' = MinimumDifficulty r
     \<and> best_of (nat (Keep r)) (M + filter_mset (fits r) (mset us)) (kept r')"
  using assms
proof (induction us arbitrary: r M)
  case (Cons u us)
  obtain r1 where r1: "add_nonce r u = Inr r1" "ranking_ok r1" "Keep r1 = Keep r"
    "MinimumDifficulty r1 = MinimumDifficulty r"
    "best_of (nat (Keep r)) (if fits r u then add_mset u M else M) (kept r1)"
    using add_nonce_step [OF Cons.prems] by blast
  have "fits r1 = fits r" using r1(4) by (simp add: fits_def fun_eq_iff)
  with Cons.IH [OF r1(2), of "if fits r u then add_mset u M else M"] r1 show ?case
    by (auto simp: ac_simps split: if_splits)
qed simp

lemma NewNonceRanking_ok:
  assumes "0 < keep"
  obtains n where "NewNonceRanking keep = Inr n" "ranking_ok n" "Keep n = keep"
    "MinimumDifficulty n = 0" "kept n = {#}" "taken n = 0"
  using assms that by (auto simp: NewNonceRanking_def ranking_ok_def kept_def)


section \<open>Reading and merging rankings\<close>

locale nonce_sort = sort_slice srt
  for srt :: "(UniqueOPRData option \<Rightarrow> UniqueOPRData option \<Rightarrow> bool) \<Rightarrow> UniqueOPRData option list
    \<Rightarrow> UniqueOPRData option list"
begin

lemma SortNonceRanks_map:
  "\<exists>vs. SortNonceRanks srt (map Some us) = Inr (map Some vs) \<and> mset vs = mset us
     \<and> sorted_wrt (\<lambda>a b. UDifficulty b \<le> UDifficulty a) vs"
proof -
  let ?lt = "\<lambda>a b. UDifficulty (the a) > UDifficulty (the b)"
  let ?k = "\<lambda>a. 2 ^ 64 - unat (UDifficulty (the a))"
  define ys where "ys = srt ?lt (map Some us)"
  have "ys = map Some (map the ys)"
    by (auto simp: ys_def intro!: map_idI [symmetric])
  moreover have "mset (map the ys) = mset us"
    by (simp add: ys_def perm image_mset.compositionality comp_def)
  moreover have "sorted_wrt (\<lambda>a b. UDifficulty b \<le> UDifficulty a) (map the ys)"
  proof -
    have small: "unat (UDifficulty x) < 2 ^ 64" for x
    proof -
      have "unat (UDifficulty x) < 2 ^ LENGTH(64)" by (rule unsigned_less)
      then show ?thesis by simp
    qed
    have key_less: "?lt a b \<longleftrightarrow> ?k a < ?k b" for a b
      unfolding word_less_nat_alt using small [of "the a"] small [of "the b"] by linarith
    have "sorted (map ?k ys)"
      unfolding ys_def by (rule sorted) (rule key_less)
    moreover have "UDifficulty (the b) \<le> UDifficulty (the a)" if "?k a \<le> ?k b" for a b
      using that small [of "the a"] small [of "the b"] unfolding word_le_nat_alt by linarith
    ultimately show ?thesis
      unfolding sorted_map sorted_wrt_map by (rule sorted_wrt_mono_rel [rotated])
  qed
  moreover have "SortNonceRanks srt (map Some us) = Inr ys"
    by (auto simp: SortNonceRanks_def ys_def)
  ultimately show ?thesis by metis
qed

lemma GetNonces_ok:
  assumes "ranking_ok r"
  shows "\<exists>vs r'. GetNonces srt r = Inr (r', map Some vs) \<and> mset vs = kept r
     \<and> sorted_wrt (\<lambda>a b. UDifficulty b \<le> UDifficulty a) vs"
proof -
  let ?xs = "take (nat (taken r)) (RankList r)"
  have "None \<notin> set ?xs" using assms by (simp add: ranking_ok_def)
  then have "?xs = map Some (map the ?xs)"
    by (metis (no_types, lifting) list.map_comp list.map_ident_strong comp_def option.collapse)
  then show ?thesis
    using SortNonceRanks_map [of "map the ?xs"]
    by (auto simp: GetNonces_def kept_def)
qed

lemma collect_nonces_ok:
  assumes "\<And>r. Some r \<in> set rs \<Longrightarrow> ranking_ok r"
  shows "\<exists>rs' us. collect_nonces srt rs = Inr (rs', map Some us)
     \<and> mset us = (\<Sum>r\<leftarrow>rs. case r of None \<Rightarrow> {#} | Some r \<Rightarrow> kept r)"
  using assms
proof (induction rs)
  case (Cons x rs)
  then obtain rs' us where IH: "collect_nonces srt rs = Inr (rs', map Some us)"
    "mset us = (\<Sum>r\<leftarrow>rs. case r of None \<Rightarrow> {#} | Some r \<Rightarrow> kept r)" by fastforce
  show ?case
  proof (cases x)
    case None
    with IH show ?thesis by simp
  next
    case (Some r)
    then obtain r' vs where "GetNonces srt r = Inr (r', map Some vs)" "mset vs = kept r"
      using GetNonces_ok [of r] Cons.prems by auto
    with IH Some show ?thesis
      by (intro exI [of _ "Some r' # rs'"] exI [of _ "vs @ us"]) simp
  qed
qed simp

lemma Merge_ok:
  assumes "\<And>r. Some r \<in> set rs \<Longrightarrow> ranking_ok r" "0 < keep"
  shows "\<exists>r rs'. MergeNonceRankings srt keep rs = Inr (r, rs') \<and> ranking_ok r \<and> Keep r = keep
     \<and> best_of (nat keep) (\<Sum>r\<leftarrow>rs. case r of None \<Rightarrow> {#} | Some r \<Rightarrow> kept r) (kept r)"
proof -
  obtain rs' us where us: "collect_nonces srt rs = Inr (rs', map Some us)"
    "mset us = (\<Sum>r\<leftarrow>rs. case r of None \<Rightarrow> {#} | Some r \<Rightarrow> kept r)"
    using collect_nonces_ok assms(1) by blast
  obtain vs where vs: "SortNonceRanks srt (map Some us) = Inr (map Some vs)" "mset vs = mset us"
    using SortNonceRanks_map by blast
  obtain n where n: "NewNonceRanking keep = Inr n" "ranking_ok n" "Keep n = keep"
    "MinimumDifficulty n = 0" "kept n = {#}"
    using NewNonceRanking_ok [OF assms(2)] by metis
  have "best_of (nat (Keep n)) {#} (kept n)" by (simp add: n(5) best_of_def)
  then obtain r where r: "res_fold add_nonce n vs = Inr r" "ranking_ok r" "Keep r = keep"
    "best_of (nat keep) ({#} + filter_mset (fits n) (mset vs)) (kept r)"
    using add_nonces [OF n(2), of "{#}" vs] n(3) by auto
  have "filter_mset (fits n) (mset vs) = mset vs"
  proof -
    have "fits n = (\<lambda>_. True)" by (simp add: fits_def n(4) fun_eq_iff)
    then show ?thesis by simp
  qed
  moreover have "res_fold add_slot s (map Some vs) = res_fold add_nonce s vs" for s
    by (induction vs arbitrary: s) (simp_all add: add_nonce_def fun_eq_iff cong: arg_cong2 [of _ _ _ _ rbind])
  ultimately show ?thesis
    using us vs n(1) r by (simp add: MergeNonceRankings_def)
qed

text \<open>Merging rankings that each keep the best of some nonces, \<open>nil\<close> those of none.\<close>

lemma Merge_each:
  assumes "list_all2 (\<lambda>r M. case r of None \<Rightarrow> M = {#}
      | Some r \<Rightarrow> ranking_ok r \<and> best_of (nat keep) M (kept r)) rs Ms" "0 < keep"
  shows "\<exists>r rs' r' vs. MergeNonceRankings srt keep rs = Inr (r, rs')
     \<and> GetNonces srt r = Inr (r', map Some vs) \<and> best_of (nat keep) (sum_list Ms) (mset vs)
     \<and> sorted_wrt (\<lambda>a b. UDifficulty b \<le> UDifficulty a) vs"
proof -
  let ?kept = "\<lambda>r. case r of None \<Rightarrow> {#} | Some r \<Rightarrow> kept r"
  have "ranking_ok r" if "Some r \<in> set rs" for r
    using that assms(1) by (fastforce simp: in_set_conv_nth list_all2_conv_all_nth)
  then obtain r rs' where r: "MergeNonceRankings srt keep rs = Inr (r, rs')" "ranking_ok r"
    "best_of (nat keep) (sum_list (map ?kept rs)) (kept r)"
    using Merge_ok [OF _ assms(2)] by blast
  have "best_of (nat keep) M (?kept x)"
    if "case x of None \<Rightarrow> M = {#} | Some r \<Rightarrow> ranking_ok r \<and> best_of (nat keep) M (kept r)" for x M
    using that by (cases x) (simp_all add: best_of_def)
  then have "list_all2 (\<lambda>M K. \<exists>k1 \<ge> nat keep. best_of k1 M K) Ms (map ?kept rs)"
    using assms(1) by (fastforce simp: list_all2_conv_all_nth)
  then have "best_of (nat keep) (sum_list Ms) (kept r)"
    using best_of_merge_list [of _ _ _ "{#}"] r(3) by fastforce
  then show ?thesis
    using GetNonces_ok [OF r(2)] r(1) by metis
qed

end

interpretation stable_nonces: nonce_sort sort_stable ..

section \<open>Correctness of the rankings\<close>

text \<open>
  C38. However many nonces are added to a new ranking, in whatever order, no step fails, the
  invariant of the ranking holds, and it keeps the \<open>keep\<close> most difficult of those that reach the
  minimum difficulty.
\<close>

theorem AddNonces_best:
  assumes "0 < keep"
  shows "\<exists>n r. NewNonceRanking keep = Inr n
     \<and> res_fold add_nonce (n\<lparr>MinimumDifficulty := low\<rparr>) us = Inr r \<and> ranking_ok r
     \<and> best_of (nat keep) (filter_mset (\<lambda>u. low \<le> UDifficulty u) (mset us)) (kept r)"
proof -
  obtain n where n: "NewNonceRanking keep = Inr n" "ranking_ok n" "Keep n = keep"
    "MinimumDifficulty n = 0" "kept n = {#}"
    using NewNonceRanking_ok [OF assms] by metis
  let ?n = "n\<lparr>MinimumDifficulty := low\<rparr>"
  have "ranking_ok ?n" "kept ?n = {#}" "fits ?n = (\<lambda>u. low \<le> UDifficulty u)"
    using n by (simp_all add: ranking_ok_def kept_def fits_def fun_eq_iff)
  then show ?thesis
    using add_nonces [of ?n "{#}" us] n by (auto simp: best_of_def)
qed

definition sample_nonces :: "UniqueOPRData list" where
  "sample_nonces = [\<lparr>UNonce = [1], UDifficulty = 7\<rparr>, \<lparr>UNonce = [2], UDifficulty = 9\<rparr>,
     \<lparr>UNonce = [3], UDifficulty = 2\<rparr>, \<lparr>UNonce = [4], UDifficulty = 8\<rparr>]"

definition sample_ranking :: NonceRanking where
  "sample_ranking =
     (case rbind (NewNonceRanking 2) (\<lambda>n. res_fold add_nonce n sample_nonces) of
        Inr r \<Rightarrow> r | Inl _ \<Rightarrow> undefined)"

lemma sample_ranking_eq:
  "rbind (NewNonceRanking 2) (\<lambda>n. res_fold add_nonce n sample_nonces) = Inr sample_ranking"
  "map (map_option UNonce) (RankList sample_ranking) = [Some [4], Some [2]]"
  by code_simp+

theorem AddNonces_best_witness:
  "\<exists>n r. NewNonceRanking 2 = Inr n
     \<and> res_fold add_nonce (n\<lparr>MinimumDifficulty := 8\<rparr>) sample_nonces = Inr r \<and> ranking_ok r
     \<and> best_of (nat 2) (filter_mset (\<lambda>u. 8 \<le> UDifficulty u) (mset sample_nonces)) (kept r)"
  by (rule AddNonces_best) simp

definition added_to :: "int \<Rightarrow> NonceRanking option \<Rightarrow> UniqueOPRData list \<Rightarrow> bool" where
  "added_to keep r us =
     (case r of
        None \<Rightarrow> us = []
      | Some r \<Rightarrow> rbind (NewNonceRanking keep) (\<lambda>n. res_fold add_nonce n us) = Inr r)"

lemma added_to_best:
  assumes "added_to keep (Some r) us" "0 < keep"
  shows "ranking_ok r" "best_of (nat keep) (mset us) (kept r)"
proof -
  obtain n where n: "NewNonceRanking keep = Inr n" "ranking_ok n" "Keep n = keep"
    "MinimumDifficulty n = 0" "kept n = {#}"
    using NewNonceRanking_ok [OF assms(2)] by metis
  have "fits n = (\<lambda>_. True)" by (simp add: fits_def n(4) fun_eq_iff)
  moreover have "best_of (nat (Keep n)) {#} (kept n)" by (simp add: n(5) best_of_def)
  ultimately show "ranking_ok r" "best_of (nat keep) (mset us) (kept r)"
    using add_nonces [OF n(2), of "{#}" us] assms(1) n(1,3) by (auto simp: added_to_def)
qed

text \<open>
  Merging the rankings of several miners, of which some may have been cancelled, keeps the best
  of all nonces that any of them found: nothing is lost by ranking each miner alone first. The
  nonces that are then written come in descending order of their difficulty. The sort may order
  nonces of equal difficulty in any way.
\<close>

theorem Merge_best:
  assumes "nonce_sort srt" "0 < keep" "list_all2 (added_to keep) rs uss"
  shows "\<exists>r rs' r' vs. MergeNonceRankings srt keep rs = Inr (r, rs')
     \<and> GetNonces srt r = Inr (r', map Some vs)
     \<and> best_of (nat keep) (mset (concat uss)) (mset vs)
     \<and> sorted_wrt (\<lambda>a b. UDifficulty b \<le> UDifficulty a) vs"
proof -
  have "case r of None \<Rightarrow> mset us = {#}
      | Some r \<Rightarrow> ranking_ok r \<and> best_of (nat keep) (mset us) (kept r)" if "added_to keep r us" for r us
    using that added_to_best [OF _ assms(2)] by (cases r) (auto simp: added_to_def)
  then have "list_all2 (\<lambda>r M. case r of None \<Rightarrow> M = {#}
      | Some r \<Rightarrow> ranking_ok r \<and> best_of (nat keep) M (kept r)) rs (map mset uss)"
    using assms(3) unfolding list_all2_map2 by (rule list_all2_mono [rotated])
  then show ?thesis
    using nonce_sort.Merge_each [OF assms(1) _ assms(2)] by (simp add: mset_concat)
qed

theorem Merge_best_witness:
  "\<exists>r rs' r' vs. MergeNonceRankings sort_stable 2 [Some sample_ranking, None] = Inr (r, rs')
     \<and> GetNonces sort_stable r = Inr (r', map Some vs)
     \<and> best_of (nat 2) (mset (concat [sample_nonces, []])) (mset vs)
     \<and> sorted_wrt (\<lambda>a b. UDifficulty b \<le> UDifficulty a) vs"
  by (rule Merge_best [OF stable_nonces.nonce_sort_axioms])
    (simp_all add: added_to_def sample_ranking_eq(1))

text \<open>
  A ranking must not be used after its nonces were read: the list is cut to the slots taken, so
  that adding a nonce to a free slot panics, and in a full list the worst element is no longer where
  the ranking remembers it, so that the best nonce is thrown away for a worse one. Nor does a
  ranking that keeps nothing accept a nonce: it panics at the first.
\<close>

theorem AddNonce_misuse:
  "rbind (GetNonces sort_stable (sample_ranking\<lparr>Keep := 3\<rparr>)) (\<lambda>(r, _). AddNonce r [5] 1)
     = Inl (Panic ''index out of range'')
   \<and> map_sum id (\<lambda>(r, b). map (map_option UNonce) (RankList r))
       (rbind (GetNonces sort_stable sample_ranking) (\<lambda>(r, _). AddNonce r [5] 8))
     = Inr [Some [5], Some [4]]
   \<and> rbind (NewNonceRanking 0) (\<lambda>n. AddNonce n [5] 8) = Inl (Panic ''index out of range'')"
  by code_simp

end
