(* ===== verification/Mining.thy ===== *)
theory Mining
  imports Nonces
begin

text \<open>
  The miners: mining/miner.go, the statistics of one miner (mining/stats.go), the difficulty of a
  nonce (opr/opr.go), the batches of commands the coordinator sends (mining/coordinator.go) and the
  collection of the miners' rankings (mining/entryWriter.go).

  A miner is a goroutine that takes commands from a channel and hashes as long as there are none.
  Its state is passed explicitly; \<open>outbox\<close> and \<open>statsbox\<close> are what it has sent on its two channels,
  which are named by numbers. What the \<open>select\<close> statement of an iteration finds is an event. The LX
  hash is third-party code, a parameter \<open>lx\<close>; that its results have eight bytes or more is the
  hypothesis \<open>hash_ok\<close> where it is needed. The clock is not modelled.
\<close>

section \<open>Counting nonces\<close>

record NonceIncrementer =
  Nonce :: "byte list"
  lastNonceByte :: int

definition NewNonceIncrementer :: "int \<Rightarrow> NonceIncrementer" where
  "NewNonceIncrementer i = \<lparr>Nonce = [word_of_int i, 0], lastNonceByte = 1\<rparr>"

text \<open>The loop of \<open>NextNonce\<close> at index \<open>idx\<close>; below index 0 the slice is indexed out of range.\<close>

fun next_nonce_loop :: "nat \<Rightarrow> byte list \<Rightarrow> byte list res" where
  "next_nonce_loop 0 bs =
     (let bs' = bs[0 := bs ! 0 + 1] in
      guard_res (bs' ! 0 = 0) (Panic ''index out of range'') (Inr bs'))"
| "next_nonce_loop (Suc j) bs =
     (let bs' = bs[Suc j := bs ! Suc j + 1] in
      if bs' ! Suc j = 0
      then (if j = 0 then Inr (take 1 bs' @ [1] @ drop 1 bs') else next_nonce_loop j bs')
      else Inr bs')"

definition NextNonce :: "NonceIncrementer \<Rightarrow> NonceIncrementer res" where
  "NextNonce i =
     guard_res (Nonce i = []) (Panic ''index out of range'')
     (rbind (next_nonce_loop (length (Nonce i) - 1) (Nonce i)) (\<lambda>bs. Inr (i\<lparr>Nonce := bs\<rparr>)))"

section \<open>The state of a miner\<close>

record SingleMinerStats =
  StatsID :: int
  TotalHashes :: int
  BestDifficulty :: u64

definition NewSingleMinerStats :: SingleMinerStats where
  "NewSingleMinerStats = \<lparr>StatsID = 0, TotalHashes = 0, BestDifficulty = 0\<rparr>"

definition NewDifficulty :: "SingleMinerStats \<Rightarrow> u64 \<Rightarrow> SingleMinerStats" where
  "NewDifficulty s diff = (if BestDifficulty s < diff then s\<lparr>BestDifficulty := diff\<rparr> else s)"

record oprMiningState =
  oprhash :: "byte list"
  Incrementer :: NonceIncrementer
  minimumDifficulty :: u64
  rankings :: NonceRanking
  stats :: "SingleMinerStats option"
  writeChannel :: "nat option"
  statsChannel :: "nat option"
  keep :: int

record PegnetMiner =
  ID :: int
  MiningState :: oprMiningState
  paused :: bool
  outbox :: "(nat \<times> NonceRanking) list"
  statsbox :: "(nat \<times> SingleMinerStats) list"

text \<open>\<open>recordsPerBlock\<close> is the setting \<open>Miner.RecordsPerBlock\<close>, 0 when it is missing.\<close>

definition NewPegnetMinerFromConfig :: "int \<Rightarrow> int \<Rightarrow> PegnetMiner res" where
  "NewPegnetMinerFromConfig recordsPerBlock i =
     rbind (NewNonceRanking recordsPerBlock) (\<lambda>r.
       Inr \<lparr>ID = i,
            MiningState = \<lparr>oprhash = [], Incrementer = NewNonceIncrementer i, minimumDifficulty = 0,
              rankings = r, stats = None, writeChannel = None, statsChannel = None,
              keep = recordsPerBlock\<rparr>,
            paused = False, outbox = [], statsbox = []\<rparr>)"

definition ResetNonce :: "PegnetMiner \<Rightarrow> PegnetMiner" where
  "ResetNonce p = p\<lparr>MiningState := (MiningState p)\<lparr>Incrementer := NewNonceIncrementer (ID p)\<rparr>\<rparr>"

section \<open>Commands\<close>

datatype MinerCommand =
    BatchCommand "MinerCommand list"
  | NewOPRHash "byte list"
  | ResetRecords
  | MinimumAccept u64
  | RecordsToKeep int
  | RecordAggregator nat
  | StatsAggregator nat
  | SubmitNonces
  | PauseMining
  | ResumeMining

text \<open>
  The result of \<open>SubmitNonces\<close> before an aggregator was set is a send on a nil channel, which blocks
  the goroutine forever; nothing after it runs, as after an error.
\<close>

definition ResetRecords_step :: "PegnetMiner \<Rightarrow> PegnetMiner res" where
  "ResetRecords_step p =
     (let p1 = ResetNonce p in
      rbind (NewNonceRanking (keep (MiningState p1))) (\<lambda>r.
        Inr (p1\<lparr>MiningState := (MiningState p1)\<lparr>rankings := r,
               stats := Some (NewSingleMinerStats\<lparr>StatsID := ID p1\<rparr>)\<rparr>\<rparr>)))"

definition SubmitNonces_step :: "PegnetMiner \<Rightarrow> PegnetMiner res" where
  "SubmitNonces_step p =
     (let m = MiningState p in
      case stats m of
        None \<Rightarrow> Inl (Panic ''nil pointer dereference'')
      | Some s \<Rightarrow>
        (case writeChannel m of
           None \<Rightarrow> Inl (GoError ''blocked: send on a nil channel'')
         | Some w \<Rightarrow>
           Inr (p\<lparr>outbox := outbox p @ [(w, rankings m)],
                  statsbox := statsbox p @ (case statsChannel m of None \<Rightarrow> [] | Some c \<Rightarrow> [(c, s)])\<rparr>)))"

fun HandleCommand :: "MinerCommand \<Rightarrow> PegnetMiner \<Rightarrow> PegnetMiner res"
and HandleCommands :: "MinerCommand list \<Rightarrow> PegnetMiner \<Rightarrow> PegnetMiner res" where
  "HandleCommand (BatchCommand cs) p = HandleCommands cs p"
| "HandleCommand (NewOPRHash h) p = Inr (p\<lparr>MiningState := (MiningState p)\<lparr>oprhash := h\<rparr>\<rparr>)"
| "HandleCommand ResetRecords p = ResetRecords_step p"
| "HandleCommand (MinimumAccept d) p =
     Inr (p\<lparr>MiningState := (MiningState p)\<lparr>minimumDifficulty := d\<rparr>\<rparr>)"
| "HandleCommand (RecordsToKeep k) p = Inr (p\<lparr>MiningState := (MiningState p)\<lparr>keep := k\<rparr>\<rparr>)"
| "HandleCommand (RecordAggregator w) p =
     Inr (p\<lparr>MiningState := (MiningState p)\<lparr>writeChannel := Some w\<rparr>\<rparr>)"
| "HandleCommand (StatsAggregator c) p =
     Inr (p\<lparr>MiningState := (MiningState p)\<lparr>statsChannel := Some c\<rparr>\<rparr>)"
| "HandleCommand SubmitNonces p = SubmitNonces_step p"
| "HandleCommand PauseMining p = Inr (p\<lparr>paused := True\<rparr>)"
| "HandleCommand ResumeMining p = Inr (p\<lparr>paused := False\<rparr>)"
| "HandleCommands [] p = Inr p"
| "HandleCommands (c # cs) p = rbind (HandleCommand c p) (HandleCommands cs)"

section \<open>Mining\<close>

text \<open>Difficulties are the first eight bytes of the hash, read as a big-endian number.\<close>

definition ComputeDifficulty :: "(byte list \<Rightarrow> byte list) \<Rightarrow> byte list \<Rightarrow> byte list \<Rightarrow> u64 res" where
  "ComputeDifficulty lx hash nonce =
     (let h = lx (hash @ nonce) in
      guard_res (length h < 8) (Panic ''index out of range'')
      (Inr (foldl (\<lambda>d i. push_bit 8 d + ucast (h ! i)) 0 [0..<8])))"

definition hash_once :: "(byte list \<Rightarrow> byte list) \<Rightarrow> PegnetMiner \<Rightarrow> PegnetMiner res" where
  "hash_once lx p =
     rbind (NextNonce (Incrementer (MiningState p))) (\<lambda>inc.
     let m = (MiningState p)\<lparr>Incrementer := inc\<rparr> in
     case stats m of
       None \<Rightarrow> Inl (Panic ''nil pointer dereference'')
     | Some s \<Rightarrow>
       (let s1 = s\<lparr>TotalHashes := wrap64 (TotalHashes s + 1)\<rparr> in
        rbind (ComputeDifficulty lx (oprhash m) (Nonce inc)) (\<lambda>diff.
        if minimumDifficulty m < diff
        then rbind (AddNonce (rankings m) (Nonce inc) diff) (\<lambda>(r, added).
               Inr (p\<lparr>MiningState := m\<lparr>rankings := r,
                      stats := Some (if added then NewDifficulty s1 diff else s1)\<rparr>\<rparr>))
        else Inr (p\<lparr>MiningState := m\<lparr>stats := Some s1\<rparr>\<rparr>))))"

text \<open>
  The loops of \<open>Mine\<close> and \<open>waitForResume\<close>. A miner waits for its first command (\<open>Starting\<close>), then
  mines or, when it is paused, waits for commands until one resumes it. An event is what the
  \<open>select\<close> of the iteration finds: a command, the end of the context, or nothing, which is
  possible only where the \<open>select\<close> has a default.
\<close>

datatype miner_phase = Starting | Mining | Waiting | Stopped

datatype miner_event = Command MinerCommand | Cancelled | Nothing

definition mine_iteration ::
  "(byte list \<Rightarrow> byte list) \<Rightarrow> PegnetMiner \<Rightarrow> (miner_phase \<times> PegnetMiner) res" where
  "mine_iteration lx p =
     (if paused p then Inr (Waiting, p) else rbind (hash_once lx p) (\<lambda>p'. Inr (Mining, p')))"

fun mine_step :: "(byte list \<Rightarrow> byte list) \<Rightarrow> miner_event \<Rightarrow> miner_phase \<times> PegnetMiner
    \<Rightarrow> (miner_phase \<times> PegnetMiner) res" where
  "mine_step lx (Command c) (Starting, p) = rbind (HandleCommand c p) (\<lambda>p'. Inr (Mining, p'))"
| "mine_step lx Cancelled (Starting, p) = Inr (Stopped, p)"
| "mine_step lx Nothing (Starting, p) = Inr (Starting, p)"
| "mine_step lx (Command c) (Mining, p) = rbind (HandleCommand c p) (mine_iteration lx)"
| "mine_step lx Cancelled (Mining, p) = Inr (Stopped, p)"
| "mine_step lx Nothing (Mining, p) = mine_iteration lx p"
| "mine_step lx (Command c) (Waiting, p) =
     rbind (HandleCommand c p) (\<lambda>p'. Inr (if paused p' then Waiting else Mining, p'))"
| "mine_step lx Cancelled (Waiting, p) = Inr (Mining, p)"
| "mine_step lx Nothing (Waiting, p) = Inr (Waiting, p)"
| "mine_step lx ev (Stopped, p) = Inr (Stopped, p)"

definition Mine :: "(byte list \<Rightarrow> byte list) \<Rightarrow> miner_event list \<Rightarrow> PegnetMiner
    \<Rightarrow> (miner_phase \<times> PegnetMiner) res" where
  "Mine lx evs p = res_fold (\<lambda>s ev. mine_step lx ev s) (Starting, p) evs"

section \<open>The coordinator's batches and the entry writer\<close>

text \<open>
  The command that starts the mining of a block, and the one that ends it. The two aggregators are
  channels made for the block.
\<close>

definition start_batch :: "nat \<Rightarrow> nat \<Rightarrow> byte list \<Rightarrow> u64 \<Rightarrow> MinerCommand" where
  "start_batch w c hash low =
     BatchCommand [RecordAggregator w, StatsAggregator c, ResetRecords, NewOPRHash hash,
       MinimumAccept low, ResumeMining]"

definition end_batch :: MinerCommand where
  "end_batch = BatchCommand [SubmitNonces, PauseMining]"

text \<open>
  \<open>collectAndWrite\<close>: it waits for as many rankings as there are miners, merges them and writes an
  entry for each nonce; the result is what it writes. \<open>received\<close> is what arrives on the channel; with
  too little of it the writer waits forever, the result is \<open>None\<close>. The first ranking is awaited even
  when there is no miner.
\<close>

definition collectAndWrite ::
  "((UniqueOPRData option \<Rightarrow> UniqueOPRData option \<Rightarrow> bool) \<Rightarrow> UniqueOPRData option list
      \<Rightarrow> UniqueOPRData option list)
   \<Rightarrow> int \<Rightarrow> nat \<Rightarrow> NonceRanking option list \<Rightarrow> UniqueOPRData option list res option" where
  "collectAndWrite srt n_keep miners received =
     (if miners = 0 \<or> length received < miners then None
      else Some (rbind (MergeNonceRankings srt n_keep (take miners received)) (\<lambda>(final, _).
             rbind (GetNonces srt final) (\<lambda>(_, nonces). Inr nonces))))"

section \<open>Counting in base 256\<close>

text \<open>What the incrementer counts: the digits of \<open>n\<close>, the most significant first.\<close>

fun nonce_bytes :: "nat \<Rightarrow> byte list" where
  "nonce_bytes n = (if n < 256 then [word_of_nat n]
                    else nonce_bytes (n div 256) @ [word_of_nat (n mod 256)])"

declare nonce_bytes.simps [simp del]

definition nonce_value :: "byte list \<Rightarrow> nat" where
  "nonce_value bs = foldl (\<lambda>n b. 256 * n + unat b) 0 bs"

lemma nonce_bytes_not_Nil [simp]: "nonce_bytes n \<noteq> []"
  by (subst nonce_bytes.simps) simp

lemma nonce_value_snoc [simp]: "nonce_value (bs @ [b]) = 256 * nonce_value bs + unat b"
  by (simp add: nonce_value_def)

lemma unat_small_byte: "n < 256 \<Longrightarrow> unat (word_of_nat n :: byte) = n"
  by (simp add: unat_of_nat take_bit_eq_mod)

lemma nonce_value_bytes [simp]: "nonce_value (nonce_bytes n) = n"
proof (induction n rule: nonce_bytes.induct)
  case (1 n)
  then show ?case
    by (subst nonce_bytes.simps) (simp add: unat_small_byte, simp add: nonce_value_def unat_small_byte)
qed

lemma nonce_bytes_inject [simp]: "nonce_bytes n = nonce_bytes m \<longleftrightarrow> n = m"
  by (metis nonce_value_bytes)

lemma next_nonce_loop_frame:
  "j < length bs \<Longrightarrow> 0 < j \<Longrightarrow>
     next_nonce_loop j (bs @ cs) = map_sum id (\<lambda>r. r @ cs) (next_nonce_loop j bs)"
proof (induction j arbitrary: bs)
  case (Suc j)
  have IH: "0 < j \<Longrightarrow> next_nonce_loop j (bs[Suc j := x] @ cs)
      = map_sum id (\<lambda>r. r @ cs) (next_nonce_loop j (bs[Suc j := x]))" for x
    using Suc.prems by (intro Suc.IH) simp_all
  have "(bs @ cs) ! Suc j = bs ! Suc j" "(bs @ cs)[Suc j := x] = bs[Suc j := x] @ cs" for x
    using Suc.prems by (simp_all add: nth_append list_update_append)
  then show ?case
    using IH Suc.prems by (cases "j = 0") (simp_all add: Let_def nth_append id_def)
qed simp

lemma next_nonce_carry:
  assumes "bs \<noteq> []" "b + 1 = 0"
  shows "next_nonce_loop (length (bs @ [b])) (i # bs @ [b])
    = map_sum id (\<lambda>r. r @ [0]) (next_nonce_loop (length bs) (i # bs))"
proof -
  have "next_nonce_loop (length (bs @ [b])) (i # bs @ [b])
      = next_nonce_loop (length bs) ((i # bs) @ [0])"
    using assms by (simp add: Let_def list_update_append nth_append)
  also have "\<dots> = map_sum id (\<lambda>r. r @ [0]) (next_nonce_loop (length bs) (i # bs))"
    using assms(1) by (intro next_nonce_loop_frame) auto
  finally show ?thesis .
qed

lemma next_nonce_no_carry:
  "b + 1 \<noteq> 0 \<Longrightarrow> next_nonce_loop (length (bs @ [b])) (i # bs @ [b]) = Inr (i # bs @ [b + 1])"
  by (simp add: Let_def list_update_append nth_append)

lemma byte_carry: "n < 256 \<Longrightarrow> (word_of_nat n :: byte) + 1 = 0 \<longleftrightarrow> n = 255"
proof -
  assume "n < 256"
  have "(word_of_nat n :: byte) + 1 = word_of_nat (Suc n)" by simp
  then have "(word_of_nat n :: byte) + 1 = 0 \<longleftrightarrow> Suc n mod 256 = 0"
    by (simp only: word_unat_eq_iff unat_of_nat) (simp add: take_bit_eq_mod)
  with \<open>n < 256\<close> show ?thesis by presburger
qed

lemma nonce_bytes_small: "n < 256 \<Longrightarrow> nonce_bytes n = [word_of_nat n]"
  by (subst nonce_bytes.simps) simp

lemma nonce_bytes_large: "256 \<le> n \<Longrightarrow>
    nonce_bytes n = nonce_bytes (n div 256) @ [word_of_nat (n mod 256)]"
  by (subst nonce_bytes.simps) simp

lemma next_nonce_digits:
  "next_nonce_loop (length (nonce_bytes n)) (i # nonce_bytes n) = Inr (i # nonce_bytes (Suc n))"
proof (induction n rule: nonce_bytes.induct)
  case (1 n)
  consider "n < 255" | "n = 255" | "256 \<le> n" "n mod 256 \<noteq> 255" | "256 \<le> n" "n mod 256 = 255"
    by linarith
  then show ?case
  proof cases
    case 1
    then show ?thesis
      using next_nonce_no_carry [of "word_of_nat n" "[]" i] byte_carry [of n]
      by (simp add: nonce_bytes_small add.commute)
  next
    case 2
    have "nonce_bytes 256 = [1, 0]" by code_simp
    moreover have "next_nonce_loop 1 (i # [255]) = Inr (i # [1, 0])" by simp
    ultimately show ?thesis using 2 by (simp add: nonce_bytes_small)
  next
    case 3
    then have S: "Suc n div 256 = n div 256" "Suc n mod 256 = Suc (n mod 256)"
      by (simp_all add: div_Suc mod_Suc)
    have "nonce_bytes (Suc n) = nonce_bytes (n div 256) @ [word_of_nat (n mod 256) + 1]"
      using 3 by (subst nonce_bytes_large) (simp_all add: S add.commute)
    then show ?thesis
      using next_nonce_no_carry [of "word_of_nat (n mod 256)" "nonce_bytes (n div 256)" i]
        byte_carry [of "n mod 256"] 3 by (simp only: nonce_bytes_large [OF 3(1)]) simp
  next
    case 4
    then have S: "Suc n div 256 = Suc (n div 256)" "Suc n mod 256 = 0"
      by (simp_all add: div_Suc mod_Suc)
    have "nonce_bytes (Suc n) = nonce_bytes (Suc (n div 256)) @ [0]"
      using 4 by (subst nonce_bytes_large) (simp_all add: S)
    then show ?thesis
      using next_nonce_carry [of "nonce_bytes (n div 256)" "word_of_nat (n mod 256)" i]
        byte_carry [of "n mod 256"] 4 1 by (simp only: nonce_bytes_large [OF 4(1)]) simp
  qed
qed

lemma NextNonce_digits:
  "NextNonce \<lparr>Nonce = i # nonce_bytes n, lastNonceByte = l\<rparr>
   = Inr \<lparr>Nonce = i # nonce_bytes (Suc n), lastNonceByte = l\<rparr>"
  by (simp add: NextNonce_def next_nonce_digits)

section \<open>What a miner finds\<close>

definition hash_ok :: "(byte list \<Rightarrow> byte list) \<Rightarrow> bool" where
  "hash_ok lx \<longleftrightarrow> (\<forall>bs. 8 \<le> length (lx bs))"

text \<open>The \<open>n\<close>th nonce of a miner with its difficulty, and those of the first \<open>n\<close> above a limit.\<close>

definition mined :: "(byte list \<Rightarrow> byte list) \<Rightarrow> byte list \<Rightarrow> int \<Rightarrow> nat \<Rightarrow> UniqueOPRData" where
  "mined lx hash i n =
     (let nonce = word_of_int i # nonce_bytes n in
      \<lparr>UNonce = nonce,
       UDifficulty = (case ComputeDifficulty lx hash nonce of Inr d \<Rightarrow> d | Inl _ \<Rightarrow> 0)\<rparr>)"

definition found :: "(byte list \<Rightarrow> byte list) \<Rightarrow> byte list \<Rightarrow> u64 \<Rightarrow> int \<Rightarrow> nat
    \<Rightarrow> UniqueOPRData multiset" where
  "found lx hash low i n =
     filter_mset (\<lambda>u. low < UDifficulty u) (mset (map (mined lx hash i) [1..<Suc n]))"

text \<open>The invariant of mining, \<open>n\<close> hashes after the records were reset.\<close>

definition miner_inv :: "(byte list \<Rightarrow> byte list) \<Rightarrow> nat \<Rightarrow> PegnetMiner \<Rightarrow> bool" where
  "miner_inv lx n p \<longleftrightarrow>
     (let m = MiningState p; F = found lx (oprhash m) (minimumDifficulty m) (ID p) n in
      Nonce (Incrementer m) = word_of_int (ID p) # nonce_bytes n
      \<and> ranking_ok (rankings m) \<and> MinimumDifficulty (rankings m) = 0
      \<and> Keep (rankings m) = keep m \<and> best_of (nat (keep m)) F (kept (rankings m))
      \<and> (\<exists>s. stats m = Some s \<and> StatsID s = ID p \<and> TotalHashes s = wrap64 (int n)
            \<and> (\<forall>u \<in># F. UDifficulty u \<le> BestDifficulty s)))"

lemma ComputeDifficulty_mined:
  assumes "hash_ok lx"
  shows "ComputeDifficulty lx hash (word_of_int i # nonce_bytes n) = Inr (UDifficulty (mined lx hash i n))"
  using assms by (auto simp: ComputeDifficulty_def mined_def hash_ok_def Let_def not_less)

lemma UNonce_mined: "UNonce (mined lx hash i n) = word_of_int i # nonce_bytes n"
  by (simp add: mined_def Let_def)

lemma wrap64_Suc: "wrap64 (wrap64 n + 1) = wrap64 (n + 1)"
  by (simp add: wrap64_def)

lemma found_Suc: "found lx hash low i (Suc n) =
    (if low < UDifficulty (mined lx hash i (Suc n))
     then add_mset (mined lx hash i (Suc n)) (found lx hash low i n) else found lx hash low i n)"
  by (simp add: found_def)

definition same_session :: "PegnetMiner \<Rightarrow> PegnetMiner \<Rightarrow> bool" where
  "same_session p q \<longleftrightarrow> ID q = ID p \<and> paused q = paused p \<and> outbox q = outbox p
     \<and> statsbox q = statsbox p
     \<and> (let m = MiningState p; m' = MiningState q in
        oprhash m' = oprhash m \<and> minimumDifficulty m' = minimumDifficulty m
        \<and> keep m' = keep m \<and> writeChannel m' = writeChannel m \<and> statsChannel m' = statsChannel m)"

lemma same_session_refl: "same_session p p"
  by (simp add: same_session_def)

lemma same_session_trans: "same_session p q \<Longrightarrow> same_session q r \<Longrightarrow> same_session p r"
  by (simp add: same_session_def Let_def)

lemma AddNonce_add_nonce:
  "add_nonce r u = Inr r' \<longleftrightarrow> (\<exists>b. AddNonce r (UNonce u) (UDifficulty u) = Inr (r', b))"
  by (auto simp: add_nonce_def add_slot_def res_simps split: prod.splits)

lemma AddNonce_rejected:
  assumes "AddNonce r nonce d = Inr (r', False)" "ranking_ok r" "MinimumDifficulty r = 0"
  shows "r' = r \<and> (\<exists>u \<in># kept r. d \<le> UDifficulty u)"
proof -
  have "\<not> taken r < Keep r" "d < WorstDiff r" "r' = r"
    using assms by (auto simp: AddNonce_def Let_def res_simps split: if_splits)
  moreover have "kept r \<noteq> {#}"
    using assms(2) calculation(1) size_kept [OF assms(2)] by (auto simp: ranking_ok_def)
  ultimately show ?thesis
    using assms(2) by (force simp: ranking_ok_def intro: order_trans less_imp_le)
qed

lemma hash_once_ok:
  assumes "miner_inv lx n p" "hash_ok lx"
  shows "\<exists>q. hash_once lx p = Inr q \<and> miner_inv lx (Suc n) q \<and> same_session p q"
proof -
  let ?m = "MiningState p" and ?nonce = "word_of_int (ID p) # nonce_bytes (Suc n)"
  let ?F = "found lx (oprhash ?m) (minimumDifficulty ?m) (ID p)"
  let ?u = "mined lx (oprhash ?m) (ID p) (Suc n)"
  obtain s where inv: "Nonce (Incrementer ?m) = word_of_int (ID p) # nonce_bytes n"
    "ranking_ok (rankings ?m)" "MinimumDifficulty (rankings ?m) = 0"
    "Keep (rankings ?m) = keep ?m" "best_of (nat (keep ?m)) (?F n) (kept (rankings ?m))"
    and s: "stats ?m = Some s" "StatsID s = ID p" "TotalHashes s = wrap64 (int n)"
    "\<forall>u \<in># ?F n. UDifficulty u \<le> BestDifficulty s"
    using assms(1) by (auto simp: miner_inv_def Let_def)
  let ?inc = "(Incrementer ?m)\<lparr>Nonce := ?nonce\<rparr>"
  have inc: "NextNonce (Incrementer ?m) = Inr ?inc"
    using inv(1) NextNonce_digits [of "word_of_int (ID p)" n "lastNonceByte (Incrementer ?m)"]
    by (cases "Incrementer ?m") simp
  let ?s = "s\<lparr>TotalHashes := wrap64 (TotalHashes s + 1)\<rparr>"
  have wrap: "wrap64 (TotalHashes s + 1) = wrap64 (int (Suc n))"
    using wrap64_Suc [of "int n"] by (simp add: s(3) add.commute)
  note diff = ComputeDifficulty_mined [OF assms(2), of "oprhash ?m" "ID p" "Suc n"]
  show ?thesis
  proof (cases "minimumDifficulty ?m < UDifficulty ?u")
    case False
    let ?q = "p\<lparr>MiningState := ?m\<lparr>Incrementer := ?inc, stats := Some ?s\<rparr>\<rparr>"
    have "hash_once lx p = Inr ?q"
      using False by (simp add: hash_once_def inc s(1) diff Let_def)
    moreover have "miner_inv lx (Suc n) ?q"
      using False inv s wrap by (simp add: miner_inv_def Let_def found_Suc)
    ultimately show ?thesis by (auto simp: same_session_def)
  next
    case True
    have fits: "fits (rankings ?m) ?u" by (simp add: fits_def inv(3))
    obtain r where r: "add_nonce (rankings ?m) ?u = Inr r" "ranking_ok r"
      "Keep r = keep ?m" "MinimumDifficulty r = 0" "best_of (nat (keep ?m)) (add_mset ?u (?F n)) (kept r)"
      using add_nonce_step [OF inv(2), of "?F n" ?u] inv(3-5) fits by auto
    obtain b where b: "AddNonce (rankings ?m) ?nonce (UDifficulty ?u) = Inr (r, b)"
      using r(1) by (auto simp: AddNonce_add_nonce UNonce_mined)
    let ?s' = "if b then NewDifficulty ?s (UDifficulty ?u) else ?s"
    let ?q = "p\<lparr>MiningState := ?m\<lparr>Incrementer := ?inc, rankings := r, stats := Some ?s'\<rparr>\<rparr>"
    have "hash_once lx p = Inr ?q"
      using True b by (simp add: hash_once_def inc s(1) diff Let_def)
    moreover have "\<forall>u \<in># add_mset ?u (?F n). UDifficulty u \<le> BestDifficulty ?s'"
    proof (cases b)
      case False
      then obtain u where "u \<in># kept (rankings ?m)" "UDifficulty ?u \<le> UDifficulty u"
        using AddNonce_rejected [OF _ inv(2,3), of ?nonce "UDifficulty ?u" r] b by auto
      moreover have "kept (rankings ?m) \<subseteq># ?F n" using inv(5) by (simp add: best_of_def)
      ultimately show ?thesis
        using s(4) False by (auto dest: mset_subset_eqD intro: order_trans)
    next
      case True
      then show ?thesis using s(4) by (auto simp: NewDifficulty_def not_less intro: order_trans)
    qed
    moreover have "StatsID ?s' = ID p" "TotalHashes ?s' = wrap64 (int (Suc n))"
      using s(2) wrap by (auto simp: NewDifficulty_def)
    ultimately have "hash_once lx p = Inr ?q" "miner_inv lx (Suc n) ?q"
      using True r inv(1) by (simp_all add: miner_inv_def Let_def found_Suc)
    then show ?thesis by (auto simp: same_session_def)
  qed
qed

section \<open>A block\<close>

lemma start_batch_ok:
  assumes "0 < keep (MiningState p)"
  shows "\<exists>q. HandleCommand (start_batch w c hash low) p = Inr q \<and> miner_inv lx 0 q
     \<and> ID q = ID p \<and> \<not> paused q \<and> outbox q = outbox p \<and> statsbox q = statsbox p
     \<and> oprhash (MiningState q) = hash \<and> minimumDifficulty (MiningState q) = low
     \<and> keep (MiningState q) = keep (MiningState p)
     \<and> writeChannel (MiningState q) = Some w \<and> statsChannel (MiningState q) = Some c"
proof -
  obtain r where r: "NewNonceRanking (keep (MiningState p)) = Inr r" "ranking_ok r"
    "Keep r = keep (MiningState p)" "MinimumDifficulty r = 0" "kept r = {#}"
    using NewNonceRanking_ok [OF assms] by metis
  have "wrap64 0 = 0" by (simp add: wrap64_id)
  then show ?thesis
    using r by (simp add: start_batch_def ResetRecords_step_def ResetNonce_def Let_def miner_inv_def
        NewNonceIncrementer_def nonce_bytes_small found_def best_of_def NewSingleMinerStats_def)
qed

lemma end_batch_ok:
  assumes "stats (MiningState p) = Some s" "writeChannel (MiningState p) = Some w"
  shows "\<exists>q. HandleCommand end_batch p = Inr q \<and> ID q = ID p \<and> paused q
     \<and> outbox q = outbox p @ [(w, rankings (MiningState p))]
     \<and> keep (MiningState q) = keep (MiningState p)"
  using assms by (simp add: end_batch_def SubmitNonces_step_def Let_def)

lemma hashing_ok:
  assumes "hash_ok lx" "miner_inv lx k p" "\<not> paused p"
  shows "\<exists>q. res_fold (\<lambda>s ev. mine_step lx ev s) (Mining, p) (replicate n Nothing) = Inr (Mining, q)
     \<and> miner_inv lx (k + n) q \<and> same_session p q"
  using assms(2,3)
proof (induction n arbitrary: k p)
  case 0
  then show ?case by (simp add: same_session_refl)
next
  case (Suc n)
  obtain q where q: "hash_once lx p = Inr q" "miner_inv lx (Suc k) q" "same_session p q"
    using hash_once_ok [OF Suc.prems(1) assms(1)] by blast
  then have "\<not> paused q" using Suc.prems(2) by (simp add: same_session_def)
  from Suc.IH [OF q(2) this] q Suc.prems(2) show ?case
    by (auto simp: mine_iteration_def intro: same_session_trans)
qed

text \<open>The events of one block, with \<open>hashes\<close> hashes, and of a sequence of blocks.\<close>

record mining_block =
  block_writer :: nat
  block_stats :: nat
  block_hash :: "byte list"
  block_low :: u64
  block_hashes :: nat

definition block_events :: "mining_block \<Rightarrow> miner_event list" where
  "block_events b =
     Command (start_batch (block_writer b) (block_stats b) (block_hash b) (block_low b))
     # replicate (block_hashes b) Nothing @ [Command end_batch]"

definition block_found :: "(byte list \<Rightarrow> byte list) \<Rightarrow> int \<Rightarrow> mining_block \<Rightarrow> UniqueOPRData multiset" where
  "block_found lx i b = found lx (block_hash b) (block_low b) i (block_hashes b)"

definition submits :: "(byte list \<Rightarrow> byte list) \<Rightarrow> int \<Rightarrow> int \<Rightarrow> mining_block \<Rightarrow> nat \<times> NonceRanking
    \<Rightarrow> bool" where
  "submits lx k i b sent \<longleftrightarrow> fst sent = block_writer b \<and> ranking_ok (snd sent)
     \<and> best_of (nat k) (block_found lx i b) (kept (snd sent))"

lemma rbind_assoc: "rbind (rbind m f) g = rbind m (\<lambda>x. rbind (f x) g)"
  by (cases m) simp_all

lemma res_fold_append:
  "res_fold f s (xs @ ys) = rbind (res_fold f s xs) (\<lambda>s'. res_fold f s' ys)"
  by (induction xs arbitrary: s) (simp_all add: rbind_assoc)

lemma block_ok:
  assumes "hash_ok lx" "0 < keep (MiningState p)" "phase \<in> {Starting, Waiting}"
  shows "\<exists>q sent. res_fold (\<lambda>s ev. mine_step lx ev s) (phase, p) (block_events b) = Inr (Waiting, q)
     \<and> outbox q = outbox p @ [sent] \<and> submits lx (keep (MiningState p)) (ID p) b sent
     \<and> ID q = ID p \<and> keep (MiningState q) = keep (MiningState p)"
proof -
  let ?step = "\<lambda>s ev. mine_step lx ev s"
  let ?start = "start_batch (block_writer b) (block_stats b) (block_hash b) (block_low b)"
  obtain p1 where p1: "HandleCommand ?start p = Inr p1"
    "miner_inv lx 0 p1" "ID p1 = ID p" "\<not> paused p1" "outbox p1 = outbox p"
    "oprhash (MiningState p1) = block_hash b" "minimumDifficulty (MiningState p1) = block_low b"
    "keep (MiningState p1) = keep (MiningState p)"
    "writeChannel (MiningState p1) = Some (block_writer b)"
    using start_batch_ok [OF assms(2)] by blast
  have start: "?step (phase, p) (Command ?start) = Inr (Mining, p1)"
    using assms(3) p1(1,4) by auto
  obtain p2 where p2: "res_fold ?step (Mining, p1) (replicate (block_hashes b) Nothing) = Inr (Mining, p2)"
    "miner_inv lx (block_hashes b) p2" "same_session p1 p2"
    using hashing_ok [OF assms(1) p1(2,4), of "block_hashes b"] by auto
  obtain s where "stats (MiningState p2) = Some s"
    using p2(2) by (auto simp: miner_inv_def Let_def)
  then obtain p3 where p3: "HandleCommand end_batch p2 = Inr p3" "ID p3 = ID p2" "paused p3"
    "outbox p3 = outbox p2 @ [(block_writer b, rankings (MiningState p2))]"
    "keep (MiningState p3) = keep (MiningState p2)"
    using end_batch_ok [of p2] p2(3) p1(9) by (auto simp: same_session_def Let_def)
  have "res_fold ?step (phase, p) (block_events b) = Inr (Waiting, p3)"
    using start p2(1) p3(1,3) by (simp add: block_events_def res_fold_append mine_iteration_def)
  moreover have "submits lx (keep (MiningState p)) (ID p) b (block_writer b, rankings (MiningState p2))"
    using p1 p2(2,3) by (auto simp: submits_def block_found_def miner_inv_def same_session_def Let_def)
  ultimately show ?thesis
    using p1 p2(3) p3 by (auto simp: same_session_def Let_def)
qed

lemma blocks_ok:
  assumes "hash_ok lx" "0 < keep (MiningState p)" "phase \<in> {Starting, Waiting}"
  shows "\<exists>phase' q sents. res_fold (\<lambda>s ev. mine_step lx ev s) (phase, p) (concat (map block_events bs))
       = Inr (phase', q)
     \<and> outbox q = outbox p @ sents
     \<and> list_all2 (submits lx (keep (MiningState p)) (ID p)) bs sents"
  using assms(2,3)
proof (induction bs arbitrary: phase p)
  case Nil
  then show ?case by simp
next
  case (Cons b bs)
  obtain q sent where q: "res_fold (\<lambda>s ev. mine_step lx ev s) (phase, p) (block_events b) = Inr (Waiting, q)"
    "outbox q = outbox p @ [sent]" "submits lx (keep (MiningState p)) (ID p) b sent"
    "ID q = ID p" "keep (MiningState q) = keep (MiningState p)"
    using block_ok [OF assms(1) Cons.prems] by blast
  obtain phase' r sents where
    "res_fold (\<lambda>s ev. mine_step lx ev s) (Waiting, q) (concat (map block_events bs)) = Inr (phase', r)"
    "outbox r = outbox q @ sents" "list_all2 (submits lx (keep (MiningState p)) (ID p)) bs sents"
    using Cons.IH [of q Waiting] q(4,5) Cons.prems(1) by auto
  with q show ?case
    by (intro exI [of _ phase'] exI [of _ r] exI [of _ "sent # sents"]) (simp add: res_fold_append)
qed

section \<open>Correctness of mining\<close>

text \<open>The nonce of a miner after \<open>n\<close> steps.\<close>

fun nth_nonce :: "int \<Rightarrow> nat \<Rightarrow> NonceIncrementer res" where
  "nth_nonce i 0 = Inr (NewNonceIncrementer i)"
| "nth_nonce i (Suc n) = rbind (nth_nonce i n) NextNonce"

lemma nth_nonce_digits:
  "nth_nonce i n = Inr \<lparr>Nonce = word_of_int i # nonce_bytes n, lastNonceByte = 1\<rparr>"
  by (induction n) (simp_all add: NewNonceIncrementer_def nonce_bytes_small NextNonce_digits)

text \<open>
  The incrementer never fails, and counts: after \<open>n\<close> steps the nonce is the byte of the miner
  followed by the digits of \<open>n\<close> in base 256. So no miner tries a nonce twice, and two miners never try
  the same one, unless their numbers agree modulo 256: the miners 0 and 256 do the same work.
\<close>

theorem nonces_disjoint:
  "(\<exists>x. nth_nonce i n = Inr x \<and> nonce_value (drop 1 (Nonce x)) = n)
   \<and> (nth_nonce i n = nth_nonce j m \<longleftrightarrow> n = m \<and> (word_of_int i :: byte) = word_of_int j)
   \<and> nth_nonce 0 n = nth_nonce 256 n"
  by (auto simp: nth_nonce_digits)

lemma NewPegnetMiner_ok:
  assumes "0 < k"
  obtains p where "NewPegnetMinerFromConfig k i = Inr p" "keep (MiningState p) = k" "ID p = i"
    "outbox p = []"
proof -
  obtain n where "NewNonceRanking k = Inr n" by (rule NewNonceRanking_ok [OF assms])
  then show ?thesis by (auto simp: NewPegnetMinerFromConfig_def intro: that)
qed

text \<open>
  A miner that keeps some records, started and stopped by the coordinator for a sequence of
  blocks, never fails, and submits for each block, to the writer of that block, a ranking of the
  best nonces among all it hashed for that block above the minimum: nothing of one block gets into
  another, and nothing hashed is forgotten.
\<close>

theorem Mine_blocks:
  assumes "hash_ok lx" "0 < recordsPerBlock"
  shows "\<exists>p phase q. NewPegnetMinerFromConfig recordsPerBlock i = Inr p
     \<and> Mine lx (concat (map block_events bs)) p = Inr (phase, q)
     \<and> list_all2 (submits lx recordsPerBlock i) bs (outbox q)"
proof -
  obtain p where p: "NewPegnetMinerFromConfig recordsPerBlock i = Inr p"
    "keep (MiningState p) = recordsPerBlock" "ID p = i" "outbox p = []"
    using NewPegnetMiner_ok [OF assms(2)] by metis
  then show ?thesis
    using blocks_ok [OF assms(1), of p Starting bs] assms(2) by (auto simp: Mine_def)
qed

text \<open>A hash for the witnesses: the bytes in reverse, padded.\<close>

definition sample_hash :: "byte list \<Rightarrow> byte list" where
  "sample_hash bs = rev bs @ replicate 8 0"

definition sample_block :: mining_block where
  "sample_block = \<lparr>block_writer = 1, block_stats = 2, block_hash = [7, 9], block_low = 5,
     block_hashes = 3\<rparr>"

lemma sample_hash_ok: "hash_ok sample_hash"
  by (simp add: hash_ok_def sample_hash_def)

theorem Mine_blocks_witness:
  "\<exists>p phase q. NewPegnetMinerFromConfig 2 1 = Inr p
     \<and> Mine sample_hash (concat (map block_events [sample_block, sample_block])) p = Inr (phase, q)
     \<and> list_all2 (submits sample_hash 2 1) [sample_block, sample_block] (outbox q)"
  by (rule Mine_blocks [OF sample_hash_ok]) simp

text \<open>
  The ranking a miner submits for one block, as it arrives at the writer; a cancelled miner sends
  \<open>nil\<close>.
\<close>

definition mine_block :: "(byte list \<Rightarrow> byte list) \<Rightarrow> int \<Rightarrow> int \<Rightarrow> mining_block \<Rightarrow> NonceRanking res" where
  "mine_block lx k i b =
     rbind (NewPegnetMinerFromConfig k i) (\<lambda>p.
     rbind (Mine lx (block_events b) p) (\<lambda>(_, q). Inr (snd (last (outbox q)))))"

definition arriving :: "(byte list \<Rightarrow> byte list) \<Rightarrow> int \<Rightarrow> (int \<times> mining_block) option
    \<Rightarrow> NonceRanking option" where
  "arriving lx k m =
     (case m of
        None \<Rightarrow> None
      | Some (i, b) \<Rightarrow> (case mine_block lx k i b of Inr r \<Rightarrow> Some r | Inl _ \<Rightarrow> None))"

definition hashed :: "(byte list \<Rightarrow> byte list) \<Rightarrow> (int \<times> mining_block) option
    \<Rightarrow> UniqueOPRData multiset" where
  "hashed lx m = (case m of None \<Rightarrow> {#} | Some (i, b) \<Rightarrow> block_found lx i b)"

lemma mine_block_best:
  assumes "hash_ok lx" "0 < k"
  shows "\<exists>r. mine_block lx k i b = Inr r \<and> ranking_ok r \<and> best_of (nat k) (block_found lx i b) (kept r)"
proof -
  obtain p where p: "NewPegnetMinerFromConfig k i = Inr p"
    "keep (MiningState p) = k" "ID p = i" "outbox p = []"
    using NewPegnetMiner_ok [OF assms(2)] by metis
  then show ?thesis
    using block_ok [OF assms(1), of p Starting b] assms(2)
    by (auto simp: mine_block_def Mine_def submits_def)
qed

text \<open>
  The whole of mining a block: when every miner has submitted, in whatever order their rankings
  arrive, and some miners may have been cancelled, the writer writes, the most difficult first, the
  best nonces of all that were hashed by the others.
\<close>

theorem Mining_best:
  assumes "nonce_sort srt" "hash_ok lx" "0 < k" "miners \<noteq> []"
  shows "\<exists>vs. collectAndWrite srt k (length miners) (map (arriving lx k) miners)
       = Some (Inr (map Some vs))
     \<and> best_of (nat k) (sum_list (map (hashed lx) miners)) (mset vs)
     \<and> sorted_wrt (\<lambda>a b. UDifficulty b \<le> UDifficulty a) vs"
proof -
  have each: "case arriving lx k m of None \<Rightarrow> hashed lx m = {#}
      | Some r \<Rightarrow> ranking_ok r \<and> best_of (nat k) (hashed lx m) (kept r)" for m
  proof (cases m)
    case (Some ib)
    then show ?thesis
      using mine_block_best [OF assms(2,3), of "fst ib" "snd ib"]
      by (auto simp: arriving_def hashed_def split: prod.splits)
  qed (simp add: arriving_def hashed_def)
  have "list_all2 (\<lambda>r M. case r of None \<Rightarrow> M = {#}
      | Some r \<Rightarrow> ranking_ok r \<and> best_of (nat k) M (kept r))
    (map (arriving lx k) miners) (map (hashed lx) miners)"
    unfolding list_all2_map1 list_all2_map2 by (rule list_all2_same [THEN iffD2]) (blast intro: each)
  from nonce_sort.Merge_each [OF assms(1) this assms(3)] show ?thesis
    using assms(4) by (auto simp: collectAndWrite_def)
qed

definition sample_miners :: "(int \<times> mining_block) option list" where
  "sample_miners = [Some (0, sample_block), None, Some (1, sample_block)]"

theorem Mining_best_witness:
  "\<exists>vs. collectAndWrite sort_stable 2 (length sample_miners)
       (map (arriving sample_hash 2) sample_miners) = Some (Inr (map Some vs))
     \<and> best_of (nat 2) (sum_list (map (hashed sample_hash) sample_miners)) (mset vs)
     \<and> sorted_wrt (\<lambda>a b. UDifficulty b \<le> UDifficulty a) vs"
  by (rule Mining_best [OF stable_nonces.nonce_sort_axioms sample_hash_ok])
    (simp_all add: sample_miners_def)

end
