(* ===== verification/OprEntry.thy ===== *)
theory OprEntry
  imports Grader_Correct OprRecord Mining
begin

text \<open>
  What the miner writes and what the graders read: an entry that package opr creates from a valid
  record is accepted by the graders of modules/grader, with the difficulty the miner computed.
\<close>

section \<open>Numbers as bytes\<close>

lemma high_low_byte: "push_bit 8 (drop_bit 8 x) + ucast (ucast (x :: u64) :: byte) = x"
proof -
  have "(ucast (ucast x :: byte) :: u64) = take_bit 8 x"
    by (rule bit_word_eqI) (auto simp: bit_simps)
  then show ?thesis by (simp add: bits_ident)
qed

lemma drop_bit_64: "drop_bit 64 (d :: u64) = 0"
  by (rule bit_word_eqI) (simp add: bit_drop_bit_eq bit_word_iff_drop_bit_and not_le)

lemma PutUint64_prefix:
  "n \<le> 8 \<Longrightarrow> foldl (\<lambda>acc b. acc * 256 + ucast b) 0 (map (\<lambda>i. ucast (drop_bit (56 - 8 * i) d) :: byte) [0..<n])
     = drop_bit (64 - 8 * n) (d :: u64)"
proof (induction n)
  case 0
  show ?case by (simp add: drop_bit_64)
next
  case (Suc n)
  let ?x = "drop_bit (56 - 8 * n) d"
  have "64 - 8 * n = 8 + (56 - 8 * n)" using Suc.prems by simp
  then have IH: "foldl (\<lambda>acc b. acc * 256 + ucast b) 0
      (map (\<lambda>i. ucast (drop_bit (56 - 8 * i) d) :: byte) [0..<n]) = drop_bit 8 ?x"
    using Suc by (simp only: Suc_leD drop_bit_drop_bit)
  have "drop_bit 8 ?x * 256 + ucast (ucast ?x :: byte) = ?x"
    using high_low_byte [of ?x] by (simp only: push_bit_eq_mult) simp
  moreover have "64 - 8 * Suc n = 56 - 8 * n" by simp
  ultimately show ?case
    by (simp only: upt_Suc_append le0 map_append foldl_append IH list.map foldl.simps)
qed

lemma big_endian_PutUint64 [simp]: "big_endian (PutUint64 d) = d"
  using PutUint64_prefix [of 8 d] by (simp add: big_endian_def PutUint64_def)

lemma length_PutUint64 [simp]: "length (PutUint64 d) = 8"
  by (simp add: PutUint64_def)

lemma ComputeDifficulty_lx:
  "Mining.ComputeDifficulty lx h nonce = be_u64 (lx (h @ nonce))"
proof (cases "length (lx (h @ nonce)) < 8")
  case False
  let ?h = "lx (h @ nonce)"
  have "take 8 ?h = map ((!) ?h) [0..<8]"
    using False by (intro nth_equalityI) simp_all
  then show ?thesis
    using False by (simp add: Mining.ComputeDifficulty_def be_u64_def foldl_map push_bit_eq_mult)
qed (simp add: Mining.ComputeDifficulty_def be_u64_def)

section \<open>The assets of both packages\<close>

lemma identity_chars: "ValidIdentity = valid_identity"
  by (auto simp: fun_eq_iff ValidIdentity_def valid_identity_def list_all_iff identity_char_def id_char_def)

lemma proto_assets_values:
  "proto_assets 2 = V2Assets" "proto_assets 3 = V2Assets" "proto_assets 4 = V4Assets"
  "proto_assets 5 = V5Assets"
  by code_simp+

lemma ValidateOPR_True:
  assumes "ValidateOPR isValidAddress net dbht r = Inr True" "Version r \<noteq> 1"
  shows "proto_version (Version r) \<and> ContainsExactly (OraclePriceRecord.Assets r) (proto_assets (Version r))
     \<and> sint (OraclePriceRecord.Dbht r) = dbht
     \<and> (\<forall>kv \<in> set (entries (OraclePriceRecord.Assets r)). \<not> zero_price (Version r) kv)"
  using assms
  by (auto simp: ValidateOPR_def res_simps proto_version_def proto_assets_def list_ex_iff split: if_splits)

lemma identity_ok:
  "ValidateOPR isValidAddress net dbht r = Inr True \<Longrightarrow> Version r \<noteq> 1 \<Longrightarrow>
     valid_identity (OraclePriceRecord.FactomDigitalID r)
     \<and> ValidFCTAddress isValidAddress (OraclePriceRecord.CoinbaseAddress r)"
  using ValidateOPR_True [of isValidAddress net dbht r]
  by (auto simp: ValidateOPR_def proto_version_def identity_chars split: if_splits)

text \<open>The prices of a valid record are those its grader demands; PEG may be zero in version 2.\<close>

lemma prices_nonzero:
  assumes "ContainsExactly as codes" "\<forall>kv \<in> set (entries as). \<not> zero_price v kv"
    and "distinct codes" "code \<in> set codes" "2 < v \<or> code \<noteq> ''PEG''"
  shows "Uint64Value as code \<noteq> 0"
proof -
  obtain x where x: "map_of (entries as) code = Some x"
    using assms(1,4) by (auto simp: ContainsExactly_def Contains_iff split: if_splits)
  then have "(code, x) \<in> set (entries as)" by (rule map_of_SomeD)
  then have "x \<noteq> 0" using assms(2,5) by (fastforce simp: zero_price_def)
  with x show ?thesis by (simp add: Uint64Value_def)
qed

definition message_of :: "OraclePriceRecord \<Rightarrow> byte list list \<Rightarrow> ProtoOPR" where
  "message_of r ws = \<lparr>PAddress = OraclePriceRecord.CoinbaseAddress r,
     PID = OraclePriceRecord.FactomDigitalID r, PHeight = OraclePriceRecord.Dbht r, PWinners = ws,
     PAssets = map (Uint64Value (OraclePriceRecord.Assets r)) (proto_assets (Version r))\<rparr>"

lemma SafeMarshal_valid:
  assumes "proto_version (Version r)" "ContainsExactly (OraclePriceRecord.Assets r) (proto_assets (Version r))"
    and "OraclePriceRecord.WinPreviousOPR r = map hexEncode ws"
    and "CreateOPREntry dec json_float json_record pmarshal r nonce d = Inr e"
  shows "pmarshal (message_of r ws) = Inr (Content e)
     \<and> ExtIDs e = [nonce, PutUint64 d, [OraclePriceRecord.Version r]]"
proof -
  have "res_map hexDecode (map hexEncode ws) = Inr ws"
    by (induction ws) simp_all
  then have "marshal_proto pmarshal r = pmarshal (message_of r ws)"
    using assms(3) by (simp add: marshal_proto_def assign_prices_exact [OF assms(2)] message_of_def)
  moreover have "OraclePriceRecord.Version r \<noteq> 0" "OraclePriceRecord.Version r \<noteq> 1"
    using assms(1) by (auto simp: proto_version_def)
  ultimately show ?thesis
    using assms(1,4) by (auto simp: CreateOPREntry_def SafeMarshal_def res_simps split: if_splits)
qed

lemma Unmarshal_Nil: "Unmarshal m [] = Inr m"
  by (simp add: Unmarshal_def unmarshal_loop.simps)

lemma AddOPR_accepts:
  assumes "NewGrader v h winners = Inr g" "proto_version v"
    and "verifyWinnerFormat winners 25" "length eh = 32" "length d = 8"
    and "ParseV2Content content = Inr m" "Height m = h" "V2Content.Assets m = map f (proto_assets v)"
    and "\<And>code. code \<in> set (proto_assets v) \<Longrightarrow> 2 < v \<or> code \<noteq> ''PEG'' \<Longrightarrow> f code \<noteq> 0"
    and "Valid (Address m) = Inr ()" "valid_identity (V2Content.ID m)" "map hexEncode (Winners m) = winners"
  shows "\<exists>p. AddOPR json g eh [nonce, d, [v]] content
     = Inr (add_record g (accepted eh [nonce, d, [v]] content p))"
proof -
  have ext: "entry_ok v eh [nonce, d, [v]]"
    using assms(4,5) by (simp add: entry_ok_def)
  have win: "winners \<noteq> []" using assms(3) by (auto simp: verifyWinnerFormat_def)
  have ok: "proto_content_ok (length (proto_assets v)) {25} h winners m"
    "proto_content_ok (length (proto_assets v)) {10, 25} h winners m"
    using assms by (auto simp: proto_content_ok_def)
  have zero: "2 < v \<Longrightarrow> 0 \<notin> set (V2Content.Assets m)"
    using assms(8,9) by auto
  have zero2: "0 \<notin> set (tl (V2Content.Assets m))" if "v = 2"
  proof -
    obtain cs where cs: "V2Assets = ''PEG'' # cs" "''PEG'' \<notin> set cs"
      by (simp add: V2Assets_def)
    then have "set cs \<subseteq> set (proto_assets v)"
      using that proto_assets_values(1) by (metis set_subset_Cons)
    then have "f code \<noteq> 0" if "code \<in> set cs" for code
      using assms(9) [of code] cs(2) that by (metis subsetD)
    moreover have "tl (V2Content.Assets m) = map f cs"
      by (simp only: assms(8) that proto_assets_values(1) cs(1) list.map list.sel)
    ultimately show ?thesis by auto
  qed
  consider "v = 2" | "v = 3" | "v = 4" | "v = 5"
    using assms(2) by (auto simp: proto_version_def)
  then show ?thesis
  proof cases
    case 1
    then have "g = V2BlockGrader (new_base h winners)"
      using assms(1) win by (auto simp: NewGrader_def res_simps)
    with 1 ok(2) zero2 ext show ?thesis
      by (auto simp: AddOPR_V2_def ValidateV2_Inr new_base_def assms(6) proto_assets_values length_Assets res_simps)
  next
    case 2
    then have "g = V3BlockGrader (new_base h winners)"
      using assms(1) win by (auto simp: NewGrader_def res_simps)
    with 2 ok(1) zero ext show ?thesis
      by (auto simp: AddOPR_V3_def ValidateV3_Inr new_base_def assms(6) proto_assets_values length_Assets res_simps)
  next
    case 3
    then have "g = V4BlockGrader (new_base h winners)"
      using assms(1) win by (auto simp: NewGrader_def res_simps)
    with 3 ok(1) zero ext show ?thesis
      by (auto simp: AddOPR_V4_def ValidateV4_Inr new_base_def assms(6) proto_assets_values length_Assets res_simps)
  next
    case 4
    then have "g = V5BlockGrader (new_base h winners)"
      using assms(1) win by (auto simp: NewGrader_def res_simps)
    with 4 ok(1) zero ext show ?thesis
      by (auto simp: AddOPR_V5_def ValidateV5_Inr new_base_def assms(6) proto_assets_values length_Assets res_simps)
  qed
qed

section \<open>Mined entries are accepted\<close>

text \<open>
  Let a record be valid for the height it is mined for (version 2 or later), let its previous
  winners be the short hashes of the block before in lower-case digits, and let the protobuf
  encoder produce what the module decodes. Then the entry made from it with a nonce and a difficulty
  is accepted by the grader of its version and height, which takes over the nonce and the
  difficulty; and the grader counts it as honest exactly when the difficulty is the one the miner
  computes for the hash of the record's content.
\<close>

theorem mined_entry_accepted:
  assumes "ValidateOPR isValidAddress net dbht r = Inr True" "OraclePriceRecord.Version r \<noteq> 1"
    and "OraclePriceRecord.WinPreviousOPR r = map hexEncode ws"
    and "verifyWinnerFormat (map hexEncode ws) 25"
    and "\<And>a. isValidAddress a \<Longrightarrow> take 2 a = ''FA'' \<Longrightarrow> Valid a = Inr ()"
    and "\<And>m bs. pmarshal m = Inr bs \<Longrightarrow> Unmarshal zero_V2Content bs = Inr (V2_of_proto m)"
    and "CreateOPREntry dec json_float json_record pmarshal r nonce d = Inr e"
    and "NewGrader (OraclePriceRecord.Version r) (OraclePriceRecord.Dbht r) (map hexEncode ws) = Inr g"
    and "length eh = 32"
  shows "\<exists>x g'. AddOPR json g eh (ExtIDs e) (Content e) = Inr g'
     \<and> oprs (base_of g') = oprs (base_of g) @ [x]
     \<and> GradingOPR.Nonce x = nonce \<and> GradingOPR.SelfReportedDifficulty x = d
     \<and> (honest lx x \<longleftrightarrow> Mining.ComputeDifficulty lx (sha256 (Content e)) nonce = Inr d)"
proof -
  let ?v = "OraclePriceRecord.Version r" and ?m = "V2_of_proto (message_of r ws)"
  let ?ext = "[nonce, PutUint64 d, [?v]]"
  note valid = ValidateOPR_True [OF assms(1,2)] identity_ok [OF assms(1,2)]
  have e: "pmarshal (message_of r ws) = Inr (Content e)" "ExtIDs e = ?ext"
    using SafeMarshal_valid [OF _ _ assms(3,7)] valid by simp_all
  have "Content e \<noteq> []"
  proof
    assume "Content e = []"
    then have "?m = zero_V2Content"
      using assms(6) [OF e(1)] by (simp add: Unmarshal_Nil)
    then have "proto_assets ?v = []"
      by (simp add: V2_of_proto_def message_of_def zero_V2Content_def)
    then show False
      using valid by (auto simp: proto_version_def proto_assets_values V2Assets_def V4Assets_def V5Assets_def)
  qed
  then have parse: "ParseV2Content (Content e) = Inr ?m"
    using assms(6) [OF e(1)] by (simp add: ParseV2Content_def)
  have "Uint64Value (OraclePriceRecord.Assets r) code \<noteq> 0"
    if "code \<in> set (proto_assets ?v)" "2 < ?v \<or> code \<noteq> ''PEG''" for code
    using valid distinct_proto_assets that by (intro prices_nonzero [of _ "proto_assets ?v" ?v]) auto
  moreover have "Valid (Address ?m) = Inr ()"
    using valid assms(5) by (auto simp: ValidFCTAddress_def V2_of_proto_def message_of_def)
  ultimately have "\<exists>p. AddOPR json g eh ?ext (Content e) = Inr (add_record g (accepted eh ?ext (Content e) p))"
    using assms(4,9) valid parse
    by (intro AddOPR_accepts [OF assms(8), where m = ?m])
      (auto simp: V2_of_proto_def message_of_def)
  then obtain p where
    "AddOPR json g eh (ExtIDs e) (Content e) = Inr (add_record g (accepted eh ?ext (Content e) p))"
    using e(2) by auto
  then show ?thesis
    by (auto simp: accepted_def honest_def lx_difficulty_def ComputeDifficulty_lx)
qed

definition sample_record :: OraclePriceRecord where
  "sample_record = NewOraclePriceRecord\<lparr>OraclePriceRecord.Version := 5,
     OraclePriceRecord.CoinbaseAddress := Random (replicate 32 7), OraclePriceRecord.Dbht := 258800,
     OraclePriceRecord.FactomDigitalID := ''miner'',
     OraclePriceRecord.WinPreviousOPR := replicate 25 [],
     OraclePriceRecord.Assets := Some (map (\<lambda>a. (a, 7)) AssetsV5)\<rparr>"

definition sample_content :: "byte list" where
  "sample_content = MarshalTo (V2_of_proto (message_of sample_record (replicate 25 [])))"

definition sample_entry :: FactomEntry where
  "sample_entry = \<lparr>ChainID = [], ExtIDs = [[1], PutUint64 5, [5]], Content = sample_content\<rparr>"

lemma sample_record_sel [simp]:
  "OraclePriceRecord.Version sample_record = 5"
  "OraclePriceRecord.CoinbaseAddress sample_record = Random (replicate 32 7)"
  "OraclePriceRecord.Dbht sample_record = 258800"
  "OraclePriceRecord.FactomDigitalID sample_record = ''miner''"
  "OraclePriceRecord.WinPreviousOPR sample_record = replicate 25 []"
  "OraclePriceRecord.Assets sample_record = Some (map (\<lambda>a. (a, 7)) AssetsV5)"
  "OPRChainID sample_record = []"
  by (simp_all add: sample_record_def NewOraclePriceRecord_def)

lemma sample_address_ok: "Encode (replicate 32 7) = Inr (Random (replicate 32 7))"
proof -
  obtain a where "Encode (replicate 32 7) = Inr a" using Encode_Inr_iff [of "replicate 32 7"] by auto
  then show ?thesis by (simp add: Random_def)
qed

lemma sample_record_valid:
  "ValidateOPR (\<lambda>a. Valid a = Inr ()) MainNetwork 258800 sample_record = Inr True"
proof -
  have "Valid (Random (replicate 32 7)) = Inr ()"
    using Valid_Encode [OF sample_address_ok] .
  moreover have "length (Random (replicate 32 7)) = 52" "take 2 (Random (replicate 32 7)) = ''FA''"
    using Encode_shape [OF sample_address_ok] by auto
  moreover have "NetworkActive MainNetwork 258800" "OPRVersion MainNetwork 258800 = Inr 5"
    "ValidIdentity ''miner''"
    "\<not> list_ex (zero_price 5) (entries (Some (map (\<lambda>a. (a, 7)) AssetsV5)))"
    "ContainsExactly (Some (map (\<lambda>a. (a, 7)) AssetsV5)) AssetsV5"
    by code_simp+
  ultimately show ?thesis by (simp add: ValidateOPR_def ValidFCTAddress_def)
qed

lemma sample_message_size: "length sample_content < 2 ^ 63"
proof -
  have "map (Uint64Value (Some (map (\<lambda>a. (a, 7)) AssetsV5))) AssetsV5 = replicate 62 7"
    by code_simp
  moreover have "length (Random (replicate 32 7)) = 52"
    using Encode_shape [OF sample_address_ok] by auto
  ultimately show ?thesis
    unfolding sample_content_def length_MarshalTo
    by (simp add: V2_of_proto_def message_of_def proto_assets_def Size_def sov_len_def sov.simps
        sum_list_replicate)
qed

lemma sample_entry_created:
  "CreateOPREntry (\<lambda>_. []) (\<lambda>_. Inr []) (\<lambda>_ _. Inr []) module_pmarshal sample_record [1] 5
     = Inr sample_entry"
proof -
  have "module_pmarshal (message_of sample_record (replicate 25 [])) = Inr sample_content"
    using sample_message_size by (simp add: module_pmarshal_Inr sample_content_def)
  moreover have "assign_prices (Some (map (\<lambda>a. (a, 7)) AssetsV5)) (proto_assets 5)
      = Inr (map (Uint64Value (Some (map (\<lambda>a. (a, 7)) AssetsV5))) (proto_assets 5))"
    by (rule assign_prices_exact) code_simp
  moreover have "res_map hexDecode (replicate 25 []) = Inr (replicate 25 [])" by code_simp
  moreover have "map_of (entries (Some (map (\<lambda>a. (a, 7)) AssetsV5))) ''PNT'' = None" by code_simp
  ultimately show ?thesis
    by (simp add: CreateOPREntry_def SafeMarshal_def proto_version_def marshal_proto_def message_of_def
        sample_entry_def)
qed

theorem mined_entry_accepted_witness:
  "\<exists>x g'. AddOPR (\<lambda>_. Inl (GoError [])) (V5BlockGrader (new_base 258800 (replicate 25 [])))
       (replicate 32 0) (ExtIDs sample_entry) (Content sample_entry) = Inr g'
     \<and> oprs (base_of g') = oprs (base_of (V5BlockGrader (new_base 258800 (replicate 25 [])))) @ [x]
     \<and> GradingOPR.Nonce x = [1] \<and> GradingOPR.SelfReportedDifficulty x = 5
     \<and> (honest sample_hash x
        \<longleftrightarrow> Mining.ComputeDifficulty sample_hash (sha256 (Content sample_entry)) [1] = Inr 5)"
proof (rule mined_entry_accepted [OF sample_record_valid _ _ _ _ module_decode sample_entry_created,
      where ws = "replicate 25 []"])
  show win: "verifyWinnerFormat (map hexEncode (replicate 25 [])) 25" by code_simp
  show "NewGrader (OraclePriceRecord.Version sample_record) (OraclePriceRecord.Dbht sample_record)
      (map hexEncode (replicate 25 [])) = Inr (V5BlockGrader (new_base 258800 (replicate 25 [])))"
    using win by (simp add: NewGrader_def)
qed simp_all

end
