(* ===== verification/OprGrading.thy ===== *)
theory OprGrading
  imports OprRecord Grader_Algo
begin

text \<open>
  The grading of package opr: opr/grading.go, which the miner runs and which modules/grader was
  extracted from. The averages, the sums of the grades and the passes are the shared ones of
  Grader_Algo, over the token values of a record.

  \<open>TrimmedMeanFloat\<close> sorts with \<open>sort.Slice\<close>; on numbers the order of equal elements cannot be seen.
  The LX hash is the argument \<open>lx\<close>. Records are pointers in Go; no list has one twice.
\<close>

section \<open>Averages and grades\<close>

definition GradeBand :: f64 where "GradeBand = f64_const (1 / 100)"

definition token_values :: "OraclePriceRecord \<Rightarrow> f64 list res" where
  "token_values r = Inr (map TokenValue (GetTokens r))"

definition Avg :: "OraclePriceRecord list \<Rightarrow> f64 list res" where
  "Avg rs = average_mean token_values rs"

definition Avg5 :: "OraclePriceRecord list \<Rightarrow> f64 list res" where
  "Avg5 rs = average_trimmed token_values rs"

definition ApplyBand :: "f64 \<Rightarrow> f64 \<Rightarrow> f64" where
  "ApplyBand diff band = (let d = fabs diff in if fle d band then Fin 0 else fsub d band)"

definition token_distance :: "f64 \<Rightarrow> f64 \<Rightarrow> f64 \<Rightarrow> f64" where
  "token_distance band v a =
     (let d = fdiv (fsub v a) a in if flt (Fin 0) band then ApplyBand d band else d)"

definition CalculateGrade :: "f64 list \<Rightarrow> OraclePriceRecord \<Rightarrow> f64 \<Rightarrow> OraclePriceRecord res" where
  "CalculateGrade avg r band =
     rbind (token_values r) (\<lambda>vs.
     rbind (grade_sum (token_distance band) avg vs (Fin 0)) (\<lambda>g. Inr (r\<lparr>Grade := g\<rparr>)))"

section \<open>Selecting the records\<close>

fun remove_duplicates :: "byte list set \<Rightarrow> OraclePriceRecord list \<Rightarrow> OraclePriceRecord list" where
  "remove_duplicates added [] = []"
| "remove_duplicates added (v # vs) =
     (let i = Nonce v @ OPRHash v in
      if i \<in> added then remove_duplicates added vs
      else v # remove_duplicates (insert i added) vs)"

definition RemoveDuplicateSubmissions :: "OraclePriceRecord list \<Rightarrow> OraclePriceRecord list" where
  "RemoveDuplicateSubmissions rs = remove_duplicates {} rs"

definition BigEndian_Uint64 :: "byte list \<Rightarrow> u64 res" where
  "BigEndian_Uint64 bs = guard_res (length bs < 8) (Panic ''index out of range'')
     (Inr (foldl (\<lambda>acc b. acc * 256 + ucast b) 0 (take 8 bs)))"

text \<open>The reported difficulty, where it can be read; the sort reads that of every record.\<close>

definition reported :: "OraclePriceRecord \<Rightarrow> u64" where
  "reported r = (case BigEndian_Uint64 (SelfReportedDifficulty r) of Inr d \<Rightarrow> d | Inl _ \<Rightarrow> 0)"

definition sort_reported :: "OraclePriceRecord list \<Rightarrow> OraclePriceRecord list res" where
  "sort_reported rs =
     guard_res (2 \<le> length rs \<and> list_ex (\<lambda>r. length (SelfReportedDifficulty r) < 8) rs)
       (Panic ''index out of range'')
     (Inr (sort_stable (\<lambda>a b. reported b < reported a) rs))"

fun take_top50 :: "(byte list \<Rightarrow> byte list) \<Rightarrow> OraclePriceRecord list \<Rightarrow> OraclePriceRecord list
    \<Rightarrow> OraclePriceRecord list res" where
  "take_top50 lx top50 [] = Inr top50"
| "take_top50 lx top50 (r # rs) =
     rbind (OPR_ComputeDifficulty lx r (Nonce r)) (\<lambda>d.
     rbind (BigEndian_Uint64 (SelfReportedDifficulty r)) (\<lambda>f.
     if f \<noteq> d then take_top50 lx top50 rs
     else let top50' = top50 @ [r\<lparr>Difficulty := d\<rparr>] in
       if length top50' = 50 then Inr top50' else take_top50 lx top50' rs))"

text \<open>The two stable sorts of a pass.\<close>

definition resort_graded :: "OraclePriceRecord list \<Rightarrow> OraclePriceRecord list" where
  "resort_graded rs =
     sort_stable (\<lambda>a b. flt (Grade a) (Grade b)) (sort_stable (\<lambda>a b. Difficulty b < Difficulty a) rs)"

section \<open>The three algorithms\<close>

definition gradeMinimumVersionOne ::
  "(byte list \<Rightarrow> byte list) \<Rightarrow> OraclePriceRecord list \<Rightarrow> OraclePriceRecord list res" where
  "gradeMinimumVersionOne lx orderedList =
     (let rs = RemoveDuplicateSubmissions orderedList in
      if length rs < 10 then Inr []
      else rbind (sort_reported rs) (\<lambda>rs.
        rbind (take_top50 lx [] rs) (\<lambda>top50.
        grade_passes (grading_round Avg (\<lambda>i avg r. CalculateGrade avg r (Fin 0)) resort_graded)
          10 (length top50) top50)))"

definition gradeMinimumVersionTwo ::
  "(byte list \<Rightarrow> byte list) \<Rightarrow> OraclePriceRecord list \<Rightarrow> OraclePriceRecord list res" where
  "gradeMinimumVersionTwo lx orderedList =
     (let rs = RemoveDuplicateSubmissions orderedList in
      if length rs < 25 then Inr []
      else rbind (sort_reported rs) (\<lambda>rs.
        rbind (take_top50 lx [] rs) (\<lambda>top50.
        grade_passes (grading_round Avg
            (\<lambda>i avg r. CalculateGrade avg r (if 25 \<le> i then GradeBand else Fin 0)) resort_graded)
          1 (length top50) top50)))"

definition gradeMinimumVersionThree ::
  "(byte list \<Rightarrow> byte list) \<Rightarrow> OraclePriceRecord list \<Rightarrow> OraclePriceRecord list res" where
  "gradeMinimumVersionThree lx orderedList =
     (let rs = RemoveDuplicateSubmissions orderedList in
      if length rs < 25 then Inr []
      else rbind (sort_reported rs) (\<lambda>rs.
        rbind (take_top50 lx [] rs) (\<lambda>top50.
        grade_passes (grading_round Avg5
            (\<lambda>i avg r. CalculateGrade avg r (if 25 \<le> i then GradeBand else Fin 0)) resort_graded)
          1 (length top50) top50)))"

definition GradeMinimum ::
  "(byte list \<Rightarrow> byte list) \<Rightarrow> OraclePriceRecord list \<Rightarrow> string \<Rightarrow> int \<Rightarrow> OraclePriceRecord list res" where
  "GradeMinimum lx orderedList network dbht =
     (if length orderedList = 0 then Inr []
      else rbind (OPRVersion network dbht) (\<lambda>v.
        if v = 1 then gradeMinimumVersionOne lx orderedList
        else if v = 2 \<or> v = 3 \<or> v = 4 then gradeMinimumVersionTwo lx orderedList
        else if v = 5 then gradeMinimumVersionThree lx orderedList
        else Inl (Panic ''Grading version unspecified'')))"

section \<open>Winners and rewards\<close>

record OprBlock =
  BlockOPRs :: "OraclePriceRecord list"
  GradedOPRs :: "OraclePriceRecord list"
  BlockDbht :: int
  TotalNumberRecords :: int
  EmptyOPRBlock :: bool

text \<open>
  The winners a record names against the previous block's; \<open>None\<close> is the nil slice. A record that
  names more winners than there are is an index out of range, unless it is refused before.
\<close>

fun verify_winners :: "nat \<Rightarrow> string list \<Rightarrow> OraclePriceRecord list option \<Rightarrow> bool res" where
  "verify_winners i [] winners = Inr True"
| "verify_winners i (w # ws) winners =
     (if winners = None \<and> w \<noteq> [] then Inr False
      else let xs = (case winners of None \<Rightarrow> [] | Some xs \<Rightarrow> xs) in
        if length xs > 0
        then guard_res (length xs \<le> i) (Panic ''index out of range'')
          (guard_res (length (EntryHash (xs ! i)) < 8) (Panic ''slice bounds out of range'')
          (if w \<noteq> hexEncode (take 8 (EntryHash (xs ! i))) then Inr False
           else verify_winners (Suc i) ws winners))
        else verify_winners (Suc i) ws winners)"

definition VerifyWinners :: "OraclePriceRecord \<Rightarrow> OraclePriceRecord list option \<Rightarrow> bool res" where
  "VerifyWinners r winners = verify_winners 0 (WinPreviousOPR r) winners"

definition getRewardFromPlaceVersionThree :: "int \<Rightarrow> int" where
  "getRewardFromPlaceVersionThree place = (if place \<ge> 25 then 0 else 360 * 100000000)"

definition getRewardFromPlaceVersionTwo :: "int \<Rightarrow> int" where
  "getRewardFromPlaceVersionTwo place = (if place \<ge> 25 then 0 else 200 * 100000000)"

definition getRewardFromPlaceVersionOne :: "int \<Rightarrow> int" where
  "getRewardFromPlaceVersionOne place =
     (if place \<ge> 10 then 0
      else if place = 0 then 800 * 100000000
      else if place = 1 then 600 * 100000000
      else 450 * 100000000)"

definition GetRewardFromPlace :: "int \<Rightarrow> string \<Rightarrow> int \<Rightarrow> int res" where
  "GetRewardFromPlace place network height =
     rbind (OPRVersion network height) (\<lambda>v.
       if v = 1 then Inr (getRewardFromPlaceVersionOne place)
       else if v = 2 \<or> v = 3 \<or> v = 4 then Inr (getRewardFromPlaceVersionTwo place)
       else if v = 5 then Inr (getRewardFromPlaceVersionThree place)
       else Inl (Panic ''opr version not found''))"

section \<open>The winners a record names\<close>

lemma verify_winners_Some:
  assumes "xs \<noteq> []" "\<forall>x \<in> set xs. 8 \<le> length (EntryHash x)"
  shows "verify_winners i ws (Some xs) =
    (let short = map (\<lambda>x. hexEncode (take 8 (EntryHash x))) (drop i xs); n = min (length ws) (length short) in
     if take n ws \<noteq> take n short then Inr False
     else if length short < length ws then Inl (Panic ''index out of range'')
     else Inr True)"
proof (induction ws arbitrary: i)
  case (Cons w ws)
  show ?case
  proof (cases "i < length xs")
    case True
    then have "drop i xs = xs ! i # drop (Suc i) xs" by (simp add: Cons_nth_drop_Suc)
    with True Cons [of "Suc i"] assms show ?thesis by (auto simp: Let_def not_less leD)
  qed (use assms(1) in \<open>auto simp: Let_def\<close>)
qed (simp add: Let_def)

text \<open>
  With winners of the previous block, a record is accepted exactly if it names a prefix of their
  short hashes in their order, so that one that names none is always accepted, and the check panics
  if it names all of them and then more. Where there is no list of winners a record must name none,
  but where the list is there and empty anything is accepted.
\<close>

theorem VerifyWinners_prefix:
  assumes "\<forall>x \<in> set xs. 8 \<le> length (EntryHash x)" "xs \<noteq> []"
  shows "(VerifyWinners r (Some xs) = Inr True \<longleftrightarrow>
      (\<exists>n \<le> length xs. WinPreviousOPR r = map (\<lambda>x. hexEncode (take 8 (EntryHash x))) (take n xs)))
   \<and> (is_panic (VerifyWinners r (Some xs)) \<longleftrightarrow>
      (\<exists>w ws. WinPreviousOPR r = map (\<lambda>x. hexEncode (take 8 (EntryHash x))) xs @ w # ws))
   \<and> (VerifyWinners r None = Inr True \<longleftrightarrow> (\<forall>w \<in> set (WinPreviousOPR r). w = []))
   \<and> VerifyWinners r (Some []) = Inr True"
proof (intro conjI)
  let ?short = "map (\<lambda>x. hexEncode (take 8 (EntryHash x))) xs" and ?ws = "WinPreviousOPR r"
  have v: "VerifyWinners r (Some xs) = (if take (min (length ?ws) (length ?short)) ?ws
      \<noteq> take (min (length ?ws) (length ?short)) ?short then Inr False
    else if length ?short < length ?ws then Inl (Panic ''index out of range'') else Inr True)"
    using verify_winners_Some [OF assms(2,1), of 0 ?ws] by (simp add: VerifyWinners_def Let_def)
  show "VerifyWinners r (Some xs) = Inr True \<longleftrightarrow>
      (\<exists>n \<le> length xs. ?ws = map (\<lambda>x. hexEncode (take 8 (EntryHash x))) (take n xs))"
  proof
    assume "VerifyWinners r (Some xs) = Inr True"
    then have "length ?ws \<le> length xs" "?ws = take (length ?ws) ?short"
      by (auto simp: v min_def not_less split: if_splits)
    then show "\<exists>n \<le> length xs. ?ws = map (\<lambda>x. hexEncode (take 8 (EntryHash x))) (take n xs)"
      by (metis take_map)
  next
    assume "\<exists>n \<le> length xs. ?ws = map (\<lambda>x. hexEncode (take 8 (EntryHash x))) (take n xs)"
    then obtain n where "n \<le> length xs" "?ws = take n ?short" by (auto simp: take_map)
    then show "VerifyWinners r (Some xs) = Inr True" by (simp add: v min_absorb1 min_absorb2)
  qed
  show "is_panic (VerifyWinners r (Some xs)) \<longleftrightarrow> (\<exists>w ws. ?ws = ?short @ w # ws)"
  proof
    assume "is_panic (VerifyWinners r (Some xs))"
    then have "length ?short < length ?ws" "take (length ?short) ?ws = ?short"
      by (auto simp: v min_def split: if_splits)
    then show "\<exists>w ws. ?ws = ?short @ w # ws"
      by (metis append_take_drop_id drop_eq_Nil leD neq_Nil_conv)
  qed (auto simp: v)
  show "VerifyWinners r None = Inr True \<longleftrightarrow> (\<forall>w \<in> set ?ws. w = [])"
  proof -
    have "verify_winners i ws None = Inr True \<longleftrightarrow> (\<forall>w \<in> set ws. w = [])" for i ws
      by (induction ws arbitrary: i) auto
    then show ?thesis by (simp add: VerifyWinners_def)
  qed
  show "VerifyWinners r (Some []) = Inr True"
  proof -
    have "verify_winners i ws (Some []) = Inr True" for i ws
      by (induction ws arbitrary: i) (simp_all add: Let_def)
    then show ?thesis by (simp add: VerifyWinners_def)
  qed
qed

theorem VerifyWinners_prefix_witness:
  "let xs = [NewOraclePriceRecord\<lparr>EntryHash := replicate 32 9\<rparr>];
       r = NewOraclePriceRecord\<lparr>WinPreviousOPR := [''0909090909090909'', []]\<rparr> in
   (VerifyWinners r (Some xs) = Inr True \<longleftrightarrow>
      (\<exists>n \<le> length xs. WinPreviousOPR r = map (\<lambda>x. hexEncode (take 8 (EntryHash x))) (take n xs)))
   \<and> (is_panic (VerifyWinners r (Some xs)) \<longleftrightarrow>
      (\<exists>w ws. WinPreviousOPR r = map (\<lambda>x. hexEncode (take 8 (EntryHash x))) xs @ w # ws))
   \<and> (VerifyWinners r None = Inr True \<longleftrightarrow> (\<forall>w \<in> set (WinPreviousOPR r). w = []))
   \<and> VerifyWinners r (Some []) = Inr True"
  unfolding Let_def by (rule VerifyWinners_prefix) simp_all

end
