(* ===== verification/BlockStore.thy ===== *)
theory BlockStore
  imports OprGrading
begin

text \<open>
  Package database (keys, the in-memory database, the interface of a database) and opr/oprblocks.go,
  which keeps the graded blocks in one. Package gob is part of the standard library: what it writes is
  represented by the value that reading it gives back, which is the value written but that an empty
  map reads as a nil map. LevelDB is third-party code; it is covered by the interface.
\<close>

section \<open>Keys\<close>

text \<open>The constants of \<open>Bucket\<close> are not negative, so that a bucket is a natural number.\<close>

definition BUCKET_OPR_HEIGHT :: nat where "BUCKET_OPR_HEIGHT = 1"

fun BuildKey :: "nat \<Rightarrow> byte list \<Rightarrow> byte list" where
  "BuildKey bucket key =
     (let bkey = key @ [word_of_nat bucket OR 0x80] in
      if bucket = 0 then bkey else BuildKey (bucket div 128) key)"

declare BuildKey.simps [simp del]

definition HeightToBytes :: "int \<Rightarrow> byte list" where
  "HeightToBytes v = PutUint64 (word_of_int v)"

lemma BuildKey_eq: "BuildKey bucket key = key @ [0x80]"
proof (induction bucket key rule: BuildKey.induct)
  case (1 bucket key)
  then show ?case by (subst BuildKey.simps) (auto simp: Let_def)
qed

lemma bit_byte_of:
  "n < 64 \<Longrightarrow> bit (d :: u64) n \<longleftrightarrow> bit (ucast (drop_bit (56 - 8 * (7 - n div 8)) d) :: byte) (n mod 8)"
proof -
  assume n: "n < 64"
  then have "n div 8 \<le> 7" by simp
  then have "56 - 8 * (7 - n div 8) = 8 * (n div 8)" by simp
  moreover have "8 * (n div 8) + n mod 8 = n" by simp
  ultimately show ?thesis by (simp add: bit_ucast_iff bit_drop_bit_eq)
qed

lemma PutUint64_inject: "PutUint64 d = PutUint64 e \<Longrightarrow> d = e"
proof (rule bit_word_eqI)
  fix n assume eq: "PutUint64 d = PutUint64 e" and "n < LENGTH(64)"
  then have n: "n < 64" "7 - n div 8 < 8" by simp_all
  from eq have "PutUint64 d ! (7 - n div 8) = PutUint64 e ! (7 - n div 8)" by simp
  then have "(ucast (drop_bit (56 - 8 * (7 - n div 8)) d) :: byte)
      = ucast (drop_bit (56 - 8 * (7 - n div 8)) e)"
    using n by (simp add: PutUint64_def)
  with bit_byte_of [OF n(1), of d] bit_byte_of [OF n(1), of e] show "bit d n \<longleftrightarrow> bit e n" by simp
qed

definition int64 :: "int \<Rightarrow> bool" where
  "int64 v \<longleftrightarrow> - (2 ^ 63) \<le> v \<and> v < 2 ^ 63"

lemma HeightToBytes_inject:
  assumes "int64 h" "int64 k" "HeightToBytes h = HeightToBytes k" shows "h = k"
proof -
  have "wrap64 h = wrap64 k"
    using PutUint64_inject [OF assms(3) [unfolded HeightToBytes_def]] by (simp add: wrap64_def)
  then show ?thesis using assms(1,2) by (simp add: wrap64_id int64_def)
qed

section \<open>Databases\<close>

text \<open>
  The interface: what was put under a key is what reading it gives, other keys of the bucket are not
  touched, and a write that fails changes nothing.
\<close>

locale database =
  fixes put :: "'d \<Rightarrow> nat \<Rightarrow> byte list \<Rightarrow> 'v \<Rightarrow> 'd \<times> unit res"
    and get :: "'d \<Rightarrow> nat \<Rightarrow> byte list \<Rightarrow> 'v res"
  assumes get_put: "put d b k v = (d', Inr ()) \<Longrightarrow> get d' b k = Inr v"
    and get_other: "put d b k v = (d', Inr ()) \<Longrightarrow> k' \<noteq> k \<Longrightarrow> get d' b k' = get d b k'"
    and put_fails: "put d b k v = (d', Inl e) \<Longrightarrow> d' = d"

text \<open>The database in memory (mapdb.go); its values are what was put.\<close>

record 'v MapDb =
  data :: "byte list \<Rightarrow> 'v option"

definition NewMapDb :: "'v MapDb" where
  "NewMapDb = \<lparr>data = (\<lambda>_. None)\<rparr>"

definition MapDb_Open :: "'v MapDb \<Rightarrow> 'v MapDb" where
  "MapDb_Open db = db\<lparr>data := (\<lambda>_. None)\<rparr>"

definition MapDb_Put :: "'v MapDb \<Rightarrow> nat \<Rightarrow> byte list \<Rightarrow> 'v \<Rightarrow> 'v MapDb \<times> unit res" where
  "MapDb_Put db bucket key v = (db\<lparr>data := (data db)(BuildKey bucket key \<mapsto> v)\<rparr>, Inr ())"

definition MapDb_Get :: "'v MapDb \<Rightarrow> nat \<Rightarrow> byte list \<Rightarrow> 'v res" where
  "MapDb_Get db bucket key = (case data db (BuildKey bucket key) of
     None \<Rightarrow> Inl (GoError ''leveldb: not found'') | Some v \<Rightarrow> Inr v)"

definition MapDb_Delete :: "'v MapDb \<Rightarrow> nat \<Rightarrow> byte list \<Rightarrow> 'v MapDb \<times> unit res" where
  "MapDb_Delete db bucket key = (db\<lparr>data := (data db)(BuildKey bucket key := None)\<rparr>, Inr ())"

lemmas MapDb_defs = MapDb_Put_def MapDb_Get_def MapDb_Delete_def BuildKey_eq

interpretation mapdb: database MapDb_Put MapDb_Get
  by unfold_locales (auto simp: MapDb_defs)

text \<open>
  The key of an entry does not depend on its bucket: whatever the bucket it is the given key and
  one more byte, so that all buckets of a database share their keys. What is put into one bucket is
  read from every other, and deleting in one deletes in all.
\<close>

theorem buckets_collide:
  "BuildKey bucket key = key @ [0x80]
   \<and> MapDb_Get (fst (MapDb_Put db bucket key v)) bucket' key = Inr v
   \<and> MapDb_Get (fst (MapDb_Delete (fst (MapDb_Put db bucket key v)) bucket' key)) bucket key
       = Inl (GoError ''leveldb: not found'')"
  by (simp add: MapDb_defs)

section \<open>The store of graded blocks\<close>

record OPRBlockDatabaseObject =
  GradedOprs :: "OraclePriceRecord list"
  DblockHeight :: int
  ObjEmptyOPRBlock :: bool
  ObjTotalNumberRecords :: int

text \<open>What decoding gives back of a record: gob leaves out an empty map.\<close>

definition gob_record :: "OraclePriceRecord \<Rightarrow> OraclePriceRecord" where
  "gob_record r = r\<lparr>Assets := (if entries (Assets r) = [] then None else Assets r)\<rparr>"

definition Encode_object :: "OPRBlockDatabaseObject \<Rightarrow> OPRBlockDatabaseObject" where
  "Encode_object obj = obj\<lparr>GradedOprs := map gob_record (GradedOprs obj)\<rparr>"

definition ToOPRBlock :: "OPRBlockDatabaseObject \<Rightarrow> OprBlock" where
  "ToOPRBlock obj =
     \<lparr>BlockOPRs = sort_stable (\<lambda>a b. Difficulty b < Difficulty a) (GradedOprs obj),
      GradedOPRs = GradedOprs obj, BlockDbht = DblockHeight obj, TotalNumberRecords = 0,
      EmptyOPRBlock = ObjEmptyOPRBlock obj\<rparr>"

definition WriteOPRBlock ::
  "('d \<Rightarrow> nat \<Rightarrow> byte list \<Rightarrow> OPRBlockDatabaseObject \<Rightarrow> 'd \<times> unit res) \<Rightarrow> 'd \<Rightarrow> OprBlock \<Rightarrow> 'd \<times> unit res" where
  "WriteOPRBlock put d b =
     (let obj = \<lparr>GradedOprs = GradedOPRs b, DblockHeight = BlockDbht b,
                 ObjEmptyOPRBlock = EmptyOPRBlock b, ObjTotalNumberRecords = TotalNumberRecords b\<rparr>
      in put d BUCKET_OPR_HEIGHT (HeightToBytes (DblockHeight obj)) (Encode_object obj))"

definition WriteInvalidOPRBlock ::
  "('d \<Rightarrow> nat \<Rightarrow> byte list \<Rightarrow> OPRBlockDatabaseObject \<Rightarrow> 'd \<times> unit res) \<Rightarrow> 'd \<Rightarrow> int \<Rightarrow> 'd \<times> unit res" where
  "WriteInvalidOPRBlock put d dbht = WriteOPRBlock put d
     \<lparr>BlockOPRs = [], GradedOPRs = [], BlockDbht = dbht, TotalNumberRecords = 0, EmptyOPRBlock = True\<rparr>"

definition FetchStoredBlock :: "('d \<Rightarrow> nat \<Rightarrow> byte list \<Rightarrow> OPRBlockDatabaseObject res) \<Rightarrow> 'd \<Rightarrow> int \<Rightarrow> OprBlock res" where
  "FetchStoredBlock get d height =
     rbind (get d BUCKET_OPR_HEIGHT (HeightToBytes height)) (\<lambda>obj. Inr (ToOPRBlock obj))"

text \<open>What is read of a block that was written.\<close>

definition stored_block :: "OprBlock \<Rightarrow> OprBlock" where
  "stored_block b = ToOPRBlock (Encode_object \<lparr>GradedOprs = GradedOPRs b, DblockHeight = BlockDbht b,
     ObjEmptyOPRBlock = EmptyOPRBlock b, ObjTotalNumberRecords = TotalNumberRecords b\<rparr>)"

lemma stored_block_simps [simp]:
  "GradedOPRs (stored_block b) = map gob_record (GradedOPRs b)" "BlockDbht (stored_block b) = BlockDbht b"
  "EmptyOPRBlock (stored_block b) = EmptyOPRBlock b"
  by (simp_all add: stored_block_def ToOPRBlock_def Encode_object_def)

text \<open>The laws of a store over any database, for heights of 64 bits.\<close>

locale block_store = database put get
  for put :: "'d \<Rightarrow> nat \<Rightarrow> byte list \<Rightarrow> OPRBlockDatabaseObject \<Rightarrow> 'd \<times> unit res"
    and get :: "'d \<Rightarrow> nat \<Rightarrow> byte list \<Rightarrow> OPRBlockDatabaseObject res"
begin

lemma fetch_written:
  assumes "WriteOPRBlock put d b = (d', Inr ())"
  shows "FetchStoredBlock get d' (BlockDbht b) = Inr (stored_block b)"
  using get_put assms by (simp add: WriteOPRBlock_def FetchStoredBlock_def stored_block_def)

lemma fetch_other:
  assumes "WriteOPRBlock put d b = (d', Inr ())" "int64 (BlockDbht b)" "int64 h" "h \<noteq> BlockDbht b"
  shows "FetchStoredBlock get d' h = FetchStoredBlock get d h"
proof -
  have "HeightToBytes h \<noteq> HeightToBytes (BlockDbht b)" using HeightToBytes_inject assms(2-4) by blast
  from get_other [OF _ this] show ?thesis
    using assms(1) by (simp add: WriteOPRBlock_def FetchStoredBlock_def)
qed

lemma write_fails: "WriteOPRBlock put d b = (d', Inl e) \<Longrightarrow> d' = d"
  using put_fails by (simp add: WriteOPRBlock_def Let_def)

end

interpretation mapstore: block_store MapDb_Put MapDb_Get
  by unfold_locales

end
