(* ===== verification/BlockSync.thy ===== *)
theory BlockSync
  imports Prelude
begin

text \<open>
  opr/entryblocksync.go: which entry blocks of a chain the grader still has to parse. Factomd is a pair
  of arguments: \<open>get_chain_head\<close> gives the key of the newest block of the chain, \<open>get_eblock\<close> a block by
  its key. The walk back along the chain may not end, so it is a partial function; it ends on a chain.
\<close>

section \<open>The code\<close>

text \<open>What is used of \<open>factom.EBlock\<close>; \<open>EntryList\<close> are the hashes of the entries.\<close>

record EBlock =
  DBHeight :: int
  BlockSequenceNumber :: int
  PrevKeyMR :: string
  EntryList :: "string list"

record EntryBlockMarker =
  KeyMr :: string
  EntryBlock :: "EBlock option"

record EntryBlockSync =
  ChainID :: string
  Current :: EntryBlockMarker
  Target :: EntryBlockMarker
  BlocksToBeParsed :: "EntryBlockMarker list"

definition ZeroHash :: string where
  "ZeroHash = ''0000000000000000000000000000000000000000000000000000000000000000''"

definition NewEntryBlockMarker :: EntryBlockMarker where
  "NewEntryBlockMarker = \<lparr>KeyMr = [], EntryBlock = None\<rparr>"

definition NewEntryBlockSync :: "string \<Rightarrow> EntryBlockSync" where
  "NewEntryBlockSync chainid = \<lparr>ChainID = chainid, Current = NewEntryBlockMarker,
     Target = NewEntryBlockMarker, BlocksToBeParsed = []\<rparr>"

definition marker_same :: "EntryBlockMarker \<Rightarrow> EntryBlockMarker \<Rightarrow> bool" where
  "marker_same a b \<longleftrightarrow> KeyMr a = KeyMr b"

definition Synced :: "EntryBlockSync \<Rightarrow> bool" where
  "Synced a = marker_same (Current a) (Target a)"

definition Head :: "EntryBlockSync \<Rightarrow> EntryBlockMarker" where
  "Head a = Target a"

definition NextEBlock :: "EntryBlockSync \<Rightarrow> EntryBlockMarker option" where
  "NextEBlock a = (case BlocksToBeParsed a of [] \<Rightarrow> None | m # _ \<Rightarrow> Some m)"

definition BlockParsed :: "EntryBlockSync \<Rightarrow> EntryBlockMarker \<Rightarrow> EntryBlockSync res" where
  "BlockParsed a block = (case BlocksToBeParsed a of
     [] \<Rightarrow> Inl (Panic ''index out of range'')
   | m # ms \<Rightarrow> guard_res (\<not> marker_same m block) (Panic ''This block should not be next in the list'')
       (Inr (a\<lparr>Current := block, BlocksToBeParsed := ms\<rparr>)))"

definition AddNewHeadMarker :: "EntryBlockSync \<Rightarrow> EntryBlockMarker \<Rightarrow> EntryBlockSync res" where
  "AddNewHeadMarker a marker =
     (let add = a\<lparr>BlocksToBeParsed := BlocksToBeParsed a @ [marker], Target := marker\<rparr> in
      if KeyMr (Target a) = [] then Inr add
      else case (EntryBlock marker, EntryBlock (Target a)) of
        (Some x, Some y) \<Rightarrow> if BlockSequenceNumber x < BlockSequenceNumber y then Inr a else Inr add
      | _ \<Rightarrow> Inl (Panic ''nil pointer dereference''))"

definition AddNewHead :: "EntryBlockSync \<Rightarrow> string \<Rightarrow> EBlock option \<Rightarrow> EntryBlockSync res" where
  "AddNewHead a keymr eblock = AddNewHeadMarker a \<lparr>KeyMr = keymr, EntryBlock = eblock\<rparr>"

definition sync_same :: "EntryBlockSync \<Rightarrow> EntryBlockSync \<Rightarrow> bool" where
  "sync_same a b \<longleftrightarrow> marker_same (Current a) (Current b) \<and> marker_same (Target a) (Target b)
     \<and> list_all2 marker_same (BlocksToBeParsed a) (BlocksToBeParsed b)"

text \<open>The loop of \<open>SyncBlocks\<close>: the blocks from \<open>next\<close> back to \<open>known\<close> or to the first of the chain.\<close>

partial_function (option) walk_back ::
  "(string \<Rightarrow> EBlock res) \<Rightarrow> string \<Rightarrow> string \<Rightarrow> EntryBlockMarker list \<Rightarrow> EntryBlockMarker list res option" where
  "walk_back get_eblock known keymr eblocks =
     (if keymr = known \<or> keymr = ZeroHash then Some (Inr eblocks)
      else case get_eblock keymr of
        Inl e \<Rightarrow> Some (Inl e)
      | Inr eblock \<Rightarrow> walk_back get_eblock known (PrevKeyMR eblock)
          (eblocks @ [\<lparr>KeyMr = keymr, EntryBlock = Some eblock\<rparr>]))"

text \<open>The blocks found are added in the order of the chain.\<close>

definition add_heads :: "EntryBlockSync \<Rightarrow> EntryBlockMarker list res \<Rightarrow> EntryBlockSync \<times> unit res" where
  "add_heads a found = (case rbind found (\<lambda>eblocks. res_fold AddNewHeadMarker a (rev eblocks)) of
     Inl e \<Rightarrow> (a, Inl e) | Inr a' \<Rightarrow> (a', Inr ()))"

definition SyncBlocks :: "(string \<Rightarrow> string res) \<Rightarrow> (string \<Rightarrow> EBlock res) \<Rightarrow> EntryBlockSync \<Rightarrow>
    (EntryBlockSync \<times> unit res) option" where
  "SyncBlocks get_chain_head get_eblock a =
     (case get_chain_head (ChainID a) of
        Inl e \<Rightarrow> Some (a, Inl e)
      | Inr heb \<Rightarrow>
         (if KeyMr (Head a) \<noteq> heb
          then map_option (add_heads a) (walk_back get_eblock (KeyMr (Head a)) heb [])
          else Some (a, Inr ())))"

text \<open>The order of a list of markers (\<open>Less\<close>).\<close>

definition marker_less :: "EntryBlockMarker \<Rightarrow> EntryBlockMarker \<Rightarrow> bool res" where
  "marker_less a b = (case (EntryBlock a, EntryBlock b) of
     (Some x, Some y) \<Rightarrow> Inr (BlockSequenceNumber x < BlockSequenceNumber y)
   | _ \<Rightarrow> Inl (Panic ''nil pointer dereference''))"

section \<open>Chains\<close>

text \<open>
  A chain: its blocks from the first to the newest. Each names the one before it, the first names
  \<open>ZeroHash\<close>; the keys are different, and the sequence numbers count up.
\<close>

definition prev_key :: "EntryBlockMarker list \<Rightarrow> nat \<Rightarrow> string" where
  "prev_key ms i = (if i = 0 then ZeroHash else KeyMr (ms ! (i - 1)))"

definition is_chain :: "EntryBlockMarker list \<Rightarrow> bool" where
  "is_chain ms \<longleftrightarrow> distinct (map KeyMr ms) \<and> ZeroHash \<notin> set (map KeyMr ms) \<and> [] \<notin> set (map KeyMr ms)
     \<and> (\<forall>i < length ms. \<exists>b. EntryBlock (ms ! i) = Some b \<and> PrevKeyMR b = prev_key ms i
          \<and> BlockSequenceNumber b = int i)"

text \<open>Factomd serves a chain if it gives each block for its key.\<close>

definition serves :: "(string \<Rightarrow> EBlock res) \<Rightarrow> EntryBlockMarker list \<Rightarrow> bool" where
  "serves get_eblock ms \<longleftrightarrow> (\<forall>m \<in> set ms. \<forall>b. EntryBlock m = Some b \<longrightarrow> get_eblock (KeyMr m) = Inr b)"

text \<open>
  What the state stands for: the first \<open>p\<close> blocks of the chain are parsed, the first \<open>n\<close> are known.
\<close>

definition synced_to :: "EntryBlockMarker list \<Rightarrow> nat \<Rightarrow> nat \<Rightarrow> EntryBlockSync \<Rightarrow> bool" where
  "synced_to ms p n a \<longleftrightarrow> p \<le> n \<and> n \<le> length ms
     \<and> Current a = (if p = 0 then NewEntryBlockMarker else ms ! (p - 1))
     \<and> Target a = (if n = 0 then NewEntryBlockMarker else ms ! (n - 1))
     \<and> BlocksToBeParsed a = take (n - p) (drop p ms)"

lemma synced_to_New: "synced_to ms 0 0 (NewEntryBlockSync c)"
  by (simp add: synced_to_def NewEntryBlockSync_def)

lemma prev_key_append: "i < length ms \<Longrightarrow> prev_key (ms @ ns) i = prev_key ms i"
  by (auto simp: prev_key_def nth_append)

lemma is_chain_prefix:
  assumes "is_chain (ms @ ns)" shows "is_chain ms"
proof -
  have "\<exists>b. EntryBlock (ms ! i) = Some b \<and> PrevKeyMR b = prev_key ms i \<and> BlockSequenceNumber b = int i"
    if "i < length ms" for i
  proof -
    have "i < length (ms @ ns)" using that by simp
    then obtain b where "EntryBlock ((ms @ ns) ! i) = Some b" "PrevKeyMR b = prev_key (ms @ ns) i"
      "BlockSequenceNumber b = int i" using assms unfolding is_chain_def by blast
    then show ?thesis using that by (simp add: nth_append prev_key_append)
  qed
  moreover have "distinct (map KeyMr ms) \<and> ZeroHash \<notin> set (map KeyMr ms) \<and> [] \<notin> set (map KeyMr ms)"
    using assms unfolding is_chain_def map_append distinct_append set_append by blast
  ultimately show ?thesis unfolding is_chain_def by blast
qed

lemma synced_to_extend: "synced_to ms p n a \<Longrightarrow> synced_to (ms @ ns) p n a"
  by (auto simp: synced_to_def nth_append)

lemma chain_key:
  assumes "is_chain ms" "i < length ms"
  shows "KeyMr (ms ! i) \<noteq> ZeroHash" "KeyMr (ms ! i) \<noteq> []"
  using assms by (auto simp: is_chain_def) (metis imageI nth_mem)+

lemma chain_keys_inject:
  assumes "is_chain ms" "i < length ms" "j < length ms"
  shows "KeyMr (ms ! i) = KeyMr (ms ! j) \<longleftrightarrow> i = j"
  using assms nth_eq_iff_index_eq [of "map KeyMr ms" i j] by (auto simp: is_chain_def)

text \<open>From block \<open>n\<close> (1-based) back to block \<open>k\<close>, the walk ends and gives what is between.\<close>

lemma walk_back_chain:
  assumes "is_chain ms" "serves get_eblock ms" "k \<le> n" "n \<le> length ms"
    and "known = (if k = 0 then [] else KeyMr (ms ! (k - 1)))"
  shows "walk_back get_eblock known (prev_key ms n) acc = Some (Inr (acc @ rev (take (n - k) (drop k ms))))"
  using assms(3,4)
proof (induction "n - k" arbitrary: n acc)
  case 0
  then have "prev_key ms n = known \<or> prev_key ms n = ZeroHash" using assms(5) by (auto simp: prev_key_def)
  with 0 show ?case by (subst walk_back.simps) auto
next
  case (Suc d)
  then obtain n' where n: "n = Suc n'" "n' < length ms" "k \<le> n'" by (cases n) auto
  obtain b where b: "EntryBlock (ms ! n') = Some b" "PrevKeyMR b = prev_key ms n'"
    using assms(1) n(2) by (auto simp: is_chain_def)
  have key: "prev_key ms n = KeyMr (ms ! n')" by (simp add: prev_key_def n(1))
  have "KeyMr (ms ! n') \<noteq> known"
    using assms(1,5) n(2,3) chain_key [OF assms(1) n(2)] chain_keys_inject [OF assms(1) n(2), of "k - 1"]
    by (auto split: if_splits)
  moreover have "KeyMr (ms ! n') \<noteq> ZeroHash" using chain_key [OF assms(1) n(2)] by simp
  moreover have "get_eblock (KeyMr (ms ! n')) = Inr b" using assms(2) b(1) n(2) by (auto simp: serves_def)
  moreover have "\<lparr>KeyMr = KeyMr (ms ! n'), EntryBlock = Some b\<rparr> = ms ! n'" using b(1) by simp
  ultimately have "walk_back get_eblock known (prev_key ms n) acc
      = walk_back get_eblock known (prev_key ms n') (acc @ [ms ! n'])"
    by (subst walk_back.simps) (simp add: key b(2))
  also have "\<dots> = Some (Inr ((acc @ [ms ! n']) @ rev (take (n' - k) (drop k ms))))"
    using Suc n by (intro Suc.hyps(1)) auto
  also have "take (n - k) (drop k ms) = take (n' - k) (drop k ms) @ [ms ! n']"
    using n by (simp add: Suc_diff_le take_Suc_conv_app_nth)
  then have "(acc @ [ms ! n']) @ rev (take (n' - k) (drop k ms)) = acc @ rev (take (n - k) (drop k ms))"
    by simp
  finally show ?case .
qed

lemma AddNewHeadMarker_chain:
  assumes "is_chain ms" "synced_to ms p n a" "n < length ms"
  shows "\<exists>a'. AddNewHeadMarker a (ms ! n) = Inr a' \<and> synced_to ms p (Suc n) a' \<and> ChainID a' = ChainID a"
proof -
  obtain x where x: "EntryBlock (ms ! n) = Some x" "BlockSequenceNumber x = int n"
    using assms(1,3) by (auto simp: is_chain_def)
  obtain y where y: "n \<noteq> 0 \<longrightarrow> EntryBlock (ms ! (n - 1)) = Some y \<and> BlockSequenceNumber y = int (n - 1)"
    using assms(1,3) unfolding is_chain_def by (metis less_imp_diff_less)
  have "KeyMr (Target a) = [] \<or> EntryBlock (Target a) = Some y \<and> \<not> BlockSequenceNumber x < BlockSequenceNumber y"
    using assms(2) x y by (cases n) (auto simp: synced_to_def NewEntryBlockMarker_def)
  then have "AddNewHeadMarker a (ms ! n)
      = Inr (a\<lparr>BlocksToBeParsed := BlocksToBeParsed a @ [ms ! n], Target := ms ! n\<rparr>)"
    by (auto simp: AddNewHeadMarker_def x Let_def)
  moreover have "p \<le> n" using assms(2) by (simp add: synced_to_def)
  moreover from this have "take (Suc n - p) (drop p ms) = take (n - p) (drop p ms) @ [ms ! n]"
    using assms(3) by (simp add: Suc_diff_le take_Suc_conv_app_nth)
  ultimately show ?thesis using assms(2,3) by (simp add: synced_to_def)
qed

lemma AddNewHeads_chain:
  assumes "is_chain ms" "synced_to ms p n a" "n + d \<le> length ms"
  shows "\<exists>a'. res_fold AddNewHeadMarker a (take d (drop n ms)) = Inr a' \<and> synced_to ms p (n + d) a'
    \<and> ChainID a' = ChainID a"
  using assms(2,3)
proof (induction d arbitrary: n a)
  case (Suc d)
  then have "n < length ms" by simp
  from AddNewHeadMarker_chain [OF assms(1) Suc.prems(1) this] obtain a1 where
    a1: "AddNewHeadMarker a (ms ! n) = Inr a1" "synced_to ms p (Suc n) a1" "ChainID a1 = ChainID a" by blast
  moreover have "take (Suc d) (drop n ms) = ms ! n # take d (drop (Suc n) ms)"
    using \<open>n < length ms\<close> by (simp flip: Cons_nth_drop_Suc)
  ultimately show ?case using Suc.IH [of "Suc n" a1] Suc.prems(2) by simp
qed auto

lemma SyncBlocks_chain:
  assumes "is_chain ms" "serves get_eblock ms" "synced_to ms p n a" "ms \<noteq> []"
    and "get_chain_head (ChainID a) = Inr (prev_key ms (length ms))"
  shows "\<exists>a'. SyncBlocks get_chain_head get_eblock a = Some (a', Inr ())
    \<and> synced_to ms p (length ms) a' \<and> ChainID a' = ChainID a"
proof -
  let ?known = "if n = 0 then [] else KeyMr (ms ! (n - 1))"
  have n: "n \<le> length ms" and head: "KeyMr (Head a) = ?known"
    using assms(3) by (auto simp: synced_to_def Head_def NewEntryBlockMarker_def)
  have last: "prev_key ms (length ms) = KeyMr (ms ! (length ms - 1))"
    using assms(4) by (simp add: prev_key_def)
  show ?thesis
  proof (cases "n = length ms")
    case True
    then show ?thesis using assms(3-5) head last by (simp add: SyncBlocks_def)
  next
    case False
    have "length ms - 1 < length ms" using assms(4) by (cases ms) auto
    then have "KeyMr (ms ! (length ms - 1)) \<noteq> ?known"
      using False n chain_key(2) [OF assms(1)] chain_keys_inject [OF assms(1), of "length ms - 1" "n - 1"] by auto
    moreover from AddNewHeads_chain [OF assms(1,3), of "length ms - n"] n obtain a' where
      "res_fold AddNewHeadMarker a (drop n ms) = Inr a'" "synced_to ms p (length ms) a'" "ChainID a' = ChainID a"
      by auto
    ultimately show ?thesis
      using walk_back_chain [OF assms(1,2) n order_refl refl, of "[]"] head last assms(5)
      by (simp add: SyncBlocks_def add_heads_def)
  qed
qed

lemma NextEBlock_chain:
  assumes "synced_to ms p n a"
  shows "NextEBlock a = (if p = n then None else Some (ms ! p))" "BlocksToBeParsed a = [] \<longleftrightarrow> p = n"
proof -
  have "drop p ms = ms ! p # drop (Suc p) ms" if "p < n"
    using assms that by (intro Cons_nth_drop_Suc [symmetric]) (simp add: synced_to_def)
  then show "NextEBlock a = (if p = n then None else Some (ms ! p))" "BlocksToBeParsed a = [] \<longleftrightarrow> p = n"
    using assms by (auto simp: synced_to_def NextEBlock_def take_Cons' split: list.splits)
qed

lemma BlockParsed_chain:
  assumes "synced_to ms p n a" "p < n"
  shows "\<exists>a'. BlockParsed a (ms ! p) = Inr a' \<and> synced_to ms (Suc p) n a' \<and> ChainID a' = ChainID a"
proof -
  have "drop p ms = ms ! p # drop (Suc p) ms"
    using assms by (intro Cons_nth_drop_Suc [symmetric]) (simp add: synced_to_def)
  moreover have "n - p = Suc (n - Suc p)" using assms(2) by simp
  ultimately have "BlocksToBeParsed a = ms ! p # take (n - Suc p) (drop (Suc p) ms)"
    using assms(1) by (simp add: synced_to_def)
  then have "BlockParsed a (ms ! p) = Inr (a\<lparr>Current := ms ! p,
      BlocksToBeParsed := take (n - Suc p) (drop (Suc p) ms)\<rparr>)"
    by (simp add: BlockParsed_def marker_same_def)
  then show ?thesis using assms by (simp add: synced_to_def)
qed

lemma Synced_chain:
  assumes "is_chain ms" "synced_to ms p n a"
  shows "Synced a \<longleftrightarrow> p = n"
proof -
  have "p \<le> n" "n \<le> length ms" using assms(2) by (simp_all add: synced_to_def)
  moreover have "KeyMr (ms ! (n - 1)) \<noteq> []" if "0 < n"
    using that \<open>n \<le> length ms\<close> by (intro chain_key(2) [OF assms(1)]) simp
  moreover have "KeyMr (ms ! (p - 1)) = KeyMr (ms ! (n - 1)) \<longleftrightarrow> p - 1 = n - 1" if "0 < p"
    using that calculation(1,2) by (intro chain_keys_inject [OF assms(1)]) auto
  ultimately show ?thesis
    using assms(2) by (auto simp: Synced_def marker_same_def synced_to_def NewEntryBlockMarker_def)
qed

section \<open>Runs\<close>

text \<open>
  What happens to the state while the chain grows: it is synchronised, with a factomd that serves the
  chain or with one that fails, and its blocks are parsed. The last argument are the blocks parsed.
\<close>

inductive sync_run :: "EntryBlockMarker list \<Rightarrow> EntryBlockSync \<Rightarrow> EntryBlockMarker list \<Rightarrow> bool" where
  start: "sync_run [] (NewEntryBlockSync c) []"
| grow: "sync_run ms a ps \<Longrightarrow> is_chain (ms @ ns) \<Longrightarrow> sync_run (ms @ ns) a ps"
| sync: "sync_run ms a ps \<Longrightarrow> serves get_eblock ms \<Longrightarrow> ms \<noteq> [] \<Longrightarrow>
    get_chain_head (ChainID a) = Inr (prev_key ms (length ms)) \<Longrightarrow>
    SyncBlocks get_chain_head get_eblock a = Some (a', r) \<Longrightarrow> sync_run ms a' ps"
| fail: "sync_run ms a ps \<Longrightarrow> SyncBlocks get_chain_head get_eblock a = Some (a', Inl e) \<Longrightarrow> sync_run ms a' ps"
| parse: "sync_run ms a ps \<Longrightarrow> NextEBlock a = Some m \<Longrightarrow> BlockParsed a m = Inr a' \<Longrightarrow>
    sync_run ms a' (ps @ [m])"

lemma add_heads_fail: "add_heads a r = (a', Inl e) \<Longrightarrow> a' = a"
  by (simp add: add_heads_def split: sum.splits)

lemma SyncBlocks_fail: "SyncBlocks h g a = Some (a', Inl e) \<Longrightarrow> a' = a"
  by (auto simp: SyncBlocks_def split: sum.splits if_splits dest: add_heads_fail)

lemma sync_run_synced:
  assumes "sync_run ms a ps"
  shows "is_chain ms \<and> (\<exists>n. synced_to ms (length ps) n a \<and> ps = take (length ps) ms)"
  using assms
proof induction
  case (start c)
  then show ?case by (auto simp: is_chain_def intro: synced_to_New)
next
  case (grow ms a ps ns)
  then obtain n where n: "synced_to ms (length ps) n a" "ps = take (length ps) ms" by blast
  then have "length ps \<le> length ms" by (simp add: synced_to_def)
  then have "ps = take (length ps) (ms @ ns)" using n(2) by simp
  with synced_to_extend [OF n(1)] grow.hyps(2) show ?case by blast
next
  case (sync ms a ps g h a' r)
  then obtain n where n: "is_chain ms" "synced_to ms (length ps) n a" "ps = take (length ps) ms" by blast
  from SyncBlocks_chain [where get_chain_head = h, OF n(1) sync.hyps(2) n(2) sync.hyps(3,4)] sync.hyps(5)
  have "synced_to ms (length ps) (length ms) a'" by auto
  with n show ?case by blast
next
  case (fail ms a ps h g a' e)
  then show ?case using SyncBlocks_fail [of h g a a' e] by simp
next
  case (parse ms a ps m a')
  then obtain n where n: "synced_to ms (length ps) n a" "ps = take (length ps) ms" by blast
  then have m: "m = ms ! length ps" "length ps < n" "n \<le> length ms"
    using parse.hyps(2) NextEBlock_chain(1) [OF n(1)] by (auto simp: synced_to_def split: if_splits)
  then have "synced_to ms (Suc (length ps)) n a'"
    using BlockParsed_chain [OF n(1)] parse.hyps(3) by auto
  moreover have "ps @ [m] = take (Suc (length ps)) ms"
    using m n(2) by (simp add: take_Suc_conv_app_nth)
  moreover have "length (ps @ [m]) = Suc (length ps)" by simp
  ultimately show ?case using parse.IH by metis
qed

text \<open>
  C18. While the chain grows, whatever calls fail, the blocks parsed and the blocks queued are the
  chain from its start, in its order and without a gap or a repetition, and the state counts as synced
  exactly when nothing is queued. A synchronisation with a factomd that serves the chain ends, although
  its loop has no bound, and queues all that is not parsed yet.
\<close>

theorem sync_queue:
  assumes "sync_run ms a ps"
  shows "(\<exists>n. ps @ BlocksToBeParsed a = take n ms) \<and> (Synced a \<longleftrightarrow> BlocksToBeParsed a = [])
    \<and> (\<forall>get_chain_head get_eblock. serves get_eblock ms \<longrightarrow> ms \<noteq> [] \<longrightarrow>
         get_chain_head (ChainID a) = Inr (prev_key ms (length ms)) \<longrightarrow>
         (\<exists>a'. SyncBlocks get_chain_head get_eblock a = Some (a', Inr ()) \<and> ps @ BlocksToBeParsed a' = ms))"
proof -
  obtain n where n: "is_chain ms" "synced_to ms (length ps) n a" "ps = take (length ps) ms"
    using sync_run_synced [OF assms] by blast
  have queue: "ps @ BlocksToBeParsed b = take k ms" if "synced_to ms (length ps) k b" for b k
  proof -
    have "length ps \<le> k" "BlocksToBeParsed b = take (k - length ps) (drop (length ps) ms)"
      using that by (simp_all add: synced_to_def)
    then show ?thesis using n(3) take_add [of "length ps" "k - length ps" ms] by simp
  qed
  show ?thesis
  proof (intro conjI allI impI)
    show "\<exists>n. ps @ BlocksToBeParsed a = take n ms" using queue [OF n(2)] by blast
    show "Synced a \<longleftrightarrow> BlocksToBeParsed a = []"
      using Synced_chain [OF n(1,2)] NextEBlock_chain(2) [OF n(2)] by simp
    fix get_chain_head :: "string \<Rightarrow> string res" and get_eblock
    assume s: "serves get_eblock ms" "ms \<noteq> []"
      "get_chain_head (ChainID a) = Inr (prev_key ms (length ms))"
    from SyncBlocks_chain [where get_chain_head = get_chain_head, OF n(1) s(1) n(2) s(2,3)] obtain a' where
      "SyncBlocks get_chain_head get_eblock a = Some (a', Inr ())" "synced_to ms (length ps) (length ms) a'" by blast
    moreover from queue [OF this(2)] have "ps @ BlocksToBeParsed a' = ms" by simp
    ultimately show "\<exists>a'. SyncBlocks get_chain_head get_eblock a = Some (a', Inr ())
        \<and> ps @ BlocksToBeParsed a' = ms" by blast
  qed
qed

definition sample_chain :: "EntryBlockMarker list" where
  "sample_chain =
     [\<lparr>KeyMr = ''k0'', EntryBlock = Some \<lparr>DBHeight = 7, BlockSequenceNumber = 0, PrevKeyMR = ZeroHash, EntryList = []\<rparr>\<rparr>,
      \<lparr>KeyMr = ''k1'', EntryBlock = Some \<lparr>DBHeight = 8, BlockSequenceNumber = 1, PrevKeyMR = ''k0'', EntryList = []\<rparr>\<rparr>]"

definition sample_eblock :: "string \<Rightarrow> EBlock res" where
  "sample_eblock k = (case List.find (\<lambda>m. KeyMr m = k) sample_chain of
     Some m \<Rightarrow> (case EntryBlock m of Some b \<Rightarrow> Inr b | None \<Rightarrow> Inl (GoError [])) | None \<Rightarrow> Inl (GoError []))"

lemma sample_is_chain: "is_chain sample_chain"
  by (auto simp: is_chain_def sample_chain_def ZeroHash_def prev_key_def less_Suc_eq)

theorem sync_queue_witness:
  "\<exists>a. (\<exists>n. [sample_chain ! 0] @ BlocksToBeParsed a = take n sample_chain)
     \<and> (Synced a \<longleftrightarrow> BlocksToBeParsed a = []) \<and> BlocksToBeParsed a = [sample_chain ! 1]"
proof -
  let ?a = "NewEntryBlockSync ''c''" and ?h = "\<lambda>_. Inr ''k1''"
  have s: "serves sample_eblock sample_chain" "prev_key sample_chain (length sample_chain) = ''k1''"
    by (auto simp: serves_def sample_eblock_def sample_chain_def prev_key_def)
  have new: "synced_to sample_chain 0 0 ?a"
    using synced_to_extend [OF synced_to_New, where ms = "[]" and ns = sample_chain] by simp
  have len: "length sample_chain = 2" by (simp add: sample_chain_def)
  then have "sample_chain \<noteq> []" by auto
  from SyncBlocks_chain [OF sample_is_chain s(1) new this, of ?h] s(2) obtain a1 where
    a1: "SyncBlocks ?h sample_eblock ?a = Some (a1, Inr ())" "synced_to sample_chain 0 2 a1"
    by (auto simp: len)
  from BlockParsed_chain [OF a1(2)] obtain a2 where
    a2: "BlockParsed a1 (sample_chain ! 0) = Inr a2" "synced_to sample_chain 1 2 a2" by auto
  have "sync_run sample_chain ?a []"
    using sync_run.grow [OF sync_run.start, of sample_chain] sample_is_chain by simp
  then have "sync_run sample_chain a1 []"
    using s(1) \<open>sample_chain \<noteq> []\<close> by (rule sync_run.sync [where get_chain_head = ?h]) (use a1(1) s(2) in auto)
  then have "sync_run sample_chain a2 ([] @ [sample_chain ! 0])"
    by (rule sync_run.parse) (use NextEBlock_chain(1) [OF a1(2)] a2(1) in auto)
  from sync_queue [OF this] show ?thesis
    using a2(2) by (intro exI [of _ a2]) (auto simp: synced_to_def len sample_chain_def)
qed

end
