(* ===== verification/Balances.thy ===== *)
theory Balances
  imports Common
begin

text \<open>
  Package balances: the tracker of the balances (balances.go) and the burning of Factoids that
  credits it (burns.go). The base58 coder, the calls to factomd and the JSON coder are arguments. A
  map is visited in an order that Go leaves open; for the payments of a block it is an argument.

  The lock of the tracker makes each operation atomic, so that the model has them one by one.
\<close>

section \<open>balances.go\<close>

text \<open>The balances by asset and raw address; a Go map reads as 0 where it has no entry.\<close>

record BalanceTracker =
  Balances :: "string \<Rightarrow> (byte list \<Rightarrow> int option) option"

definition NewBalanceTracker :: BalanceTracker where
  "NewBalanceTracker = \<lparr>Balances = (\<lambda>_. None)\<rparr>"

text \<open>\<open>copy(adr[:], adr2)\<close> into an array of 32 bytes.\<close>

definition copy32 :: "byte list \<Rightarrow> byte list" where
  "copy32 bs = take 32 bs @ replicate (32 - length bs) 0"

definition ConvertAddress :: "(string \<Rightarrow> byte list) \<Rightarrow> string \<Rightarrow> (string \<times> byte list) res" where
  "ConvertAddress dec address =
     rbind (ConvertPegNetAssetToRaw dec address) (\<lambda>(prefix, adr2). Inr (prefix, copy32 adr2))"

text \<open>\<open>b.Balances[prefix][adr]\<close>; reading a nil map gives 0.\<close>

definition lookup_balance :: "BalanceTracker \<Rightarrow> string \<times> byte list \<Rightarrow> int" where
  "lookup_balance b = (\<lambda>(prefix, adr). case Balances b prefix of
     None \<Rightarrow> 0 | Some m \<Rightarrow> (case m adr of None \<Rightarrow> 0 | Some v \<Rightarrow> v))"

text \<open>Makes the map of an asset that has none.\<close>

definition ensure_asset :: "string \<Rightarrow> BalanceTracker \<Rightarrow> BalanceTracker" where
  "ensure_asset prefix b =
     (if Balances b prefix = None then b\<lparr>Balances := (Balances b)(prefix \<mapsto> Map.empty)\<rparr> else b)"

definition store_balance :: "string \<times> byte list \<Rightarrow> int \<Rightarrow> BalanceTracker \<Rightarrow> BalanceTracker" where
  "store_balance k v b = (case k of (prefix, adr) \<Rightarrow> (case Balances b prefix of
     None \<Rightarrow> b | Some m \<Rightarrow> b\<lparr>Balances := (Balances b)(prefix \<mapsto> m(adr \<mapsto> v))\<rparr>))"

definition AddToBalance ::
  "(string \<Rightarrow> byte list) \<Rightarrow> BalanceTracker \<Rightarrow> string \<Rightarrow> int \<Rightarrow> BalanceTracker \<times> unit res" where
  "AddToBalance dec b address value = (case ConvertAddress dec address of
     Inl (Panic m) \<Rightarrow> (b, Inl (Panic m))
   | Inl e \<Rightarrow> (b, Inl (GoError ''address not properly formed''))
   | Inr (prefix, addressBytes) \<Rightarrow>
       (let b1 = ensure_asset prefix b;
            prev = lookup_balance b1 (prefix, addressBytes) in
        if wrap64 (prev + value) < 0
        then (b1, Inl (GoError (''result would be less than zero '' @ itoa prev @ ''-''
               @ itoa (wrap64 (- value)))))
        else (store_balance (prefix, addressBytes) (wrap64 (prev + value)) b1, Inr ())))"

definition GetBalance :: "(string \<Rightarrow> byte list) \<Rightarrow> BalanceTracker \<Rightarrow> string \<Rightarrow> int res" where
  "GetBalance dec b address = (case ConvertAddress dec address of
     Inl (Panic m) \<Rightarrow> Inl (Panic m)
   | Inl e \<Rightarrow> Inr (- 1)
   | Inr k \<Rightarrow> Inr (lookup_balance b k))"

section \<open>The interface of a ledger\<close>

text \<open>
  What the burns and the grader rely on: amounts are added to accounts, an account never holds less
  than nothing or more than fits, and an amount that would not fit leaves it as it is. The accounts
  are named by addresses; an address that names none is refused.
\<close>

locale ledger =
  fixes balance :: "'s \<Rightarrow> 'k \<Rightarrow> int"
    and account :: "'a \<Rightarrow> 'k res"
    and add :: "'s \<Rightarrow> 'a \<Rightarrow> int \<Rightarrow> 's \<times> unit res"
    and ok :: "'s \<Rightarrow> bool"
  assumes balance_bounds: "ok s \<Longrightarrow> 0 \<le> balance s k \<and> balance s k < 2 ^ 63"
    and add_ok: "ok s \<Longrightarrow> - (2 ^ 63) \<le> v \<Longrightarrow> v < 2 ^ 63 \<Longrightarrow> ok (fst (add s a v))"
    and add_fits: "ok s \<Longrightarrow> account a = Inr k \<Longrightarrow> - (2 ^ 63) \<le> v \<Longrightarrow> v < 2 ^ 63 \<Longrightarrow>
      0 \<le> balance s k + v \<Longrightarrow> balance s k + v < 2 ^ 63 \<Longrightarrow>
      snd (add s a v) = Inr () \<and> balance (fst (add s a v)) = (balance s)(k := balance s k + v)"
    and add_refused: "ok s \<Longrightarrow> - (2 ^ 63) \<le> v \<Longrightarrow> v < 2 ^ 63 \<Longrightarrow>
      (\<And>k. account a = Inr k \<Longrightarrow> \<not> (0 \<le> balance s k + v \<and> balance s k + v < 2 ^ 63)) \<Longrightarrow>
      (\<exists>e. snd (add s a v) = Inl e) \<and> balance (fst (add s a v)) = balance s"
begin

text \<open>What a list of payments adds to an account, and making them one after the other.\<close>

definition paid :: "('a \<times> int) list \<Rightarrow> 'k \<Rightarrow> int" where
  "paid ps k = (\<Sum>(a, v) \<leftarrow> ps. if account a = Inr k then v else 0)"

lemma paid_simps [simp]:
  "paid [] k = 0"
  "paid ((a, v) # ps) k = (if account a = Inr k then v else 0) + paid ps k"
  "paid (ps @ qs) k = paid ps k + paid qs k"
  by (simp_all add: paid_def)

lemma paid_nonneg: "\<forall>(a, v) \<in> set ps. 0 \<le> v \<Longrightarrow> 0 \<le> paid ps k"
  by (induction ps) auto

lemma paid_perm: "mset ps = mset qs \<Longrightarrow> paid ps k = paid qs k"
  by (simp add: paid_def flip: sum_mset_sum_list)

lemma add_pays:
  assumes "ok s" "account a = Inr k" "0 \<le> v" "balance s k + v < 2 ^ 63"
  shows "ok (fst (add s a v)) \<and> snd (add s a v) = Inr ()
    \<and> balance (fst (add s a v)) = (balance s)(k := balance s k + v)"
  using assms balance_bounds [OF assms(1), of k] add_ok [OF assms(1), of v a] add_fits [OF assms(1,2), of v]
  by simp

text \<open>
  Payments that fit in the end fit on the way, and all of them to an account are credited.
\<close>

lemma payments_exact:
  assumes "ok s" "\<forall>(a, v) \<in> set ps. 0 \<le> v \<and> v < 2 ^ 63" "\<forall>k. balance s k + paid ps k < 2 ^ 63"
  shows "ok (foldl (\<lambda>s (a, v). fst (add s a v)) s ps)
    \<and> balance (foldl (\<lambda>s (a, v). fst (add s a v)) s ps) = (\<lambda>k. balance s k + paid ps k)"
  using assms
proof (induction ps arbitrary: s)
  case (Cons p ps)
  obtain a v where p: "p = (a, v)" by fastforce
  with Cons.prems(2) have v: "0 \<le> v" "v < 2 ^ 63" by auto
  have rest: "\<forall>(a, v) \<in> set ps. 0 \<le> v \<and> v < 2 ^ 63" using Cons.prems(2) by simp
  have s1: "ok (fst (add s a v))" using add_ok [OF Cons.prems(1), of v a] v by simp
  have b1: "balance (fst (add s a v)) = (\<lambda>k. balance s k + (if account a = Inr k then v else 0))"
  proof (cases "account a")
    case (Inl e)
    then show ?thesis using add_refused [OF Cons.prems(1), of v a] v by simp
  next
    case (Inr k)
    have "0 \<le> paid ps k" using rest by (intro paid_nonneg) auto
    moreover have "balance s k + (v + paid ps k) < 2 ^ 63"
      using spec [OF Cons.prems(3), of k] Inr p by simp
    ultimately have "balance s k + v < 2 ^ 63" by linarith
    then show ?thesis using add_pays [OF Cons.prems(1) Inr v(1)] Inr by (auto simp: fun_eq_iff)
  qed
  have b2: "balance (fst (add s a v)) l + paid ps l = balance s l + paid (p # ps) l" for l
    by (simp add: b1 p)
  have "\<forall>l. balance (fst (add s a v)) l + paid ps l < 2 ^ 63"
    using Cons.prems(3) by (simp only: b2) simp
  from Cons.IH [OF s1 rest this] show ?case unfolding foldl_Cons b2 unfolding p prod.case .
qed simp

end

lemma wrap64_neg_iff:
  assumes "0 \<le> x" "x < 2 ^ 63" "- (2 ^ 63) \<le> v" "v < 2 ^ 63"
  shows "wrap64 (x + v) < 0 \<longleftrightarrow> \<not> (0 \<le> x + v \<and> x + v < 2 ^ 63)"
proof (cases "x + v < 2 ^ 63")
  case True
  then have "wrap64 (x + v) = x + v" using assms by (intro wrap64_id) auto
  with True show ?thesis by auto
next
  case False
  have "wrap64 (x + v) = wrap64 (x + v - 2 ^ 64)"
  proof -
    have "(word_of_int (2 ^ 64) :: 64 word) = 0" by simp
    then show ?thesis by (simp only: wrap64_def wi_hom_sub [symmetric] diff_zero)
  qed
  also have "\<dots> = x + v - 2 ^ 64" using assms False by (intro wrap64_id) auto
  finally show ?thesis using assms False by simp
qed

definition balances_ok :: "BalanceTracker \<Rightarrow> bool" where
  "balances_ok b \<longleftrightarrow> (\<forall>k. 0 \<le> lookup_balance b k \<and> lookup_balance b k < 2 ^ 63)"

lemma NewBalanceTracker_ok [simp]:
  "balances_ok NewBalanceTracker" "lookup_balance NewBalanceTracker = (\<lambda>_. 0)"
  by (auto simp: fun_eq_iff balances_ok_def lookup_balance_def NewBalanceTracker_def)

lemma lookup_ensure [simp]: "lookup_balance (ensure_asset p b) = lookup_balance b"
  by (auto simp: fun_eq_iff lookup_balance_def ensure_asset_def)

lemma lookup_store [simp]:
  "lookup_balance (store_balance (p, adr) v (ensure_asset p b)) = (lookup_balance b)((p, adr) := v)"
  by (auto simp: fun_eq_iff lookup_balance_def ensure_asset_def store_balance_def split: option.splits)

lemma AddToBalance_cases:
  assumes "balances_ok b" "- (2 ^ 63) \<le> v" "v < 2 ^ 63"
  shows "(case ConvertAddress dec a of
      Inr k \<Rightarrow> (if 0 \<le> lookup_balance b k + v \<and> lookup_balance b k + v < 2 ^ 63
        then snd (AddToBalance dec b a v) = Inr () \<and> lookup_balance (fst (AddToBalance dec b a v))
          = (lookup_balance b)(k := lookup_balance b k + v)
        else (\<exists>e. snd (AddToBalance dec b a v) = Inl e)
          \<and> lookup_balance (fst (AddToBalance dec b a v)) = lookup_balance b)
    | Inl _ \<Rightarrow> (\<exists>e. snd (AddToBalance dec b a v) = Inl e)
          \<and> lookup_balance (fst (AddToBalance dec b a v)) = lookup_balance b)"
proof (cases "ConvertAddress dec a")
  case (Inl e)
  then show ?thesis by (cases e) (auto simp: AddToBalance_def)
next
  case (Inr k)
  then obtain p adr where k: "k = (p, adr)" by (cases k)
  have b: "0 \<le> lookup_balance b k" "lookup_balance b k < 2 ^ 63" using assms(1) by (simp_all add: balances_ok_def del: split_paired_All)
  have "wrap64 (lookup_balance b k + v) = lookup_balance b k + v"
    if "0 \<le> lookup_balance b k + v" "lookup_balance b k + v < 2 ^ 63"
    using that by (simp add: wrap64_id)
  with Inr k b show ?thesis
    using wrap64_neg_iff [OF b assms(2,3)] by (auto simp: AddToBalance_def Let_def)
qed

interpretation bt: ledger lookup_balance "ConvertAddress dec" "AddToBalance dec" balances_ok
  for dec
proof
  show "0 \<le> lookup_balance b k \<and> lookup_balance b k < 2 ^ 63" if "balances_ok b" for b k
    using that by (simp add: balances_ok_def del: split_paired_All)
  show "balances_ok (fst (AddToBalance dec b a v))"
    if "balances_ok b" "- (2 ^ 63) \<le> v" "v < 2 ^ 63" for b v a
    using AddToBalance_cases [OF that, of dec a] that(1)
    by (auto simp: balances_ok_def simp del: split_paired_All split: sum.splits if_splits)
  show "snd (AddToBalance dec b a v) = Inr () \<and> lookup_balance (fst (AddToBalance dec b a v))
      = (lookup_balance b)(k := lookup_balance b k + v)"
    if "balances_ok b" "ConvertAddress dec a = Inr k" "- (2 ^ 63) \<le> v" "v < 2 ^ 63"
      "0 \<le> lookup_balance b k + v" "lookup_balance b k + v < 2 ^ 63" for b a k v
    using AddToBalance_cases [OF that(1,3,4), of dec a] that by simp
  show "(\<exists>e. snd (AddToBalance dec b a v) = Inl e)
      \<and> lookup_balance (fst (AddToBalance dec b a v)) = lookup_balance b"
    if "balances_ok b" "- (2 ^ 63) \<le> v" "v < 2 ^ 63"
      "\<And>k. ConvertAddress dec a = Inr k \<Longrightarrow>
        \<not> (0 \<le> lookup_balance b k + v \<and> lookup_balance b k + v < 2 ^ 63)" for b v a
    using AddToBalance_cases [OF that(1-3), of dec a] that(4)
    by (auto split: sum.splits)
qed

section \<open>The tracker implements a ledger of unbounded integers\<close>

text \<open>
  The ledger the tracker promises: an update is taken if it leaves the account with an amount that is
  not negative and fits into 63 bits.
\<close>

definition ledger_step ::
  "(string \<Rightarrow> byte list) \<Rightarrow> (string \<times> byte list \<Rightarrow> int) \<Rightarrow> string \<times> int \<Rightarrow> (string \<times> byte list \<Rightarrow> int)" where
  "ledger_step dec f u = (case ConvertAddress dec (fst u) of
     Inl _ \<Rightarrow> f
   | Inr k \<Rightarrow> (if 0 \<le> f k + snd u \<and> f k + snd u < 2 ^ 63 then f(k := f k + snd u) else f))"

lemma AddToBalance_step:
  assumes "balances_ok b" "- (2 ^ 63) \<le> v" "v < 2 ^ 63"
  shows "balances_ok (fst (AddToBalance dec b a v))
    \<and> lookup_balance (fst (AddToBalance dec b a v)) = ledger_step dec (lookup_balance b) (a, v)"
  using AddToBalance_cases [OF assms, of dec a] bt.add_ok [OF assms, of dec a]
  by (auto simp: ledger_step_def split: sum.splits if_splits)

text \<open>
  C36. Whatever updates of 64 bits are made to the tracker, one after the other, it shows for each
  address the balance of a ledger of unbounded integers in which every update was either refused or
  made exactly: no balance is ever negative and none wraps around. An address that is not valid shows
  as -1.
\<close>

theorem balances_exact:
  assumes "\<forall>(a, v) \<in> set us. - (2 ^ 63) \<le> v \<and> v < 2 ^ 63"
  shows "let b = foldl (\<lambda>b (a, v). fst (AddToBalance dec b a v)) NewBalanceTracker us;
             f = foldl (ledger_step dec) (\<lambda>_. 0) us
         in (\<forall>k. 0 \<le> f k \<and> f k < 2 ^ 63) \<and> (\<forall>a. GetBalance dec b a = (case ConvertAddress dec a of
              Inl (Panic m) \<Rightarrow> Inl (Panic m) | Inl _ \<Rightarrow> Inr (- 1) | Inr k \<Rightarrow> Inr (f k)))"
proof -
  let ?add = "\<lambda>b (a, v). fst (AddToBalance dec b a v)"
  have "balances_ok (foldl ?add b us)
      \<and> lookup_balance (foldl ?add b us) = foldl (ledger_step dec) (lookup_balance b) us"
    if "balances_ok b" for b
    using assms that
  proof (induction us arbitrary: b)
    case (Cons u us)
    obtain a v where u: "u = (a, v)" by fastforce
    with Cons.prems have "balances_ok (?add b u)"
      "lookup_balance (?add b u) = ledger_step dec (lookup_balance b) u"
      using AddToBalance_step [of b v dec a] by auto
    with Cons.IH [of "?add b u"] Cons.prems(1) show ?case by simp
  qed simp
  from this [of NewBalanceTracker] show ?thesis
    by (auto simp: balances_ok_def GetBalance_def Let_def simp del: split_paired_All
        split: sum.splits go_error.splits)
qed

theorem balances_exact_witness:
  "let us = [(''x'', 5), (''y'', - 7)];
       b = foldl (\<lambda>b (a, v). fst (AddToBalance Base58Decode b a v)) NewBalanceTracker us;
       f = foldl (ledger_step Base58Decode) (\<lambda>_. 0) us
   in (\<forall>k. 0 \<le> f k \<and> f k < 2 ^ 63) \<and> (\<forall>a. GetBalance Base58Decode b a = (case ConvertAddress Base58Decode a of
        Inl (Panic m) \<Rightarrow> Inl (Panic m) | Inl _ \<Rightarrow> Inr (- 1) | Inr k \<Rightarrow> Inr (f k)))"
  using balances_exact [of "[(''x'', 5), (''y'', - 7)]" Base58Decode] by simp

end
