(* ===== verification/Burns.thy ===== *)
theory Burns
  imports Balances "HOL-Library.AList"
begin

text \<open>
  Burning Factoids for pFCT: balances/burns.go. The calls to factomd and the JSON coder are arguments:
  \<open>get_fblock\<close> gives the transaction ids of the Factoid block of a height (a nil block is \<open>None\<close>),
  \<open>get_tx\<close> a transaction and \<open>json_tx\<close> its fields after encoding and decoding. Blocks and transactions
  never change, so these are functions.
\<close>

section \<open>Transactions\<close>

record TransactionOutput =
  Amount :: int
  TxAddress :: string
  Useraddress :: string

record FactoidTransaction =
  Millitimestamp :: int
  Inputs :: "TransactionOutput list"
  Outputs :: "TransactionOutput list"
  Outecs :: "TransactionOutput list"
  Rcds :: "string list"
  Sigblocks :: "string list list"
  Blockheight :: int

definition BurnAddresses :: "string \<Rightarrow> string" where
  "BurnAddresses network =
     (if network = MainNetwork then ''EC2BURNFCT2PEGNETooo1oooo1oooo1oooo1oooo1oooo19wthin''
      else if network = TestNetwork then ''EC2BURNFCT2TESTxoooo1oooo1oooo1oooo1oooo1oooo1EoyM6d''
      else if network = ''MainNetRCD''
      then ''37399721298d77984585040ea61055377039a4c3f3e2cd48c46ff643d50fd64f''
      else if network = ''TestNet-pM7RCD''
      then ''37399721298d8b92934b4f767a56be38ad8a30cf0b7ed9d9fd2eb0919905c4af''
      else [])"

text \<open>\<open>deltas[pFct] += v\<close>.\<close>

definition add_delta :: "string \<Rightarrow> int \<Rightarrow> (string \<times> int) list \<Rightarrow> (string \<times> int) list" where
  "add_delta p v ds = (let prev = (case map_of ds p of None \<Rightarrow> 0 | Some x \<Rightarrow> x) in
     AList.update p (wrap64 (prev + v)) ds)"

definition is_burn :: "string \<Rightarrow> FactoidTransaction \<Rightarrow> bool" where
  "is_burn network tx \<longleftrightarrow> length (Outecs tx) = 1
     \<and> Useraddress (Outecs tx ! 0) = BurnAddresses network \<and> Amount (Outecs tx ! 0) = 0"

definition burn_tx :: "(byte list \<Rightarrow> string) \<Rightarrow> (string \<Rightarrow> byte list) \<Rightarrow> string \<Rightarrow>
    (string \<times> int) list \<Rightarrow> FactoidTransaction \<Rightarrow> (string \<times> int) list res" where
  "burn_tx enc dec network deltas tx =
     (if \<not> is_burn network tx then Inr deltas
      else if length (Outputs tx) > 0 \<or> length (Inputs tx) > 1 then Inr deltas
      else guard_res (Inputs tx = []) (Panic ''index out of range'')
        (rbind (ConvertFCTtoPegNetAsset enc dec network ''FCT'' (Useraddress (Inputs tx ! 0))) (\<lambda>pFct.
         if network = MainNetwork then Inr (add_delta pFct (Amount (Inputs tx ! 0)) deltas)
         else if network = TestNetwork
         then Inr (add_delta pFct (wrap64 (Amount (Inputs tx ! 0) * 1000)) deltas)
         else Inr deltas)))"

section \<open>Blocks\<close>

record BurnTracking =
  FctDbht :: int
  Tracker :: BalanceTracker

definition NewBurnTracking :: "BalanceTracker \<Rightarrow> BurnTracking" where
  "NewBurnTracking b = \<lparr>FctDbht = 0, Tracker = b\<rparr>"

text \<open>The payments of a block; an error of one is dropped, a panic is not.\<close>

fun credit_all :: "(string \<Rightarrow> byte list) \<Rightarrow> BalanceTracker \<Rightarrow> (string \<times> int) list \<Rightarrow>
    BalanceTracker \<times> unit res" where
  "credit_all dec b [] = (b, Inr ())"
| "credit_all dec b ((a, v) # ds) =
     (let (b', r) = AddToBalance dec b a v in
      if is_panic r then (b', r) else credit_all dec b' ds)"

definition burn_deltas :: "(byte list \<Rightarrow> string) \<Rightarrow> (string \<Rightarrow> byte list) \<Rightarrow> (string \<Rightarrow> 't res) \<Rightarrow>
    ('t \<Rightarrow> FactoidTransaction res) \<Rightarrow> string \<Rightarrow> string list \<Rightarrow> (string \<times> int) list res" where
  "burn_deltas enc dec get_tx json_tx network txids =
     res_fold (\<lambda>ds txid. rbind (get_tx txid) (\<lambda>t. rbind (json_tx t) (burn_tx enc dec network ds))) [] txids"

definition burn_block :: "(byte list \<Rightarrow> string) \<Rightarrow> (string \<Rightarrow> byte list) \<Rightarrow> (int \<Rightarrow> string list option res) \<Rightarrow>
    (string \<Rightarrow> 't res) \<Rightarrow> ('t \<Rightarrow> FactoidTransaction res) \<Rightarrow>
    ((string \<times> int) list \<Rightarrow> (string \<times> int) list) \<Rightarrow> string \<Rightarrow> int \<Rightarrow> BurnTracking \<Rightarrow>
    BurnTracking \<times> unit res" where
  "burn_block enc dec get_fblock get_tx json_tx order network i b =
     (case rbind (get_fblock i) (\<lambda>fc. case fc of
         None \<Rightarrow> Inl (GoError ''fblock is nil'')
       | Some txids \<Rightarrow> burn_deltas enc dec get_tx json_tx network txids) of
        Inl e \<Rightarrow> (b, Inl e)
      | Inr deltas \<Rightarrow>
         (let (t, r) = credit_all dec (Tracker b) (order deltas) in
          case r of Inl e \<Rightarrow> (b\<lparr>Tracker := t\<rparr>, Inl e)
          | Inr _ \<Rightarrow> (b\<lparr>Tracker := t, FctDbht := i\<rparr>, Inr ())))"

fun burn_blocks :: "(int \<Rightarrow> BurnTracking \<Rightarrow> BurnTracking \<times> unit res) \<Rightarrow> int list \<Rightarrow> BurnTracking \<Rightarrow>
    BurnTracking \<times> unit res" where
  "burn_blocks block [] b = (b, Inr ())"
| "burn_blocks block (i # is) b =
     (let (b', r) = block i b in case r of Inl e \<Rightarrow> (b', Inl e) | Inr _ \<Rightarrow> burn_blocks block is b')"

text \<open>
  \<open>network\<close> is what the configuration gives, \<open>heights\<close> the directory block height of factomd. The
  loop runs over the heights above \<open>FctDbht\<close> and below the directory block.
\<close>

definition UpdateBurns :: "(byte list \<Rightarrow> string) \<Rightarrow> (string \<Rightarrow> byte list) \<Rightarrow>
    (int \<Rightarrow> string list option res) \<Rightarrow> (string \<Rightarrow> 't res) \<Rightarrow> ('t \<Rightarrow> FactoidTransaction res) \<Rightarrow>
    ((string \<times> int) list \<Rightarrow> (string \<times> int) list) \<Rightarrow> string res \<Rightarrow> int res \<Rightarrow> BurnTracking \<Rightarrow> int \<Rightarrow>
    BurnTracking \<times> unit res" where
  "UpdateBurns enc dec get_fblock get_tx json_tx order network heights b startBlock =
     (case network of
        Inl e \<Rightarrow> (b, Inl (Panic ''cannot find the network designation for updating burn txs''))
      | Inr net \<Rightarrow>
         (let b1 = (if FctDbht b = 0 then b\<lparr>FctDbht := startBlock\<rparr> else b) in
          case heights of
            Inl e \<Rightarrow> (b1, Inl e)
          | Inr height \<Rightarrow> burn_blocks (burn_block enc dec get_fblock get_tx json_tx order net)
              [FctDbht b1 + 1..height - 1] b1))"

section \<open>What a block burns\<close>

text \<open>
  The payment a transaction asks for, and those of a block, over unbounded integers and one by one:
  what the map of a block and its 64-bit sums are meant to compute.
\<close>

definition payment :: "(byte list \<Rightarrow> string) \<Rightarrow> (string \<Rightarrow> byte list) \<Rightarrow> string \<Rightarrow>
    FactoidTransaction \<Rightarrow> (string \<times> int) list" where
  "payment enc dec network tx =
     (if is_burn network tx \<and> Outputs tx = [] \<and> length (Inputs tx) = 1 then
        (case ConvertFCTtoPegNetAsset enc dec network ''FCT'' (Useraddress (Inputs tx ! 0)) of
           Inl _ \<Rightarrow> []
         | Inr a \<Rightarrow>
             (if network = MainNetwork then [(a, Amount (Inputs tx ! 0))]
              else if network = TestNetwork then [(a, Amount (Inputs tx ! 0) * 1000)] else []))
      else [])"

definition block_txs :: "(int \<Rightarrow> string list option res) \<Rightarrow> (string \<Rightarrow> 't res) \<Rightarrow>
    ('t \<Rightarrow> FactoidTransaction res) \<Rightarrow> int \<Rightarrow> FactoidTransaction list" where
  "block_txs get_fblock get_tx json_tx i = (case get_fblock i of
     Inr (Some txids) \<Rightarrow> concat (map (\<lambda>txid. case rbind (get_tx txid) json_tx of
       Inl _ \<Rightarrow> [] | Inr tx \<Rightarrow> [tx]) txids)
   | _ \<Rightarrow> [])"

definition block_payments :: "(byte list \<Rightarrow> string) \<Rightarrow> (string \<Rightarrow> byte list) \<Rightarrow>
    (int \<Rightarrow> string list option res) \<Rightarrow> (string \<Rightarrow> 't res) \<Rightarrow> ('t \<Rightarrow> FactoidTransaction res) \<Rightarrow>
    string \<Rightarrow> int \<Rightarrow> (string \<times> int) list" where
  "block_payments enc dec get_fblock get_tx json_tx network i =
     concat (map (payment enc dec network) (block_txs get_fblock get_tx json_tx i))"

text \<open>What payments add to an account, and all they add.\<close>

definition credited :: "(string \<Rightarrow> byte list) \<Rightarrow> (string \<times> int) list \<Rightarrow> string \<times> byte list \<Rightarrow> int" where
  "credited dec ps k = (\<Sum>(a, v) \<leftarrow> ps. if ConvertAddress dec a = Inr k then v else 0)"

definition total :: "(string \<times> int) list \<Rightarrow> int" where
  "total ps = sum_list (map snd ps)"

lemma total_simps [simp]:
  "total [] = 0" "total ((a, v) # ps) = v + total ps" "total (ps @ qs) = total ps + total qs"
  by (simp_all add: total_def)

lemma credited_simps [simp]:
  "credited dec [] k = 0"
  "credited dec ((a, v) # ps) k = (if ConvertAddress dec a = Inr k then v else 0) + credited dec ps k"
  "credited dec (ps @ qs) k = credited dec ps k + credited dec qs k"
  by (simp_all add: credited_def)

lemma credited_paid: "credited dec = ledger.paid (ConvertAddress dec)"
  by (simp add: fun_eq_iff credited_def bt.paid_def)

definition nonneg :: "(string \<times> int) list \<Rightarrow> bool" where
  "nonneg ps \<longleftrightarrow> (\<forall>(a, v) \<in> set ps. 0 \<le> v)"

lemma nonneg_simps [simp]:
  "nonneg []" "nonneg ((a, v) # ps) \<longleftrightarrow> 0 \<le> v \<and> nonneg ps" "nonneg (ps @ qs) \<longleftrightarrow> nonneg ps \<and> nonneg qs"
  by (auto simp: nonneg_def)

lemma total_nonneg: "nonneg ps \<Longrightarrow> 0 \<le> total ps"
  by (induction ps) auto

lemma total_member: "nonneg ps \<Longrightarrow> (a, v) \<in> set ps \<Longrightarrow> 0 \<le> v \<and> v \<le> total ps"
  using total_nonneg by (induction ps) (fastforce simp: nonneg_def)+

lemma credited_le_total: "nonneg ps \<Longrightarrow> 0 \<le> credited dec ps k \<and> credited dec ps k \<le> total ps"
  by (induction ps) auto

lemma update_sums:
  assumes "p' = (case map_of ds a of None \<Rightarrow> 0 | Some x \<Rightarrow> x) + v"
  shows "total (AList.update a p' ds) = total ds + v
    \<and> credited dec (AList.update a p' ds) k = credited dec ds k + (if ConvertAddress dec a = Inr k then v else 0)"
  using assms by (induction ds) auto

lemma nonneg_update: "nonneg ds \<Longrightarrow> 0 \<le> v \<Longrightarrow> nonneg (AList.update a v ds)"
  by (induction ds) auto

lemma add_delta_sums:
  assumes "nonneg ds" "0 \<le> v" "total ds + v < 2 ^ 63"
  shows "nonneg (add_delta a v ds) \<and> total (add_delta a v ds) = total ds + v
    \<and> credited dec (add_delta a v ds) k = credited dec ds k + (if ConvertAddress dec a = Inr k then v else 0)
    \<and> fst ` set (add_delta a v ds) = insert a (fst ` set ds)"
proof -
  let ?prev = "case map_of ds a of None \<Rightarrow> 0 | Some x \<Rightarrow> x"
  have "0 \<le> ?prev \<and> ?prev \<le> total ds"
    using total_member [OF assms(1), of a] total_nonneg [OF assms(1)] map_of_SomeD [of ds a]
    by (auto split: option.splits)
  moreover from this have w: "wrap64 (?prev + v) = ?prev + v" using assms by (intro wrap64_id) auto
  ultimately show ?thesis
    using update_sums [OF refl, of a ds v dec k] nonneg_update [OF assms(1), of "?prev + v" a] assms(2)
    by (simp add: add_delta_def w AList.dom_update)
qed

section \<open>A block credits what it burns\<close>

text \<open>The hypotheses: a base58 coder, one of the two networks, amounts that are not negative.\<close>

definition amounts_ok :: "FactoidTransaction \<Rightarrow> bool" where
  "amounts_ok tx \<longleftrightarrow> (\<forall>x \<in> set (Inputs tx). 0 \<le> Amount x)"

lemma payment_nonneg: "amounts_ok tx \<Longrightarrow> nonneg (payment enc dec network tx)"
  by (auto simp: payment_def amounts_ok_def split: sum.splits)

lemma burn_tx_sums:
  assumes "burn_tx enc dec network ds tx = Inr ds'" "amounts_ok tx" "nonneg ds"
    and "total ds + total (payment enc dec network tx) < 2 ^ 63"
  shows "nonneg ds' \<and> total ds' = total ds + total (payment enc dec network tx)
    \<and> credited dec ds' k = credited dec ds k + credited dec (payment enc dec network tx) k
    \<and> fst ` set ds' = fst ` set ds \<union> fst ` set (payment enc dec network tx)"
proof (cases "payment enc dec network tx")
  case Nil
  then have "ds' = ds"
    using assms(1) by (auto simp: burn_tx_def payment_def res_simps not_less le_Suc_eq Suc_le_eq
        split: if_splits)
  with Nil assms(3) show ?thesis by simp
next
  case (Cons q qs)
  then have b: "is_burn network tx" "Outputs tx = []" "length (Inputs tx) = 1"
    by (auto simp: payment_def split: if_splits)
  obtain a v where p: "payment enc dec network tx = [(a, v)]"
    using Cons by (auto simp: payment_def split: if_splits sum.splits)
  then have v: "0 \<le> v" using payment_nonneg [OF assms(2), of enc dec network] by simp
  have "v < 2 ^ 63" using assms(3,4) p total_nonneg [of ds] by simp
  with v have "wrap64 v = v" by (intro wrap64_id) auto
  then have "ds' = add_delta a v ds"
    using assms(1) b p by (auto simp: burn_tx_def payment_def res_simps split: if_splits sum.splits)
  with add_delta_sums [OF assms(3) v, of a dec k] assms(4) p show ?thesis by simp
qed

lemma burn_deltas_sums:
  assumes "res_fold (\<lambda>ds txid. rbind (get_tx txid) (\<lambda>t. rbind (json_tx t) (burn_tx enc dec network ds)))
      ds txids = Inr ds'"
    and "txs = concat (map (\<lambda>txid. case rbind (get_tx txid) json_tx of Inl _ \<Rightarrow> [] | Inr tx \<Rightarrow> [tx]) txids)"
    and "ps = concat (map (payment enc dec network) txs)"
    and "\<forall>tx \<in> set txs. amounts_ok tx" "nonneg ds" "total ds + total ps < 2 ^ 63"
  shows "nonneg ds' \<and> total ds' = total ds + total ps
    \<and> credited dec ds' k = credited dec ds k + credited dec ps k \<and> fst ` set ds' = fst ` set ds \<union> fst ` set ps"
  using assms
proof (induction txids arbitrary: ds txs ps)
  case (Cons id ids)
  let ?txs = "concat (map (\<lambda>txid. case rbind (get_tx txid) json_tx of Inl _ \<Rightarrow> [] | Inr tx \<Rightarrow> [tx]) ids)"
  let ?ps = "concat (map (payment enc dec network) ?txs)"
  from Cons.prems(1) obtain t tx ds1 where t: "get_tx id = Inr t" "json_tx t = Inr tx"
    "burn_tx enc dec network ds tx = Inr ds1"
    "res_fold (\<lambda>ds txid. rbind (get_tx txid) (\<lambda>t. rbind (json_tx t) (burn_tx enc dec network ds)))
      ds1 ids = Inr ds'"
    by (auto simp: res_simps)
  then have txs: "txs = tx # ?txs" and ps: "ps = payment enc dec network tx @ ?ps"
    using Cons.prems(2,3) by auto
  have ok: "amounts_ok tx" "\<forall>tx \<in> set ?txs. amounts_ok tx" using Cons.prems(4) txs by auto
  have "nonneg (concat (map (payment enc dec network) txs))" if "\<forall>tx \<in> set txs. amounts_ok tx" for txs
    using that by (induction txs) (simp_all add: payment_nonneg)
  with ok(2) have "nonneg ?ps" by blast
  then have "0 \<le> total ?ps" by (rule total_nonneg)
  then have le: "total ds + total (payment enc dec network tx) < 2 ^ 63"
    using Cons.prems(6) ps by simp
  note b = burn_tx_sums [OF t(3) ok(1) Cons.prems(5) le, of k]
  then have "total ds1 + total ?ps < 2 ^ 63" using Cons.prems(6) ps by simp
  from Cons.IH [OF t(4) refl refl ok(2) _ this] b show ?case
    unfolding ps by (simp add: image_Un Un_assoc del: set_concat set_map)
qed simp

lemma ConvertAddress_no_panic:
  assumes "base58_coder enc dec" "ConvertRawToPegNetAsset enc p raw = Inr a"
  shows "\<not> is_panic (ConvertAddress dec a)"
proof -
  have p: "CheckPrefix p" and a: "a = p @ CHR ''_'' # enc (raw @ asset_checksum p raw)"
    using assms(2) by (auto simp: ConvertRawToPegNetAsset_def res_simps)
  have g: "GetPrefix a = (int (length p), p)"
    unfolding a using CheckPrefix_no_underscore [OF p] by (rule GetPrefix_prefix)
  have "nat (int (length p) + 1) = Suc (length p)" by simp
  then have d: "drop (nat (int (length p) + 1)) a = enc (raw @ asset_checksum p raw)" by (simp add: a)
  show ?thesis
    unfolding ConvertAddress_def ConvertPegNetAssetToRaw_def g d Let_def prod.case
      base58_coder.dec_enc [OF assms(1)]
    by (simp add: guard_res_def)
qed

lemma payment_no_panic:
  assumes "base58_coder enc dec" "(a, v) \<in> set (payment enc dec network tx)"
  shows "\<not> is_panic (ConvertAddress dec a)"
proof -
  have "payment enc dec network tx = [] \<or> (\<exists>b w. payment enc dec network tx = [(b, w)]
      \<and> ConvertFCTtoPegNetAsset enc dec network ''FCT'' (Useraddress (Inputs tx ! 0)) = Inr b
      \<and> (network = MainNetwork \<or> network = TestNetwork))"
    by (simp add: payment_def split: sum.split)
  then have "ConvertFCTtoPegNetAsset enc dec network ''FCT'' (Useraddress (Inputs tx ! 0)) = Inr a"
    "network = MainNetwork \<or> network = TestNetwork" using assms(2) by auto
  then obtain p raw where "ConvertRawToPegNetAsset enc p raw = Inr a"
    unfolding ConvertFCTtoPegNetAsset_def rbind_Inr_iff by (elim disjE) auto
  then show ?thesis by (rule ConvertAddress_no_panic [OF assms(1)])
qed

lemma AddToBalance_panic:
  "is_panic (snd (AddToBalance dec b a v)) \<longleftrightarrow> is_panic (ConvertAddress dec a)"
proof (cases "ConvertAddress dec a")
  case (Inl e)
  then show ?thesis by (cases e) (simp_all add: AddToBalance_def)
qed (auto simp: AddToBalance_def Let_def split: if_splits)

lemma credit_all_foldl:
  "\<forall>(a, v) \<in> set ds. \<not> is_panic (ConvertAddress dec a) \<Longrightarrow>
     credit_all dec b ds = (foldl (\<lambda>b (a, v). fst (AddToBalance dec b a v)) b ds, Inr ())"
proof (induction ds arbitrary: b)
  case (Cons d ds)
  obtain a v where d: "d = (a, v)" by fastforce
  then have "\<not> is_panic (snd (AddToBalance dec b a v))" using Cons.prems by (simp add: AddToBalance_panic)
  moreover obtain b' r where "AddToBalance dec b a v = (b', r)" by fastforce
  ultimately show ?case using Cons d by simp
qed simp

lemma burn_block_once:
  assumes coder: "base58_coder enc dec" and order: "\<And>ds. mset (order ds) = mset ds"
    and "balances_ok (Tracker b)" and amounts: "\<forall>tx \<in> set (block_txs get_fblock get_tx json_tx i). amounts_ok tx"
    and ps: "ps = block_payments enc dec get_fblock get_tx json_tx network i"
    and small: "\<forall>k. lookup_balance (Tracker b) k + total ps < 2 ^ 63"
    and run: "burn_block enc dec get_fblock get_tx json_tx order network i b = (b', r)"
  shows "(r = Inr () \<and> FctDbht b' = i \<and> balances_ok (Tracker b')
      \<and> lookup_balance (Tracker b') = (\<lambda>k. lookup_balance (Tracker b) k + credited dec ps k))
    \<or> (\<exists>e. r = Inl e) \<and> b' = b"
proof -
  define res where "res = rbind (get_fblock i) (\<lambda>fc. case fc of
         None \<Rightarrow> Inl (GoError ''fblock is nil'')
       | Some txids \<Rightarrow> burn_deltas enc dec get_tx json_tx network txids)"
  note run = run [unfolded burn_block_def, folded res_def]
  show ?thesis
  proof (cases res)
    case (Inl e)
    with run show ?thesis by auto
  next
    case (Inr ds)
    then obtain txids where f: "get_fblock i = Inr (Some txids)"
      "burn_deltas enc dec get_tx json_tx network txids = Inr ds"
      by (auto simp: res_def res_simps split: option.splits)
    have b0: "0 \<le> lookup_balance (Tracker b) k" for k
      using assms(3) by (simp add: balances_ok_def del: split_paired_All)
    have "total ps < 2 ^ 63" using b0 [of undefined] spec [OF small, of undefined] by linarith
    then have ds: "nonneg ds" "total ds = total ps" "credited dec ds k = credited dec ps k"
      "fst ` set ds = fst ` set ps" for k
      using burn_deltas_sums [OF f(2) [unfolded burn_deltas_def] refl refl, where k = k] amounts
      by (simp_all add: ps block_payments_def block_txs_def f(1) del: set_concat set_map)
    have mem: "set (order ds) = set ds" using order [of ds] by (metis set_mset_mset)
    have "\<not> is_panic (ConvertAddress dec a)" if "(a, v) \<in> set ds" for a v
    proof -
      have "a \<in> fst ` set ps" using that unfolding ds(4) [symmetric] by force
      then show ?thesis using payment_no_panic [OF coder] by (auto simp: ps block_payments_def)
    qed
    then have all: "credit_all dec (Tracker b) (order ds)
        = (foldl (\<lambda>b (a, v). fst (AddToBalance dec b a v)) (Tracker b) (order ds), Inr ())"
      using mem by (intro credit_all_foldl) auto
    have "v \<le> total ps" "0 \<le> v" if "(a, v) \<in> set ds" for a v
      using total_member [OF ds(1) that] ds(2) by simp_all
    then have bounds: "\<forall>(a, v) \<in> set (order ds). 0 \<le> v \<and> v < 2 ^ 63"
      using mem \<open>total ps < 2 ^ 63\<close> by fastforce
    have paid: "ledger.paid (ConvertAddress dec) (order ds) k = credited dec ps k" for k
      using bt.paid_perm [OF order [of ds]] ds(3) [of k] by (simp add: credited_paid)
    have "\<forall>k. lookup_balance (Tracker b) k + ledger.paid (ConvertAddress dec) (order ds) k < 2 ^ 63"
    proof
      fix k
      have "credited dec ps k \<le> total ps" using credited_le_total [OF ds(1), of dec k] ds(2,3) by simp
      then show "lookup_balance (Tracker b) k + ledger.paid (ConvertAddress dec) (order ds) k < 2 ^ 63"
        using spec [OF small, of k] by (simp add: paid)
    qed
    from bt.payments_exact [OF assms(3) bounds this] Inr run show ?thesis
      by (auto simp: all paid)
  qed
qed

lemma block_payments_nonneg:
  assumes "\<forall>tx \<in> set (block_txs get_fblock get_tx json_tx i). amounts_ok tx"
  shows "nonneg (block_payments enc dec get_fblock get_tx json_tx network i)"
proof -
  have "nonneg (concat (map (payment enc dec network) txs))" if "\<forall>tx \<in> set txs. amounts_ok tx" for txs
    using that by (induction txs) (simp_all add: payment_nonneg)
  with assms show ?thesis by (simp add: block_payments_def)
qed

lemma burn_blocks_once:
  assumes "base58_coder enc dec" "\<And>ds. mset (order ds) = mset ds"
    and "\<forall>i. \<forall>tx \<in> set (block_txs get_fblock get_tx json_tx i). amounts_ok tx"
    and ps: "ps = block_payments enc dec get_fblock get_tx json_tx network"
    and "balances_ok (Tracker b)"
    and "\<forall>k. lookup_balance (Tracker b) k + (\<Sum>i \<in> {FctDbht b<..FctDbht b + int n}. total (ps i)) < 2 ^ 63"
    and "burn_blocks (burn_block enc dec get_fblock get_tx json_tx order network)
      [FctDbht b + 1..FctDbht b + int n] b = (b', r)"
  shows "FctDbht b \<le> FctDbht b' \<and> FctDbht b' \<le> FctDbht b + int n
    \<and> (r = Inr () \<longleftrightarrow> FctDbht b' = FctDbht b + int n) \<and> balances_ok (Tracker b')
    \<and> (\<forall>k. lookup_balance (Tracker b') k
        = lookup_balance (Tracker b) k + (\<Sum>i \<in> {FctDbht b<..FctDbht b'}. credited dec (ps i) k))"
  using assms(5-)
proof (induction n arbitrary: b)
  case (Suc n)
  let ?h = "FctDbht b" and ?block = "burn_block enc dec get_fblock get_tx json_tx order network"
  have range: "{?h<..?h + int (Suc n)} = insert (?h + 1) {?h + 1<..?h + 1 + int n}" by auto
  have nn: "nonneg (ps i)" for i using assms(3) by (simp add: ps block_payments_nonneg)
  have rest: "0 \<le> (\<Sum>i \<in> {?h + 1<..?h + 1 + int n}. total (ps i))" using nn by (intro sum_nonneg) (simp add: total_nonneg)
  have small: "lookup_balance (Tracker b) k + total (ps (?h + 1))
      + (\<Sum>i \<in> {?h + 1<..?h + 1 + int n}. total (ps i)) < 2 ^ 63" for k
    using spec [OF Suc.prems(2), of k] unfolding range by simp
  obtain b1 r1 where b1: "?block (?h + 1) b = (b1, r1)" by fastforce
  have "\<forall>k. lookup_balance (Tracker b) k + total (ps (?h + 1)) < 2 ^ 63"
  proof
    fix k show "lookup_balance (Tracker b) k + total (ps (?h + 1)) < 2 ^ 63"
      using small [of k] rest by linarith
  qed
  from burn_block_once [OF assms(1,2) Suc.prems(1) _ refl this [unfolded ps] b1] assms(3)
  consider (ok) "r1 = Inr ()" "FctDbht b1 = ?h + 1" "balances_ok (Tracker b1)"
      "lookup_balance (Tracker b1) = (\<lambda>k. lookup_balance (Tracker b) k + credited dec (ps (?h + 1)) k)"
    | (err) e where "r1 = Inl e" "b1 = b" unfolding ps by blast
  then show ?case
  proof cases
    case err
    then have "b' = b" "r = Inl e" using Suc.prems(3) b1 by (simp_all add: upto.simps [of "?h + 1"])
    then show ?thesis using Suc.prems(1) by simp
  next
    case ok
    have "\<forall>k. lookup_balance (Tracker b1) k
        + (\<Sum>i \<in> {FctDbht b1<..FctDbht b1 + int n}. total (ps i)) < 2 ^ 63"
    proof
      fix k show "lookup_balance (Tracker b1) k
          + (\<Sum>i \<in> {FctDbht b1<..FctDbht b1 + int n}. total (ps i)) < 2 ^ 63"
        using small [of k] credited_le_total [OF nn [of "?h + 1"], of dec k] unfolding ok(2,4) by linarith
    qed
    moreover have "burn_blocks ?block [FctDbht b1 + 1..FctDbht b1 + int n] b1 = (b', r)"
    proof -
      have "[?h + 1..?h + int (Suc n)] = (?h + 1) # [?h + 1 + 1..?h + 1 + int n]"
        by (subst upto.simps) (simp add: algebra_simps)
      then show ?thesis using Suc.prems(3) b1 ok(1,2) by simp
    qed
    ultimately have ih: "FctDbht b1 \<le> FctDbht b' \<and> FctDbht b' \<le> FctDbht b1 + int n
      \<and> (r = Inr () \<longleftrightarrow> FctDbht b' = FctDbht b1 + int n) \<and> balances_ok (Tracker b')
      \<and> (\<forall>k. lookup_balance (Tracker b') k
        = lookup_balance (Tracker b1) k + (\<Sum>i \<in> {FctDbht b1<..FctDbht b'}. credited dec (ps i) k))"
      using ok(3) by (intro Suc.IH)
    then have "{?h<..FctDbht b'} = insert (?h + 1) {?h + 1<..FctDbht b'}" using ok(2) by auto
    with ih show ?thesis by (simp add: ok(2,4) algebra_simps)
  qed
qed simp

text \<open>
  C27. However a call ends, it has credited every burn of the blocks after the height it started from
  and up to the height it reached, each once and with its exact amount, and nothing else, so that the
  next call takes up where this one stopped. Without an error it reaches the last block below the
  directory block. The order in which the payments of a block are visited does not matter. This holds
  as long as everything burned still fits into a balance.
\<close>

theorem burns_once:
  fixes get_fblock :: "int \<Rightarrow> string list option res" and get_tx :: "string \<Rightarrow> 't res" and b :: BurnTracking
    and startBlock :: int
  defines "h \<equiv> (if FctDbht b = 0 then startBlock else FctDbht b)"
  assumes "base58_coder enc dec" "\<And>ds. mset (order ds) = mset ds"
    and "\<forall>i. \<forall>tx \<in> set (block_txs get_fblock get_tx json_tx i). amounts_ok tx"
    and "balances_ok (Tracker b)"
    and "\<forall>k. lookup_balance (Tracker b) k
      + (\<Sum>i \<in> {h<..<height}. total (block_payments enc dec get_fblock get_tx json_tx network i)) < 2 ^ 63"
  shows "case UpdateBurns enc dec get_fblock get_tx json_tx order (Inr network) (Inr height) b startBlock of
    (b', r) \<Rightarrow> h \<le> FctDbht b' \<and> FctDbht b' \<le> max h (height - 1) \<and> (r = Inr () \<longleftrightarrow> FctDbht b' = max h (height - 1))
      \<and> (\<forall>k. lookup_balance (Tracker b') k = lookup_balance (Tracker b) k
          + (\<Sum>i \<in> {h<..FctDbht b'}. credited dec (block_payments enc dec get_fblock get_tx json_tx network i) k))"
proof -
  define n where "n = nat (height - 1 - h)"
  let ?b = "b\<lparr>FctDbht := h\<rparr>"
  have height: "max h (height - 1) = h + int n" "{h<..<height} = {h<..h + int n}" by (auto simp: n_def)
  obtain b' r where run: "UpdateBurns enc dec get_fblock get_tx json_tx order (Inr network) (Inr height) b startBlock
      = (b', r)" by fastforce
  have "[h + 1..height - 1] = [h + 1..h + int n]" by (auto simp: n_def)
  then have "burn_blocks (burn_block enc dec get_fblock get_tx json_tx order network)
      [FctDbht ?b + 1..FctDbht ?b + int n] ?b = (b', r)"
    using run by (simp add: UpdateBurns_def h_def split: if_splits)
  from burn_blocks_once [OF assms(2-4) refl _ _ this] assms(5,6) show ?thesis
    unfolding run prod.case height by simp
qed

definition sample_burn :: FactoidTransaction where
  "sample_burn = \<lparr>Millitimestamp = 0,
     Inputs = [\<lparr>Amount = 5, TxAddress = [], Useraddress = ConvertRawToFCT Base58Encode (replicate 32 1)\<rparr>],
     Outputs = [], Outecs = [\<lparr>Amount = 0, TxAddress = [], Useraddress = BurnAddresses MainNetwork\<rparr>],
     Rcds = [], Sigblocks = [], Blockheight = 0\<rparr>"

text \<open>The fourth block cannot be read.\<close>

definition sample_fblock :: "int \<Rightarrow> string list option res" where
  "sample_fblock i = (if i = 4 then Inl (GoError ''not found'') else Inr (Some [''a'', ''b'']))"

lemma sample_burn_total:
  "total (block_payments enc dec sample_fblock Inr (\<lambda>_. Inr sample_burn) MainNetwork i) \<le> 10"
proof -
  have "block_txs sample_fblock Inr (\<lambda>_. Inr sample_burn) i = (if i = 4 then [] else [sample_burn, sample_burn])"
    by (simp add: block_txs_def sample_fblock_def)
  moreover have "total (payment enc dec MainNetwork sample_burn) \<le> 5"
    by (simp add: payment_def sample_burn_def split: sum.split)
  ultimately show ?thesis by (simp add: block_payments_def)
qed

theorem burns_once_witness:
  "case UpdateBurns Base58Encode Base58Decode sample_fblock Inr (\<lambda>_. Inr sample_burn) rev
      (Inr MainNetwork) (Inr 9) (NewBurnTracking NewBalanceTracker) 1 of
    (b', r) \<Rightarrow> 1 \<le> FctDbht b' \<and> FctDbht b' \<le> max 1 (9 - 1) \<and> (r = Inr () \<longleftrightarrow> FctDbht b' = max 1 (9 - 1))
      \<and> (\<forall>k. lookup_balance (Tracker b') k = lookup_balance NewBalanceTracker k
          + (\<Sum>i \<in> {1<..FctDbht b'}. credited Base58Decode
              (block_payments Base58Encode Base58Decode sample_fblock Inr (\<lambda>_. Inr sample_burn) MainNetwork i) k))"
proof -
  let ?ps = "\<lambda>i. total (block_payments Base58Encode Base58Decode sample_fblock Inr
    (\<lambda>_. Inr sample_burn) MainNetwork i)"
  have "sum ?ps {1<..<9} \<le> (\<Sum>i \<in> {1<..<9 :: int}. 10)" by (rule sum_mono) (rule sample_burn_total)
  then have "sum ?ps {1<..<9} < 2 ^ 63" by simp
  moreover have "\<forall>tx \<in> set (block_txs sample_fblock Inr (\<lambda>_. Inr sample_burn) i). amounts_ok tx" for i
    by (auto simp: block_txs_def sample_fblock_def sample_burn_def amounts_ok_def)
  ultimately show ?thesis
    using burns_once [where b = "NewBurnTracking NewBalanceTracker" and order = rev and startBlock = 1
        and height = 9 and network = MainNetwork and get_tx = Inr and get_fblock = sample_fblock,
        OF b58.base58_coder_axioms, of "\<lambda>_. Inr sample_burn"]
    by (simp add: NewBurnTracking_def del: split_paired_All)
qed

end
