(* ===== verification/QuickGrader.thy ===== *)
theory QuickGrader
  imports BlockStore BlockSync Burns
begin

text \<open>
  The grader of the miner: opr/grader.go. It follows the chain of mining records, turns each entry
  block into a graded block (or finds that it has too few records for one), stores it, pays its
  winners and tells its listeners.

  Third-party code and the network are arguments, in two records: \<open>codecs\<close> for what never changes (the
  decoders, the base58 coder, the LX hash, the database), \<open>factomd\<close> for one state of the network. The
  workers that fetch entries deliver their answers in an order the scheduler chooses; it is part of the
  state of the network. A fatal log line ends the process, as a panic does.
\<close>

section \<open>The environment\<close>

record OPRWorkResponse =
  order :: nat
  opr :: "OraclePriceRecord option"
  err :: "go_error option"

record 'd codecs =
  B58enc :: "byte list \<Rightarrow> string"
  B58dec :: "string \<Rightarrow> byte list"
  Oob :: "f64 \<Rightarrow> u64"
  JsonDecode :: "byte list \<Rightarrow> OraclePriceRecord \<Rightarrow> (OraclePriceRecord \<times> (string \<times> f64) list option) res"
  PUnmarshal :: "byte list \<Rightarrow> ProtoOPR res"
  IsValidAddress :: "string \<Rightarrow> bool"
  LX :: "byte list \<Rightarrow> byte list"
  EntryHashOf :: "FactomEntry \<Rightarrow> byte list"
  ConfigNetwork :: string
  DbPut :: "'d \<Rightarrow> nat \<Rightarrow> byte list \<Rightarrow> OPRBlockDatabaseObject \<Rightarrow> 'd \<times> unit res"
  DbGet :: "'d \<Rightarrow> nat \<Rightarrow> byte list \<Rightarrow> OPRBlockDatabaseObject res"

record factomd =
  GetChainHead :: "string \<Rightarrow> string res"
  GetEBlock :: "string \<Rightarrow> EBlock res"
  GetEntry :: "string \<Rightarrow> FactomEntry res"
  Arrival :: "OPRWorkResponse list \<Rightarrow> OPRWorkResponse list"

record 'd QuickGrader =
  GraderNetwork :: string
  GraderProtocol :: string
  OPRChain :: EntryBlockSync
  GraderBalances :: BalanceTracker
  oprBlks :: "OprBlock list"
  GraderStore :: 'd

definition NewQuickGrader :: "string \<Rightarrow> string \<Rightarrow> 'd \<Rightarrow> BalanceTracker \<Rightarrow> 'd QuickGrader" where
  "NewQuickGrader network protocol db balances =
     \<lparr>GraderNetwork = network, GraderProtocol = protocol,
      OPRChain = NewEntryBlockSync (hexEncode (ComputeChainIDFromFields
        [bytes_of_string protocol, bytes_of_string network, bytes_of_string ''OraclePriceRecords''])),
      GraderBalances = balances, oprBlks = [], GraderStore = db\<rparr>"

section \<open>Blocks by height\<close>

definition MinRecords :: "string \<Rightarrow> int \<Rightarrow> nat res" where
  "MinRecords network dbht =
     rbind (OPRVersion network dbht) (\<lambda>v.
       if v = 1 then Inr 10
       else if v = 2 \<or> v = 3 \<or> v = 4 \<or> v = 5 then Inr 25
       else Inl (Panic ''didn't get a valid opr version''))"

definition GetPreviousOPRBlock :: "'d QuickGrader \<Rightarrow> 32 word \<Rightarrow> OprBlock option" where
  "GetPreviousOPRBlock g dbht = List.find (\<lambda>b. BlockDbht b < sint dbht) (rev (oprBlks g))"

definition GetPreviousOPRs :: "'d QuickGrader \<Rightarrow> 32 word \<Rightarrow> OraclePriceRecord list" where
  "GetPreviousOPRs g dbht = (case GetPreviousOPRBlock g dbht of None \<Rightarrow> [] | Some b \<Rightarrow> BlockOPRs b)"

definition GetFirstOPRBlock :: "'d QuickGrader \<Rightarrow> OprBlock option" where
  "GetFirstOPRBlock g = (case oprBlks g of [] \<Rightarrow> None | b # _ \<Rightarrow> Some b)"

definition take_slice :: "nat \<Rightarrow> 'a list \<Rightarrow> 'a list res" where
  "take_slice n xs = guard_res (length xs < n) (Panic ''slice bounds out of range'') (Inr (take n xs))"

text \<open>The winners of the block before a height; \<open>None\<close> is the nil slice of the first block.\<close>

definition GetPreviousWinners :: "'d QuickGrader \<Rightarrow> 32 word \<Rightarrow> OraclePriceRecord list option res" where
  "GetPreviousWinners g dbht = (case GetPreviousOPRBlock g dbht of
     None \<Rightarrow> Inr None
   | Some prev \<Rightarrow> rbind (MinRecords (GraderNetwork g) (BlockDbht prev)) (\<lambda>amt.
       rbind (take_slice amt (GradedOPRs prev)) (\<lambda>ws. Inr (Some ws))))"

definition OprBlockByHeight :: "'d QuickGrader \<Rightarrow> int \<Rightarrow> OprBlock option" where
  "OprBlockByHeight g dbht = List.find (\<lambda>b. BlockDbht b = dbht) (oprBlks g)"

definition OprsByDigitalID :: "'d QuickGrader \<Rightarrow> string \<Rightarrow> OraclePriceRecord list" where
  "OprsByDigitalID g did = concat (map (\<lambda>b. filter (\<lambda>r. FactomDigitalID r = did) (BlockOPRs b)) (oprBlks g))"

text \<open>The record that is found, or the record of zero values.\<close>

definition zero_record :: OraclePriceRecord where
  "zero_record = NewOraclePriceRecord\<lparr>Assets := None\<rparr>"

definition OprByHash :: "'d QuickGrader \<Rightarrow> string \<Rightarrow> OraclePriceRecord" where
  "OprByHash g hash = (case List.find (\<lambda>r. hash = hexEncode (EntryHash r)) (concat (map BlockOPRs (oprBlks g))) of
     None \<Rightarrow> zero_record | Some r \<Rightarrow> r)"

text \<open>Up to the first record that matches or is too short to be sliced.\<close>

definition OprByShortHash :: "'d QuickGrader \<Rightarrow> string \<Rightarrow> OraclePriceRecord res" where
  "OprByShortHash g shorthash =
     (let hashBytes = (case hexDecode shorthash of Inl _ \<Rightarrow> [] | Inr bs \<Rightarrow> bs) in
      case List.find (\<lambda>r. length (EntryHash r) < 8 \<or> hashBytes = take 8 (EntryHash r))
          (concat (map BlockOPRs (oprBlks g))) of
        None \<Rightarrow> Inr zero_record
      | Some r \<Rightarrow> guard_res (length (EntryHash r) < 8) (Panic ''slice bounds out of range'') (Inr r))"

section \<open>Parsing entries\<close>

text \<open>An error means that the entry is not a record; a panic is not an error.\<close>

definition or_none :: "'a res \<Rightarrow> ('a \<Rightarrow> 'b option res) \<Rightarrow> 'b option res" where
  "or_none r f = (case r of Inl (Panic m) \<Rightarrow> Inl (Panic m) | Inl _ \<Rightarrow> Inr None | Inr x \<Rightarrow> f x)"

definition ParseOPREntry ::
  "'d codecs \<Rightarrow> 'd QuickGrader \<Rightarrow> FactomEntry \<Rightarrow> int \<Rightarrow> OraclePriceRecord option res" where
  "ParseOPREntry c g entry height =
     (if length (ExtIDs entry) \<noteq> 3 then Inr None
      else if length (ExtIDs entry ! 2) \<noteq> 1 then Inr None
      else or_none (SafeUnmarshal (Oob c) (JsonDecode c) (PUnmarshal c) (Content entry)
          (NewOraclePriceRecord\<lparr>Version := ExtIDs entry ! 2 ! 0\<rparr>)) (\<lambda>r.
        or_none (ConvertFCTtoPegNetAsset (B58enc c) (B58dec c) (GraderNetwork g) ''PEG'' (CoinbaseAddress r)) (\<lambda>a.
          rbind (ValidateOPR (IsValidAddress c) (ConfigNetwork c) height (r\<lparr>CoinbasePEGAddress := a\<rparr>)) (\<lambda>valid.
            if \<not> valid then Inr None
            else if length (ExtIDs entry ! 1) \<noteq> 8 then Inr None
            else Inr (Some (r\<lparr>CoinbasePEGAddress := a, EntryHash := EntryHashOf c entry,
                Nonce := ExtIDs entry ! 0, SelfReportedDifficulty := ExtIDs entry ! 1,
                OPRHash := sha256 (Content entry), Network := GraderNetwork g,
                Protocol := GraderProtocol g\<rparr>))))))"

section \<open>Fetching a block\<close>

text \<open>One job of a worker. Its errors are values of the answer; a panic ends the process.\<close>

definition fetchOPRWorker :: "'d codecs \<Rightarrow> factomd \<Rightarrow> 'd QuickGrader \<Rightarrow> OraclePriceRecord list option \<Rightarrow>
    int \<Rightarrow> bool \<Rightarrow> nat \<times> string \<Rightarrow> OPRWorkResponse res" where
  "fetchOPRWorker c f g prevWinners dbht enforceWinners job =
     (case GetEntry f (snd job) of
        Inl e \<Rightarrow> Inr \<lparr>order = fst job, opr = None, err = Some (GoError (''entry '' @ snd job @ '' : '' @ err_msg e))\<rparr>
      | Inr entry \<Rightarrow> (case ParseOPREntry c g entry dbht of
          Inl (Panic m) \<Rightarrow> Inl (Panic m)
        | Inl e \<Rightarrow> Inr \<lparr>order = fst job, opr = None, err = Some e\<rparr>
        | Inr None \<Rightarrow> Inr \<lparr>order = fst job, opr = None, err = None\<rparr>
        | Inr (Some r) \<Rightarrow>
            rbind (if enforceWinners then VerifyWinners r prevWinners else Inr True) (\<lambda>ok.
              Inr \<lparr>order = fst job, opr = (if ok then Some r else None), err = None\<rparr>)))"

text \<open>The collecting routine keeps the last error; the records are sorted back into their order.\<close>

definition ParallelFetchOPRsFromEBlock :: "'d codecs \<Rightarrow> factomd \<Rightarrow> 'd QuickGrader \<Rightarrow> EBlock \<Rightarrow> bool \<Rightarrow>
    (OraclePriceRecord list \<times> go_error option) res" where
  "ParallelFetchOPRsFromEBlock c f g block enforceWinners =
     rbind (GetPreviousWinners g (word_of_int (DBHeight block))) (\<lambda>prevWinners.
     rbind (res_map (fetchOPRWorker c f g prevWinners (DBHeight block) enforceWinners)
         (enumerate 0 (EntryList block))) (\<lambda>answers.
       (let collected = Arrival f answers;
            collectErr = foldl (\<lambda>e x. if err x \<noteq> None then err x else e) None collected;
            oprResponses = sort_stable (\<lambda>a b. order a < order b) (filter (\<lambda>x. opr x \<noteq> None) collected)
        in Inr (map (\<lambda>x. the (opr x)) oprResponses, collectErr))))"

text \<open>
  Records are pointers, so that grading shows in the list of all records too: the graded ones have
  their grades, and all that the selection has looked at their difficulties. The first record with a
  nonce and hash is the one that is graded.
\<close>

fun visited :: "(byte list \<Rightarrow> byte list) \<Rightarrow> nat \<Rightarrow> OraclePriceRecord list \<Rightarrow> OraclePriceRecord list" where
  "visited lx n [] = []"
| "visited lx n (r # rs) = (case OPR_ComputeDifficulty lx r (Nonce r) of
     Inl _ \<Rightarrow> []
   | Inr d \<Rightarrow> (let n' = (if reported r = d then Suc n else n) in
       r\<lparr>Difficulty := d\<rparr> # (if reported r = d \<and> n' = 50 then [] else visited lx n' rs)))"

definition submission :: "OraclePriceRecord \<Rightarrow> byte list" where
  "submission r = Nonce r @ OPRHash r"

fun show_graded :: "byte list set \<Rightarrow> OraclePriceRecord list \<Rightarrow> OraclePriceRecord list \<Rightarrow> OraclePriceRecord list" where
  "show_graded added graded [] = []"
| "show_graded added graded (r # rs) =
     (if submission r \<in> added then r
      else case List.find (\<lambda>x. submission x = submission r) graded of None \<Rightarrow> r | Some x \<Rightarrow> x)
     # show_graded (insert (submission r) added) graded rs"

definition after_grading ::
  "(byte list \<Rightarrow> byte list) \<Rightarrow> OraclePriceRecord list \<Rightarrow> OraclePriceRecord list \<Rightarrow> OraclePriceRecord list" where
  "after_grading lx oprs graded =
     (let seen = (case sort_reported (RemoveDuplicateSubmissions oprs) of Inl _ \<Rightarrow> [] | Inr rs \<Rightarrow> visited lx 0 rs)
      in show_graded {} (graded @ seen) oprs)"

definition FetchOPRBlock :: "'d codecs \<Rightarrow> factomd \<Rightarrow> 'd QuickGrader \<Rightarrow> EBlock \<Rightarrow> OprBlock option res" where
  "FetchOPRBlock c f g block =
     rbind (MinRecords (GraderNetwork g) (DBHeight block)) (\<lambda>min.
     if length (EntryList block) < min then Inr None
     else rbind (ParallelFetchOPRsFromEBlock c f g block True) (\<lambda>(oprs, e).
       case e of Some e \<Rightarrow> Inl e | None \<Rightarrow>
       if length oprs < min then Inr None
       else rbind (GradeMinimum (LX c) oprs (GraderNetwork g) (DBHeight block)) (\<lambda>graded.
         if length graded < min then Inr None
         else Inr (Some \<lparr>BlockOPRs = after_grading (LX c) oprs graded, GradedOPRs = graded,
           BlockDbht = DBHeight block, TotalNumberRecords = int (length oprs), EmptyOPRBlock = False\<rparr>))))"

end
