(* ===== verification/GraderSync.thy ===== *)
theory GraderSync
  imports QuickGrader
begin

text \<open>
  The synchronisation of the grader (\<open>Sync\<close> of opr/grader.go), its alerts and one minute of its main
  loop, with the state that survives: after any run the balances are the rewards of the graded blocks,
  and a grader that is restarted reads the blocks it had from the database.
\<close>

section \<open>Synchronising\<close>

definition reward_step :: "'d codecs \<Rightarrow> string \<Rightarrow> int \<Rightarrow> BalanceTracker \<Rightarrow> nat \<times> OraclePriceRecord \<Rightarrow>
    BalanceTracker res" where
  "reward_step c network height b pw =
     rbind (GetRewardFromPlace (int (fst pw)) network height) (\<lambda>reward.
       if reward > 0
       then (case AddToBalance (B58dec c) b (CoinbasePEGAddress (snd pw)) reward of
           (b', Inl e) \<Rightarrow> Inl (Panic ''Failed to update balance'')
         | (b', Inr _) \<Rightarrow> Inr b')
       else Inr b)"

definition pay_winners :: "'d codecs \<Rightarrow> string \<Rightarrow> int \<Rightarrow> OprBlock \<Rightarrow> BalanceTracker \<Rightarrow> BalanceTracker res" where
  "pay_winners c network height blk b =
     rbind (MinRecords network height) (\<lambda>payouts.
     rbind (take_slice payouts (GradedOPRs blk)) (\<lambda>winners.
       res_fold (reward_step c network height) b (enumerate 0 winners)))"

definition block_parsed :: "'d QuickGrader \<Rightarrow> EntryBlockMarker \<Rightarrow> 'd QuickGrader \<times> unit res" where
  "block_parsed g m = (case BlockParsed (OPRChain g) m of
     Inl e \<Rightarrow> (g, Inl e) | Inr a \<Rightarrow> (g\<lparr>OPRChain := a\<rparr>, Inr ()))"

definition add_block :: "'d codecs \<Rightarrow> 'd QuickGrader \<Rightarrow> EntryBlockMarker \<Rightarrow> int \<Rightarrow> OprBlock \<Rightarrow>
    'd QuickGrader \<times> unit res" where
  "add_block c g m height blk = (case WriteOPRBlock (DbPut c) (GraderStore g) blk of
     (d, Inl e) \<Rightarrow> (g\<lparr>GraderStore := d\<rparr>, Inl e)
   | (d, Inr _) \<Rightarrow>
       (let g1 = g\<lparr>GraderStore := d, oprBlks := oprBlks g @ [blk]\<rparr> in
        case pay_winners c (GraderNetwork g) height blk (GraderBalances g1) of
          Inl e \<Rightarrow> (g1, Inl e)
        | Inr b \<Rightarrow> block_parsed (g1\<lparr>GraderBalances := b\<rparr>) m))"

definition sync_block :: "'d codecs \<Rightarrow> factomd \<Rightarrow> 'd QuickGrader \<Rightarrow> EntryBlockMarker \<Rightarrow>
    'd QuickGrader \<times> unit res" where
  "sync_block c f g m = (case EntryBlock m of
     None \<Rightarrow> (g, Inl (Panic ''nil pointer dereference''))
   | Some eb \<Rightarrow>
       (case FetchStoredBlock (DbGet c) (GraderStore g) (DBHeight eb) of
          Inr blk \<Rightarrow> (if EmptyOPRBlock blk then block_parsed g m else add_block c g m (DBHeight eb) blk)
        | Inl _ \<Rightarrow> (case FetchOPRBlock c f g eb of
            Inl e \<Rightarrow> (g, Inl e)
          | Inr None \<Rightarrow> (case WriteInvalidOPRBlock (DbPut c) (GraderStore g) (DBHeight eb) of
              (d, Inl e) \<Rightarrow> (g\<lparr>GraderStore := d\<rparr>, Inl e)
            | (d, Inr _) \<Rightarrow> block_parsed (g\<lparr>GraderStore := d\<rparr>) m)
          | Inr (Some blk) \<Rightarrow> add_block c g m (DBHeight eb) blk)))"

text \<open>Every iteration that goes on has taken a block from the queue.\<close>

lemma block_parsed_queue:
  "block_parsed g m = (g', Inr u) \<Longrightarrow>
     length (BlocksToBeParsed (OPRChain g')) < length (BlocksToBeParsed (OPRChain g))"
  by (auto simp: block_parsed_def BlockParsed_def guard_res_Inr_iff split: sum.splits list.splits)

lemma sync_block_queue:
  "sync_block c f g m = (g', Inr u) \<Longrightarrow>
     length (BlocksToBeParsed (OPRChain g')) < length (BlocksToBeParsed (OPRChain g))"
  by (auto simp: sync_block_def add_block_def Let_def dest!: block_parsed_queue
      split: option.splits sum.splits if_splits prod.splits)

function sync_loop :: "'d codecs \<Rightarrow> factomd \<Rightarrow> 'd QuickGrader \<Rightarrow> 'd QuickGrader \<times> unit res" where
  "sync_loop c f g = (case NextEBlock (OPRChain g) of
     None \<Rightarrow> (g, Inr ())
   | Some m \<Rightarrow> (case sync_block c f g m of
       (g', Inl e) \<Rightarrow> (g', Inl e)
     | (g', Inr _) \<Rightarrow> sync_loop c f g'))"
  by pat_completeness auto
termination
  by (relation "measure (\<lambda>(c, f, g). length (BlocksToBeParsed (OPRChain g)))")
    (auto dest!: sync_block_queue [OF sym])

declare sync_loop.simps [simp del]

text \<open>\<open>None\<close> is a synchronisation of the entry blocks that does not return.\<close>

definition Sync :: "'d codecs \<Rightarrow> factomd \<Rightarrow> 'd QuickGrader \<Rightarrow> ('d QuickGrader \<times> unit res) option" where
  "Sync c f g = map_option (\<lambda>(a, r).
     (case r of
        Inl e \<Rightarrow> (g\<lparr>OPRChain := a\<rparr>, Inl e)
      | Inr _ \<Rightarrow> (if Synced a then (g\<lparr>OPRChain := a\<rparr>, Inr ()) else sync_loop c f (g\<lparr>OPRChain := a\<rparr>))))
     (SyncBlocks (GetChainHead f) (GetEBlock f) (OPRChain g))"

section \<open>Alerts and the main loop\<close>

text \<open>What the grader sends; the listeners are channels with room for 10 messages.\<close>

record OPRs =
  ToBePaid :: "OraclePriceRecord list"
  MsgGradedOPRs :: "OraclePriceRecord list"
  MsgError :: "go_error option"

text \<open>The channels of the map by id; a channel that was replaced or stopped is closed.\<close>

record alerts =
  channels :: "(string \<times> OPRs list) list"
  closed :: "(string \<times> OPRs list) list"

definition GetAlert :: "string \<Rightarrow> alerts \<Rightarrow> alerts" where
  "GetAlert cid a = a\<lparr>channels := AList.update cid [] (channels a),
     closed := (case map_of (channels a) cid of None \<Rightarrow> closed a | Some q \<Rightarrow> (cid, q) # closed a)\<rparr>"

definition StopAlert :: "string \<Rightarrow> alerts \<Rightarrow> alerts" where
  "StopAlert cid a = a\<lparr>channels := AList.delete cid (channels a),
     closed := (case map_of (channels a) cid of None \<Rightarrow> closed a | Some q \<Rightarrow> (cid, q) # closed a)\<rparr>"

definition SendToListeners :: "OPRs \<Rightarrow> alerts \<Rightarrow> alerts" where
  "SendToListeners winners a =
     a\<lparr>channels := map (\<lambda>(cid, q). (cid, if length q < 10 then q @ [winners] else q)) (channels a)\<rparr>"

text \<open>The message for the winners of the block before a height.\<close>

definition winners_message :: "'d QuickGrader \<Rightarrow> 32 word \<Rightarrow> OPRs res" where
  "winners_message g dbht =
     (let none = \<lparr>ToBePaid = [], MsgGradedOPRs = [], MsgError = None\<rparr> in
      case GetPreviousOPRBlock g dbht of
        None \<Rightarrow> Inr none
      | Some b \<Rightarrow> (case GradedOPRs b of
          [] \<Rightarrow> Inr none
        | r # _ \<Rightarrow> rbind (MinRecords (GraderNetwork g) (sint (Dbht r))) (\<lambda>amt.
            Inr \<lparr>ToBePaid = (if length (GradedOPRs b) \<ge> amt then take amt (GradedOPRs b) else []),
                 MsgGradedOPRs = GradedOPRs b, MsgError = None\<rparr>)))"

text \<open>Up to three tries, each with the network as it then is; a panic ends the process.\<close>

fun try_sync :: "'d codecs \<Rightarrow> factomd list \<Rightarrow> 'd QuickGrader \<Rightarrow> ('d QuickGrader \<times> unit res) option" where
  "try_sync c [] g = Some (g, Inl (GoError []))"
| "try_sync c (f # fs) g = (case Sync c f g of
     None \<Rightarrow> None
   | Some (g', r) \<Rightarrow> (case r of
       Inr _ \<Rightarrow> Some (g', Inr ())
     | Inl e \<Rightarrow> if is_panic r \<or> fs = [] then Some (g', r) else try_sync c fs g'))"

text \<open>
  Minute 1 of a block, up to the message to the listeners; the burns follow, if there is a first block
  to start them from.
\<close>

definition grade_minute :: "'d codecs \<Rightarrow> factomd \<times> factomd \<times> factomd \<Rightarrow> 32 word \<Rightarrow> 'd QuickGrader \<Rightarrow> alerts \<Rightarrow>
    ('d QuickGrader \<times> alerts res) option" where
  "grade_minute c fs dbht g a = (case fs of (f1, f2, f3) \<Rightarrow> (case try_sync c [f1, f2, f3] g of
     None \<Rightarrow> None
   | Some (g', r) \<Rightarrow> Some (g', (case r of
       Inl (Panic m) \<Rightarrow> Inl (Panic m)
     | Inl e \<Rightarrow> Inr (SendToListeners \<lparr>ToBePaid = [], MsgGradedOPRs = [],
         MsgError = Some (GoError ''failed to grade'')\<rparr> a)
     | Inr _ \<Rightarrow> rbind (winners_message g' dbht) (\<lambda>w. Inr (SendToListeners w a))))))"

definition update_burns :: "'d codecs \<Rightarrow> (int \<Rightarrow> string list option res) \<Rightarrow> (string \<Rightarrow> 't res) \<Rightarrow>
    ('t \<Rightarrow> FactoidTransaction res) \<Rightarrow> ((string \<times> int) list \<Rightarrow> (string \<times> int) list) \<Rightarrow> int res \<Rightarrow> int \<Rightarrow>
    'd QuickGrader \<Rightarrow> int \<times> 'd QuickGrader \<times> unit res" where
  "update_burns c get_fblock get_tx json_tx visit heights burn_height g = (case GetFirstOPRBlock g of
     None \<Rightarrow> (burn_height, g, Inr ())
   | Some first \<Rightarrow>
       (let (b, r) = UpdateBurns (B58enc c) (B58dec c) get_fblock get_tx json_tx visit (Inr (ConfigNetwork c))
              heights \<lparr>FctDbht = burn_height, Tracker = GraderBalances g\<rparr> (BlockDbht first)
        in (FctDbht b, g\<lparr>GraderBalances := Tracker b\<rparr>, r)))"

end
