(* ===== verification/GraderSync_Correct.thy ===== *)
theory GraderSync_Correct
  imports GraderSync
begin

text \<open>
  What the synchronisation of the grader keeps. The database is any that satisfies the interface
  \<open>block_store\<close>, factomd may fail at any call; the chain grows, and has one entry block per height.
\<close>

lemma rbind_Inl: "rbind m f = Inl e \<Longrightarrow> (m = Inl e \<Longrightarrow> P) \<Longrightarrow> (\<And>x. m = Inr x \<Longrightarrow> f x = Inl e \<Longrightarrow> P) \<Longrightarrow> P"
  by (cases m) auto

section \<open>Rewards\<close>

text \<open>The rewards of a block: what its paid places add to the balances.\<close>

definition reward_of :: "string \<Rightarrow> int \<Rightarrow> nat \<times> OraclePriceRecord \<Rightarrow> (string \<times> int) list" where
  "reward_of network height pw = (case GetRewardFromPlace (int (fst pw)) network height of
     Inl _ \<Rightarrow> [] | Inr v \<Rightarrow> (if v > 0 then [(CoinbasePEGAddress (snd pw), v)] else []))"

definition block_rewards :: "string \<Rightarrow> OprBlock \<Rightarrow> (string \<times> int) list" where
  "block_rewards network b = (case MinRecords network (BlockDbht b) of
     Inl _ \<Rightarrow> []
   | Inr n \<Rightarrow> concat (map (reward_of network (BlockDbht b)) (enumerate 0 (take n (GradedOPRs b)))))"

definition has_account :: "(string \<Rightarrow> byte list) \<Rightarrow> (string \<times> int) list \<Rightarrow> bool" where
  "has_account dec ps \<longleftrightarrow> (\<forall>(a, v) \<in> set ps. \<exists>k. ConvertAddress dec a = Inr k)"

lemma has_account_simps [simp]:
  "has_account dec []" "has_account dec (ps @ qs) \<longleftrightarrow> has_account dec ps \<and> has_account dec qs"
  "has_account dec ((a, v) # ps) \<longleftrightarrow> (\<exists>k. ConvertAddress dec a = Inr k) \<and> has_account dec ps"
  by (auto simp: has_account_def simp del: split_paired_Ex)

lemma reward_bounds:
  "GetRewardFromPlace i network h = Inr v \<Longrightarrow> 0 \<le> v \<and> v < 2 ^ 63"
  by (auto simp: GetRewardFromPlace_def rbind_Inr_iff getRewardFromPlaceVersionOne_def
      getRewardFromPlaceVersionTwo_def getRewardFromPlaceVersionThree_def split: if_splits)

lemma MinRecords_reward: "MinRecords network h = Inr n \<Longrightarrow> \<exists>v. GetRewardFromPlace i network h = Inr v"
  by (cases "OPRVersion network h") (auto simp: MinRecords_def GetRewardFromPlace_def split: if_splits)

lemma reward_of_nonneg: "nonneg (reward_of network h pw)"
  by (auto simp: reward_of_def split: sum.splits)

lemma rewards_nonneg: "nonneg (concat (map (reward_of network h) es))"
  by (induction es) (simp_all add: reward_of_nonneg)

lemma reward_step_Inr:
  assumes "reward_step c network h b pw = Inr b'" "balances_ok b"
  shows "balances_ok b' \<and> has_account (B58dec c) (reward_of network h pw)
    \<and> lookup_balance b' = (\<lambda>k. lookup_balance b k + credited (B58dec c) (reward_of network h pw) k)"
proof -
  obtain v where v: "GetRewardFromPlace (int (fst pw)) network h = Inr v" "0 \<le> v" "v < 2 ^ 63"
    using assms(1) reward_bounds by (auto simp: reward_step_def rbind_Inr_iff)
  show ?thesis
  proof (cases "v > 0")
    case False
    then show ?thesis using assms v by (simp add: reward_step_def reward_of_def)
  next
    case True
    let ?a = "CoinbasePEGAddress (snd pw)"
    have b': "AddToBalance (B58dec c) b ?a v = (b', Inr ())"
      using assms(1) v True by (auto simp: reward_step_def split: prod.splits sum.splits)
    have "- (2 ^ 63) \<le> v" using v by simp
    from AddToBalance_cases [OF assms(2) this v(3), of "B58dec c" ?a]
      AddToBalance_step [OF assms(2) this v(3), of "B58dec c" ?a]
    show ?thesis using v True by (auto simp: b' reward_of_def fun_eq_iff split: sum.splits if_splits)
  qed
qed

lemma reward_fold_Inr:
  assumes "res_fold (reward_step c network h) b es = Inr b'" "balances_ok b"
  shows "balances_ok b' \<and> has_account (B58dec c) (concat (map (reward_of network h) es))
    \<and> lookup_balance b' = (\<lambda>k. lookup_balance b k + credited (B58dec c) (concat (map (reward_of network h) es)) k)"
  using assms
proof (induction es arbitrary: b)
  case (Cons e es)
  then obtain b1 where b1: "reward_step c network h b e = Inr b1"
    "res_fold (reward_step c network h) b1 es = Inr b'"
    by (auto simp: rbind_Inr_iff)
  with reward_step_Inr [OF b1(1) Cons.prems(2)] Cons.IH [OF b1(2)] show ?case
    by (simp add: add.assoc fun_eq_iff)
qed simp

lemma reward_fold_pays:
  assumes "MinRecords network h = Inr n" "balances_ok b"
    and "has_account (B58dec c) (concat (map (reward_of network h) es))"
    and "\<forall>k. lookup_balance b k + credited (B58dec c) (concat (map (reward_of network h) es)) k < 2 ^ 63"
  shows "\<exists>b'. res_fold (reward_step c network h) b es = Inr b'"
  using assms(2-)
proof (induction es arbitrary: b)
  case (Cons e es)
  let ?dec = "B58dec c" and ?rest = "concat (map (reward_of network h) es)"
  obtain v where v: "GetRewardFromPlace (int (fst e)) network h = Inr v" "0 \<le> v" "v < 2 ^ 63"
    using MinRecords_reward [OF assms(1)] reward_bounds by blast
  have "\<exists>b1. reward_step c network h b e = Inr b1"
  proof (cases "v > 0")
    case True
    let ?a = "CoinbasePEGAddress (snd e)"
    have r: "reward_of network h e = [(?a, v)]" using v(1) True by (simp add: reward_of_def)
    then obtain k where k: "ConvertAddress ?dec ?a = Inr k" using Cons.prems(2) by auto
    have "0 \<le> credited ?dec ?rest k" using credited_le_total [OF rewards_nonneg] by blast
    moreover have "lookup_balance b k + (v + credited ?dec ?rest k) < 2 ^ 63"
      using spec [OF Cons.prems(3), of k] by (simp add: r k)
    ultimately have "lookup_balance b k + v < 2 ^ 63" by linarith
    from bt.add_pays [OF Cons.prems(1) k v(2) this] have "snd (AddToBalance ?dec b ?a v) = Inr ()" by simp
    then show ?thesis using v(1) True by (cases "AddToBalance ?dec b ?a v") (simp add: reward_step_def)
  qed (simp add: reward_step_def v(1))
  then obtain b1 where b1: "reward_step c network h b e = Inr b1" by blast
  note s = reward_step_Inr [OF b1 Cons.prems(1)]
  have "\<forall>k. lookup_balance b1 k + credited ?dec ?rest k < 2 ^ 63"
    using s Cons.prems(3) by (simp add: add.assoc)
  with Cons.IH [of b1] s Cons.prems(2) b1 show ?case by simp
qed simp

lemma pay_winners_Inr:
  assumes "pay_winners c network (BlockDbht blk) blk b = Inr b'" "balances_ok b"
  shows "balances_ok b' \<and> has_account (B58dec c) (block_rewards network blk)
    \<and> lookup_balance b' = (\<lambda>k. lookup_balance b k + credited (B58dec c) (block_rewards network blk) k)
    \<and> (\<exists>n. MinRecords network (BlockDbht blk) = Inr n \<and> n \<le> length (GradedOPRs blk))"
proof -
  obtain n where n: "MinRecords network (BlockDbht blk) = Inr n" "n \<le> length (GradedOPRs blk)"
    "res_fold (reward_step c network (BlockDbht blk)) b (enumerate 0 (take n (GradedOPRs blk))) = Inr b'"
    using assms(1) by (auto simp: pay_winners_def take_slice_def rbind_Inr_iff guard_res_Inr_iff)
  from reward_fold_Inr [OF n(3) assms(2)] n(1,2) show ?thesis by (simp add: block_rewards_def)
qed

lemma pay_winners_panic:
  assumes "pay_winners c network h blk b = Inl e" shows "is_panic (Inl e :: 'a res)"
proof -
  have version: "is_panic (Inl e :: 'a res)" if "OPRVersion network h = Inl e" for e
    using that by (auto simp: OPRVersion_def split: option.splits)
  have step: "is_panic (Inl e :: 'a res)" if "reward_step c network h b pw = Inl e" for b pw e
    using that version by (auto simp: reward_step_def GetRewardFromPlace_def elim!: rbind_Inl
        split: if_splits prod.splits sum.splits)
  have "is_panic (Inl e :: 'a res)" if "res_fold (reward_step c network h) b es = Inl e" for b es
    using that step by (induction es arbitrary: b) (auto elim!: rbind_Inl)
  then show ?thesis
    using assms version by (auto simp: pay_winners_def MinRecords_def take_slice_def guard_res_def
        elim!: rbind_Inl split: if_splits)
qed

lemma pay_winners_pays:
  assumes "MinRecords network (BlockDbht blk) = Inr n" "n \<le> length (GradedOPRs blk)" "balances_ok b"
    and "has_account (B58dec c) (block_rewards network blk)"
    and "\<forall>k. lookup_balance b k + credited (B58dec c) (block_rewards network blk) k < 2 ^ 63"
  shows "\<exists>b'. pay_winners c network (BlockDbht blk) blk b = Inr b'"
  using reward_fold_pays [OF assms(1,3), of c "enumerate 0 (take n (GradedOPRs blk))"] assms
  by (simp add: pay_winners_def take_slice_def block_rewards_def)

lemma block_rewards_nonneg: "nonneg (block_rewards network b)"
  by (simp add: block_rewards_def rewards_nonneg split: sum.split)

text \<open>Only the places, the addresses and the height matter.\<close>

lemma block_rewards_stored [simp]: "block_rewards network (stored_block b) = block_rewards network b"
proof -
  have "reward_of network h (i, gob_record r) = reward_of network h (i, r)" for h i r
    by (cases "GetRewardFromPlace (int i) network h") (simp_all add: reward_of_def gob_record_def)
  then have "map (reward_of network h) (enumerate i (map gob_record rs)) = map (reward_of network h) (enumerate i rs)"
    for h i rs
    by (induction rs arbitrary: i) simp_all
  then show ?thesis by (simp add: block_rewards_def take_map split: sum.split)
qed

section \<open>The invariant\<close>

definition height_of :: "EntryBlockMarker \<Rightarrow> int" where
  "height_of m = (case EntryBlock m of None \<Rightarrow> 0 | Some b \<Rightarrow> DBHeight b)"

definition height_chain :: "EntryBlockMarker list \<Rightarrow> bool" where
  "height_chain ms \<longleftrightarrow> is_chain ms \<and> sorted_wrt (<) (map height_of ms) \<and> (\<forall>m \<in> set ms. int64 (height_of m))"

text \<open>Every block in the store is under its own height.\<close>

definition store_wf :: "'d codecs \<Rightarrow> 'd \<Rightarrow> bool" where
  "store_wf c d \<longleftrightarrow> (\<forall>h b. int64 h \<longrightarrow> FetchStoredBlock (DbGet c) d h = Inr b \<longrightarrow> BlockDbht b = h)"

text \<open>
  What the store has for an entry block that is parsed, and whether it is a graded block.
\<close>

definition parsed_ok :: "'d codecs \<Rightarrow> string \<Rightarrow> 'd \<Rightarrow> EntryBlockMarker \<Rightarrow> OprBlock option \<Rightarrow> bool" where
  "parsed_ok c network d m x = (case x of
     None \<Rightarrow> (\<exists>b. FetchStoredBlock (DbGet c) d (height_of m) = Inr b \<and> EmptyOPRBlock b)
   | Some b \<Rightarrow> BlockDbht b = height_of m \<and> \<not> EmptyOPRBlock b
       \<and> FetchStoredBlock (DbGet c) d (height_of m) = Inr (stored_block b)
       \<and> (\<exists>n. MinRecords network (height_of m) = Inr n \<and> n \<le> length (GradedOPRs b))
       \<and> has_account (B58dec c) (block_rewards network b))"

definition graded_blocks :: "OprBlock option list \<Rightarrow> OprBlock list" where
  "graded_blocks xs = concat (map (\<lambda>x. case x of None \<Rightarrow> [] | Some b \<Rightarrow> [b]) xs)"

lemma graded_blocks_simps [simp]:
  "graded_blocks [] = []" "graded_blocks (None # xs) = graded_blocks xs"
  "graded_blocks (Some b # xs) = b # graded_blocks xs"
  "graded_blocks (xs @ ys) = graded_blocks xs @ graded_blocks ys"
  by (simp_all add: graded_blocks_def)

definition all_rewards :: "string \<Rightarrow> OprBlock list \<Rightarrow> (string \<times> int) list" where
  "all_rewards network bs = concat (map (block_rewards network) bs)"

lemma all_rewards_simps [simp]:
  "all_rewards network [] = []" "all_rewards network (b # bs) = block_rewards network b @ all_rewards network bs"
  "all_rewards network (bs @ cs) = all_rewards network bs @ all_rewards network cs"
  by (simp_all add: all_rewards_def)

definition grader_inv :: "'d codecs \<Rightarrow> EntryBlockMarker list \<Rightarrow> nat \<Rightarrow> 'd QuickGrader \<Rightarrow>
    OprBlock option list \<Rightarrow> bool" where
  "grader_inv c ms n g xs \<longleftrightarrow> height_chain ms \<and> synced_to ms (length xs) n (OPRChain g)
     \<and> list_all2 (parsed_ok c (GraderNetwork g) (GraderStore g)) (take (length xs) ms) xs
     \<and> oprBlks g = graded_blocks xs \<and> store_wf c (GraderStore g) \<and> balances_ok (GraderBalances g)
     \<and> lookup_balance (GraderBalances g) = credited (B58dec c) (all_rewards (GraderNetwork g) (oprBlks g))"

lemma height_chain_prefix: "height_chain (ms @ ns) \<Longrightarrow> height_chain ms"
  by (auto simp: height_chain_def sorted_wrt_append intro: is_chain_prefix)

lemma height_chain_nth:
  assumes "height_chain ms" "i < length ms"
  shows "EntryBlock (ms ! i) \<noteq> None" "int64 (height_of (ms ! i))"
proof -
  have "\<exists>b. EntryBlock (ms ! i) = Some b" using assms unfolding height_chain_def is_chain_def by blast
  then show "EntryBlock (ms ! i) \<noteq> None" by blast
  show "int64 (height_of (ms ! i))" using assms by (simp add: height_chain_def)
qed

lemma height_chain_less:
  "height_chain ms \<Longrightarrow> i < j \<Longrightarrow> j < length ms \<Longrightarrow> height_of (ms ! i) < height_of (ms ! j)"
  by (auto simp: height_chain_def sorted_wrt_iff_nth_less)

lemma store_wf_write:
  assumes "block_store (DbPut c) (DbGet c)" "store_wf c d" "int64 (BlockDbht b)"
    and "WriteOPRBlock (DbPut c) d b = (d', Inr ())"
  shows "store_wf c d'"
  unfolding store_wf_def
proof (intro allI impI)
  fix h b' assume h: "int64 h" "FetchStoredBlock (DbGet c) d' h = Inr b'"
  show "BlockDbht b' = h"
  proof (cases "h = BlockDbht b")
    case True
    with h block_store.fetch_written [OF assms(1,4)] show ?thesis by auto
  next
    case False
    with h block_store.fetch_other [OF assms(1,4,3) h(1)] assms(2) show ?thesis by (simp add: store_wf_def)
  qed
qed

lemma parsed_ok_other:
  assumes "block_store (DbPut c) (DbGet c)" "int64 (BlockDbht b)" "int64 (height_of m)"
    and "WriteOPRBlock (DbPut c) d b = (d', Inr ())" "height_of m \<noteq> BlockDbht b"
  shows "parsed_ok c network d' m x = parsed_ok c network d m x"
  using block_store.fetch_other [OF assms(1,4,2,3,5)] by (simp add: parsed_ok_def split: option.split)

text \<open>Writing the next block does not touch what is stored of those parsed before.\<close>

lemma parsed_ok_write:
  assumes "block_store (DbPut c) (DbGet c)" "height_chain ms" "p < length ms"
    and "WriteOPRBlock (DbPut c) d b = (d', Inr ())" "BlockDbht b = height_of (ms ! p)"
    and "list_all2 (parsed_ok c network d) (take p ms) xs"
  shows "list_all2 (parsed_ok c network d') (take p ms) xs"
  using assms(6)
proof (rule list.rel_mono_strong)
  fix m x assume "m \<in> set (take p ms)"
  then obtain i where i: "i < p" "m = ms ! i" using assms(3) by (auto simp: in_set_conv_nth)
  then have "height_of m \<noteq> BlockDbht b" "int64 (height_of m)" "int64 (BlockDbht b)"
    using height_chain_less [OF assms(2) _ assms(3), of i] height_chain_nth(2) [OF assms(2)] assms(3,5) by auto
  then show "parsed_ok c network d m x \<Longrightarrow> parsed_ok c network d' m x"
    using parsed_ok_other [OF assms(1) _ _ assms(4)] by blast
qed

section \<open>One block\<close>

lemma next_block:
  assumes "grader_inv c ms n g xs" "NextEBlock (OPRChain g) = Some m"
  shows "length xs < length ms" "m = ms ! length xs" "int64 (height_of m)"
    "\<exists>eb. EntryBlock m = Some eb \<and> height_of m = DBHeight eb"
proof -
  have n: "synced_to ms (length xs) n (OPRChain g)" using assms(1) by (simp add: grader_inv_def)
  have "length xs \<noteq> n" "m = ms ! length xs"
    using NextEBlock_chain(1) [OF n] assms(2) by (auto split: if_splits)
  then show p: "length xs < length ms" "m = ms ! length xs" using n by (auto simp: synced_to_def)
  have "height_chain ms" using assms(1) by (simp add: grader_inv_def)
  from height_chain_nth [OF this p(1)] show "int64 (height_of m)"
    "\<exists>eb. EntryBlock m = Some eb \<and> height_of m = DBHeight eb"
    by (auto simp: p(2) height_of_def)
qed

lemma parsed_next:
  assumes inv: "grader_inv c ms n g xs" and m: "NextEBlock (OPRChain g) = Some m"
    and "list_all2 (parsed_ok c (GraderNetwork g) d) (take (length xs) ms) xs"
    and "parsed_ok c (GraderNetwork g) d m x" "store_wf c d" "balances_ok b"
    and "lookup_balance b = credited (B58dec c) (all_rewards (GraderNetwork g) (graded_blocks (xs @ [x])))"
    and run: "block_parsed (g\<lparr>GraderStore := d, oprBlks := graded_blocks (xs @ [x]), GraderBalances := b\<rparr>) m = (g', r)"
  shows "r = Inr () \<and> grader_inv c ms n g' (xs @ [x])"
proof -
  have n: "synced_to ms (length xs) n (OPRChain g)" using inv by (simp add: grader_inv_def)
  have "length xs \<noteq> n" "m = ms ! length xs"
    using NextEBlock_chain(1) [OF n] m by (auto split: if_splits)
  then have "length xs < n" "length xs < length ms" using n by (auto simp: synced_to_def)
  from BlockParsed_chain [OF n this(1)] obtain a where
    a: "BlockParsed (OPRChain g) m = Inr a" "synced_to ms (Suc (length xs)) n a"
    by (auto simp: \<open>m = ms ! length xs\<close>)
  have "take (length (xs @ [x])) ms = take (length xs) ms @ [m]"
    using \<open>length xs < length ms\<close> \<open>m = ms ! length xs\<close> by (simp add: take_Suc_conv_app_nth)
  then show ?thesis
    using inv run a assms(3-7) by (auto simp: block_parsed_def grader_inv_def list_all2_appendI)
qed

lemma add_block_inv:
  assumes store: "block_store (DbPut c) (DbGet c)" and inv: "grader_inv c ms n g xs"
    and m: "NextEBlock (OPRChain g) = Some m" and blk: "BlockDbht blk = height_of m" "\<not> EmptyOPRBlock blk"
    and run: "add_block c g m (BlockDbht blk) blk = (g', r)" and r: "\<not> is_panic r"
  shows "(\<exists>e. r = Inl e) \<and> g' = g \<or> r = Inr () \<and> grader_inv c ms n g' (xs @ [Some blk])"
proof -
  note nb = next_block [OF inv m]
  obtain d w where w: "WriteOPRBlock (DbPut c) (GraderStore g) blk = (d, w)" by fastforce
  show ?thesis
  proof (cases w)
    case (Inl e)
    with w block_store.write_fails [OF store] have "d = GraderStore g" by blast
    with w Inl run show ?thesis by (auto simp: add_block_def)
  next
    case (Inr u)
    then have w: "WriteOPRBlock (DbPut c) (GraderStore g) blk = (d, Inr ())" using w by simp
    let ?g = "g\<lparr>GraderStore := d, oprBlks := oprBlks g @ [blk]\<rparr>" and ?net = "GraderNetwork g"
    have g: "height_chain ms" "list_all2 (parsed_ok c ?net (GraderStore g)) (take (length xs) ms) xs"
      "oprBlks g = graded_blocks xs" "store_wf c (GraderStore g)" "balances_ok (GraderBalances g)"
      "lookup_balance (GraderBalances g) = credited (B58dec c) (all_rewards ?net (oprBlks g))"
      using inv by (simp_all add: grader_inv_def)
    show ?thesis
    proof (cases "pay_winners c ?net (BlockDbht blk) blk (GraderBalances g)")
      case (Inl e)
      then have "is_panic r" using pay_winners_panic [OF Inl] w run by (auto simp: add_block_def)
      with r show ?thesis by simp
    next
      case (Inr b)
      note pay = pay_winners_Inr [OF Inr g(5)]
      have run: "block_parsed (g\<lparr>GraderStore := d, oprBlks := graded_blocks (xs @ [Some blk]),
          GraderBalances := b\<rparr>) m = (g', r)"
        using w Inr run g(3) by (simp add: add_block_def)
      have "parsed_ok c ?net d m (Some blk)"
        using pay blk block_store.fetch_written [OF store w] by (auto simp: parsed_ok_def)
      moreover have "list_all2 (parsed_ok c ?net d) (take (length xs) ms) xs"
        using parsed_ok_write [OF store g(1) nb(1) w _ g(2)] blk(1) nb(2) by simp
      moreover have "store_wf c d"
        using store_wf_write [OF store g(4) _ w] blk(1) nb(3) by simp
      ultimately show ?thesis
        using parsed_next [OF inv m _ _ _ _ _ run] pay g(3,6) by (simp add: fun_eq_iff)
    qed
  qed
qed

lemma skip_block_inv:
  assumes inv: "grader_inv c ms n g xs" and m: "NextEBlock (OPRChain g) = Some m"
    and b: "FetchStoredBlock (DbGet c) (GraderStore g) (height_of m) = Inr b" "EmptyOPRBlock b"
    and run: "block_parsed g m = (g', r)"
  shows "r = Inr () \<and> grader_inv c ms n g' (xs @ [None])"
proof -
  have "g\<lparr>GraderStore := GraderStore g, oprBlks := graded_blocks (xs @ [None]),
      GraderBalances := GraderBalances g\<rparr> = g"
    using inv by (simp add: grader_inv_def)
  then have "block_parsed (g\<lparr>GraderStore := GraderStore g, oprBlks := graded_blocks (xs @ [None]),
      GraderBalances := GraderBalances g\<rparr>) m = (g', r)"
    using run by simp
  from parsed_next [OF inv m _ _ _ _ _ this] inv b show ?thesis
    by (simp add: grader_inv_def parsed_ok_def)
qed

lemma invalid_block_inv:
  assumes store: "block_store (DbPut c) (DbGet c)" and inv: "grader_inv c ms n g xs"
    and m: "NextEBlock (OPRChain g) = Some m"
    and w: "WriteInvalidOPRBlock (DbPut c) (GraderStore g) (height_of m) = (d, Inr ())"
    and run: "block_parsed (g\<lparr>GraderStore := d\<rparr>) m = (g', r)"
  shows "r = Inr () \<and> grader_inv c ms n g' (xs @ [None])"
proof -
  note nb = next_block [OF inv m]
  let ?blk = "\<lparr>BlockOPRs = [], GradedOPRs = [], BlockDbht = height_of m, TotalNumberRecords = 0, EmptyOPRBlock = True\<rparr>"
  have w: "WriteOPRBlock (DbPut c) (GraderStore g) ?blk = (d, Inr ())" using w by (simp add: WriteInvalidOPRBlock_def)
  have g: "height_chain ms" "list_all2 (parsed_ok c (GraderNetwork g) (GraderStore g)) (take (length xs) ms) xs"
    "store_wf c (GraderStore g)" "oprBlks g = graded_blocks xs" "balances_ok (GraderBalances g)"
    "lookup_balance (GraderBalances g) = credited (B58dec c) (all_rewards (GraderNetwork g) (oprBlks g))"
    using inv by (simp_all add: grader_inv_def)
  have "g\<lparr>GraderStore := d, oprBlks := graded_blocks (xs @ [None]), GraderBalances := GraderBalances g\<rparr>
      = g\<lparr>GraderStore := d\<rparr>" using g(4) by simp
  then have run: "block_parsed (g\<lparr>GraderStore := d, oprBlks := graded_blocks (xs @ [None]),
      GraderBalances := GraderBalances g\<rparr>) m = (g', r)" using run by simp
  have "parsed_ok c (GraderNetwork g) d m None"
    using block_store.fetch_written [OF store w] by (simp add: parsed_ok_def)
  moreover have "list_all2 (parsed_ok c (GraderNetwork g) d) (take (length xs) ms) xs"
    using parsed_ok_write [OF store g(1) nb(1) w _ g(2)] nb(2) by simp
  moreover have "store_wf c d" using store_wf_write [OF store g(3) _ w] nb(3) by simp
  ultimately show ?thesis
    using parsed_next [OF inv m _ _ _ _ _ run] g(4-6) by simp
qed

lemma FetchOPRBlock_shape:
  "FetchOPRBlock c f g eb = Inr (Some b) \<Longrightarrow> BlockDbht b = DBHeight eb \<and> \<not> EmptyOPRBlock b"
  by (auto simp: FetchOPRBlock_def rbind_Inr_iff split: if_splits option.splits)

lemma sync_block_inv:
  assumes store: "block_store (DbPut c) (DbGet c)" and inv: "grader_inv c ms n g xs"
    and m: "NextEBlock (OPRChain g) = Some m" and run: "sync_block c f g m = (g', r)" and r: "\<not> is_panic r"
  shows "(\<exists>e. r = Inl e) \<and> grader_inv c ms n g' xs \<or> r = Inr () \<and> (\<exists>x. grader_inv c ms n g' (xs @ [x]))"
proof -
  obtain eb where eb: "EntryBlock m = Some eb" "height_of m = DBHeight eb" using next_block(4) [OF inv m] by blast
  have wf: "store_wf c (GraderStore g)" using inv by (simp add: grader_inv_def)
  show ?thesis
  proof (cases "FetchStoredBlock (DbGet c) (GraderStore g) (DBHeight eb)")
    case (Inr b)
    then have "BlockDbht b = height_of m"
      using wf next_block(3) [OF inv m] by (simp add: store_wf_def eb(2))
    then show ?thesis
      using add_block_inv [OF store inv m, of b g' r] skip_block_inv [OF inv m, of b g' r] run Inr eb inv r
      by (auto simp: sync_block_def split: if_splits)
  next
    case (Inl e)
    show ?thesis
    proof (cases "FetchOPRBlock c f g eb")
      case (Inl e')
      then show ?thesis using run inv eb \<open>FetchStoredBlock _ _ _ = Inl e\<close> by (auto simp: sync_block_def)
    next
      case (Inr x)
      show ?thesis
      proof (cases x)
        case None
        obtain d w where w: "WriteInvalidOPRBlock (DbPut c) (GraderStore g) (DBHeight eb) = (d, w)" by fastforce
        show ?thesis
        proof (cases w)
          case (Inl e'')
          then have "d = GraderStore g"
            using w block_store.write_fails [OF store] by (auto simp: WriteInvalidOPRBlock_def)
          then show ?thesis
            using run inv eb \<open>FetchStoredBlock _ _ _ = Inl e\<close> Inr None w Inl by (auto simp: sync_block_def)
        next
          case (Inr u)
          then show ?thesis
            using run eb \<open>FetchStoredBlock _ _ _ = Inl e\<close> \<open>FetchOPRBlock _ _ _ _ = Inr x\<close> None w
              invalid_block_inv [OF store inv m, of d g' r]
            by (auto simp: sync_block_def)
        qed
      next
        case (Some b)
        then show ?thesis
          using run eb \<open>FetchStoredBlock _ _ _ = Inl e\<close> Inr FetchOPRBlock_shape [of c f g eb b]
            add_block_inv [OF store inv m, of b g' r] r inv
          by (auto simp: sync_block_def)
      qed
    qed
  qed
qed

lemma sync_loop_inv:
  assumes "block_store (DbPut c) (DbGet c)" "grader_inv c ms n g xs"
    and "sync_loop c f g = (g', r)" "\<not> is_panic r"
  shows "\<exists>ys. grader_inv c ms n g' (xs @ ys) \<and> (r = Inr () \<longrightarrow> length (xs @ ys) = n)"
  using assms
proof (induction c f g arbitrary: xs rule: sync_loop.induct)
  case (1 c f g)
  show ?case
  proof (cases "NextEBlock (OPRChain g)")
    case None
    have "synced_to ms (length xs) n (OPRChain g)" using 1(3) by (simp add: grader_inv_def)
    from NextEBlock_chain(1) [OF this] None have "length xs = n" by (auto split: if_splits)
    with None 1 show ?thesis by (intro exI [of _ "[]"]) (simp add: sync_loop.simps [of c f g])
  next
    case (Some m)
    obtain g1 r1 where g1: "sync_block c f g m = (g1, r1)" by fastforce
    show ?thesis
    proof (cases r1)
      case (Inl e)
      then have "g' = g1" "r = Inl e" using 1(4) Some g1 by (simp_all add: sync_loop.simps [of c f g])
      with sync_block_inv [OF 1(2,3) Some g1] 1(5) Inl show ?thesis by (intro exI [of _ "[]"]) auto
    next
      case (Inr u)
      then have l: "sync_loop c f g1 = (g', r)" using 1(4) Some g1 by (simp add: sync_loop.simps [of c f g])
      obtain x where x: "grader_inv c ms n g1 (xs @ [x])"
        using sync_block_inv [OF 1(2,3) Some g1] Inr by auto
      from 1(1) [OF Some g1 [symmetric] _ 1(2) x l 1(5)] Inr show ?thesis by auto
    qed
  qed
qed

lemma grader_inv_chain:
  assumes "grader_inv c ms k g xs" "height_chain (ms @ ns)" "synced_to (ms @ ns) (length xs) n a"
  shows "grader_inv c (ms @ ns) n (g\<lparr>OPRChain := a\<rparr>) xs"
proof -
  have "length xs \<le> length ms" using assms(1) by (auto simp: grader_inv_def synced_to_def)
  with assms show ?thesis by (auto simp: grader_inv_def)
qed

text \<open>What the network has to do for a synchronisation to see the whole chain.\<close>

definition serves_chain :: "factomd \<Rightarrow> EntryBlockMarker list \<Rightarrow> EntryBlockSync \<Rightarrow> bool" where
  "serves_chain f ms a \<longleftrightarrow> ms \<noteq> [] \<and> serves (GetEBlock f) ms
     \<and> GetChainHead f (EntryBlockSync.ChainID a) = Inr (prev_key ms (length ms))"

lemma Sync_inv:
  assumes store: "block_store (DbPut c) (DbGet c)" and inv: "grader_inv c ms k g xs"
    and f: "serves_chain f ms (OPRChain g)"
    and run: "Sync c f g = Some (g', r)" and r: "\<not> is_panic r"
  shows "\<exists>ys. grader_inv c ms (length ms) g' (xs @ ys) \<and> (r = Inr () \<longrightarrow> length (xs @ ys) = length ms)"
proof -
  have n: "height_chain ms" "is_chain ms" "synced_to ms (length xs) k (OPRChain g)"
    using inv by (simp_all add: grader_inv_def height_chain_def)
  obtain a where a: "SyncBlocks (GetChainHead f) (GetEBlock f) (OPRChain g) = Some (a, Inr ())"
    "synced_to ms (length xs) (length ms) a"
    using SyncBlocks_chain [where get_chain_head = "GetChainHead f", OF n(2) _ n(3)] f
    by (auto simp: serves_chain_def)
  have inv1: "grader_inv c ms (length ms) (g\<lparr>OPRChain := a\<rparr>) xs"
    using grader_inv_chain [of c ms k g xs "[]"] inv n(1) a(2) by simp
  show ?thesis
  proof (cases "Synced a")
    case True
    then show ?thesis
      using run a inv1 Synced_chain [OF n(2) a(2)] by (intro exI [of _ "[]"]) (auto simp: Sync_def)
  next
    case False
    then have "sync_loop c f (g\<lparr>OPRChain := a\<rparr>) = (g', r)" using run a by (simp add: Sync_def)
    from sync_loop_inv [OF store inv1 this r] show ?thesis .
  qed
qed

section \<open>Runs\<close>

text \<open>
  A grader over time: it starts with a database that has every block under its height, the chain grows,
  and it synchronises, with a factomd that knows the whole chain but may fail on any entry, or with
  one that fails on the entry blocks. A panic or a fatal error ends the process.
\<close>

inductive grader_run :: "'d codecs \<Rightarrow> EntryBlockMarker list \<Rightarrow> 'd QuickGrader \<Rightarrow> bool" for c where
  start: "store_wf c d \<Longrightarrow> grader_run c [] (NewQuickGrader network protocol d NewBalanceTracker)"
| grow: "grader_run c ms g \<Longrightarrow> height_chain (ms @ ns) \<Longrightarrow> grader_run c (ms @ ns) g"
| sync: "grader_run c ms g \<Longrightarrow> serves_chain f ms (OPRChain g) \<Longrightarrow> Sync c f g = Some (g', r) \<Longrightarrow>
    \<not> is_panic r \<Longrightarrow> grader_run c ms g'"
| fail: "grader_run c ms g \<Longrightarrow> SyncBlocks (GetChainHead f) (GetEBlock f) (OPRChain g) = Some (a, Inl e) \<Longrightarrow>
    Sync c f g = Some (g', r) \<Longrightarrow> grader_run c ms g'"

lemma grader_inv_New:
  "height_chain ms \<Longrightarrow> store_wf c d \<Longrightarrow> grader_inv c ms 0 (NewQuickGrader network protocol d NewBalanceTracker) []"
  using synced_to_extend [OF synced_to_New, where ms = "[]" and ns = ms]
  by (simp add: grader_inv_def NewQuickGrader_def fun_eq_iff)

lemma height_chain_Nil [simp]: "height_chain []"
  by (simp add: height_chain_def is_chain_def)

lemma grader_run_inv:
  assumes "block_store (DbPut c) (DbGet c)" "grader_run c ms g"
  shows "\<exists>k xs. grader_inv c ms k g xs"
  using assms(2)
proof induction
  case (start d network protocol)
  show ?case by (intro exI, rule grader_inv_New [OF height_chain_Nil start])
next
  case (grow ms g ns)
  then obtain k xs where inv: "grader_inv c ms k g xs" by blast
  then have "synced_to (ms @ ns) (length xs) k (OPRChain g)" by (simp add: grader_inv_def synced_to_extend)
  from grader_inv_chain [OF inv grow.hyps(2) this] show ?case by auto
next
  case (sync ms g f g' r)
  then show ?case using Sync_inv [OF assms(1)] by blast
next
  case (fail ms g f a e g' r)
  then have "g' = g" using SyncBlocks_fail [OF fail.hyps(2)] by (simp add: Sync_def)
  with fail.IH show ?case by simp
qed

lemma graded_blocks_heights:
  "list_all2 (parsed_ok c network d) ms xs \<Longrightarrow> sorted_wrt (<) (map height_of ms) \<Longrightarrow>
     sorted_wrt (<) (map BlockDbht (graded_blocks xs))
     \<and> set (map BlockDbht (graded_blocks xs)) \<subseteq> set (map height_of ms)
     \<and> (\<forall>b \<in> set (graded_blocks xs). \<exists>n. MinRecords network (BlockDbht b) = Inr n \<and> n \<le> length (GradedOPRs b))"
proof (induction ms xs rule: list_all2_induct)
  case (Cons m ms x xs)
  then show ?case by (cases x) (auto simp: parsed_ok_def)
qed simp


section \<open>Restarting\<close>

lemma graded_blocks_stored [simp]:
  "graded_blocks (map (map_option stored_block) xs) = map stored_block (graded_blocks xs)"
proof (induction xs)
  case (Cons x xs)
  then show ?case by (cases x) simp_all
qed simp

lemma all_rewards_stored [simp]: "all_rewards network (map stored_block bs) = all_rewards network bs"
  by (induction bs) simp_all

lemma stored_stored [simp]: "stored_block (stored_block b) = stored_block b"
proof -
  have "gob_record (gob_record r) = gob_record r" for r
    by (cases "entries (Assets r) = []") (simp_all add: gob_record_def entries_def)
  then have "map gob_record (map gob_record rs) = map gob_record rs" for rs by simp
  then show ?thesis unfolding stored_block_def ToOPRBlock_def Encode_object_def
    by (simp del: map_map)
qed

text \<open>One block read from the store of the grader before.\<close>

lemma restart_block:
  assumes store: "block_store (DbPut c) (DbGet c)" and puts: "\<And>d b k v. snd (DbPut c d b k v) = Inr ()"
    and inv: "grader_inv c ms n h ys" and m: "NextEBlock (OPRChain h) = Some m"
    and x: "parsed_ok c (GraderNetwork h) (GraderStore h) m x"
    and small: "\<forall>k. credited (B58dec c) (all_rewards (GraderNetwork h) (graded_blocks (ys @ [x]))) k < 2 ^ 63"
  shows "\<exists>h'. sync_block c f h m = (h', Inr ()) \<and> grader_inv c ms n h' (ys @ [map_option stored_block x])
    \<and> GraderNetwork h' = GraderNetwork h
    \<and> (\<forall>l. int64 l \<longrightarrow> l \<noteq> height_of m \<longrightarrow>
        FetchStoredBlock (DbGet c) (GraderStore h') l = FetchStoredBlock (DbGet c) (GraderStore h) l)"
proof -
  obtain eb where eb: "EntryBlock m = Some eb" "height_of m = DBHeight eb" using next_block(4) [OF inv m] by blast
  have syn: "synced_to ms (length ys) n (OPRChain h)" using inv by (simp add: grader_inv_def)
  then have "length ys < n" "m = ms ! length ys"
    using NextEBlock_chain(1) [OF syn] m by (auto simp: synced_to_def split: if_splits)
  from BlockParsed_chain [OF syn this(1)] obtain a where a: "BlockParsed (OPRChain h) m = Inr a"
    by (auto simp: \<open>m = ms ! length ys\<close>)
  show ?thesis
  proof (cases x)
    case None
    then obtain b where b: "FetchStoredBlock (DbGet c) (GraderStore h) (height_of m) = Inr b" "EmptyOPRBlock b"
      using x by (auto simp: parsed_ok_def)
    from skip_block_inv [OF inv m b] a have "grader_inv c ms n (h\<lparr>OPRChain := a\<rparr>) (ys @ [None])"
      by (simp add: block_parsed_def)
    with None b a eb show ?thesis by (auto simp: sync_block_def block_parsed_def)
  next
    case (Some b)
    let ?b = "stored_block b" and ?net = "GraderNetwork h"
    have b: "FetchStoredBlock (DbGet c) (GraderStore h) (height_of m) = Inr ?b" "BlockDbht ?b = height_of m"
      "\<not> EmptyOPRBlock ?b" "has_account (B58dec c) (block_rewards ?net ?b)"
      using x Some by (simp_all add: parsed_ok_def)
    obtain k where k: "MinRecords ?net (BlockDbht ?b) = Inr k" "k \<le> length (GradedOPRs ?b)"
      using x Some by (auto simp: parsed_ok_def)
    obtain d where w: "WriteOPRBlock (DbPut c) (GraderStore h) ?b = (d, Inr ())"
      using puts by (metis WriteOPRBlock_def prod.collapse)
    have hb: "balances_ok (GraderBalances h)"
      "lookup_balance (GraderBalances h) = credited (B58dec c) (all_rewards ?net (graded_blocks ys))"
      using inv by (simp_all add: grader_inv_def)
    have "\<forall>k. lookup_balance (GraderBalances h) k + credited (B58dec c) (block_rewards ?net ?b) k < 2 ^ 63"
      using small Some by (simp add: hb(2))
    from pay_winners_pays [OF k hb(1) b(4) this] obtain t where
      t: "pay_winners c ?net (BlockDbht ?b) ?b (GraderBalances h) = Inr t" by blast
    let ?h = "h\<lparr>GraderStore := d, oprBlks := oprBlks h @ [?b], GraderBalances := t, OPRChain := a\<rparr>"
    have run: "add_block c h m (BlockDbht ?b) ?b = (?h, Inr ())"
      using w t a by (simp add: add_block_def block_parsed_def)
    from add_block_inv [OF store inv m b(2,3) run] have "grader_inv c ms n ?h (ys @ [Some ?b])" by simp
    moreover have "sync_block c f h m = (?h, Inr ())"
      using run b eb by (simp add: sync_block_def)
    moreover have "FetchStoredBlock (DbGet c) d l = FetchStoredBlock (DbGet c) (GraderStore h) l"
      if "int64 l" "l \<noteq> height_of m" for l
      using block_store.fetch_other [OF store w _ that(1)] that(2) b(2) next_block(3) [OF inv m] by simp
    ultimately show ?thesis using Some by auto
  qed
qed

lemma all_rewards_nonneg: "nonneg (all_rewards network bs)"
  by (induction bs) (simp_all add: block_rewards_nonneg)

lemma rewards_prefix:
  "credited dec (all_rewards network (graded_blocks (take p xs))) k
     \<le> credited dec (all_rewards network (graded_blocks xs)) k"
proof -
  have "graded_blocks xs = graded_blocks (take p xs) @ graded_blocks (drop p xs)"
    by (simp flip: graded_blocks_simps(4))
  then show ?thesis
    using credited_le_total [OF all_rewards_nonneg, of dec network "graded_blocks (drop p xs)" k] by simp
qed

lemma restart_loop:
  assumes store: "block_store (DbPut c) (DbGet c)" and puts: "\<And>d b k v. snd (DbPut c d b k v) = Inr ()"
    and "height_chain ms" and xs: "length xs = length ms"
    and small: "\<forall>k. credited (B58dec c) (all_rewards (GraderNetwork h) (graded_blocks xs)) k < 2 ^ 63"
    and "grader_inv c ms (length ms) h (map (map_option stored_block) (take p xs))" "p \<le> length ms"
    and "\<forall>i. p \<le> i \<longrightarrow> i < length ms \<longrightarrow> parsed_ok c (GraderNetwork h) (GraderStore h) (ms ! i) (xs ! i)"
  shows "\<exists>h'. sync_loop c f h = (h', Inr ())
    \<and> grader_inv c ms (length ms) h' (map (map_option stored_block) xs) \<and> GraderNetwork h' = GraderNetwork h"
  using assms(5-)
proof (induction "length ms - p" arbitrary: p h)
  case 0
  then have "p = length ms" by simp
  have "synced_to ms (length ms) (length ms) (OPRChain h)"
    using 0(3) xs \<open>p = length ms\<close> by (simp add: grader_inv_def)
  then have "NextEBlock (OPRChain h) = None" by (simp add: NextEBlock_chain(1))
  then show ?case using 0(3) xs \<open>p = length ms\<close> by (simp add: sync_loop.simps [of c f h])
next
  case (Suc d)
  then have p: "p < length ms" "d = length ms - Suc p" by simp_all
  let ?ys = "map (map_option stored_block) (take p xs)" and ?net = "GraderNetwork h"
  have "synced_to ms p (length ms) (OPRChain h)" using Suc.prems(2) xs p by (simp add: grader_inv_def)
  then have m: "NextEBlock (OPRChain h) = Some (ms ! p)" using p by (simp add: NextEBlock_chain(1))
  have take: "take (Suc p) xs = take p xs @ [xs ! p]" using p xs by (simp add: take_Suc_conv_app_nth)
  have "\<forall>k. credited (B58dec c) (all_rewards ?net (graded_blocks (?ys @ [xs ! p]))) k < 2 ^ 63"
  proof
    fix k
    have "all_rewards ?net (graded_blocks (?ys @ [xs ! p])) = all_rewards ?net (graded_blocks (take (Suc p) xs))"
      by (simp add: take)
    then show "credited (B58dec c) (all_rewards ?net (graded_blocks (?ys @ [xs ! p]))) k < 2 ^ 63"
      using rewards_prefix [of "B58dec c" ?net "Suc p" xs k] spec [OF Suc.prems(1), of k] by simp
  qed
  from restart_block [OF store puts Suc.prems(2) m _ this, of f] Suc.prems(4) p obtain h1 where
    h1: "sync_block c f h (ms ! p) = (h1, Inr ())"
      "grader_inv c ms (length ms) h1 (?ys @ [map_option stored_block (xs ! p)])" "GraderNetwork h1 = ?net"
      "\<forall>l. int64 l \<longrightarrow> l \<noteq> height_of (ms ! p) \<longrightarrow>
        FetchStoredBlock (DbGet c) (GraderStore h1) l = FetchStoredBlock (DbGet c) (GraderStore h) l"
    by auto
  have "parsed_ok c (GraderNetwork h1) (GraderStore h1) (ms ! i) (xs ! i)" if "Suc p \<le> i" "i < length ms" for i
  proof -
    have "int64 (height_of (ms ! i))" "height_of (ms ! i) \<noteq> height_of (ms ! p)"
      using height_chain_nth(2) [OF assms(3)] height_chain_less [OF assms(3), of p i] that by auto
    then have "FetchStoredBlock (DbGet c) (GraderStore h1) (height_of (ms ! i))
        = FetchStoredBlock (DbGet c) (GraderStore h) (height_of (ms ! i))" using h1(4) by blast
    then have "parsed_ok c (GraderNetwork h1) (GraderStore h1) (ms ! i) (xs ! i)
        = parsed_ok c ?net (GraderStore h) (ms ! i) (xs ! i)"
      by (simp add: parsed_ok_def h1(3) split: option.split)
    then show ?thesis using Suc.prems(4) that by simp
  qed
  with Suc.hyps(1) [OF p(2), of h1] Suc.prems(1) h1(2,3) p(1) obtain h' where
    "sync_loop c f h1 = (h', Inr ())" "grader_inv c ms (length ms) h' (map (map_option stored_block) xs)"
    "GraderNetwork h' = ?net"
    by (auto simp: take)
  then show ?case using m h1(1) by (simp add: sync_loop.simps [of c f h])
qed

text \<open>A grader that is started with a database that has every block.\<close>

lemma Sync_stored:
  assumes store: "block_store (DbPut c) (DbGet c)" and puts: "\<And>d b k v. snd (DbPut c d b k v) = Inr ()"
    and chain: "height_chain ms" "store_wf c d" "list_all2 (parsed_ok c network d) ms xs"
    and small: "\<forall>k. credited (B58dec c) (all_rewards network (graded_blocks xs)) k < 2 ^ 63"
    and f: "serves_chain f ms (OPRChain (NewQuickGrader network protocol d NewBalanceTracker))"
  shows "\<exists>g'. Sync c f (NewQuickGrader network protocol d NewBalanceTracker) = Some (g', Inr ())
    \<and> grader_inv c ms (length ms) g' (map (map_option stored_block) xs) \<and> GraderNetwork g' = network"
proof -
  let ?new = "NewQuickGrader network protocol d NewBalanceTracker"
  have new: "GraderNetwork ?new = network" "GraderStore ?new = d" by (simp_all add: NewQuickGrader_def)
  have ms: "is_chain ms" "ms \<noteq> []" "serves (GetEBlock f) ms"
    using chain(1) f by (simp_all add: height_chain_def serves_chain_def)
  have new_inv: "grader_inv c ms 0 ?new []" by (rule grader_inv_New [OF chain(1,2)])
  then have "synced_to ms 0 0 (OPRChain ?new)" by (simp add: grader_inv_def)
  with SyncBlocks_chain [where get_chain_head = "GetChainHead f", OF ms(1,3) _ ms(2)] f obtain a where
    a: "SyncBlocks (GetChainHead f) (GetEBlock f) (OPRChain ?new) = Some (a, Inr ())" "synced_to ms 0 (length ms) a"
    unfolding serves_chain_def by blast
  let ?h = "?new\<lparr>OPRChain := a\<rparr>"
  have "grader_inv c ms (length ms) ?h (map (map_option stored_block) (take 0 xs))"
    using grader_inv_chain [of c ms 0 ?new "[]" "[]"] new_inv chain(1) a(2) by simp
  then obtain h' where h': "sync_loop c f ?h = (h', Inr ())"
    "grader_inv c ms (length ms) h' (map (map_option stored_block) xs)" "GraderNetwork h' = network"
    using restart_loop [OF store puts chain(1), of xs ?h 0 f] chain(3) small
    by (auto simp: new list_all2_conv_all_nth)
  have "\<not> Synced a" using Synced_chain [OF ms(1) a(2)] ms(2) by simp
  then have "Sync c f ?new = Some (h', Inr ())" using a(1) h'(1) by (simp add: Sync_def)
  with h' show ?thesis by blast
qed


section \<open>A run\<close>

definition sample_block :: OprBlock where
  "sample_block = \<lparr>BlockOPRs = [], GradedOPRs = replicate 25 (NewOraclePriceRecord\<lparr>CoinbasePEGAddress :=
       ''PEG_'' @ Base58Encode (replicate 32 1 @ asset_checksum ''PEG'' (replicate 32 1))\<rparr>),
     BlockDbht = 258800, TotalNumberRecords = 25, EmptyOPRBlock = False\<rparr>"

definition sample_codecs :: "OPRBlockDatabaseObject MapDb codecs" where
  "sample_codecs = \<lparr>B58enc = Base58Encode, B58dec = Base58Decode, Oob = (\<lambda>_. 0), JsonDecode = (\<lambda>_ r. Inr (r, None)),
     PUnmarshal = module_punmarshal, IsValidAddress = (\<lambda>a. Valid a = Inr ()), LX = (\<lambda>_. replicate 8 0),
     EntryHashOf = (\<lambda>e. sha256 (Content e)), ConfigNetwork = MainNetwork, DbPut = MapDb_Put, DbGet = MapDb_Get\<rparr>"

definition sample_db :: "OPRBlockDatabaseObject MapDb" where
  "sample_db = fst (WriteOPRBlock MapDb_Put NewMapDb sample_block)"

definition sample_ms :: "EntryBlockMarker list" where
  "sample_ms = [\<lparr>KeyMr = ''k'', EntryBlock = Some \<lparr>DBHeight = 258800, BlockSequenceNumber = 0,
     PrevKeyMR = ZeroHash, EntryList = []\<rparr>\<rparr>]"

definition sample_factomd :: factomd where
  "sample_factomd = \<lparr>GetChainHead = (\<lambda>_. Inr ''k''), GetEBlock = (\<lambda>_. Inr (the (EntryBlock (hd sample_ms)))),
     GetEntry = (\<lambda>_. Inl (GoError ''offline'')), Arrival = rev\<rparr>"

definition sample_new :: "OPRBlockDatabaseObject MapDb QuickGrader" where
  "sample_new = NewQuickGrader MainNetwork ''PegNet'' sample_db NewBalanceTracker"

lemma sample_store: "block_store (DbPut sample_codecs) (DbGet sample_codecs)"
  using mapstore.block_store_axioms by (simp add: sample_codecs_def)

lemma sample_puts: "snd (DbPut sample_codecs d b k v) = Inr ()"
  by (simp add: sample_codecs_def MapDb_Put_def)

lemma sample_written: "WriteOPRBlock MapDb_Put NewMapDb sample_block = (sample_db, Inr ())"
  by (simp add: sample_db_def WriteOPRBlock_def MapDb_Put_def)

lemma sample_chain: "height_chain sample_ms"
  by (simp add: height_chain_def is_chain_def sample_ms_def ZeroHash_def prev_key_def height_of_def int64_def)

lemma sample_wf: "store_wf sample_codecs sample_db"
proof -
  have "store_wf sample_codecs NewMapDb"
    by (simp add: store_wf_def sample_codecs_def FetchStoredBlock_def MapDb_Get_def NewMapDb_def)
  from store_wf_write [OF sample_store this, of sample_block] sample_written show ?thesis
    by (simp add: sample_codecs_def sample_block_def int64_def)
qed

lemma sample_rewards:
  "block_rewards MainNetwork sample_block = replicate 25 (CoinbasePEGAddress (hd (GradedOPRs sample_block)), 36000000000)"
proof -
  have "GetRewardFromPlace i MainNetwork 258800 = Inr (if i \<ge> 25 then 0 else 36000000000)" for i
    by (simp add: GetRewardFromPlace_def main_grading_version_def activation_defs getRewardFromPlaceVersionThree_def)
  moreover have "MinRecords MainNetwork 258800 = Inr 25"
    by (simp add: MinRecords_def main_grading_version_def activation_defs)
  ultimately show ?thesis
    by (simp add: block_rewards_def sample_block_def reward_of_def enumerate_replicate_eq upt_rec numeral_eq_Suc)
qed

lemma sample_account:
  "ConvertAddress Base58Decode (''PEG_'' @ Base58Encode (replicate 32 1 @ asset_checksum ''PEG'' (replicate 32 1)))
     = Inr (''PEG'', replicate 32 1)"
proof -
  let ?b = "replicate 32 1 @ asset_checksum ''PEG'' (replicate 32 1)"
  have "hd ?b \<noteq> 0" by (simp add: hd_append)
  then have len: "48 \<le> length (Base58Encode ?b)" "length (Base58Encode ?b) \<le> 50"
    using length_Base58Encode_36 [of ?b] by auto
  have "CheckPrefix ''PEG''" by code_simp
  from ConvertPegNetAssetToRaw_address [OF this, of "Base58Encode ?b" Base58Decode "''PEG''" "replicate 32 1"] len
  have "ConvertPegNetAssetToRaw Base58Decode (''PEG_'' @ Base58Encode ?b) = Inr (''PEG'', replicate 32 1)"
    by (simp add: b58.dec_enc)
  then show ?thesis by (simp add: ConvertAddress_def copy32_def)
qed

lemma sample_stored:
  "list_all2 (parsed_ok sample_codecs MainNetwork sample_db) sample_ms [Some sample_block]"
proof -
  have "has_account Base58Decode (replicate n (CoinbasePEGAddress (hd (GradedOPRs sample_block)), v))" for n v
    using sample_account by (induction n) (auto simp: sample_block_def)
  then have "has_account (B58dec sample_codecs) (block_rewards MainNetwork sample_block)"
    unfolding sample_rewards by (simp add: sample_codecs_def)
  moreover have "FetchStoredBlock (DbGet sample_codecs) sample_db 258800 = Inr (stored_block sample_block)"
    using mapstore.fetch_written [OF sample_written] by (simp add: sample_codecs_def sample_block_def)
  moreover have "MinRecords MainNetwork 258800 = Inr 25"
    by (simp add: MinRecords_def main_grading_version_def activation_defs)
  ultimately show ?thesis
    by (simp add: parsed_ok_def sample_ms_def height_of_def) (simp add: sample_block_def)
qed

lemma sample_serves: "serves_chain sample_factomd sample_ms a"
  by (simp add: serves_chain_def sample_factomd_def serves_def sample_ms_def prev_key_def)

lemma sample_run:
  "\<exists>g. Sync sample_codecs sample_factomd sample_new = Some (g, Inr ()) \<and> grader_run sample_codecs sample_ms sample_new
    \<and> oprBlks g = [stored_block sample_block] \<and> GraderNetwork g = MainNetwork"
proof -
  have "total (block_rewards MainNetwork sample_block) = 900000000000"
    unfolding sample_rewards by (simp add: total_def sum_list_replicate)
  then have "credited (B58dec sample_codecs) (all_rewards MainNetwork (graded_blocks [Some sample_block])) k < 2 ^ 63" for k
    using credited_le_total [OF block_rewards_nonneg, of "B58dec sample_codecs" MainNetwork sample_block k] by simp
  then obtain g where "Sync sample_codecs sample_factomd sample_new = Some (g, Inr ())" "GraderNetwork g = MainNetwork"
    "oprBlks g = [stored_block sample_block]"
    using Sync_stored [OF sample_store sample_puts sample_chain sample_wf sample_stored _ sample_serves, of "''PegNet''"]
    by (auto simp: sample_new_def grader_inv_def simp del: split_paired_All)
  moreover have "grader_run sample_codecs sample_ms sample_new"
    using grader_run.grow [OF grader_run.start [OF sample_wf], of sample_ms] sample_chain
    by (simp add: sample_new_def)
  ultimately show ?thesis by blast
qed



end
