(* ===== verification/GraderFetch.thy ===== *)
theory GraderFetch
  imports GraderSync_Correct
begin

text \<open>
  Fetching the records of a block: the order in which the workers answer cannot be seen in it, but a
  single entry can end the process.
\<close>

section \<open>The order of the answers\<close>

lemma fetchOPRWorker_Inl: "fetchOPRWorker c f g ws h e job = Inl x \<Longrightarrow> is_panic (Inl x :: 'a res)"
proof -
  have "is_panic (Inl x :: 'a res)" if "verify_winners i ns ws = Inl x" for i ns
    using that by (induction i ns ws rule: verify_winners.induct)
      (auto simp: Let_def guard_res_def split: if_splits)
  then show "fetchOPRWorker c f g ws h e job = Inl x \<Longrightarrow> is_panic (Inl x :: 'a res)"
    by (auto simp: fetchOPRWorker_def VerifyWinners_def split: sum.splits go_error.splits option.splits
        if_splits elim: rbind.elims)
qed

lemma fetchOPRWorker_order: "fetchOPRWorker c f g ws h e job = Inr x \<Longrightarrow> order x = fst job"
  by (auto simp: fetchOPRWorker_def rbind_Inr_iff split: sum.splits go_error.splits option.splits if_splits)

lemma answers_order:
  "res_map (fetchOPRWorker c f g ws h e) jobs = Inr xs \<Longrightarrow> map order xs = map fst jobs"
  by (induction jobs arbitrary: xs) (auto simp: rbind_Inr_iff dest: fetchOPRWorker_order)

lemma last_error:
  "foldl (\<lambda>e x. if err x \<noteq> None then err x else e) e0 xs = None \<longleftrightarrow> e0 = None \<and> (\<forall>x \<in> set xs. err x = None)"
  by (induction xs arbitrary: e0) auto

lemma collected_sorted:
  assumes "map order xs = [0..<n]" "mset ys = mset xs"
  shows "sort_stable (\<lambda>a b. order a < order b) (filter (\<lambda>x. opr x \<noteq> None) ys) = filter (\<lambda>x. opr x \<noteq> None) xs"
proof -
  let ?F = "filter (\<lambda>x. opr x \<noteq> None)"
  have "distinct (map order xs)" "sorted (map order xs)" using assms(1) by simp_all
  then have "inj_on order (set (?F ys))" "sorted (map order (?F xs))"
    using mset_eq_setD [OF assms(2)] by (auto simp: distinct_map intro: inj_on_subset sorted_filter)
  moreover have "mset (?F ys) = mset (?F xs)" using assms(2) by simp
  ultimately have "sort_key order (?F ys) = ?F xs" by (intro sort_key_inj_key_eq)
  then show ?thesis using sort_stable_sort_key [of "?F ys" "\<lambda>a b. order a < order b" order] by simp
qed

text \<open>The records in the order of their entries, whatever the order of the answers.\<close>

lemma ParallelFetch_answers:
  assumes "\<And>xs. mset (Arrival f xs) = mset xs"
  shows "ParallelFetchOPRsFromEBlock c f g b w = rbind (GetPreviousWinners g (word_of_int (DBHeight b))) (\<lambda>ws.
    rbind (res_map (fetchOPRWorker c f g ws (DBHeight b) w) (enumerate 0 (EntryList b))) (\<lambda>xs.
      Inr (map (\<lambda>x. the (opr x)) (filter (\<lambda>x. opr x \<noteq> None) xs),
           foldl (\<lambda>e x. if err x \<noteq> None then err x else e) None (Arrival f xs))))"
proof -
  have "sort_stable (\<lambda>a b. order a < order b) (filter (\<lambda>x. opr x \<noteq> None) (Arrival f xs))
      = filter (\<lambda>x. opr x \<noteq> None) xs"
    if "res_map (fetchOPRWorker c f g ws h w) (enumerate 0 js) = Inr xs" for ws h js xs
    using collected_sorted [OF _ assms, of xs "length js"] answers_order [OF that]
    by (simp add: map_fst_enumerate)
  then have "rbind (res_map (fetchOPRWorker c f g ws h w) (enumerate 0 js)) (\<lambda>xs.
        Inr (map (\<lambda>x. the (opr x)) (sort_stable (\<lambda>a b. order a < order b) (filter (\<lambda>x. opr x \<noteq> None) (Arrival f xs))),
          foldl (\<lambda>e x. if err x \<noteq> None then err x else e) None (Arrival f xs)))
      = rbind (res_map (fetchOPRWorker c f g ws h w) (enumerate 0 js)) (\<lambda>xs.
        Inr (map (\<lambda>x. the (opr x)) (filter (\<lambda>x. opr x \<noteq> None) xs),
          foldl (\<lambda>e x. if err x \<noteq> None then err x else e) None (Arrival f xs)))" for ws h js
    by (cases "res_map (fetchOPRWorker c f g ws h w) (enumerate 0 js)") simp_all
  then show ?thesis by (simp add: ParallelFetchOPRsFromEBlock_def Let_def)
qed

text \<open>
  C20. The order in which the workers answer cannot be seen in the block: in whatever order the answers
  come, a block is graded from the same records in the order of their entries, or it fails; which of
  several errors is reported is all that depends on the order.
\<close>

theorem fetch_order_irrelevant:
  assumes "\<And>xs. mset (Arrival f xs) = mset xs"
  shows "FetchOPRBlock c f g b = Inr x \<longleftrightarrow> FetchOPRBlock c (f\<lparr>Arrival := \<lambda>xs. xs\<rparr>) g b = Inr x"
proof -
  let ?f = "f\<lparr>Arrival := \<lambda>xs. xs\<rparr>"
  have worker: "fetchOPRWorker c ?f = fetchOPRWorker c f" by (simp add: fun_eq_iff fetchOPRWorker_def)
  have errors: "foldl (\<lambda>e x. if err x \<noteq> None then err x else e) None (Arrival f xs) = None
      \<longleftrightarrow> foldl (\<lambda>e x. if err x \<noteq> None then err x else e) None xs = None" for xs
    unfolding last_error using mset_eq_setD [OF assms [of xs]] by simp
  have other: "ParallelFetchOPRsFromEBlock c ?f g b True = rbind (GetPreviousWinners g (word_of_int (DBHeight b))) (\<lambda>ws.
    rbind (res_map (fetchOPRWorker c f g ws (DBHeight b) True) (enumerate 0 (EntryList b))) (\<lambda>xs.
      Inr (map (\<lambda>x. the (opr x)) (filter (\<lambda>x. opr x \<noteq> None) xs),
           foldl (\<lambda>e x. if err x \<noteq> None then err x else e) None xs)))"
    by (subst ParallelFetch_answers) (simp_all only: worker, simp_all)
  have "ParallelFetchOPRsFromEBlock c f g b True = Inr (rs, None)
      \<longleftrightarrow> ParallelFetchOPRsFromEBlock c ?f g b True = Inr (rs, None)" for rs
    unfolding ParallelFetch_answers [OF assms] other by (auto simp: rbind_Inr_iff errors simp del: not_None_eq)
  then have "(\<exists>rs. ParallelFetchOPRsFromEBlock c f g b True = Inr (rs, None) \<and> P rs)
      \<longleftrightarrow> (\<exists>rs. ParallelFetchOPRsFromEBlock c ?f g b True = Inr (rs, None) \<and> P rs)" for P
    by blast
  moreover have "FetchOPRBlock c k g b = Inr x \<longleftrightarrow> (\<exists>n. MinRecords (GraderNetwork g) (DBHeight b) = Inr n
      \<and> (if length (EntryList b) < n then x = None
         else \<exists>rs. ParallelFetchOPRsFromEBlock c k g b True = Inr (rs, None) \<and>
           (if length rs < n then Inr None
            else rbind (GradeMinimum (LX c) rs (GraderNetwork g) (DBHeight b)) (\<lambda>graded.
              if length graded < n then Inr None
              else Inr (Some \<lparr>BlockOPRs = after_grading (LX c) rs graded, GradedOPRs = graded,
                BlockDbht = DBHeight b, TotalNumberRecords = int (length rs), EmptyOPRBlock = False\<rparr>))) = Inr x))"
    for k
    unfolding FetchOPRBlock_def by (auto simp: rbind_Inr_iff split: option.splits)
  ultimately show ?thesis by simp
qed

theorem fetch_order_irrelevant_witness:
  "FetchOPRBlock sample_codecs sample_factomd sample_new (the (EntryBlock (hd sample_ms))) = Inr None
   \<longleftrightarrow> FetchOPRBlock sample_codecs (sample_factomd\<lparr>Arrival := \<lambda>xs. xs\<rparr>) sample_new
         (the (EntryBlock (hd sample_ms))) = Inr None"
  by (rule fetch_order_irrelevant) (simp add: sample_factomd_def)

section \<open>Entries that end the process\<close>

lemma res_map_panic:
  assumes "x \<in> set xs" "is_panic (f x)" "\<And>y e. y \<in> set xs \<Longrightarrow> f y = Inl e \<Longrightarrow> is_panic (f y)"
  shows "is_panic (res_map f xs)"
  using assms
proof (induction xs)
  case (Cons y ys)
  show ?case
  proof (cases "f y")
    case (Inl e)
    then have "is_panic (Inl e :: 'b res)" using Cons.prems(3) [of y e] by simp
    then show ?thesis using Inl by (cases e) auto
  next
    case (Inr v)
    then have "x \<in> set ys" using Cons.prems(1,2) by auto
    moreover have "\<And>z e. z \<in> set ys \<Longrightarrow> f z = Inl e \<Longrightarrow> is_panic (f z)"
      by (rule Cons.prems(3)) simp_all
    ultimately have "is_panic (res_map f ys)" using Cons.IH Cons.prems(2) by blast
    then show ?thesis using Inr by (simp add: is_panic_rbind)
  qed
qed simp

lemma panic_type: "is_panic (Inl e :: 'a res) = is_panic (Inl e :: 'b res)"
  by (cases e) simp_all

lemma worker_panics:
  assumes "MinRecords (GraderNetwork g) (DBHeight b) = Inr n" "n \<le> length (EntryList b)" "j \<in> set (EntryList b)"
    and "GetPreviousWinners g (word_of_int (DBHeight b)) = Inr ws"
    and "\<And>i. is_panic (fetchOPRWorker c f g ws (DBHeight b) True (i, j))"
  shows "is_panic (FetchOPRBlock c f g b)"
proof -
  let ?work = "fetchOPRWorker c f g ws (DBHeight b) True"
  have "j \<in> snd ` set (enumerate 0 (EntryList b))" using assms(3) by (simp flip: set_map)
  then obtain i where "(i, j) \<in> set (enumerate 0 (EntryList b))" by auto
  moreover have "is_panic (?work job)" if "?work job = Inl e" for job e
    using fetchOPRWorker_Inl [OF that] that by simp
  ultimately have "is_panic (res_map ?work (enumerate 0 (EntryList b)))"
    using assms(5) by (intro res_map_panic) auto
  then show ?thesis
    using assms(1,2,4) by (simp add: FetchOPRBlock_def ParallelFetchOPRsFromEBlock_def is_panic_rbind)
qed

lemma VerifyWinners_too_many:
  assumes "xs \<noteq> []" "\<forall>x \<in> set xs. 8 \<le> length (EntryHash x)"
    and "WinPreviousOPR r = map (\<lambda>x. hexEncode (take 8 (EntryHash x))) xs @ w # ws"
  shows "is_panic (VerifyWinners r (Some xs))"
  using verify_winners_Some [OF assms(1,2), of 0 "WinPreviousOPR r"] assms(3)
  by (simp add: VerifyWinners_def Let_def)

lemma ParseOPREntry_bad_address:
  assumes "length (ExtIDs e) = 3" "length (ExtIDs e ! 2) = 1"
    and "SafeUnmarshal (Oob c) (JsonDecode c) (PUnmarshal c) (Content e)
      (NewOraclePriceRecord\<lparr>Version := ExtIDs e ! 2 ! 0\<rparr>) = Inr r"
    and "length (CoinbaseAddress r) = 52" "length (B58dec c (CoinbaseAddress r)) < 2"
  shows "is_panic (ParseOPREntry c g e h)"
  using assms by (simp add: ParseOPREntry_def or_none_def ConvertFCTtoPegNetAsset_def ConvertFCTtoRaw_def)

text \<open>
  C19. One entry in the chain can end the process of every grader that reads it, without any proof of
  work and whatever the other entries are. It is enough that its record names all winners of the
  block before and then one more; or that its payout address has 52 characters that are not base58.
  The block is not parsed, so that the process ends again at the next start.
\<close>

theorem poison_entry:
  assumes "MinRecords (GraderNetwork g) (DBHeight b) = Inr n" "n \<le> length (EntryList b)"
    and "j \<in> set (EntryList b)" "GetEntry f j = Inr e"
    and "GetPreviousWinners g (word_of_int (DBHeight b)) = Inr ws"
    and "(\<exists>r xs w more. ParseOPREntry c g e (DBHeight b) = Inr (Some r) \<and> ws = Some xs \<and> xs \<noteq> []
          \<and> (\<forall>x \<in> set xs. 8 \<le> length (EntryHash x))
          \<and> WinPreviousOPR r = map (\<lambda>x. hexEncode (take 8 (EntryHash x))) xs @ w # more)
      \<or> (\<exists>r. length (ExtIDs e) = 3 \<and> length (ExtIDs e ! 2) = 1
          \<and> SafeUnmarshal (Oob c) (JsonDecode c) (PUnmarshal c) (Content e)
              (NewOraclePriceRecord\<lparr>Version := ExtIDs e ! 2 ! 0\<rparr>) = Inr r
          \<and> length (CoinbaseAddress r) = 52 \<and> B58dec c (CoinbaseAddress r) = [])"
  shows "is_panic (FetchOPRBlock c f g b)"
proof (rule worker_panics [OF assms(1-3,5)])
  fix i
  from assms(6) show "is_panic (fetchOPRWorker c f g ws (DBHeight b) True (i, j))"
  proof (elim disjE exE conjE)
    fix r xs w more
    assume r: "ParseOPREntry c g e (DBHeight b) = Inr (Some r)" "ws = Some xs" "xs \<noteq> []"
      "\<forall>x \<in> set xs. 8 \<le> length (EntryHash x)"
      "WinPreviousOPR r = map (\<lambda>x. hexEncode (take 8 (EntryHash x))) xs @ w # more"
    from VerifyWinners_too_many [OF r(3-5)] show ?thesis
      using assms(4) r(1,2) by (simp add: fetchOPRWorker_def is_panic_rbind)
  next
    fix r
    assume "length (ExtIDs e) = 3" "length (ExtIDs e ! 2) = 1"
      "SafeUnmarshal (Oob c) (JsonDecode c) (PUnmarshal c) (Content e)
         (NewOraclePriceRecord\<lparr>Version := ExtIDs e ! 2 ! 0\<rparr>) = Inr r"
      "length (CoinbaseAddress r) = 52" "B58dec c (CoinbaseAddress r) = []"
    then have "is_panic (ParseOPREntry c g e (DBHeight b))" by (intro ParseOPREntry_bad_address) auto
    then obtain m where "ParseOPREntry c g e (DBHeight b) = Inl (Panic m)" by (auto elim: is_panic.elims)
    then show ?thesis using assms(4) by (simp add: fetchOPRWorker_def)
  qed
qed

text \<open>Such an entry, after a block with 25 winners: it names 26.\<close>

definition poison_codecs :: "OPRBlockDatabaseObject MapDb codecs" where
  "poison_codecs = sample_codecs\<lparr>IsValidAddress := \<lambda>_. True, B58enc := \<lambda>_. ''x'',
     B58dec := \<lambda>_. fcPubPrefix @ replicate 32 7 @ take 4 (sha256 (sha256 (fcPubPrefix @ replicate 32 7))),
     PUnmarshal := \<lambda>_. Inr \<lparr>PAddress = ''FA'' @ replicate 50 CHR ''1'', PID = ''miner'', PHeight = 258800,
       PWinners = replicate 26 (replicate 8 0), PAssets = replicate 62 7\<rparr>\<rparr>"

definition poison_grader :: "OPRBlockDatabaseObject MapDb QuickGrader" where
  "poison_grader = sample_new\<lparr>oprBlks := [\<lparr>BlockOPRs = [],
     GradedOPRs = replicate 25 (NewOraclePriceRecord\<lparr>EntryHash := replicate 32 0\<rparr>), BlockDbht = 258799,
     TotalNumberRecords = 25, EmptyOPRBlock = False\<rparr>]\<rparr>"

definition poison_assets :: AssetMap where
  "poison_assets = Some (foldl (\<lambda>xs (k, v). AList.update k v xs) [] (zip AssetsV5 (replicate 62 7)))"

definition poison_record :: OraclePriceRecord where
  "poison_record = NewOraclePriceRecord\<lparr>Version := 5, Assets := poison_assets,
     CoinbaseAddress := ''FA'' @ replicate 50 CHR ''1'', FactomDigitalID := ''miner'', Dbht := 258800,
     WinPreviousOPR := map hexEncode (replicate 26 (replicate 8 0))\<rparr>"

definition poison_eblock :: EBlock where
  "poison_eblock = \<lparr>DBHeight = 258800, BlockSequenceNumber = 0, PrevKeyMR = ZeroHash, EntryList = replicate 25 ''e''\<rparr>"

definition poison_factomd :: factomd where
  "poison_factomd = sample_factomd\<lparr>GetEntry := \<lambda>_. Inr \<lparr>FactomEntry.ChainID = [],
     ExtIDs = [[], replicate 8 0, [5]], Content = []\<rparr>\<rparr>"

lemma poison_parsed:
  "\<exists>r. ParseOPREntry poison_codecs poison_grader \<lparr>FactomEntry.ChainID = [], ExtIDs = [[], replicate 8 0, [5]], Content = []\<rparr>
     258800 = Inr (Some r) \<and> WinPreviousOPR r = replicate 26 ''0000000000000000''"
proof -
  let ?c = poison_codecs
  have [simp]: "B58dec ?c a = fcPubPrefix @ replicate 32 7 @ take 4 (sha256 (sha256 (fcPubPrefix @ replicate 32 7)))" for a
    by (simp add: poison_codecs_def)
  have "SafeUnmarshal (Oob ?c) (JsonDecode ?c) (PUnmarshal ?c) [] (NewOraclePriceRecord\<lparr>Version := 5\<rparr>)
      = Inr poison_record"
  proof -
    have "length AssetsV5 = 62" by code_simp
    then show ?thesis
      by (simp add: SafeUnmarshal_def proto_version_def unmarshal_proto_def proto_assets_def poison_codecs_def
          poison_record_def poison_assets_def)
  qed
  moreover have "ConvertFCTtoRaw (B58dec ?c) (CoinbaseAddress poison_record) = Inr (replicate 32 7)"
    by (simp add: ConvertFCTtoRaw_Inr poison_record_def)
  then have "ConvertFCTtoPegNetAsset (B58enc ?c) (B58dec ?c) MainNetwork ''PEG'' (CoinbaseAddress poison_record)
      = Inr (''PEG_'' @ ''x'')"
  proof -
    have "CheckPrefix ''PEG''" by code_simp
    with \<open>ConvertFCTtoRaw _ _ = _\<close> show ?thesis
      by (simp add: ConvertFCTtoPegNetAsset_def ConvertRawToPegNetAsset_def poison_codecs_def)
  qed
  moreover have "ValidateOPR (\<lambda>_. True) MainNetwork 258800 (poison_record\<lparr>CoinbasePEGAddress := ''PEG_'' @ ''x''\<rparr>) = Inr True"
  proof -
    have "NetworkActive MainNetwork 258800" "OPRVersion MainNetwork 258800 = Inr 5" "ValidIdentity ''miner''"
      "\<not> list_ex (zero_price 5) (entries poison_assets)" "ContainsExactly poison_assets AssetsV5"
      by code_simp+
    then show ?thesis by (simp add: ValidateOPR_def ValidFCTAddress_def poison_record_def)
  qed
  ultimately have "\<exists>r. ParseOPREntry ?c poison_grader \<lparr>FactomEntry.ChainID = [], ExtIDs = [[], replicate 8 0, [5]], Content = []\<rparr>
      258800 = Inr (Some r) \<and> WinPreviousOPR r = WinPreviousOPR poison_record"
    by (simp add: ParseOPREntry_def or_none_def poison_grader_def sample_new_def NewQuickGrader_def)
      (simp add: poison_codecs_def sample_codecs_def)
  moreover have "WinPreviousOPR poison_record = replicate 26 ''0000000000000000''"
  proof -
    have "hexEncode (replicate 8 0) = ''0000000000000000''" by code_simp
    then show ?thesis by (simp add: poison_record_def)
  qed
  ultimately show ?thesis by simp
qed

theorem poison_entry_witness: "is_panic (FetchOPRBlock poison_codecs poison_factomd poison_grader poison_eblock)"
proof (rule poison_entry)
  let ?e = "\<lparr>FactomEntry.ChainID = [], ExtIDs = [[], replicate 8 0, [5 :: byte]], Content = []\<rparr>"
  let ?ws = "replicate 25 (NewOraclePriceRecord\<lparr>EntryHash := replicate 32 0\<rparr>)"
  show "MinRecords (GraderNetwork poison_grader) (DBHeight poison_eblock) = Inr 25"
    by (simp add: MinRecords_def poison_grader_def sample_new_def NewQuickGrader_def poison_eblock_def
        main_grading_version_def activation_defs)
  show "25 \<le> length (EntryList poison_eblock)" "''e'' \<in> set (EntryList poison_eblock)"
    by (simp_all add: poison_eblock_def)
  show "GetEntry poison_factomd ''e'' = Inr ?e" by (simp add: poison_factomd_def)
  have "MinRecords MainNetwork 258799 = Inr 25"
    by (simp add: MinRecords_def main_grading_version_def activation_defs)
  then show "GetPreviousWinners poison_grader (word_of_int (DBHeight poison_eblock)) = Inr (Some ?ws)"
    by (simp add: GetPreviousWinners_def GetPreviousOPRBlock_def poison_grader_def sample_new_def NewQuickGrader_def
        poison_eblock_def take_slice_def)
  obtain r where r: "ParseOPREntry poison_codecs poison_grader ?e 258800 = Inr (Some r)"
    "WinPreviousOPR r = replicate 26 ''0000000000000000''" using poison_parsed by blast
  have "hexEncode (take 8 (replicate 32 0)) = ''0000000000000000''" by code_simp
  then have "WinPreviousOPR r = map (\<lambda>x. hexEncode (take 8 (EntryHash x))) ?ws @ ''0000000000000000'' # []"
    unfolding r(2) by (simp add: replicate_app_Cons_same [symmetric] numeral_eq_Suc)
  with r(1) show "(\<exists>r xs w more. ParseOPREntry poison_codecs poison_grader ?e (DBHeight poison_eblock) = Inr (Some r)
          \<and> Some ?ws = Some xs \<and> xs \<noteq> [] \<and> (\<forall>x \<in> set xs. 8 \<le> length (EntryHash x))
          \<and> WinPreviousOPR r = map (\<lambda>x. hexEncode (take 8 (EntryHash x))) xs @ w # more)
      \<or> (\<exists>r. length (ExtIDs ?e) = 3 \<and> length (ExtIDs ?e ! 2) = 1
          \<and> SafeUnmarshal (Oob poison_codecs) (JsonDecode poison_codecs) (PUnmarshal poison_codecs) (Content ?e)
              (NewOraclePriceRecord\<lparr>Version := ExtIDs ?e ! 2 ! 0\<rparr>) = Inr r
          \<and> length (CoinbaseAddress r) = 52 \<and> B58dec poison_codecs (CoinbaseAddress r) = [])"
    by (intro disjI1 exI [of _ r] exI [of _ ?ws]) (auto simp: poison_eblock_def)
qed

end
