(* ===== verification/OprGrading_Equiv.thy ===== *)
theory OprGrading_Equiv
  imports OprGrading Grader_Correct
begin

text \<open>
  The grading of package opr and that of modules/grader agree: a simulation between the records of
  the two packages through every step of the algorithms.
\<close>

section \<open>Related results\<close>

abbreviation res_rel :: "('a \<Rightarrow> 'b \<Rightarrow> bool) \<Rightarrow> 'a res \<Rightarrow> 'b res \<Rightarrow> bool" where
  "res_rel R \<equiv> rel_sum (=) R"

lemma rbind_rel:
  assumes "res_rel R m m'" "\<And>x y. R x y \<Longrightarrow> res_rel S (f x) (g y)"
  shows "res_rel S (rbind m f) (rbind m' g)"
  using assms by (cases m; cases m') auto

lemma res_map_rel:
  assumes "list_all2 R xs ys" "\<And>x y. R x y \<Longrightarrow> res_rel S (f x) (g y)"
  shows "res_rel (list_all2 S) (res_map f xs) (res_map g ys)"
  using assms(1)
proof (induction rule: list_all2_induct)
  case (Cons x xs y ys)
  show ?case
    unfolding res_map.simps using Cons by (intro rbind_rel [OF assms(2)] rbind_rel [OF Cons.IH]) auto
qed simp

lemma res_fold_rel:
  assumes "list_all2 R xs ys" "\<And>x y s. R x y \<Longrightarrow> f s x = g s y"
  shows "res_fold f s xs = res_fold g s ys"
  using assms(1)
proof (induction arbitrary: s rule: list_all2_induct)
  case (Cons x xs y ys)
  show ?case unfolding res_fold.simps by (simp add: assms(2) [OF Cons.hyps(1)] Cons.IH)
qed simp

lemma insert_by_rel:
  assumes "list_all2 R xs ys" "R x y" "\<And>a b a' b'. R a a' \<Longrightarrow> R b b' \<Longrightarrow> lt a b = lt' a' b'"
  shows "list_all2 R (insert_by lt x xs) (insert_by lt' y ys)"
  using assms(1)
proof (induction rule: list_all2_induct)
  case (Cons a as b bs)
  then show ?case using assms(2) assms(3) [OF Cons.hyps(1) assms(2)] by auto
qed (use assms(2) in simp)

lemma sort_stable_rel:
  assumes "list_all2 R xs ys" "\<And>a b a' b'. R a a' \<Longrightarrow> R b b' \<Longrightarrow> lt a b = lt' a' b'"
  shows "list_all2 R (sort_stable lt xs) (sort_stable lt' ys)"
  using assms(1)
proof (induction rule: list_all2_induct)
  case (Cons x xs y ys)
  then show ?case
    unfolding sort_stable_def foldr.simps comp_def
    by (intro insert_by_rel assms(2)) (simp_all add: sort_stable_def)
qed (simp add: sort_stable_def)

section \<open>Related records\<close>

text \<open>What a record of package opr and one of modules/grader have in common before grading.\<close>

definition submitted :: "OraclePriceRecord \<Rightarrow> GradingOPR \<Rightarrow> bool" where
  "submitted r g \<longleftrightarrow> token_values r = opr_prices g
     \<and> OraclePriceRecord.EntryHash r = GradingOPR.EntryHash g
     \<and> OraclePriceRecord.Nonce r = GradingOPR.Nonce g
     \<and> OraclePriceRecord.OPRHash r = GradingOPR.OPRHash g
     \<and> OraclePriceRecord.Grade r = GradingOPR.Grade g
     \<and> BigEndian_Uint64 (OraclePriceRecord.SelfReportedDifficulty r)
         = Inr (GradingOPR.SelfReportedDifficulty g)"

text \<open>And from when its difficulty was checked.\<close>

definition graded :: "OraclePriceRecord \<Rightarrow> GradingOPR \<Rightarrow> bool" where
  "graded r g \<longleftrightarrow> submitted r g \<and> Difficulty r = GradingOPR.SelfReportedDifficulty g"

lemma submitted_Clone: "submitted r g \<Longrightarrow> submitted r (GradingOPR_Clone g)"
  unfolding submitted_def opr_prices_Clone by (simp add: GradingOPR_Clone_def)

lemma remove_duplicates_rel:
  "list_all2 submitted rs gs \<Longrightarrow> list_all2 submitted (remove_duplicates A rs) (filter_dups A gs)"
proof (induction arbitrary: A rule: list_all2_induct)
  case (Cons r rs g gs)
  then show ?case by (auto simp: Let_def submitted_def)
qed simp

lemma submitted_sort:
  assumes "list_all2 submitted rs gs"
  shows "\<exists>rs'. sort_reported rs = Inr rs' \<and> list_all2 submitted rs' (sort_stable more_difficult gs)"
proof -
  have "8 \<le> length (OraclePriceRecord.SelfReportedDifficulty r)" if "submitted r g" for r g
    using that by (auto simp: submitted_def BigEndian_Uint64_def guard_res_def split: if_splits)
  then have "\<forall>r \<in> set rs. 8 \<le> length (OraclePriceRecord.SelfReportedDifficulty r)"
    using assms by (metis in_set_conv_nth list_all2_conv_all_nth)
  moreover have "list_all2 submitted (sort_stable (\<lambda>a b. reported b < reported a) rs)
      (sort_stable more_difficult gs)"
    using assms by (rule sort_stable_rel) (auto simp: submitted_def reported_def more_difficult_def)
  ultimately show ?thesis by (auto simp: sort_reported_def list_ex_iff guard_res_def)
qed

lemma OPR_ComputeDifficulty_lx:
  "submitted r g \<Longrightarrow> OPR_ComputeDifficulty lx r (OraclePriceRecord.Nonce r) = lx_difficulty lx g"
proof (cases "length (lx (GradingOPR.OPRHash g @ GradingOPR.Nonce g)) < 8")
  case False
  let ?h = "lx (GradingOPR.OPRHash g @ GradingOPR.Nonce g)"
  assume "submitted r g"
  moreover have "take 8 ?h = map ((!) ?h) [0..<8]"
    using False by (intro nth_equalityI) simp_all
  ultimately show ?thesis
    using False by (simp add: OPR_ComputeDifficulty_def lx_difficulty_def be_u64_def submitted_def
        foldl_map push_bit_eq_mult)
qed (simp add: OPR_ComputeDifficulty_def lx_difficulty_def be_u64_def submitted_def)

lemma take_top50_rel:
  assumes "list_all2 submitted rs gs" "list_all2 graded ts us" "length us < 50"
  shows "res_rel (list_all2 graded) (take_top50 lx ts rs) (take_honest lx 50 us gs)"
  using assms
proof (induction arbitrary: ts us rule: list_all2_induct)
  case (Cons r rs g gs)
  have len: "length ts = length us" using Cons.prems(1) by (rule list_all2_lengthD)
  have f: "BigEndian_Uint64 (OraclePriceRecord.SelfReportedDifficulty r)
      = Inr (GradingOPR.SelfReportedDifficulty g)"
    using Cons.hyps(1) by (simp add: submitted_def)
  have step: "list_all2 graded (ts @ [r\<lparr>Difficulty := d\<rparr>]) (us @ [g])"
    if "GradingOPR.SelfReportedDifficulty g = d" for d
    using that Cons.hyps(1)
    by (intro list_all2_appendI [OF Cons.prems(1)])
      (auto simp: graded_def submitted_def token_values_def GetTokens_def)
  show ?case
    unfolding take_top50.simps take_honest.simps OPR_ComputeDifficulty_lx [OF Cons.hyps(1)]
  proof (rule rbind_rel [where R = "(=)"])
    fix d d' :: u64 assume "d = d'"
    then show "res_rel (list_all2 graded)
        (rbind (BigEndian_Uint64 (OraclePriceRecord.SelfReportedDifficulty r)) (\<lambda>f. if f \<noteq> d then take_top50 lx ts rs
          else let top50' = ts @ [r\<lparr>Difficulty := d\<rparr>] in
            if length top50' = 50 then Inr top50' else take_top50 lx top50' rs))
        (if d' \<noteq> GradingOPR.SelfReportedDifficulty g then take_honest lx 50 us gs
          else let topX' = us @ [g] in
            if 50 \<le> int (length topX') then Inr topX' else take_honest lx 50 topX' gs)"
      using Cons.IH [of ts us] Cons.IH [OF step [of d]] Cons.prems len step
      by (auto simp: f Let_def)
  qed (auto simp: sum.rel_refl)
qed simp

section \<open>Related passes\<close>

lemma price_fold_rel:
  assumes "list_all2 (\<lambda>r g. token_values r = opr_prices g) rs gs"
  shows "res_fold (\<lambda>acc p. rbind (token_values p) (f acc)) s rs
      = res_fold (\<lambda>acc p. rbind (opr_prices p) (f acc)) s gs"
  using assms by (rule res_fold_rel) simp

lemma average_rel:
  assumes "list_all2 (\<lambda>r g. token_values r = opr_prices g) rs gs"
  shows "average_mean token_values rs = average_mean opr_prices gs"
    and "average_trimmed token_values rs = average_trimmed opr_prices gs"
proof -
  note fold = price_fold_rel [OF assms]
  have len: "length rs = length gs" using assms by (rule list_all2_lengthD)
  show "average_mean token_values rs = average_mean opr_prices gs"
    unfolding average_mean_def fold len using assms by (auto split: list.splits)
  show "average_trimmed token_values rs = average_trimmed opr_prices gs"
    unfolding average_trimmed_def fold using assms by (auto split: list.splits)
qed

lemma averages_rel:
  assumes "list_all2 graded rs gs"
  shows "Avg rs = averageV1 gs" "Avg5 rs = averageV5 gs"
proof -
  have "list_all2 (\<lambda>r g. token_values r = opr_prices g) rs gs"
    using assms by (rule list_all2_mono) (simp add: graded_def submitted_def)
  then show "Avg rs = averageV1 gs" "Avg5 rs = averageV5 gs"
    by (simp_all add: Avg_def averageV1_def Avg5_def averageV5_def average_rel)
qed

lemma grade_sum_cong:
  assumes "\<And>v a. fquart (f v a) = fquart (g v a)"
  shows "grade_sum f avg vs acc = grade_sum g avg vs acc"
  using assms by (induction f avg vs acc rule: grade_sum.induct) simp_all

lemma token_distance_plain: "token_distance (Fin 0) v a = plain_distance v a"
  by (simp add: token_distance_def plain_distance_def Let_def)

lemma token_distance_band:
  "flt (Fin 0) b \<Longrightarrow> token_distance b v a = banded_distance b v a"
  by (simp add: token_distance_def banded_distance_def ApplyBand_def fband_def fdev_def Let_def)

lemma GradeBand_pos: "flt (Fin 0) GradeBand"
proof -
  have "rnd (pow2 (- 7)) \<le> rnd (1 / 100)" by (rule rnd_mono) (simp add: pow2_def)
  then have "Fin (pow2 (- 7)) \<le> rnd (1 / 100)" by (simp add: rnd_pow2)
  moreover have "Fin 0 < Fin (pow2 (- 7))" by simp
  ultimately have "Fin 0 < rnd (1 / 100)" by order
  then show ?thesis by (simp add: GradeBand_def f64_const_def flt_iff_less)
qed

lemma band_quart:
  "fquart (token_distance (if P then GradeBand else Fin 0) v a)
   = fquart (banded_distance (if P then GradeBand else Fin 0) v a)"
  using GradeBand_pos
  by (simp add: token_distance_band token_distance_plain fquart_plain banded_distance_def fband_zero)

lemma CalculateGrade_rel:
  assumes "graded r g" "\<And>v a. fquart (token_distance band v a) = fquart (dst v a)"
  shows "res_rel graded (CalculateGrade avg r band)
    (rbind (opr_prices g) (\<lambda>vs. rbind (grade_sum dst avg vs (Fin 0)) (\<lambda>s. Inr (g\<lparr>GradingOPR.Grade := s\<rparr>))))"
proof -
  have prices: "token_values r = opr_prices g"
    using assms(1) by (simp add: graded_def submitted_def)
  have "graded (r\<lparr>OraclePriceRecord.Grade := s\<rparr>) (g\<lparr>GradingOPR.Grade := s\<rparr>)" for s
    using assms(1)
    by (auto simp: graded_def submitted_def token_values_def GetTokens_def)
  then have "res_rel graded
      (rbind (grade_sum dst avg vs (Fin 0)) (\<lambda>s. Inr (r\<lparr>OraclePriceRecord.Grade := s\<rparr>)))
      (rbind (grade_sum dst avg vs (Fin 0)) (\<lambda>s. Inr (g\<lparr>GradingOPR.Grade := s\<rparr>)))" for vs
    by (cases "grade_sum dst avg vs (Fin 0)") simp_all
  then show ?thesis
    unfolding CalculateGrade_def prices grade_sum_cong [OF assms(2)]
    by (cases "opr_prices g") simp_all
qed

lemma resort_rel: "list_all2 graded rs gs \<Longrightarrow> list_all2 graded (resort_graded rs) (resort gs)"
  unfolding resort_graded_def resort_def
  by (intro sort_stable_rel) (simp_all add: graded_def submitted_def lower_grade_def more_difficult_def)

lemma grading_round_rel:
  assumes "list_all2 graded rs gs" "avg (take i rs) = avg' (take i gs)"
    and "\<And>a r g. graded r g \<Longrightarrow> res_rel graded (grade i a r) (grade' i a g)"
  shows "res_rel (list_all2 graded) (grading_round avg grade resort_graded i rs)
    (grading_round avg' grade' resort i gs)"
  unfolding grading_round_def assms(2)
proof (rule rbind_rel [where R = "(=)"])
  fix a a' :: "f64 list" assume "a = a'"
  have "list_all2 graded (take i rs) (take i gs)"
    using assms(1) by (rule list_all2_takeI)
  then have "res_rel (list_all2 graded) (res_map (grade i a) (take i rs)) (res_map (grade' i a') (take i gs))"
    unfolding \<open>a = a'\<close> by (rule res_map_rel) (rule assms(3))
  then show "res_rel (list_all2 graded)
      (rbind (res_map (grade i a) (take i rs)) (\<lambda>graded. Inr (resort_graded graded @ drop i rs)))
      (rbind (res_map (grade' i a') (take i gs)) (\<lambda>graded. Inr (resort graded @ drop i gs)))"
    by (rule rbind_rel) (use assms(1) in \<open>auto intro: resort_rel list_all2_appendI list_all2_dropI\<close>)
qed (auto simp: sum.rel_refl)

lemma grade_passes_rel:
  assumes "list_all2 graded rs gs"
    and "\<And>i rs gs. list_all2 graded rs gs \<Longrightarrow> res_rel (list_all2 graded) (pass i rs) (pass' i gs)"
  shows "res_rel (list_all2 graded) (grade_passes pass stop n rs) (grade_passes pass' stop n gs)"
  using assms(1)
proof (induction n arbitrary: rs gs)
  case (Suc n)
  then show ?case by (auto intro!: rbind_rel [OF assms(2)])
qed simp

section \<open>The two packages agree\<close>

text \<open>The algorithm of package opr for the version of a grader.\<close>

definition legacy_passes :: "BlockGrader \<Rightarrow> nat \<Rightarrow> OraclePriceRecord list \<Rightarrow> OraclePriceRecord list res" where
  "legacy_passes g = (case g of
     V1BlockGrader _ \<Rightarrow>
       grade_passes (grading_round Avg (\<lambda>i avg r. CalculateGrade avg r (Fin 0)) resort_graded) 10
   | V5BlockGrader _ \<Rightarrow> grade_passes (grading_round Avg5
       (\<lambda>i avg r. CalculateGrade avg r (if 25 \<le> i then GradeBand else Fin 0)) resort_graded) 1
   | _ \<Rightarrow> grade_passes (grading_round Avg
       (\<lambda>i avg r. CalculateGrade avg r (if 25 \<le> i then GradeBand else Fin 0)) resort_graded) 1)"

lemma bands: "V2Band = GradeBand" "V5Band = GradeBand"
  by (simp_all add: V2Band_def V5Band_def GradeBand_def)

lemma legacy_passes_rel:
  assumes "list_all2 graded rs gs"
  shows "res_rel (list_all2 graded) (legacy_passes g n rs) (grader_passes g n gs)"
proof -
  have avg: "Avg (take i rs) = averageV1 (take i gs)" "Avg5 (take i rs) = averageV5 (take i gs)"
    if "list_all2 graded rs gs" for i rs gs
    using averages_rel [OF list_all2_takeI [OF that]] by auto
  have plain: "res_rel graded (CalculateGrade a r (Fin 0)) (gradeV1 a x)" if "graded r x" for a r x
    unfolding gradeV1_def by (rule CalculateGrade_rel [OF that]) (simp add: token_distance_plain)
  have banded: "res_rel graded (CalculateGrade a r (if P then GradeBand else Fin 0))
      (gradeV2 a x (if P then GradeBand else Fin 0))"
    "res_rel graded (CalculateGrade a r (if P then GradeBand else Fin 0))
      (gradeV5 a x (if P then GradeBand else Fin 0))" if "graded r x" for a r x P
    unfolding gradeV2_def gradeV5_def by (rule CalculateGrade_rel [OF that band_quart])+
  show ?thesis
    by (cases g; simp only: legacy_passes_def grader_passes_def BlockGrader.case grader_grade_simps
        grader_average.simps last_round.simps bands;
      rule grade_passes_rel [OF assms]; rule grading_round_rel; (assumption | rule avg plain banded))
qed

definition legacy_grade :: "BlockGrader \<Rightarrow> (byte list \<Rightarrow> byte list) \<Rightarrow> OraclePriceRecord list
    \<Rightarrow> OraclePriceRecord list res" where
  "legacy_grade g lx orderedList =
     (let rs = RemoveDuplicateSubmissions orderedList in
      if length rs < GraderWinnerAmount g then Inr []
      else rbind (sort_reported rs) (\<lambda>rs.
        rbind (take_top50 lx [] rs) (\<lambda>top50. legacy_passes g (length top50) top50)))"

lemma GradeMinimum_legacy:
  assumes "OPRVersion network dbht = Inr (Graders.Version g)" "rs \<noteq> []"
  shows "GradeMinimum lx rs network dbht = legacy_grade g lx rs"
  using assms by (cases g) (simp_all add: GradeMinimum_def legacy_grade_def gradeMinimumVersionOne_def
      gradeMinimumVersionTwo_def gradeMinimumVersionThree_def legacy_passes_def cong: if_cong)

lemma candidates_rel:
  assumes "lx_ok lx" "list_all2 submitted rs (oprs v)"
  shows "\<exists>rs' top50. sort_reported (RemoveDuplicateSubmissions rs) = Inr rs'
     \<and> take_top50 lx [] rs' = Inr top50 \<and> list_all2 graded top50 (candidates lx 50 v)
     \<and> length (candidates lx 50 v) \<le> length (RemoveDuplicateSubmissions rs)"
proof -
  let ?gs = "filter_dups {} (map GradingOPR_Clone (oprs v))"
  have "list_all2 submitted rs (map GradingOPR_Clone (oprs v))"
    unfolding list_all2_map2 using assms(2) by (rule list_all2_mono) (rule submitted_Clone)
  then have dups: "list_all2 submitted (RemoveDuplicateSubmissions rs) ?gs"
    unfolding RemoveDuplicateSubmissions_def by (rule remove_duplicates_rel)
  obtain rs' where rs': "sort_reported (RemoveDuplicateSubmissions rs) = Inr rs'"
    "list_all2 submitted rs' (sort_stable more_difficult ?gs)"
    using submitted_sort [OF dups] by blast
  have top: "take_honest lx 50 [] (sort_stable more_difficult ?gs) = Inr (candidates lx 50 v)"
    using assms(1) by (simp add: take_honest_filter candidates_def top_honest_def sort_more_difficult)
  have "res_rel (list_all2 graded) (take_top50 lx [] rs') (take_honest lx 50 [] (sort_stable more_difficult ?gs))"
    by (rule take_top50_rel [OF rs'(2)]) simp_all
  then obtain top50 where "take_top50 lx [] rs' = Inr top50" "list_all2 graded top50 (candidates lx 50 v)"
    unfolding top by (cases "take_top50 lx [] rs'") auto
  moreover have "length (candidates lx 50 v) \<le> length ?gs"
    by (simp add: candidates_def top_honest_def) (metis length_filter_le length_sort min.coboundedI1)
  ultimately show ?thesis
    using rs'(1) list_all2_lengthD [OF dups] by auto
qed

text \<open>
  C39. Package opr and the grading module extracted from it agree. Take records of package opr and
  the records of a grader reached through its interface that have the same hashes, nonces, reported
  difficulties and prices, at a height at which the network grades with the version of the grader.
  If enough of the records are honest for a block to be graded, then both compute the same ranking,
  with the same grades; and for every version both pay the same reward for each place.
\<close>

theorem gradings_agree:
  assumes "reachable json g" "lx_ok lx" "\<forall>x \<in> set (oprs (base_of g)). small_prices x"
    and "list_all2 submitted rs (oprs (base_of g))"
    and "GraderWinnerAmount g \<le> length (candidates lx 50 (base_of g))"
    and "OPRVersion network dbht = Inr (Graders.Version g)"
  shows "(\<exists>os b. GradeMinimum lx rs network dbht = Inr os \<and> GradeBlock lx g = Inr b
       \<and> list_all2 graded os (Graded b))
     \<and> (\<forall>n :: nat. GetRewardFromPlace (int n) network dbht = Inr (GraderPayout g (int n)))"
proof
  let ?os = "candidates lx 50 (base_of g)"
  have hyps: "grading_hyps lx g 50" using assms(1-3) by (intro reachable_hyps) simp_all
  obtain rs' top50 where top: "sort_reported (RemoveDuplicateSubmissions rs) = Inr rs'"
    "take_top50 lx [] rs' = Inr top50" "list_all2 graded top50 ?os"
    "length ?os \<le> length (RemoveDuplicateSubmissions rs)"
    using candidates_rel [OF assms(2,4)] by blast
  obtain xs where xs: "grader_passes g (length ?os) ?os = Inr xs"
    "mset (map strip_grade xs) = mset (map strip_grade ?os)"
    using grading_passes_ok [OF hyps refl] by blast
  have len: "length top50 = length ?os" using top(3) by (rule list_all2_lengthD)
  obtain os where os: "legacy_passes g (length top50) top50 = Inr os" "list_all2 graded os xs"
    using legacy_passes_rel [OF top(3), of g "length ?os"] unfolding xs(1) len
    by (cases "legacy_passes g (length ?os) top50") auto
  have "0 < GraderWinnerAmount g" by (cases g) simp_all
  then have "rs \<noteq> []" using assms(5) top(4) by (auto simp: RemoveDuplicateSubmissions_def)
  then have "GradeMinimum lx rs network dbht = Inr os"
    using assms(5) top os(1) by (simp add: GradeMinimum_legacy [OF assms(6)] legacy_grade_def Let_def)
  moreover have "\<forall>x \<in> set ?os. length (GradingOPR.EntryHash x) = 32"
    using hyps candidates_records(1) by (auto simp: grading_hyps_def record_ok_def)
  then have "grade_custom_with lx (GraderWinnerAmount g) (grader_passes g) (GraderPayout g) (base_of g) 50
      = Inr ((new_block (base_of g) 50)\<lparr>graded_oprs := set_positions (GraderPayout g) xs,
          cutoff := int (length xs),
          shorthashes := map (\<lambda>g. hexEncode (take 8 (GradingOPR.EntryHash g))) (take (GraderWinnerAmount g) xs)\<rparr>)"
    using assms(2,5) xs by (intro grade_custom_with_many) simp_all
  then have "\<exists>b. GradeBlock lx g = Inr b \<and> Graded b = set_positions (GraderPayout g) xs"
    by (simp add: GradeBlock_def GradeCustom_eq Graded_def)
  moreover have "list_all2 graded os (set_positions (GraderPayout g) xs)"
    using os(2) by (auto simp: list_all2_conv_all_nth nth_set_positions graded_def submitted_def opr_prices_def)
  ultimately show "\<exists>os b. GradeMinimum lx rs network dbht = Inr os \<and> GradeBlock lx g = Inr b
       \<and> list_all2 graded os (Graded b)" by metis
  show "\<forall>n :: nat. GetRewardFromPlace (int n) network dbht = Inr (GraderPayout g (int n))"
    using assms(6) by (cases g) (auto simp: GetRewardFromPlace_def getRewardFromPlaceVersionOne_def
        getRewardFromPlaceVersionTwo_def getRewardFromPlaceVersionThree_def V1Payout_def V2Payout_def V5Payout_def)
qed

definition sample_legacy :: "nat \<Rightarrow> OraclePriceRecord" where
  "sample_legacy i = NewOraclePriceRecord\<lparr>OraclePriceRecord.Version := 1,
     OraclePriceRecord.EntryHash := replicate 32 0, OraclePriceRecord.Nonce := [word_of_nat i],
     OraclePriceRecord.OPRHash := sha256 [],
     OraclePriceRecord.SelfReportedDifficulty := [0, 0, 0, 0, 0, 0, 0, 5],
     OraclePriceRecord.Assets := Some (map (\<lambda>a. (a, 100000000)) AssetsV1)\<rparr>"

lemma map_of_const: "a \<in> set xs \<Longrightarrow> map_of (map (\<lambda>a. (a, v)) xs) a = Some v"
  by (induction xs) auto

lemma sample_token_values: "token_values (sample_legacy i) = Inr (replicate 32 (Fin 1))"
proof -
  let ?m = "Some (map (\<lambda>a. (a, 100000000 :: u64)) AssetsV1)"
  have "rnd 1 = Fin 1" using rnd_int [of 1] by simp
  then have "fdiv (f64_of_u64 100000000) (f64_const 100000000) = Fin 1"
    using f64_of_int_exact [of 100000000] by (simp add: f64_of_u64_def f64_const_1e8)
  moreover have "Uint64Value ?m a = 100000000" if "a \<in> set AssetsV1" for a
    by (simp add: Uint64Value_def entries_def map_of_const [OF that])
  ultimately have "map (AssetValue ?m) AssetsV1 = map (\<lambda>_. Fin 1) AssetsV1"
    by (intro map_cong) (simp_all add: AssetValue_def)
  moreover have "length AssetsV1 = 32" by code_simp
  ultimately show ?thesis
    by (simp add: token_values_def GetTokens_def sample_legacy_def ListTokens_def version_assets_def
        comp_def map_replicate_const NewOraclePriceRecord_def)
qed

lemma sample_submitted: "submitted (sample_legacy i) (sample_record i 5)"
proof -
  have "opr_prices (sample_record i 5) = Inr (replicate 32 (Fin 1))"
    by (simp add: opr_prices_def sample_record_def accepted_def V1_GetOrderedAssetsFloat_def sample_v1_def
        asset_at_def comp_def map_replicate_const length_Assets)
  moreover have "BigEndian_Uint64 [0, 0, 0, 0, 0, 0, 0, 5] = Inr (big_endian [0, 0, 0, 0, 0, 0, 0, 5])"
    by (simp add: BigEndian_Uint64_def big_endian_def)
  ultimately show ?thesis
    by (simp add: submitted_def sample_token_values)
      (simp add: sample_legacy_def sample_record_def accepted_def sample_ext_def NewOraclePriceRecord_def)
qed

theorem gradings_agree_witness:
  "(\<exists>os b. GradeMinimum sample_lx (map sample_legacy [0..<10]) MainNetwork 206422 = Inr os
       \<and> GradeBlock sample_lx (sample_grader 10) = Inr b \<and> list_all2 graded os (Graded b))
     \<and> (\<forall>n :: nat. GetRewardFromPlace (int n) MainNetwork 206422
          = Inr (GraderPayout (sample_grader 10) (int n)))"
proof (rule gradings_agree [OF sample_facts])
  show "list_all2 submitted (map sample_legacy [0..<10]) (oprs (base_of (sample_grader 10)))"
    by (simp add: sample_grader_def sample_with_def list_all2_conv_all_nth sample_submitted)
  show "GraderWinnerAmount (sample_grader 10) \<le> length (candidates sample_lx 50 (base_of (sample_grader 10)))"
    by (simp add: sample_candidates sample_WinnerAmount)
  have "Graders.Version (sample_grader 10) = 1" by (simp add: sample_grader_def sample_with_def)
  moreover have "OPRVersion MainNetwork 206422 = Inr 1" by code_simp
  ultimately show "OPRVersion MainNetwork 206422 = Inr (Graders.Version (sample_grader 10))" by simp
qed

end
