(* ===== verification/Go_Strings.thy ===== *)
theory Go_Strings
  imports Prelude
begin

text \<open>
  What the code uses of package strings: \<open>Index\<close>, \<open>Split\<close> with a separator of one character, and
  \<open>Join\<close>.
\<close>

fun Index :: "string \<Rightarrow> string \<Rightarrow> int" where
  "Index [] sub = (if sub = [] then 0 else - 1)"
| "Index (c # s) sub =
     (if take (length sub) (c # s) = sub then 0
      else let i = Index s sub in if i < 0 then - 1 else i + 1)"

fun Split :: "char \<Rightarrow> string \<Rightarrow> string list" where
  "Split sep [] = [[]]"
| "Split sep (c # s) =
     (if c = sep then [] # Split sep s
      else case Split sep s of [] \<Rightarrow> [[c]] | t # ts \<Rightarrow> (c # t) # ts)"

fun Join :: "string list \<Rightarrow> string \<Rightarrow> string" where
  "Join [] sep = []"
| "Join [s] sep = s"
| "Join (s # t # ts) sep = s @ sep @ Join (t # ts) sep"

lemma Index_ge: "- 1 \<le> Index s sub"
  by (induction s) (auto simp: Let_def)

lemma Index_neg_iff: "Index s sub < 0 \<longleftrightarrow> (\<forall>k. take (length sub) (drop k s) \<noteq> sub)"
proof (induction s)
  case (Cons c s)
  show ?case
  proof
    assume "Index (c # s) sub < 0"
    then have "take (length sub) (c # s) \<noteq> sub" "Index s sub < 0"
      by (auto simp: Let_def split: if_splits)
    with Cons.IH show "\<forall>k. take (length sub) (drop k (c # s)) \<noteq> sub"
      by (auto simp: drop_Cons split: nat.split)
  next
    assume all: "\<forall>k. take (length sub) (drop k (c # s)) \<noteq> sub"
    have "take (length sub) (drop k s) \<noteq> sub" for k using spec [OF all, of "Suc k"] by simp
    moreover have "take (length sub) (c # s) \<noteq> sub" using spec [OF all, of 0] by simp
    ultimately show "Index (c # s) sub < 0" using Cons.IH by (simp add: Let_def)
  qed
qed auto

lemma Index_found:
  "0 \<le> Index s sub \<Longrightarrow> take (length sub) (drop (nat (Index s sub)) s) = sub \<and> nat (Index s sub) \<le> length s"
  by (induction s) (auto simp: Let_def nat_add_distrib split: if_splits)

lemma Index_zero: "Index s sub = 0 \<longleftrightarrow> take (length sub) s = sub"
  by (cases s) (auto simp: Let_def)

text \<open>A string that contains another one contains its beginning, not later.\<close>

lemma Index_prefix:
  assumes "0 \<le> Index s (sub @ rest)"
  shows "0 \<le> Index s sub"
proof -
  let ?k = "nat (Index s (sub @ rest))"
  have "take (length sub + length rest) (drop ?k s) = sub @ rest" using Index_found [OF assms] by simp
  then have "take (length sub) (take (length sub + length rest) (drop ?k s)) = take (length sub) (sub @ rest)"
    by simp
  then have "take (length sub) (drop ?k s) = sub" by (simp add: min_def)
  then have "\<not> Index s sub < 0" using Index_neg_iff by blast
  then show ?thesis by simp
qed

lemma Index_inside:
  assumes "0 < Index s sub" "0 \<le> Index s (sub @ rest)"
  shows "0 < Index s (sub @ rest)"
proof -
  have "Index s (sub @ rest) \<noteq> 0"
  proof
    assume "Index s (sub @ rest) = 0"
    then have "take (length sub) (take (length (sub @ rest)) s) = sub" by (simp add: Index_zero)
    then have "take (length sub) s = sub" by (simp add: min_def)
    then show False using assms(1) Index_zero by force
  qed
  then show ?thesis using assms(2) by simp
qed

lemma Split_not_Nil [simp]: "Split sep s \<noteq> []"
  by (cases s) (auto split: list.split)

lemma Split_chars: "x \<in> set (Split sep s) \<Longrightarrow> sep \<notin> set x"
  by (induction s arbitrary: x) (auto split: list.splits if_splits)

text \<open>Splitting undoes joining, for parts that do not hold the separator.\<close>

lemma Split_append: "sep \<notin> set x \<Longrightarrow> Split sep (x @ sep # s) = x # Split sep s"
  by (induction x) auto

lemma Split_none: "sep \<notin> set x \<Longrightarrow> Split sep x = [x]"
  by (induction x) auto

lemma Split_Join:
  "xs \<noteq> [] \<Longrightarrow> \<forall>x \<in> set xs. sep \<notin> set x \<Longrightarrow> Split sep (Join xs [sep]) = xs"
  by (induction xs "[sep]" rule: Join.induct) (auto simp: Split_append Split_none)

end
