(* ===== verification/Kitco.thy ===== *)
theory Kitco
  imports Go_Strings
begin

text \<open>
  polling/kitco.go: the prices of metals read from a web page, with \<open>PullValue\<close> of common/utils.go.
  The page is an argument; slicing a string out of its range panics.
\<close>

section \<open>The rows of the page\<close>

record KitcoRecord =
  Date :: string
  Tm :: string
  Bid :: string
  Ask :: string
  Change :: string
  PercentChange :: string
  Low :: string
  High :: string

record KitcoData =
  Silver :: KitcoRecord
  Gold :: KitcoRecord
  Platinum :: KitcoRecord
  Palladium :: KitcoRecord
  Rhodium :: KitcoRecord

definition zero_KitcoRecord :: KitcoRecord where
  "zero_KitcoRecord = \<lparr>Date = [], Tm = [], Bid = [], Ask = [], Change = [], PercentChange = [],
     Low = [], High = []\<rparr>"

definition zero_KitcoData :: KitcoData where
  "zero_KitcoData = \<lparr>Silver = zero_KitcoRecord, Gold = zero_KitcoRecord, Platinum = zero_KitcoRecord,
     Palladium = zero_KitcoRecord, Rhodium = zero_KitcoRecord\<rparr>"

fun skip_tags :: "nat \<Rightarrow> string \<Rightarrow> string" where
  "skip_tags 0 line = line"
| "skip_tags (Suc n) line = skip_tags n (drop (nat (Index line ''>'' + 1)) line)"

definition PullValue :: "string \<Rightarrow> nat \<Rightarrow> string res" where
  "PullValue line howMany =
     (let rest = skip_tags howMany line; pos = Index rest ''<'' in
      guard_res (pos < 0) (Panic ''slice bounds out of range'') (Inr (take (nat pos) rest)))"

text \<open>
  The chain of tests is the same for each metal; \<open>None\<close> is that none of the metal's applies. The test
  for the change comes before that for its percentage, whose name it is the beginning of.
\<close>

definition parse_metal :: "string \<Rightarrow> string \<Rightarrow> KitcoRecord \<Rightarrow> KitcoRecord res option" where
  "parse_metal code line r =
     (let has = (\<lambda>field. Index line (''wsp-'' @ code @ field) > 0) in
      if has ''-date'' then Some (rbind (PullValue line 1) (\<lambda>v. Inr (r\<lparr>Date := v\<rparr>)))
      else if has ''-time'' then Some (rbind (PullValue line 1) (\<lambda>v. Inr (r\<lparr>Tm := v\<rparr>)))
      else if has ''-bid'' then Some (rbind (PullValue line 1) (\<lambda>v. Inr (r\<lparr>Bid := v\<rparr>)))
      else if has ''-ask'' then Some (rbind (PullValue line 1) (\<lambda>v. Inr (r\<lparr>Ask := v\<rparr>)))
      else if has ''-change'' then Some (rbind (PullValue line 2) (\<lambda>v. Inr (r\<lparr>Change := v\<rparr>)))
      else if has ''-change-percent''
      then Some (rbind (PullValue line 2) (\<lambda>v. Inr (r\<lparr>PercentChange := v\<rparr>)))
      else if has ''-low'' then Some (rbind (PullValue line 1) (\<lambda>v. Inr (r\<lparr>Low := v\<rparr>)))
      else if has ''-high'' then Some (rbind (PullValue line 1) (\<lambda>v. Inr (r\<lparr>High := v\<rparr>)))
      else None)"

definition ParseKitco :: "string \<Rightarrow> KitcoData \<Rightarrow> KitcoData res" where
  "ParseKitco line k =
     (case parse_metal ''AU'' line (Gold k) of Some x \<Rightarrow> rbind x (\<lambda>r. Inr (k\<lparr>Gold := r\<rparr>))
      | None \<Rightarrow>
     (case parse_metal ''AG'' line (Silver k) of Some x \<Rightarrow> rbind x (\<lambda>r. Inr (k\<lparr>Silver := r\<rparr>))
      | None \<Rightarrow>
     (case parse_metal ''PT'' line (Platinum k) of Some x \<Rightarrow> rbind x (\<lambda>r. Inr (k\<lparr>Platinum := r\<rparr>))
      | None \<Rightarrow>
     (case parse_metal ''PD'' line (Palladium k) of Some x \<Rightarrow> rbind x (\<lambda>r. Inr (k\<lparr>Palladium := r\<rparr>))
      | None \<Rightarrow>
     (case parse_metal ''RH'' line (Rhodium k) of Some x \<Rightarrow> rbind x (\<lambda>r. Inr (k\<lparr>Rhodium := r\<rparr>))
      | None \<Rightarrow> Inr k)))))"

definition matchStart :: string where
  "matchStart = ''<table class='' @ [CHR 0x22] @ ''world_spot_price'' @ [CHR 0x22] @ ''>''"

definition matchStop :: string where "matchStop = ''</table>''"

text \<open>\<open>get\<close> is the body of the page, or the error of the request.\<close>

definition CallKitcoWeb :: "string res \<Rightarrow> KitcoData res" where
  "CallKitcoWeb get =
     rbind get (\<lambda>strResp.
     (let start = Index strResp matchStart in
      guard_res (start < 0) (GoError ''No Response'')
      (let table = drop (nat start) strResp; stop = Index table matchStop in
       guard_res (int (length table) < stop + 9) (Panic ''slice bounds out of range'')
       (res_fold (\<lambda>k r. if Index r ''wsp-'' > 0 then ParseKitco r k else Inr k) zero_KitcoData
         (Split (CHR 0x0A) (take (nat (stop + 9)) table))))))"

section \<open>What is read\<close>

lemma change_before_percent:
  "Index line ''wsp-'' > 0 \<Longrightarrow> Index line (''wsp-'' @ code @ ''-change-percent'') > 0 \<Longrightarrow>
     Index line (''wsp-'' @ code @ ''-change'') > 0"
  using Index_prefix [of line "''wsp-'' @ code @ ''-change''" "''-percent''"]
    Index_inside [of line "''wsp-''" "code @ ''-change''"] by simp

lemma parse_metal_percent:
  assumes "Index line ''wsp-'' > 0" "parse_metal code line r = Some (Inr r')"
  shows "PercentChange r' = PercentChange r"
  using assms(2) change_before_percent [OF assms(1), of code]
  by (auto simp: parse_metal_def Let_def res_simps split: if_splits)

definition percents :: "KitcoData \<Rightarrow> string list" where
  "percents k = map PercentChange [Gold k, Silver k, Platinum k, Palladium k, Rhodium k]"

lemma ParseKitco_percents:
  assumes "Index line ''wsp-'' > 0" "ParseKitco line k = Inr k'"
  shows "percents k' = percents k"
  using assms(2) parse_metal_percent [OF assms(1)]
  by (auto simp: ParseKitco_def percents_def res_simps split: option.splits)

lemma fold_percents:
  "res_fold (\<lambda>k r. if Index r ''wsp-'' > 0 then ParseKitco r k else Inr k) k rows = Inr k' \<Longrightarrow>
     percents k' = percents k"
proof (induction rows arbitrary: k)
  case (Cons r rows)
  then show ?case
    by (auto simp: res_simps split: if_splits dest!: ParseKitco_percents [rotated])
qed simp

text \<open>
  The percentages of the changes are never read: whatever the page, a row that names one is taken for
  the change itself.
\<close>

lemma kitco_percent_unset:
  "CallKitcoWeb get = Inr k \<Longrightarrow> percents k = replicate 5 []"
  by (auto simp: CallKitcoWeb_def Let_def res_simps dest!: fold_percents)
    (simp add: percents_def zero_KitcoData_def zero_KitcoRecord_def numeral_eq_Suc)

text \<open>A page that ends with the table panics: the slice wants one character after the closing tag.\<close>

lemma kitco_page_end:
  "is_panic (CallKitcoWeb (Inr (matchStart @ matchStop)))"
  by (simp add: CallKitcoWeb_def matchStart_def matchStop_def)

definition sample_row :: string where
  "sample_row = ''<td id=wsp-AU-bid>1912.50</td>''"

lemma sample_page:
  "CallKitcoWeb (Inr (matchStart @ [CHR 0x0A] @ sample_row @ [CHR 0x0A] @ matchStop @ [CHR 0x0A]))
     = Inr (zero_KitcoData\<lparr>Gold := zero_KitcoRecord\<lparr>Bid := ''1912.50''\<rparr>\<rparr>)"
  by code_simp

end
