(* ===== verification/PriceSource.thy ===== *)
theory PriceSource
  imports Common Go_Float Kitco "HOL-Library.Signed_Division"
begin

text \<open>
  Package polling, the sources of prices: peg.go, datasource.go, utils.go and the twelve sources. What
  a source reads from its response is modelled; the request with its JSON decoding is an argument
  (\<open>web\<close>), like \<open>strconv.ParseFloat\<close> and \<open>time.Parse\<close>. Of a response the fields that are read are
  modelled. A rate of minus zero, whose inverse is minus infinity in Go, reads as zero here.

  A \<open>time.Time\<close> is its number of nanoseconds since 1970.
\<close>

section \<open>peg.go and utils.go\<close>

record PegItem =
  ItemValue :: f64
  WhenUnix :: int
  When :: int

text \<open>A map of prices; the nil map is \<open>None\<close>.\<close>

type_synonym PegAssets = "(string \<rightharpoonup> PegItem) option"

definition zero_time :: int where "zero_time = - 62135596800 * 10 ^ 9"

definition zero_item :: PegItem where
  "zero_item = \<lparr>ItemValue = Fin 0, WhenUnix = 0, When = zero_time\<rparr>"

text \<open>\<open>time.Unix(t, 0)\<close> and its \<open>Unix\<close>.\<close>

definition unix_item :: "f64 \<Rightarrow> int \<Rightarrow> PegItem" where
  "unix_item v t = \<lparr>ItemValue = v, WhenUnix = t, When = t * 10 ^ 9\<rparr>"

definition time_item :: "f64 \<Rightarrow> int \<Rightarrow> PegItem" where
  "time_item v t = \<lparr>ItemValue = v, WhenUnix = t div 10 ^ 9, When = t\<rparr>"

text \<open>The conversion to \<open>int64\<close> of a value out of range is implementation-defined: \<open>oob\<close>.\<close>

definition TruncateTo4 :: "(f64 \<Rightarrow> int) \<Rightarrow> f64 \<Rightarrow> f64" where
  "TruncateTo4 oob v = fdiv (f64_of_int (int_of_f64 oob (fmul v (f64_const 10000)))) (f64_const 10000)"

definition TruncateTo8 :: "(f64 \<Rightarrow> int) \<Rightarrow> f64 \<Rightarrow> f64" where
  "TruncateTo8 oob v =
     fdiv (f64_of_int (int_of_f64 oob (fmul v (f64_const 100000000)))) (f64_const 100000000)"

text \<open>\<open>a\<close> and \<open>b\<close> are the two results of \<open>rand.Float64\<close>.\<close>

definition PegItem_Clone :: "(f64 \<Rightarrow> int) \<Rightarrow> f64 \<Rightarrow> f64 \<Rightarrow> f64 \<Rightarrow> PegItem \<Rightarrow> PegItem" where
  "PegItem_Clone oob a b randomize p =
     (let half = fdiv randomize (Fin 2);
          v = fsub (fadd (ItemValue p) (fmul (ItemValue p) (fmul half a)))
                   (fmul (ItemValue p) (fmul half b))
      in \<lparr>ItemValue = TruncateTo8 oob v, WhenUnix = WhenUnix p, When = zero_time\<rparr>)"

definition PegAssets_Clone ::
  "(f64 \<Rightarrow> int) \<Rightarrow> (string \<Rightarrow> f64 \<times> f64) \<Rightarrow> f64 \<Rightarrow> PegAssets \<Rightarrow> PegAssets" where
  "PegAssets_Clone oob rand randomize p = (case p of None \<Rightarrow> Some Map.empty
     | Some m \<Rightarrow> Some (\<lambda>asset. map_option
         (PegItem_Clone oob (fst (rand asset)) (snd (rand asset)) randomize) (m asset)))"

section \<open>datasource.go\<close>

definition lookup_peg :: "PegAssets \<Rightarrow> string \<Rightarrow> PegItem option" where
  "lookup_peg p peg = (case p of None \<Rightarrow> None | Some m \<Rightarrow> m peg)"

definition FetchPegPrice :: "string \<Rightarrow> PegAssets res \<Rightarrow> PegItem res" where
  "FetchPegPrice peg fetched =
     rbind fetched (\<lambda>p. case lookup_peg p peg of
       None \<Rightarrow> Inl (GoError ''peg not found'')
     | Some item \<Rightarrow> Inr item)"

text \<open>A source asks the outside world \<open>'w\<close>, which it may change.\<close>

record 'w IDataSource =
  Name :: string
  Url :: string
  SupportedPegs :: "string list"
  FetchPegPrices :: "'w \<Rightarrow> PegAssets res \<times> 'w"

record 'w TimedDataSourceCache =
  DataSource :: "'w IDataSource"
  LastCall :: int
  CacheDuration :: int
  Cache :: PegAssets

definition NewTimedDataSourceCache :: "'w IDataSource \<Rightarrow> int \<Rightarrow> 'w TimedDataSourceCache" where
  "NewTimedDataSourceCache s cacheLength =
     \<lparr>DataSource = s, LastCall = zero_time, CacheDuration = cacheLength, Cache = None\<rparr>"

definition Timed_FetchPegPrices ::
  "('w \<Rightarrow> int) \<Rightarrow> 'w TimedDataSourceCache \<Rightarrow> 'w \<Rightarrow> PegAssets res \<times> 'w TimedDataSourceCache \<times> 'w" where
  "Timed_FetchPegPrices clock d w =
     (if Cache d \<noteq> None \<and> clock w - LastCall d < CacheDuration d then (Inr (Cache d), d, w)
      else case FetchPegPrices (DataSource d) w of
          (Inl e, w') \<Rightarrow> (Inl e, d, w')
        | (Inr c, w') \<Rightarrow> (Inr c, d\<lparr>Cache := c, LastCall := clock w'\<rparr>, w'))"

definition Timed_FetchPegPrice ::
  "('w \<Rightarrow> int) \<Rightarrow> string \<Rightarrow> 'w TimedDataSourceCache \<Rightarrow> 'w \<Rightarrow> PegItem res \<times> 'w TimedDataSourceCache \<times> 'w"
  where
  "Timed_FetchPegPrice clock peg d w =
     (case Timed_FetchPegPrices clock d w of (r, s) \<Rightarrow> (FetchPegPrice peg r, s))"

section \<open>Sources\<close>

text \<open>
  The loops over the supported pegs: \<open>price\<close> is the item stored for a peg, \<open>None\<close> that the loop goes on
  without storing one.
\<close>

definition put_peg :: "(string \<Rightarrow> PegItem option) \<Rightarrow> (string \<rightharpoonup> PegItem) \<Rightarrow> string \<Rightarrow> (string \<rightharpoonup> PegItem)"
  where
  "put_peg price m asset = (case price asset of None \<Rightarrow> m | Some i \<Rightarrow> m(asset \<mapsto> i))"

definition put_pegs :: "(string \<Rightarrow> PegItem option) \<Rightarrow> string list \<Rightarrow> PegAssets" where
  "put_pegs price assets = Some (foldl (put_peg price) Map.empty assets)"

text \<open>apilayer.go. A failed request leaves a nil response, whose body is closed: that panics.\<close>

record APILayerResponse =
  Timestamp :: int
  Quotes :: "string \<rightharpoonup> f64"

definition APILayer_SupportedPegs :: "string list" where
  "APILayer_SupportedPegs = MergeLists [CurrencyAssets, V4CurrencyAdditions, V5CurrencyAdditions]"

definition CallAPILayer ::
  "string res \<Rightarrow> (string \<Rightarrow> byte list res res) \<Rightarrow> (byte list \<Rightarrow> APILayerResponse res)
     \<Rightarrow> APILayerResponse res" where
  "CallAPILayer apikey http_get decode =
     (case apikey of Inl e \<Rightarrow> Inl (Panic (err_msg e))
      | Inr key \<Rightarrow>
        (case http_get (''http://www.apilayer.net/api/live?access_key='' @ key) of
           Inl _ \<Rightarrow> Inl (Panic ''nil pointer dereference'')
         | Inr body \<Rightarrow> rbind body decode))"

definition APILayer_FetchPegPrices :: "APILayerResponse res \<Rightarrow> PegAssets res" where
  "APILayer_FetchPegPrices resp = rbind resp (\<lambda>r. Inr (put_pegs
     (\<lambda>c. map_option (\<lambda>v. unix_item (fdiv (Fin 1) v) (Timestamp r)) (Quotes r (''USD'' @ c)))
     APILayer_SupportedPegs))"

text \<open>exchangeratesapi.go and openexchangerates.go.\<close>

record ExchangeRatesAPIResponse =
  RateDate :: string
  ExRates :: "string \<rightharpoonup> f64"

definition ExchangeRates_SupportedPegs :: "string list" where
  "ExchangeRates_SupportedPegs = CurrencyAssets"

definition ExchangeRates_FetchPegPrices ::
  "(string \<Rightarrow> string \<Rightarrow> int res) \<Rightarrow> ExchangeRatesAPIResponse res \<Rightarrow> PegAssets res" where
  "ExchangeRates_FetchPegPrices parse_time resp =
     rbind resp (\<lambda>r. rbind (parse_time ''2006-01-02'' (RateDate r)) (\<lambda>t.
       Inr (put_pegs (\<lambda>c. map_option (\<lambda>v. time_item (fdiv (Fin 1) v) t) (ExRates r c))
         ExchangeRates_SupportedPegs)))"

record OpenExchangeRatesResponse =
  OpenTimestamp :: int
  OpenRates :: "string \<rightharpoonup> f64"

definition OpenExchangeRates_SupportedPegs :: "string list" where
  "OpenExchangeRates_SupportedPegs =
     MergeLists [CurrencyAssets, CommodityAssets, [''XBT''], V4CurrencyAdditions, V5CurrencyAdditions]"

definition CallOpenExchangeRates ::
  "string res \<Rightarrow> (string \<Rightarrow> byte list res) \<Rightarrow> (byte list \<Rightarrow> OpenExchangeRatesResponse res)
     \<Rightarrow> OpenExchangeRatesResponse res" where
  "CallOpenExchangeRates apikey http_get decode =
     (case apikey of Inl e \<Rightarrow> Inl (Panic (err_msg e))
      | Inr key \<Rightarrow>
        rbind (http_get (''https://openexchangerates.org/api/latest.json?app_id='' @ key)) decode)"

definition OpenExchangeRates_FetchPegPrices :: "OpenExchangeRatesResponse res \<Rightarrow> PegAssets res" where
  "OpenExchangeRates_FetchPegPrices resp = rbind resp (\<lambda>r.
     (let quote = (\<lambda>v. unix_item (fdiv (Fin 1) v) (OpenTimestamp r)) in
      Inr (put_pegs (\<lambda>c.
        (case (if c = ''XBT'' then OpenRates r ''BTC'' else None) of
           Some v \<Rightarrow> Some (quote v)
         | None \<Rightarrow> map_option quote (OpenRates r c))) OpenExchangeRates_SupportedPegs)))"

text \<open>freeforex.go and 1forge.go.\<close>

record FreeForexAPIDataSourceRate =
  FreeRate :: f64
  FreeTimestamp :: int

definition FreeForexAPI_SupportedPegs :: "string list" where
  "FreeForexAPI_SupportedPegs =
     MergeLists [CurrencyAssets, [''XAU'', ''XAG''], V4CurrencyAdditions, V5CurrencyAdditions]"

definition FreeForexAPI_FetchPegPrices ::
  "(string \<rightharpoonup> FreeForexAPIDataSourceRate) res \<Rightarrow> PegAssets res" where
  "FreeForexAPI_FetchPegPrices resp = rbind resp (\<lambda>rates. Inr (put_pegs
     (\<lambda>asset. map_option (\<lambda>c. unix_item (fdiv (Fin 1) (FreeRate c)) (FreeTimestamp c))
        (rates (''USD'' @ asset))) FreeForexAPI_SupportedPegs))"

record OneForgeDataSourceRate =
  ForgeSymbol :: string
  ForgePrice :: f64
  ForgeTimestamp :: int

definition OneForge_SupportedPegs :: "string list" where
  "OneForge_SupportedPegs = MergeLists
     [[''EUR'', ''JPY'', ''GBP'', ''CAD'', ''CHF'', ''SGD'', ''HKD'', ''MXN''], [''XAU'', ''XAG''],
      [''AUD'', ''NZD'', ''SEK'', ''NOK'', ''RUB'', ''ZAR'', ''TRY'']]"

definition OneForge_AssetMapping :: "string \<rightharpoonup> string" where
  "OneForge_AssetMapping = [''XBT'' \<mapsto> ''BTC'', ''XBC'' \<mapsto> ''BCH'', ''DASH'' \<mapsto> ''DSH'']"

definition OneForge_FetchPegPrices :: "OneForgeDataSourceRate list res \<Rightarrow> PegAssets res" where
  "OneForge_FetchPegPrices resp = rbind resp (\<lambda>rs.
     (let respRates = foldl (\<lambda>m r. m(ForgeSymbol r \<mapsto> r)) Map.empty rs in
      Inr (put_pegs (\<lambda>asset.
        (let assetSym = (case OneForge_AssetMapping asset of Some v \<Rightarrow> v | None \<Rightarrow> asset) in
         map_option (\<lambda>c. unix_item (ForgePrice c) (ForgeTimestamp c)) (respRates (assetSym @ ''/USD''))))
        OneForge_SupportedPegs)))"

text \<open>fixedusd.go; \<open>now\<close> is the current time.\<close>

definition FixedUSD_SupportedPegs :: "string list" where "FixedUSD_SupportedPegs = [''USD'']"

definition FixedUSD_FetchPegPrices :: "int \<Rightarrow> PegAssets res" where
  "FixedUSD_FetchPegPrices now = Inr (Some [''USD'' \<mapsto> time_item (Fin 1) now])"

text \<open>kitco.go.\<close>

definition Kitco_SupportedPegs :: "string list" where "Kitco_SupportedPegs = CommodityAssets"

definition Kitco_parseData ::
  "(string \<Rightarrow> string \<Rightarrow> int res) \<Rightarrow> (string \<Rightarrow> f64 res) \<Rightarrow> KitcoRecord \<Rightarrow> PegItem res" where
  "Kitco_parseData parse_time parse_float data =
     rbind (parse_time ''01/02/2006'' (Date data)) (\<lambda>t.
     rbind (parse_float (Bid data)) (\<lambda>v. Inr (time_item v t)))"

definition Kitco_FetchPegPrices ::
  "(string \<Rightarrow> string \<Rightarrow> int res) \<Rightarrow> (string \<Rightarrow> f64 res) \<Rightarrow> KitcoData res \<Rightarrow> PegAssets res" where
  "Kitco_FetchPegPrices parse_time parse_float resp = rbind resp (\<lambda>k.
     rbind (Kitco_parseData parse_time parse_float (Silver k)) (\<lambda>ag.
     rbind (Kitco_parseData parse_time parse_float (Gold k)) (\<lambda>au.
     rbind (Kitco_parseData parse_time parse_float (Palladium k)) (\<lambda>pd.
     rbind (Kitco_parseData parse_time parse_float (Platinum k)) (\<lambda>pt.
     Inr (Some [''XAG'' \<mapsto> ag, ''XAU'' \<mapsto> au, ''XPD'' \<mapsto> pd, ''XPT'' \<mapsto> pt]))))))"

text \<open>factoshiio.go and pegnetmarketcap.go; the order of the records of the latter is the range's.\<close>

record FactoshiioDataResponse =
  ShiPrice :: f64
  UpdatedAt :: int

definition Factoshiio_FetchPegPrices :: "FactoshiioDataResponse res \<Rightarrow> PegAssets res" where
  "Factoshiio_FetchPegPrices resp = rbind resp (\<lambda>r.
     Inr (Some [PEGAsset ! 0 \<mapsto> unix_item (ShiPrice r) (UpdatedAt r)]))"

record PegnetMarketCapResponse =
  TickerSymbol :: string
  ExchangePrice :: string
  ExchangePriceDateline :: int

definition PegnetMarketCap_SupportedPegs :: "string list" where
  "PegnetMarketCap_SupportedPegs = MergeLists [PEGAsset]"

definition pegnet_market_step :: "(string \<Rightarrow> f64 res) \<Rightarrow> (string \<rightharpoonup> PegItem) \<Rightarrow> PegnetMarketCapResponse
     \<Rightarrow> (string \<rightharpoonup> PegItem)" where
  "pegnet_market_step parse_float peg p =
     (if TickerSymbol p = ''PEG''
      then (case parse_float (ExchangePrice p) of
              Inl _ \<Rightarrow> peg
            | Inr rate \<Rightarrow> peg(TickerSymbol p \<mapsto> unix_item rate (ExchangePriceDateline p)))
      else peg)"

definition PegnetMarketCap_FetchPegPrices ::
  "(string \<Rightarrow> f64 res) \<Rightarrow> PegnetMarketCapResponse list res \<Rightarrow> PegAssets res" where
  "PegnetMarketCap_FetchPegPrices parse_float resp = rbind resp (\<lambda>rs.
     Inr (Some (foldl (pegnet_market_step parse_float) Map.empty rs)))"

end
