(* ===== verification/CryptoSources.thy ===== *)
theory CryptoSources
  imports PriceSource
begin

text \<open>
  Package polling, the sources of prices of crypto currencies (coincap.go, coinmarketcap.go,
  coingecko.go, alternative.go), all sources behind the interface with their cache
  (\<open>NewDataSource\<close> of assets.go), and what every source has in common: it gives no price of an asset
  that it does not claim to support.
\<close>

section \<open>coincap.go\<close>

record CoinCapRecord =
  CoinID :: string
  CoinSymbol :: string
  PriceUSD :: string

record CoinCapResponse =
  CoinData :: "CoinCapRecord list"
  CoinTimestamp :: int

definition CoinCap_SupportedPegs :: "string list" where
  "CoinCap_SupportedPegs = (CryptoAssets @ V4CryptoAdditions) @
     [''NEO'', ''ETC'', ''ONT'', ''DOGE'', ''VET'', ''HT'', ''ALGO'', ''DGB'']"

definition CoinCapIOCryptoAssetNames :: "string \<rightharpoonup> string" where
  "CoinCapIOCryptoAssetNames = map_of
     [(''XBT'', ''bitcoin''), (''ETH'', ''ethereum''), (''LTC'', ''litecoin''), (''RVN'', ''ravencoin''),
      (''XBC'', ''bitcoin-cash''), (''FCT'', ''factom''), (''BNB'', ''binance-coin''), (''XLM'', ''stellar''),
      (''ADA'', ''cardano''), (''XMR'', ''monero''), (''DASH'', ''dash''), (''ZEC'', ''zcash''),
      (''DCR'', ''decred''), (''EOS'', ''eos''), (''LINK'', ''chainlink''), (''ATOM'', ''cosmos''),
      (''BAT'', ''basic-attention-token''), (''XTZ'', ''tezos''), (''NEO'', ''neo''),
      (''ETC'', ''ethereum-classic''), (''ONT'', ''ontology''), (''DOGE'', ''dogecoin''),
      (''VET'', ''vechain''), (''HT'', ''huobi-token''), (''ALGO'', ''algorand''), (''DGB'', ''digibyte'')]"

text \<open>The tickers that are stored under another name, or under their own if it is supported.\<close>

definition coincap_key :: "string \<Rightarrow> string option" where
  "coincap_key ticker =
     (if ticker = ''BTC'' \<or> ticker = ''XBT'' then Some ''XBT''
      else if ticker = ''BCH'' \<or> ticker = ''XBC'' then Some ''XBC''
      else if ticker = ''ZCASH'' \<or> ticker = ''ZEC'' then Some ''ZEC''
      else if AssetListContains CoinCap_SupportedPegs ticker then Some ticker
      else None)"

definition coincap_step :: "(string \<Rightarrow> f64 res) \<Rightarrow> int \<Rightarrow> (string \<rightharpoonup> PegItem) \<Rightarrow> CoinCapRecord
     \<Rightarrow> (string \<rightharpoonup> PegItem) res" where
  "coincap_step parse_float unix peg c =
     (if (case CoinCapIOCryptoAssetNames (CoinSymbol c) of None \<Rightarrow> False | Some cid \<Rightarrow> CoinID c \<noteq> cid)
      then Inr peg
      else case coincap_key (CoinSymbol c) of
        None \<Rightarrow> Inr peg
      | Some key \<Rightarrow> rbind (parse_float (PriceUSD c)) (\<lambda>v. Inr (peg(key \<mapsto> unix_item v unix))))"

definition CoinCap_FetchPegPrices ::
  "(string \<Rightarrow> f64 res) \<Rightarrow> CoinCapResponse res \<Rightarrow> PegAssets res" where
  "CoinCap_FetchPegPrices parse_float resp = rbind resp (\<lambda>r.
     rbind (res_fold (coincap_step parse_float (CoinTimestamp r sdiv 1000)) Map.empty (CoinData r))
       (\<lambda>peg. Inr (Some peg)))"

definition coincap_url :: string where
  "coincap_url = ''http://api.coincap.io/v2/assets?ids='' @ Join (map (\<lambda>a.
     case CoinCapIOCryptoAssetNames a of None \<Rightarrow> [] | Some cid \<Rightarrow> cid) CoinCap_SupportedPegs) '',''"

section \<open>coinmarketcap.go\<close>

record CoinMarketCapQuote =
  QuotePrice :: f64
  LastUpdated :: string

record CoinMarketCapCurrency =
  CurrencySymbol :: string
  Quote :: "string \<rightharpoonup> CoinMarketCapQuote"

definition CoinMarketCap_SupportedPegs :: "string list" where
  "CoinMarketCap_SupportedPegs = MergeLists [CryptoAssets, V4CryptoAdditions, PEGAsset, V5CryptoAdditions]"

definition CoinMarketCap_CurrencyIDMapping :: "string \<rightharpoonup> int" where
  "CoinMarketCap_CurrencyIDMapping = map_of
     [(''XBT'', 1), (''ETH'', 1027), (''LTC'', 2), (''RVN'', 2577), (''XBC'', 1831), (''FCT'', 1087),
      (''BNB'', 1839), (''XLM'', 512), (''ADA'', 2010), (''XMR'', 328), (''DASH'', 131), (''ZEC'', 1437),
      (''DCR'', 1168), (''PEG'', 4979), (''EOS'', 1765), (''LINK'', 1975), (''XTZ'', 2011), (''BAT'', 1697),
      (''ATOM'', 3794), (''HBAR'', 4642), (''NEO'', 1376), (''CRO'', 3635), (''ETC'', 1321),
      (''ONT'', 2566), (''DOGE'', 74), (''VET'', 3077), (''HT'', 2502), (''ALGO'', 4030), (''DGB'', 109)]"

definition id_string :: "(string \<rightharpoonup> int) \<Rightarrow> string \<Rightarrow> string" where
  "id_string mapping asset = itoa (case mapping asset of None \<Rightarrow> 0 | Some cid \<Rightarrow> cid)"

definition coinmarket_price :: "(string \<Rightarrow> string \<Rightarrow> int res) \<Rightarrow> (string \<rightharpoonup> CoinMarketCapCurrency)
     \<Rightarrow> string \<Rightarrow> PegItem option" where
  "coinmarket_price parse_time data asset =
     (case data (id_string CoinMarketCap_CurrencyIDMapping asset) of
        None \<Rightarrow> None
      | Some currency \<Rightarrow>
         (if CurrencySymbol currency \<noteq> asset \<and> \<not> (asset = ''XBT'' \<or> asset = ''XBC'') then None
          else case Quote currency ''USD'' of
            None \<Rightarrow> None
          | Some q \<Rightarrow> (case parse_time ''2006-01-02T15:04:05.000Z'' (LastUpdated q) of
              Inl _ \<Rightarrow> None
            | Inr t \<Rightarrow> Some (time_item (QuotePrice q) t))))"

definition CoinMarketCap_FetchPegPrices :: "(string \<Rightarrow> string \<Rightarrow> int res)
     \<Rightarrow> (string \<rightharpoonup> CoinMarketCapCurrency) res \<Rightarrow> PegAssets res" where
  "CoinMarketCap_FetchPegPrices parse_time resp = rbind resp (\<lambda>data.
     Inr (put_pegs (coinmarket_price parse_time data) CoinMarketCap_SupportedPegs))"

section \<open>coingecko.go\<close>

record CoinGeckoDataSourceResponse =
  UsdQuote :: f64
  GeckoUpdatedAt :: int

definition CoinGecko_SupportedPegs :: "string list" where
  "CoinGecko_SupportedPegs = MergeLists [PEGAsset, CryptoAssets, V4CryptoAdditions, V5CryptoAdditions]"

definition CoinGecko_CurrencyIDMapping :: "string \<rightharpoonup> string" where
  "CoinGecko_CurrencyIDMapping = map_of
     [(''PEG'', ''pegnet''), (''XBT'', ''bitcoin''), (''ETH'', ''ethereum''), (''LTC'', ''litecoin''),
      (''RVN'', ''ravencoin''), (''XBC'', ''bitcoin-cash''), (''FCT'', ''factom''), (''BNB'', ''binancecoin''),
      (''XLM'', ''stellar''), (''ADA'', ''cardano''), (''XMR'', ''monero''), (''DASH'', ''dash''),
      (''ZEC'', ''zcash''), (''DCR'', ''decred''), (''EOS'', ''eos''), (''LINK'', ''chainlink''),
      (''ATOM'', ''cosmos''), (''BAT'', ''basic-attention-token''), (''XTZ'', ''tezos''),
      (''HBAR'', ''hedera-hashgraph''), (''NEO'', ''neo''), (''CRO'', ''crypto-com-chain''),
      (''ETC'', ''ethereum-classic''), (''ONT'', ''ontology''), (''DOGE'', ''dogecoin''),
      (''VET'', ''vechain''), (''HT'', ''huobi-token''), (''ALGO'', ''algorand''), (''DGB'', ''digibyte'')]"

definition CoinGecko_FetchPegPrices ::
  "(string \<rightharpoonup> CoinGeckoDataSourceResponse) res \<Rightarrow> PegAssets res" where
  "CoinGecko_FetchPegPrices resp = rbind resp (\<lambda>r. Inr (put_pegs (\<lambda>asset.
     map_option (\<lambda>v. unix_item (UsdQuote v) (GeckoUpdatedAt v))
       (r (case CoinGecko_CurrencyIDMapping asset of None \<Rightarrow> [] | Some cid \<Rightarrow> cid)))
     CoinGecko_SupportedPegs))"

section \<open>alternative.go\<close>

record AlternativeMeDataSourceRate =
  AltQuotes :: "string \<rightharpoonup> f64"
  AltUpdated :: int

definition AlternativeMe_SupportedPegs :: "string list" where
  "AlternativeMe_SupportedPegs =
     MergeLists [CryptoAssets, [''EOS'', ''LINK'', ''BAT'', ''NEO'', ''ETC'', ''ONT'', ''DOGE'', ''HT'']]"

definition AlternativeMe_AssetMapping :: "string \<rightharpoonup> int" where
  "AlternativeMe_AssetMapping = map_of
     [(''XBT'', 1), (''ETH'', 1027), (''LTC'', 2), (''RVN'', 2577), (''XBC'', 1831), (''FCT'', 1087),
      (''BNB'', 1839), (''XLM'', 512), (''ADA'', 2010), (''XMR'', 328), (''DASH'', 131), (''ZEC'', 1437),
      (''DCR'', 1168), (''EOS'', 1765), (''LINK'', 1975), (''XTZ'', 2011), (''BAT'', 1697),
      (''NEO'', 1376), (''ETC'', 1321), (''ONT'', 2566), (''DOGE'', 74), (''HT'', 2502)]"

definition alternative_price :: "(string \<rightharpoonup> AlternativeMeDataSourceRate) \<Rightarrow> string \<Rightarrow> PegItem option" where
  "alternative_price data asset =
     (case data (id_string AlternativeMe_AssetMapping asset) of
        None \<Rightarrow> None
      | Some currency \<Rightarrow>
          map_option (\<lambda>price. unix_item price (AltUpdated currency)) (AltQuotes currency ''USD''))"

definition AlternativeMe_FetchPegPrices ::
  "(string \<rightharpoonup> AlternativeMeDataSourceRate) res \<Rightarrow> PegAssets res" where
  "AlternativeMe_FetchPegPrices resp =
     rbind resp (\<lambda>data. Inr (put_pegs (alternative_price data) AlternativeMe_SupportedPegs))"

section \<open>assets.go: the sources by name\<close>

text \<open>
  The web, the clock and the parsers of the standard library. Each call goes out into the world and
  comes back with the decoded response.
\<close>

record 'w web =
  clock :: "'w \<Rightarrow> int"
  parse_time :: "string \<Rightarrow> string \<Rightarrow> int res"
  parse_float :: "string \<Rightarrow> f64 res"
  call_apilayer :: "'w \<Rightarrow> APILayerResponse res \<times> 'w"
  call_coincap :: "'w \<Rightarrow> CoinCapResponse res \<times> 'w"
  call_exchangerates :: "'w \<Rightarrow> ExchangeRatesAPIResponse res \<times> 'w"
  get_kitco :: "'w \<Rightarrow> string res \<times> 'w"
  call_openexchange :: "'w \<Rightarrow> OpenExchangeRatesResponse res \<times> 'w"
  call_coinmarket :: "'w \<Rightarrow> (string \<rightharpoonup> CoinMarketCapCurrency) res \<times> 'w"
  call_freeforex :: "'w \<Rightarrow> (string \<rightharpoonup> FreeForexAPIDataSourceRate) res \<times> 'w"
  call_oneforge :: "'w \<Rightarrow> OneForgeDataSourceRate list res \<times> 'w"
  call_alternative :: "'w \<Rightarrow> (string \<rightharpoonup> AlternativeMeDataSourceRate) res \<times> 'w"
  call_pegnetmarket :: "'w \<Rightarrow> PegnetMarketCapResponse list res \<times> 'w"
  call_factoshiio :: "'w \<Rightarrow> FactoshiioDataResponse res \<times> 'w"
  call_coingecko :: "'w \<Rightarrow> (string \<rightharpoonup> CoinGeckoDataSourceResponse) res \<times> 'w"

definition reading :: "('r \<Rightarrow> PegAssets res) \<Rightarrow> ('w \<Rightarrow> 'r \<times> 'w) \<Rightarrow> 'w \<Rightarrow> PegAssets res \<times> 'w" where
  "reading parse call w = (case call w of (r, w') \<Rightarrow> (parse r, w'))"

definition source :: "string \<Rightarrow> string \<Rightarrow> string list \<Rightarrow> ('w \<Rightarrow> PegAssets res \<times> 'w) \<Rightarrow> 'w IDataSource" where
  "source n u pegs fetch = \<lparr>Name = n, Url = u, SupportedPegs = pegs, FetchPegPrices = fetch\<rparr>"

definition all_sources :: "'w web \<Rightarrow> 'w IDataSource list" where
  "all_sources web =
    [source ''APILayer'' ''https://apilayer.com/'' APILayer_SupportedPegs
       (reading APILayer_FetchPegPrices (call_apilayer web)),
     source ''CoinCap'' ''https://coincap.io/'' CoinCap_SupportedPegs
       (reading (CoinCap_FetchPegPrices (parse_float web)) (call_coincap web)),
     source ''ExchangeRates'' ''https://exchangeratesapi.io'' ExchangeRates_SupportedPegs
       (reading (ExchangeRates_FetchPegPrices (parse_time web)) (call_exchangerates web)),
     source ''Kitco'' ''https://www.kitco.com/'' Kitco_SupportedPegs
       (reading (\<lambda>p. Kitco_FetchPegPrices (parse_time web) (parse_float web) (CallKitcoWeb p)) (get_kitco web)),
     source ''OpenExchangeRates'' ''https://openexchangerates.org/'' OpenExchangeRates_SupportedPegs
       (reading OpenExchangeRates_FetchPegPrices (call_openexchange web)),
     source ''CoinMarketCap'' ''https://coinmarketcap.com/'' CoinMarketCap_SupportedPegs
       (reading (CoinMarketCap_FetchPegPrices (parse_time web)) (call_coinmarket web)),
     source ''FreeForexAPI'' ''https://www.freeforexapi.com'' FreeForexAPI_SupportedPegs
       (reading FreeForexAPI_FetchPegPrices (call_freeforex web)),
     source ''1Forge'' ''https://1forge.com'' OneForge_SupportedPegs
       (reading OneForge_FetchPegPrices (call_oneforge web)),
     source ''FixedUSD'' ''no-url'' FixedUSD_SupportedPegs
       (\<lambda>w. (FixedUSD_FetchPegPrices (clock web w), w)),
     source ''AlternativeMe'' ''https://alternative.me/crypto/api/'' AlternativeMe_SupportedPegs
       (reading AlternativeMe_FetchPegPrices (call_alternative web)),
     source ''PegnetMarketCap'' ''https://pegnetmarketcap.com/'' PegnetMarketCap_SupportedPegs
       (reading (PegnetMarketCap_FetchPegPrices (parse_float web)) (call_pegnetmarket web)),
     source ''Factoshiio'' ''https://factoshi.io/'' PEGAsset
       (reading Factoshiio_FetchPegPrices (call_factoshiio web)),
     source ''CoinGecko'' ''https://www.coingecko.com/'' CoinGecko_SupportedPegs
       (reading CoinGecko_FetchPegPrices (call_coingecko web))]"

text \<open>
  \<open>AllDataSources\<close> lists eleven of them, in no order; user input in any case is brought to their
  spelling. Names with "UnitTest" are for tests, and fail outside of them.
\<close>

definition AllDataSourcesList :: "string list" where
  "AllDataSourcesList = [''APILayer'', ''CoinCap'', ''FixedUSD'', ''Kitco'', ''OpenExchangeRates'',
     ''CoinMarketCap'', ''FreeForexAPI'', ''1Forge'', ''AlternativeMe'', ''PegnetMarketCap'', ''CoinGecko'']"

definition CorrectCasing :: "string \<Rightarrow> string" where
  "CorrectCasing s =
     (case List.find (\<lambda>v. ToLower s = ToLower v) AllDataSourcesList of
        Some v \<Rightarrow> v
      | None \<Rightarrow> if 0 \<le> Index s ''UnitTest'' then ''UnitTest'' else s)"

text \<open>
  \<open>config\<close> reads a string of the configuration; two sources need a key of it. Every source is cached
  for eight minutes.
\<close>

definition NewDataSource ::
  "'w web \<Rightarrow> (string \<Rightarrow> string res) \<Rightarrow> string \<Rightarrow> 'w TimedDataSourceCache res" where
  "NewDataSource web config s =
     (case List.find (\<lambda>d. Name d = CorrectCasing s) (all_sources web) of
        None \<Rightarrow> Inl (GoError (if CorrectCasing s = ''UnitTest''
          then ''this is a testing datasource for unit tests only'' else s @ '' is not a supported data source''))
      | Some d \<Rightarrow>
         rbind (if Name d = ''1Forge'' then config ''Oracle.1ForgeKey''
                else if Name d = ''CoinMarketCap'' then config ''Oracle.CoinMarketCapKey'' else Inr [])
           (\<lambda>_. Inr (NewTimedDataSourceCache d (8 * 60 * 10 ^ 9))))"

section \<open>What the sources have in common\<close>

definition only_supported :: "string list \<Rightarrow> PegAssets \<Rightarrow> bool" where
  "only_supported pegs p \<longleftrightarrow> (case p of None \<Rightarrow> False | Some m \<Rightarrow> dom m \<subseteq> set pegs)"

lemma put_pegs_Some: "put_pegs f as = Some (\<lambda>a. if a \<in> set as then f a else None)"
proof -
  have "foldl (put_peg f) m as = (\<lambda>a. if a \<in> set as \<and> f a \<noteq> None then f a else m a)" for m
    by (induction as arbitrary: m) (auto simp: put_peg_def fun_eq_iff split: option.split)
  then show ?thesis by (auto simp: put_pegs_def fun_eq_iff)
qed

lemma supported_put_pegs [intro]: "only_supported as (put_pegs f as)"
  by (auto simp: put_pegs_Some only_supported_def split: if_splits)

lemma AssetListContains_iff: "AssetListContains as a \<longleftrightarrow> a \<in> set as"
  by (induction as) auto

lemma choice_cases:
  "(if P then Some a else if Q then Some b else if R then Some c else if T then Some s else None) = Some k
     \<Longrightarrow> k \<in> {a, b, c} \<or> T \<and> k = s"
  by (auto split: if_splits)

lemma coincap_key_supported:
  assumes "coincap_key s = Some k"
  shows "k \<in> set CoinCap_SupportedPegs"
proof -
  have "{''XBT'', ''XBC'', ''ZEC''} \<subseteq> set CoinCap_SupportedPegs" by code_simp
  then show ?thesis
    using choice_cases [OF assms [unfolded coincap_key_def]] by (auto simp: AssetListContains_iff)
qed

lemma coincap_step_dom:
  assumes "coincap_step pf t m c = Inr m'" "dom m \<subseteq> set CoinCap_SupportedPegs"
  shows "dom m' \<subseteq> set CoinCap_SupportedPegs"
proof (cases "coincap_key (CoinSymbol c)")
  case None
  with assms show ?thesis by (simp add: coincap_step_def split: if_splits)
next
  case (Some k)
  then have "k \<in> set CoinCap_SupportedPegs" by (rule coincap_key_supported)
  with assms Some show ?thesis
    by (auto simp: coincap_step_def res_simps subset_iff domIff split: if_splits)
qed

lemma coincap_fold:
  "res_fold (coincap_step pf t) m cs = Inr m' \<Longrightarrow> dom m \<subseteq> set CoinCap_SupportedPegs \<Longrightarrow>
     dom m' \<subseteq> set CoinCap_SupportedPegs"
proof (induction cs arbitrary: m)
  case (Cons c cs)
  then obtain m1 where m1: "coincap_step pf t m c = Inr m1" "res_fold (coincap_step pf t) m1 cs = Inr m'"
    by (auto simp: res_simps)
  from Cons.IH [OF m1(2) coincap_step_dom [OF m1(1) Cons.prems(2)]] show ?case .
qed simp

lemma coincap_supported: "CoinCap_FetchPegPrices pf r = Inr p \<Longrightarrow> only_supported CoinCap_SupportedPegs p"
  by (auto simp: CoinCap_FetchPegPrices_def res_simps only_supported_def dest: coincap_fold)

lemma pegnet_market_fold:
  "dom m \<subseteq> {''PEG''} \<Longrightarrow> dom (foldl (pegnet_market_step pf) m rs) \<subseteq> {''PEG''}"
proof (induction rs arbitrary: m)
  case (Cons r rs)
  have "dom (pegnet_market_step pf m r) \<subseteq> {''PEG''}"
    using Cons.prems by (auto simp: pegnet_market_step_def dom_def split: sum.split)
  then show ?case using Cons.IH by simp
qed simp

lemma put_pegs_supported:
  "APILayer_FetchPegPrices r1 = Inr p \<Longrightarrow> only_supported APILayer_SupportedPegs p"
  "ExchangeRates_FetchPegPrices pt r2 = Inr p \<Longrightarrow> only_supported ExchangeRates_SupportedPegs p"
  "OpenExchangeRates_FetchPegPrices r3 = Inr p \<Longrightarrow> only_supported OpenExchangeRates_SupportedPegs p"
  "CoinMarketCap_FetchPegPrices pt r4 = Inr p \<Longrightarrow> only_supported CoinMarketCap_SupportedPegs p"
  "FreeForexAPI_FetchPegPrices r5 = Inr p \<Longrightarrow> only_supported FreeForexAPI_SupportedPegs p"
  "OneForge_FetchPegPrices r6 = Inr p \<Longrightarrow> only_supported OneForge_SupportedPegs p"
  "AlternativeMe_FetchPegPrices r7 = Inr p \<Longrightarrow> only_supported AlternativeMe_SupportedPegs p"
  "CoinGecko_FetchPegPrices r8 = Inr p \<Longrightarrow> only_supported CoinGecko_SupportedPegs p"
  by (auto simp: APILayer_FetchPegPrices_def ExchangeRates_FetchPegPrices_def
      OpenExchangeRates_FetchPegPrices_def CoinMarketCap_FetchPegPrices_def FreeForexAPI_FetchPegPrices_def
      OneForge_FetchPegPrices_def AlternativeMe_FetchPegPrices_def CoinGecko_FetchPegPrices_def
      res_simps Let_def)

lemma other_supported:
  "FixedUSD_FetchPegPrices now = Inr p \<Longrightarrow> only_supported FixedUSD_SupportedPegs p"
  "Kitco_FetchPegPrices pt pf r9 = Inr p \<Longrightarrow> only_supported Kitco_SupportedPegs p"
  "Factoshiio_FetchPegPrices r10 = Inr p \<Longrightarrow> only_supported PEGAsset p"
  "PegnetMarketCap_FetchPegPrices pf r11 = Inr p \<Longrightarrow> only_supported PegnetMarketCap_SupportedPegs p"
  using pegnet_market_fold [of Map.empty pf]
  by (auto simp: FixedUSD_FetchPegPrices_def FixedUSD_SupportedPegs_def Kitco_FetchPegPrices_def
      Kitco_SupportedPegs_def CommodityAssets_def Factoshiio_FetchPegPrices_def PEGAsset_def
      PegnetMarketCap_FetchPegPrices_def PegnetMarketCap_SupportedPegs_def MergeLists_def
      only_supported_def res_simps split: if_splits)

lemma reading_Inr: "reading f call w = (Inr p, w') \<Longrightarrow> \<exists>r. f r = Inr p"
  by (auto simp: reading_def split: prod.splits)

lemmas source_supported = put_pegs_supported other_supported coincap_supported

lemma sources_supported:
  assumes "d \<in> set (all_sources web)" "FetchPegPrices d w = (Inr p, w')"
  shows "only_supported (SupportedPegs d) p"
proof -
  have "\<forall>d \<in> set (all_sources web). \<forall>w p w'. FetchPegPrices d w = (Inr p, w') \<longrightarrow>
      only_supported (SupportedPegs d) p"
    unfolding all_sources_def source_def
    by (simp only: list.set ball_simps IDataSource.simps)
      (intro conjI allI impI TrueI; (drule reading_Inr, elim exE)?; simp add: source_supported)
  with assms show ?thesis by blast
qed

text \<open>
  CoinCap's records are checked against the id of their currency, to keep out other currencies with
  the same ticker; but the ids are filed under PegNet's names, so that a record with the ticker BTC,
  BCH or ZCASH is never checked, and the last one wins.
\<close>

lemma coincap_unchecked:
  assumes "t \<in> {''BTC'', ''BCH'', ''ZCASH''}"
  shows "\<exists>key. \<forall>cid.
     coincap_step pf unix m \<lparr>CoinID = cid, CoinSymbol = t, PriceUSD = s\<rparr>
       = rbind (pf s) (\<lambda>v. Inr (m(key \<mapsto> unix_item v unix)))"
proof -
  have "\<forall>t \<in> set [''BTC'', ''BCH'', ''ZCASH'']. CoinCapIOCryptoAssetNames t = None \<and> coincap_key t \<noteq> None"
    by code_simp
  then obtain key where "CoinCapIOCryptoAssetNames t = None" "coincap_key t = Some key"
    using assms by fastforce
  then show ?thesis by (auto simp: coincap_step_def)
qed

end
