(* ===== verification/Polling.thy ===== *)
theory Polling
  imports CryptoSources
begin

text \<open>
  Package polling, assets.go: which sources are asked for an asset, in which order, and the price taken
  from their answers. The configuration is an argument: \<open>settings\<close> are its keys in the order of the
  range over them, which Go leaves open, \<open>config\<close> and \<open>config_int\<close> read a key. \<open>sort.Slice\<close>, which may
  put equal elements in any order, is an argument \<open>srt\<close>.

  A source keeps its answer for some minutes; a pull also keeps the answers of its own duration. Both
  caches are part of the state.
\<close>

section \<open>Configuration\<close>

record 'w DataSources =
  AssetSources :: "string \<rightharpoonup> string list"
  Sources :: "string \<rightharpoonup> 'w TimedDataSourceCache"
  PriorityList :: "('w TimedDataSourceCache \<times> int) list"
  staleDuration :: int

definition asset_sources :: "(string \<rightharpoonup> string list) \<Rightarrow> string \<Rightarrow> string list" where
  "asset_sources m asset = (case m asset of None \<Rightarrow> [] | Some l \<Rightarrow> l)"

definition source_name :: "'w TimedDataSourceCache \<times> int \<Rightarrow> string" where
  "source_name v = Name (DataSource (fst v))"

text \<open>The regular expression of the settings of the sources is not anchored.\<close>

definition alnum :: "char \<Rightarrow> bool" where
  "alnum c = (let n = of_char c :: nat in
     (97 \<le> n \<and> n \<le> 122) \<or> (65 \<le> n \<and> n \<le> 90) \<or> (48 \<le> n \<and> n \<le> 57))"

fun source_setting :: "string \<Rightarrow> bool" where
  "source_setting [] = False"
| "source_setting (c # s) =
     (take 18 (c # s) = ''OracleDataSources.'' \<and> (case drop 18 (c # s) of [] \<Rightarrow> False | x # _ \<Rightarrow> alnum x)
      \<or> source_setting s)"

text \<open>\<open>CheckAndPanic\<close> ends the process on an error.\<close>

definition check_panic :: "'a res \<Rightarrow> 'a res" where
  "check_panic r = (case r of Inl e \<Rightarrow> Inl (Panic (err_msg e)) | Inr x \<Rightarrow> Inr x)"

definition add_source ::
  "'w web \<Rightarrow> (string \<Rightarrow> string res) \<Rightarrow> (string \<Rightarrow> int res)
     \<Rightarrow> ('w TimedDataSourceCache \<times> int) list \<times> (string \<rightharpoonup> 'w TimedDataSourceCache) \<Rightarrow> string
     \<Rightarrow> (('w TimedDataSourceCache \<times> int) list \<times> (string \<rightharpoonup> 'w TimedDataSourceCache)) res" where
  "add_source web config config_int acc setting =
     (if \<not> source_setting setting then Inr acc
      else rbind (check_panic (config_int setting)) (\<lambda>p.
        if p = -1 then Inr acc
        else let parts = Split (CHR ''.'') setting in
          guard_res (length parts \<noteq> 2) (Panic ''expect only 1 . in a setting'')
          (rbind (check_panic (NewDataSource web config (parts ! 1))) (\<lambda>s.
            Inr (fst acc @ [(s, p)], (snd acc)(Name (DataSource s) \<mapsto> s))))))"

definition sortPriorityList ::
  "('w TimedDataSourceCache \<times> int) list \<Rightarrow> ('w TimedDataSourceCache \<times> int) list" where
  "sortPriorityList l = sort_stable (\<lambda>a b. snd a < snd b) l"

fun unique_priorities :: "int \<Rightarrow> ('w TimedDataSourceCache \<times> int) list \<Rightarrow> bool" where
  "unique_priorities p [] = True"
| "unique_priorities p (v # vs) = (if snd v = p then False else unique_priorities (snd v) vs)"

definition add_asset_source :: "string \<Rightarrow> (string \<rightharpoonup> string list) \<Rightarrow> 'w TimedDataSourceCache \<times> int
     \<Rightarrow> (string \<rightharpoonup> string list)" where
  "add_asset_source asset m v =
     (if FindIndexInStringArray (SupportedPegs (DataSource (fst v))) asset \<noteq> -1
      then m(asset \<mapsto> asset_sources m asset @ [source_name v]) else m)"

definition override_asset ::
  "(string \<Rightarrow> string res) \<Rightarrow> (string \<rightharpoonup> string list) \<Rightarrow> string \<Rightarrow> (string \<rightharpoonup> string list)" where
  "override_asset config m asset =
     (case config (''OracleAssetDataSourcesPriority.'' @ asset) of
        Inl _ \<Rightarrow> m
      | Inr order \<Rightarrow> if order = [] then m else m(asset \<mapsto> Split (CHR '','') order))"

definition NewDataSources ::
  "'w web \<Rightarrow> (string \<Rightarrow> string res) \<Rightarrow> (string \<Rightarrow> int res) \<Rightarrow> (string \<Rightarrow> int res) \<Rightarrow> string list
     \<Rightarrow> 'w DataSources res" where
  "NewDataSources web config config_int parse_duration settings =
     rbind (check_panic (config ''Oracle.StaleQuoteDuration'')) (\<lambda>stale.
     rbind (check_panic (parse_duration stale)) (\<lambda>duration.
     rbind (res_fold (add_source web config config_int) ([], Map.empty) settings) (\<lambda>(l, m).
     (let sorted_list = sortPriorityList l in
      guard_res (\<not> unique_priorities (-1) sorted_list) (Panic ''priority used more than once'')
      (let by_asset = foldl (\<lambda>m asset. foldl (add_asset_source asset) m sorted_list) Map.empty AllAssets
       in Inr \<lparr>AssetSources = foldl (override_asset config) by_asset AllAssets, Sources = m,
               PriorityList = sorted_list, staleDuration = duration\<rparr>)))))"

definition PriorityListString :: "'w DataSources \<Rightarrow> string" where
  "PriorityListString ds =
     (let str = map (\<lambda>v. source_name v @ '':'' @ itoa (snd v)) (PriorityList ds) in
      if length str = 0 then ''You have no data sources configured'' else Join str '', '')"

definition AssetPriorityString :: "'w DataSources \<Rightarrow> string \<Rightarrow> string" where
  "AssetPriorityString ds asset =
     (let str = asset_sources (AssetSources ds) asset in
      if length str = 0 then ''NO DATASOURCE!'' else Join str '' -> '')"

section \<open>Asking the sources\<close>

text \<open>
  \<open>Once\<close> is the cache of a pull: the answers of the sources asked so far; \<open>None\<close> when the sources are
  asked without it. A name that no source has reads as a nil interface, on which a call panics.
\<close>

record 'w PullState =
  Data :: "'w DataSources"
  Once :: "(string \<rightharpoonup> (string \<rightharpoonup> PegItem)) option"
  World :: 'w

definition timed_prices ::
  "'w web \<Rightarrow> string \<Rightarrow> 'w TimedDataSourceCache \<Rightarrow> 'w PullState \<Rightarrow> PegAssets res \<times> 'w PullState" where
  "timed_prices web name t st =
     (case Timed_FetchPegPrices (clock web) t (World st) of
        (r, t', w') \<Rightarrow> (r, st\<lparr>Data := (Data st)\<lparr>Sources := (Sources (Data st))(name \<mapsto> t')\<rparr>, World := w'\<rparr>))"

definition source_prices :: "'w web \<Rightarrow> string \<Rightarrow> 'w PullState \<Rightarrow> PegAssets res \<times> 'w PullState" where
  "source_prices web name st =
     (case Sources (Data st) name of
        None \<Rightarrow> (Inl (Panic ''nil pointer dereference''), st)
      | Some t \<Rightarrow>
         (case Once st of
            None \<Rightarrow> timed_prices web name t st
          | Some wrap \<Rightarrow>
             (case wrap name of
                Some c \<Rightarrow> (Inr (Some c), st)
              | None \<Rightarrow>
                 (case timed_prices web name t st of
                    (Inr (Some c), st') \<Rightarrow> (Inr (Some c), st'\<lparr>Once := Some (wrap(name \<mapsto> c))\<rparr>)
                  | (r, st') \<Rightarrow> (r, st')))))"

text \<open>The error of the last source asked is kept, even if others answered.\<close>

fun poll :: "'w web \<Rightarrow> string \<Rightarrow> string list \<Rightarrow> PegItem list \<Rightarrow> go_error option \<Rightarrow> 'w PullState
     \<Rightarrow> (PegItem list \<times> go_error option) res \<times> 'w PullState" where
  "poll web asset [] prices err st = (Inr (prices, err), st)"
| "poll web asset (s # ss) prices err st =
     (case source_prices web s st of (r, st') \<Rightarrow>
        (case FetchPegPrice asset r of
           Inl e \<Rightarrow> (if is_panic (Inl e :: PegItem res) then (Inl e, st')
                     else poll web asset ss prices (Some e) st')
         | Inr price \<Rightarrow>
             poll web asset ss (if feq (ItemValue price) (Fin 0) then prices else prices @ [price]) None st'))"

section \<open>The price taken\<close>

text \<open>The sorted list is the caller's too: a slice shares its array.\<close>

definition TrimmedMean ::
  "(PegItem list \<Rightarrow> PegItem list) \<Rightarrow> PegItem list \<Rightarrow> nat \<Rightarrow> (f64 \<times> PegItem list) res" where
  "TrimmedMean srt data p =
     (if length data < 3
      then (case data of [] \<Rightarrow> Inl (Panic ''index out of range'') | d # _ \<Rightarrow> Inr (ItemValue d, data))
      else let s = srt data;
               sum = foldl (\<lambda>sum d. fadd sum (ItemValue d)) (Fin 0) (take (length s - 2 * p) (drop p s))
           in Inr (fdiv sum (f64_of_int (int (length s) - 2 * int p)), s))"

text \<open>The assignments are the source's: the later ones overwrite the first.\<close>

definition toleranceRate :: "f64 \<Rightarrow> f64" where
  "toleranceRate tMean =
     (let r0 = f64_const (1 / 100);
          r1 = (if fle (f64_const 100000) tMean then f64_const (1 / 1000) else r0);
          r2 = (if fle (f64_const 1000) tMean then f64_const (1 / 100) else r1)
      in if flt tMean (f64_const 1000) then f64_const (1 / 10) else r2)"

definition in_band :: "f64 \<Rightarrow> PegItem \<Rightarrow> bool" where
  "in_band tMean p =
     (let rate = toleranceRate tMean;
          high = fmul tMean (fadd (Fin 1) rate);
          low = fmul tMean (fsub (Fin 1) rate)
      in fle low (ItemValue p) \<and> fle (ItemValue p) high)"

definition best_price :: "(PegItem list \<Rightarrow> PegItem list) \<Rightarrow> byte \<Rightarrow> string \<Rightarrow> PegItem list \<times> go_error option
     \<Rightarrow> PegItem res" where
  "best_price srt oprversion asset pe =
     (case pe of (prices, err) \<Rightarrow>
      rbind (if oprversion = 5 \<and> length prices > 0
             then rbind (TrimmedMean srt prices 1) (\<lambda>(tMean, prices).
               Inr (prices, List.find (in_band tMean) prices))
             else Inr (prices, None)) (\<lambda>(prices, banded).
      (case banded of
         Some p \<Rightarrow> Inr p
       | None \<Rightarrow>
          (if length prices > 0 then Inr (prices ! 0)
           else case err of
               Some e \<Rightarrow> Inl e
             | None \<Rightarrow> if asset = ''PEG'' then Inr zero_item
                 else Inl (GoError (asset @ '' does not seem to have any datasources configured''))))))"

definition PullBestPrice :: "'w web \<Rightarrow> (PegItem list \<Rightarrow> PegItem list) \<Rightarrow> byte \<Rightarrow> string \<Rightarrow> 'w PullState
     \<Rightarrow> PegItem res \<times> 'w PullState" where
  "PullBestPrice web srt oprversion asset st =
     (case poll web asset (asset_sources (AssetSources (Data st)) asset) [] None st of
        (r, st') \<Rightarrow> (rbind r (best_price srt oprversion asset), st'))"

text \<open>A failed price ends the pull with an error that names the asset; a panic is not an error.\<close>

definition wrap_price_error :: "string \<Rightarrow> go_error \<Rightarrow> go_error" where
  "wrap_price_error asset e = (if is_panic (Inl e :: unit res) then e
     else GoError (''no price found for '' @ asset @ '' : '' @ err_msg e))"

fun pull_assets :: "'w web \<Rightarrow> (f64 \<Rightarrow> int) \<Rightarrow> (PegItem list \<Rightarrow> PegItem list) \<Rightarrow> byte \<Rightarrow> string list
     \<Rightarrow> 'w PullState \<Rightarrow> (string \<times> PegItem) list res \<times> 'w PullState" where
  "pull_assets web oob srt v [] st = (Inr [], st)"
| "pull_assets web oob srt v (asset # as) st =
     (case PullBestPrice web srt v asset st of
        (Inl e, st') \<Rightarrow> (Inl (wrap_price_error asset e), st')
      | (Inr price, st') \<Rightarrow>
          (if asset = ''PEG'' \<and> v = 3 \<and> feq (ItemValue price) (Fin 0)
           then (Inl (GoError ''no price found for PEG : PEG has no value, check your datasources''), st')
           else let value = (if v = 1 then TruncateTo4 oob (ItemValue price)
                             else TruncateTo8 oob (ItemValue price)) in
             case pull_assets web oob srt v as st' of
               (r, st2) \<Rightarrow> (rbind r (\<lambda>pa. Inr ((asset, price\<lparr>ItemValue := value\<rparr>) # pa)), st2)))"

definition pull_list :: "byte \<Rightarrow> string list" where
  "pull_list v = (if v = 5 \<or> v = 6 \<or> v = 7 then AssetsV5 else if v = 4 then AssetsV4 else AssetsV2)"

definition PullAllPEGAssets :: "'w web \<Rightarrow> (f64 \<Rightarrow> int) \<Rightarrow> (PegItem list \<Rightarrow> PegItem list) \<Rightarrow> byte
     \<Rightarrow> 'w PullState \<Rightarrow> (string \<times> PegItem) list res \<times> 'w PullState" where
  "PullAllPEGAssets web oob srt v st =
     (case pull_assets web oob srt v (pull_list v) (st\<lparr>Once := Some Map.empty\<rparr>) of
        (r, st') \<Rightarrow> (r, st'\<lparr>Once := None\<rparr>))"

end
