(* ===== verification/Float_Eval.thy ===== *)
theory Float_Eval
  imports Go_Float
begin

text \<open>
  Computing with concrete float64 values by simplification: \<open>rnd_at\<close> rounds a positive rational once
  the exponent \<open>k\<close> of its leading bit is given.
\<close>

named_theorems float_eval \<open>evaluation of the rounding of a rational\<close>

lemma rnd_at:
  assumes "pow2 k \<le> x" "x < pow2 (k + 1)" "- 1022 \<le> k" "k < 1023"
  shows "rnd x = Fin (of_int (round_half_even (x / pow2 (k - 52))) * pow2 (k - 52))"
proof -
  have pos: "0 < x" using assms(1) pow2_pos [of k] by linarith
  have "ulp_exp x = k - 52"
    using assms(3) pos by (simp add: ulp_exp_def ilog2_unique [OF assms(1,2)])
  then have v: "rnd_val x = of_int (round_half_even (x / pow2 (k - 52))) * pow2 (k - 52)"
    using pos by (simp add: rnd_val_def)
  have "rnd_val x \<le> rnd_val (pow2 (k + 1))" using assms(2) by (intro rnd_val_mono) simp
  also have "\<dots> = pow2 (k + 1)" using assms(3) by (intro rnd_val_pow2) simp
  also have "\<dots> < pow2 1024" using assms(4) by simp
  finally have "rnd_val x < pow2 1024" .
  moreover have "0 \<le> rnd_val x" using pos by (intro rnd_val_nonneg) simp
  ultimately show ?thesis
    using pow2_pos [of 1024] by (auto simp: rnd_def Let_def v [symmetric])
qed

lemma rat_floor_numeral [float_eval]: "\<lfloor>numeral a / numeral b :: rat\<rfloor> = numeral a div numeral b"
  using floor_divide_of_int_eq [of "numeral a" "numeral b", where ?'a = rat] by simp

lemma rat_floor_one [float_eval]: "\<lfloor>1 / numeral b :: rat\<rfloor> = 1 div numeral b"
  using floor_divide_of_int_eq [of 1 "numeral b", where ?'a = rat] by simp

lemmas [float_eval] = pow2_def round_half_even_def Let_def

lemma rnd_tenth: "rnd (1 / 10) = Fin (3602879701896397 / 36028797018963968)"
  by (simp add: rnd_at [of "- 4"] float_eval)

end
