(* ===== verification/Polling_Correct.thy ===== *)
theory Polling_Correct
  imports Polling Float_Eval
begin

text \<open>
  What the polling of prices guarantees: the order of the sources does not depend on the order in which
  the configuration is read, the prices of a pull that come from one source come from one answer of it,
  and which of several quotes is taken.
\<close>

section \<open>The sources of an asset\<close>

definition put_source ::
  "(string \<rightharpoonup> 'w TimedDataSourceCache) \<Rightarrow> 'w TimedDataSourceCache \<times> int \<Rightarrow> (string \<rightharpoonup> 'w TimedDataSourceCache)"
  where "put_source m v = m(source_name v \<mapsto> fst v)"

definition setting_sources :: "'w web \<Rightarrow> (string \<Rightarrow> string res) \<Rightarrow> (string \<Rightarrow> int res) \<Rightarrow> string
     \<Rightarrow> ('w TimedDataSourceCache \<times> int) list res" where
  "setting_sources web config config_int setting =
     rbind (add_source web config config_int ([], Map.empty) setting) (\<lambda>acc. Inr (fst acc))"

lemma add_source_eq:
  "add_source web config config_int acc setting = rbind (setting_sources web config config_int setting)
     (\<lambda>l. Inr (fst acc @ l, foldl put_source (snd acc) l))"
proof (cases "check_panic (config_int setting)")
  case (Inr p)
  then show ?thesis
    by (cases "check_panic (NewDataSource web config (Split (CHR ''.'') setting ! 1))")
      (simp_all add: add_source_def setting_sources_def put_source_def source_name_def guard_res_def Let_def)
qed (simp add: add_source_def setting_sources_def)

lemma add_sources_eq:
  "res_fold (add_source web config config_int) acc settings =
     rbind (res_map (setting_sources web config config_int) settings)
       (\<lambda>ls. Inr (fst acc @ concat ls, foldl put_source (snd acc) (concat ls)))"
proof (induction settings arbitrary: acc)
  case (Cons s ss)
  then show ?case
    by (cases "setting_sources web config config_int s";
        cases "res_map (setting_sources web config config_int) ss") (simp_all add: add_source_eq)
qed simp

lemma res_map_perm:
  assumes "res_map f xs = Inr ls" "mset xs = mset ys"
  shows "\<exists>ls'. res_map f ys = Inr ls' \<and> mset (concat ls') = mset (concat ls)"
proof -
  have all: "(\<forall>x \<in> set xs. f x = Inr (projr (f x))) \<and> ls = map (projr \<circ> f) xs"
    using assms(1) by (induction xs arbitrary: ls) (auto simp: res_simps)
  have "set xs = set ys" using assms(2) by (metis set_mset_mset)
  then have "res_map f ys = Inr (map (projr \<circ> f) ys)"
    using all by (intro res_map_Inr) simp
  moreover have "mset (map (mset \<circ> (projr \<circ> f)) xs) = mset (map (mset \<circ> (projr \<circ> f)) ys)"
    using assms(2) by simp
  then have "sum_list (map (mset \<circ> (projr \<circ> f)) xs) = sum_list (map (mset \<circ> (projr \<circ> f)) ys)"
    by (simp flip: sum_mset_sum_list)
  then have "mset (concat (map (projr \<circ> f) ys)) = mset (concat (map (projr \<circ> f) xs))"
    by (simp add: mset_concat o_assoc)
  ultimately show ?thesis using all by auto
qed

text \<open>A source is determined by its name.\<close>

definition named_source :: "'w web \<Rightarrow> string \<Rightarrow> 'w TimedDataSourceCache" where
  "named_source web n =
     NewTimedDataSourceCache (the (List.find (\<lambda>d. Name d = n) (all_sources web))) (8 * 60 * 10 ^ 9)"

lemma NewDataSource_named:
  assumes "NewDataSource web config s = Inr t"
  shows "t = named_source web (Name (DataSource t))"
proof -
  obtain d where d: "List.find (\<lambda>d. Name d = CorrectCasing s) (all_sources web) = Some d"
    and t: "t = NewTimedDataSourceCache d (8 * 60 * 10 ^ 9)"
    using assms by (auto simp: NewDataSource_def res_simps split: option.splits)
  have "Name d = CorrectCasing s" using d by (auto simp: find_Some_iff)
  with d t show ?thesis by (simp add: named_source_def NewTimedDataSourceCache_def)
qed

lemma setting_sources_named:
  "setting_sources web config config_int s = Inr l \<Longrightarrow> v \<in> set l \<Longrightarrow> fst v = named_source web (source_name v)"
  by (auto simp: setting_sources_def add_source_def res_simps check_panic_def source_name_def Let_def
      dest: NewDataSource_named split: if_splits sum.splits)

lemma foldl_put_source:
  assumes "\<And>v. v \<in> set l \<Longrightarrow> fst v = f (source_name v)"
  shows "foldl put_source m l = (\<lambda>n. if n \<in> source_name ` set l then Some (f n) else m n)"
  using assms
proof (induction l arbitrary: m)
  case (Cons v l)
  then show ?case by (auto simp: put_source_def fun_eq_iff)
qed simp

lemma unique_priorities_iff:
  "sorted (map snd l) \<Longrightarrow> unique_priorities p l \<Longrightarrow> sorted_wrt (<) (map snd l)"
proof (induction p l rule: unique_priorities.induct)
  case (2 p v vs)
  have "unique_priorities (snd v) vs" using "2.prems"(2) by (simp split: if_splits)
  moreover from this have "hd (map snd vs) \<noteq> snd v" if "vs \<noteq> []"
    using that by (cases vs) auto
  ultimately show ?case
    using 2 by (cases vs) (force split: if_splits)+
qed simp

lemma sortPriorityList_eq: "sortPriorityList l = sort_key snd l"
  unfolding sortPriorityList_def by (rule sort_stable_sort_key) simp

lemma sortPriorityList_perm:
  assumes "mset l = mset l'" "unique_priorities p (sortPriorityList l)"
  shows "sortPriorityList l' = sortPriorityList l"
proof -
  have "sorted_wrt (<) (map snd (sort_key snd l))"
    using assms(2) by (intro unique_priorities_iff [of _ p]) (simp_all add: sortPriorityList_eq)
  then have "distinct (map snd (sort_key snd l))" by (simp add: strict_sorted_iff)
  then have "inj_on snd (set l)" by (simp add: distinct_map)
  with assms(1) show ?thesis by (simp add: sortPriorityList_eq sort_key_perm_unique)
qed

lemma asset_sources_upd [simp]:
  "asset_sources (m(a \<mapsto> l)) b = (if b = a then l else asset_sources m b)"
  "asset_sources Map.empty b = []"
  by (simp_all add: asset_sources_def)

lemma FindIndex_iff: "FindIndexInStringArray xs x \<noteq> -1 \<longleftrightarrow> x \<in> set xs"
  by (auto simp: FindIndexInStringArray_def find_None_iff find_Some_iff in_set_conv_nth split: option.split)

definition supporting :: "string \<Rightarrow> ('w TimedDataSourceCache \<times> int) list \<Rightarrow> string list" where
  "supporting asset l = map source_name (filter (\<lambda>v. asset \<in> set (SupportedPegs (DataSource (fst v)))) l)"

lemma add_asset_fold:
  "asset_sources (foldl (add_asset_source a) m l) b =
     (if b = a then asset_sources m b @ supporting a l else asset_sources m b)"
  by (induction l arbitrary: m) (auto simp: add_asset_source_def FindIndex_iff supporting_def)

lemma by_asset_fold:
  "distinct as \<Longrightarrow> asset_sources (foldl (\<lambda>m a. foldl (add_asset_source a) m l) m as) b =
     (if b \<in> set as then asset_sources m b @ supporting b l else asset_sources m b)"
  by (induction as arbitrary: m) (auto simp: add_asset_fold)

definition overridden :: "(string \<Rightarrow> string res) \<Rightarrow> string \<Rightarrow> bool" where
  "overridden config asset = (case config (''OracleAssetDataSourcesPriority.'' @ asset) of
     Inl _ \<Rightarrow> False | Inr order \<Rightarrow> order \<noteq> [])"

lemma override_fold:
  "\<not> overridden config b \<Longrightarrow>
     asset_sources (foldl (override_asset config) m as) b = asset_sources m b"
  by (induction as arbitrary: m) (auto simp: override_asset_def overridden_def split: sum.splits)

lemma distinct_AllAssets: "distinct AllAssets"
  by code_simp

text \<open>
  C24. The configuration of the sources does not depend on the order in which its settings are read: it
  gives the same sources in the same order, by strictly increasing priority. An asset without an order
  of its own is asked of exactly the configured sources that support it, in that order.
\<close>

theorem sources_by_priority:
  assumes "NewDataSources web config config_int parse_duration settings = Inr d"
    and "mset settings' = mset settings"
  shows "NewDataSources web config config_int parse_duration settings' = Inr d
    \<and> sorted_wrt (<) (map snd (PriorityList d))
    \<and> (\<forall>asset \<in> set AllAssets.
         \<not> overridden config asset \<longrightarrow>
         asset_sources (AssetSources d) asset = supporting asset (PriorityList d))"
proof -
  let ?S = "setting_sources web config config_int"
  from assms(1) obtain ls where ls: "res_map ?S settings = Inr ls"
    and u: "unique_priorities (-1) (sortPriorityList (concat ls))"
    and d: "PriorityList d = sortPriorityList (concat ls)"
      "AssetSources d = foldl (override_asset config) (foldl (\<lambda>m asset. foldl (add_asset_source asset) m
         (sortPriorityList (concat ls))) Map.empty AllAssets) AllAssets"
    by (auto simp: NewDataSources_def add_sources_eq res_simps Let_def)
  obtain ls' where ls': "res_map ?S settings' = Inr ls'" "mset (concat ls') = mset (concat ls)"
    using res_map_perm [OF ls] assms(2) by metis
  have named: "fst v = named_source web (source_name v)"
    if "res_map ?S ss = Inr xs" "v \<in> set (concat xs)" for ss xs v
    using that
  proof (induction ss arbitrary: xs)
    case (Cons a ss)
    then obtain x ys where x: "?S a = Inr x" "res_map ?S ss = Inr ys" "xs = x # ys"
      by (auto simp: res_simps)
    with Cons show ?case
      by (cases "v \<in> set x") (simp_all add: setting_sources_named [OF x(1)])
  qed simp
  have set: "set (concat ls') = set (concat ls)" using ls'(2) by (metis set_mset_mset)
  have "foldl put_source Map.empty (concat ls') = foldl put_source Map.empty (concat ls)"
    using foldl_put_source [of "concat ls'", OF named [OF ls'(1)], of Map.empty]
      foldl_put_source [of "concat ls", OF named [OF ls], of Map.empty] set by (simp only:)
  moreover have "sortPriorityList (concat ls') = sortPriorityList (concat ls)"
    using sortPriorityList_perm [OF ls'(2) [symmetric] u] .
  ultimately have "NewDataSources web config config_int parse_duration settings' = Inr d"
    using assms(1) by (simp add: NewDataSources_def add_sources_eq ls ls'(1) cong: sum.case_cong)
  moreover have "sorted_wrt (<) (map snd (PriorityList d))"
    using u unfolding d(1) by (intro unique_priorities_iff) (simp_all add: sortPriorityList_eq)
  moreover have "asset_sources (AssetSources d) asset = supporting asset (PriorityList d)"
    if "asset \<in> set AllAssets" "\<not> overridden config asset" for asset
    using by_asset_fold [OF distinct_AllAssets, of "sortPriorityList (concat ls)" Map.empty asset] that
    by (simp add: d override_fold)
  ultimately show ?thesis by blast
qed

definition sample_web :: "nat web" where
  "sample_web = \<lparr>clock = int, parse_time = (\<lambda>_ _. Inr 0), parse_float = (\<lambda>_. Inr (Fin 2)),
     call_apilayer = (\<lambda>w. (Inl (GoError []), Suc w)), call_coincap = (\<lambda>w. (Inl (GoError []), Suc w)),
     call_exchangerates = (\<lambda>w. (Inl (GoError []), Suc w)), get_kitco = (\<lambda>w. (Inl (GoError []), Suc w)),
     call_openexchange = (\<lambda>w. (Inl (GoError []), Suc w)),
     call_coinmarket = (\<lambda>w. (Inl (GoError []), Suc w)), call_freeforex = (\<lambda>w. (Inl (GoError []), Suc w)),
     call_oneforge = (\<lambda>w. (Inl (GoError []), Suc w)), call_alternative = (\<lambda>w. (Inl (GoError []), Suc w)),
     call_pegnetmarket = (\<lambda>w. (Inl (GoError []), Suc w)),
     call_factoshiio = (\<lambda>w. (Inl (GoError []), Suc w)), call_coingecko = (\<lambda>w. (Inl (GoError []), Suc w))\<rparr>"

definition sample_config :: "string \<Rightarrow> string res" where
  "sample_config key = (if key = ''Oracle.StaleQuoteDuration'' then Inr ''30m'' else Inl (GoError []))"

definition sample_priorities :: "string \<Rightarrow> int res" where
  "sample_priorities key = Inr (if key = ''OracleDataSources.Kitco'' then 1 else 2)"

definition sample_settings :: "string list" where
  "sample_settings = [''OracleDataSources.fixedusd'', ''API.APIPort'', ''OracleDataSources.Kitco'']"

lemma sample_sources_ok:
  "\<not> isl (NewDataSources sample_web sample_config sample_priorities (\<lambda>_. Inr 0) sample_settings)"
  by code_simp

theorem sources_by_priority_witness:
  "\<exists>d. NewDataSources sample_web sample_config sample_priorities (\<lambda>_. Inr 0) (rev sample_settings) = Inr d
    \<and> sorted_wrt (<) (map snd (PriorityList d))
    \<and> (\<forall>asset \<in> set AllAssets. \<not> overridden sample_config asset \<longrightarrow>
         asset_sources (AssetSources d) asset = supporting asset (PriorityList d))"
proof -
  obtain d where "NewDataSources sample_web sample_config sample_priorities (\<lambda>_. Inr 0) sample_settings = Inr d"
    using sample_sources_ok by (auto simp: isl_def) (metis sum.exhaust)
  from sources_by_priority [OF this, of "rev sample_settings"] show ?thesis by auto
qed

section \<open>The quote taken\<close>

text \<open>What is relied on of \<open>sort.Slice\<close>, which sorts by the value of the quotes.\<close>

definition slice_sort :: "(PegItem list \<Rightarrow> PegItem list) \<Rightarrow> bool" where
  "slice_sort srt \<longleftrightarrow> (\<forall>xs. mset (srt xs) = mset xs
     \<and> ((\<forall>x \<in> set xs. ItemValue x \<noteq> NaN) \<longrightarrow> sorted (map ItemValue (srt xs))))"

lemma slice_sort_sort_key: "slice_sort (sort_key ItemValue)"
  by (simp add: slice_sort_def)

definition trimmed_mean :: "f64 list \<Rightarrow> f64" where
  "trimmed_mean vs = fdiv (foldl fadd (Fin 0) (take (length vs - 2) (drop 1 (sort vs))))
     (f64_of_int (int (length vs) - 2))"

definition value_in_band :: "f64 \<Rightarrow> f64 \<Rightarrow> bool" where
  "value_in_band m v \<longleftrightarrow> fle (fmul m (fsub (Fin 1) (toleranceRate m))) v
     \<and> fle v (fmul m (fadd (Fin 1) (toleranceRate m)))"

lemma in_band_value: "in_band m p = value_in_band m (ItemValue p)"
  by (simp add: in_band_def value_in_band_def Let_def)

lemma TrimmedMean_sorted:
  assumes "slice_sort srt" "3 \<le> length prices" "\<forall>p \<in> set prices. ItemValue p \<noteq> NaN"
  shows "TrimmedMean srt prices 1 = Inr (trimmed_mean (map ItemValue prices), srt prices)"
    and "map ItemValue (srt prices) = sort (map ItemValue prices)"
proof -
  have perm: "mset (srt prices) = mset prices" and "sorted (map ItemValue (srt prices))"
    using assms by (auto simp: slice_sort_def)
  then show srt: "map ItemValue (srt prices) = sort (map ItemValue prices)"
    by (intro properties_for_sort [symmetric]) simp_all
  have len: "length (srt prices) = length prices" using perm by (metis size_mset)
  show "TrimmedMean srt prices 1 = Inr (trimmed_mean (map ItemValue prices), srt prices)"
    using assms(2) by (simp add: TrimmedMean_def trimmed_mean_def len take_map drop_map foldl_map Let_def flip: srt)
qed

lemma find_sorted:
  fixes f :: "'a \<Rightarrow> 'b :: linorder"
  assumes "sorted (map f xs)" "List.find P xs = Some x"
  shows "f x = Min (f ` {y \<in> set xs. P y})"
proof (rule Min_eqI [symmetric])
  obtain i where i: "i < length xs" "P (xs ! i)" "x = xs ! i" "\<forall>j < i. \<not> P (xs ! j)"
    using assms(2) by (auto simp: find_Some_iff)
  show "f x \<le> w" if "w \<in> f ` {y \<in> set xs. P y}" for w
  proof -
    from that obtain j where "j < length xs" "P (xs ! j)" "w = f (xs ! j)"
      by (auto simp: in_set_conv_nth)
    with i have "i \<le> j" by (meson not_le)
    with assms(1) \<open>j < length xs\<close> \<open>w = f (xs ! j)\<close> i(3) show ?thesis
      using sorted_nth_mono [of "map f xs" i j] by simp
  qed
  show "f x \<in> f ` {y \<in> set xs. P y}" using i by auto
qed simp

text \<open>
  C22. In version 5, three or more quotes of an asset (none of them NaN) give the smallest one within
  the band around their trimmed mean, and the smallest one of all when none is within it, whatever
  the priority of the sources: the trimmed mean sorts the caller's list, from which the first quote
  within the band is then taken.
\<close>

theorem band_price:
  assumes "slice_sort srt" "3 \<le> length prices" "\<forall>p \<in> set prices. ItemValue p \<noteq> NaN"
  shows "\<exists>p \<in> set prices. best_price srt 5 asset (prices, err) = Inr p \<and> ItemValue p =
     (let vs = ItemValue ` set prices; B = {v \<in> vs. value_in_band (trimmed_mean (map ItemValue prices)) v}
      in if B = {} then Min vs else Min B)"
proof -
  let ?m = "trimmed_mean (map ItemValue prices)" and ?s = "srt prices"
  note mean = TrimmedMean_sorted [OF assms]
  have set: "set ?s = set prices" and len: "length ?s = length prices"
    using assms(1) by (metis slice_sort_def set_mset_mset, metis slice_sort_def size_mset)
  have sorted: "sorted (map ItemValue ?s)" by (simp add: mean(2))
  have nonempty: "prices \<noteq> []" using assms(2) by auto
  have vals: "{v \<in> ItemValue ` set prices. value_in_band ?m v} = ItemValue ` {p \<in> set ?s. in_band ?m p}"
    by (auto simp: in_band_value set)
  show ?thesis
  proof (cases "List.find (in_band ?m) ?s")
    case None
    then have none: "{p \<in> set ?s. in_band ?m p} = {}" by (auto simp: find_None_iff)
    have "?s \<noteq> []" using len assms(2) by auto
    then have "List.find (\<lambda>_. True) ?s = Some (?s ! 0)" by (cases ?s) simp_all
    then have "ItemValue (?s ! 0) = Min (ItemValue ` set prices)"
      using find_sorted [OF sorted, of "\<lambda>_. True"] by (simp add: set)
    moreover have "?s ! 0 \<in> set prices" using set \<open>?s \<noteq> []\<close> by (metis nth_mem length_greater_0_conv)
    moreover have "best_price srt 5 asset (prices, err) = Inr (?s ! 0)"
      using mean(1) None \<open>?s \<noteq> []\<close> nonempty by (simp add: best_price_def)
    ultimately show ?thesis
      by (intro bexI [of _ "?s ! 0"]) (simp_all only: Let_def vals none image_empty if_True simp_thms)
  next
    case (Some p)
    then have p: "p \<in> set ?s" "in_band ?m p" by (auto simp: find_Some_iff)
    then have "{p \<in> set ?s. in_band ?m p} \<noteq> {}" by auto
    moreover have "best_price srt 5 asset (prices, err) = Inr p"
      using mean(1) Some nonempty by (simp add: best_price_def)
    ultimately show ?thesis
      using p(1) find_sorted [OF sorted Some]
      by (intro bexI [of _ p]) (simp_all only: Let_def vals image_is_empty if_False simp_thms set)
  qed
qed

definition sample_quotes :: "PegItem list" where
  "sample_quotes = map (\<lambda>v. unix_item (Fin v) 0) [102, 100, 101]"

lemma sample_band: "value_in_band (Fin 101) (Fin 100)"
proof -
  have "toleranceRate (Fin 101) = Fin (3602879701896397 / 36028797018963968)"
    by (simp add: toleranceRate_def f64_const_def rnd_int [of 1000, simplified] rnd_tenth)
  moreover have "rnd (1 - 3602879701896397 / 36028797018963968) = Fin (8106479329266893 / 9007199254740992)"
    by (simp add: rnd_at [of "- 1"] float_eval)
  moreover have "rnd (1 + 3602879701896397 / 36028797018963968) = Fin (2476979795053773 / 2251799813685248)"
    by (simp add: rnd_at [of 0] float_eval)
  moreover have "fle (rnd (101 * (8106479329266893 / 9007199254740992))) (Fin 100)"
    by (simp add: rnd_at [of 6] float_eval fle_def)
  moreover have "fle (Fin 100) (rnd (101 * (2476979795053773 / 2251799813685248)))"
    by (simp add: rnd_at [of 6] float_eval fle_def)
  ultimately show ?thesis by (simp add: value_in_band_def fsub_def)
qed

lemma sample_mean: "trimmed_mean (map ItemValue sample_quotes) = Fin 101"
  by (simp add: trimmed_mean_def sample_quotes_def unix_item_def rnd_int [of 101, simplified]
      f64_of_int_def rnd_int [of 1, simplified])

text \<open>The source with the highest priority says 102, within the band; 100 is taken.\<close>

theorem band_price_witness:
  "\<exists>p \<in> set sample_quotes. best_price (sort_key ItemValue) 5 ''XBT'' (sample_quotes, None) = Inr p
     \<and> ItemValue p = Fin 100"
proof -
  have q: "3 \<le> length sample_quotes" "\<forall>p \<in> set sample_quotes. ItemValue p \<noteq> NaN"
    by (simp_all add: sample_quotes_def unix_item_def)
  have "(let vs = ItemValue ` set sample_quotes;
           B = {v \<in> vs. value_in_band (trimmed_mean (map ItemValue sample_quotes)) v}
      in if B = {} then Min vs else Min B) = Fin 100"
  proof -
    have "ItemValue ` set sample_quotes = {Fin 102, Fin 100, Fin 101}"
      by (simp add: sample_quotes_def unix_item_def)
    then show ?thesis
      using sample_band by (auto simp: Let_def sample_mean intro!: Min_eqI)
  qed
  then show ?thesis using band_price [OF slice_sort_sort_key q, of "''XBT''" None] by simp
qed

section \<open>One answer per source\<close>

text \<open>What a pull has from a source is what the source's own cache holds.\<close>

definition once_cached :: "'w PullState \<Rightarrow> bool" where
  "once_cached st \<longleftrightarrow> (\<exists>wrap. Once st = Some wrap \<and>
     (\<forall>n c. wrap n = Some c \<longrightarrow> (\<exists>t. Sources (Data st) n = Some t \<and> Cache t = Some c)))"

definition grows :: "'w PullState \<Rightarrow> 'w PullState \<Rightarrow> bool" where
  "grows st st' \<longleftrightarrow> AssetSources (Data st') = AssetSources (Data st)
     \<and> (\<forall>n c. the (Once st) n = Some c \<longrightarrow> the (Once st') n = Some c)"

lemma grows_refl [simp]: "grows st st"
  by (simp add: grows_def)

lemma grows_trans: "grows a b \<Longrightarrow> grows b c \<Longrightarrow> grows a c"
  by (simp add: grows_def)

lemma timed_prices_once:
  assumes "timed_prices web name t st = (r, st')" "Sources (Data st) name = Some t" "once_cached st"
    and "the (Once st) name = None"
  shows "once_cached st' \<and> Once st' = Once st \<and> AssetSources (Data st') = AssetSources (Data st)
    \<and> (\<forall>c. r = Inr (Some c) \<longrightarrow> (\<exists>t. Sources (Data st') name = Some t \<and> Cache t = Some c))"
proof -
  obtain t' w' where t': "Timed_FetchPegPrices (clock web) t (World st) = (r, t', w')"
    "st' = st\<lparr>Data := (Data st)\<lparr>Sources := (Sources (Data st))(name \<mapsto> t')\<rparr>, World := w'\<rparr>"
    using assms(1) by (auto simp: timed_prices_def split: prod.splits)
  have "r = Inr (Some c) \<Longrightarrow> Cache t' = Some c" for c
    using t'(1) by (auto simp: Timed_FetchPegPrices_def split: if_splits prod.splits sum.splits)
  with t'(2) assms show ?thesis by (auto simp: once_cached_def)
qed

lemma source_prices_once:
  assumes "source_prices web name st = (r, st')" "once_cached st"
  shows "once_cached st' \<and> grows st st' \<and> (\<forall>c. r = Inr (Some c) \<longrightarrow> the (Once st') name = Some c)"
proof (cases "Sources (Data st) name")
  case (Some t)
  obtain wrap where wrap: "Once st = Some wrap" using assms(2) by (auto simp: once_cached_def)
  show ?thesis
  proof (cases "wrap name")
    case None
    obtain r1 st1 where t: "timed_prices web name t st = (r1, st1)" by fastforce
    note once = timed_prices_once [OF t Some assms(2)]
    show ?thesis
    proof (cases "\<exists>c. r1 = Inr (Some c)")
      case True
      then obtain c where "r1 = Inr (Some c)" by blast
      with assms(1) Some wrap None t once show ?thesis
        by (auto simp: source_prices_def once_cached_def grows_def)
    next
      case False
      then have "r = r1 \<and> st' = st1"
        using assms(1) Some wrap None t by (cases r1) (auto simp: source_prices_def split: option.splits)
      with False wrap None once show ?thesis by (auto simp: grows_def)
    qed
  next
    case (Some c)
    with assms wrap \<open>Sources (Data st) name = Some t\<close> show ?thesis
      by (auto simp: source_prices_def)
  qed
qed (use assms in \<open>auto simp: source_prices_def\<close>)

text \<open>A quote of an asset that a pull has from one of the sources \<open>ss\<close>.\<close>

definition quoted :: "'w PullState \<Rightarrow> string \<Rightarrow> string list \<Rightarrow> PegItem \<Rightarrow> bool" where
  "quoted st asset ss p \<longleftrightarrow> (\<exists>n \<in> set ss. \<exists>c. the (Once st) n = Some c \<and> c asset = Some p)
     \<and> \<not> feq (ItemValue p) (Fin 0)"

lemma quoted_grows: "grows st st' \<Longrightarrow> quoted st asset ss p \<Longrightarrow> quoted st' asset ss p"
  by (auto simp: grows_def quoted_def)

lemma poll_once:
  assumes "poll web asset ss prices err st = (r, st')" "once_cached st"
  shows "once_cached st' \<and> grows st st' \<and>
     (\<forall>ps e p. r = Inr (ps, e) \<longrightarrow> p \<in> set ps \<longrightarrow> p \<in> set prices \<or> quoted st' asset ss p)"
  using assms
proof (induction ss arbitrary: prices err st)
  case (Cons s ss)
  obtain r1 st1 where s: "source_prices web s st = (r1, st1)" by fastforce
  note once = source_prices_once [OF s Cons.prems(2)]
  have mono: "quoted st' asset ss p \<Longrightarrow> quoted st' asset (s # ss) p" for p
    by (auto simp: quoted_def)
  show ?case
  proof (cases "FetchPegPrice asset r1")
    case (Inl e)
    then have "poll web asset ss prices (Some e) st1 = (r, st') \<or> (\<exists>e. r = Inl e) \<and> st' = st1"
      using Cons.prems(1) by (auto simp: s split: if_splits)
    then show ?thesis
    proof
      assume "poll web asset ss prices (Some e) st1 = (r, st')"
      from Cons.IH [OF this] once mono show ?thesis by (blast intro: grows_trans)
    qed (use once in auto)
  next
    case (Inr price)
    let ?ps = "if feq (ItemValue price) (Fin 0) then prices else prices @ [price]"
    have p: "poll web asset ss ?ps None st1 = (r, st')"
      using Cons.prems(1) by (simp add: s Inr)
    from Inr obtain c where c: "r1 = Inr (Some c)" "c asset = Some price"
      by (auto simp: FetchPegPrice_def lookup_peg_def res_simps split: option.splits)
    note IH = Cons.IH [OF p] 
    have "quoted st1 asset (s # ss) price" if "\<not> feq (ItemValue price) (Fin 0)"
      using once c that by (auto simp: quoted_def)
    then have "quoted st' asset (s # ss) price" if "\<not> feq (ItemValue price) (Fin 0)"
      using that IH once quoted_grows by blast
    then show ?thesis
      using IH once mono by (auto split: if_splits intro: grows_trans)
  qed
qed auto

lemma best_price_from:
  assumes "slice_sort srt" "best_price srt v asset (ps, e) = Inr p"
  shows "p \<in> set ps \<or> asset = ''PEG'' \<and> p = zero_item"
proof -
  have set: "set (srt xs) = set xs" for xs
    using assms(1) by (metis slice_sort_def set_mset_mset)
  then have mean: "TrimmedMean srt xs 1 = Inr (m, ys) \<Longrightarrow> set ys = set xs" for xs m ys
    by (auto simp: TrimmedMean_def Let_def split: if_splits list.splits)
  have last: "(if length ys > 0 then Inr (ys ! 0) else case e of Some e \<Rightarrow> Inl e
      | None \<Rightarrow> if asset = ''PEG'' then Inr zero_item
         else Inl (GoError (asset @ '' does not seem to have any datasources configured''))) = Inr p \<Longrightarrow>
      set ys = set ps \<Longrightarrow> p \<in> set ps \<or> asset = ''PEG'' \<and> p = zero_item" for ys
    by (cases "ys = []") (auto split: option.splits if_splits dest: nth_mem)
  show ?thesis
  proof (cases "v = 5 \<and> length ps > 0")
    case True
    with assms(2) obtain m ys where m: "TrimmedMean srt ps 1 = Inr (m, ys)"
      by (auto simp: best_price_def res_simps)
    show ?thesis
    proof (cases "List.find (in_band m) ys")
      case None
      with assms(2) True m show ?thesis
        by (intro last [of ys] mean [OF m]) (simp add: best_price_def)
    next
      case (Some q)
      with assms(2) True m have "p = q" by (simp add: best_price_def)
      with Some mean [OF m] show ?thesis by (auto simp: find_Some_iff)
    qed
  next
    case False
    then have "best_price srt v asset (ps, e) = (if length ps > 0 then Inr (ps ! 0) else case e of Some e \<Rightarrow> Inl e
      | None \<Rightarrow> if asset = ''PEG'' then Inr zero_item
         else Inl (GoError (asset @ '' does not seem to have any datasources configured'')))"
      by (simp only: best_price_def if_False rbind.simps prod.case option.case)
    with assms(2) show ?thesis by (intro last [of ps]) simp_all
  qed
qed

definition truncated :: "(f64 \<Rightarrow> int) \<Rightarrow> byte \<Rightarrow> PegItem \<Rightarrow> PegItem" where
  "truncated oob v p = p\<lparr>ItemValue := (if v = 1 then TruncateTo4 oob (ItemValue p)
     else TruncateTo8 oob (ItemValue p))\<rparr>"

definition priced :: "(f64 \<Rightarrow> int) \<Rightarrow> byte \<Rightarrow> (string \<rightharpoonup> string list) \<Rightarrow> 'w PullState \<Rightarrow> string \<times> PegItem \<Rightarrow> bool"
  where
  "priced oob v sources st ai \<longleftrightarrow> (\<exists>p. snd ai = truncated oob v p \<and>
     (fst ai = ''PEG'' \<and> p = zero_item \<or> quoted st (fst ai) (asset_sources sources (fst ai)) p))"

lemma priced_grows: "grows st st' \<Longrightarrow> priced oob v sources st ai \<Longrightarrow> priced oob v sources st' ai"
  using quoted_grows by (fastforce simp: priced_def)

lemma pull_assets_once:
  assumes "pull_assets web oob srt v as st = (Inr pa, st')" "once_cached st" "slice_sort srt"
  shows "once_cached st' \<and> grows st st' \<and> map fst pa = as
    \<and> (\<forall>ai \<in> set pa. priced oob v (AssetSources (Data st)) st' ai)"
  using assms(1,2)
proof (induction as arbitrary: st pa)
  case (Cons asset as)
  let ?S = "AssetSources (Data st)"
  obtain r st1 where b: "poll web asset (asset_sources ?S asset) [] None st = (r, st1)" by fastforce
  note once = poll_once [OF b Cons.prems(2)]
  from Cons.prems(1) b obtain price pa' where price: "rbind r (best_price srt v asset) = Inr price"
    and pa': "pull_assets web oob srt v as st1 = (Inr pa', st')" "pa = (asset, truncated oob v price) # pa'"
    by (auto simp: PullBestPrice_def truncated_def Let_def res_simps split: sum.splits if_splits prod.splits)
  note IH = Cons.IH [OF pa'(1)]
  have "quoted st1 asset (asset_sources ?S asset) price \<or> asset = ''PEG'' \<and> price = zero_item"
    using price once best_price_from [OF assms(3)] by (fastforce simp: res_simps)
  then have "priced oob v ?S st1 (asset, truncated oob v price)" by (auto simp: priced_def)
  moreover have "AssetSources (Data st1) = ?S" using once by (simp add: grows_def)
  ultimately show ?case
    using IH once pa'(2) by (auto intro: grows_trans priced_grows)
qed auto

text \<open>
  C21. A pull that succeeds has a price for exactly the assets of its version, in their order. Each
  price is a quote of a source of the asset, not zero, truncated to the precision of the version (only
  PEG may have no quote, and is zero then); and all the quotes that come from one source come from the
  same answer of it, the one its cache holds in the end.
\<close>

theorem pull_snapshot:
  assumes "PullAllPEGAssets web oob srt v st = (Inr pa, st')" "slice_sort srt"
  shows "map fst pa = pull_list v \<and> (\<exists>answer.
    (\<forall>n c. answer n = Some c \<longrightarrow> (\<exists>t. Sources (Data st') n = Some t \<and> Cache t = Some c)) \<and>
    (\<forall>(asset, item) \<in> set pa. \<exists>p. item = truncated oob v p \<and>
       (asset = ''PEG'' \<and> p = zero_item \<or>
        (\<exists>n \<in> set (asset_sources (AssetSources (Data st)) asset). \<exists>c.
           answer n = Some c \<and> c asset = Some p \<and> \<not> feq (ItemValue p) (Fin 0)))))"
proof -
  obtain st1 where st1: "pull_assets web oob srt v (pull_list v) (st\<lparr>Once := Some Map.empty\<rparr>) = (Inr pa, st1)"
    "st' = st1\<lparr>Once := None\<rparr>"
    using assms(1) by (auto simp: PullAllPEGAssets_def split: prod.splits)
  have "once_cached (st\<lparr>Once := Some Map.empty\<rparr>)" by (simp add: once_cached_def)
  note once = pull_assets_once [OF st1(1) this assms(2)]
  show ?thesis
  proof (intro conjI exI [of _ "the (Once st1)"])
    show "\<forall>n c. the (Once st1) n = Some c \<longrightarrow> (\<exists>t. Sources (Data st') n = Some t \<and> Cache t = Some c)"
      using once by (auto simp: once_cached_def st1(2))
    show "\<forall>(asset, item) \<in> set pa. \<exists>p. item = truncated oob v p \<and> (asset = ''PEG'' \<and> p = zero_item \<or>
        (\<exists>n \<in> set (asset_sources (AssetSources (Data st)) asset). \<exists>c. the (Once st1) n = Some c
           \<and> c asset = Some p \<and> \<not> feq (ItemValue p) (Fin 0)))"
    proof clarify
      fix asset item
      assume "(asset, item) \<in> set pa"
      then have "priced oob v (AssetSources (Data st)) st1 (asset, item)" using once by auto
      then show "\<exists>p. item = truncated oob v p \<and> (asset = ''PEG'' \<and> p = zero_item \<or>
        (\<exists>n \<in> set (asset_sources (AssetSources (Data st)) asset). \<exists>c. the (Once st1) n = Some c
           \<and> c asset = Some p \<and> \<not> feq (ItemValue p) (Fin 0)))"
        by (auto simp: priced_def quoted_def)
    qed
  qed (use once in simp)
qed

definition sample_answer :: "string \<rightharpoonup> PegItem" where
  "sample_answer asset = Some (unix_item (Fin 1) 0)"

definition sample_source :: "nat IDataSource" where
  "sample_source = \<lparr>Name = ''All'', Url = [], SupportedPegs = AllAssets,
     FetchPegPrices = (\<lambda>w. (Inr (Some sample_answer), Suc w))\<rparr>"

definition sample_state :: "nat PullState" where
  "sample_state = \<lparr>Data = \<lparr>AssetSources = (\<lambda>_. Some [''All'']),
       Sources = [''All'' \<mapsto> NewTimedDataSourceCache sample_source 480], PriorityList = [], staleDuration = 0\<rparr>,
     Once = None, World = 0\<rparr>"

definition sample_ok :: "nat PullState \<Rightarrow> bool" where
  "sample_ok st \<longleftrightarrow> AssetSources (Data st) = (\<lambda>_. Some [''All'']) \<and>
     (\<exists>t wrap. Sources (Data st) ''All'' = Some t \<and> DataSource t = sample_source
        \<and> Cache t \<in> {None, Some sample_answer} \<and> Once st = Some wrap
        \<and> wrap ''All'' \<in> {None, Some sample_answer})"

lemma sample_source_prices:
  assumes "sample_ok st"
  shows "\<exists>st'. source_prices web ''All'' st = (Inr (Some sample_answer), st') \<and> sample_ok st'"
  using assms
  by (auto simp: sample_ok_def source_prices_def timed_prices_def Timed_FetchPegPrices_def sample_source_def
      split: if_splits)

lemma sample_best_price: "best_price srt v asset ([unix_item (Fin 1) 0], e) = Inr (unix_item (Fin 1) 0)"
  by (simp add: best_price_def TrimmedMean_def)

lemma sample_pull:
  "sample_ok st \<Longrightarrow> \<exists>st'. pull_assets web oob srt v as st
     = (Inr (map (\<lambda>a. (a, truncated oob v (unix_item (Fin 1) 0))) as), st')"
proof (induction as arbitrary: st)
  case (Cons asset as)
  obtain st1 where st1: "source_prices web ''All'' st = (Inr (Some sample_answer), st1)" "sample_ok st1"
    using sample_source_prices [OF Cons.prems] by blast
  have "asset_sources (AssetSources (Data st)) asset = [''All'']"
    using Cons.prems by (simp add: sample_ok_def asset_sources_def)
  then have "PullBestPrice web srt v asset st = (Inr (unix_item (Fin 1) 0), st1)"
    using sample_best_price [of srt v asset None]
    by (simp add: PullBestPrice_def st1(1) FetchPegPrice_def lookup_peg_def sample_answer_def unix_item_def)
  with Cons.IH [OF st1(2)] show ?case by (auto simp: truncated_def unix_item_def)
qed simp

theorem pull_snapshot_witness:
  "\<exists>pa st'. PullAllPEGAssets sample_web (\<lambda>_. 0) (sort_key ItemValue) 2 sample_state = (Inr pa, st')
    \<and> map fst pa = pull_list 2 \<and> (\<exists>answer.
    (\<forall>n c. answer n = Some c \<longrightarrow> (\<exists>t. Sources (Data st') n = Some t \<and> Cache t = Some c)) \<and>
    (\<forall>(asset, item) \<in> set pa. \<exists>p. item = truncated (\<lambda>_. 0) 2 p \<and>
       (asset = ''PEG'' \<and> p = zero_item \<or>
        (\<exists>n \<in> set (asset_sources (AssetSources (Data sample_state)) asset). \<exists>c.
           answer n = Some c \<and> c asset = Some p \<and> \<not> feq (ItemValue p) (Fin 0)))))"
proof -
  have "sample_ok (sample_state\<lparr>Once := Some Map.empty\<rparr>)"
    by (simp add: sample_ok_def sample_state_def NewTimedDataSourceCache_def)
  then obtain pa st1 where "pull_assets sample_web (\<lambda>_. 0) (sort_key ItemValue) 2 (pull_list 2)
      (sample_state\<lparr>Once := Some Map.empty\<rparr>) = (Inr pa, st1)"
    using sample_pull [of _ sample_web "\<lambda>_. 0" "sort_key ItemValue" 2 "pull_list 2"] by blast
  then have "PullAllPEGAssets sample_web (\<lambda>_. 0) (sort_key ItemValue) 2 sample_state
      = (Inr pa, st1\<lparr>Once := None\<rparr>)"
    by (simp add: PullAllPEGAssets_def)
  from pull_snapshot [OF this slice_sort_sort_key] this show ?thesis by blast
qed

text \<open>
  An answer is asked for once in a pull, but a failure is not kept: the source is asked again for the
  next asset.
\<close>

lemma failure_not_cached:
  assumes "Sources (Data st) name = Some t" "Once st = Some wrap" "wrap name = None" "Cache t = None"
    and "FetchPegPrices (DataSource t) (World st) = (Inl e, w')"
  shows "source_prices web name st = (Inl e, st\<lparr>Data := (Data st)\<lparr>Sources := (Sources (Data st))(name \<mapsto> t)\<rparr>,
     World := w'\<rparr>)"
  using assms by (simp add: source_prices_def timed_prices_def Timed_FetchPegPrices_def)

text \<open>The price 0.57, truncated to eight decimals, is 0.56999999.\<close>

lemma truncate_loses_unit:
  "TruncateTo8 oob (f64_const (57 / 100)) = f64_const (56999999 / 100000000)"
proof -
  have "rnd (57 / 100) = Fin (5134103575202365 / 9007199254740992)"
    by (simp add: rnd_at [of "- 1"] float_eval)
  moreover have "rnd (5134103575202365 / 9007199254740992 * 100000000) = Fin (7650410495999999 / 134217728)"
    by (simp add: rnd_at [of 25] float_eval)
  moreover have "\<lfloor>7650410495999999 / 134217728 :: rat\<rfloor> = 56999999" by (simp add: float_eval)
  ultimately show ?thesis
    by (simp add: TruncateTo8_def f64_const_def rnd_int [of 100000000, simplified] trunc_rat_def
        f64_of_int_def rnd_int [of 56999999, simplified])
qed

end
