(* ===== verification/Markets.thy ===== *)
theory Markets
  imports Common
begin

text \<open>
  polling/markets.go: whether the market of an asset is open. A time is its seconds since 1970 with the
  offset of its zone; the day of the week is taken in UTC, the hour in the zone.
\<close>

record Time =
  Unix :: int
  Offset :: int

text \<open>\<open>UTC().Weekday()\<close>, from 0 for Sunday; 1 January 1970 was a Thursday.\<close>

definition Weekday :: "Time \<Rightarrow> int" where
  "Weekday t = (Unix t div 86400 + 4) mod 7"

definition Hour :: "Time \<Rightarrow> int" where
  "Hour t = ((Unix t + Offset t) mod 86400) div 3600"

definition ForexOpen :: "Time \<Rightarrow> bool" where
  "ForexOpen t =
     (if Weekday t = 6 then False
      else if Weekday t = 5 then Hour t < 21
      else if Weekday t = 0 then Hour t \<ge> 21
      else True)"

definition CommodityOpen :: "Time \<Rightarrow> bool" where
  "CommodityOpen t =
     (if Weekday t = 6 then False
      else if Weekday t = 5 then Hour t < 21
      else if Weekday t = 0 then Hour t \<ge> 22
      else True)"

definition IsMarketOpen :: "string \<Rightarrow> Time \<Rightarrow> bool" where
  "IsMarketOpen asset t =
     (if AssetListContains CurrencyAssets asset then ForexOpen t
      else if AssetListContains CommodityAssets asset then CommodityOpen t
      else True)"

section \<open>The hours of the markets\<close>

text \<open>Seconds since the last Sunday, 0:00 UTC.\<close>

definition week_second :: "int \<Rightarrow> int" where
  "week_second u = (u + 4 * 86400) mod (7 * 86400)"

lemma week_second_split:
  "week_second u = 86400 * ((u div 86400 + 4) mod 7) + u mod 86400"
proof -
  have "u + 4 * 86400 = 86400 * (u div 86400 + 4) + u mod 86400"
    using mult_div_mod_eq [of 86400 u] by simp
  then have "week_second u = (86400 * (u div 86400 + 4) + u mod 86400) mod (86400 * 7)"
    by (simp add: week_second_def)
  also have "\<dots> = 86400 * ((86400 * (u div 86400 + 4) + u mod 86400) div 86400 mod 7)
      + (86400 * (u div 86400 + 4) + u mod 86400) mod 86400"
    by (rule zmod_zmult2_eq) simp
  also have "(86400 * (u div 86400 + 4) + u mod 86400) mod 86400 = u mod 86400"
    by (simp only: mod_mult_self4 mod_mod_trivial)
  also have "(86400 * (u div 86400 + 4) + u mod 86400) div 86400 = u div 86400 + 4" by simp
  finally show ?thesis .
qed

lemma open_week:
  fixes d h s :: int
  assumes "0 \<le> d" "d < 7" "0 \<le> s" "s < 86400" "n \<le> 24"
  shows "(if d = 6 then False else if d = 5 then s div 3600 < 21 else if d = 0 then n \<le> s div 3600 else True)
     \<longleftrightarrow> n * 3600 \<le> 86400 * d + s \<and> 86400 * d + s < 5 * 86400 + 21 * 3600"
proof -
  have "3600 * (s div 3600) \<le> s" "s < 3600 * (s div 3600) + 3600" by simp_all
  then have div: "s div 3600 < 21 \<longleftrightarrow> s < 75600" "n \<le> s div 3600 \<longleftrightarrow> n * 3600 \<le> s" by linarith+
  consider "d = 6" | "d = 5" | "d = 0" | "1 \<le> d \<and> d \<le> 4" using assms by linarith
  then show ?thesis using assms by cases (auto simp: div)
qed

text \<open>
  For a time given in UTC, the markets of currencies are open from Sunday 21:00 to Friday 21:00, those
  of commodities from Sunday 22:00, and those of all other assets always.
\<close>

theorem market_hours:
  assumes "Offset t = 0"
  shows "IsMarketOpen asset t \<longleftrightarrow>
     (AssetListContains CurrencyAssets asset \<longrightarrow>
        21 * 3600 \<le> week_second (Unix t) \<and> week_second (Unix t) < 5 * 86400 + 21 * 3600) \<and>
     (AssetListContains CommodityAssets asset \<longrightarrow>
        22 * 3600 \<le> week_second (Unix t) \<and> week_second (Unix t) < 5 * 86400 + 21 * 3600)"
proof -
  have disjoint: "\<not> (AssetListContains CurrencyAssets asset \<and> AssetListContains CommodityAssets asset)"
  proof -
    have "\<forall>a \<in> set CommodityAssets. \<not> AssetListContains CurrencyAssets a" by code_simp
    moreover have "AssetListContains as a \<longleftrightarrow> a \<in> set as" for as a by (induction as) auto
    ultimately show ?thesis by auto
  qed
  let ?d = "Weekday t" and ?s = "Unix t mod 86400"
  have range: "0 \<le> ?d" "?d < 7" "0 \<le> ?s" "?s < 86400" by (simp_all add: Weekday_def)
  have week: "week_second (Unix t) = 86400 * ?d + ?s"
    by (simp add: week_second_split Weekday_def)
  have hour: "Hour t = ?s div 3600" using assms by (simp add: Hour_def)
  show ?thesis
    using disjoint open_week [OF range, of 21] open_week [OF range, of 22]
    by (simp add: IsMarketOpen_def ForexOpen_def CommodityOpen_def week hour cong: if_cong)
qed

text \<open>In another zone the hour is that of the zone: late on Friday in New York the markets are open.\<close>

lemma market_hours_zone:
  "IsMarketOpen ''USD'' \<lparr>Unix = 1601074800, Offset = - 4 * 3600\<rparr>
   \<and> \<not> IsMarketOpen ''USD'' \<lparr>Unix = 1601074800, Offset = 0\<rparr>"
  by code_simp

theorem market_hours_witness:
  "IsMarketOpen ''XAU'' \<lparr>Unix = 1600639200, Offset = 0\<rparr>
   \<and> \<not> IsMarketOpen ''XAU'' \<lparr>Unix = 1600639199, Offset = 0\<rparr>"
proof -
  have "week_second 1600639200 = 22 * 3600" "week_second 1600639199 = 22 * 3600 - 1"
    by (simp_all add: week_second_def)
  moreover have "AssetListContains CommodityAssets ''XAU''" "\<not> AssetListContains CurrencyAssets ''XAU''"
    by code_simp+
  ultimately show ?thesis
    using market_hours [of "\<lparr>Unix = 1600639200, Offset = 0\<rparr>" "''XAU''"]
      market_hours [of "\<lparr>Unix = 1600639199, Offset = 0\<rparr>" "''XAU''"] by simp
qed

end
