(* ===== verification/Config.thy ===== *)
theory Config
  imports Common Go_Strings
begin

text \<open>
  common/config.go and common/common.go: the default settings and the networks of the configuration.
  A configuration is a function from the name of a setting to its value or the error of reading it.
\<close>

type_synonym config = "string \<Rightarrow> string res"

definition ConfigPegnetNetwork :: string where "ConfigPegnetNetwork = ''Miner.Network''"
definition ConfigPegnetStakeNetwork :: string where "ConfigPegnetStakeNetwork = ''Staker.Network''"
definition ConfigSubmissionCutOff :: string where "ConfigSubmissionCutOff = ''Miner.SubmissionCutOff''"
definition ConfigAPIPort :: string where "ConfigAPIPort = ''API.APIPort''"
definition ConfigMinerDBPath :: string where "ConfigMinerDBPath = ''Database.MinerDatabase''"
definition ConfigMinerDBType :: string where "ConfigMinerDBType = ''Database.MinerDatabaseType''"
definition ConfigPegnetNodeDBPath :: string where "ConfigPegnetNodeDBPath = ''Database.NodeDatabase''"
definition ConfigControlPanelPort :: string where "ConfigControlPanelPort = ''API.ControlPanelPort''"
definition ConfigStaleDuration :: string where "ConfigStaleDuration = ''Oracle.StaleQuoteDuration''"

definition DefaultConfigOptions_Load :: "(string \<rightharpoonup> string)" where
  "DefaultConfigOptions_Load =
     [ConfigSubmissionCutOff \<mapsto> ''200'', ConfigAPIPort \<mapsto> ''8099'',
      ConfigMinerDBPath \<mapsto> ''$PEGNETHOME/data_$PEGNETNETWORK/miner.ldb'', ConfigMinerDBType \<mapsto> ''ldb'',
      ConfigPegnetNodeDBPath \<mapsto> ''$PEGNETHOME/data_$PEGNETNETWORK/node.sqlite'',
      ConfigControlPanelPort \<mapsto> ''8080'', ConfigStaleDuration \<mapsto> ''30m'']"

definition LoadConfigNetwork :: "config \<Rightarrow> string res" where
  "LoadConfigNetwork c = rbind (c ConfigPegnetNetwork) GetNetwork"

definition LoadConfigStakerNetwork :: "config \<Rightarrow> string res" where
  "LoadConfigStakerNetwork c = rbind (c ConfigPegnetStakeNetwork) GetNetwork"

text \<open>The network that a caller uses who does not look at the error.\<close>

definition network_or_empty :: "string res \<Rightarrow> string" where
  "network_or_empty r = (case r of Inl _ \<Rightarrow> [] | Inr n \<Rightarrow> n)"

definition OPRChainTag :: string where "OPRChainTag = ''OraclePriceRecords''"
definition SPRChainTag :: string where "SPRChainTag = ''StakingPriceRecords''"

lemma GetNetwork_known: "GetNetwork s = Inr n \<Longrightarrow> n \<in> {MainNetwork, TestNetwork, UnitTestNetwork}"
  by (auto simp: GetNetwork_def Let_def split: if_splits)

end
