(* ===== verification/Poller.thy ===== *)
theory Poller
  imports Polling_Correct Config "HOL-Library.AList"
begin

text \<open>
  The polling of packages opr and spr: both keep one set of data sources, initialised once when prices
  are first needed, and ask it for the prices of a version.

  The world of the web is the rest of the state. \<open>pweb\<close> and the other fields are the arguments of the
  polling, and \<open>porder\<close> is the order of the range over the map of prices.
\<close>

record 'w poll_env =
  pweb :: "'w web"
  pconfig_int :: "string \<Rightarrow> int res"
  pduration :: "string \<Rightarrow> int res"
  psettings :: "string list"
  psort :: "PegItem list \<Rightarrow> PegItem list"
  poob_int :: "f64 \<Rightarrow> int"
  poob_u64 :: "f64 \<Rightarrow> u64"
  porder :: "(string \<times> PegItem) list \<Rightarrow> (string \<times> PegItem) list"

type_synonym 'w poller = "'w DataSources option \<times> 'w"

definition InitDataSource :: "'w poll_env \<Rightarrow> config \<Rightarrow> 'w DataSources option \<Rightarrow> 'w DataSources res" where
  "InitDataSource env c ds = (case ds of
     Some d \<Rightarrow> Inr d
   | None \<Rightarrow> NewDataSources (pweb env) c (pconfig_int env) (pduration env) (psettings env))"

definition poll_prices ::
  "'w poll_env \<Rightarrow> config \<Rightarrow> byte \<Rightarrow> 'w poller \<Rightarrow> (string \<times> PegItem) list res \<times> 'w poller" where
  "poll_prices env c v st =
     (case InitDataSource env c (fst st) of
        Inl e \<Rightarrow> (Inl e, st)
      | Inr d \<Rightarrow>
         (case PullAllPEGAssets (pweb env) (poob_int env) (psort env) v
            \<lparr>Data = d, Once = None, World = snd st\<rparr> of
            (r, st') \<Rightarrow> (rbind r (\<lambda>pa. Inr (porder env pa)), (Some (Data st'), World st'))))"

text \<open>A poll that succeeds has a price for each asset of the version.\<close>

lemma distinct_pull_list: "distinct (pull_list v)"
proof -
  have "distinct AssetsV5 \<and> distinct AssetsV4 \<and> distinct AssetsV2" by code_simp
  then show ?thesis by (simp add: pull_list_def)
qed

lemma poll_prices_Inr:
  assumes "poll_prices env c v st = (Inr peg, st')" "slice_sort (psort env)"
  shows "\<exists>pa. peg = porder env pa \<and> map fst pa = pull_list v"
proof -
  obtain d pa s where "PullAllPEGAssets (pweb env) (poob_int env) (psort env) v
      \<lparr>Data = d, Once = None, World = snd st\<rparr> = (Inr pa, s)" "peg = porder env pa"
    using assms(1) by (auto simp: poll_prices_def res_simps split: sum.splits prod.splits)
  moreover from this(1) have "map fst pa = pull_list v"
    using pull_assets_once [OF _ _ assms(2)]
    by (fastforce simp: PullAllPEGAssets_def once_cached_def split: prod.splits)
  ultimately show ?thesis by blast
qed

text \<open>Filling a map from a list of entries with distinct keys.\<close>

lemma fold_update_append:
  "distinct (map fst (xs @ kvs)) \<Longrightarrow> foldl (\<lambda>xs (k, v). AList.update k v xs) xs kvs = xs @ kvs"
proof (induction kvs arbitrary: xs)
  case (Cons kv kvs)
  have "k \<notin> set (map fst xs) \<Longrightarrow> AList.update k v xs = xs @ [(k, v)]" for k v
    by (induction xs) auto
  with Cons.prems have "AList.update (fst kv) (snd kv) xs = xs @ [kv]" by auto
  with Cons.IH [of "xs @ [kv]"] Cons.prems show ?case by (simp add: split_beta)
qed simp

definition sample_env :: "nat poll_env" where
  "sample_env = \<lparr>pweb = sample_web, pconfig_int = (\<lambda>_. Inr 0), pduration = (\<lambda>_. Inr 0), psettings = [],
     psort = sort_key ItemValue, poob_int = (\<lambda>_. 0), poob_u64 = (\<lambda>_. 0), porder = (\<lambda>xs. xs)\<rparr>"

lemma sample_unit: "truncated oob 5 (unix_item (Fin 1) 0) = unix_item (Fin 1) 0"
  "u64_of_f64 oob' (fround (fmul (ItemValue (unix_item (Fin 1) 0)) (f64_const 100000000))) = 100000000"
  by (simp_all add: truncated_def unix_item_def TruncateTo8_def f64_const_def rnd_int [of 100000000, simplified]
      trunc_rat_def f64_of_int_def rnd_int [of 1, simplified]
      u64_of_f64_int [of 100000000, simplified] rat_floor_numeral)

lemma sample_prices_polled:
  "\<exists>st'. poll_prices sample_env c 5 (Some (Data sample_state), 0)
     = (Inr (map (\<lambda>a. (a, unix_item (Fin 1) 0)) AssetsV5), st')"
proof -
  let ?st = "\<lparr>Data = Data sample_state, Once = Some Map.empty, World = 0\<rparr>"
  have "sample_ok ?st"
    by (simp add: sample_ok_def sample_state_def NewTimedDataSourceCache_def)
  from sample_pull [OF this, of sample_web "\<lambda>_. 0" "sort_key ItemValue" 5 "pull_list 5"] show ?thesis
    by (auto simp: poll_prices_def sample_env_def InitDataSource_def PullAllPEGAssets_def sample_unit
        pull_list_def)
qed

end
