(* ===== verification/SprRecord.thy ===== *)
theory SprRecord
  imports OprRecord Poller
begin

text \<open>
  Package spr, the staking price record of the staker: spr.go and assetList.go. A record is made from
  the configuration and polled prices, validated, encoded, signed and put into a Factom entry. The
  protobuf coder, the JSON coder, the base58 coder of btcutil, and the signing of factom are arguments
  as in OprRecord; a map of prices is again a list of its entries.
\<close>

section \<open>assetList.go\<close>

fun spr_Contains :: "AssetMap \<Rightarrow> string list \<Rightarrow> bool" where
  "spr_Contains m [] = True"
| "spr_Contains m (asset # as) =
     (if map_of (entries m) asset = None then False else spr_Contains m as)"

definition spr_ContainsExactly :: "AssetMap \<Rightarrow> string list \<Rightarrow> bool" where
  "spr_ContainsExactly m as = (if length (entries m) \<noteq> length as then False else spr_Contains m as)"

definition spr_SetValueFromUint64 :: "AssetMap \<Rightarrow> string \<Rightarrow> u64 \<Rightarrow> AssetMap res" where
  "spr_SetValueFromUint64 m asset v = (case m of
     None \<Rightarrow> Inl (Panic ''assignment to entry in nil map'')
   | Some xs \<Rightarrow> Inr (Some (AList.update asset v xs)))"

definition spr_SetValue :: "(f64 \<Rightarrow> u64) \<Rightarrow> AssetMap \<Rightarrow> string \<Rightarrow> f64 \<Rightarrow> AssetMap res" where
  "spr_SetValue oob m asset value = (case m of
     None \<Rightarrow> Inl (Panic ''assignment to entry in nil map'')
   | Some xs \<Rightarrow> Inr (Some (AList.update asset
       (u64_of_f64 oob (fround (fmul value (f64_const 100000000)))) xs)))"

definition spr_Uint64Value :: "AssetMap \<Rightarrow> string \<Rightarrow> u64" where
  "spr_Uint64Value m asset = (case map_of (entries m) asset of None \<Rightarrow> 0 | Some v \<Rightarrow> v)"

definition spr_Value :: "AssetMap \<Rightarrow> string \<Rightarrow> f64" where
  "spr_Value m asset = fdiv (f64_of_u64 (spr_Uint64Value m asset)) (f64_const 100000000)"

text \<open>Every version has the assets of version 5.\<close>

definition spr_List :: "AssetMap \<Rightarrow> byte \<Rightarrow> Token list" where
  "spr_List m version = map (\<lambda>asset. \<lparr>Code = asset, TokenValue = spr_Value m asset\<rparr>) AssetsV5"

definition spr_UnmarshalJSON :: "(f64 \<Rightarrow> u64) \<Rightarrow> AssetMap \<Rightarrow> (string \<times> f64) list res \<Rightarrow> AssetMap res" where
  "spr_UnmarshalJSON oob m decoded =
     rbind decoded (res_fold (\<lambda>m (k, v). spr_SetValue oob m k v) m)"

definition spr_json_assets :: "u64 \<Rightarrow> string list" where
  "spr_json_assets version =
     (if version = 1 then AssetsV1WithPNT
      else if version = 2 \<or> version = 3 then AssetsV2
      else if version = 4 then AssetsV4
      else if version = 5 \<or> version = 6 \<or> version = 7 then AssetsV5
      else [])"

definition spr_MarshalJSON :: "(f64 \<Rightarrow> string res) \<Rightarrow> AssetMap \<Rightarrow> string res" where
  "spr_MarshalJSON json_float m =
     (case map_of (entries m) ''version'' of
        None \<Rightarrow> Inl (GoError ''marshaling json must be called through a safe function'')
      | Some version \<Rightarrow>
         (let o1 = delete_asset m ''version''; as = spr_json_assets version in
          guard_res (version = 0) (GoError ''version unset for json marshalling'')
          (rbind (res_fold (\<lambda>s k. rbind (json_float (spr_Value o1 k)) (\<lambda>vBytes.
              Inr (s @ [CHR 0x22] @ escape_name k @ [CHR 0x22] @ '':'' @ vBytes @ '',''))) ''{'' as)
            (\<lambda>s. Inr ((if length as > 0 then butlast s else s) @ ''}'')))))"

section \<open>spr.go: records\<close>

record StakingPriceRecord =
  sProtocol :: string
  sNetwork :: string
  sSPRHash :: "byte list"
  SPRChainID :: string
  sCoinbasePEGAddress :: string
  sEntryHash :: "byte list"
  sVersion :: byte
  Signature :: "byte list"
  sCoinbaseAddress :: string
  sDbht :: "32 word"
  sAssets :: AssetMap

definition NewStakingPriceRecord :: StakingPriceRecord where
  "NewStakingPriceRecord = \<lparr>sProtocol = [], sNetwork = [], sSPRHash = [], SPRChainID = [],
     sCoinbasePEGAddress = [], sEntryHash = [], sVersion = 0, Signature = [], sCoinbaseAddress = [],
     sDbht = 0, sAssets = Some []\<rparr>"

definition spr_CloneEntryData :: "StakingPriceRecord \<Rightarrow> StakingPriceRecord" where
  "spr_CloneEntryData c = NewStakingPriceRecord
     \<lparr>SPRChainID := SPRChainID c, sDbht := sDbht c, sVersion := sVersion c,
      sCoinbaseAddress := sCoinbaseAddress c, sCoinbasePEGAddress := sCoinbasePEGAddress c,
      sAssets := Some (foldl (\<lambda>xs (k, v). AList.update k v xs) [] (entries (sAssets c)))\<rparr>"

text \<open>
  \<open>Validate\<close> reads the network of the miner from the configuration, not that of the staker, and does not
  look at the error of reading it.
\<close>

definition spr_Validate :: "config \<Rightarrow> int \<Rightarrow> StakingPriceRecord \<Rightarrow> bool" where
  "spr_Validate c dbht r =
     (let net = network_or_empty (LoadConfigNetwork c) in
      if \<not> NetworkActive net dbht then False
      else if list_ex (\<lambda>(k, v). v = 0) (entries (sAssets r)) then False
      else if sint (sDbht r) \<noteq> dbht then False
      else if sVersion r = 5 \<or> sVersion r = 6 \<or> sVersion r = 7
      then spr_ContainsExactly (sAssets r) AssetsV5
      else False)"

definition spr_ValidFCTAddress :: "(string \<Rightarrow> bool) \<Rightarrow> string \<Rightarrow> bool" where
  "spr_ValidFCTAddress isValidAddress addr \<longleftrightarrow>
     length addr > 2 \<and> take 2 addr = ''FA'' \<and> isValidAddress addr"

definition spr_GetTokens :: "StakingPriceRecord \<Rightarrow> Token list" where
  "spr_GetTokens r = spr_List (sAssets r) (sVersion r)"

definition spr_SetPegValues ::
  "(f64 \<Rightarrow> u64) \<Rightarrow> StakingPriceRecord \<Rightarrow> (string \<times> PegItem) list \<Rightarrow> StakingPriceRecord res" where
  "spr_SetPegValues oob r prices =
     res_fold (\<lambda>r (asset, v). rbind (spr_SetValue oob (sAssets r) asset (ItemValue v))
       (\<lambda>as. Inr (r\<lparr>sAssets := as\<rparr>))) r prices"

section \<open>spr.go: encoding\<close>

definition spr_assign_prices :: "AssetMap \<Rightarrow> string list \<Rightarrow> u64 list res" where
  "spr_assign_prices m as =
     res_fold (\<lambda>prices (i, asset).
         guard_res (length prices \<le> i) (Panic ''index out of range'')
         (Inr (prices[i := spr_Uint64Value m asset])))
       (replicate (length (entries m)) 0) (enumerate 0 as)"

definition spr_SafeMarshal :: "(ProtoOPR \<Rightarrow> byte list res) \<Rightarrow> StakingPriceRecord \<Rightarrow> byte list res" where
  "spr_SafeMarshal pmarshal r =
     (if sVersion r < 5 then Inl (GoError ''spr version is not set'')
      else if sAssets r = None then Inl (GoError ''assets is nil, cannot marshal'')
      else if sVersion r = 5 \<or> sVersion r = 6 \<or> sVersion r = 7
      then rbind (spr_assign_prices (sAssets r) AssetsV5) (\<lambda>prices.
             pmarshal \<lparr>PAddress = sCoinbaseAddress r, PID = [], PHeight = sDbht r, PWinners = [],
               PAssets = prices\<rparr>)
      else Inl (GoError ''spr version not supported''))"

definition spr_SafeUnmarshal ::
  "(byte list \<Rightarrow> ProtoOPR res) \<Rightarrow> byte list \<Rightarrow> StakingPriceRecord \<Rightarrow> StakingPriceRecord res" where
  "spr_SafeUnmarshal punmarshal data r =
     (if sVersion r < 5 then Inl (GoError ''opr version is 0'')
      else if sVersion r = 5 \<or> sVersion r = 6 \<or> sVersion r = 7
      then rbind (punmarshal data) (\<lambda>m.
        guard_res (length (PAssets m) \<noteq> length AssetsV5) (GoError ''found assets, expected other number'')
        (Inr (r\<lparr>sAssets := Some (foldl (\<lambda>xs (k, v). AList.update k v xs) [] (zip AssetsV5 (PAssets m))),
                sCoinbaseAddress := PAddress m, sDbht := PHeight m\<rparr>)))
      else Inl (GoError ''spr version not supported''))"

definition spr_GetHash ::
  "(ProtoOPR \<Rightarrow> byte list res) \<Rightarrow> StakingPriceRecord \<Rightarrow> (byte list \<times> StakingPriceRecord) res" where
  "spr_GetHash pmarshal r =
     (if length (sSPRHash r) > 0 then Inr (sSPRHash r, r)
      else rbind (check_panic (spr_SafeMarshal pmarshal r)) (\<lambda>data.
        (let h = sha256 data in Inr (h, r\<lparr>sSPRHash := h\<rparr>))))"

section \<open>spr.go: making a record\<close>

definition GetSPRecord :: "'w poll_env \<Rightarrow> (ProtoOPR \<Rightarrow> byte list res) \<Rightarrow> config \<Rightarrow> StakingPriceRecord
     \<Rightarrow> 'w poller \<Rightarrow> StakingPriceRecord res \<times> 'w poller" where
  "GetSPRecord env pmarshal c r st =
     (case poll_prices env c (sVersion r) st of
        (prices, st') \<Rightarrow>
          (rbind prices (\<lambda>peg.
           rbind (spr_SetPegValues (poob_u64 env) r peg) (\<lambda>r1.
           rbind (check_panic (spr_SafeMarshal pmarshal r1)) (\<lambda>data.
           Inr (r1\<lparr>sSPRHash := sha256 data\<rparr>)))), st'))"

definition NewSpr :: "'w poll_env \<Rightarrow> (byte list \<Rightarrow> string) \<Rightarrow> (ProtoOPR \<Rightarrow> byte list res) \<Rightarrow> config
     \<Rightarrow> 32 word \<Rightarrow> 'w poller \<Rightarrow> StakingPriceRecord res \<times> 'w poller" where
  "NewSpr env enc pmarshal c dbht st =
     (case (c ''Staker.Protocol'', LoadConfigStakerNetwork c) of
        (Inl _, _) \<Rightarrow> (Inl (GoError ''config file has no Staker.Protocol specified''), st)
      | (_, Inl _) \<Rightarrow> (Inl (GoError ''config file has no Staker.Network specified''), st)
      | (Inr protocol, Inr network) \<Rightarrow>
         (case SPRVersion network (sint dbht) of
            Inl e \<Rightarrow> (Inl e, st)
          | Inr v \<Rightarrow>
             (let r = NewStakingPriceRecord\<lparr>sNetwork := network, sProtocol := protocol,
                SPRChainID := enc (ComputeChainIDFromStrings [protocol, network, SPRChainTag]),
                sDbht := dbht, sVersion := v\<rparr>
              in case GetSPRecord env pmarshal c r st of
                   (got, st') \<Rightarrow> (rbind got (\<lambda>r1.
                      if spr_Validate c (sint dbht) r1 then Inr r1
                      else if \<not> NetworkActive (sNetwork r1) (sint dbht)
                      then Inl (GoError ''Waiting for activation height'')
                      else Inl (GoError ''spr invalid'')), st'))))"

section \<open>spr.go: the Factom entry\<close>

text \<open>
  \<open>sign\<close> asks the wallet for the public key of an address and a signature of the data. When it fails,
  the code returns the error of the step before, which is nil: the entry is nil and there is no error.
\<close>

definition CreateSPREntry ::
  "(string \<Rightarrow> byte list) \<Rightarrow> (ProtoOPR \<Rightarrow> byte list res)
     \<Rightarrow> (string \<Rightarrow> byte list \<Rightarrow> (byte list \<times> byte list) res) \<Rightarrow> StakingPriceRecord
     \<Rightarrow> FactomEntry option res" where
  "CreateSPREntry dec pmarshal sign r =
     rbind (ConvertFCTtoRaw dec (sCoinbaseAddress r)) (\<lambda>rcd.
     rbind (spr_SafeMarshal pmarshal r) (\<lambda>content.
     (case sign (sCoinbaseAddress r) content of
        Inl _ \<Rightarrow> Inr None
      | Inr (pubKey, sig) \<Rightarrow>
          Inr (Some \<lparr>ChainID = hexEncode (dec (SPRChainID r)),
                     ExtIDs = [[sVersion r], rcd, pubKey @ sig], Content = content\<rparr>))))"

end
