(* ===== verification/Staking.thy ===== *)
theory Staking
  imports SprRecord
begin

text \<open>
  Package staking: the staker (staker.go), the writer of its entries (entryWriter.go), and the
  coordinator that makes a record at minute 1 of a block and has it written at minute 8
  (coordinator.go).

  The events of the monitor are arguments, the commands sent to the staker and the entries handed to
  factomd are recorded. Entry writers are objects that point to each other; they are kept in a list and
  named by their position. \<open>CollectAndWrite\<close> runs in a goroutine of its own, which nobody waits for
  and nobody interferes with: it is one step here.
\<close>

section \<open>staker.go\<close>

datatype StakerCommand =
    BatchCommand "StakerCommand list"
  | NewSPRHash "byte list"
  | RecordAggregator nat
  | PauseStaking
  | ResumeStaking

record PegnetStaker =
  ID :: int
  sprhash :: "byte list"
  paused :: bool

fun HandleCommand :: "StakerCommand \<Rightarrow> PegnetStaker \<Rightarrow> PegnetStaker"
and HandleCommands :: "StakerCommand list \<Rightarrow> PegnetStaker \<Rightarrow> PegnetStaker" where
  "HandleCommand (BatchCommand cs) p = HandleCommands cs p"
| "HandleCommand (NewSPRHash h) p = p\<lparr>sprhash := h\<rparr>"
| "HandleCommand (RecordAggregator w) p = p"
| "HandleCommand PauseStaking p = p\<lparr>paused := True\<rparr>"
| "HandleCommand ResumeStaking p = p\<lparr>paused := False\<rparr>"
| "HandleCommands [] p = p"
| "HandleCommands (c # cs) p = HandleCommands cs (HandleCommand c p)"

text \<open>
  What the \<open>select\<close> statements of the goroutine find, one after the other. \<open>Stake\<close> waits for the first
  command; then it loops, and waits for a resumption when it is paused.
\<close>

datatype StakeEvent = Command StakerCommand | Cancelled | Idle

type_synonym stake_run = "StakeEvent list \<Rightarrow> PegnetStaker \<Rightarrow> PegnetStaker"

fun Stake :: stake_run and stake_loop :: stake_run and waitForResume :: stake_run where
  "Stake [] p = p"
| "Stake (e # es) p = (case e of
     Cancelled \<Rightarrow> p
   | Command c \<Rightarrow> stake_loop es (HandleCommand c p)
   | Idle \<Rightarrow> Stake es p)"
| "stake_loop [] p = p"
| "stake_loop (e # es) p = (case e of
     Cancelled \<Rightarrow> p
   | Command c \<Rightarrow> (let p' = HandleCommand c p in if paused p' then waitForResume es p' else stake_loop es p')
   | Idle \<Rightarrow> if paused p then waitForResume es p else stake_loop es p)"
| "waitForResume [] p = p"
| "waitForResume (e # es) p = (case e of
     Cancelled \<Rightarrow> p
   | Command c \<Rightarrow> (let p' = HandleCommand c p in if \<not> paused p' then stake_loop es p' else waitForResume es p')
   | Idle \<Rightarrow> waitForResume es p)"

text \<open>\<open>ec_balance\<close> asks factomd for the balance of an entry credit address. Every failure panics.\<close>

definition CheckStakingAddresses ::
  "(string \<Rightarrow> byte list) \<Rightarrow> (string \<Rightarrow> int res) \<Rightarrow> config \<Rightarrow> unit res" where
  "CheckStakingAddresses dec ec_balance c =
     rbind (check_panic (c ''Staker.CoinbaseAddress'')) (\<lambda>fctList.
     (let fctSlice = Split (CHR '','') fctList in
      guard_res (list_ex (\<lambda>i. list_ex (\<lambda>j. i \<noteq> j \<and> fctSlice ! i = fctSlice ! j) [0..<length fctSlice])
        [0..<length fctSlice]) (Panic ''CoinbaseAddress is duplicated'')
      (rbind (res_fold (\<lambda>_ a. rbind (check_panic (ConvertFCTtoRaw dec a)) (\<lambda>_. Inr ())) () fctSlice) (\<lambda>_.
       rbind (check_panic (c ''Staker.ECAddress'')) (\<lambda>ecAddress.
       rbind (check_panic (ec_balance ecAddress)) (\<lambda>bal.
       guard_res (bal = 0) (Panic ''EC Balance is zero'') (Inr ())))))))"

definition NewPegnetStakerFromConfig ::
  "(string \<Rightarrow> byte list) \<Rightarrow> (string \<Rightarrow> int res) \<Rightarrow> config \<Rightarrow> int \<Rightarrow> PegnetStaker res" where
  "NewPegnetStakerFromConfig dec ec_balance c i =
     rbind (CheckStakingAddresses dec ec_balance c) (\<lambda>_. Inr \<lparr>ID = i, sprhash = [], paused = False\<rparr>)"

section \<open>entryWriter.go\<close>

record EntryWriter =
  sprTemplate :: "StakingPriceRecord option"
  ec :: string
  Next :: "nat option"
  collected :: bool

definition NewEntryWriter :: EntryWriter where
  "NewEntryWriter = \<lparr>sprTemplate = None, ec = [], Next = None, collected = False\<rparr>"

definition PopulateECAddress :: "config \<Rightarrow> (string \<Rightarrow> string res) \<Rightarrow> EntryWriter \<Rightarrow> EntryWriter res" where
  "PopulateECAddress c fetch_ec w =
     rbind (c ''Staker.ECAddress'') (\<lambda>s. rbind (fetch_ec s) (\<lambda>a. Inr (w\<lparr>ec := a\<rparr>)))"

definition NextBlockWriter :: "nat \<Rightarrow> EntryWriter list \<Rightarrow> nat \<times> EntryWriter list" where
  "NextBlockWriter i ws =
     (case Next (ws ! i) of
        Some n \<Rightarrow> (n, ws)
      | None \<Rightarrow> (length ws, ws[i := (ws ! i)\<lparr>Next := Some (length ws)\<rparr>]
                             @ [NewEntryWriter\<lparr>ec := ec (ws ! i)\<rparr>]))"

definition SetSPR :: "nat \<Rightarrow> StakingPriceRecord \<Rightarrow> EntryWriter list \<Rightarrow> EntryWriter list" where
  "SetSPR i r ws =
     (if sprTemplate (ws ! i) = None then ws[i := (ws ! i)\<lparr>sprTemplate := Some (spr_CloneEntryData r)\<rparr>] else ws)"

text \<open>
  The outside of the writer. \<open>submit_ok\<close> is whether the n-th attempt to commit and reveal an entry
  succeeds; \<open>tries\<close> is how many attempts the backoff allows for an address, one at least. The attempts are
  recorded with their success.
\<close>

record writer_env =
  wconfig :: config
  wenc :: "byte list \<Rightarrow> string"
  wdec :: "string \<Rightarrow> byte list"
  wmarshal :: "ProtoOPR \<Rightarrow> byte list res"
  wsign :: "string \<Rightarrow> byte list \<Rightarrow> (byte list \<times> byte list) res"
  submit_ok :: "nat \<Rightarrow> bool"
  tries :: "string \<Rightarrow> nat"

type_synonym attempts = "(FactomEntry option \<times> bool) list"

text \<open>One attempt: the record with the address, whether it succeeded (or its error), the attempts.\<close>

definition write_operation :: "writer_env \<Rightarrow> string \<Rightarrow> StakingPriceRecord \<Rightarrow> attempts
     \<Rightarrow> StakingPriceRecord \<times> attempts \<times> unit res" where
  "write_operation env addr r sent =
     (let network = network_or_empty (LoadConfigNetwork (wconfig env)) in
      case ConvertFCTtoPegNetAsset (wenc env) (wdec env) network ''PEG'' addr of
        Inl (Panic m) \<Rightarrow> (r, sent, Inl (Panic m))
      | peg \<Rightarrow>
         (let r1 = r\<lparr>sCoinbasePEGAddress := (case peg of Inl _ \<Rightarrow> [] | Inr a \<Rightarrow> a), sCoinbaseAddress := addr\<rparr>
          in case CreateSPREntry (wdec env) (wmarshal env) (wsign env) r1 of
               Inl e \<Rightarrow> (r1, sent, Inl e)
             | Inr entry \<Rightarrow>
                (let ok = submit_ok env (length sent) in
                 (r1, sent @ [(entry, ok)],
                  if ok then Inr () else Inl (GoError ''failed to write SPR Entry'')))))"

text \<open>\<open>backoff.Retry\<close>: an error is tried again, a panic ends the process.\<close>

fun retry_write :: "nat \<Rightarrow> writer_env \<Rightarrow> string \<Rightarrow> StakingPriceRecord \<Rightarrow> attempts
     \<Rightarrow> StakingPriceRecord \<times> attempts \<times> unit res" where
  "retry_write 0 env addr r sent = write_operation env addr r sent"
| "retry_write (Suc n) env addr r sent =
     (case write_operation env addr r sent of
        (r1, sent1, Inr _) \<Rightarrow> (r1, sent1, Inr ())
      | (r1, sent1, Inl e) \<Rightarrow>
          (if is_panic (Inl e :: unit res) then (r1, sent1, Inl e) else retry_write n env addr r1 sent1))"

fun write_addresses :: "writer_env \<Rightarrow> string list \<Rightarrow> StakingPriceRecord \<Rightarrow> attempts
     \<Rightarrow> StakingPriceRecord \<times> attempts \<times> unit res" where
  "write_addresses env [] r sent = (r, sent, Inr ())"
| "write_addresses env (addr # as) r sent =
     (case retry_write (tries env addr - 1) env addr r sent of
        (r1, sent1, Inl e) \<Rightarrow> (r1, sent1, Inl e)
      | (r1, sent1, Inr _) \<Rightarrow> write_addresses env as r1 sent1)"

definition writeStakingRecord :: "writer_env \<Rightarrow> EntryWriter \<Rightarrow> attempts \<Rightarrow> EntryWriter \<times> attempts \<times> unit res"
  where
  "writeStakingRecord env w sent =
     (case sprTemplate w of
        None \<Rightarrow> (w, sent, Inl (GoError ''no spr template''))
      | Some r \<Rightarrow>
         (case wconfig env ''Staker.CoinbaseAddress'' of
            Inl _ \<Rightarrow> (w, sent, Inl (GoError ''No fctAddress found''))
          | Inr fctAddresses \<Rightarrow>
             (case write_addresses env (Split (CHR '','') fctAddresses) r sent of
                (r1, sent1, e) \<Rightarrow> (w\<lparr>sprTemplate := Some r1\<rparr>, sent1, e))))"

text \<open>An error is only logged; the guard is \<open>sync.Once\<close>.\<close>

definition CollectAndWrite :: "writer_env \<Rightarrow> nat \<Rightarrow> EntryWriter list \<Rightarrow> attempts
     \<Rightarrow> (EntryWriter list \<times> attempts) res" where
  "CollectAndWrite env i ws sent =
     (if collected (ws ! i) then Inr (ws, sent)
      else (case writeStakingRecord env (ws ! i) sent of
              (w, sent1, e) \<Rightarrow>
                (case e of
                   Inl (Panic m) \<Rightarrow> Inl (Panic m)
                 | _ \<Rightarrow> Inr (ws[i := w\<lparr>collected := True\<rparr>], sent1))))"

section \<open>coordinator.go\<close>

record 'w StakingCoordinator =
  FactomEntryWriter :: nat
  writers :: "EntryWriter list"
  staking :: bool
  commands :: "StakerCommand list"
  attempted :: attempts
  outside :: 'w

definition NewStakingCoordinatorFromConfig ::
  "config \<Rightarrow> (string \<Rightarrow> string res) \<Rightarrow> 'w \<Rightarrow> 'w StakingCoordinator res" where
  "NewStakingCoordinatorFromConfig c fetch_ec w =
     rbind (check_panic (PopulateECAddress c fetch_ec NewEntryWriter)) (\<lambda>writer.
       Inr \<lparr>FactomEntryWriter = 0, writers = [writer], staking = False, commands = [], attempted = [],
            outside = w\<rparr>)"

definition start_command :: "nat \<Rightarrow> byte list \<Rightarrow> StakerCommand" where
  "start_command w sprHash = BatchCommand [RecordAggregator w, NewSPRHash sprHash, ResumeStaking]"

definition stop_command :: StakerCommand where
  "stop_command = BatchCommand [PauseStaking]"

text \<open>
  One event of the monitor: the height and the minute. \<open>balance\<close> asks for the entry credits,
  \<open>new_spr\<close> is the maker of records.
\<close>

definition minute_one :: "(string \<Rightarrow> 'w \<Rightarrow> int res) \<Rightarrow> (32 word \<Rightarrow> 'w \<Rightarrow> StakingPriceRecord res \<times> 'w)
     \<Rightarrow> writer_env \<Rightarrow> 32 word \<Rightarrow> 'w StakingCoordinator \<Rightarrow> 'w StakingCoordinator res" where
  "minute_one balance new_spr env dbht c =
     (case balance (ec (writers c ! FactomEntryWriter c)) (outside c) of
        Inl _ \<Rightarrow> Inr c
      | Inr bal \<Rightarrow>
         (if bal = 0 \<or> staking c then Inr c
          else case new_spr dbht (outside c) of
              (Inl e, w) \<Rightarrow> (if is_panic (Inl e :: unit res) then Inl e else Inr (c\<lparr>outside := w\<rparr>))
            | (Inr r, w) \<Rightarrow>
               rbind (spr_GetHash (wmarshal env) r) (\<lambda>(sprHash, r1).
               (case NextBlockWriter (FactomEntryWriter c) (writers c) of
                  (n, ws) \<Rightarrow> Inr (c\<lparr>FactomEntryWriter := n, writers := SetSPR n r1 ws, staking := True,
                    commands := commands c @ [start_command n sprHash], outside := w\<rparr>)))))"

definition minute_eight :: "writer_env \<Rightarrow> 'w StakingCoordinator \<Rightarrow> 'w StakingCoordinator res" where
  "minute_eight env c =
     (if staking c
      then rbind (CollectAndWrite env (FactomEntryWriter c) (writers c) (attempted c)) (\<lambda>(ws, sent).
        Inr (c\<lparr>writers := ws, staking := False, commands := commands c @ [stop_command], attempted := sent\<rparr>))
      else Inr c)"

definition coordinator_step :: "(string \<Rightarrow> 'w \<Rightarrow> int res)
     \<Rightarrow> (32 word \<Rightarrow> 'w \<Rightarrow> StakingPriceRecord res \<times> 'w) \<Rightarrow> writer_env
     \<Rightarrow> 'w StakingCoordinator \<Rightarrow> 32 word \<times> int \<Rightarrow> 'w StakingCoordinator res" where
  "coordinator_step balance new_spr env c fds =
     (if snd fds = 1 then minute_one balance new_spr env (fst fds) c
      else if snd fds = 8 then minute_eight env c
      else Inr c)"

definition LaunchStaker :: "(string \<Rightarrow> 'w \<Rightarrow> int res)
     \<Rightarrow> (32 word \<Rightarrow> 'w \<Rightarrow> StakingPriceRecord res \<times> 'w) \<Rightarrow> writer_env
     \<Rightarrow> (32 word \<times> int) list \<Rightarrow> 'w StakingCoordinator \<Rightarrow> 'w StakingCoordinator res" where
  "LaunchStaker balance new_spr env events c = res_fold (coordinator_step balance new_spr env) c events"

end
