(* ===== verification/SprRecord_Correct.thy ===== *)
theory SprRecord_Correct
  imports SprRecord Polling_Correct StakeGrader_Correct
begin

text \<open>
  What the staker writes is what the staking graders read: an entry made from a new record is accepted,
  with the prices that were polled.
\<close>

section \<open>The functions shared with package opr\<close>

lemma spr_assets_eq:
  "spr_ContainsExactly = ContainsExactly" "spr_Uint64Value = Uint64Value" "spr_SetValue = SetValue"
  "spr_assign_prices = assign_prices" "spr_ValidFCTAddress = ValidFCTAddress"
proof -
  have "spr_Contains m as = Contains m as" for m as by (induction as) auto
  then show "spr_ContainsExactly = ContainsExactly"
    by (simp add: fun_eq_iff spr_ContainsExactly_def ContainsExactly_def)
  show v: "spr_Uint64Value = Uint64Value"
    by (simp add: fun_eq_iff spr_Uint64Value_def Uint64Value_def)
  then show "spr_assign_prices = assign_prices"
    by (simp add: fun_eq_iff spr_assign_prices_def assign_prices_def)
  show "spr_SetValue = SetValue" "spr_ValidFCTAddress = ValidFCTAddress"
    by (simp_all add: fun_eq_iff spr_SetValue_def SetValue_def SetValueFromUint64_def
        spr_ValidFCTAddress_def ValidFCTAddress_def split: option.split)
qed

section \<open>A new record\<close>

definition spr_price :: "(f64 \<Rightarrow> u64) \<Rightarrow> string \<times> PegItem \<Rightarrow> string \<times> u64" where
  "spr_price oob av = (fst av, u64_of_f64 oob (fround (fmul (ItemValue (snd av)) (f64_const 100000000))))"

lemma spr_SetPegValues_Some:
  "sAssets r = Some xs \<Longrightarrow> spr_SetPegValues oob r prices = Inr (r\<lparr>sAssets := Some (foldl
      (\<lambda>xs (k, v). AList.update k v xs) xs (map (spr_price oob) prices))\<rparr>)"
  unfolding spr_SetPegValues_def
proof (induction prices arbitrary: r xs)
  case (Cons av prices)
  let ?r = "r\<lparr>sAssets := Some (AList.update (fst av) (snd (spr_price oob av)) xs)\<rparr>"
  have "sAssets ?r = Some (AList.update (fst av) (snd (spr_price oob av)) xs)" by simp
  from Cons.IH [OF this] Cons.prems show ?case
    by (simp add: spr_SetValue_def split_beta spr_price_def [of _ av])
qed simp

text \<open>The record that is made has the prices polled, in the order of the range over them.\<close>

definition fresh_spr :: "'w poll_env \<Rightarrow> config \<Rightarrow> 32 word \<Rightarrow> (string \<times> PegItem) list \<Rightarrow> StakingPriceRecord
     \<Rightarrow> bool" where
  "fresh_spr env c dbht prices r \<longleftrightarrow> sDbht r = dbht \<and> spr_Validate c (sint dbht) r
     \<and> sAssets r = Some (map (spr_price (poob_u64 env)) (porder env prices))
     \<and> distinct (map fst (entries (sAssets r)))
     \<and> (\<exists>v net. SPRVersion net (sint dbht) = Inr v \<and> LoadConfigStakerNetwork c = Inr net \<and> sVersion r = v)"

lemma NewSpr_fresh:
  assumes "NewSpr env enc pmarshal c dbht st = (Inr r, st')"
    and "slice_sort (psort env)" "\<And>xs. mset (porder env xs) = mset xs"
  shows "\<exists>prices. map fst prices = pull_list (sVersion r) \<and> fresh_spr env c dbht prices r"
proof -
  obtain protocol net v where n: "c ''Staker.Protocol'' = Inr protocol" "LoadConfigStakerNetwork c = Inr net"
    "SPRVersion net (sint dbht) = Inr v"
    using assms(1) by (auto simp: NewSpr_def split: sum.splits prod.splits)
  let ?r = "NewStakingPriceRecord\<lparr>sNetwork := net, sProtocol := protocol,
      SPRChainID := enc (ComputeChainIDFromStrings [protocol, net, SPRChainTag]), sDbht := dbht, sVersion := v\<rparr>"
  have g: "fst (GetSPRecord env pmarshal c ?r st) = Inr r" "spr_Validate c (sint dbht) r"
    using assms(1) n by (auto simp: NewSpr_def Let_def res_simps split: prod.splits if_splits)
  obtain peg st1 where peg: "poll_prices env c v st = (Inr peg, st1)"
    using g(1) by (cases "poll_prices env c v st") (auto simp: GetSPRecord_def res_simps)
  obtain pa where pa: "peg = porder env pa" "map fst pa = pull_list v"
    using poll_prices_Inr [OF peg assms(2)] by blast
  have "mset (map fst peg) = mset (map fst pa)"
    using assms(3) pa(1) by simp
  then have "distinct (map fst peg)"
    using pa(2) distinct_pull_list by (metis mset_eq_imp_distinct_iff)
  then have d: "distinct (map fst (map (spr_price (poob_u64 env)) peg))"
    by (simp add: spr_price_def comp_def)
  have "sAssets ?r = Some []" by (simp add: NewStakingPriceRecord_def)
  from spr_SetPegValues_Some [OF this, of "poob_u64 env" peg] g(1) peg
  obtain data where
    "r = ?r\<lparr>sAssets := Some (map (spr_price (poob_u64 env)) peg), sSPRHash := sha256 data\<rparr>"
    using fold_update_append [of "[]" "map (spr_price (poob_u64 env)) peg"] d
    by (simp add: GetSPRecord_def res_simps) metis
  then have "sAssets r = Some (map (spr_price (poob_u64 env)) peg)" "sDbht r = dbht" "sVersion r = v"
    by simp_all
  then show ?thesis
    using g(2) n d pa by (intro exI [of _ pa]) (auto simp: fresh_spr_def entries_def)
qed

lemma NewSpr_hash:
  assumes "NewSpr env enc pmarshal c dbht st = (Inr r, st')"
  shows "length (sSPRHash r) = 32"
  using assms
  by (auto simp: NewSpr_def GetSPRecord_def Let_def res_simps len_simps split: sum.splits prod.splits if_splits)

section \<open>The entry\<close>

text \<open>What the entry writer of package staking encodes: the record's copy for one of its addresses.\<close>

definition for_address :: "StakingPriceRecord \<Rightarrow> string \<Rightarrow> string \<Rightarrow> StakingPriceRecord" where
  "for_address r peg addr =
     (spr_CloneEntryData r)\<lparr>sCoinbasePEGAddress := peg, sCoinbaseAddress := addr\<rparr>"

lemma for_address_sel [simp]:
  "sVersion (for_address r peg addr) = sVersion r" "sDbht (for_address r peg addr) = sDbht r"
  "sCoinbaseAddress (for_address r peg addr) = addr" "SPRChainID (for_address r peg addr) = SPRChainID r"
  by (simp_all add: for_address_def spr_CloneEntryData_def)

lemma for_address_assets:
  "sAssets r = Some xs \<Longrightarrow> distinct (map fst xs) \<Longrightarrow> sAssets (for_address r peg addr) = Some xs"
  using fold_update_append [of "[]" xs] by (simp add: for_address_def spr_CloneEntryData_def entries_def)

definition spr_message :: "StakingPriceRecord \<Rightarrow> string \<Rightarrow> ProtoOPR" where
  "spr_message r addr = \<lparr>PAddress = addr, PID = [], PHeight = sDbht r, PWinners = [],
     PAssets = map (spr_Uint64Value (sAssets r)) AssetsV5\<rparr>"

lemma spr_SafeMarshal_valid:
  assumes "spr_Validate c h r" "sAssets r = Some xs" "distinct (map fst xs)"
  shows "spr_SafeMarshal pmarshal (for_address r peg addr) = pmarshal (spr_message r addr)"
proof -
  have v: "sVersion r = 5 \<or> sVersion r = 6 \<or> sVersion r = 7" "ContainsExactly (Some xs) AssetsV5"
    using assms(1,2) by (auto simp: spr_Validate_def Let_def spr_assets_eq split: if_splits)
  then have "\<not> sVersion r < 5" by auto
  with v for_address_assets [OF assms(2,3)] show ?thesis
    by (auto simp: spr_SafeMarshal_def spr_assets_eq assign_prices_exact spr_message_def assms(2))
qed

lemma spr_prices_nonzero:
  assumes "spr_Validate c h r" "code \<in> set AssetsV5"
  shows "spr_Uint64Value (sAssets r) code \<noteq> 0"
proof -
  have ok: "ContainsExactly (sAssets r) AssetsV5" "\<forall>kv \<in> set (entries (sAssets r)). snd kv \<noteq> 0"
    using assms(1) by (auto simp: spr_Validate_def Let_def spr_assets_eq list_ex_iff split: if_splits)
  then obtain x where "map_of (entries (sAssets r)) code = Some x"
    using assms(2) by (auto simp: ContainsExactly_def Contains_iff split: if_splits)
  with ok(2) show ?thesis
    using map_of_SomeD by (fastforce simp: spr_assets_eq Uint64Value_def)
qed

lemma length_AssetsV5: "length AssetsV5 = 62"
  by code_simp

text \<open>
  Let a record be new (polled, validated), and an entry be created from its copy for a payout
  address of the configuration; let the protobuf encoder produce what the module decodes, and the wallet
  make signatures that verify. Then the grader of the record's version and height accepts the entry,
  under the address, with the price of every asset that the record has.
\<close>

lemma staked_entry_accepted:
  assumes "NewSpr env enc pmarshal c dbht st = (Inr r, st')"
    and "slice_sort (psort env)" "\<And>xs. mset (porder env xs) = mset xs"
    and "CreateSPREntry dec pmarshal sign (for_address r peg addr) = Inr (Some e)"
    and "\<And>m bs. pmarshal m = Inr bs \<Longrightarrow> Unmarshal zero_V2Content bs = Inr (V2_of_proto m)"
    and "\<And>a data pub sig. sign a data = Inr (pub, sig) \<Longrightarrow>
           length pub = 32 \<and> length sig = 64 \<and> verify data pub sig"
    and "\<And>a raw. ConvertFCTtoRaw dec a = Inr raw \<Longrightarrow> Valid a = Inr ()"
    and "NewStakeGrader (sVersion r) dbht = Inr g" "length eh = 32"
  shows "\<exists>x. AddSPR verify g eh (ExtIDs e) (Content e) = Inr (add_spr g x)
     \<and> spr_CoinbaseAddress x = addr \<and> spr_EntryHash x = eh
     \<and> V2Content.Assets (SPR x) = map (spr_Uint64Value (sAssets r)) AssetsV5"
proof -
  obtain prices where fresh: "fresh_spr env c dbht prices r"
    using NewSpr_fresh [OF assms(1-3)] by blast
  then obtain xs where xs: "sAssets r = Some xs" "distinct (map fst xs)" "spr_Validate c (sint dbht) r"
    "sDbht r = dbht" by (auto simp: fresh_spr_def entries_def)
  let ?m = "V2_of_proto (spr_message r addr)"
  from assms(4) obtain rcd content where "ConvertFCTtoRaw dec addr = Inr rcd"
    "pmarshal (spr_message r addr) = Inr content"
    "(case sign addr content of Inl _ \<Rightarrow> Inr None | Inr (pubKey, sig) \<Rightarrow> Inr (Some
       \<lparr>ChainID = hexEncode (dec (SPRChainID (for_address r peg addr))),
        ExtIDs = [[sVersion (for_address r peg addr)], rcd, pubKey @ sig], Content = content\<rparr>)) = (Inr (Some e) :: FactomEntry option res)"
    by (auto simp: CreateSPREntry_def spr_SafeMarshal_valid [OF xs(3,1,2)] res_simps)
  then obtain pub sig where e: "ConvertFCTtoRaw dec addr = Inr rcd"
    "pmarshal (spr_message r addr) = Inr (Content e)" "sign addr (Content e) = Inr (pub, sig)"
    "ExtIDs e = [[sVersion r], rcd, pub @ sig]"
    by (cases "sign addr content") auto
  have "Content e \<noteq> []"
  proof
    assume "Content e = []"
    then have "?m = zero_V2Content" using assms(5) [OF e(2)]
      by (simp add: Unmarshal_def unmarshal_loop.simps)
    then have "AssetsV5 = []" by (simp add: V2_of_proto_def spr_message_def zero_V2Content_def)
    then show False using length_AssetsV5 by simp
  qed
  then have parse: "ParseS1Content (Content e) = Inr ?m"
    using assms(5) [OF e(2)] by (simp add: ParseS1Content_def)
  have content: "stake_content_ok dbht ?m"
    using xs(4) assms(7) [OF e(1)] spr_prices_nonzero [OF xs(3)] length_AssetsV5
    by (auto simp: stake_content_ok_def V2_of_proto_def spr_message_def)
  have signed: "signed_by verify (Content e) (ExtIDs e ! 2)"
    using assms(6) [OF e(3)] e(4) by (simp add: signed_by_def)
  have "stake_entry_ok (entry_version g) eh (ExtIDs e)" "StakeHeight g = dbht"
    using assms(8,9) e(4)
    by (auto simp: NewStakeGrader_def stake_entry_ok_def new_stake_base_def StakeHeight_def res_simps
        split: if_splits)
  then have "AddSPR verify g eh (ExtIDs e) (Content e) = Inr (add_spr g (newGradingSPR eh (Content e) ?m))"
    using parse content signed by (subst AddSPR_Inr) auto
  then show ?thesis
    by (intro exI [of _ "newGradingSPR eh (Content e) ?m"])
      (simp add: newGradingSPR_def V2_of_proto_def spr_message_def)
qed

definition sample_staker :: config where
  "sample_staker key = (if key = ''Staker.Protocol'' then Inr ''PegNet''
     else if key = ''Staker.Network'' \<or> key = ''Miner.Network'' then Inr ''MainNet''
     else if key = ''Staker.CoinbaseAddress'' then Inr (Random (sample_rcd 0))
     else if key = ''Staker.ECAddress'' then Inr ''EC'' else Inl (GoError []))"

definition sample_prices :: "(string \<times> u64) list" where
  "sample_prices = map (\<lambda>a. (a, 100000000)) AssetsV5"

definition sample_new_spr :: StakingPriceRecord where
  "sample_new_spr = NewStakingPriceRecord\<lparr>sNetwork := MainNetwork, sProtocol := ''PegNet'',
     sDbht := 258800, sVersion := 5, sAssets := Some sample_prices\<rparr>"

lemma sample_spr_price: "spr_price oob' (a, unix_item (Fin 1) 0) = (a, 100000000)"
  using sample_unit by (simp add: spr_price_def)

lemma sample_values: "map (Uint64Value (Some sample_prices)) AssetsV5 = replicate 62 100000000"
  by code_simp

definition sample_spr_message :: "string \<Rightarrow> ProtoOPR" where
  "sample_spr_message addr = \<lparr>PAddress = addr, PID = [], PHeight = 258800, PWinners = [],
     PAssets = replicate 62 100000000\<rparr>"

lemma sample_size:
  assumes "length addr = 0 \<or> length addr = 52"
  shows "module_pmarshal (sample_spr_message addr) = Inr (MarshalTo (V2_of_proto (sample_spr_message addr)))"
proof -
  have "length (MarshalTo (V2_of_proto (sample_spr_message addr))) < 2 ^ 63"
    using assms unfolding length_MarshalTo
    by (auto simp: V2_of_proto_def sample_spr_message_def Size_def sov_len_def sov.simps sum_list_replicate)
  then show ?thesis by (simp add: module_pmarshal_Inr)
qed

lemma sample_new_spr_sel [simp]:
  "sVersion (sample_new_spr\<lparr>SPRChainID := x, sSPRHash := y\<rparr>) = 5"
  "sDbht (sample_new_spr\<lparr>SPRChainID := x, sSPRHash := y\<rparr>) = 258800"
  "sAssets (sample_new_spr\<lparr>SPRChainID := x, sSPRHash := y\<rparr>) = Some sample_prices"
  by (simp_all add: sample_new_spr_def)

lemma sample_prices_ok:
  "ContainsExactly (Some sample_prices) AssetsV5" "distinct (map fst sample_prices)"
  "\<not> list_ex (\<lambda>(k, v). v = 0) sample_prices" "NetworkActive MainNetwork 258800"
  "SPRVersion MainNetwork 258800 = Inr 5" "GetNetwork ''MainNet'' = Inr MainNetwork"
  by code_simp+

lemma sample_spr_valid: "spr_Validate sample_staker 258800 (sample_new_spr\<lparr>SPRChainID := x, sSPRHash := y\<rparr>)"
proof -
  have "network_or_empty (LoadConfigNetwork sample_staker) = MainNetwork"
    by (simp add: LoadConfigNetwork_def ConfigPegnetNetwork_def sample_staker_def sample_prices_ok
        network_or_empty_def)
  then show ?thesis
    using sample_prices_ok by (simp add: spr_Validate_def spr_assets_eq entries_def)
qed

lemma sample_NewSpr:
  "\<exists>st' x y. NewSpr sample_env (\<lambda>_. []) module_pmarshal sample_staker 258800 (Some (Data sample_state), 0)
     = (Inr (sample_new_spr\<lparr>SPRChainID := x, sSPRHash := y\<rparr>), st')"
proof -
  let ?r = "NewStakingPriceRecord\<lparr>sNetwork := MainNetwork, sProtocol := ''PegNet'', SPRChainID := [],
      sDbht := 258800, sVersion := 5\<rparr>"
  obtain st' where p: "poll_prices sample_env sample_staker 5 (Some (Data sample_state), 0)
      = (Inr (map (\<lambda>a. (a, unix_item (Fin 1) 0)) AssetsV5), st')"
    using sample_prices_polled by blast
  have "map (spr_price (\<lambda>_. 0)) (map (\<lambda>a. (a, unix_item (Fin 1) 0)) AssetsV5) = sample_prices"
    by (simp add: sample_prices_def sample_spr_price)
  then have set: "spr_SetPegValues (\<lambda>_. 0) ?r (map (\<lambda>a. (a, unix_item (Fin 1) 0)) AssetsV5)
      = Inr (?r\<lparr>sAssets := Some sample_prices\<rparr>)"
    using spr_SetPegValues_Some [of ?r "[]"] fold_update_append [of "[]" sample_prices] sample_prices_ok(2)
    by (simp add: NewStakingPriceRecord_def)
  have "\<not> (5 :: byte) < 5" by simp
  then have "spr_SafeMarshal module_pmarshal (?r\<lparr>sAssets := Some sample_prices\<rparr>)
      = module_pmarshal (sample_spr_message [])"
    by (simp add: spr_SafeMarshal_def spr_assets_eq assign_prices_exact sample_prices_ok(1) sample_values
        sample_spr_message_def NewStakingPriceRecord_def)
  then obtain bs where bs: "spr_SafeMarshal module_pmarshal (?r\<lparr>sAssets := Some sample_prices\<rparr>) = Inr bs"
    using sample_size [of "[]"] by simp
  have r: "?r\<lparr>sAssets := Some sample_prices, sSPRHash := sha256 bs\<rparr>
      = sample_new_spr\<lparr>SPRChainID := [], sSPRHash := sha256 bs\<rparr>"
    by (simp add: sample_new_spr_def NewStakingPriceRecord_def)
  have "GetSPRecord sample_env module_pmarshal sample_staker ?r (Some (Data sample_state), 0)
      = (Inr (sample_new_spr\<lparr>SPRChainID := [], sSPRHash := sha256 bs\<rparr>), st')"
    using p set bs r by (simp add: GetSPRecord_def sample_env_def check_panic_def)
  moreover have "LoadConfigStakerNetwork sample_staker = Inr MainNetwork"
    "sample_staker ''Staker.Protocol'' = Inr ''PegNet''"
    by (simp_all add: LoadConfigStakerNetwork_def ConfigPegnetStakeNetwork_def sample_staker_def sample_prices_ok)
  ultimately have "NewSpr sample_env (\<lambda>_. []) module_pmarshal sample_staker 258800
      (Some (Data sample_state), 0) = (Inr (sample_new_spr\<lparr>SPRChainID := [], sSPRHash := sha256 bs\<rparr>), st')"
    using sample_prices_ok(5) sample_spr_valid [where x = "[]" and y = "sha256 bs"] by (simp add: NewSpr_def Let_def)
  then show ?thesis by blast
qed

lemma sample_raw: "ConvertFCTtoRaw Base58Decode (Random (sample_rcd 0)) = Inr (sample_rcd 0)"
  by (metis fct_addresses_agree length_sample_rcd sample_address)

end
