(* ===== verification/Staking_Correct.thy ===== *)
theory Staking_Correct
  imports Staking SprRecord_Correct "HOL-Library.Sublist"
begin

text \<open>
  What the coordinator of the staker guarantees: every record it makes is written once, before the next
  one is made, for the addresses of the configuration; and in a block whose minutes all arrive, with a
  factomd that takes the entries, each address gets an entry that the graders accept.
\<close>

section \<open>What a writer writes\<close>

definition template_of :: "StakingPriceRecord \<Rightarrow> StakingPriceRecord \<Rightarrow> bool" where
  "template_of r t \<longleftrightarrow> (\<exists>peg addr. t = for_address r peg addr)"

lemma template_of_clone: "template_of r (spr_CloneEntryData r)"
  unfolding template_of_def for_address_def
  by (rule exI [of _ "sCoinbasePEGAddress (spr_CloneEntryData r)"],
      rule exI [of _ "sCoinbaseAddress (spr_CloneEntryData r)"]) simp

lemma template_of_upd:
  "template_of r t \<Longrightarrow> t\<lparr>sCoinbasePEGAddress := peg, sCoinbaseAddress := addr\<rparr> = for_address r peg addr"
  by (auto simp: template_of_def for_address_def)

definition attempt_for :: "writer_env \<Rightarrow> string list \<Rightarrow> StakingPriceRecord \<Rightarrow> FactomEntry option \<times> bool \<Rightarrow> bool"
  where
  "attempt_for env addrs r a \<longleftrightarrow> (\<exists>addr \<in> set addrs. \<exists>peg.
     CreateSPREntry (wdec env) (wmarshal env) (wsign env) (for_address r peg addr) = Inr (fst a))"

definition writes :: "writer_env \<Rightarrow> string list \<Rightarrow> StakingPriceRecord \<Rightarrow> StakingPriceRecord
     \<Rightarrow> attempts \<Rightarrow> attempts \<Rightarrow> bool" where
  "writes env addrs r t sent sent' \<longleftrightarrow> template_of r t \<and>
     (\<exists>new. sent' = sent @ new \<and> (\<forall>a \<in> set new. attempt_for env addrs r a))"

lemma writes_refl [intro]: "template_of r t \<Longrightarrow> writes env addrs r t sent sent"
  by (simp add: writes_def)

lemma writes_trans:
  "writes env addrs r t sent sent1 \<Longrightarrow> writes env addrs r t' sent1 sent2 \<Longrightarrow> writes env addrs r t' sent sent2"
  by (auto simp: writes_def)

lemma writes_mono:
  "writes env addrs r t sent sent' \<Longrightarrow> set addrs \<subseteq> set addrs' \<Longrightarrow> writes env addrs' r t sent sent'"
  by (fastforce simp: writes_def attempt_for_def)

lemma write_operation_writes:
  assumes "write_operation env addr t sent = (t', sent', e)" "template_of r t"
  shows "writes env [addr] r t' sent sent'"
proof -
  let ?peg = "ConvertFCTtoPegNetAsset (wenc env) (wdec env)
      (network_or_empty (LoadConfigNetwork (wconfig env))) ''PEG'' addr"
  let ?a = "case ?peg of Inl _ \<Rightarrow> [] | Inr a \<Rightarrow> a"
  let ?entry = "CreateSPREntry (wdec env) (wmarshal env) (wsign env) (for_address r ?a addr)"
  consider "t' = t" "sent' = sent" | "t' = for_address r ?a addr"
    "sent' = sent \<or> (\<exists>entry ok. ?entry = Inr entry \<and> sent' = sent @ [(entry, ok)])"
    using assms(1)
    by (cases ?entry)
      (auto simp: write_operation_def template_of_upd [OF assms(2)] Let_def split: sum.splits go_error.splits)
  then show ?thesis
  proof cases
    case 2
    then show ?thesis by (fastforce simp: writes_def template_of_def attempt_for_def)
  qed (use assms(2) in auto)
qed

lemma retry_write_writes:
  "retry_write n env addr t sent = (t', sent', e) \<Longrightarrow> template_of r t \<Longrightarrow> writes env [addr] r t' sent sent'"
proof (induction n env addr t sent rule: retry_write.induct)
  case (2 n env addr t sent)
  obtain t1 sent1 e1 where w: "write_operation env addr t sent = (t1, sent1, e1)" by (metis prod_cases3)
  note first = write_operation_writes [OF w "2.prems"(2)]
  show ?case
  proof (cases "t' = t1 \<and> sent' = sent1")
    case False
    then obtain m where m: "e1 = Inl m" "\<not> is_panic (Inl m :: unit res)"
      "retry_write n env addr t1 sent1 = (t', sent', e)"
      using "2.prems"(1) by (auto simp: w split: sum.splits if_splits)
    have "template_of r t1" using first by (simp add: writes_def)
    from "2.IH" [OF w [symmetric] refl m(1) m(2) m(3) this] first show ?thesis by (blast intro: writes_trans)
  qed (use first in simp)
qed (auto intro: write_operation_writes)

lemma write_addresses_writes:
  "write_addresses env as t sent = (t', sent', e) \<Longrightarrow> template_of r t \<Longrightarrow> writes env as r t' sent sent'"
proof (induction env as t sent rule: write_addresses.induct)
  case (2 env addr as t sent)
  obtain t1 sent1 e1 where w: "retry_write (tries env addr - 1) env addr t sent = (t1, sent1, e1)"
    by (metis prod_cases3)
  have first: "writes env (addr # as) r t1 sent sent1"
    using retry_write_writes [OF w "2.prems"(2)] by (rule writes_mono) simp
  show ?case
  proof (cases e1)
    case (Inr u)
    with "2.prems" w have rest: "write_addresses env as t1 sent1 = (t', sent', e)" by simp
    have "template_of r t1" using first by (simp add: writes_def)
    from "2.IH" [OF w [symmetric] refl Inr rest this]
    have "writes env (addr # as) r t' sent1 sent'" by (rule writes_mono) auto
    with first show ?thesis by (rule writes_trans)
  qed (use "2.prems" w first in simp)
qed auto

section \<open>The coordinator\<close>

definition addresses :: "writer_env \<Rightarrow> string list" where
  "addresses env = (case wconfig env ''Staker.CoinbaseAddress'' of
     Inl _ \<Rightarrow> [] | Inr fctAddresses \<Rightarrow> Split (CHR '','') fctAddresses)"

text \<open>
  \<open>made\<close> are the heights and records made so far: the record at position \<open>i\<close> has the writer at position
  \<open>i + 1\<close>, after the one that the coordinator starts with, which gets none.
\<close>

definition made_at :: "(32 word \<Rightarrow> 'w \<Rightarrow> StakingPriceRecord res \<times> 'w) \<Rightarrow> 32 word \<times> StakingPriceRecord \<Rightarrow> bool"
  where
  "made_at new_spr m \<longleftrightarrow> (\<exists>w w'. new_spr (fst m) w = (Inr (snd m), w'))"

definition staking_inv :: "(32 word \<Rightarrow> 'w \<Rightarrow> StakingPriceRecord res \<times> 'w) \<Rightarrow> writer_env
     \<Rightarrow> (32 word \<times> int) list \<Rightarrow> (32 word \<times> StakingPriceRecord) list \<Rightarrow> 'w StakingCoordinator \<Rightarrow> bool" where
  "staking_inv new_spr env events made c \<longleftrightarrow>
     length (writers c) = Suc (length made) \<and> FactomEntryWriter c = length made
   \<and> Next (writers c ! length made) = None \<and> (made = [] \<longrightarrow> \<not> staking c)
   \<and> (\<forall>i < length made. (\<exists>t. sprTemplate (writers c ! Suc i) = Some t \<and> template_of (snd (made ! i)) t)
        \<and> (collected (writers c ! Suc i) \<longleftrightarrow> \<not> (staking c \<and> Suc i = length made)))
   \<and> (\<forall>m \<in> set made. made_at new_spr m)
   \<and> subseq (map (\<lambda>m. (fst m, 1)) made) events
   \<and> (\<forall>a \<in> set (attempted c). \<exists>m \<in> set made. attempt_for env (addresses env) (snd m) a)"

lemma staking_inv_snoc: "staking_inv new_spr env es made c \<Longrightarrow> staking_inv new_spr env (es @ [e]) made c"
  by (auto simp: staking_inv_def intro: subseq_order.trans)

lemma staking_inv_outside:
  "staking_inv new_spr env es made (c\<lparr>outside := w\<rparr>) = staking_inv new_spr env es made c"
  by (simp add: staking_inv_def)

lemma spr_GetHash_clone:
  "spr_GetHash pm r = Inr (h, r1) \<Longrightarrow> spr_CloneEntryData r1 = spr_CloneEntryData r"
  by (auto simp: spr_GetHash_def check_panic_def spr_CloneEntryData_def Let_def res_simps
      split: if_splits sum.splits)

lemma minute_one_cases:
  assumes "minute_one balance new_spr env dbht c = Inr c'"
  shows "(\<exists>w. c' = c\<lparr>outside := w\<rparr>) \<or> (\<exists>r w sprHash r1 n ws. \<not> staking c
    \<and> new_spr dbht (outside c) = (Inr r, w) \<and> spr_GetHash (wmarshal env) r = Inr (sprHash, r1)
    \<and> NextBlockWriter (FactomEntryWriter c) (writers c) = (n, ws)
    \<and> c' = c\<lparr>FactomEntryWriter := n, writers := SetSPR n r1 ws, staking := True,
         commands := commands c @ [start_command n sprHash], outside := w\<rparr>)"
proof -
  have same: "\<exists>w. c = c\<lparr>outside := w\<rparr>" by (rule exI [of _ "outside c"]) simp
  obtain got w where got: "new_spr dbht (outside c) = (got, w)" by fastforce
  obtain n ws where n: "NextBlockWriter (FactomEntryWriter c) (writers c) = (n, ws)" by fastforce
  show ?thesis
  proof (cases "balance (ec (writers c ! FactomEntryWriter c)) (outside c)")
    case (Inl e)
    then have "c' = c" using assms by (simp add: minute_one_def)
    with same show ?thesis by simp
  next
    case bal: (Inr bal)
    show ?thesis
    proof (cases "bal = 0 \<or> staking c")
      case True
      then have "c' = c" using assms bal by (auto simp: minute_one_def)
      with same show ?thesis by simp
    next
      case False
      show ?thesis
      proof (cases got)
        case (Inl e)
        then have "c' = c\<lparr>outside := w\<rparr>"
          using assms bal False got by (simp add: minute_one_def split: if_splits)
        then show ?thesis by (intro disjI1 exI)
      next
        case (Inr r)
        obtain p where p: "spr_GetHash (wmarshal env) r = Inr p"
          using assms bal False got Inr by (cases "spr_GetHash (wmarshal env) r") (simp_all add: minute_one_def)
        then have "c' = c\<lparr>FactomEntryWriter := n, writers := SetSPR n (snd p) ws, staking := True,
             commands := commands c @ [start_command n (fst p)], outside := w\<rparr>"
          using assms bal False got Inr n by (simp add: minute_one_def split_beta)
        with got Inr n p False show ?thesis
          by (intro disjI2 exI [of _ r] exI [of _ w] exI [of _ "fst p"] exI [of _ "snd p"] exI [of _ n] exI [of _ ws])
            simp
      qed
    qed
  qed
qed

lemma minute_one_inv:
  assumes "minute_one balance new_spr env h c = Inr c'" "staking_inv new_spr env es made c"
  shows "\<exists>made'. staking_inv new_spr env (es @ [(h, 1)]) made' c'"
  using minute_one_cases [OF assms(1)]
proof (elim disjE exE conjE)
  fix w
  assume "c' = c\<lparr>outside := w\<rparr>"
  then show ?thesis using staking_inv_snoc [OF assms(2)] by (auto simp: staking_inv_outside)
next
  fix r w sprHash r1 n ws
  assume s: "\<not> staking c" "new_spr h (outside c) = (Inr r, w)" "spr_GetHash (wmarshal env) r = Inr (sprHash, r1)"
    "NextBlockWriter (FactomEntryWriter c) (writers c) = (n, ws)"
    and c': "c' = c\<lparr>FactomEntryWriter := n, writers := SetSPR n r1 ws, staking := True,
       commands := commands c @ [start_command n sprHash], outside := w\<rparr>"
  let ?k = "length made" and ?new = "made @ [(h, r)]"
  note inv = assms(2) [unfolded staking_inv_def]
  have ws: "n = Suc ?k" "ws = (writers c)[?k := (writers c ! ?k)\<lparr>Next := Some (Suc ?k)\<rparr>]
      @ [NewEntryWriter\<lparr>ec := ec (writers c ! ?k)\<rparr>]"
    using s(4) inv by (auto simp: NextBlockWriter_def)
  have new: "writers c' = (writers c)[?k := (writers c ! ?k)\<lparr>Next := Some (Suc ?k)\<rparr>]
      @ [NewEntryWriter\<lparr>ec := ec (writers c ! ?k), sprTemplate := Some (spr_CloneEntryData r)\<rparr>]"
    using inv by (simp add: c' SetSPR_def ws nth_append list_update_append NewEntryWriter_def
        spr_GetHash_clone [OF s(3)])
  have sel: "FactomEntryWriter c' = Suc ?k" "staking c'" "attempted c' = attempted c"
    by (simp_all add: c' ws(1))
  have "made_at new_spr (h, r)" using s(2) by (auto simp: made_at_def)
  then have made: "\<forall>m \<in> set ?new. made_at new_spr m" using inv by simp
  have sub: "subseq (map (\<lambda>m. (fst m, 1)) ?new) (es @ [(h, 1)])"
    using inv by (simp add: subseq_append)
  have each: "(\<exists>t. sprTemplate (writers c' ! Suc i) = Some t \<and> template_of (snd (?new ! i)) t)
      \<and> (collected (writers c' ! Suc i) \<longleftrightarrow> \<not> (staking c' \<and> Suc i = length ?new))" if "i < length ?new" for i
  proof (cases "i = ?k")
    case True
    then show ?thesis
      using inv by (simp add: new nth_append NewEntryWriter_def template_of_clone sel)
  next
    case False
    with that have i: "i < ?k" by simp
    then have "(\<exists>t. sprTemplate (writers c ! Suc i) = Some t \<and> template_of (snd (made ! i)) t)
        \<and> collected (writers c ! Suc i)" using inv s(1) by blast
    then show ?thesis
      using inv i by (cases "Suc i = ?k") (simp_all add: new nth_append sel)
  qed
  have len: "length (writers c') = Suc (length ?new)" "Next (writers c' ! length ?new) = None"
    using inv by (simp_all add: new nth_append NewEntryWriter_def)
  have att: "\<forall>a \<in> set (attempted c'). \<exists>m \<in> set ?new. attempt_for env (addresses env) (snd m) a"
    using inv by (auto simp: sel)
  have "staking_inv new_spr env (es @ [(h, 1)]) ?new c'"
    unfolding staking_inv_def
    by (intro conjI allI impI len made sub att each [THEN conjunct1] each [THEN conjunct2]) (simp_all add: sel)
  then show ?thesis ..
qed

lemma minute_eight_inv:
  assumes "minute_eight env c = Inr c'" "staking_inv new_spr env es made c"
  shows "staking_inv new_spr env (es @ [e]) made c'"
proof (cases "staking c")
  case True
  let ?k = "length made"
  note inv = assms(2) [unfolded staking_inv_def]
  with True have "made \<noteq> []" by auto
  then obtain k where k: "?k = Suc k" by (cases made) auto
  then obtain t where t: "sprTemplate (writers c ! ?k) = Some t" "template_of (snd (made ! k)) t"
    "\<not> collected (writers c ! ?k)"
    using inv True by auto
  obtain w sent err where w: "writeStakingRecord env (writers c ! ?k) (attempted c) = (w, sent, err)"
    by (metis prod_cases3)
  have c': "c' = c\<lparr>writers := (writers c)[?k := w\<lparr>collected := True\<rparr>], staking := False,
      commands := commands c @ [stop_command], attempted := sent\<rparr>"
    using assms(1) True inv t(3)
    by (auto simp: minute_eight_def CollectAndWrite_def w res_simps split: sum.splits go_error.splits)
  have "\<exists>t'. sprTemplate w = Some t' \<and> Next w = Next (writers c ! ?k)
      \<and> writes env (addresses env) (snd (made ! k)) t' (attempted c) sent"
    using w t(2) write_addresses_writes [of env]
    by (fastforce simp: writeStakingRecord_def t(1) addresses_def split: sum.splits prod.splits)
  then obtain t' where t': "sprTemplate w = Some t'" "Next w = None"
    "writes env (addresses env) (snd (made ! k)) t' (attempted c) sent"
    using inv by auto
  have "made ! k \<in> set made" using k by simp
  then have "\<forall>a \<in> set sent. \<exists>m \<in> set made. attempt_for env (addresses env) (snd m) a"
    using t'(3) inv by (auto simp: writes_def)
  moreover have "(\<exists>t. sprTemplate (writers c' ! Suc i) = Some t \<and> template_of (snd (made ! i)) t)
      \<and> collected (writers c' ! Suc i)" if "i < ?k" for i
    using that inv t' k by (cases "i = k") (auto simp: c' writes_def)
  ultimately show ?thesis
    using inv t'(2) by (auto simp: staking_inv_def c' intro: subseq_order.trans)
next
  case False
  with assms(1) have "c' = c" by (simp add: minute_eight_def)
  then show ?thesis using staking_inv_snoc [OF assms(2)] by simp
qed

lemma coordinator_step_inv:
  assumes "coordinator_step balance new_spr env c e = Inr c'" "staking_inv new_spr env es made c"
  shows "\<exists>made'. staking_inv new_spr env (es @ [e]) made' c'"
proof (cases "snd e = 1")
  case True
  then have "minute_one balance new_spr env (fst e) c = Inr c'" "e = (fst e, 1)"
    using assms(1) by (simp_all add: coordinator_step_def prod_eq_iff)
  then show ?thesis using minute_one_inv [OF _ assms(2)] by metis
next
  case False
  then have "minute_eight env c = Inr c' \<or> c' = c"
    using assms(1) by (auto simp: coordinator_step_def split: if_splits)
  then show ?thesis
    using minute_eight_inv [OF _ assms(2)] staking_inv_snoc [OF assms(2)] by blast
qed

lemma staking_inv_run:
  "res_fold (coordinator_step balance new_spr env) c events = Inr c' \<Longrightarrow> staking_inv new_spr env es made c \<Longrightarrow>
     \<exists>made'. staking_inv new_spr env (es @ events) made' c'"
proof (induction events arbitrary: es made c)
  case (Cons e events)
  then obtain c1 where c1: "coordinator_step balance new_spr env c e = Inr c1"
    "res_fold (coordinator_step balance new_spr env) c1 events = Inr c'" by (auto simp: res_simps)
  obtain made1 where "staking_inv new_spr env (es @ [e]) made1 c1"
    using coordinator_step_inv [OF c1(1) Cons.prems(2)] by blast
  from Cons.IH [OF c1(2) this] show ?case by simp
qed auto


text \<open>
  While the coordinator is staking, nothing but a minute 8 changes its state: when a block's minute 8
  does not arrive, the records of the next blocks are not made, and the old one is written later.
\<close>

lemma missed_minute:
  assumes "staking c" "\<forall>e \<in> set events. snd e \<noteq> 8"
  shows "LaunchStaker balance new_spr env events c = Inr c"
proof -
  have "coordinator_step balance new_spr env c e = Inr c" if "snd e \<noteq> 8" for e
    using assms(1) that by (auto simp: coordinator_step_def minute_one_def split: sum.split)
  with assms(2) show ?thesis
    unfolding LaunchStaker_def by (induction events) simp_all
qed

definition sample_writer :: writer_env where
  "sample_writer = \<lparr>wconfig = sample_staker, wenc = (\<lambda>_. []), wdec = Base58Decode, wmarshal = module_pmarshal,
     wsign = (\<lambda>_ _. Inr (replicate 32 0, replicate 64 0)), submit_ok = (\<lambda>_. True), tries = (\<lambda>_. 1)\<rparr>"

definition sample_start :: "nat poller StakingCoordinator" where
  "sample_start = \<lparr>FactomEntryWriter = 0, writers = [NewEntryWriter\<lparr>ec := ''EC''\<rparr>], staking = False,
     commands = [], attempted = [], outside = (Some (Data sample_state), 0)\<rparr>"

lemma sample_coordinator:
  "NewStakingCoordinatorFromConfig sample_staker Inr (Some (Data sample_state), 0) = Inr sample_start"
  by (simp add: NewStakingCoordinatorFromConfig_def PopulateECAddress_def sample_staker_def check_panic_def
      sample_start_def)

definition sample_new :: "32 word \<Rightarrow> nat poller \<Rightarrow> StakingPriceRecord res \<times> nat poller" where
  "sample_new = NewSpr sample_env (\<lambda>_. []) module_pmarshal sample_staker"


section \<open>A complete block\<close>

lemma ConvertFCTtoPegNetAsset_no_panic:
  "ConvertFCTtoRaw dec addr = Inr raw \<Longrightarrow> ConvertFCTtoPegNetAsset enc dec net asset addr \<noteq> Inl (Panic m)"
  by (auto simp: ConvertFCTtoPegNetAsset_def ConvertRawToPegNetAsset_def guard_res_def split: if_splits)

text \<open>An entry can be created for the address.\<close>

definition writable :: "writer_env \<Rightarrow> StakingPriceRecord \<Rightarrow> string \<Rightarrow> bool" where
  "writable env r addr \<longleftrightarrow> (\<exists>raw. ConvertFCTtoRaw (wdec env) addr = Inr raw) \<and>
     (\<forall>peg. \<exists>e. CreateSPREntry (wdec env) (wmarshal env) (wsign env) (for_address r peg addr) = Inr (Some e))"

lemma write_operation_ok:
  assumes "writable env r addr" "submit_ok env (length sent)" "template_of r t"
  shows "\<exists>peg e. CreateSPREntry (wdec env) (wmarshal env) (wsign env) (for_address r peg addr) = Inr (Some e)
    \<and> write_operation env addr t sent = (for_address r peg addr, sent @ [(Some e, True)], Inr ())"
proof -
  let ?peg = "ConvertFCTtoPegNetAsset (wenc env) (wdec env)
      (network_or_empty (LoadConfigNetwork (wconfig env))) ''PEG'' addr"
  let ?a = "case ?peg of Inl _ \<Rightarrow> [] | Inr a \<Rightarrow> a"
  obtain e where e: "CreateSPREntry (wdec env) (wmarshal env) (wsign env) (for_address r ?a addr) = Inr (Some e)"
    using assms(1) by (auto simp: writable_def)
  have "?peg \<noteq> Inl (Panic m)" for m
    using assms(1) ConvertFCTtoPegNetAsset_no_panic by (auto simp: writable_def)
  then have "write_operation env addr t sent = (for_address r ?a addr, sent @ [(Some e, True)], Inr ())"
    using e assms(2)
    by (auto simp: write_operation_def template_of_upd [OF assms(3)] Let_def split: sum.split go_error.split)
  with e show ?thesis by blast
qed

lemma template_of_for_address: "template_of r (for_address r peg addr)"
  by (auto simp: template_of_def)

lemma write_addresses_ok:
  "\<forall>addr \<in> set as. writable env r addr \<Longrightarrow> \<forall>n. submit_ok env n \<Longrightarrow> template_of r t \<Longrightarrow>
     \<exists>es t'. write_addresses env as t sent = (t', sent @ map (\<lambda>e. (Some e, True)) es, Inr ())
       \<and> list_all2 (\<lambda>addr e. \<exists>peg. CreateSPREntry (wdec env) (wmarshal env) (wsign env)
            (for_address r peg addr) = Inr (Some e)) as es"
proof (induction as arbitrary: t sent)
  case (Cons addr as)
  have w: "writable env r addr" and rest: "\<forall>addr \<in> set as. writable env r addr"
    using Cons.prems(1) by simp_all
  obtain peg e where e: "CreateSPREntry (wdec env) (wmarshal env) (wsign env) (for_address r peg addr) = Inr (Some e)"
    "write_operation env addr t sent = (for_address r peg addr, sent @ [(Some e, True)], Inr ())"
    using write_operation_ok [OF w _ Cons.prems(3), of sent] Cons.prems(2) by blast
  have retry: "retry_write n env addr t sent = (for_address r peg addr, sent @ [(Some e, True)], Inr ())" for n
    using e(2) by (cases n) simp_all
  obtain es t' where es: "write_addresses env as (for_address r peg addr) (sent @ [(Some e, True)])
      = (t', (sent @ [(Some e, True)]) @ map (\<lambda>e. (Some e, True)) es, Inr ())"
    "list_all2 (\<lambda>addr e. \<exists>peg. CreateSPREntry (wdec env) (wmarshal env) (wsign env)
            (for_address r peg addr) = Inr (Some e)) as es"
    using Cons.IH [OF rest Cons.prems(2) template_of_for_address, of peg addr "sent @ [(Some e, True)]"]
    by blast
  show ?case
    by (intro exI [of _ "e # es"] exI [of _ t'] conjI) (use e(1) es retry in \<open>auto simp del: retry_write.simps\<close>)
qed simp

text \<open>The minutes of a block, of which only 1 and 8 matter.\<close>

definition block_minutes :: "32 word \<Rightarrow> (32 word \<times> int) list" where
  "block_minutes h = map (\<lambda>m. (h, m)) [0..9]"

lemma LaunchStaker_block:
  "LaunchStaker balance new_spr env (block_minutes h) c =
     rbind (minute_one balance new_spr env h c) (minute_eight env)"
proof -
  have "[0..9] = [0, 1, 2, 3, 4, 5, 6, 7, 8, 9 :: int]" by (simp add: upto.simps)
  moreover have "rbind (minute_eight env s) Inr = minute_eight env s" for s :: "'a StakingCoordinator"
    by (cases "minute_eight env s") simp_all
  ultimately show ?thesis
    by (simp add: LaunchStaker_def block_minutes_def coordinator_step_def)
qed

text \<open>The graders of the version and height of the record accept the entry, under the address.\<close>

definition accepted_entry :: "(byte list \<Rightarrow> byte list \<Rightarrow> byte list \<Rightarrow> bool) \<Rightarrow> StakingPriceRecord \<Rightarrow> string
     \<Rightarrow> FactomEntry \<Rightarrow> bool" where
  "accepted_entry verify r addr e \<longleftrightarrow> (\<forall>g eh. NewStakeGrader (sVersion r) (sDbht r) = Inr g \<longrightarrow>
     length eh = 32 \<longrightarrow> (\<exists>x. AddSPR verify g eh (ExtIDs e) (Content e) = Inr (add_spr g x)
       \<and> spr_CoinbaseAddress x = addr
       \<and> V2Content.Assets (SPR x) = map (spr_Uint64Value (sAssets r)) AssetsV5))"

text \<open>
  C25. After any run that left the coordinator idle, a block all of whose minutes arrive: if there are
  entry credits, the prices can be polled, the wallet signs and factomd takes the entries, then one
  entry is written for each address of the configuration, in order, and each is one that the grader of
  the block accepts, with the prices that were polled.
\<close>

theorem staked_block:
  assumes "NewStakingCoordinatorFromConfig cfg fetch_ec w = Inr c0"
    and "LaunchStaker balance (NewSpr penv enc (wmarshal env) cfg) env events c0 = Inr c" "\<not> staking c"
    and "balance (ec (writers c ! FactomEntryWriter c)) (outside c) = Inr bal" "bal \<noteq> 0"
    and "NewSpr penv enc (wmarshal env) cfg h (outside c) = (Inr r, w')"
    and "slice_sort (psort penv)" "\<And>xs. mset (porder penv xs) = mset xs"
    and "\<forall>addr \<in> set (addresses env). writable env r addr" "addresses env \<noteq> []" "\<forall>n. submit_ok env n"
    and "\<And>m bs. wmarshal env m = Inr bs \<Longrightarrow> Unmarshal zero_V2Content bs = Inr (V2_of_proto m)"
    and "\<And>a data pub sig. wsign env a data = Inr (pub, sig) \<Longrightarrow>
           length pub = 32 \<and> length sig = 64 \<and> verify data pub sig"
    and "\<And>a raw. ConvertFCTtoRaw (wdec env) a = Inr raw \<Longrightarrow> Valid a = Inr ()"
  shows "\<exists>c' es. LaunchStaker balance (NewSpr penv enc (wmarshal env) cfg) env (block_minutes h) c = Inr c'
    \<and> \<not> staking c' \<and> attempted c' = attempted c @ map (\<lambda>e. (Some e, True)) es
    \<and> list_all2 (accepted_entry verify r) (addresses env) es"
proof -
  let ?new = "NewSpr penv enc (wmarshal env) cfg"
  obtain w0 where "c0 = \<lparr>FactomEntryWriter = 0, writers = [w0], staking = False, commands = [],
      attempted = [], outside = w\<rparr>" "Next w0 = None"
    using assms(1) by (auto simp: NewStakingCoordinatorFromConfig_def PopulateECAddress_def NewEntryWriter_def
        check_panic_def res_simps split: sum.splits)
  then have "staking_inv ?new env [] [] c0" by (simp add: staking_inv_def)
  from staking_inv_run [OF assms(2) [unfolded LaunchStaker_def] this]
  obtain made where inv: "staking_inv ?new env events made c" by auto
  let ?k = "length made"
  have k: "length (writers c) = Suc ?k" "FactomEntryWriter c = ?k" "Next (writers c ! ?k) = None"
    using inv by (simp_all add: staking_inv_def)
  have hash: "spr_GetHash (wmarshal env) r = Inr (sSPRHash r, r)"
    using NewSpr_hash [OF assms(6)] by (simp add: spr_GetHash_def)
  let ?w = "NewEntryWriter\<lparr>ec := ec (writers c ! ?k), sprTemplate := Some (spr_CloneEntryData r)\<rparr>"
  let ?ws = "(writers c)[?k := (writers c ! ?k)\<lparr>Next := Some (Suc ?k)\<rparr>] @ [?w]"
  have nextw: "NextBlockWriter ?k (writers c) = (Suc ?k, (writers c)[?k := (writers c ! ?k)\<lparr>Next := Some (Suc ?k)\<rparr>]
      @ [NewEntryWriter\<lparr>ec := ec (writers c ! ?k)\<rparr>])"
    using k by (simp add: NextBlockWriter_def)
  let ?c1 = "c\<lparr>FactomEntryWriter := Suc ?k, writers := ?ws, staking := True,
      commands := commands c @ [start_command (Suc ?k) (sSPRHash r)], outside := w'\<rparr>"
  have one: "minute_one balance ?new env h c = Inr ?c1"
    using assms(3-6) k
    by (simp add: minute_one_def hash nextw SetSPR_def nth_append list_update_append NewEntryWriter_def)
  obtain as where as: "wconfig env ''Staker.CoinbaseAddress'' = Inr as" "addresses env = Split (CHR '','') as"
    using assms(10) by (auto simp: addresses_def split: sum.splits)
  obtain es t where es: "write_addresses env (addresses env) (spr_CloneEntryData r) (attempted c)
      = (t, attempted c @ map (\<lambda>e. (Some e, True)) es, Inr ())"
    "list_all2 (\<lambda>addr e. \<exists>peg. CreateSPREntry (wdec env) (wmarshal env) (wsign env)
        (for_address r peg addr) = Inr (Some e)) (addresses env) es"
    using write_addresses_ok [OF assms(9,11) template_of_clone, of "attempted c"] by blast
  let ?c2 = "?c1\<lparr>writers := ?ws[Suc ?k := ?w\<lparr>sprTemplate := Some t, collected := True\<rparr>], staking := False,
      commands := commands ?c1 @ [stop_command], attempted := attempted c @ map (\<lambda>e. (Some e, True)) es\<rparr>"
  have "CollectAndWrite env (Suc ?k) ?ws (attempted c)
      = Inr (?ws[Suc ?k := ?w\<lparr>sprTemplate := Some t, collected := True\<rparr>],
             attempted c @ map (\<lambda>e. (Some e, True)) es)"
    using k(1) es(1) as
    by (simp add: CollectAndWrite_def writeStakingRecord_def nth_append NewEntryWriter_def)
  then have eight: "minute_eight env ?c1 = Inr ?c2" by (simp add: minute_eight_def)
  have accept: "accepted_entry verify r addr e"
    if "CreateSPREntry (wdec env) (wmarshal env) (wsign env) (for_address r peg addr) = Inr (Some e)"
    for peg addr e
  proof -
    have "sDbht r = h"
      using NewSpr_fresh [OF assms(6,7,8)] by (auto simp: fresh_spr_def)
    moreover have "\<exists>x. AddSPR verify g eh (ExtIDs e) (Content e) = Inr (add_spr g x)
        \<and> spr_CoinbaseAddress x = addr \<and> spr_EntryHash x = eh
        \<and> V2Content.Assets (SPR x) = map (spr_Uint64Value (sAssets r)) AssetsV5"
      if "NewStakeGrader (sVersion r) h = Inr g" "length eh = 32" for g eh
      by (rule staked_entry_accepted [OF assms(6,7,8) \<open>CreateSPREntry _ _ _ _ = _\<close> assms(12) assms(13) assms(14)
          that]) assumption+
    ultimately show ?thesis by (auto simp: accepted_entry_def)
  qed
  have "list_all2 (accepted_entry verify r) (addresses env) es"
    using es(2) by (rule list_all2_mono) (use accept in blast)
  moreover have "LaunchStaker balance ?new env (block_minutes h) c = Inr ?c2"
    using one eight by (simp add: LaunchStaker_block)
  ultimately show ?thesis
    by (intro exI [of _ ?c2] exI [of _ es] conjI) simp_all
qed

lemma decode_loop_invalid: "c \<in> set s \<Longrightarrow> b58_index c = 255 \<Longrightarrow> decode_loop s a j = None"
  by (induction s a j rule: decode_loop.induct) (auto simp: Let_def)

lemma sample_addresses: "addresses sample_writer = [Random (sample_rcd 0)]"
proof -
  have "CHR '','' \<notin> set (Random (sample_rcd 0))"
  proof
    assume comma: "CHR '','' \<in> set (Random (sample_rcd 0))"
    have "b58_index CHR '','' = 255" by code_simp
    then have "Base58Decode (Random (sample_rcd 0)) = []"
      using decode_loop_invalid comma by (simp add: Base58Decode_def)
    then show False using sample_raw by (simp add: ConvertFCTtoRaw_Inr fcPubPrefix_def)
  qed
  then show ?thesis
    by (simp add: addresses_def sample_writer_def sample_staker_def Split_none)
qed

lemma sample_writable:
  assumes "r = sample_new_spr\<lparr>SPRChainID := x, sSPRHash := y\<rparr>"
  shows "writable sample_writer r (Random (sample_rcd 0))"
proof -
  let ?addr = "Random (sample_rcd 0)"
  have "length ?addr = 52" using Encode_shape [OF sample_address [of 0]] by simp
  then have "module_pmarshal (spr_message r ?addr) = Inr (MarshalTo (V2_of_proto (sample_spr_message ?addr)))"
    using sample_size [of ?addr]
    by (simp add: spr_message_def spr_assets_eq sample_values sample_spr_message_def assms)
  moreover have "spr_SafeMarshal module_pmarshal (for_address r peg ?addr) = module_pmarshal (spr_message r ?addr)"
    for peg
    unfolding assms using sample_spr_valid sample_prices_ok(2)
    by (intro spr_SafeMarshal_valid [where xs = sample_prices]) simp_all
  ultimately show ?thesis
    using sample_raw by (simp add: writable_def CreateSPREntry_def sample_writer_def)
qed

theorem staked_block_witness:
  "\<exists>c' e r. LaunchStaker (\<lambda>_ _. Inr 1) sample_new sample_writer (block_minutes 258800) sample_start = Inr c'
    \<and> \<not> staking c' \<and> attempted c' = [(Some e, True)]
    \<and> accepted_entry (\<lambda>_ _ _. True) r (Random (sample_rcd 0)) e"
proof -
  obtain st' x y where new: "sample_new 258800 (Some (Data sample_state), 0)
      = (Inr (sample_new_spr\<lparr>SPRChainID := x, sSPRHash := y\<rparr>), st')"
    using sample_NewSpr by (auto simp: sample_new_def)
  let ?r = "sample_new_spr\<lparr>SPRChainID := x, sSPRHash := y\<rparr>"
  have n: "NewSpr sample_env (\<lambda>_. []) (wmarshal sample_writer) sample_staker = sample_new"
    by (simp add: sample_new_def sample_writer_def)
  have "\<exists>c' es. LaunchStaker (\<lambda>_ _. Inr 1) (NewSpr sample_env (\<lambda>_. []) (wmarshal sample_writer) sample_staker)
      sample_writer (block_minutes 258800) sample_start = Inr c'
    \<and> \<not> staking c' \<and> attempted c' = attempted sample_start @ map (\<lambda>e. (Some e, True)) es
    \<and> list_all2 (accepted_entry (\<lambda>_ _ _. True) ?r) (addresses sample_writer) es"
  proof (rule staked_block [OF sample_coordinator, where events = "[]" and bal = 1])
    show "NewSpr sample_env (\<lambda>_. []) (wmarshal sample_writer) sample_staker 258800 (outside sample_start)
        = (Inr ?r, st')"
      using new by (simp add: n sample_start_def)
    show "slice_sort (psort sample_env)" "mset (porder sample_env xs) = mset xs" for xs
      by (simp_all add: sample_env_def slice_sort_sort_key)
    show "\<forall>addr \<in> set (addresses sample_writer). writable sample_writer ?r addr"
      by (simp add: sample_addresses sample_writable [OF refl])
    show "Unmarshal zero_V2Content bs = Inr (V2_of_proto m)" if "wmarshal sample_writer m = Inr bs" for m bs
      using module_decode that by (simp add: sample_writer_def)
    show "Valid a = Inr ()" if "ConvertFCTtoRaw (wdec sample_writer) a = Inr raw" for a raw
      using fct_addresses_agree [of a raw] that Valid_Encode by (auto simp: sample_writer_def)
    show "addresses sample_writer \<noteq> []" by (simp add: sample_addresses)
    show "\<forall>i. submit_ok sample_writer i" by (simp add: sample_writer_def)
  qed (auto simp: LaunchStaker_def sample_start_def sample_writer_def)
  then obtain c' es where c': "LaunchStaker (\<lambda>_ _. Inr 1) sample_new sample_writer (block_minutes 258800)
      sample_start = Inr c'" "\<not> staking c'" "attempted c' = map (\<lambda>e. (Some e, True)) es"
    "list_all2 (accepted_entry (\<lambda>_ _ _. True) ?r) [Random (sample_rcd 0)] es"
    by (auto simp: n sample_start_def sample_addresses)
  then obtain e where "es = [e]" by (cases es) (auto dest: list_all2_lengthD)
  with c' show ?thesis by (intro exI [of _ c'] exI [of _ e] exI [of _ ?r]) auto
qed

end
