(* ===== verification/MiningStats.thy ===== *)
theory MiningStats
  imports Mining Go_Float "HOL-Library.Signed_Division" "HOL-Library.AList"
begin

text \<open>
  The statistics of mining: mining/stats.go. The tracker keeps a bucket for each of the highest 250
  blocks it has heard of, sorted by falling height and searched by halving; a bucket maps the id of a
  group of miners to its statistics.

  Buckets are objects; what is fetched shares its map with the tracker, which the model does not show.
  The miners of a group are listed in the order in which a range over the map visits them. Times are in
  nanoseconds. The channels of the listeners have room for ten messages.
\<close>

section \<open>The statistics of a group\<close>

record TimedMinerStats = SingleMinerStats +
  Start :: int
  Stop :: int

record GroupMinerStats =
  Miners :: "(int \<times> TimedMinerStats) list"
  BlockHeight :: int
  GroupID :: string
  Tags :: "(string \<rightharpoonup> string) option"

definition NewGroupMinerStats :: "string \<Rightarrow> int \<Rightarrow> GroupMinerStats" where
  "NewGroupMinerStats i height = \<lparr>Miners = [], BlockHeight = height, GroupID = i, Tags = Some Map.empty\<rparr>"

text \<open>\<open>time.Time.Sub\<close> saturates, and \<open>Duration.Seconds\<close> adds the seconds and the rest.\<close>

definition Sub :: "int \<Rightarrow> int \<Rightarrow> int" where
  "Sub t u = max (- (2 ^ 63)) (min (2 ^ 63 - 1) (t - u))"

definition Seconds :: "int \<Rightarrow> f64" where
  "Seconds d = (let sec = d sdiv 10 ^ 9 in
     fadd (f64_of_int sec) (fdiv (f64_of_int (d - sec * 10 ^ 9)) (f64_const (10 ^ 9))))"

definition elapsed :: "TimedMinerStats \<Rightarrow> int" where
  "elapsed m = Sub (Stop m) (Start m)"

definition TotalHashPower :: "GroupMinerStats \<Rightarrow> f64" where
  "TotalHashPower g = foldl (\<lambda>acc (_, m). fadd acc (fdiv (f64_of_int (TotalHashes m)) (Seconds (elapsed m))))
     (Fin 0) (Miners g)"

definition total_duration :: "GroupMinerStats \<Rightarrow> int" where
  "total_duration g = foldl (\<lambda>d (_, m). wrap64 (d + elapsed m)) 0 (Miners g)"

definition AvgHashRatePerMiner :: "GroupMinerStats \<Rightarrow> f64" where
  "AvgHashRatePerMiner g =
     fdiv (foldl (\<lambda>acc (_, m). let s = Seconds (elapsed m) in
             fadd acc (fmul s (fdiv (f64_of_int (TotalHashes m)) s))) (Fin 0) (Miners g))
       (Seconds (total_duration g))"

definition AvgDurationPerMiner :: "GroupMinerStats \<Rightarrow> int res" where
  "AvgDurationPerMiner g = guard_res (Miners g = []) (Panic ''integer divide by zero'')
     (Inr (total_duration g sdiv int (length (Miners g))))"

section \<open>Buckets\<close>

record StatisticBucket =
  GroupStats :: "string \<rightharpoonup> GroupMinerStats"
  BucketHeight :: int

record GlobalStatTracker =
  miningStatistics :: "StatisticBucket list"
  upstreams :: "(string \<times> GroupMinerStats list) list"
  closed :: "(string \<times> GroupMinerStats list) list"

definition NewGlobalStatTracker :: GlobalStatTracker where
  "NewGlobalStatTracker = \<lparr>miningStatistics = [], upstreams = [], closed = []\<rparr>"

definition MaxGlobalStatsBuckets :: nat where "MaxGlobalStatsBuckets = 250"

text \<open>\<open>sort.Search\<close>: the loop that halves the interval from \<open>i\<close> to \<open>j\<close>.\<close>

function search_loop :: "(nat \<Rightarrow> bool) \<Rightarrow> nat \<Rightarrow> nat \<Rightarrow> nat" where
  "search_loop f i j =
     (if i < j then (let h = (i + j) div 2 in if \<not> f h then search_loop f (h + 1) j else search_loop f i h)
      else i)"
  by pat_completeness auto

termination by (relation "measure (\<lambda>(f, i, j). j - i)") auto

declare search_loop.simps [simp del]

definition Search :: "nat \<Rightarrow> (nat \<Rightarrow> bool) \<Rightarrow> nat" where
  "Search n f = search_loop f 0 n"

definition find_bucket :: "StatisticBucket list \<Rightarrow> int \<Rightarrow> nat option" where
  "find_bucket bs height =
     (let i = Search (length bs) (\<lambda>i. BucketHeight (bs ! i) \<le> height) in
      if i < length bs \<and> BucketHeight (bs ! i) = height then Some i else None)"

definition FetchStats :: "GlobalStatTracker \<Rightarrow> int \<Rightarrow> StatisticBucket option" where
  "FetchStats t height = map_option (\<lambda>i. miningStatistics t ! i) (find_bucket (miningStatistics t) height)"

definition FetchAllStats :: "GlobalStatTracker \<Rightarrow> StatisticBucket list" where
  "FetchAllStats t = miningStatistics t"

definition insert_bucket :: "GroupMinerStats \<Rightarrow> StatisticBucket list \<Rightarrow> StatisticBucket list" where
  "insert_bucket g bs =
     (case find_bucket bs (BlockHeight g) of
        Some i \<Rightarrow> bs[i := (bs ! i)\<lparr>GroupStats := (GroupStats (bs ! i))(GroupID g \<mapsto> g)\<rparr>]
      | None \<Rightarrow>
         (let bs' = sort_stable (\<lambda>a b. BucketHeight b < BucketHeight a)
                      (bs @ [\<lparr>GroupStats = [GroupID g \<mapsto> g], BucketHeight = BlockHeight g\<rparr>])
          in if length bs' > MaxGlobalStatsBuckets then take MaxGlobalStatsBuckets bs' else bs'))"

definition InsertStats :: "GlobalStatTracker \<Rightarrow> GroupMinerStats \<Rightarrow> GlobalStatTracker" where
  "InsertStats t g = t\<lparr>miningStatistics := insert_bucket g (miningStatistics t)\<rparr>"

section \<open>Listeners\<close>

definition GetUpstream :: "string \<Rightarrow> GlobalStatTracker \<Rightarrow> GlobalStatTracker" where
  "GetUpstream i t = t\<lparr>upstreams := AList.update i [] (upstreams t),
     closed := (case map_of (upstreams t) i of None \<Rightarrow> closed t | Some q \<Rightarrow> (i, q) # closed t)\<rparr>"

definition StopUpstream :: "string \<Rightarrow> GlobalStatTracker \<Rightarrow> GlobalStatTracker" where
  "StopUpstream i t = t\<lparr>upstreams := AList.delete i (upstreams t),
     closed := (case map_of (upstreams t) i of None \<Rightarrow> closed t | Some q \<Rightarrow> (i, q) # closed t)\<rparr>"

text \<open>
  What \<open>Collect\<close> does with the statistics of a group. They are printed, with their averages: the average
  duration of a group without miners panics. The end of the context is noticed and nothing is done: the
  loop goes on.
\<close>

definition collect_stats :: "GlobalStatTracker \<Rightarrow> GroupMinerStats \<Rightarrow> GlobalStatTracker res" where
  "collect_stats t g =
     (let t1 = InsertStats t g in
      rbind (AvgDurationPerMiner g) (\<lambda>_.
        Inr (t1\<lparr>upstreams := map (\<lambda>(i, q). (i, if length q < 10 then q @ [g] else q)) (upstreams t1)\<rparr>)))"

datatype collect_event = Stats GroupMinerStats | ContextDone

definition collect_step :: "GlobalStatTracker \<Rightarrow> collect_event \<Rightarrow> GlobalStatTracker res" where
  "collect_step t e = (case e of Stats g \<Rightarrow> collect_stats t g | ContextDone \<Rightarrow> Inr t)"

definition Collect :: "collect_event list \<Rightarrow> GlobalStatTracker \<Rightarrow> GlobalStatTracker res" where
  "Collect es t = res_fold collect_step t es"

section \<open>Searching by halving\<close>

lemma search_loop_spec:
  assumes mono: "\<And>k l. f k \<Longrightarrow> k \<le> l \<Longrightarrow> l < n \<Longrightarrow> f l"
  shows "i \<le> j \<Longrightarrow> j \<le> n \<Longrightarrow> i \<le> search_loop f i j \<and> search_loop f i j \<le> j
    \<and> (\<forall>k. i \<le> k \<and> k < search_loop f i j \<longrightarrow> \<not> f k) \<and> (\<forall>k. search_loop f i j \<le> k \<and> k < j \<longrightarrow> f k)"
proof (induction "j - i" arbitrary: i j rule: less_induct)
  case less
  obtain h where h: "h = (i + j) div 2" by simp
  consider "i = j" | "i < j" "\<not> f h" | "i < j" "f h" using less.prems by linarith
  then show ?case
  proof cases
    case 1
    then have "search_loop f i j = i" by (subst search_loop.simps) simp
    with 1 show ?thesis by auto
  next
    case 2
    then have lim: "i \<le> h" "h < j" using h by auto
    have eq: "search_loop f i j = search_loop f (h + 1) j"
      using 2 h by (simp add: search_loop.simps [of f i j] Let_def)
    obtain s where s: "s = search_loop f (h + 1) j" by simp
    have below: "\<not> f k" if "k \<le> h" for k using mono [of k h] that 2(2) lim less.prems(2) by auto
    have "j - (h + 1) < j - i" "h + 1 \<le> j" using lim by auto
    from less.hyps [OF this less.prems(2)]
    have IH: "h + 1 \<le> s" "s \<le> j" "\<And>k. h + 1 \<le> k \<Longrightarrow> k < s \<Longrightarrow> \<not> f k" "\<And>k. s \<le> k \<Longrightarrow> k < j \<Longrightarrow> f k"
      by (auto simp: s)
    have "\<not> f k" if "k < s" for k
      using below [of k] IH(3) [OF _ that] by (cases "k \<le> h") auto
    moreover have "i \<le> s" using IH(1) lim(1) by linarith
    ultimately show ?thesis unfolding eq s [symmetric] using IH(2,4) by simp
  next
    case 3
    then have lim: "i \<le> h" "h < j" using h by auto
    have eq: "search_loop f i j = search_loop f i h"
      using 3 h by (simp add: search_loop.simps [of f i j] Let_def)
    obtain s where s: "s = search_loop f i h" by simp
    have above: "f k" if "h \<le> k" "k < j" for k using mono [of h k] that 3(2) less.prems(2) by auto
    have "h - i < j - i" "h \<le> n" using lim less.prems(2) by auto
    from less.hyps [OF this(1) lim(1) this(2)]
    have IH: "i \<le> s" "s \<le> h" "\<And>k. i \<le> k \<Longrightarrow> k < s \<Longrightarrow> \<not> f k" "\<And>k. s \<le> k \<Longrightarrow> k < h \<Longrightarrow> f k"
      by (auto simp: s)
    have "f k" if "s \<le> k" "k < j" for k
      using above [OF _ that(2)] IH(4) [OF that(1)] by (cases "h \<le> k") auto
    moreover have "s \<le> j" using IH(2) lim(2) by linarith
    ultimately show ?thesis unfolding eq s [symmetric] using IH(1,3) by simp
  qed
qed

text \<open>On buckets by falling height, the search finds the bucket of a height if there is one.\<close>

definition falling :: "StatisticBucket list \<Rightarrow> bool" where
  "falling bs \<longleftrightarrow> sorted_wrt (>) (map BucketHeight bs)"

lemma find_bucket_iff:
  assumes "falling bs"
  shows "find_bucket bs h = Some i \<longleftrightarrow> i < length bs \<and> BucketHeight (bs ! i) = h"
proof -
  obtain s where s: "s = Search (length bs) (\<lambda>i. BucketHeight (bs ! i) \<le> h)" by simp
  have less: "BucketHeight (bs ! l) < BucketHeight (bs ! k)" if "k < l" "l < length bs" for k l
    using assms that by (simp add: falling_def sorted_wrt_iff_nth_less)
  have mono: "BucketHeight (bs ! l) \<le> h" if "BucketHeight (bs ! k) \<le> h" "k \<le> l" "l < length bs" for k l
    using less [of k l] that by (cases "k = l") auto
  have "0 \<le> s \<and> s \<le> length bs \<and> (\<forall>k. 0 \<le> k \<and> k < s \<longrightarrow> \<not> BucketHeight (bs ! k) \<le> h)
      \<and> (\<forall>k. s \<le> k \<and> k < length bs \<longrightarrow> BucketHeight (bs ! k) \<le> h)"
    unfolding s Search_def
    by (rule search_loop_spec [where n = "length bs"]) (erule (2) mono, simp_all)
  then have below: "\<And>k. k < s \<Longrightarrow> \<not> BucketHeight (bs ! k) \<le> h"
    and above: "\<And>k. s \<le> k \<Longrightarrow> k < length bs \<Longrightarrow> BucketHeight (bs ! k) \<le> h" by auto
  have "i = s" if "i < length bs" "BucketHeight (bs ! i) = h"
  proof (rule antisym)
    show "s \<le> i" using below [of i] that by (cases "i < s") simp_all
    show "i \<le> s"
    proof (rule ccontr)
      assume "\<not> i \<le> s"
      then show False using above [of s] less [of s i] that by simp
    qed
  qed
  moreover have "find_bucket bs h = (if s < length bs \<and> BucketHeight (bs ! s) = h then Some s else None)"
    by (simp add: find_bucket_def s Let_def)
  ultimately show ?thesis by auto
qed

section \<open>What the tracker holds\<close>

text \<open>
  \<open>latest gs h\<close> maps each group to the last of its statistics for the height, \<open>heights\<close> lists the heights
  heard of, falling.
\<close>

definition latest :: "GroupMinerStats list \<Rightarrow> int \<Rightarrow> string \<rightharpoonup> GroupMinerStats" where
  "latest gs h = map_of (rev (map (\<lambda>g. (GroupID g, g)) (filter (\<lambda>g. BlockHeight g = h) gs)))"

fun insert_falling :: "int \<Rightarrow> int list \<Rightarrow> int list" where
  "insert_falling h [] = [h]"
| "insert_falling h (x # xs) =
     (if h < x then x # insert_falling h xs else if h = x then x # xs else h # x # xs)"

definition heights :: "GroupMinerStats list \<Rightarrow> int list" where
  "heights gs = foldl (\<lambda>hs g. insert_falling (BlockHeight g) hs) [] gs"

abbreviation bucket_of :: "GroupMinerStats list \<Rightarrow> int \<Rightarrow> StatisticBucket" where
  "bucket_of gs h \<equiv> \<lparr>GroupStats = latest gs h, BucketHeight = h\<rparr>"

lemma set_insert_falling [simp]: "set (insert_falling h xs) = insert h (set xs)"
  by (induction xs) auto

lemma falling_insert_falling: "sorted_wrt (>) xs \<Longrightarrow> sorted_wrt (>) (insert_falling h xs)"
  by (induction xs) auto

lemma insert_falling_member: "sorted_wrt (>) xs \<Longrightarrow> h \<in> set xs \<Longrightarrow> insert_falling h xs = xs"
  by (induction xs) auto

lemma take_insert_falling: "take n (insert_falling h (take n xs)) = take n (insert_falling h xs)"
proof (induction xs arbitrary: n)
  case (Cons x xs)
  then show ?case by (cases n) (auto simp: take_Cons')
qed simp

lemma heights_snoc [simp]: "heights (gs @ [g]) = insert_falling (BlockHeight g) (heights gs)"
  by (simp add: heights_def)

lemma falling_heights: "sorted_wrt (>) (heights gs)"
  by (induction gs rule: rev_induct) (simp_all add: falling_insert_falling, simp add: heights_def)

lemma set_heights: "set (heights gs) = set (map BlockHeight gs)"
  by (induction gs rule: rev_induct) (auto simp: heights_def)

lemma latest_snoc:
  "latest (gs @ [g]) h = (if BlockHeight g = h then (latest gs h)(GroupID g \<mapsto> g) else latest gs h)"
  by (auto simp: latest_def)

lemma latest_none: "h \<notin> set (heights gs) \<Longrightarrow> latest gs h = Map.empty"
  by (auto simp: latest_def set_heights filter_empty_conv)

lemma sort_falling:
  assumes "sorted_wrt (>) xs" "h \<notin> set xs"
  shows "sort_stable (\<lambda>a b. b < a) (xs @ [h]) = insert_falling h xs"
  using assms
proof (induction xs)
  case (Cons x xs)
  have front: "insert_by (\<lambda>a b. b < a) x ys = x # ys" if "\<forall>y \<in> set ys. y < x" for ys
    using that by (cases ys) auto
  have "insert_falling h xs = h # xs" if "x < h"
    using that Cons.prems(1) by (cases xs) auto
  then show ?case using Cons front by (auto simp: sort_stable_def)
qed (simp add: sort_stable_def)

lemma mem_take_falling:
  fixes xs :: "int list"
  assumes "sorted_wrt (>) xs"
  shows "x \<in> set (take n xs) \<longleftrightarrow> x \<in> set xs \<and> card {y \<in> set xs. x < y} < n"
  using assms
proof (induction xs arbitrary: n)
  case (Cons a xs)
  have a: "{y \<in> set (a # xs). a < y} = {}" "a \<notin> set xs" using Cons.prems by auto
  have step: "card {y \<in> set (a # xs). x < y} = Suc (card {y \<in> set xs. x < y})" if "x \<in> set xs"
  proof -
    have "{y \<in> set (a # xs). x < y} = insert a {y \<in> set xs. x < y}" using Cons.prems that by auto
    then show ?thesis using a(2) by simp
  qed
  show ?case
  proof (cases n)
    case (Suc m)
    then show ?thesis
    proof (cases "x = a")
      case True
      then show ?thesis using a(1) Suc by (simp only: card.empty) simp
    next
      case False
      then have "x \<in> set (take n (a # xs)) \<longleftrightarrow> x \<in> set xs \<and> card {y \<in> set xs. x < y} < m"
        using Suc Cons by simp
      then show ?thesis using step Suc False by (cases "x \<in> set xs") (simp_all only: set_simps insert_iff, simp_all)
    qed
  qed simp
qed simp

lemma insert_bucket_known:
  assumes "BlockHeight g \<in> set (take n (heights gs))"
  shows "insert_bucket g (map (bucket_of gs) (take n (heights gs)))
    = map (bucket_of (gs @ [g])) (take n (heights (gs @ [g])))"
proof -
  let ?hs = "take n (heights gs)"
  have fall: "sorted_wrt (>) ?hs" using falling_heights by (rule sorted_wrt_take)
  obtain i where i: "i < length ?hs" "?hs ! i = BlockHeight g" using assms by (metis in_set_conv_nth)
  have "falling (map (bucket_of gs) ?hs)" using fall by (simp add: falling_def comp_def)
  then have "find_bucket (map (bucket_of gs) ?hs) (BlockHeight g) = Some i"
    using i by (simp add: find_bucket_iff)
  moreover have same: "heights (gs @ [g]) = heights gs"
    using insert_falling_member [OF falling_heights] assms by (auto dest: in_set_takeD)
  have "distinct ?hs" using fall by (metis distinct_rev sorted_wrt_rev strict_sorted_iff)
  then have other: "?hs ! k \<noteq> BlockHeight g" if "k < length ?hs" "k \<noteq> i" for k
    using i that by (metis nth_eq_iff_index_eq)
  moreover have "(map (bucket_of gs) ?hs)[i := (bucket_of gs (BlockHeight g))
        \<lparr>GroupStats := (latest gs (BlockHeight g))(GroupID g \<mapsto> g)\<rparr>] = map (bucket_of (gs @ [g])) ?hs"
  proof (intro nth_equalityI)
    fix k assume "k < length ((map (bucket_of gs) ?hs)[i := (bucket_of gs (BlockHeight g))
        \<lparr>GroupStats := (latest gs (BlockHeight g))(GroupID g \<mapsto> g)\<rparr>])"
    then have "k < length ?hs" by simp
    with other [OF this] show "(map (bucket_of gs) ?hs)[i := (bucket_of gs (BlockHeight g))
        \<lparr>GroupStats := (latest gs (BlockHeight g))(GroupID g \<mapsto> g)\<rparr>] ! k = map (bucket_of (gs @ [g])) ?hs ! k"
      using i by (cases "k = i") (simp_all add: latest_snoc del: nth_take)
  qed simp
  ultimately show ?thesis using i by (simp add: insert_bucket_def same del: heights_snoc)
qed

lemma insert_bucket_new:
  assumes "BlockHeight g \<notin> set (take MaxGlobalStatsBuckets (heights gs))"
  shows "insert_bucket g (map (bucket_of gs) (take MaxGlobalStatsBuckets (heights gs)))
    = map (bucket_of (gs @ [g])) (take MaxGlobalStatsBuckets (heights (gs @ [g])))"
proof -
  let ?n = MaxGlobalStatsBuckets
  let ?hs = "take ?n (heights gs)"
  let ?new = "\<lparr>GroupStats = [GroupID g \<mapsto> g], BucketHeight = BlockHeight g\<rparr>"
  let ?F = "\<lambda>h. if h = BlockHeight g then ?new else bucket_of gs h"
  have fall: "sorted_wrt (>) ?hs" using falling_heights by (rule sorted_wrt_take)
  then have "falling (map (bucket_of gs) ?hs)" by (simp add: falling_def comp_def)
  then have none: "find_bucket (map (bucket_of gs) ?hs) (BlockHeight g) = None"
    using assms find_bucket_iff [of "map (bucket_of gs) ?hs" "BlockHeight g"] by (metis (no_types, lifting)
      StatisticBucket.select_convs(2) length_map not_None_eq nth_map nth_mem)
  have "map (bucket_of gs) ?hs @ [?new] = map ?F (?hs @ [BlockHeight g])" using assms by auto
  moreover have "map ?F (sort_stable (\<lambda>a b. b < a) (?hs @ [BlockHeight g]))
      = sort_stable (\<lambda>a b. BucketHeight b < BucketHeight a) (map ?F (?hs @ [BlockHeight g]))"
    by (rule sort_stable_map) simp
  ultimately have sorted: "sort_stable (\<lambda>a b. BucketHeight b < BucketHeight a) (map (bucket_of gs) ?hs @ [?new])
      = map ?F (insert_falling (BlockHeight g) ?hs)"
    unfolding sort_falling [OF fall assms] by (simp only:)
  have cut: "(if ?n < length xs then take ?n xs else xs) = take ?n xs" for xs :: "StatisticBucket list" by simp
  have "insert_bucket g (map (bucket_of gs) ?hs) = map ?F (take ?n (insert_falling (BlockHeight g) ?hs))"
    unfolding insert_bucket_def none option.case Let_def sorted cut by (rule take_map)
  also have "\<dots> = map ?F (take ?n (heights (gs @ [g])))" by (simp add: take_insert_falling)
  also have "\<dots> = map (bucket_of (gs @ [g])) (take ?n (heights (gs @ [g])))"
  proof (rule map_cong [OF refl])
    fix h assume h: "h \<in> set (take ?n (heights (gs @ [g])))"
    have "latest gs h = Map.empty" if "h = BlockHeight g"
    proof (rule latest_none)
      show "h \<notin> set (heights gs)"
        using h assms insert_falling_member [OF falling_heights] that by (metis heights_snoc)
    qed
    then show "?F h = bucket_of (gs @ [g]) h" by (auto simp: latest_snoc)
  qed
  finally show ?thesis .
qed

lemma tracker_buckets:
  "miningStatistics (foldl InsertStats NewGlobalStatTracker gs)
   = map (bucket_of gs) (take MaxGlobalStatsBuckets (heights gs))"
proof (induction gs rule: rev_induct)
  case (snoc g gs)
  then show ?case
    using insert_bucket_known [of g MaxGlobalStatsBuckets gs] insert_bucket_new [of g gs]
    by (simp add: InsertStats_def) blast
qed (simp add: NewGlobalStatTracker_def heights_def)

text \<open>
  C29. Whatever statistics the tracker was given, in whatever order of their heights, it answers a request
  for a height exactly when statistics for it have arrived and fewer than 250 of the heights that arrived
  are above it, and then with the last statistics that each group sent for it: sorting the buckets,
  searching them by halving and dropping the lowest loses nothing else, and a height that was dropped never
  comes back with a part of its groups.
\<close>

theorem stats_tracker_spec:
  "FetchStats (foldl InsertStats NewGlobalStatTracker gs) h
   = (if h \<in> set (map BlockHeight gs) \<and> card {h' \<in> set (map BlockHeight gs). h < h'} < 250
      then Some \<lparr>GroupStats = latest gs h, BucketHeight = h\<rparr> else None)"
proof -
  let ?hs = "take MaxGlobalStatsBuckets (heights gs)"
  let ?bs = "map (bucket_of gs) ?hs"
  have "sorted_wrt (>) ?hs" using falling_heights by (rule sorted_wrt_take)
  then have found: "\<And>i. find_bucket ?bs h = Some i \<longleftrightarrow> i < length ?bs \<and> BucketHeight (?bs ! i) = h"
    by (intro find_bucket_iff) (simp add: falling_def comp_def)
  have mem: "h \<in> set ?hs \<longleftrightarrow> h \<in> set (map BlockHeight gs) \<and> card {h' \<in> set (map BlockHeight gs). h < h'} < 250"
    using mem_take_falling [OF falling_heights] by (simp add: MaxGlobalStatsBuckets_def set_heights)
  show ?thesis
  proof (cases "h \<in> set ?hs")
    case True
    then obtain i where "i < length ?hs" "?hs ! i = h" by (metis in_set_conv_nth)
    moreover from this found have "find_bucket ?bs h = Some i" by simp
    ultimately show ?thesis using True mem by (simp add: FetchStats_def tracker_buckets)
  next
    case False
    have "find_bucket ?bs h = None"
    proof (cases "find_bucket ?bs h")
      case (Some i)
      then have i: "i < length ?bs" "BucketHeight (?bs ! i) = h" using found [of i] by blast+
      then have "i < length ?hs" by simp
      moreover from i nth_map [OF this, of "bucket_of gs"] have "?hs ! i = h" by simp
      ultimately have "h \<in> set ?hs" using nth_mem by blast
      with False show ?thesis ..
    qed
    then show ?thesis using False mem by (simp add: FetchStats_def tracker_buckets)
  qed
qed

end
