(* ===== verification/MinerCoordinator.thy ===== *)
theory MinerCoordinator
  imports MiningStats OprRecord Polling
begin

text \<open>
  The coordinator of the miners: mining/coordinator.go, and the writers of the entries,
  mining/entryWriter.go, with the makers of records of mining/oprmaker.go.

  The coordinator, each miner and the writer of each block are goroutines that talk over channels. A run
  is a list of events, each a step that one goroutine takes; any interleaving is such a list. An event
  that cannot happen in a state (a receive from an empty channel, an alert for a coordinator that waits
  for statistics) leaves it as it is.

  Writers and the channels for statistics are objects, kept in lists and named by their position.
  Channels are unbounded: where one is full in the program its sender waits, which is an interleaving in
  which it has no turns. A writer sorts the rankings in place; their miners have none of them left that
  they still read. The bodies of \<open>CollectAndWrite\<close> and of one attempt to write are one step.
\<close>

section \<open>entryWriter.go\<close>

text \<open>
  \<open>minerLists\<close> is what is in the channel, \<open>aggregate\<close> what the goroutine has taken from it; the
  goroutine exists when the writer is \<open>launched\<close>, and has \<open>returned\<close>. An \<open>EntryForwarder\<close> is a writer
  that \<open>forwards\<close>: all the chain of next writers does so.
\<close>

record EntryWriter =
  wKeep :: int
  oprTemplate :: "OraclePriceRecord option"
  ec :: string
  miners :: int
  Next :: "nat option"
  forwards :: bool
  minerLists :: "NonceRanking option list"
  aggregate :: "NonceRanking option list"
  launched :: bool
  returned :: bool

definition NewEntryWriter :: "int \<Rightarrow> EntryWriter" where
  "NewEntryWriter k = \<lparr>wKeep = k, oprTemplate = None, ec = [], miners = 0, Next = None, forwards = False,
     minerLists = [], aggregate = [], launched = False, returned = False\<rparr>"

definition NewEntryForwarder :: "int \<Rightarrow> EntryWriter" where
  "NewEntryForwarder k = (NewEntryWriter k)\<lparr>forwards := True\<rparr>"

definition PopulateECAddress :: "(string \<Rightarrow> string res) \<Rightarrow> (string \<Rightarrow> string res) \<Rightarrow> EntryWriter \<Rightarrow> EntryWriter res"
  where
  "PopulateECAddress c fetch_ec w =
     rbind (c ''Miner.ECAddress'') (\<lambda>s. rbind (fetch_ec s) (\<lambda>a. Inr (w\<lparr>ec := a\<rparr>)))"

definition NextBlockWriter :: "nat \<Rightarrow> EntryWriter list \<Rightarrow> nat \<times> EntryWriter list" where
  "NextBlockWriter i ws =
     (case Next (ws ! i) of
        Some n \<Rightarrow> (n, ws)
      | None \<Rightarrow> (length ws, ws[i := (ws ! i)\<lparr>Next := Some (length ws)\<rparr>]
          @ [if forwards (ws ! i) then NewEntryForwarder (wKeep (ws ! i))
             else (NewEntryWriter (wKeep (ws ! i)))\<lparr>ec := ec (ws ! i)\<rparr>]))"

definition AddMiner :: "nat \<Rightarrow> EntryWriter list \<Rightarrow> EntryWriter list" where
  "AddMiner i ws = ws[i := (ws ! i)\<lparr>miners := miners (ws ! i) + 1\<rparr>]"

definition SetOPR :: "nat \<Rightarrow> OraclePriceRecord \<Rightarrow> EntryWriter list \<Rightarrow> EntryWriter list" where
  "SetOPR i r ws =
     (if oprTemplate (ws ! i) = None then ws[i := (ws ! i)\<lparr>oprTemplate := Some (CloneEntryData r)\<rparr>] else ws)"

definition CollectAndWrite :: "nat \<Rightarrow> EntryWriter list \<Rightarrow> EntryWriter list" where
  "CollectAndWrite i ws = ws[i := (ws ! i)\<lparr>launched := True\<rparr>]"

definition send_ranking :: "nat \<times> NonceRanking \<Rightarrow> EntryWriter list \<Rightarrow> EntryWriter list" where
  "send_ranking m ws = (case m of (i, r) \<Rightarrow> ws[i := (ws ! i)\<lparr>minerLists := minerLists (ws ! i) @ [Some r]\<rparr>])"

definition Cancel :: "nat \<Rightarrow> EntryWriter list \<Rightarrow> EntryWriter list" where
  "Cancel i ws = ws[i := (ws ! i)\<lparr>miners := miners (ws ! i) - 1, minerLists := minerLists (ws ! i) @ [None]\<rparr>]"

text \<open>
  The outside of the package. \<open>submit_ok\<close> is whether the n-th attempt to commit and reveal an entry
  succeeds; \<open>tries\<close> is how many more the backoff allows after it. \<open>clock\<close> gives the times that the
  statistics of a miner carry.
\<close>

record 'w mining_env =
  lx :: "byte list \<Rightarrow> byte list"
  nsort :: "(UniqueOPRData option \<Rightarrow> UniqueOPRData option \<Rightarrow> bool) \<Rightarrow> UniqueOPRData option list
     \<Rightarrow> UniqueOPRData option list"
  mconfig :: "string \<Rightarrow> string res"
  mconfig_int :: "string \<Rightarrow> int res"
  fetch_ec :: "string \<Rightarrow> string res"
  balance :: "string \<Rightarrow> 'w \<Rightarrow> int res"
  new_opr :: "32 word \<Rightarrow> 'w \<Rightarrow> OraclePriceRecord res \<times> 'w"
  mdec :: "string \<Rightarrow> byte list"
  mjson_float :: "f64 \<Rightarrow> string res"
  mjson_record :: "OraclePriceRecord \<Rightarrow> string \<Rightarrow> byte list res"
  mpmarshal :: "ProtoOPR \<Rightarrow> byte list res"
  submit_ok :: "nat \<Rightarrow> bool"
  tries :: "nat \<Rightarrow> nat"
  clock :: "SingleMinerStats \<Rightarrow> int \<times> int"

text \<open>What has left the writers: the attempts with their success, and the entries forwarded.\<close>

record written =
  attempted :: "(FactomEntry \<times> bool) list"
  forwarded :: "FactomEntry list"

definition mine_entry :: "'w mining_env \<Rightarrow> OraclePriceRecord \<Rightarrow> UniqueOPRData \<Rightarrow> FactomEntry res" where
  "mine_entry env t u = CreateOPREntry (mdec env) (mjson_float env) (mjson_record env) (mpmarshal env) t
     (UNonce u) (UDifficulty u)"

definition marshalled :: "'w mining_env \<Rightarrow> OraclePriceRecord \<Rightarrow> OraclePriceRecord" where
  "marshalled env t = snd (SafeMarshal (mjson_float env) (mjson_record env) (mpmarshal env) t)"

definition write_operation :: "'w mining_env \<Rightarrow> UniqueOPRData \<Rightarrow> OraclePriceRecord \<Rightarrow> written
     \<Rightarrow> OraclePriceRecord \<times> written \<times> unit res" where
  "write_operation env u t out =
     (case mine_entry env t u of
        Inl e \<Rightarrow> (marshalled env t, out, Inl e)
      | Inr entry \<Rightarrow>
         (let ok = submit_ok env (length (attempted out)) in
          (marshalled env t, out\<lparr>attempted := attempted out @ [(entry, ok)]\<rparr>,
           if ok then Inr () else Inl (GoError ''Unable to commit entry to factom''))))"

text \<open>\<open>backoff.Retry\<close>: an error is tried again, a panic ends the process.\<close>

fun retry_write :: "nat \<Rightarrow> 'w mining_env \<Rightarrow> UniqueOPRData \<Rightarrow> OraclePriceRecord \<Rightarrow> written
     \<Rightarrow> OraclePriceRecord \<times> written \<times> unit res" where
  "retry_write 0 env u t out = write_operation env u t out"
| "retry_write (Suc n) env u t out =
     (case write_operation env u t out of
        (t1, out1, Inr _) \<Rightarrow> (t1, out1, Inr ())
      | (t1, out1, Inl e) \<Rightarrow>
          (if is_panic (Inl e :: unit res) then (t1, out1, Inl e) else retry_write n env u t1 out1))"

definition writeMiningRecord :: "'w mining_env \<Rightarrow> UniqueOPRData \<Rightarrow> OraclePriceRecord \<Rightarrow> written
     \<Rightarrow> OraclePriceRecord \<times> written \<times> unit res" where
  "writeMiningRecord env u t out = retry_write (tries env (length (attempted out))) env u t out"

definition forwardMiningRecord :: "'w mining_env \<Rightarrow> UniqueOPRData \<Rightarrow> OraclePriceRecord \<Rightarrow> written
     \<Rightarrow> OraclePriceRecord \<times> written \<times> unit res" where
  "forwardMiningRecord env u t out =
     (case mine_entry env t u of
        Inl e \<Rightarrow> (marshalled env t, out, Inl e)
      | Inr entry \<Rightarrow> (marshalled env t, out\<lparr>forwarded := forwarded out @ [entry]\<rparr>, Inr ()))"

text \<open>
  \<open>EntryWritingFunction\<close> for one nonce, and the loop over all of them: an error is only logged.
\<close>

definition write_nonce :: "'w mining_env \<Rightarrow> UniqueOPRData option \<Rightarrow> EntryWriter \<Rightarrow> written
     \<Rightarrow> (EntryWriter \<times> written) res" where
  "write_nonce env u w out =
     (case oprTemplate w of
        None \<Rightarrow> Inr (w, out)
      | Some t \<Rightarrow>
         (case u of
            None \<Rightarrow> Inl (Panic ''nil pointer dereference'')
          | Some v \<Rightarrow>
             (case (if forwards w then forwardMiningRecord else writeMiningRecord) env v t out of
                (t1, out1, e) \<Rightarrow>
                  (if is_panic e then Inl (Panic ''panic while writing'')
                   else Inr (w\<lparr>oprTemplate := Some t1\<rparr>, out1)))))"

definition write_nonces :: "'w mining_env \<Rightarrow> UniqueOPRData option list \<Rightarrow> EntryWriter \<Rightarrow> written
     \<Rightarrow> (EntryWriter \<times> written) res" where
  "write_nonces env us w out = res_fold (\<lambda>(w, out) u. write_nonce env u w out) (w, out) us"

text \<open>
  A turn of the goroutine that \<open>CollectAndWrite\<close> starts: it takes a ranking, and after the last one
  merges them and writes.
\<close>

definition writer_turn :: "'w mining_env \<Rightarrow> EntryWriter \<Rightarrow> written \<Rightarrow> (EntryWriter \<times> written) res" where
  "writer_turn env w out =
     (if \<not> launched w \<or> returned w then Inr (w, out)
      else (case minerLists w of
         [] \<Rightarrow> Inr (w, out)
       | l # ls \<Rightarrow>
          (let w1 = w\<lparr>minerLists := ls, aggregate := aggregate w @ [l]\<rparr> in
           if int (length (aggregate w1)) = miners w1
           then (case collectAndWrite (nsort env) (wKeep w1) (length (aggregate w1)) (aggregate w1) of
                   None \<Rightarrow> Inr (w1, out)
                 | Some nonces \<Rightarrow> rbind nonces (\<lambda>us. write_nonces env us (w1\<lparr>returned := True\<rparr>) out))
           else Inr (w1, out))))"

section \<open>coordinator.go\<close>

record ControlledMiner =
  phase :: miner_phase
  Miner :: PegnetMiner
  CommandChannel :: "MinerCommand list"

text \<open>
  \<open>FactomEntryWriter\<close> is a position in \<open>writers\<close>, \<open>statsAggregate\<close> one in \<open>statsLists\<close>. \<open>collecting\<close> is
  the group that minute 9 fills, with the number of statistics it has taken.
\<close>

record 'w MiningCoordinator =
  FactomEntryWriter :: nat
  writers :: "EntryWriter list"
  Miners :: "ControlledMiner list"
  mining :: bool
  stopped :: bool
  statsAggregate :: nat
  statsLists :: "SingleMinerStats list list"
  collecting :: "(GroupMinerStats \<times> nat) option"
  MiningStatsChannel :: "GroupMinerStats list"
  records :: written
  outside :: 'w

definition no_output :: written where "no_output = \<lparr>attempted = [], forwarded = []\<rparr>"

text \<open>The coordinator with the first writer; the client of a network coordinator sets a forwarder.\<close>

definition coordinator_with :: "EntryWriter \<Rightarrow> 'w \<Rightarrow> 'w MiningCoordinator" where
  "coordinator_with writer w =
     \<lparr>FactomEntryWriter = 0, writers = [writer], Miners = [], mining = False, stopped = False,
      statsAggregate = 0, statsLists = [], collecting = None, MiningStatsChannel = [], records = no_output,
      outside = w\<rparr>"

definition NewMiningCoordinatorFromConfig :: "'w mining_env \<Rightarrow> 'w \<Rightarrow> 'w MiningCoordinator res" where
  "NewMiningCoordinatorFromConfig env w =
     rbind (check_panic (mconfig_int env ''Miner.RecordsPerBlock'')) (\<lambda>k.
     rbind (check_panic (PopulateECAddress (mconfig env) (fetch_ec env) (NewEntryWriter k))) (\<lambda>writer.
     Inr (coordinator_with writer w)))"

definition NewMiner :: "'w mining_env \<Rightarrow> int \<Rightarrow> ControlledMiner res" where
  "NewMiner env i =
     rbind (NewPegnetMinerFromConfig
         (case mconfig_int env ''Miner.RecordsPerBlock'' of Inl _ \<Rightarrow> 0 | Inr k \<Rightarrow> k) i) (\<lambda>p.
     Inr \<lparr>phase = Starting, Miner = p, CommandChannel = []\<rparr>)"

definition InitMinters :: "'w mining_env \<Rightarrow> 'w MiningCoordinator \<Rightarrow> 'w MiningCoordinator res" where
  "InitMinters env c =
     rbind (mconfig_int env ''Miner.NumberOfMiners'') (\<lambda>n.
     guard_res (n < 0) (Panic ''makeslice: len out of range'')
     (rbind (res_map (NewMiner env) [0..n - 1]) (\<lambda>ms. Inr (c\<lparr>Miners := ms\<rparr>))))"

definition SendCommand :: "MinerCommand \<Rightarrow> ControlledMiner \<Rightarrow> ControlledMiner" where
  "SendCommand command m = m\<lparr>CommandChannel := CommandChannel m @ [command]\<rparr>"

definition ECBalance :: "'w mining_env \<Rightarrow> EntryWriter \<Rightarrow> 'w \<Rightarrow> int res" where
  "ECBalance env w o_w = (if forwards w then Inr 1 else balance env (ec w) o_w)"

definition begin_mining :: "'w mining_env \<Rightarrow> OraclePriceRecord \<Rightarrow> 'w MiningCoordinator
     \<Rightarrow> 'w MiningCoordinator res" where
  "begin_mining env r c =
     rbind (GetHash (mjson_float env) (mjson_record env) (mpmarshal env) r) (\<lambda>(oprHash, r1).
     (case NextBlockWriter (FactomEntryWriter c) (writers c) of
        (n, ws) \<Rightarrow> Inr (c\<lparr>FactomEntryWriter := n, writers := SetOPR n r1 ws, mining := True,
          statsAggregate := length (statsLists c), statsLists := statsLists c @ [[]],
          Miners := map (SendCommand (start_batch n (length (statsLists c)) oprHash (OprMinimumDifficulty r1)))
            (Miners c)\<rparr>)))"

definition minute_one :: "'w mining_env \<Rightarrow> 32 word \<Rightarrow> 'w MiningCoordinator \<Rightarrow> 'w MiningCoordinator res" where
  "minute_one env dbht c =
     (case ECBalance env (writers c ! FactomEntryWriter c) (outside c) of
        Inl _ \<Rightarrow> Inr c
      | Inr bal \<Rightarrow>
         (if bal = 0 \<or> mining c then Inr c
          else case new_opr env dbht (outside c) of
              (Inl e, w) \<Rightarrow>
                (if is_panic (Inl e :: unit res) then Inl e else Inr (c\<lparr>outside := w\<rparr>))
            | (Inr r, w) \<Rightarrow> begin_mining env r (c\<lparr>outside := w\<rparr>)))"

definition minute_nine :: "32 word \<Rightarrow> 'w MiningCoordinator \<Rightarrow> 'w MiningCoordinator" where
  "minute_nine dbht c =
     (if mining c
      then c\<lparr>mining := False, Miners := map (SendCommand end_batch) (Miners c),
             writers := CollectAndWrite (FactomEntryWriter c) (writers c),
             collecting := Some (NewGroupMinerStats ''main'' (sint dbht), 0)\<rparr>
      else c)"

text \<open>The loop over the statistics; with no miners it never ends.\<close>

definition timed :: "'w mining_env \<Rightarrow> SingleMinerStats \<Rightarrow> TimedMinerStats" where
  "timed env s = SingleMinerStats.extend s \<lparr>Start = fst (clock env s), Stop = snd (clock env s)\<rparr>"

definition collect_turn :: "'w mining_env \<Rightarrow> 'w MiningCoordinator \<Rightarrow> 'w MiningCoordinator" where
  "collect_turn env c =
     (case (collecting c, statsLists c ! statsAggregate c) of
        (Some (g, cm), s # ss) \<Rightarrow>
          (let g1 = g\<lparr>GroupMinerStats.Miners := AList.update (StatsID s) (timed env s) (GroupMinerStats.Miners g)\<rparr>;
               c1 = c\<lparr>statsLists := (statsLists c)[statsAggregate c := ss]\<rparr> in
           if cm + 1 = length (Miners c)
           then c1\<lparr>collecting := None, MiningStatsChannel := MiningStatsChannel c @ [g1]\<rparr>
           else c1\<lparr>collecting := Some (g1, cm + 1)\<rparr>)
      | _ \<Rightarrow> c)"

text \<open>
  A turn of a miner. A batch adds the miner to the writers in it; what the miner sends is delivered. A
  goroutine that blocks for ever is stopped.
\<close>

fun aggregators :: "MinerCommand \<Rightarrow> nat list" where
  "aggregators (BatchCommand cs) = concat (map aggregators cs)"
| "aggregators (RecordAggregator w) = [w]"
| "aggregators _ = []"

definition send_stats :: "nat \<times> SingleMinerStats \<Rightarrow> SingleMinerStats list list \<Rightarrow> SingleMinerStats list list"
  where "send_stats m chs = (case m of (i, s) \<Rightarrow> chs[i := chs ! i @ [s]])"

definition miner_acts :: "'w mining_env \<Rightarrow> miner_event \<Rightarrow> nat \<Rightarrow> 'w MiningCoordinator
     \<Rightarrow> 'w MiningCoordinator res" where
  "miner_acts env e i c =
     (let m = Miners c ! i in
      case mine_step (lx env) e (phase m, Miner m) of
        Inl (Panic msg) \<Rightarrow> Inl (Panic msg)
      | Inl _ \<Rightarrow> Inr (c\<lparr>Miners := (Miners c)[i := m\<lparr>phase := Stopped\<rparr>]\<rparr>)
      | Inr (ph, p) \<Rightarrow>
          Inr (c\<lparr>Miners := (Miners c)[i := m\<lparr>phase := ph, Miner := p\<lparr>outbox := [], statsbox := []\<rparr>\<rparr>],
                 writers := fold send_ranking (outbox p)
                   (fold AddMiner (case e of Command b \<Rightarrow> aggregators b | _ \<Rightarrow> []) (writers c)),
                 statsLists := fold send_stats (statsbox p) (statsLists c)\<rparr>))"

definition miner_turn :: "'w mining_env \<Rightarrow> nat \<Rightarrow> 'w MiningCoordinator \<Rightarrow> 'w MiningCoordinator res" where
  "miner_turn env i c =
     (let m = Miners c ! i in
      if length (Miners c) \<le> i \<or> phase m = Stopped then Inr c
      else case CommandChannel m of
         [] \<Rightarrow> miner_acts env Nothing i c
       | b # bs \<Rightarrow> miner_acts env (Command b) i (c\<lparr>Miners := (Miners c)[i := m\<lparr>CommandChannel := bs\<rparr>]\<rparr>))"

text \<open>The events of a run: alerts of the monitor, turns of the goroutines, the end of their context.\<close>

datatype mining_event =
    Alert "32 word" int
  | Turn nat
  | Write nat
  | Collected
  | Done
  | MinerDone nat

definition alert_step :: "'w mining_env \<Rightarrow> 32 word \<Rightarrow> int \<Rightarrow> 'w MiningCoordinator
     \<Rightarrow> 'w MiningCoordinator res" where
  "alert_step env dbht minute c =
     (if stopped c \<or> collecting c \<noteq> None then Inr c
      else if minute = 1 then minute_one env dbht c
      else if minute = 9 then Inr (minute_nine dbht c)
      else Inr c)"

definition mining_step :: "'w mining_env \<Rightarrow> 'w MiningCoordinator \<Rightarrow> mining_event \<Rightarrow> 'w MiningCoordinator res"
  where
  "mining_step env c e = (case e of
     Alert dbht minute \<Rightarrow> alert_step env dbht minute c
   | Turn i \<Rightarrow> miner_turn env i c
   | Write n \<Rightarrow>
       (if length (writers c) \<le> n then Inr c
        else rbind (writer_turn env (writers c ! n) (records c)) (\<lambda>(w, out).
          Inr (c\<lparr>writers := (writers c)[n := w], records := out\<rparr>)))
   | Collected \<Rightarrow> Inr (collect_turn env c)
   | Done \<Rightarrow> Inr (if collecting c = None then c\<lparr>stopped := True\<rparr> else c)
   | MinerDone i \<Rightarrow> (if length (Miners c) \<le> i then Inr c else miner_acts env Cancelled i c))"

definition LaunchMiners :: "'w mining_env \<Rightarrow> mining_event list \<Rightarrow> 'w MiningCoordinator
     \<Rightarrow> 'w MiningCoordinator res" where
  "LaunchMiners env es c = res_fold (mining_step env) c es"

section \<open>oprmaker.go\<close>

text \<open>
  The maker of a network miner: its state is what is in its channel, a missing record is one that could
  not be made. With an empty channel it waits, the result is \<open>None\<close>. The message of its error reads the
  record it was given first.
\<close>

type_synonym BlockingOPRMaker = "OraclePriceRecord option list"

definition Drain :: "BlockingOPRMaker \<Rightarrow> BlockingOPRMaker" where "Drain b = []"

definition RecOPR :: "OraclePriceRecord option \<Rightarrow> BlockingOPRMaker \<Rightarrow> BlockingOPRMaker" where
  "RecOPR r b = b @ [r]"

fun drain_to :: "32 word \<Rightarrow> BlockingOPRMaker \<Rightarrow> OraclePriceRecord option \<times> BlockingOPRMaker" where
  "drain_to dbht [] = (None, [])"
| "drain_to dbht (r # b) =
     (case r of
        Some x \<Rightarrow> if OraclePriceRecord.Dbht x = dbht then (Some x, b) else drain_to dbht b
      | None \<Rightarrow> drain_to dbht b)"

definition Blocking_NewOPR :: "32 word \<Rightarrow> BlockingOPRMaker
     \<Rightarrow> (OraclePriceRecord res \<times> BlockingOPRMaker) option" where
  "Blocking_NewOPR dbht b =
     (case b of
        [] \<Rightarrow> None
      | None # b1 \<Rightarrow> Some (Inl (GoError ''opr failed to be created''), b1)
      | Some r # b1 \<Rightarrow>
         (if OraclePriceRecord.Dbht r = dbht then Some (Inr r, b1)
          else case drain_to dbht b1 of
                 (Some x, b2) \<Rightarrow> Some (Inr x, b2)
               | (None, b2) \<Rightarrow> Some (Inl (GoError ''not the right height''), b2)))"

end
