(* ===== verification/Difficulty.thy ===== *)
theory Difficulty
  imports OprRecord Float_Eval
begin

text \<open>
  opr/difficulty.go: the least difficulty worth writing, estimated from the graded records of the last
  block.

  It computes with \<open>big.Float\<close> of package math/big: numbers made from a float64 have 53 bits, and so
  have the results, rounded to nearest even. Exponents have 32 bits, more than is ever reached here.
  Operations without a result, such as the quotient of two infinities, panic. The sign of a zero is
  not represented.
\<close>

section \<open>math/big\<close>

datatype big_float = BFin rat | BInf bool

definition round53 :: "rat \<Rightarrow> rat" where
  "round53 x = (if x = 0 then 0
     else of_int (round_half_even (x / pow2 (ilog2 \<bar>x\<bar> - 52))) * pow2 (ilog2 \<bar>x\<bar> - 52))"

fun NewFloat :: "f64 \<Rightarrow> big_float res" where
  "NewFloat (Fin x) = Inr (BFin x)"
| "NewFloat (Inf s) = Inr (BInf s)"
| "NewFloat NaN = Inl (Panic ''NewFloat(NaN)'')"

fun big_Mul :: "big_float \<Rightarrow> big_float \<Rightarrow> big_float res" where
  "big_Mul (BFin x) (BFin y) = Inr (BFin (round53 (x * y)))"
| "big_Mul (BFin x) (BInf s) =
     (if x = 0 then Inl (Panic ''multiplication of zero with infinity'') else Inr (BInf (s \<longleftrightarrow> 0 < x)))"
| "big_Mul (BInf s) (BFin x) =
     (if x = 0 then Inl (Panic ''multiplication of zero with infinity'') else Inr (BInf (s \<longleftrightarrow> 0 < x)))"
| "big_Mul (BInf s) (BInf t) = Inr (BInf (s \<longleftrightarrow> t))"

fun big_Sub :: "big_float \<Rightarrow> big_float \<Rightarrow> big_float res" where
  "big_Sub (BFin x) (BFin y) = Inr (BFin (round53 (x - y)))"
| "big_Sub (BFin x) (BInf s) = Inr (BInf (\<not> s))"
| "big_Sub (BInf s) (BFin x) = Inr (BInf s)"
| "big_Sub (BInf s) (BInf t) =
     (if s = t then Inl (Panic ''subtraction of infinities with equal signs'') else Inr (BInf s))"

fun big_Quo :: "big_float \<Rightarrow> big_float \<Rightarrow> big_float res" where
  "big_Quo (BFin x) (BFin y) =
     (if y = 0 then (if x = 0 then Inl (Panic ''division of zero by zero or infinity by infinity'')
                     else Inr (BInf (0 < x)))
      else Inr (BFin (round53 (x / y))))"
| "big_Quo (BFin x) (BInf s) = Inr (BFin 0)"
| "big_Quo (BInf s) (BFin y) = Inr (BInf (s \<longleftrightarrow> 0 \<le> y))"
| "big_Quo (BInf s) (BInf t) = Inl (Panic ''division of zero by zero or infinity by infinity'')"

fun big_Float64 :: "big_float \<Rightarrow> f64" where
  "big_Float64 (BFin x) = rnd x"
| "big_Float64 (BInf s) = Inf s"

section \<open>difficulty.go\<close>

definition MiningPeriod :: rat where "MiningPeriod = 480"

text \<open>\<open>math.MaxUint64\<close> as a float64.\<close>

definition space :: f64 where "space = f64_const (2 ^ 64 - 1)"

definition EffectiveHashRate :: "u64 \<Rightarrow> int \<Rightarrow> f64 res" where
  "EffectiveHashRate low spot =
     rbind (NewFloat (f64_of_u64 low)) (\<lambda>minF.
     rbind (NewFloat space) (\<lambda>sp.
     rbind (NewFloat (f64_of_int spot)) (\<lambda>minSpot.
     rbind (big_Mul minSpot sp) (\<lambda>num.
     rbind (big_Sub sp minF) (\<lambda>den.
     rbind (big_Quo num den) (\<lambda>ehr.
     rbind (NewFloat (f64_const MiningPeriod)) (\<lambda>period.
     rbind (big_Quo ehr period) (\<lambda>ehr. Inr (big_Float64 ehr)))))))))"

definition ExpectedMinimumDifficulty :: "(f64 \<Rightarrow> u64) \<Rightarrow> f64 \<Rightarrow> int \<Rightarrow> u64 res" where
  "ExpectedMinimumDifficulty oob hashrate spot =
     rbind (NewFloat space) (\<lambda>sp.
     rbind (NewFloat (fmul hashrate (f64_const MiningPeriod))) (\<lambda>ehrF.
     rbind (NewFloat (f64_of_int spot)) (\<lambda>s.
     rbind (big_Sub ehrF s) (\<lambda>spotF.
     rbind (big_Mul sp spotF) (\<lambda>num.
     rbind (big_Quo num ehrF) (\<lambda>expMin. Inr (u64_of_f64 oob (big_Float64 expMin))))))))"

definition CalculateMinimumDifficulty :: "(f64 \<Rightarrow> u64) \<Rightarrow> int \<Rightarrow> u64 \<Rightarrow> int \<Rightarrow> u64 res" where
  "CalculateMinimumDifficulty oob spot difficulty cutoff =
     rbind (EffectiveHashRate difficulty spot) (\<lambda>hashrate.
       ExpectedMinimumDifficulty oob hashrate cutoff)"

definition CalculateMinimumDifficultyFromOPRs ::
  "(f64 \<Rightarrow> u64) \<Rightarrow> OraclePriceRecord list \<Rightarrow> int \<Rightarrow> u64 res" where
  "CalculateMinimumDifficultyFromOPRs oob oprs cutoff =
     (if length oprs \<ge> 50 then CalculateMinimumDifficulty oob 50 (Difficulty (oprs ! 49)) cutoff
      else if oprs = [] then Inl (Panic ''index out of range'')
      else CalculateMinimumDifficulty oob (int (length oprs)) (Difficulty (oprs ! (length oprs - 1))) cutoff)"

section \<open>Rounding to 53 bits\<close>

lemma round53_rel:
  assumes "0 < x"
  shows "\<bar>round53 x - x\<bar> \<le> x / 2 ^ 53"
proof -
  let ?k = "ilog2 x" and ?u = "pow2 (ilog2 x - 52)"
  have u: "?u = pow2 ?k / 2 ^ 52" by (simp add: pow2_diff) (simp add: pow2_def)
  have "\<bar>of_int (round_half_even (x / ?u)) - x / ?u\<bar> \<le> 1 / 2" by (rule round_half_even_error)
  then have "\<bar>of_int (round_half_even (x / ?u)) - x / ?u\<bar> * ?u \<le> 1 / 2 * ?u"
    by (intro mult_right_mono) simp_all
  moreover have "\<bar>a - x / ?u\<bar> * ?u = \<bar>a * ?u - x\<bar>" for a
    using abs_mult_pos [of ?u "a - x / ?u"] by (simp add: left_diff_distrib)
  then have "\<bar>of_int (round_half_even (x / ?u)) - x / ?u\<bar> * ?u = \<bar>round53 x - x\<bar>"
    using assms by (simp add: round53_def)
  moreover have "1 / 2 * ?u \<le> x / 2 ^ 53"
    using ilog2_bounds [OF assms] by (simp add: u field_simps)
  ultimately show ?thesis by linarith
qed

lemma round53_neg: "round53 (- x) = - round53 x"
  by (simp add: round53_def round_half_even_neg)

text \<open>\<open>x\<close> is \<open>y\<close> up to \<open>k\<close> relative errors of 2^-52.\<close>

definition within_eps :: "nat \<Rightarrow> rat \<Rightarrow> rat \<Rightarrow> bool" where
  "within_eps k x y \<longleftrightarrow> 0 < y \<and> \<bar>x - y\<bar> \<le> y * (of_nat k / 2 ^ 52)"

lemma within_refl: "0 < y \<Longrightarrow> within_eps 0 y y"
  by (simp add: within_eps_def)

lemma within_bounds:
  assumes "within_eps k x y" "k \<le> 100"
  shows "y / 2 \<le> x" "x \<le> 2 * y" "0 < x"
proof -
  have y: "0 < y" "\<bar>x - y\<bar> \<le> y * (of_nat k / 2 ^ 52)" using assms(1) by (simp_all add: within_eps_def)
  have "y * (of_nat k / 2 ^ 52) \<le> y * (1 / 2)"
    using assms(2) y(1) by (intro mult_left_mono) simp_all
  then show "y / 2 \<le> x" "x \<le> 2 * y" "0 < x" using y by linarith+
qed

lemma within_round:
  assumes "within_eps k x y" "k \<le> 100"
  shows "within_eps (Suc k) (round53 x) y"
proof -
  have "\<bar>round53 x - x\<bar> \<le> x / 2 ^ 53" using within_bounds [OF assms] by (intro round53_rel)
  also have "\<dots> \<le> y / 2 ^ 52" using within_bounds [OF assms] by simp
  finally have "\<bar>round53 x - y\<bar> \<le> y / 2 ^ 52 + y * (of_nat k / 2 ^ 52)"
    using assms(1) by (simp only: within_eps_def) linarith
  also have "\<dots> = y * (of_nat (Suc k) / 2 ^ 52)" by (simp add: field_simps)
  finally show ?thesis using assms(1) by (simp add: within_eps_def)
qed

lemma within_scale: "within_eps k x y \<Longrightarrow> 0 < a \<Longrightarrow> within_eps k (a * x) (a * y)"
  by (simp add: within_eps_def flip: right_diff_distrib add: abs_mult mult.assoc)

lemma within_inverse:
  assumes "within_eps k x y" "k \<le> 100" "0 < a"
  shows "within_eps (Suc k) (a / x) (a / y)"
proof -
  note b = within_bounds [OF assms(1,2)]
  have y: "0 < y" using assms(1) by (simp add: within_eps_def)
  have e: "\<bar>x - y\<bar> \<le> y * (of_nat k / 2 ^ 52)" using assms(1) by (simp add: within_eps_def)
  then have x: "y * (1 - of_nat k / 2 ^ 52) \<le> x" by (simp only: right_diff_distrib)
  have "of_nat k * of_nat (Suc k) \<le> (100 * 101 :: rat)"
    using assms(2) by (intro mult_mono) simp_all
  then have k: "of_nat k \<le> of_nat (Suc k) * (1 - of_nat k / 2 ^ 52 :: rat)" by (simp add: field_simps)
  have "y * of_nat k \<le> y * (of_nat (Suc k) * (1 - of_nat k / 2 ^ 52))"
    using k y by (intro mult_left_mono) simp_all
  also have "\<dots> = of_nat (Suc k) * (y * (1 - of_nat k / 2 ^ 52))" by (simp only: ac_simps)
  also have "\<dots> \<le> of_nat (Suc k) * x" using x by (intro mult_left_mono) simp_all
  finally have "y * of_nat k / 2 ^ 52 \<le> of_nat (Suc k) * x / 2 ^ 52" by (intro divide_right_mono) simp_all
  then have "\<bar>y - x\<bar> \<le> of_nat (Suc k) * x / 2 ^ 52" using e by (simp only: abs_minus_commute times_divide_eq_right)
  then have "a * \<bar>y - x\<bar> \<le> a * (of_nat (Suc k) * x / 2 ^ 52)" using assms(3) by (intro mult_left_mono) simp_all
  moreover have "\<bar>a / x - a / y\<bar> = a * \<bar>y - x\<bar> / (x * y)"
    using b y assms(3) by (simp add: diff_frac_eq abs_mult abs_divide flip: right_diff_distrib)
  ultimately show ?thesis
    using b y assms(3) by (simp add: within_eps_def field_simps)
qed

lemma rnd_round53:
  assumes "pow2 (- 1022) \<le> x" "x < pow2 1023"
  shows "rnd x = Fin (round53 x)"
proof -
  have x: "0 < x" using assms(1) pow2_pos [of "- 1022"] by linarith
  have "pow2 (- 1022) < pow2 (ilog2 x + 1)" using ilog2_bounds [OF x] assms(1) by linarith
  then have "rnd_val x = round53 x"
    using x by (simp add: rnd_val_def round53_def ulp_exp_def)
  moreover have "\<bar>round53 x - x\<bar> \<le> x / 2 ^ 53" by (rule round53_rel [OF x])
  moreover have "x / 2 ^ 53 < x" using x by simp
  moreover have "pow2 1024 = 2 * pow2 1023" by (simp add: pow2_def)
  ultimately have "rnd_val x < pow2 1024" "- pow2 1024 < rnd_val x"
    using assms(2) x pow2_pos [of 1023] by linarith+
  then show ?thesis using \<open>rnd_val x = round53 x\<close> by (simp add: rnd_def Let_def)
qed

section \<open>The estimate\<close>

lemma space_eq: "space = Fin (2 ^ 64)"
  unfolding space_def f64_const_def
  by (simp add: rnd_at [of 63] float_eval)

lemma period_eq: "f64_const MiningPeriod = Fin 480"
  unfolding MiningPeriod_def f64_const_def
  by (simp add: rnd_at [of 8] float_eval)

text \<open>The difficulties from 2^64 - 1024 on are 2^64 as floats; the others stay below, as integers.\<close>

lemma rnd_val_u64:
  assumes "0 \<le> n" "n < 2 ^ 64"
  shows "\<bar>rnd_val (of_int n) - of_int n\<bar> \<le> 1024" "0 \<le> rnd_val (of_int n)"
proof -
  show "0 \<le> rnd_val (of_int n)" using assms by (intro rnd_val_nonneg) simp
  let ?x = "of_int n :: rat" let ?u = "pow2 (ulp_exp ?x)"
  show "\<bar>rnd_val ?x - ?x\<bar> \<le> 1024"
  proof (cases "n = 0")
    case False
    then have "pow2 (ilog2 ?x) < pow2 64" using assms ilog2_bounds [of ?x] by (simp add: pow2_def)
    then have "ulp_exp ?x \<le> 11" using assms by (simp add: ulp_exp_def)
    then have "?u \<le> pow2 11" by simp
    have "\<bar>of_int (round_half_even (?x / ?u)) - ?x / ?u\<bar> * ?u \<le> 1 / 2 * ?u"
      by (intro mult_right_mono round_half_even_error) simp
    moreover have "\<bar>a - ?x / ?u\<bar> * ?u = \<bar>a * ?u - ?x\<bar>" for a
      using abs_mult_pos [of ?u "a - ?x / ?u"] by (simp add: left_diff_distrib)
    ultimately show ?thesis
      using False \<open>?u \<le> pow2 11\<close> by (simp add: rnd_val_def pow2_def)
  qed simp
qed

lemma f64_of_u64_eq: "f64_of_u64 d = Fin (rnd_val (of_int (uint d)))"
proof -
  have "rnd_val (of_int (uint d)) \<le> of_int (uint d) + 1024"
    using rnd_val_u64 [of "uint d"] uint_bounded [of d] by simp
  also have "\<dots> < pow2 1024"
  proof -
    have "of_int (uint d) < (2 ^ 64 :: rat)" using uint_bounded [of d] by (simp flip: of_int_less_iff [where 'a = rat])
    moreover have "pow2 1024 = (2 :: rat) ^ 1024" by (simp add: pow2_def)
    ultimately show ?thesis by simp
  qed
  finally show ?thesis
    using rnd_val_u64(2) [of "uint d"] uint_bounded [of d] pow2_pos [of 1024]
    by (simp add: f64_of_u64_def f64_of_int_def rnd_def Let_def)
qed

lemma round53_nonpos: "x \<le> 0 \<Longrightarrow> round53 x \<le> 0"
proof -
  assume "x \<le> 0"
  have "0 \<le> round53 (- x)" if "x \<noteq> 0"
    using within_bounds(3) [OF within_round [OF within_refl]] that \<open>x \<le> 0\<close> by (simp add: less_imp_le)
  then show ?thesis by (cases "x = 0") (simp_all add: round53_neg round53_def [of 0])
qed

lemma within_trans:
  assumes "within_eps j x y" "within_eps k y z" "j \<le> 100" "k \<le> 100"
  shows "within_eps (j + k + 1) x z"
proof -
  have z: "0 < z" "\<bar>y - z\<bar> \<le> z * (of_nat k / 2 ^ 52)" and x: "\<bar>x - y\<bar> \<le> y * (of_nat j / 2 ^ 52)"
    using assms(1,2) by (simp_all add: within_eps_def)
  have "y \<le> z * (1 + of_nat k / 2 ^ 52)" using z by (simp only: distrib_left)
  then have "y * (of_nat j / 2 ^ 52) \<le> z * (1 + of_nat k / 2 ^ 52) * (of_nat j / 2 ^ 52)"
    by (intro mult_right_mono) simp_all
  with x z have "\<bar>x - z\<bar> \<le> z * (1 + of_nat k / 2 ^ 52) * (of_nat j / 2 ^ 52) + z * (of_nat k / 2 ^ 52)"
    by linarith
  also have "\<dots> = z * ((of_nat j + of_nat k + of_nat k * of_nat j / 2 ^ 52) / 2 ^ 52)"
    by (simp add: field_simps)
  also have "\<dots> \<le> z * (of_nat (j + k + 1) / 2 ^ 52)"
  proof (intro mult_left_mono divide_right_mono)
    have "of_nat k * of_nat j \<le> (100 * 100 :: rat)" using assms(3,4) by (intro mult_mono) simp_all
    then show "of_nat j + of_nat k + of_nat k * of_nat j / 2 ^ 52 \<le> (of_nat (j + k + 1) :: rat)" by simp
  qed (use z in simp_all)
  finally show ?thesis using z by (simp add: within_eps_def)
qed

text \<open>A float of this size takes one rounding more.\<close>

lemma within_rnd:
  assumes "within_eps k x y" "k \<le> 100" "pow2 (- 1000) \<le> y" "y \<le> pow2 1000"
  shows "\<exists>z. rnd x = Fin z \<and> within_eps (Suc k) z y"
proof -
  have "pow2 (- 1000) = 2 * pow2 (- 1001)" "pow2 1001 = 2 * pow2 1000" by (simp_all add: pow2_def)
  then have "pow2 (- 1001) \<le> x" "x \<le> pow2 1001"
    using within_bounds [OF assms(1,2)] assms(3,4) by linarith+
  moreover have "pow2 (- 1022) \<le> pow2 (- 1001)" "pow2 1001 < pow2 1023" by simp_all
  ultimately have "rnd x = Fin (round53 x)" by (intro rnd_round53) linarith+
  then show ?thesis using within_round [OF assms(1,2)] by simp
qed

lemma hash_rate_within:
  assumes "f64_of_u64 d = Fin m" "1 \<le> 2 ^ 64 - m" "0 \<le> m" "0 < spot" "spot \<le> 50"
  shows "\<exists>h e. EffectiveHashRate d spot = Inr (Fin h) \<and> fmul (Fin h) (Fin 480) = Fin e
    \<and> within_eps 8 e (of_int spot * 2 ^ 64 / (2 ^ 64 - m))"
proof -
  let ?D = "2 ^ 64 - m" and ?s = "of_int spot :: rat"
  let ?num = "round53 (?s * 2 ^ 64)" and ?den = "round53 ?D"
  let ?E = "?s * 2 ^ 64 / ?D" and ?q = "round53 (round53 (?num / ?den) / 480)"
  have s: "f64_of_int spot = Fin ?s" "1 \<le> ?s" "?s \<le> 50"
    using assms(4,5) by (simp_all add: f64_of_int_def rnd_int)
  have D: "0 < ?D" "?D \<le> 2 ^ 64" using assms(2,3) by simp_all
  have den: "within_eps 1 ?den ?D" using within_round [OF within_refl [OF D(1)]] by simp
  have num: "within_eps 1 ?num (?s * 2 ^ 64)" using s within_round [OF within_refl [of "?s * 2 ^ 64"]] by simp
  have "within_eps 2 (?num / ?den) (?num / ?D)"
    using within_inverse [OF den _ within_bounds(3) [OF num]] by (simp add: numeral_2_eq_2)
  moreover have "within_eps 1 (?num / ?D) ?E"
    using within_scale [OF num, of "1 / ?D"] D by simp
  ultimately have "within_eps 4 (?num / ?den) ?E" using within_trans [of 2 _ _ 1] by fastforce
  then have "within_eps 5 (round53 (?num / ?den)) ?E" using within_round [of 4] by fastforce
  then have "within_eps 5 (round53 (?num / ?den) / 480) (?E / 480)"
    using within_scale [of 5 "round53 (?num / ?den)" ?E "1 / 480"] by (simp only: times_divide_eq_left mult_1)
  then have q: "within_eps 6 ?q (?E / 480)" using within_round [of 5] by fastforce
  have "?s * 2 ^ 64 / 2 ^ 64 \<le> ?E" using s D by (intro divide_left_mono) simp_all
  moreover have "?E \<le> 50 * 2 ^ 64 / 1" using s assms(2) by (intro frac_le mult_right_mono) simp_all
  ultimately have E: "1 \<le> ?E" "?E \<le> 50 * 2 ^ 64" using s by simp_all
  have p: "pow2 (- 1000) \<le> 1 / 480" "50 * 2 ^ 64 \<le> pow2 1000" by (simp_all add: pow2_def)
  have r: "pow2 (- 1000) \<le> X" "X \<le> pow2 1000" "pow2 (- 1000) \<le> X / 480" "X / 480 \<le> pow2 1000"
    if "1 \<le> X" "X \<le> 50 * 2 ^ 64" for X :: rat
    using that p by linarith+
  obtain h where h: "rnd ?q = Fin h" "within_eps 7 h (?E / 480)"
    using within_rnd [OF q _ r(3,4) [OF E]] by auto
  have "within_eps 7 (h * 480) X" if "within_eps 7 h (X / 480)" for X
    using within_scale [OF that, of 480] by (simp add: mult.commute)
  then have "within_eps 7 (h * 480) ?E" using h(2) by blast
  then obtain e where e: "rnd (h * 480) = Fin e" "within_eps 8 e ?E"
    using within_rnd [OF _ _ r(1,2) [OF E]] by fastforce
  have "?den \<noteq> 0" using within_bounds(3) [OF den] by simp
  then have "EffectiveHashRate d spot = Inr (Fin h)"
    using assms(1) s(1) h(1) by (simp add: EffectiveHashRate_def space_eq period_eq)
  then show ?thesis using e by simp
qed

lemma expected_eq:
  assumes "fmul (Fin h) (Fin 480) = Fin e" "0 < e" "\<bar>cutoff\<bar> \<le> 2 ^ 53"
  shows "ExpectedMinimumDifficulty oob (Fin h) cutoff =
    Inr (u64_of_f64 oob (rnd (round53 (round53 (2 ^ 64 * round53 (e - of_int cutoff)) / e))))"
  using assms by (simp add: ExpectedMinimumDifficulty_def space_eq period_eq f64_of_int_def rnd_int)

definition spot_of :: "OraclePriceRecord list \<Rightarrow> nat" where
  "spot_of oprs = min 50 (length oprs)"

definition least_graded :: "OraclePriceRecord list \<Rightarrow> u64" where
  "least_graded oprs = Difficulty (oprs ! (spot_of oprs - 1))"

lemma from_oprs:
  "oprs \<noteq> [] \<Longrightarrow> CalculateMinimumDifficultyFromOPRs oob oprs cutoff
     = CalculateMinimumDifficulty oob (int (spot_of oprs)) (least_graded oprs) cutoff"
  by (simp add: CalculateMinimumDifficultyFromOPRs_def spot_of_def least_graded_def min_def)

lemma large_difficulty:
  assumes "2 ^ 64 - 1024 \<le> uint d"
  shows "f64_of_u64 d = Fin (2 ^ 64)"
proof -
  have d: "rat_of_int (uint d) \<le> 2 ^ 64" using uint_bounded [of d] by (simp flip: of_int_less_iff [where 'a = rat])
  have "(2 ^ 64 - 1024 :: rat) \<le> of_int (uint d)"
    using assms by (simp flip: of_int_le_iff [where 'a = rat])
  then have "rnd_val (2 ^ 64 - 1024) \<le> rnd_val (of_int (uint d))" "rnd_val (of_int (uint d)) \<le> rnd_val (pow2 64)"
    using d by (auto intro!: rnd_val_mono simp: pow2_def)
  moreover have "rnd_val (2 ^ 64 - 1024) = 2 ^ 64"
  proof -
    have "rnd (2 ^ 64 - 1024) = Fin (2 ^ 64)" by (simp add: rnd_at [of 63] float_eval)
    then show ?thesis by (simp add: rnd_def Let_def split: if_splits)
  qed
  moreover have "rnd_val (pow2 64) = 2 ^ 64" by (simp add: rnd_val_pow2) (simp add: pow2_def)
  ultimately show ?thesis by (simp add: f64_of_u64_eq)
qed

lemma small_difficulty:
  assumes "uint d < 2 ^ 64 - 1024"
  obtains m where "f64_of_u64 d = Fin m" "0 \<le> m" "1 \<le> 2 ^ 64 - m" "\<bar>m - of_int (uint d)\<bar> \<le> 1024"
proof -
  note b = rnd_val_u64 [of "uint d"]
  have "(of_int (uint d) :: rat) \<le> of_int (2 ^ 64 - 1025)"
    unfolding of_int_le_iff using assms by simp
  with b uint_bounded [of d] show ?thesis
    by (intro that [of "rnd_val (of_int (uint d))"]) (simp_all add: f64_of_u64_eq)
qed

text \<open>
  C35. The estimate from graded records returns, unless the 50th of them, or the last, has a difficulty
  that is 2^64 as a float: then the hash rate is infinite, and the quotient of two infinities panics.
\<close>

theorem estimate_panics:
  assumes "oprs \<noteq> []" "\<bar>cutoff\<bar> \<le> 2 ^ 53"
  shows "if uint (least_graded oprs) < 2 ^ 64 - 1024
    then \<exists>n. CalculateMinimumDifficultyFromOPRs oob oprs cutoff = Inr n
    else is_panic (CalculateMinimumDifficultyFromOPRs oob oprs cutoff)"
proof -
  let ?d = "least_graded oprs" and ?s = "int (spot_of oprs)"
  have s: "0 < ?s" "?s \<le> 50" using assms(1) by (simp_all add: spot_of_def)
  show ?thesis
  proof (cases "uint ?d < 2 ^ 64 - 1024")
    case True
    then obtain m where m: "f64_of_u64 ?d = Fin m" "0 \<le> m" "1 \<le> 2 ^ 64 - m"
      by (rule small_difficulty)
    obtain h e where h: "EffectiveHashRate ?d ?s = Inr (Fin h)" "fmul (Fin h) (Fin 480) = Fin e"
      "within_eps 8 e (of_int ?s * 2 ^ 64 / (2 ^ 64 - m))"
      using hash_rate_within [OF m(1,3,2) s] by blast
    then have "0 < e" using within_bounds(3) by fastforce
    then show ?thesis
      using True h(1) expected_eq [OF h(2) _ assms(2)]
      by (simp add: from_oprs [OF assms(1)] CalculateMinimumDifficulty_def)
  next
    case False
    then have "f64_of_u64 ?d = Fin (2 ^ 64)" by (intro large_difficulty) simp
    moreover have "round53 (of_int ?s * 2 ^ 64) > 0"
      using s within_bounds(3) [OF within_round [OF within_refl]] by simp
    moreover have "f64_of_int ?s = Fin (of_int ?s)"
      unfolding f64_of_int_def using s by (intro rnd_int) simp
    ultimately have "EffectiveHashRate ?d ?s = Inr (Inf True)"
      by (simp add: EffectiveHashRate_def space_eq period_eq round53_def [of 0])
    then show ?thesis
      using False assms(2)
      by (simp add: from_oprs [OF assms(1)] CalculateMinimumDifficulty_def ExpectedMinimumDifficulty_def
          space_eq period_eq f64_of_int_def rnd_int)
  qed
qed

theorem estimate_panics_witness:
  "is_panic (CalculateMinimumDifficultyFromOPRs (\<lambda>_. 0) [NewOraclePriceRecord\<lparr>Difficulty := - 1\<rparr>] 200)"
proof -
  let ?r = "NewOraclePriceRecord\<lparr>Difficulty := - 1\<rparr>"
  have "least_graded [?r] = - 1" by (simp add: least_graded_def spot_of_def)
  moreover have "uint (- 1 :: u64) = 2 ^ 64 - 1" by code_simp
  ultimately have "\<not> uint (least_graded [?r]) < 2 ^ 64 - 1024" by (simp only:)
  with estimate_panics [of "[?r]" 200 "\<lambda>_. 0"] show ?thesis by simp
qed

text \<open>The part of the interval above the estimate: the share of the hashes that reach it, as 64 bits.\<close>

definition share_above :: "nat \<Rightarrow> rat \<Rightarrow> int \<Rightarrow> rat" where
  "share_above spot m cutoff = of_int cutoff * (2 ^ 64 - m) / of_nat spot"

lemma expected_accurate:
  assumes "within_eps 8 e (of_nat spot * 2 ^ 64 / (2 ^ 64 - m))" "0 < cutoff" "0 < spot" "m < 2 ^ 64"
    and "share_above spot m cutoff \<le> 2 ^ 63"
  shows "\<exists>z. rnd (round53 (round53 (2 ^ 64 * round53 (e - of_int cutoff)) / e)) = Fin z
    \<and> \<bar>z - (2 ^ 64 - share_above spot m cutoff)\<bar> \<le> 34816"
proof -
  let ?S = "2 ^ 64 :: rat" and ?c = "of_int cutoff :: rat" and ?E = "of_nat spot * 2 ^ 64 / (2 ^ 64 - m)"
  define w W where "w = ?c / e" and "W = ?c / ?E"
  have e: "0 < e" using within_bounds(3) [OF assms(1)] by simp
  have share: "?S * W = share_above spot m cutoff" using assms(3,4) by (simp add: share_above_def W_def field_simps)
  have W: "0 < W" using assms(2,3,4) by (simp add: W_def)
  have "0 < w" using assms(2) e by (simp add: w_def)
  have "?S * W \<le> 2 ^ 63" using share assms(5) by simp
  then have W2: "W \<le> 1 / 2" by simp
  have w: "within_eps 9 w W" unfolding w_def W_def using within_inverse [OF assms(1)] assms(2) by fastforce
  have wW: "\<bar>w - W\<bar> \<le> W * (9 / 2 ^ 52)" using w by (simp add: within_eps_def)
  also have "\<dots> \<le> 1 / 2 * (9 / 2 ^ 52)" using W2 by (intro mult_right_mono) simp_all
  finally have d: "\<bar>w - W\<bar> \<le> 9 / 2 ^ 53" by simp
  have w1: "1 / 4 \<le> 1 - w" "1 - w \<le> 1" using order_trans [OF abs_ge_self d] W2 \<open>0 < w\<close> by simp_all
  have ec: "e - ?c = e * (1 - w)" using e by (simp add: w_def right_diff_distrib)
  let ?n = "round53 (?S * round53 (e - ?c))"
  have "0 < e * (1 - w)" using e w1 by simp
  then have "within_eps 1 (round53 (e - ?c)) (e * (1 - w))"
    using within_round [OF within_refl] by (simp add: ec)
  then have "within_eps 1 (?S * round53 (e - ?c)) (?S * (e * (1 - w)))" by (intro within_scale) simp_all
  from within_round [OF this] have "within_eps 2 ?n (?S * (e * (1 - w)))" by (simp add: numeral_2_eq_2)
  from within_scale [OF this, of "1 / e"] have "within_eps 2 (?n / e) (?S * (1 - w))"
    using e by (simp add: mult.left_commute [of _ e])
  from within_round [OF this] have r: "within_eps 3 (round53 (?n / e)) (?S * (1 - w))"
    by (simp add: numeral_3_eq_3 numeral_2_eq_2)
  have p: "pow2 (- 1000) \<le> ?S * (1 / 4)" "?S * 1 \<le> pow2 1000" by (simp_all add: pow2_def)
  have lo: "pow2 (- 1000) \<le> ?S * (1 - w)"
    by (rule order_trans [OF p(1)], rule mult_left_mono [OF w1(1)]) simp
  have hi: "?S * (1 - w) \<le> pow2 1000"
    by (rule order_trans [OF _ p(2)], rule mult_left_mono [OF w1(2)]) simp
  obtain z where z: "rnd (round53 (round53 (?S * round53 (e - ?c)) / e)) = Fin z"
    "within_eps 4 z (?S * (1 - w))"
    using within_rnd [OF r _ lo hi] by auto
  have "\<bar>z - ?S * (1 - w)\<bar> \<le> ?S * (1 - w) * (4 / 2 ^ 52)" using z(2) by (simp add: within_eps_def)
  also have "\<dots> \<le> ?S * 1 * (4 / 2 ^ 52)" by (intro mult_left_mono mult_right_mono) (use w1 in simp_all)
  finally have "\<bar>z - ?S * (1 - w)\<bar> \<le> 16384" by simp
  moreover have "?S * \<bar>w - W\<bar> \<le> ?S * (9 / 2 ^ 53)" by (rule mult_left_mono [OF d]) simp
  then have "\<bar>?S * (w - W)\<bar> \<le> 18432" unfolding abs_mult by simp
  ultimately have "\<bar>z - ?S * (1 - w) - ?S * (w - W)\<bar> \<le> 34816"
    using abs_triangle_ineq4 [of "z - ?S * (1 - w)" "?S * (w - W)"] by linarith
  also have "z - ?S * (1 - w) - ?S * (w - W) = z - (?S - ?S * W)" by (simp add: algebra_simps)
  finally have "\<bar>z - (?S - ?S * W)\<bar> \<le> 34816" .
  then show ?thesis using z(1) by (simp only: share) blast
qed

text \<open>
  C34. When the share of the hashes that are to reach the cutoff is between 2^17 and 2^63 of 2^64, the
  estimate is that share below 2^64, as it would be in exact arithmetic, up to 2^16. \<open>m\<close> is the
  difficulty of the last record looked at, rounded to a float.
\<close>

theorem estimate_accurate:
  assumes "oprs \<noteq> []" "f64_of_u64 (least_graded oprs) = Fin m" "0 < cutoff" "cutoff \<le> 2 ^ 53"
    and "2 ^ 17 \<le> share_above (spot_of oprs) m cutoff" "share_above (spot_of oprs) m cutoff \<le> 2 ^ 63"
  shows "\<exists>n. CalculateMinimumDifficultyFromOPRs oob oprs cutoff = Inr n
    \<and> \<bar>of_int (uint n) - (2 ^ 64 - share_above (spot_of oprs) m cutoff)\<bar> \<le> 2 ^ 16"
proof -
  let ?d = "least_graded oprs" and ?s = "spot_of oprs"
  have s: "0 < int ?s" "int ?s \<le> 50" using assms(1) by (simp_all add: spot_of_def)
  have "uint ?d < 2 ^ 64 - 1024"
  proof (rule ccontr)
    assume "\<not> uint ?d < 2 ^ 64 - 1024"
    then have "m = 2 ^ 64" using large_difficulty [of ?d] assms(2) by simp
    then show False using assms(5) by (simp add: share_above_def)
  qed
  then have m: "0 \<le> m" "1 \<le> 2 ^ 64 - m" using small_difficulty [of ?d] assms(2) by force+
  obtain h e where h: "EffectiveHashRate ?d (int ?s) = Inr (Fin h)" "fmul (Fin h) (Fin 480) = Fin e"
    "within_eps 8 e (of_nat ?s * 2 ^ 64 / (2 ^ 64 - m))"
    using hash_rate_within [OF assms(2) m(2,1) s] by auto
  obtain z where z: "rnd (round53 (round53 (2 ^ 64 * round53 (e - of_int cutoff)) / e)) = Fin z"
    "\<bar>z - (2 ^ 64 - share_above ?s m cutoff)\<bar> \<le> 34816"
    using expected_accurate [OF h(3) assms(3) _ _ assms(6)] s m by auto
  then have "0 \<le> z" "z < 2 ^ 64" using assms(5,6) by (simp_all add: abs_le_iff)
  moreover from this have "0 \<le> \<lfloor>z\<rfloor>" "\<lfloor>z\<rfloor> < 2 ^ 64" by (simp_all add: floor_less_iff)
  ultimately have "uint (u64_of_f64 oob (Fin z)) = \<lfloor>z\<rfloor>"
    by (simp add: trunc_rat_def uint_word_of_int)
  moreover have "\<bar>k - y\<bar> \<le> 2 ^ 16" if "k \<le> z" "z - 1 \<le> k" "\<bar>z - y\<bar> \<le> 34816" for k y
    using that by (simp add: abs_le_iff)
  from this [of "of_int \<lfloor>z\<rfloor>"] have "\<bar>of_int \<lfloor>z\<rfloor> - (2 ^ 64 - share_above ?s m cutoff)\<bar> \<le> 2 ^ 16"
    using z(2) of_int_floor_le [of z] floor_correct [of z] by (simp add: diff_le_eq less_imp_le)
  moreover have "CalculateMinimumDifficultyFromOPRs oob oprs cutoff = Inr (u64_of_f64 oob (Fin z))"
    using h(1) z(1) expected_eq [OF h(2) within_bounds(3) [OF h(3)], of cutoff oob] assms(3,4)
    by (simp add: from_oprs [OF assms(1)] CalculateMinimumDifficulty_def)
  ultimately show ?thesis
    by (intro exI [of _ "u64_of_f64 oob (Fin z)"]) (simp del: u64_of_f64.simps)
qed

theorem estimate_accurate_witness:
  "\<exists>n. CalculateMinimumDifficultyFromOPRs (\<lambda>_. 0) [NewOraclePriceRecord\<lparr>Difficulty := - (2 ^ 40)\<rparr>] 1 = Inr n
    \<and> \<bar>of_int (uint n) - (2 ^ 64 - 2 ^ 40 :: rat)\<bar> \<le> 2 ^ 16"
proof -
  let ?r = "NewOraclePriceRecord\<lparr>Difficulty := - (2 ^ 40)\<rparr>"
  have spot: "spot_of [?r] = 1" "least_graded [?r] = - (2 ^ 40)" by (simp_all add: least_graded_def spot_of_def)
  have "uint (- (2 ^ 40) :: u64) = 2 ^ 64 - 2 ^ 40" by simp
  then have "f64_of_u64 (least_graded [?r]) = rnd (2 ^ 64 - 2 ^ 40)"
    unfolding spot f64_of_u64_def f64_of_int_def by simp
  then have m: "f64_of_u64 (least_graded [?r]) = Fin (2 ^ 64 - 2 ^ 40)"
    by (simp add: rnd_at [of 63] float_eval)
  have "share_above (spot_of [?r]) (2 ^ 64 - 2 ^ 40) 1 = 2 ^ 40"
    unfolding spot share_above_def by simp
  with estimate_accurate [OF _ m, of 1 "\<lambda>_. 0"] show ?thesis by simp
qed

end
