(* ===== verification/NewOpr.thy ===== *)
theory NewOpr
  imports Difficulty Poller GraderSync TransactionId
begin

text \<open>
  Making the oracle price record of a block: \<open>NewOpr\<close> and \<open>GetOPRecord\<close> of opr/opr.go, and the test
  addresses of common/debug.go.

  The record is filled from the configuration, the winners that the grader announces, the estimate of
  the difficulty, and the prices polled. The message of the grader is an argument: \<open>None\<close> when the
  context ends before it comes.
\<close>

text \<open>Pairs of a private and a public address.\<close>

definition DebugFCTaddresses :: "string list list" where
  "DebugFCTaddresses =
     [[''Fs33uWZaASt8iUqDRJZBkgBFykpwajzuPAj6gUEdReqHoCSk3WCt'',
       ''FA291Sdfzz57f3RTv8kmi9g1HrZ4Y1BnYXwVNhSDkf9Nyfta1f4o''],
      [''Fs23XpqaDHWLcDQe7sFovB3CqqK7VLG96qVRpVEXZ52ZutGCVZU7'',
       ''FA2Bbn2qvSXcgeSLLsevWg1oNZjHn39Xo1Rn2iyZDLuzC6SfFhj6''],
      [''Fs2enTYpkUH4EGbwtq3qJDfEQTfkYraHr8hZ1swPsC3Sumg1FAaz'',
       ''FA2C3nch6NiGURuh3j4GaKeawHGmMmaTTe6r4xSmppf2BUwuydDj''],
      [''Fs35tkXm4jaDwpoxRFBno7kzBiqHjA8nufzJhJmLD48hVbtNeu2J'',
       ''FA2LTZNM46u9XPjgXnYaNr5mhbCLjzbwzPbQtTxFxA72zR7uxHjS''],
      [''Fs1Rq3UeGdnyqygUatsXMZrCXbvNW7qsqEknkhh4uUthkodZShp3'',
       ''FA2PqtqtLyamnkRM7ZrurWPsoLKCmhXwvA2aTRX2S21XSR4kDhHn''],
      [''Fs2R1SH1qfPa6nJ25k1gP9KDPzWXbwYNGqTsR36NR3EaF7fJZbpj'',
       ''FA2SZH8QFM3XetWnLK4R79MsoFe2mLA36Sy6sCBXeHoomf7ktYJW''],
      [''Fs2qjj62NSTrkGrV8ednhdcKJqQp6rvdo33AdYimo83KWg8CHF3t'',
       ''FA2TScrp3eki4PNWqdUDwaMJ93x19VfBf7FaCcBBJXPqUgQWAYKF''],
      [''Fs2PkX5GswxWzzuRjZRRSbmFRzzNf5b7GKCUm5PisSsBSzLruNLx'',
       ''FA2hFNQoHVhyPqZ2okWkfoBhTQAwWgCkY2Mn9XWPP2ZvMSxyiWZn''],
      [''Fs2hC5xhbYQMMM6guYRmzkSEtX5A4tmmnzQEM94PrxXTXd6PiF8Y'',
       ''FA2mu6xaKF4bMcNY8uRBRt6MgiBubEZfyDprwKNW1ZdaXBQwEtfg''],
      [''Fs2mD5Qw5xacemWoEfrKxjrjYqJAGpuEw24eddon2V7WCEZmteey'',
       ''FA2vF2d5GyyPcuWRXmJTcGGCdWNA3SJitFtJAVMS5o2sd3Nf7PmC''],
      [''Fs23PZiMYSXL3XYuP237puKRHCiAMQ5zSECqeYk2MkF9XZSK9dfP'',
       ''FA2vH6v3MEbFF3VV2CNNQCiBEQZ9udcJkiLzd5Fmsqcb8umCdeN4''],
      [''Fs2225JS9aKpGV6FiWjqZX4Q13H9rUZ7xuTPG5U9CXU4jgBMmp1R'',
       ''FA2xFnPoLJQ4ykkcTRxp8VnGDsVUMfQckQChBock5Yk9jHuPSXWu''],
      [''Fs1PshjkKanMC5XdLsseGJCntAehmv8hiGJn1Rk2fqfRdUQqriBW'',
       ''FA2yhhCMxa2v6Y5kPU1P9djbFwQdTPcBLkGvvF5U2pmqf5cqkV21''],
      [''Fs2psHU64RphmcL6AzZAQXhQGKzM1xCiHxsj6BtDUE3fKY22u6yc'',
       ''FA31sttHRuVrgUxE5Ck69dZf1Mo4XmeAEYyq5TPQHrvbYEgrVpSz''],
      [''Fs2FoqwVtpi3X5N5w9yKsELg6KwWq1Vr3Vo1CxsKekspavXaWVUz'',
       ''FA3B4YAssKzQitEXDDzBqow2y9MfVgdvUF2znKWx2DJALXuJefX9''],
      [''Fs1zuNwQYBS6eQdj3ZYSLMjPu9j2xZG3X3auC8BuKKsJj9yt31nn'',
       ''FA3CjY8UW8H2Chui5HDhEALR1eBDLcyHCMBCvpW39U2nczikNvNF''],
      [''Fs2y7HDD1mnEX4hBeU87kUpJuE7WTrdEhTEHdMiQMQgj49a6uqQs'',
       ''FA3NYYvFVTCaiA8XpARXvFwZfvxnVhJ4FrxVVmCHNjXiaqZUYc28''],
      [''Fs2dFa1noAxL8Zb4GReRsHuf1o4xnbPDrvMRfoKu9cFUELiuEVpP'',
       ''FA3P45WgAxNhtzQ1mWEooCaLzVp8qXSFV5MZH74PLupjL6HZsGaV''],
      [''Fs2kmMon4z5UKu6vbgcABp3PA8ZBSQMiD7e4X4EQHpafdZUD6q76'',
       ''FA3inqojrQ1hPh6WWZQDegabBA49cu4R25p6XaKKvVYFmbCqyvRS''],
      [''Fs1X5uzwEtNtjX6xoDnhcsfmSfurDk8A8rV49FbAe9QsJeHEeee5'',
       ''FA3qqDA1wzyhZ1ppNgjyfvFrEDw9RtKoDHofUDrqJe7Y7r5xqEBD'']]"

record 'w opr_env =
  opoll :: "'w poll_env"
  oenc :: "byte list \<Rightarrow> string"
  odec :: "string \<Rightarrow> byte list"
  ojson_float :: "f64 \<Rightarrow> string res"
  ojson_record :: "OraclePriceRecord \<Rightarrow> string \<Rightarrow> byte list res"
  opmarshal :: "ProtoOPR \<Rightarrow> byte list res"
  oIsValidAddress :: "string \<Rightarrow> bool"

section \<open>The settings\<close>

definition identity_of :: "config \<Rightarrow> int \<Rightarrow> string res" where
  "identity_of c minerNumber =
     (case c ''Miner.IdentityChain'' of
        Inl _ \<Rightarrow> Inl (GoError ''config file has no Miner.IdentityChain specified'')
      | Inr did \<Rightarrow> Inr (if minerNumber > 0 then did @ ''miner'' @ pad_int 3 minerNumber else did))"

definition protocol_network :: "config \<Rightarrow> (string \<times> string) res" where
  "protocol_network c =
     (case c ''Miner.Protocol'' of
        Inl _ \<Rightarrow> Inl (GoError ''config file has no Miner.Protocol specified'')
      | Inr protocol \<Rightarrow>
         (case LoadConfigNetwork c of
            Inl _ \<Rightarrow> Inl (GoError ''config file has no Miner.Network specified'')
          | Inr network \<Rightarrow> Inr (protocol, network)))"

definition coinbase_address :: "config \<Rightarrow> string \<Rightarrow> int \<Rightarrow> string res" where
  "coinbase_address c network minerNumber =
     (if network = TestNetwork \<and> minerNumber \<noteq> 0
      then guard_res (minerNumber < 0 \<or> int (length DebugFCTaddresses) \<le> minerNumber)
             (Panic ''index out of range'') (Inr (DebugFCTaddresses ! nat minerNumber ! 1))
      else case c ''Miner.CoinbaseAddress'' of
             Inl _ \<Rightarrow> Inl (GoError ''config file has no Coinbase PEG Address'')
           | Inr str \<Rightarrow> Inr str)"

text \<open>A token address that cannot be made is only logged, and left empty.\<close>

definition coinbase_peg :: "'w opr_env \<Rightarrow> string \<Rightarrow> string \<Rightarrow> string res" where
  "coinbase_peg env network addr =
     (case ConvertFCTtoPegNetAsset (oenc env) (odec env) network ''PEG'' addr of
        Inl (Panic m) \<Rightarrow> Inl (Panic m)
      | Inl _ \<Rightarrow> Inr []
      | Inr a \<Rightarrow> Inr a)"

section \<open>The block before\<close>

definition short_hash :: "OraclePriceRecord \<Rightarrow> string res" where
  "short_hash w = guard_res (length (EntryHash w) < 8) (Panic ''slice bounds out of range'')
     (Inr (hexEncode (take 8 (EntryHash w))))"

definition bootstrap_winners :: "byte \<Rightarrow> nat" where
  "bootstrap_winners v = (if v = 1 then 10 else if v = 2 \<or> v = 3 \<or> v = 4 \<or> v = 5 then 25 else 0)"

definition previous_winners :: "byte \<Rightarrow> OPRs \<Rightarrow> string list res" where
  "previous_winners v winners =
     (if length (ToBePaid winners) > 0 then res_map short_hash (ToBePaid winners)
      else Inr (replicate (bootstrap_winners v) []))"

definition difficulty_floor :: "'w opr_env \<Rightarrow> OPRs \<Rightarrow> u64 res" where
  "difficulty_floor env winners =
     (let cutoff = (case pconfig_int (opoll env) ConfigSubmissionCutOff of Inl _ \<Rightarrow> 0 | Inr n \<Rightarrow> n) in
      if MsgGradedOPRs winners \<noteq> [] \<and> cutoff > 0
      then CalculateMinimumDifficultyFromOPRs (poob_u64 (opoll env))
             (sort_stable (\<lambda>a b. Difficulty b < Difficulty a) (MsgGradedOPRs winners)) cutoff
      else Inr 0)"

section \<open>The record\<close>

definition GetOPRecord :: "'w opr_env \<Rightarrow> config \<Rightarrow> OraclePriceRecord \<Rightarrow> 'w poller
     \<Rightarrow> OraclePriceRecord res \<times> 'w poller" where
  "GetOPRecord env c r st =
     (case poll_prices (opoll env) c (OraclePriceRecord.Version r) st of
        (prices, st') \<Rightarrow>
          (rbind prices (\<lambda>peg.
           rbind (SetPegValues (poob_u64 (opoll env)) r (map (\<lambda>(a, i). (a, ItemValue i)) peg)) (\<lambda>r1.
           (case SafeMarshal (ojson_float env) (ojson_record env) (opmarshal env) r1 of
              (Inl e, _) \<Rightarrow> Inl (Panic (err_msg e))
            | (Inr bs, r2) \<Rightarrow> Inr (r2\<lparr>OPRHash := sha256 bs\<rparr>)))), st'))"

text \<open>What is known before the prices: the record up to the winners and the least difficulty.\<close>

definition opr_template :: "'w opr_env \<Rightarrow> config \<Rightarrow> int \<Rightarrow> 32 word \<Rightarrow> OPRs option
     \<Rightarrow> OraclePriceRecord res" where
  "opr_template env c minerNumber dbht alert =
     rbind (identity_of c minerNumber) (\<lambda>did.
     rbind (protocol_network c) (\<lambda>(protocol, network).
     rbind (OPRVersion network (sint dbht)) (\<lambda>v.
     rbind (coinbase_address c network minerNumber) (\<lambda>addr.
     rbind (coinbase_peg env network addr) (\<lambda>peg.
     (case alert of
        None \<Rightarrow> Inl (GoError ''context canceled'')
      | Some winners \<Rightarrow>
         (case MsgError winners of
            Some e \<Rightarrow> Inl e
          | None \<Rightarrow>
             rbind (previous_winners v winners) (\<lambda>names.
             rbind (difficulty_floor env winners) (\<lambda>low.
             Inr (NewOraclePriceRecord\<lparr>Protocol := protocol, Network := network,
               OPRChainID := oenc env (ComputeChainIDFromStrings [protocol, network, OPRChainTag]),
               CoinbasePEGAddress := peg, OprMinimumDifficulty := low, Version := v,
               CoinbaseAddress := addr, Dbht := dbht, WinPreviousOPR := names,
               FactomDigitalID := did\<rparr>)))))))))) "

definition NewOpr :: "'w opr_env \<Rightarrow> config \<Rightarrow> int \<Rightarrow> 32 word \<Rightarrow> OPRs option \<Rightarrow> 'w poller
     \<Rightarrow> OraclePriceRecord res \<times> 'w poller" where
  "NewOpr env c minerNumber dbht alert st =
     (case opr_template env c minerNumber dbht alert of
        Inl e \<Rightarrow> (Inl e, st)
      | Inr r \<Rightarrow>
         (case GetOPRecord env c r st of
            (got, st') \<Rightarrow>
              (rbind got (\<lambda>r1.
               rbind (ValidateOPR (oIsValidAddress env) (network_or_empty (LoadConfigNetwork c)) (sint dbht) r1)
                 (\<lambda>ok. if ok then Inr r1
                       else if \<not> NetworkActive (Network r1) (sint dbht)
                       then Inl (GoError ''Waiting for activation height'')
                       else Inl (GoError ''opr invalid''))), st')))"

end
