(* ===== verification/NewOpr_Correct.thy ===== *)
theory NewOpr_Correct
  imports NewOpr OprEntry
begin

text \<open>
  Records made by package opr. What \<open>NewOpr\<close> makes is a valid record for its height, with the prices polled, the winners announced,
  and the hash of its own content.
\<close>

abbreviation opr_marshal :: "'w opr_env \<Rightarrow> OraclePriceRecord \<Rightarrow> byte list res \<times> OraclePriceRecord" where
  "opr_marshal env \<equiv> SafeMarshal (ojson_float env) (ojson_record env) (opmarshal env)"

lemma opr_template_Inr:
  assumes "opr_template env c minerNumber dbht alert = Inr r"
  shows "\<exists>winners. alert = Some winners \<and> MsgError winners = None
     \<and> previous_winners (OraclePriceRecord.Version r) winners = Inr (OraclePriceRecord.WinPreviousOPR r)
     \<and> difficulty_floor env winners = Inr (OprMinimumDifficulty r)
     \<and> OPRVersion (Network r) (sint dbht) = Inr (OraclePriceRecord.Version r)
     \<and> OraclePriceRecord.Dbht r = dbht \<and> OraclePriceRecord.Assets r = Some []"
  using assms
  by (auto simp: opr_template_def res_simps NewOraclePriceRecord_def split: option.splits prod.splits)

lemma SafeMarshal_hash:
  "OraclePriceRecord.Version r \<noteq> 1 \<Longrightarrow>
     fst (SafeMarshal f j p (r\<lparr>OraclePriceRecord.OPRHash := x\<rparr>)) = fst (SafeMarshal f j p r)
   \<and> snd (SafeMarshal f j p r) = r"
  by (simp add: SafeMarshal_def marshal_proto_def)

text \<open>The fields that the prices do not touch.\<close>

definition fresh_opr :: "'w opr_env \<Rightarrow> config \<Rightarrow> 32 word \<Rightarrow> OPRs \<Rightarrow> (string \<times> PegItem) list
     \<Rightarrow> OraclePriceRecord \<Rightarrow> bool" where
  "fresh_opr env c dbht winners prices r \<longleftrightarrow>
     OraclePriceRecord.Dbht r = dbht \<and> OPRVersion (Network r) (sint dbht) = Inr (OraclePriceRecord.Version r)
   \<and> ValidateOPR (oIsValidAddress env) (network_or_empty (LoadConfigNetwork c)) (sint dbht) r = Inr True
   \<and> MsgError winners = None
   \<and> previous_winners (OraclePriceRecord.Version r) winners = Inr (OraclePriceRecord.WinPreviousOPR r)
   \<and> difficulty_floor env winners = Inr (OprMinimumDifficulty r)
   \<and> OraclePriceRecord.Assets r = Some (map (\<lambda>(a, i). peg_price (poob_u64 (opoll env))
        (OraclePriceRecord.Version r) (a, ItemValue i)) prices)
   \<and> distinct (map fst prices)
   \<and> (\<exists>content. fst (opr_marshal env r) = Inr content \<and> OraclePriceRecord.OPRHash r = sha256 content)"


text \<open>The winners are named as the graders name them, in lower-case digits.\<close>

lemma previous_winners_hex:
  assumes "previous_winners v winners = Inr names"
  shows "\<exists>ws. names = map hexEncode ws"
proof (cases "length (ToBePaid winners) > 0")
  case False
  then show ?thesis
    using assms by (intro exI [of _ "replicate (bootstrap_winners v) []"]) (auto simp: previous_winners_def)
next
  case True
  have "names = map (\<lambda>w. hexEncode (take 8 (OraclePriceRecord.EntryHash w))) xs"
    if "res_map short_hash xs = Inr names" for xs names
    using that by (induction xs arbitrary: names) (auto simp: short_hash_def res_simps)
  with True assms have "names = map (\<lambda>w. hexEncode (take 8 (OraclePriceRecord.EntryHash w))) (ToBePaid winners)"
    by (simp add: previous_winners_def)
  then show ?thesis by (intro exI [of _ "map (\<lambda>w. take 8 (OraclePriceRecord.EntryHash w)) (ToBePaid winners)"]) simp
qed

text \<open>A block without winners before it.\<close>

definition sample_miner :: config where
  "sample_miner key = (if key = ''Miner.Protocol'' then Inr ''PegNet''
     else if key = ''Miner.Network'' then Inr ''MainNet''
     else if key = ''Miner.IdentityChain'' then Inr ''miner''
     else if key = ''Miner.CoinbaseAddress'' then Inr (Random (replicate 32 7)) else Inl (GoError []))"

definition sample_opr_env :: "nat opr_env" where
  "sample_opr_env = \<lparr>opoll = sample_env, oenc = (\<lambda>_. []), odec = (\<lambda>_. [0, 0]), ojson_float = (\<lambda>_. Inr []),
     ojson_record = (\<lambda>_ _. Inr []), opmarshal = module_pmarshal, oIsValidAddress = (\<lambda>a. Valid a = Inr ())\<rparr>"

definition no_winners :: OPRs where
  "no_winners = \<lparr>ToBePaid = [], MsgGradedOPRs = [], MsgError = None\<rparr>"

definition sample_assets :: "(string \<times> u64) list" where
  "sample_assets = map (\<lambda>a. (a, 100000000)) AssetsV5"

definition sample_new_opr :: OraclePriceRecord where
  "sample_new_opr = NewOraclePriceRecord\<lparr>Protocol := ''PegNet'', Network := MainNetwork,
     OraclePriceRecord.Version := 5, OraclePriceRecord.CoinbaseAddress := Random (replicate 32 7),
     OraclePriceRecord.Dbht := 258800, OraclePriceRecord.WinPreviousOPR := replicate 25 [],
     OraclePriceRecord.FactomDigitalID := ''miner''\<rparr>"

lemma sample_new_opr_sel [simp]:
  "Network sample_new_opr = MainNetwork" "OraclePriceRecord.Version sample_new_opr = 5"
  "OraclePriceRecord.CoinbaseAddress sample_new_opr = Random (replicate 32 7)"
  "OraclePriceRecord.Dbht sample_new_opr = 258800" "OraclePriceRecord.WinPreviousOPR sample_new_opr = replicate 25 []"
  "OraclePriceRecord.FactomDigitalID sample_new_opr = ''miner''" "OraclePriceRecord.Assets sample_new_opr = Some []"
  by (simp_all add: sample_new_opr_def NewOraclePriceRecord_def)

lemma sample_assets_ok:
  "ContainsExactly (Some sample_assets) AssetsV5" "distinct (map fst sample_assets)"
  "\<not> list_ex (zero_price 5) sample_assets" "NetworkActive MainNetwork 258800" "OPRVersion MainNetwork 258800 = Inr 5"
  "GetNetwork ''MainNet'' = Inr MainNetwork" "ValidIdentity ''miner''" "MainNetwork \<noteq> TestNetwork"
  "map (Uint64Value (Some sample_assets)) AssetsV5 = replicate 62 100000000"
  "map_of (entries (Some sample_assets)) ''PNT'' = None" "res_map hexDecode (replicate 25 []) = Inr (replicate 25 [])"
  by code_simp+

lemma sample_network: "LoadConfigNetwork sample_miner = Inr MainNetwork"
  by (simp add: LoadConfigNetwork_def ConfigPegnetNetwork_def sample_miner_def sample_assets_ok)

lemma sample_template: "opr_template sample_opr_env sample_miner 0 258800 (Some no_winners) = Inr sample_new_opr"
proof -
  have "length (Random (replicate 32 7)) = 52" using Encode_shape [OF sample_address_ok] by auto
  moreover have "[0, 0] \<noteq> fcPubPrefix" by code_simp
  ultimately have "coinbase_peg sample_opr_env MainNetwork (Random (replicate 32 7)) = Inr []"
    using sample_assets_ok(8) by (simp add: coinbase_peg_def sample_opr_env_def ConvertFCTtoPegNetAsset_def ConvertFCTtoRaw_def Let_def)
  moreover have "sample_miner ''Miner.Protocol'' = Inr ''PegNet''" "sample_miner ''Miner.IdentityChain'' = Inr ''miner''"
    "sample_miner ''Miner.CoinbaseAddress'' = Inr (Random (replicate 32 7))"
    by (simp_all add: sample_miner_def)
  ultimately show ?thesis
    using sample_assets_ok(5)
    by (simp add: opr_template_def identity_of_def protocol_network_def sample_network coinbase_address_def
        no_winners_def previous_winners_def bootstrap_winners_def difficulty_floor_def
        sample_new_opr_def NewOraclePriceRecord_def)
      (simp add: sample_opr_env_def)
qed

lemma sample_opr_marshals:
  "\<exists>bs. opr_marshal sample_opr_env (sample_new_opr\<lparr>OraclePriceRecord.Assets := Some sample_assets\<rparr>)
     = (Inr bs, sample_new_opr\<lparr>OraclePriceRecord.Assets := Some sample_assets\<rparr>)"
proof -
  let ?m = "\<lparr>PAddress = Random (replicate 32 7), PID = ''miner'', PHeight = 258800, PWinners = replicate 25 [],
     PAssets = replicate 62 100000000\<rparr>"
  have "length (Random (replicate 32 7)) = 52" using Encode_shape [OF sample_address_ok] by auto
  then have "length (MarshalTo (V2_of_proto ?m)) < 2 ^ 63"
    unfolding length_MarshalTo
    by (simp add: V2_of_proto_def Size_def sov_len_def sov.simps sum_list_replicate)
  then have "module_pmarshal ?m = Inr (MarshalTo (V2_of_proto ?m))" by (simp add: module_pmarshal_Inr)
  then show ?thesis
    using sample_assets_ok(9,10,11) assign_prices_exact [OF sample_assets_ok(1)]
    by (simp add: SafeMarshal_def marshal_proto_def proto_version_def proto_assets_def sample_opr_env_def)
qed

lemma sample_opr_valid: "ValidateOPR (oIsValidAddress sample_opr_env)
   (network_or_empty (LoadConfigNetwork sample_miner)) 258800
   (sample_new_opr\<lparr>OraclePriceRecord.Assets := Some sample_assets, OraclePriceRecord.OPRHash := x\<rparr>) = Inr True"
proof -
  have "Valid (Random (replicate 32 7)) = Inr ()" using Valid_Encode [OF sample_address_ok] .
  moreover have "length (Random (replicate 32 7)) = 52" "take 2 (Random (replicate 32 7)) = ''FA''"
    using Encode_shape [OF sample_address_ok] by auto
  ultimately show ?thesis
    using sample_assets_ok
    by (simp add: sample_network network_or_empty_def ValidateOPR_def ValidFCTAddress_def sample_opr_env_def entries_def)
qed

lemma sample_NewOpr:
  "\<exists>st' bs. NewOpr sample_opr_env sample_miner 0 258800 (Some no_winners) (Some (Data sample_state), 0)
     = (Inr (sample_new_opr\<lparr>OraclePriceRecord.Assets := Some sample_assets, OraclePriceRecord.OPRHash := sha256 bs\<rparr>), st')"
proof -
  obtain st' where p: "poll_prices sample_env sample_miner 5 (Some (Data sample_state), 0)
      = (Inr (map (\<lambda>a. (a, unix_item (Fin 1) 0)) AssetsV5), st')"
    using sample_prices_polled by blast
  have "\<not> (5 :: byte) \<le> 2" by simp
  then have "map (peg_price (\<lambda>_. 0) 5) (map (\<lambda>a. (a, ItemValue (unix_item (Fin 1) 0))) AssetsV5) = sample_assets"
    using sample_unit(2) by (simp add: sample_assets_def peg_price_def)
  then have "SetPegValues (\<lambda>_. 0) sample_new_opr (map (\<lambda>a. (a, ItemValue (unix_item (Fin 1) 0))) AssetsV5)
      = Inr (sample_new_opr\<lparr>OraclePriceRecord.Assets := Some sample_assets\<rparr>)"
    using SetPegValues_Some [of sample_new_opr "[]"] fold_update_append [of "[]" sample_assets] sample_assets_ok(2)
    by simp
  moreover obtain bs where "opr_marshal sample_opr_env (sample_new_opr\<lparr>OraclePriceRecord.Assets := Some sample_assets\<rparr>)
     = (Inr bs, sample_new_opr\<lparr>OraclePriceRecord.Assets := Some sample_assets\<rparr>)"
    using sample_opr_marshals by blast
  ultimately have "GetOPRecord sample_opr_env sample_miner sample_new_opr (Some (Data sample_state), 0)
      = (Inr (sample_new_opr\<lparr>OraclePriceRecord.Assets := Some sample_assets, OraclePriceRecord.OPRHash := sha256 bs\<rparr>), st')"
    using p by (simp add: GetOPRecord_def sample_opr_env_def sample_env_def comp_def)
  then show ?thesis
    using sample_template sample_opr_valid [of "sha256 bs"] by (simp add: NewOpr_def) blast
qed


end
