(* ===== verification/MinerCoordinator_Correct.thy ===== *)
theory MinerCoordinator_Correct
  imports MinerCoordinator NewOpr_Correct
begin

text \<open>
  What the coordinator, its miners and the writers do together: the refinement of the mining of a block
  by the best nonces of all that its miners hashed, for every interleaving of the goroutines.

  A miner is followed through a block by its status; minute 9 starts duties (rankings to take, statistics
  to take), and \<open>duty_step\<close> is the abstract machine that every event refines.
\<close>

section \<open>A miner in a block\<close>

text \<open>
  Where a miner is in a block: it has the command to start before it, has hashed, has the command to end
  before it, or is done with it.
\<close>

datatype miner_status = Ordered | Hashing nat | Ended nat | Over nat

definition working :: "'w mining_env \<Rightarrow> mining_block \<Rightarrow> nat \<Rightarrow> ControlledMiner \<Rightarrow> bool" where
  "working env b k m \<longleftrightarrow> phase m = Mining \<and> \<not> paused (Miner m) \<and> miner_inv (lx env) k (Miner m)
     \<and> (let s = MiningState (Miner m) in oprhash s = block_hash b \<and> minimumDifficulty s = block_low b
        \<and> writeChannel s = Some (block_writer b) \<and> statsChannel s = Some (block_stats b))"

abbreviation block_start :: "mining_block \<Rightarrow> MinerCommand" where
  "block_start b \<equiv> start_batch (block_writer b) (block_stats b) (block_hash b) (block_low b)"

fun status_ok :: "'w mining_env \<Rightarrow> mining_block \<Rightarrow> miner_status \<Rightarrow> ControlledMiner \<Rightarrow> bool" where
  "status_ok env b Ordered m \<longleftrightarrow> phase m \<in> {Starting, Waiting} \<and> CommandChannel m = [block_start b]"
| "status_ok env b (Hashing k) m \<longleftrightarrow> working env b k m \<and> CommandChannel m = []"
| "status_ok env b (Ended k) m \<longleftrightarrow> working env b k m \<and> CommandChannel m = [end_batch]"
| "status_ok env b (Over k) m \<longleftrightarrow> phase m = Waiting \<and> CommandChannel m = []"

definition belongs :: "int \<Rightarrow> nat \<Rightarrow> ControlledMiner \<Rightarrow> bool" where
  "belongs keeps i m \<longleftrightarrow> PegnetMiner.ID (Miner m) = int i \<and> keep (MiningState (Miner m)) = keeps
     \<and> outbox (Miner m) = [] \<and> statsbox (Miner m) = []"

definition miner_at :: "'w mining_env \<Rightarrow> mining_block \<Rightarrow> int \<Rightarrow> nat \<Rightarrow> miner_status \<Rightarrow> ControlledMiner \<Rightarrow> bool"
  where
  "miner_at env b keeps i st m \<longleftrightarrow> belongs keeps i m \<and> status_ok env b st m"

text \<open>What a miner sends to the writer and to the coordinator after \<open>k\<close> hashes.\<close>

definition submission :: "'w mining_env \<Rightarrow> mining_block \<Rightarrow> int \<Rightarrow> nat \<Rightarrow> nat \<Rightarrow> NonceRanking \<Rightarrow> bool" where
  "submission env b keeps i k r \<longleftrightarrow> ranking_ok r
     \<and> best_of (nat keeps) (found (lx env) (block_hash b) (block_low b) (int i) k) (kept r)"

definition statistics :: "nat \<Rightarrow> nat \<Rightarrow> SingleMinerStats \<Rightarrow> bool" where
  "statistics i k s \<longleftrightarrow> StatsID s = int i \<and> TotalHashes s = wrap64 (int k)"

lemma aggregators_batches [simp]:
  "aggregators (block_start b) = [block_writer b]" "aggregators end_batch = []"
  by (simp_all add: start_batch_def end_batch_def)

lemma turn_cases:
  assumes "i < length (Miners c)" "phase (Miners c ! i) \<noteq> Stopped"
  shows "CommandChannel (Miners c ! i) = [] \<Longrightarrow> miner_turn env i c = miner_acts env Nothing i c"
    and "CommandChannel (Miners c ! i) = [cmd] \<Longrightarrow> miner_turn env i c = miner_acts env (Command cmd) i
      (c\<lparr>Miners := (Miners c)[i := (Miners c ! i)\<lparr>CommandChannel := []\<rparr>]\<rparr>)"
  using assms by (simp_all add: miner_turn_def Let_def)

lemma turn_ordered:
  assumes "i < length (Miners c)" "miner_at env b keeps i Ordered (Miners c ! i)" "0 < keeps"
  shows "\<exists>m. miner_turn env i c = Inr (c\<lparr>Miners := (Miners c)[i := m],
       writers := AddMiner (block_writer b) (writers c)\<rparr>)
     \<and> miner_at env b keeps i (Hashing 0) m"
proof -
  let ?m = "Miners c ! i"
  have m: "phase ?m \<in> {Starting, Waiting}" "CommandChannel ?m = [block_start b]" "belongs keeps i ?m"
    using assms(2) by (simp_all add: miner_at_def)
  obtain q where q: "HandleCommand (block_start b) (Miner ?m) = Inr q" "miner_inv (lx env) 0 q"
    "PegnetMiner.ID q = PegnetMiner.ID (Miner ?m)" "\<not> paused q" "outbox q = outbox (Miner ?m)" "statsbox q = statsbox (Miner ?m)"
    "oprhash (MiningState q) = block_hash b" "minimumDifficulty (MiningState q) = block_low b"
    "keep (MiningState q) = keep (MiningState (Miner ?m))"
    "writeChannel (MiningState q) = Some (block_writer b)" "statsChannel (MiningState q) = Some (block_stats b)"
    using start_batch_ok [of "Miner ?m" "block_writer b" "block_stats b" "block_hash b" "block_low b" "lx env"]
      m(3) assms(3) by (auto simp: belongs_def)
  let ?new = "?m\<lparr>CommandChannel := [], phase := Mining, Miner := q\<rparr>"
  have boxes: "outbox q = []" "statsbox q = []" "q\<lparr>outbox := [], statsbox := []\<rparr> = q"
    using q(5,6) m(3) by (simp_all add: belongs_def)
  have "mine_step (lx env) (Command (block_start b)) (phase ?m, Miner ?m) = Inr (Mining, q)"
    using m(1) q(1,4) by auto
  then have "miner_turn env i c = Inr (c\<lparr>Miners := (Miners c)[i := ?new],
      writers := AddMiner (block_writer b) (writers c)\<rparr>)"
    using turn_cases(2) [OF assms(1) _ m(2), of env] m(1) assms(1) boxes
    by (auto simp: miner_acts_def Let_def)
  moreover have "miner_at env b keeps i (Hashing 0) ?new"
    using q m(3) by (simp add: miner_at_def belongs_def working_def Let_def)
  ultimately show ?thesis by blast
qed

lemma turn_hashing:
  assumes "i < length (Miners c)" "miner_at env b keeps i (Hashing k) (Miners c ! i)" "hash_ok (lx env)"
  shows "\<exists>m. miner_turn env i c = Inr (c\<lparr>Miners := (Miners c)[i := m]\<rparr>)
     \<and> miner_at env b keeps i (Hashing (Suc k)) m"
proof -
  let ?m = "Miners c ! i"
  have m: "working env b k ?m" "CommandChannel ?m = []" "belongs keeps i ?m"
    using assms(2) by (simp_all add: miner_at_def)
  obtain q where q: "hash_once (lx env) (Miner ?m) = Inr q" "miner_inv (lx env) (Suc k) q"
    "same_session (Miner ?m) q"
    using hash_once_ok [OF _ assms(3), of k "Miner ?m"] m(1) by (auto simp: working_def)
  let ?new = "?m\<lparr>Miner := q\<rparr>"
  have boxes: "outbox q = []" "statsbox q = []" "q\<lparr>outbox := [], statsbox := []\<rparr> = q"
    using q(3) m(3) by (simp_all add: belongs_def same_session_def)
  have "mine_step (lx env) Nothing (phase ?m, Miner ?m) = Inr (Mining, q)" "?m\<lparr>phase := Mining\<rparr> = ?m"
    using m(1) q(1) by (simp_all add: working_def mine_iteration_def)
  then have "miner_turn env i c = Inr (c\<lparr>Miners := (Miners c)[i := ?new]\<rparr>)"
    using turn_cases(1) [OF assms(1) _ m(2), of env] m(1) assms(1) boxes
    by (simp add: miner_acts_def working_def Let_def)
  moreover have "miner_at env b keeps i (Hashing (Suc k)) ?new"
    using q m by (auto simp: miner_at_def belongs_def working_def same_session_def Let_def)
  ultimately show ?thesis by blast
qed

lemma turn_ended:
  assumes "i < length (Miners c)" "miner_at env b keeps i (Ended k) (Miners c ! i)"
  shows "\<exists>m r s. miner_turn env i c = Inr (c\<lparr>Miners := (Miners c)[i := m],
       writers := send_ranking (block_writer b, r) (writers c),
       statsLists := send_stats (block_stats b, s) (statsLists c)\<rparr>)
     \<and> miner_at env b keeps i (Over k) m \<and> submission env b keeps i k r \<and> statistics i k s"
proof -
  let ?m = "Miners c ! i"
  have m: "working env b k ?m" "CommandChannel ?m = [end_batch]" "belongs keeps i ?m"
    using assms(2) by (simp_all add: miner_at_def)
  let ?p = "Miner ?m" and ?r = "rankings (MiningState (Miner ?m))"
  have inv: "ranking_ok ?r" "submission env b keeps i k ?r"
    using m(1,3) by (auto simp: submission_def working_def miner_inv_def belongs_def Let_def)
  obtain s where s: "stats (MiningState ?p) = Some s" "statistics i k s"
    using m(1,3) by (auto simp: statistics_def working_def miner_inv_def belongs_def Let_def)
  let ?q = "?p\<lparr>outbox := [(block_writer b, ?r)], statsbox := [(block_stats b, s)], paused := True\<rparr>"
  let ?new = "?m\<lparr>CommandChannel := [], phase := Waiting, Miner := ?p\<lparr>paused := True\<rparr>\<rparr>"
  have "HandleCommand end_batch ?p = Inr ?q"
    using m(1,3) s(1) by (simp add: end_batch_def SubmitNonces_step_def working_def belongs_def Let_def)
  then have "mine_step (lx env) (Command end_batch) (phase ?m, ?p) = Inr (Waiting, ?q)"
    using m(1) by (simp add: working_def mine_iteration_def)
  moreover have "?q\<lparr>outbox := [], statsbox := []\<rparr> = ?p\<lparr>paused := True\<rparr>"
    using m(3) by (simp add: belongs_def)
  ultimately have "miner_turn env i c = Inr (c\<lparr>Miners := (Miners c)[i := ?new],
       writers := send_ranking (block_writer b, ?r) (writers c),
       statsLists := send_stats (block_stats b, s) (statsLists c)\<rparr>)"
    using turn_cases(2) [OF assms(1) _ m(2), of env] m(1) assms(1)
    by (simp add: miner_acts_def working_def Let_def)
  moreover have "miner_at env b keeps i (Over k) ?new"
    using m(3) by (simp add: miner_at_def belongs_def)
  ultimately show ?thesis using inv(2) s(2) by blast
qed

lemma turn_over:
  assumes "i < length (Miners c)" "miner_at env b keeps i (Over k) (Miners c ! i)"
  shows "miner_turn env i c = Inr c"
proof -
  let ?m = "Miners c ! i"
  have m: "phase ?m = Waiting" "CommandChannel ?m = []" "belongs keeps i ?m"
    using assms(2) by (simp_all add: miner_at_def)
  have "?m\<lparr>phase := Waiting, Miner := (Miner ?m)\<lparr>outbox := [], statsbox := []\<rparr>\<rparr> = ?m"
    using m(1,3) by (intro ControlledMiner.equality PegnetMiner.equality) (simp_all add: belongs_def)
  then show ?thesis
    using turn_cases(1) [OF assms(1) _ m(2), of env] m(1,3) assms(1)
    by (simp add: miner_acts_def belongs_def Let_def)
qed

section \<open>Up to minute 9\<close>

definition hashing_after :: "nat \<Rightarrow> mining_event list \<Rightarrow> miner_status" where
  "hashing_after i es = (case count_list es (Turn i) of 0 \<Rightarrow> Ordered | Suc k \<Rightarrow> Hashing k)"

lemma LaunchMiners_append:
  "LaunchMiners env (es @ fs) c = rbind (LaunchMiners env es c) (LaunchMiners env fs)"
  by (simp add: LaunchMiners_def [abs_def] res_fold_append)

lemma LaunchMiners_Cons:
  "LaunchMiners env (e # es) c = rbind (mining_step env c e) (LaunchMiners env es)"
  by (simp add: LaunchMiners_def [abs_def])

lemma LaunchMiners_Nil [simp]: "LaunchMiners env [] c = Inr c"
  by (simp add: LaunchMiners_def)

lemma LaunchMiners_snoc:
  "LaunchMiners env es c = Inr c1 \<Longrightarrow> LaunchMiners env (es @ [e]) c = mining_step env c1 e"
  by (cases "mining_step env c1 e") (simp_all add: LaunchMiners_append LaunchMiners_Cons)

lemma finite_turns: "finite {i. Turn i \<in> set es}"
  using finite_vimageI [of "set es" Turn] by (simp add: inj_on_def vimage_def)

lemma miners_hash:
  assumes "\<forall>i < length (Miners c). miner_at env b keeps i Ordered (Miners c ! i)" "0 < keeps"
    and "hash_ok (lx env)" "block_writer b < length (writers c)" "miners (writers c ! block_writer b) = 0"
    and "\<forall>e \<in> set es. \<exists>i < length (Miners c). e = Turn i"
  shows "\<exists>ms. LaunchMiners env es c = Inr (c\<lparr>Miners := ms, writers := (writers c)[block_writer b :=
        (writers c ! block_writer b)\<lparr>miners := int (card {i. Turn i \<in> set es})\<rparr>]\<rparr>)
     \<and> length ms = length (Miners c)
     \<and> (\<forall>i < length (Miners c). miner_at env b keeps i (hashing_after i es) (ms ! i))"
  using assms(6)
proof (induction es rule: rev_induct)
  case Nil
  have "(writers c)[block_writer b := (writers c ! block_writer b)\<lparr>miners := 0\<rparr>] = writers c"
    using assms(5) by (simp add: list_update_same_conv [OF assms(4)])
  then show ?case using assms(1) by (intro exI [of _ "Miners c"]) (simp add: hashing_after_def)
next
  case (snoc e es)
  let ?n = "block_writer b"
  obtain i where i: "i < length (Miners c)" "e = Turn i" using snoc.prems by auto
  let ?w = "(writers c ! ?n)\<lparr>miners := int (card {i. Turn i \<in> set es})\<rparr>"
  obtain ms where ms: "LaunchMiners env es c = Inr (c\<lparr>Miners := ms, writers := (writers c)[?n := ?w]\<rparr>)"
    "length ms = length (Miners c)"
    "\<forall>i < length (Miners c). miner_at env b keeps i (hashing_after i es) (ms ! i)"
    using snoc.IH snoc.prems by auto
  let ?c = "c\<lparr>Miners := ms, writers := (writers c)[?n := ?w]\<rparr>"
  have at: "miner_at env b keeps i (hashing_after i es) (Miners ?c ! i)" "i < length (Miners ?c)"
    using ms i by auto
  have others: "hashing_after j (es @ [e]) = hashing_after j es" if "j \<noteq> i" for j
    using that i(2) by (simp add: hashing_after_def)
  show ?case
  proof (cases "Turn i \<in> set es")
    case False
    then have "hashing_after i es = Ordered" "hashing_after i (es @ [e]) = Hashing 0"
      using i(2) by (simp_all add: hashing_after_def count_notin)
    moreover from this at obtain m where m: "miner_turn env i ?c = Inr (?c\<lparr>Miners := (Miners ?c)[i := m],
        writers := AddMiner ?n (writers ?c)\<rparr>)" "miner_at env b keeps i (Hashing 0) m"
      using turn_ordered [of i ?c env b keeps] assms(2) by auto
    moreover have "card {j. Turn j \<in> set (es @ [e])} = Suc (card {j. Turn j \<in> set es})"
    proof -
      have "{j. Turn j \<in> set (es @ [e])} = insert i {j. Turn j \<in> set es}" using i(2) by auto
      then show ?thesis using False finite_turns by simp
    qed
    ultimately show ?thesis
      using i ms others assms(4)
      by (intro exI [of _ "ms[i := m]"])
        (auto simp: LaunchMiners_snoc [OF ms(1)] mining_step_def AddMiner_def nth_list_update add.commute)
  next
    case True
    then obtain k where "count_list es (Turn i) = Suc k"
      by (metis count_list_0_iff not0_implies_Suc)
    then have "hashing_after i es = Hashing k" "hashing_after i (es @ [e]) = Hashing (Suc k)"
      using i(2) by (simp_all add: hashing_after_def)
    moreover from this at obtain m where m: "miner_turn env i ?c = Inr (?c\<lparr>Miners := (Miners ?c)[i := m]\<rparr>)"
      "miner_at env b keeps i (Hashing (Suc k)) m"
      using turn_hashing [of i ?c env b keeps k] assms(3) by auto
    moreover have "{j. Turn j \<in> set (es @ [e])} = {j. Turn j \<in> set es}" using True i(2) by auto
    ultimately show ?thesis
      using i ms others
      by (intro exI [of _ "ms[i := m]"]) (auto simp: LaunchMiners_snoc [OF ms(1)] mining_step_def nth_list_update)
  qed
qed

section \<open>Writing\<close>

definition entry_of :: "'w mining_env \<Rightarrow> OraclePriceRecord \<Rightarrow> byte list \<Rightarrow> UniqueOPRData \<Rightarrow> FactomEntry" where
  "entry_of env t content u = \<lparr>FactomEntry.ChainID = hexEncode (mdec env (OPRChainID t)),
     FactomEntry.ExtIDs = [UNonce u, PutUint64 (UDifficulty u), [OraclePriceRecord.Version t]],
     FactomEntry.Content = content\<rparr>"

text \<open>The entries that factomd has taken, or that were forwarded.\<close>

definition delivered :: "bool \<Rightarrow> written \<Rightarrow> FactomEntry list" where
  "delivered fw out = (if fw then forwarded out else map fst (filter snd (attempted out)))"

text \<open>Factomd takes an entry within the attempts that the backoff allows.\<close>

definition factomd_takes :: "'w mining_env \<Rightarrow> bool" where
  "factomd_takes env \<longleftrightarrow> (\<forall>n. \<exists>j \<le> tries env n. submit_ok env (n + j))"

definition marshals_to :: "'w mining_env \<Rightarrow> OraclePriceRecord \<Rightarrow> byte list \<Rightarrow> bool" where
  "marshals_to env t content \<longleftrightarrow> proto_version (OraclePriceRecord.Version t)
     \<and> fst (SafeMarshal (mjson_float env) (mjson_record env) (mpmarshal env) t) = Inr content"

lemma mine_entry_made:
  assumes "marshals_to env t content"
  shows "mine_entry env t u = Inr (entry_of env t content u)" "marshalled env t = t"
proof -
  have "OraclePriceRecord.Version t \<noteq> 1" using assms by (auto simp: marshals_to_def proto_version_def)
  then show "marshalled env t = t" by (simp add: marshalled_def SafeMarshal_def)
  show "mine_entry env t u = Inr (entry_of env t content u)"
    using assms by (simp add: mine_entry_def CreateOPREntry_def marshals_to_def entry_of_def)
qed

lemma retry_write_ok:
  assumes "marshals_to env t content" "\<exists>j \<le> n. submit_ok env (length (attempted out) + j)"
  shows "\<exists>out'. retry_write n env u t out = (t, out', Inr ()) \<and> forwarded out' = forwarded out
     \<and> map fst (filter snd (attempted out')) = map fst (filter snd (attempted out)) @ [entry_of env t content u]"
  using assms(2)
proof (induction n arbitrary: out)
  case 0
  then show ?case by (simp add: write_operation_def mine_entry_made [OF assms(1)] Let_def)
next
  case (Suc n)
  show ?case
  proof (cases "submit_ok env (length (attempted out))")
    case True
    then show ?thesis by (simp add: write_operation_def mine_entry_made [OF assms(1)] Let_def)
  next
    case False
    let ?out = "out\<lparr>attempted := attempted out @ [(entry_of env t content u, False)]\<rparr>"
    obtain j where "j \<le> Suc n" "submit_ok env (length (attempted out) + j)" using Suc.prems by blast
    with False have "\<exists>j \<le> n. submit_ok env (length (attempted ?out) + j)"
      by (cases j) auto
    from Suc.IH [OF this] False show ?thesis
      by (simp add: write_operation_def mine_entry_made [OF assms(1)] Let_def)
  qed
qed

lemma write_nonces_ok:
  assumes "oprTemplate w = Some t" "marshals_to env t content" "\<not> forwards w \<longrightarrow> factomd_takes env"
  shows "\<exists>out'. write_nonces env (map Some vs) w out = Inr (w, out')
     \<and> delivered (forwards w) out' = delivered (forwards w) out @ map (entry_of env t content) vs
     \<and> delivered (\<not> forwards w) out' = delivered (\<not> forwards w) out"
proof (induction vs arbitrary: out)
  case Nil
  then show ?case by (simp add: write_nonces_def)
next
  case (Cons v vs)
  have t: "w\<lparr>oprTemplate := Some t\<rparr> = w" using assms(1) by simp
  have "\<exists>out1. write_nonce env (Some v) w out = Inr (w, out1)
     \<and> delivered (forwards w) out1 = delivered (forwards w) out @ [entry_of env t content v]
     \<and> delivered (\<not> forwards w) out1 = delivered (\<not> forwards w) out"
  proof (cases "forwards w")
    case True
    then show ?thesis
      using t by (simp add: write_nonce_def assms(1) forwardMiningRecord_def mine_entry_made [OF assms(2)]
        delivered_def)
  next
    case False
    then have "\<exists>j \<le> tries env (length (attempted out)). submit_ok env (length (attempted out) + j)"
      using assms(3) by (simp add: factomd_takes_def)
    from retry_write_ok [OF assms(2) this, of v] obtain out1 where out1:
      "writeMiningRecord env v t out = (t, out1, Inr ())" "forwarded out1 = forwarded out"
      "map fst (filter snd (attempted out1)) = map fst (filter snd (attempted out)) @ [entry_of env t content v]"
      by (auto simp: writeMiningRecord_def)
    then show ?thesis using False t by (simp add: write_nonce_def assms(1) delivered_def)
  qed
  then obtain out1 where out1: "write_nonce env (Some v) w out = Inr (w, out1)"
     "delivered (forwards w) out1 = delivered (forwards w) out @ [entry_of env t content v]"
     "delivered (\<not> forwards w) out1 = delivered (\<not> forwards w) out" by blast
  from Cons.IH [of out1] obtain out' where "write_nonces env (map Some vs) w out1 = Inr (w, out')"
     "delivered (forwards w) out' = delivered (forwards w) out1 @ map (entry_of env t content) vs"
     "delivered (\<not> forwards w) out' = delivered (\<not> forwards w) out1" by blast
  then show ?case using out1 by (auto simp: write_nonces_def)
qed

section \<open>After minute 9\<close>

text \<open>
  What is left to do: the miners that have submitted, in their order, how many of their rankings the
  writer has taken, and how many of their statistics the coordinator.
\<close>

type_synonym duty = "nat list \<times> nat \<times> nat"

fun duty_step :: "nat \<Rightarrow> duty \<Rightarrow> mining_event \<Rightarrow> duty" where
  "duty_step n (is, a, m) (Turn i) = (if i \<in> set is then is else is @ [i], a, m)"
| "duty_step n (is, a, m) (Write w) = (is, if w = n \<and> a < length is then Suc a else a, m)"
| "duty_step n (is, a, m) Collected = (is, a, if m < length is then Suc m else m)"
| "duty_step n d e = d"

definition group_of :: "'w mining_env \<Rightarrow> (nat \<Rightarrow> SingleMinerStats) \<Rightarrow> 32 word \<Rightarrow> nat list \<Rightarrow> GroupMinerStats" where
  "group_of env st h is = (NewGroupMinerStats ''main'' (sint h))
     \<lparr>GroupMinerStats.Miners := map (\<lambda>i. (int i, timed env (st i))) is\<rparr>"

text \<open>The writer of the block after it took the rankings of \<open>a\<close> miners, from the one at minute 9.\<close>

definition writer_at :: "'w mining_env \<Rightarrow> byte list \<Rightarrow> nat \<Rightarrow> EntryWriter \<times> written \<Rightarrow> NonceRanking option list
     \<Rightarrow> nat \<Rightarrow> EntryWriter \<times> written \<Rightarrow> bool" where
  "writer_at env content N s0 rs a s \<longleftrightarrow> (case (s0, s) of ((w0, out0), (w, out)) \<Rightarrow>
     w = w0\<lparr>aggregate := take a rs, minerLists := drop a rs, returned := (a = N)\<rparr>
   \<and> (if a < N then out = out0
      else \<exists>vs t. collectAndWrite (nsort env) (wKeep w0) N rs = Some (Inr (map Some vs))
         \<and> oprTemplate w0 = Some t
         \<and> delivered (forwards w0) out = delivered (forwards w0) out0 @ map (entry_of env t content) vs
         \<and> delivered (\<not> forwards w0) out = delivered (\<not> forwards w0) out0))"

definition duty_state :: "'w mining_env \<Rightarrow> mining_block \<Rightarrow> 32 word \<Rightarrow> 'w MiningCoordinator \<Rightarrow> nat list \<Rightarrow> nat
     \<Rightarrow> ControlledMiner list \<Rightarrow> EntryWriter \<times> written \<Rightarrow> (nat \<Rightarrow> SingleMinerStats) \<Rightarrow> 'w MiningCoordinator" where
  "duty_state env b h c is m ms ws st =
     c\<lparr>Miners := ms, writers := (writers c)[block_writer b := fst ws], records := snd ws,
       statsLists := (statsLists c)[block_stats b := map st (drop m is)],
       collecting := (if m = length (Miners c) then None else Some (group_of env st h (take m is), m)),
       MiningStatsChannel := MiningStatsChannel c @ (if m = length (Miners c) then [group_of env st h is] else [])\<rparr>"

definition duty_facts :: "'w mining_env \<Rightarrow> mining_block \<Rightarrow> int \<Rightarrow> byte list \<Rightarrow> (nat \<Rightarrow> nat) \<Rightarrow> 'w MiningCoordinator
     \<Rightarrow> duty \<Rightarrow> ControlledMiner list \<Rightarrow> EntryWriter \<times> written \<Rightarrow> (nat \<Rightarrow> NonceRanking)
     \<Rightarrow> (nat \<Rightarrow> SingleMinerStats) \<Rightarrow> bool" where
  "duty_facts env b keeps content k c d ms ws rk st \<longleftrightarrow> (case d of (is, a, m) \<Rightarrow>
     let N = length (Miners c) in
     length ms = N
     \<and> (\<forall>i < N. miner_at env b keeps i (if i \<in> set is then Over (k i) else Ended (k i)) (ms ! i))
     \<and> (\<forall>i \<in> set is. submission env b keeps i (k i) (rk i) \<and> statistics i (k i) (st i))
     \<and> writer_at env content N (writers c ! block_writer b, records c) (map (Some \<circ> rk) is) a ws
     \<and> distinct is \<and> set is \<subseteq> {..<N} \<and> a \<le> length is \<and> m \<le> length is)"

definition duty_ok :: "'w mining_env \<Rightarrow> mining_block \<Rightarrow> int \<Rightarrow> byte list \<Rightarrow> 32 word \<Rightarrow> (nat \<Rightarrow> nat)
     \<Rightarrow> 'w MiningCoordinator \<Rightarrow> duty \<Rightarrow> 'w MiningCoordinator \<Rightarrow> bool" where
  "duty_ok env b keeps content h k c d c' \<longleftrightarrow> (\<exists>ms ws rk st.
     c' = duty_state env b h c (fst d) (snd (snd d)) ms ws st \<and> duty_facts env b keeps content k c d ms ws rk st)"

lemma duty_okI:
  "duty_facts env b keeps content k c (is, a, m) ms ws rk st \<Longrightarrow>
     duty_ok env b keeps content h k c (is, a, m) (duty_state env b h c is m ms ws st)"
  unfolding duty_ok_def fst_conv snd_conv by blast

lemma all_submitted:
  assumes "distinct is" "set is \<subseteq> {..<N}"
  shows "length is \<le> N" "length is = N \<Longrightarrow> i < N \<Longrightarrow> i \<in> set is"
proof -
  have "card (set is) \<le> N" using card_mono [OF _ assms(2)] by simp
  then show "length is \<le> N" using assms(1) by (simp add: distinct_card)
  assume "length is = N" "i < N"
  then have "set is = {..<N}" using card_subset_eq [OF _ assms(2)] assms(1) by (simp add: distinct_card)
  then show "i \<in> set is" using \<open>i < N\<close> by simp
qed

lemma duty_turn:
  assumes "duty_ok env b keeps content h k c (is, a, m) c'" "i < length (Miners c)"
    and "block_writer b < length (writers c)" "block_stats b < length (statsLists c)"
  shows "\<exists>c''. miner_turn env i c' = Inr c''
     \<and> duty_ok env b keeps content h k c (if i \<in> set is then is else is @ [i], a, m) c''"
proof -
  let ?N = "length (Miners c)" and ?n = "block_writer b" and ?ch = "block_stats b"
  obtain ms ws rk st where c': "c' = duty_state env b h c is m ms ws st"
    and facts: "duty_facts env b keeps content k c (is, a, m) ms ws rk st"
    using assms(1) unfolding duty_ok_def fst_conv snd_conv by blast
  note d = facts [unfolded duty_facts_def prod.case Let_def]
  have at: "i < length (Miners c')" "miner_at env b keeps i (if i \<in> set is then Over (k i) else Ended (k i)) (Miners c' ! i)"
    using d assms(2) by (auto simp: c' duty_state_def)
  show ?thesis
  proof (cases "i \<in> set is")
    case True
    then show ?thesis using turn_over [OF at(1)] at(2) assms(1) by auto
  next
    case False
    then obtain p r s where p: "miner_turn env i c' = Inr (c'\<lparr>Miners := (Miners c')[i := p],
        writers := send_ranking (?n, r) (writers c'), statsLists := send_stats (?ch, s) (statsLists c')\<rparr>)"
      "miner_at env b keeps i (Over (k i)) p" "submission env b keeps i (k i) r" "statistics i (k i) s"
      using turn_ended [OF at(1), of env b keeps "k i"] at(2) by auto
    let ?is = "is @ [i]" and ?rk = "rk(i := r)" and ?st = "st(i := s)"
    let ?ws = "((fst ws)\<lparr>minerLists := minerLists (fst ws) @ [Some r]\<rparr>, snd ws)"
    have "map (\<lambda>j. (int j, timed env (?st j))) (take m is) = map (\<lambda>j. (int j, timed env (st j))) (take m is)"
      using False by (auto dest: in_set_takeD)
    then have groups: "group_of env ?st h (take m is) = group_of env st h (take m is)"
      unfolding group_of_def by (simp only:)
    have same: "map (Some \<circ> ?rk) is = map (Some \<circ> rk) is" "map ?st (drop m is) = map st (drop m is)"
      using False by (auto dest: in_set_dropD)
    have sent: "map ?st (drop m ?is) = map st (drop m is) @ [s]"
      using d unfolding drop_append map_append same(2) by simp
    have rs: "map (Some \<circ> ?rk) ?is = map (Some \<circ> rk) is @ [Some r]"
      unfolding map_append same(1) by simp
    have "is \<noteq> [] \<longrightarrow> length is \<noteq> ?N" "length is \<le> ?N"
      using all_submitted [of "is" ?N] d False assms(2) by blast+
    then have less: "length is < ?N" using assms(2) by (cases "is") auto
    have facts': "duty_facts env b keeps content k c (?is, a, m) (ms[i := p]) ?ws ?rk ?st"
      unfolding duty_facts_def prod.case Let_def
    proof (intro conjI)
      show "\<forall>j < ?N. miner_at env b keeps j (if j \<in> set ?is then Over (k j) else Ended (k j)) (ms[i := p] ! j)"
        using d p(2) assms(2) by (auto simp: nth_list_update)
      show "\<forall>j \<in> set ?is. submission env b keeps j (k j) (?rk j) \<and> statistics j (k j) (?st j)"
        using d p(3,4) by auto
      show "writer_at env content ?N (writers c ! ?n, records c) (map (Some \<circ> ?rk) ?is) a ?ws"
        unfolding rs using d less by (cases ws) (auto simp: writer_at_def intro!: EntryWriter.equality)
    qed (use d False assms(2) in auto)
    have "c'\<lparr>Miners := (Miners c')[i := p], writers := send_ranking (?n, r) (writers c'),
        statsLists := send_stats (?ch, s) (statsLists c')\<rparr> = duty_state env b h c ?is m (ms[i := p]) ?ws ?st"
    proof -
      have "m \<noteq> ?N" "take m ?is = take m is" using d less by simp_all
      then show ?thesis
        unfolding c' duty_state_def sent using assms(3,4) groups
        by (simp add: send_ranking_def send_stats_def del: map_eq_conv map_map)
    qed
    then have "miner_turn env i c' = Inr (duty_state env b h c ?is m (ms[i := p]) ?ws ?st)"
      using p(1) by simp
    with duty_okI [OF facts', of h] False show ?thesis by auto
  qed
qed

text \<open>The writer merges what it was sent.\<close>

lemma Merge_submissions:
  assumes "nonce_sort srt" "distinct is" "is \<noteq> []" "0 < keeps"
    and "\<forall>i \<in> set is. submission env b keeps i (k i) (rk i)"
  shows "\<exists>vs. collectAndWrite srt keeps (length is) (map (Some \<circ> rk) is) = Some (Inr (map Some vs))
     \<and> best_of (nat keeps) (\<Sum>i \<in> set is. found (lx env) (block_hash b) (block_low b) (int i) (k i)) (mset vs)
     \<and> sorted_wrt (\<lambda>u v. UDifficulty v \<le> UDifficulty u) vs"
proof -
  let ?M = "\<lambda>i. found (lx env) (block_hash b) (block_low b) (int i) (k i)"
  have "list_all2 (\<lambda>r M. case r of None \<Rightarrow> M = {#}
      | Some r \<Rightarrow> ranking_ok r \<and> best_of (nat keeps) M (kept r)) (map (Some \<circ> rk) is) (map ?M is)"
    using assms(5) by (auto simp: list_all2_conv_all_nth submission_def)
  from nonce_sort.Merge_each [OF assms(1) this assms(4)] show ?thesis
    using assms(2,3) by (auto simp: collectAndWrite_def sum_list_distinct_conv_sum_set)
qed

lemma writer_turn_at:
  assumes "writer_at env content N (w0, out0) rs a (w, out)" "a < length rs" "length rs \<le> N"
    and w0: "wKeep w0 = keeps" "miners w0 = int N" "launched w0" "\<not> returned w0"
      "oprTemplate w0 = Some t" "marshals_to env t content" "\<not> forwards w0 \<longrightarrow> factomd_takes env"
    and "length rs = N \<Longrightarrow> \<exists>vs. collectAndWrite (nsort env) keeps N rs = Some (Inr (map Some vs))"
  shows "\<exists>s. writer_turn env w out = Inr s \<and> writer_at env content N (w0, out0) rs (Suc a) s"
proof -
  have w: "w = w0\<lparr>aggregate := take a rs, minerLists := drop a rs, returned := (a = N)\<rparr>" "out = out0"
    using assms(1-3) by (simp_all add: writer_at_def)
  have lists: "minerLists w = rs ! a # drop (Suc a) rs" "aggregate w @ [rs ! a] = take (Suc a) rs"
    using assms(2) by (simp_all add: w Cons_nth_drop_Suc [symmetric] take_Suc_conv_app_nth)
  have sel: "launched w" "\<not> returned w" "wKeep w = keeps" "miners w = int N"
    using w0 assms(2,3) by (simp_all add: w)
  have turn: "writer_turn env w out
      = (let w1 = w\<lparr>minerLists := drop (Suc a) rs, aggregate := take (Suc a) rs\<rparr> in
         if Suc a = N
         then (case collectAndWrite (nsort env) keeps N (take (Suc a) rs) of
                 None \<Rightarrow> Inr (w1, out)
               | Some nonces \<Rightarrow> rbind nonces (\<lambda>us. write_nonces env us (w1\<lparr>returned := True\<rparr>) out))
         else Inr (w1, out))"
    using assms(2) by (simp add: writer_turn_def sel lists Let_def)
  show ?thesis
  proof (cases "Suc a = N")
    case False
    then show ?thesis
      using turn w assms(2,3) by (simp add: writer_at_def Let_def)
  next
    case True
    then have full: "take (Suc a) rs = rs" "drop (Suc a) rs = []" "length rs = N" using assms(2,3) by simp_all
    obtain vs where vs: "collectAndWrite (nsort env) keeps N rs = Some (Inr (map Some vs))"
      using assms(11) full(3) by blast
    let ?w1 = "w\<lparr>minerLists := [], aggregate := rs, returned := True\<rparr>"
    have w1: "oprTemplate ?w1 = Some t" "forwards ?w1 = forwards w0" using w0 by (simp_all add: w)
    from write_nonces_ok [of ?w1 t env content vs out] w0(6,7) obtain out1 where out1:
      "write_nonces env (map Some vs) ?w1 out = Inr (?w1, out1)"
      "delivered (forwards w0) out1 = delivered (forwards w0) out @ map (entry_of env t content) vs"
      "delivered (\<not> forwards w0) out1 = delivered (\<not> forwards w0) out" unfolding w1 by blast
    have "writer_turn env w out = Inr (?w1, out1)"
      using True vs out1(1) unfolding turn full Let_def by simp
    moreover have "?w1 = w0\<lparr>aggregate := take (Suc a) rs, minerLists := drop (Suc a) rs, returned := (Suc a = N)\<rparr>"
      using True unfolding full w(1) by simp
    ultimately show ?thesis
      using True vs out1(2,3) w0(1,5) full unfolding writer_at_def w(2) by auto
  qed
qed

lemma duty_write:
  assumes "duty_ok env b keeps content h k c (is, a, m) c'" "block_writer b < length (writers c)"
    and "nonce_sort (nsort env)" "0 < keeps"
    and w0: "wKeep (writers c ! block_writer b) = keeps" "miners (writers c ! block_writer b) = int (length (Miners c))"
      "launched (writers c ! block_writer b)" "\<not> returned (writers c ! block_writer b)"
      "oprTemplate (writers c ! block_writer b) = Some t" "marshals_to env t content"
      "\<not> forwards (writers c ! block_writer b) \<longrightarrow> factomd_takes env"
  shows "\<exists>c''. mining_step env c' (Write (block_writer b)) = Inr c''
     \<and> duty_ok env b keeps content h k c (is, if a < length is then Suc a else a, m) c''"
proof -
  let ?N = "length (Miners c)" and ?n = "block_writer b"
  let ?w0 = "writers c ! ?n" and ?rs = "\<lambda>rk. map (Some \<circ> rk) is"
  obtain ms ws rk st where c': "c' = duty_state env b h c is m ms ws st"
    and facts: "duty_facts env b keeps content k c (is, a, m) ms ws rk st"
    using assms(1) unfolding duty_ok_def fst_conv snd_conv by blast
  note d = facts [unfolded duty_facts_def prod.case Let_def]
  obtain w out where ws: "ws = (w, out)" by fastforce
  have len: "length is \<le> ?N" using all_submitted(1) d by blast
  have w': "writers c' ! ?n = w" "records c' = out" "?n < length (writers c')"
    using assms(2) by (simp_all add: c' duty_state_def ws)
  show ?thesis
  proof (cases "a < length is")
    case False
    then have "a = length is" using d by simp
    then have "writer_turn env w out = Inr (w, out)"
      using d by (simp add: writer_turn_def ws writer_at_def)
    moreover have "(writers c')[?n := w] = writers c'" using w' by (metis list_update_id)
    ultimately have "mining_step env c' (Write ?n) = Inr c'"
      using w' by (simp add: mining_step_def)
    then show ?thesis using False assms(1) by simp
  next
    case True
    have "is \<noteq> []" using True by auto
    then have "\<exists>vs. collectAndWrite (nsort env) keeps ?N (?rs rk) = Some (Inr (map Some vs))"
      if "length (?rs rk) = ?N"
      using Merge_submissions [OF assms(3) _ _ assms(4), of "is" env b k rk] d that by auto
    then obtain s where s: "writer_turn env w out = Inr s"
      "writer_at env content ?N (?w0, records c) (?rs rk) (Suc a) s"
      using writer_turn_at [of env content ?N ?w0 "records c" "?rs rk" a w out keeps t, OF _ _ _ w0] d True len
      unfolding ws by auto
    have facts': "duty_facts env b keeps content k c (is, Suc a, m) ms s rk st"
      using d s(2) True unfolding duty_facts_def prod.case Let_def by simp
    have "mining_step env c' (Write ?n) = Inr (duty_state env b h c is m ms s st)"
      using s(1) w' by (simp add: mining_step_def split_beta) (simp add: c' duty_state_def)
    with duty_okI [OF facts', of h] True show ?thesis by auto
  qed
qed

lemma alist_append: "k \<notin> fst ` set xs \<Longrightarrow> AList.update k v xs = xs @ [(k, v)]"
  by (induction xs) auto

lemma group_insert:
  assumes "distinct is" "m < length is" "StatsID (st (is ! m)) = int (is ! m)"
  shows "(group_of env st h (take m is))\<lparr>GroupMinerStats.Miners := AList.update (StatsID (st (is ! m)))
      (timed env (st (is ! m))) (GroupMinerStats.Miners (group_of env st h (take m is)))\<rparr>
    = group_of env st h (take (Suc m) is)"
proof -
  let ?xs = "map (\<lambda>i. (int i, timed env (st i))) (take m is)"
  have "is ! m \<notin> set (take m is)"
    using assms(1,2) by (metis distinct_take id_take_nth_drop not_distinct_conv_prefix take_Suc_conv_app_nth)
  then have "int (is ! m) \<notin> fst ` set ?xs" by auto
  then have "AList.update (int (is ! m)) v ?xs = ?xs @ [(int (is ! m), v)]" for v
    by (rule alist_append)
  then show ?thesis using assms(2,3) by (simp add: group_of_def take_Suc_conv_app_nth)
qed

lemma duty_collect:
  assumes "duty_ok env b keeps content h k c (is, a, m) c'" "block_stats b < length (statsLists c)"
    and "statsAggregate c = block_stats b"
  shows "duty_ok env b keeps content h k c (is, a, if m < length is then Suc m else m) (collect_turn env c')"
proof -
  let ?N = "length (Miners c)" and ?ch = "block_stats b"
  obtain ms ws rk st where c': "c' = duty_state env b h c is m ms ws st"
    and facts: "duty_facts env b keeps content k c (is, a, m) ms ws rk st"
    using assms(1) unfolding duty_ok_def fst_conv snd_conv by blast
  note d = facts [unfolded duty_facts_def prod.case Let_def]
  have len: "length is \<le> ?N" using all_submitted(1) d by blast
  have chan: "statsLists c' ! statsAggregate c' = map st (drop m is)"
    using assms(2,3) by (simp add: c' duty_state_def)
  show ?thesis
  proof (cases "m < length is")
    case False
    then have "m = length is" using d by simp
    then have "collect_turn env c' = c'" using chan by (simp add: collect_turn_def split: option.split)
    then show ?thesis using False assms(1) by simp
  next
    case True
    have m: "m \<noteq> ?N" "m < ?N" using True len by simp_all
    have "is ! m \<in> set is" using True by simp
    then have "StatsID (st (is ! m)) = int (is ! m)" using d by (simp add: statistics_def)
    then have g: "(group_of env st h (take m is))\<lparr>GroupMinerStats.Miners := AList.update (StatsID (st (is ! m)))
        (timed env (st (is ! m))) (GroupMinerStats.Miners (group_of env st h (take m is)))\<rparr>
      = group_of env st h (take (Suc m) is)"
      using d True by (intro group_insert) auto
    have next_stats: "statsLists c' ! statsAggregate c' = st (is ! m) # map st (drop (Suc m) is)"
      using chan True by (simp add: Cons_nth_drop_Suc [symmetric])
    have sel: "collecting c' = Some (group_of env st h (take m is), m)" "Miners c' = ms" "length ms = ?N"
      "statsAggregate c' = ?ch" "MiningStatsChannel c' = MiningStatsChannel c"
      using m(1) d assms(3) by (simp_all add: c' duty_state_def)
    have "collect_turn env c' = (let c1 = c'\<lparr>statsLists := (statsLists c')[?ch := map st (drop (Suc m) is)]\<rparr> in
        if m + 1 = ?N
        then c1\<lparr>collecting := None, MiningStatsChannel := MiningStatsChannel c @ [group_of env st h (take (Suc m) is)]\<rparr>
        else c1\<lparr>collecting := Some (group_of env st h (take (Suc m) is), m + 1)\<rparr>)"
      using next_stats g unfolding collect_turn_def sel by (simp add: Let_def sel)
    also have "\<dots> = duty_state env b h c is (Suc m) ms ws st"
    proof (cases "Suc m = ?N")
      case last: True
      then have "take (Suc m) is = is" using True len by simp
      then show ?thesis using last m unfolding c' duty_state_def Let_def by simp
    next
      case False
      then show ?thesis using m unfolding c' duty_state_def Let_def by simp
    qed
    finally have "collect_turn env c' = duty_state env b h c is (Suc m) ms ws st" .
    moreover have facts': "duty_facts env b keeps content k c (is, a, Suc m) ms ws rk st"
      using d True unfolding duty_facts_def prod.case Let_def by simp
    ultimately show ?thesis using duty_okI [OF facts', of h] True by simp
  qed
qed

text \<open>The events after minute 9, and what they lead to.\<close>

definition block_event :: "nat \<Rightarrow> nat \<Rightarrow> mining_event \<Rightarrow> bool" where
  "block_event N n e \<longleftrightarrow> (\<exists>i < N. e = Turn i) \<or> e = Write n \<or> e = Collected"

lemma duties:
  assumes "duty_ok env b keeps content h k c d c'" "\<forall>e \<in> set es. block_event (length (Miners c)) (block_writer b) e"
    and "block_writer b < length (writers c)" "block_stats b < length (statsLists c)" "statsAggregate c = block_stats b"
    and "nonce_sort (nsort env)" "0 < keeps"
    and w0: "wKeep (writers c ! block_writer b) = keeps" "miners (writers c ! block_writer b) = int (length (Miners c))"
      "launched (writers c ! block_writer b)" "\<not> returned (writers c ! block_writer b)"
      "oprTemplate (writers c ! block_writer b) = Some t" "marshals_to env t content"
      "\<not> forwards (writers c ! block_writer b) \<longrightarrow> factomd_takes env"
  shows "\<exists>c''. LaunchMiners env es c' = Inr c''
     \<and> duty_ok env b keeps content h k c (foldl (duty_step (block_writer b)) d es) c''"
  using assms(1,2)
proof (induction es arbitrary: d c')
  case Nil
  then show ?case by simp
next
  case (Cons e es)
  let ?n = "block_writer b"
  obtain "is" a m where d: "d = (is, a, m)" by (cases d)
  have "\<exists>c1. mining_step env c' e = Inr c1 \<and> duty_ok env b keeps content h k c (duty_step ?n d e) c1"
  proof -
    consider i where "i < length (Miners c)" "e = Turn i" | "e = Write ?n" | "e = Collected"
      using Cons.prems(2) by (auto simp: block_event_def)
    then show ?thesis
    proof cases
      case 1
      then show ?thesis
        using duty_turn [OF Cons.prems(1) [unfolded d] 1(1) assms(3,4)] by (simp add: d mining_step_def)
    next
      case 2
      then show ?thesis
        using duty_write [OF Cons.prems(1) [unfolded d] assms(3,6,7) w0] by (simp add: d)
    next
      case 3
      then show ?thesis
        using duty_collect [OF Cons.prems(1) [unfolded d] assms(4,5)] by (simp add: d mining_step_def)
    qed
  qed
  then obtain c1 where c1: "mining_step env c' e = Inr c1" "duty_ok env b keeps content h k c (duty_step ?n d e) c1"
    by blast
  from Cons.IH [OF c1(2)] Cons.prems(2) c1(1) show ?case by (simp add: LaunchMiners_Cons)
qed

lemma duty_fold_turns:
  "set (fst (foldl (duty_step n) d es)) = set (fst d) \<union> {i. Turn i \<in> set es}"
proof (induction es arbitrary: d)
  case (Cons e es)
  obtain "is" a m where "d = (is, a, m)" by (cases d)
  then have "set (fst (duty_step n d e)) = set (fst d) \<union> {i. Turn i = e}" by (cases e) auto
  with Cons show ?case by auto
qed simp

lemma duty_fold_bounds:
  "distinct (fst d) \<and> fst (snd d) \<le> length (fst d) \<and> snd (snd d) \<le> length (fst d) \<Longrightarrow>
     (case foldl (duty_step n) d es of (is, a, m) \<Rightarrow> distinct is \<and> a \<le> length is \<and> m \<le> length is)"
proof (induction es arbitrary: d)
  case Nil
  then show ?case by (simp add: split_beta)
next
  case (Cons e es)
  obtain "is" a m where "d = (is, a, m)" by (cases d)
  with Cons.prems have "distinct (fst (duty_step n d e)) \<and> fst (snd (duty_step n d e)) \<le> length (fst (duty_step n d e))
      \<and> snd (snd (duty_step n d e)) \<le> length (fst (duty_step n d e))"
    by (cases e) auto
  from Cons.IH [OF this] show ?case by simp
qed

lemma duty_fold_writes:
  "a \<le> length is \<Longrightarrow> foldl (duty_step n) (is, a, m) (replicate k (Write n)) = (is, min (length is) (a + k), m)"
  by (induction k arbitrary: a) auto

lemma duty_fold_collects:
  "m \<le> length is \<Longrightarrow> foldl (duty_step n) (is, a, m) (replicate k Collected) = (is, a, min (length is) (m + k))"
  by (induction k arbitrary: m) auto

section \<open>Between blocks\<close>

definition rested :: "'w mining_env \<Rightarrow> int \<Rightarrow> 'w MiningCoordinator \<Rightarrow> bool" where
  "rested env keeps c \<longleftrightarrow> \<not> mining c \<and> \<not> stopped c \<and> collecting c = None
     \<and> FactomEntryWriter c < length (writers c) \<and> Next (writers c ! FactomEntryWriter c) = None
     \<and> wKeep (writers c ! FactomEntryWriter c) = keeps \<and> 0 < keeps
     \<and> (\<forall>i < length (Miners c). belongs keeps i (Miners c ! i) \<and> phase (Miners c ! i) \<in> {Starting, Waiting}
          \<and> CommandChannel (Miners c ! i) = [])"

text \<open>The record that was made, with the bytes it stands for; its assets are a map.\<close>

definition record_for :: "'w mining_env \<Rightarrow> OraclePriceRecord \<Rightarrow> byte list \<Rightarrow> bool" where
  "record_for env r content \<longleftrightarrow> marshals_to env r content \<and> OraclePriceRecord.OPRHash r = sha256 content
     \<and> distinct (map fst (entries (OraclePriceRecord.Assets r)))"

lemma sha256_not_Nil: "0 < length (sha256 bs)"
  by (simp add: length_sha256)

lemma GetHash_made: "record_for env r content \<Longrightarrow>
    GetHash (mjson_float env) (mjson_record env) (mpmarshal env) r = Inr (sha256 content, r)"
  using sha256_not_Nil [of content] by (simp add: GetHash_def record_for_def)

lemma clone_marshals:
  assumes "record_for env r content"
  shows "marshals_to env (CloneEntryData r) content" "entry_of env (CloneEntryData r) = entry_of env r"
proof -
  have "foldl (\<lambda>xs (k, v). AList.update k v xs) [] (entries (OraclePriceRecord.Assets r)) = entries (OraclePriceRecord.Assets r)"
    using fold_update_append [of "[]" "entries (OraclePriceRecord.Assets r)"] assms by (simp add: record_for_def)
  moreover have "OraclePriceRecord.Assets r \<noteq> None" "OraclePriceRecord.Version r \<noteq> 1"
    using assms by (auto simp: record_for_def marshals_to_def SafeMarshal_def proto_version_def split: if_splits)
  ultimately have same: "OraclePriceRecord.Assets (CloneEntryData r) = OraclePriceRecord.Assets r"
    "OraclePriceRecord.Version (CloneEntryData r) = OraclePriceRecord.Version r" "OraclePriceRecord.Version r \<noteq> 1"
    "OPRChainID (CloneEntryData r) = OPRChainID r"
    "marshal_proto (mpmarshal env) (CloneEntryData r) = marshal_proto (mpmarshal env) r"
    by (auto simp: CloneEntryData_def entries_def marshal_proto_def)
  then show "marshals_to env (CloneEntryData r) content"
    using assms unfolding record_for_def marshals_to_def SafeMarshal_def by (auto split: if_splits)
  show "entry_of env (CloneEntryData r) = entry_of env r"
    by (simp add: fun_eq_iff entry_of_def same)
qed

definition block_for :: "'w MiningCoordinator \<Rightarrow> OraclePriceRecord \<Rightarrow> byte list \<Rightarrow> mining_block" where
  "block_for c r content = \<lparr>block_writer = length (writers c), block_stats = length (statsLists c),
     block_hash = sha256 content, block_low = OprMinimumDifficulty r, block_hashes = 0\<rparr>"

text \<open>What minute 1 does when there are entry credits and a record is made.\<close>

lemma minute_one_starts:
  assumes "rested env keeps c" "ECBalance env (writers c ! FactomEntryWriter c) (outside c) = Inr bal" "bal \<noteq> 0"
    and "new_opr env h (outside c) = (Inr r, w')" "record_for env r content"
  shows "\<exists>c1. mining_step env c (Alert h 1) = Inr c1
     \<and> c1 = c\<lparr>FactomEntryWriter := length (writers c), writers := writers c1, mining := True,
         statsAggregate := length (statsLists c), statsLists := statsLists c @ [[]],
         Miners := map (SendCommand (block_start (block_for c r content))) (Miners c), outside := w'\<rparr>
     \<and> length (writers c1) = Suc (length (writers c))
     \<and> writers c1 ! length (writers c) = (NewEntryWriter keeps)\<lparr>oprTemplate := Some (CloneEntryData r),
          ec := ec (writers c1 ! length (writers c)),
          forwards := forwards (writers c ! FactomEntryWriter c)\<rparr>"
proof -
  let ?i = "FactomEntryWriter c" and ?n = "length (writers c)"
  let ?w = "if forwards (writers c ! ?i) then NewEntryForwarder (wKeep (writers c ! ?i))
      else (NewEntryWriter (wKeep (writers c ! ?i)))\<lparr>ec := ec (writers c ! ?i)\<rparr>"
  let ?ws = "(writers c)[?i := (writers c ! ?i)\<lparr>Next := Some ?n\<rparr>] @ [?w]"
  note r = assms(1) [unfolded rested_def]
  have n: "NextBlockWriter ?i (writers c) = (?n, ?ws)"
    using r by (simp add: NextBlockWriter_def)
  have "oprTemplate ?w = None" by (simp add: NewEntryForwarder_def NewEntryWriter_def)
  then have set: "SetOPR ?n r ?ws = (writers c)[?i := (writers c ! ?i)\<lparr>Next := Some ?n\<rparr>]
      @ [?w\<lparr>oprTemplate := Some (CloneEntryData r)\<rparr>]"
    by (simp add: SetOPR_def nth_append list_update_append)
  let ?c1 = "c\<lparr>FactomEntryWriter := ?n, writers := SetOPR ?n r ?ws, mining := True,
         statsAggregate := length (statsLists c), statsLists := statsLists c @ [[]],
         Miners := map (SendCommand (block_start (block_for c r content))) (Miners c), outside := w'\<rparr>"
  have "mining_step env c (Alert h 1) = Inr ?c1"
    using r assms(2-4) GetHash_made [OF assms(5)]
    by (simp add: mining_step_def alert_step_def minute_one_def begin_mining_def n block_for_def)
  moreover have "writers ?c1 ! ?n = ?w\<lparr>oprTemplate := Some (CloneEntryData r)\<rparr>"
    "length (writers ?c1) = Suc ?n"
    by (simp_all add: set nth_append)
  moreover have "?w\<lparr>oprTemplate := Some (CloneEntryData r)\<rparr> = (NewEntryWriter keeps)\<lparr>oprTemplate := Some (CloneEntryData r),
          ec := ec ?w, forwards := forwards (writers c ! ?i)\<rparr>"
    using r by (simp add: NewEntryForwarder_def NewEntryWriter_def)
  ultimately show ?thesis by (intro exI [of _ ?c1]) auto
qed

section \<open>A block is mined\<close>

definition hashes_in :: "mining_event list \<Rightarrow> nat \<Rightarrow> nat" where
  "hashes_in es i = count_list es (Turn i) - 1"

text \<open>The state at minute 9 begins the duties.\<close>

lemma minute_nine_duties:
  assumes "mining c" "\<not> stopped c" "collecting c = None" "Miners c \<noteq> []"
    and "statsAggregate c = block_stats b" "block_stats b < length (statsLists c)"
      "statsLists c ! block_stats b = []"
    and "FactomEntryWriter c = block_writer b" "block_writer b < length (writers c)"
      "aggregate (writers c ! block_writer b) = []" "minerLists (writers c ! block_writer b) = []"
      "\<not> returned (writers c ! block_writer b)"
    and "\<forall>i < length (Miners c). miner_at env b keeps i (Hashing (k i)) (Miners c ! i)"
  shows "\<exists>c1. mining_step env c (Alert h 9) = Inr c1
     \<and> c1 = c\<lparr>mining := False, Miners := map (SendCommand end_batch) (Miners c),
         writers := CollectAndWrite (block_writer b) (writers c),
         collecting := Some (NewGroupMinerStats ''main'' (sint h), 0)\<rparr>
     \<and> duty_ok env b keeps content h k c1 ([], 0, 0) c1"
proof -
  let ?n = "block_writer b" and ?ms = "map (SendCommand end_batch) (Miners c)"
  let ?c1 = "c\<lparr>mining := False, Miners := ?ms, writers := CollectAndWrite ?n (writers c),
      collecting := Some (NewGroupMinerStats ''main'' (sint h), 0)\<rparr>"
  have step: "mining_step env c (Alert h 9) = Inr ?c1"
    using assms(1-3,8) by (simp add: mining_step_def alert_step_def minute_nine_def)
  let ?w = "writers ?c1 ! ?n" and ?st = "\<lambda>_. NewSingleMinerStats" and ?rk = "\<lambda>_. undefined"
  have w: "?w = (writers c ! ?n)\<lparr>launched := True\<rparr>" using assms(9) by (simp add: CollectAndWrite_def)
  have "length (Miners c) \<noteq> 0" using assms(4) by simp
  have "duty_state env b h ?c1 [] 0 ?ms (?w, records ?c1) ?st = ?c1"
    using assms(4,6,7) \<open>length (Miners c) \<noteq> 0\<close>
    by (simp add: duty_state_def group_of_def NewGroupMinerStats_def CollectAndWrite_def
        list_update_same_conv)
  moreover have "writer_at env content (length (Miners ?c1)) (?w, records ?c1) [] 0 (?w, records ?c1)"
    unfolding w using assms(4,10,11,12)
    by (auto simp: writer_at_def intro!: EntryWriter.equality)
  then have "duty_facts env b keeps content k ?c1 ([], 0, 0) ?ms (?w, records ?c1) ?rk ?st"
    using assms(13) by (auto simp: duty_facts_def miner_at_def belongs_def working_def SendCommand_def)
  from duty_okI [OF this, of h] have "duty_ok env b keeps content h k ?c1 ([], 0, 0)
      (duty_state env b h ?c1 [] 0 ?ms (?w, records ?c1) ?st)" .
  ultimately show ?thesis using step by auto
qed

text \<open>The end of the duties is a rest.\<close>

lemma duties_done:
  assumes "duty_ok env b keeps content h k c (is, N, N) c'" "N = length (Miners c)" "set is = {..<N}" "0 < N"
    and "nonce_sort (nsort env)" "0 < keeps"
    and "\<not> mining c" "\<not> stopped c" "FactomEntryWriter c = block_writer b" "block_writer b < length (writers c)"
      "Next (writers c ! block_writer b) = None" "wKeep (writers c ! block_writer b) = keeps"
      "oprTemplate (writers c ! block_writer b) = Some t"
  shows "rested env keeps c' \<and> outside c' = outside c \<and> (\<exists>vs g.
     best_of (nat keeps) (\<Sum>i < N. found (lx env) (block_hash b) (block_low b) (int i) (k i)) (mset vs)
   \<and> sorted_wrt (\<lambda>u v. UDifficulty v \<le> UDifficulty u) vs
   \<and> (let fw = forwards (writers c ! block_writer b) in
      delivered fw (records c') = delivered fw (records c) @ map (entry_of env t content) vs)
   \<and> MiningStatsChannel c' = MiningStatsChannel c @ [g] \<and> BlockHeight g = sint h
   \<and> (\<forall>i < N. \<exists>s. map_of (GroupMinerStats.Miners g) (int i) = Some s \<and> TotalHashes s = wrap64 (int (k i))))"
proof -
  obtain ms ws rk st where c': "c' = duty_state env b h c is N ms ws st"
    and facts: "duty_facts env b keeps content k c (is, N, N) ms ws rk st"
    using assms(1) unfolding duty_ok_def fst_conv snd_conv by blast
  note d = facts [unfolded duty_facts_def prod.case Let_def assms(2) [symmetric]]
  obtain w out where ws: "ws = (w, out)" by fastforce
  have len: "length is = N" using d assms(3) distinct_card [of "is"] by simp
  then have "is \<noteq> []" using assms(4) by auto
  then obtain vs where vs: "collectAndWrite (nsort env) keeps N (map (Some \<circ> rk) is) = Some (Inr (map Some vs))"
     "best_of (nat keeps) (\<Sum>i < N. found (lx env) (block_hash b) (block_low b) (int i) (k i)) (mset vs)"
     "sorted_wrt (\<lambda>u v. UDifficulty v \<le> UDifficulty u) vs"
    using Merge_submissions [OF assms(5) _ _ assms(6), of "is" env b k rk] d len assms(3) by auto
  let ?w0 = "writers c ! block_writer b"
  have "w = ?w0\<lparr>aggregate := map (Some \<circ> rk) is, minerLists := [], returned := True\<rparr>"
    "delivered (forwards ?w0) out = delivered (forwards ?w0) (records c) @ map (entry_of env t content) vs"
    using d len vs(1) assms(12,13) by (auto simp: ws writer_at_def)
  note w = this
  have sel: "Miners c' = ms" "mining c' = mining c" "stopped c' = stopped c" "collecting c' = None"
    "FactomEntryWriter c' = FactomEntryWriter c" "writers c' = (writers c)[block_writer b := w]"
    "outside c' = outside c" "records c' = out"
    "MiningStatsChannel c' = MiningStatsChannel c @ [group_of env st h is]"
    by (simp_all add: c' duty_state_def ws assms(2) [symmetric])
  have "belongs keeps i (ms ! i) \<and> phase (ms ! i) \<in> {Starting, Waiting} \<and> CommandChannel (ms ! i) = []"
    if "i < length ms" for i
    using d that assms(3) by (auto simp: miner_at_def)
  then have "rested env keeps c'"
    using assms(6-12) unfolding rested_def sel by (simp add: w)
  moreover have "\<exists>s. map_of (GroupMinerStats.Miners (group_of env st h is)) (int i) = Some s
      \<and> TotalHashes s = wrap64 (int (k i))" if "i < N" for i
  proof -
    have "i \<in> set is" using that assms(3) by simp
    moreover have "map_of (map (\<lambda>i. (int i, f i)) xs) (int i) = (if i \<in> set xs then Some (f i) else None)"
      for f :: "nat \<Rightarrow> TimedMinerStats" and xs
      by (induction xs) auto
    ultimately show ?thesis
      using d by (simp add: group_of_def statistics_def timed_def SingleMinerStats.defs)
  qed
  moreover have "BlockHeight (group_of env st h is) = sint h"
    by (simp add: group_of_def NewGroupMinerStats_def)
  ultimately show ?thesis using vs(2,3) w(2) unfolding sel Let_def by blast
qed

lemma block_mined:
  fixes c :: "'w MiningCoordinator"
  defines "N \<equiv> length (Miners c)" and "n \<equiv> length (writers c)"
    and "fw \<equiv> forwards (writers c ! FactomEntryWriter c)"
  assumes "nonce_sort (nsort env)" "hash_ok (lx env)" "fw \<or> factomd_takes env"
    and "rested env keeps c" "Miners c \<noteq> []"
    and "ECBalance env (writers c ! FactomEntryWriter c) (outside c) = Inr bal" "bal \<noteq> 0"
    and "new_opr env h (outside c) = (Inr r, w')" "record_for env r content"
    and "\<forall>e \<in> set before. \<exists>i < N. e = Turn i" "\<forall>i < N. Turn i \<in> set before"
    and "\<forall>e \<in> set after. block_event N n e" "\<forall>i < N. Turn i \<in> set after"
  shows "\<exists>c' vs g. LaunchMiners env (Alert h 1 # before @ Alert h' 9 # after
         @ replicate N (Write n) @ replicate N Collected) c = Inr c'
     \<and> best_of (nat keeps) (\<Sum>i < N. found (lx env) (sha256 content) (OprMinimumDifficulty r) (int i)
         (hashes_in before i)) (mset vs)
     \<and> sorted_wrt (\<lambda>u v. UDifficulty v \<le> UDifficulty u) vs
     \<and> delivered fw (records c') = delivered fw (records c) @ map (entry_of env r content) vs
     \<and> MiningStatsChannel c' = MiningStatsChannel c @ [g] \<and> BlockHeight g = sint h'
     \<and> (\<forall>i < N. \<exists>s. map_of (GroupMinerStats.Miners g) (int i) = Some s
          \<and> TotalHashes s = wrap64 (int (hashes_in before i)))
     \<and> rested env keeps c' \<and> outside c' = w'"
proof -
  let ?b = "block_for c r content"
  have b: "block_writer ?b = n" "block_stats ?b = length (statsLists c)" "block_hash ?b = sha256 content"
    "block_low ?b = OprMinimumDifficulty r"
    by (simp_all add: block_for_def n_def)
  have keeps: "0 < keeps" using assms(7) by (simp add: rested_def)
  obtain c1 where c1: "mining_step env c (Alert h 1) = Inr c1"
    "c1 = c\<lparr>FactomEntryWriter := n, writers := writers c1, mining := True,
         statsAggregate := length (statsLists c), statsLists := statsLists c @ [[]],
         Miners := map (SendCommand (block_start ?b)) (Miners c), outside := w'\<rparr>"
    "length (writers c1) = Suc n"
    "writers c1 ! n = (NewEntryWriter keeps)\<lparr>oprTemplate := Some (CloneEntryData r),
          ec := ec (writers c1 ! n), forwards := fw\<rparr>"
    using minute_one_starts [OF assms(7,9-12)] unfolding n_def fw_def by blast
  have sel1: "Miners c1 = map (SendCommand (block_start ?b)) (Miners c)" "mining c1" "statsAggregate c1 = length (statsLists c)"
    "statsLists c1 = statsLists c @ [[]]" "FactomEntryWriter c1 = n" "records c1 = records c"
    "MiningStatsChannel c1 = MiningStatsChannel c" "outside c1 = w'" "stopped c1 = stopped c" "collecting c1 = collecting c"
    by (subst c1(2), simp)+
  have ordered: "\<forall>i < length (Miners c1). miner_at env ?b keeps i Ordered (Miners c1 ! i)"
    using assms(7) by (auto simp: sel1(1) rested_def miner_at_def belongs_def SendCommand_def)
  have N1: "length (Miners c1) = N" by (simp add: sel1(1) N_def)
  have "miners (writers c1 ! n) = 0" by (subst c1(4)) (simp add: NewEntryWriter_def)
  then obtain ms where ms: "LaunchMiners env before c1 = Inr (c1\<lparr>Miners := ms, writers := (writers c1)[n :=
        (writers c1 ! n)\<lparr>miners := int (card {i. Turn i \<in> set before})\<rparr>]\<rparr>)"
     "length ms = N" "\<forall>i < N. miner_at env ?b keeps i (hashing_after i before) (ms ! i)"
    using miners_hash [OF ordered keeps assms(5), of before] assms(13) c1(3) by (auto simp: b N1)
  have "{i. Turn i \<in> set before} = {..<N}" using assms(13,14) by auto
  then have card: "card {i. Turn i \<in> set before} = N" by simp
  let ?w = "(writers c1 ! n)\<lparr>miners := int N\<rparr>"
  let ?c2 = "c1\<lparr>Miners := ms, writers := (writers c1)[n := ?w]\<rparr>"
  have hashing: "\<forall>i < length (Miners ?c2). miner_at env ?b keeps i (Hashing (hashes_in before i)) (Miners ?c2 ! i)"
  proof (intro allI impI)
    fix i assume i: "i < length (Miners ?c2)"
    then have "count_list before (Turn i) \<noteq> 0" using assms(14) ms(2) by (simp add: count_list_0_iff)
    then have "hashing_after i before = Hashing (hashes_in before i)"
      by (cases "count_list before (Turn i)") (simp_all add: hashing_after_def hashes_in_def)
    then show "miner_at env ?b keeps i (Hashing (hashes_in before i)) (Miners ?c2 ! i)"
      using ms(2) ms(3) [rule_format, of i] i by simp
  qed
  have w2: "writers ?c2 ! n = (NewEntryWriter keeps)\<lparr>oprTemplate := Some (CloneEntryData r),
      ec := ec (writers c1 ! n), forwards := fw, miners := int N\<rparr>"
    using c1(3) by (simp, subst c1(4), simp)
  have "\<not> stopped c1" "collecting c1 = None" using assms(7) sel1 by (simp_all add: rested_def)
  moreover have "Miners ?c2 \<noteq> []" using assms(8) ms(2) by (auto simp: N_def)
  ultimately obtain c3 where c3: "mining_step env ?c2 (Alert h' 9) = Inr c3"
     "c3 = ?c2\<lparr>mining := False, Miners := map (SendCommand end_batch) (Miners ?c2),
         writers := CollectAndWrite n (writers ?c2),
         collecting := Some (NewGroupMinerStats ''main'' (sint h'), 0)\<rparr>"
     "duty_ok env ?b keeps content h' (hashes_in before) c3 ([], 0, 0) c3"
    using minute_nine_duties [of ?c2 ?b env keeps "hashes_in before" h' content] hashing c1(3) w2
    by (auto simp: b sel1 NewEntryWriter_def nth_append simp del: nth_list_update_eq)
  have sel3: "length (Miners c3) = N" "length (writers c3) = Suc n" "length (statsLists c3) = Suc (length (statsLists c))"
    "statsAggregate c3 = length (statsLists c)" "\<not> mining c3" "\<not> stopped c3" "FactomEntryWriter c3 = n"
    "records c3 = records c" "MiningStatsChannel c3 = MiningStatsChannel c" "outside c3 = w'"
    "writers c3 ! n = (writers ?c2 ! n)\<lparr>launched := True\<rparr>"
    using ms(2) c1(3) sel1 \<open>\<not> stopped c1\<close> by (simp_all add: c3(2) CollectAndWrite_def)
  have w3: "wKeep (writers c3 ! n) = keeps" "miners (writers c3 ! n) = int N" "launched (writers c3 ! n)"
    "\<not> returned (writers c3 ! n)" "oprTemplate (writers c3 ! n) = Some (CloneEntryData r)"
    "forwards (writers c3 ! n) = fw" "Next (writers c3 ! n) = None"
    unfolding sel3(11) w2 by (simp_all add: NewEntryWriter_def)
  note template = clone_marshals [OF assms(12)]
  let ?es = "after @ replicate N (Write n) @ replicate N Collected"
  have "\<forall>e \<in> set ?es. block_event (length (Miners c3)) (block_writer ?b) e"
    using assms(15) by (auto simp: sel3(1) b block_event_def)
  from duties [OF c3(3) this _ _ _ assms(4) keeps, where t = "CloneEntryData r"] template(1) sel3 w3 assms(6)
  obtain c' where c': "LaunchMiners env ?es c3 = Inr c'"
    "duty_ok env ?b keeps content h' (hashes_in before) c3 (foldl (duty_step n) ([], 0, 0) ?es) c'"
    by (auto simp: b)
  obtain "is" a m where f: "foldl (duty_step n) ([], 0, 0) after = (is, a, m)" by (metis prod_cases3)
  have "set is = {..<N}"
    using duty_fold_turns [of n "([], 0, 0)" after] f assms(15,16) by (auto simp: block_event_def)
  moreover have "distinct is" "a \<le> length is" "m \<le> length is"
    using duty_fold_bounds [of "([], 0, 0)" n after] f by auto
  moreover from calculation have len: "length is = N" by (metis card_lessThan distinct_card)
  ultimately have "foldl (duty_step n) ([], 0, 0) ?es = (is, N, N)"
    by (simp add: f duty_fold_writes duty_fold_collects)
  with c'(2) have finish: "duty_ok env ?b keeps content h' (hashes_in before) c3 (is, N, N) c'" by simp
  have "0 < N" using assms(8) by (simp add: N_def)
  from duties_done [OF finish sel3(1) [symmetric] \<open>set is = {..<N}\<close> this assms(4) keeps sel3(5,6) _ _ _ _ _ , unfolded b]
    sel3 w3 obtain vs g where final: "rested env keeps c'" "outside c' = w'"
      "best_of (nat keeps) (\<Sum>i < N. found (lx env) (sha256 content) (OprMinimumDifficulty r) (int i)
         (hashes_in before i)) (mset vs)"
      "sorted_wrt (\<lambda>u v. UDifficulty v \<le> UDifficulty u) vs"
      "delivered fw (records c') = delivered fw (records c) @ map (entry_of env r content) vs"
      "MiningStatsChannel c' = MiningStatsChannel c @ [g]" "BlockHeight g = sint h'"
      "\<forall>i < N. \<exists>s. map_of (GroupMinerStats.Miners g) (int i) = Some s
          \<and> TotalHashes s = wrap64 (int (hashes_in before i))"
    unfolding Let_def by (auto simp: template(2))
  have "LaunchMiners env (Alert h 1 # before @ Alert h' 9 # ?es) c = Inr c'"
    using c1(1) ms(1) c3(1) c'(1) card by (simp add: LaunchMiners_Cons LaunchMiners_append)
  with final show ?thesis by blast
qed

text \<open>What a miner finds has the difficulty that the graders compute.\<close>

lemma found_honest:
  assumes "v \<in># found hashing hash low i k" "hash_ok hashing"
  shows "Mining.ComputeDifficulty hashing hash (UNonce v) = Inr (UDifficulty v)"
  using assms by (auto simp: found_def UNonce_mined ComputeDifficulty_mined)

text \<open>
  C5. Let the coordinator rest between blocks, with some miners and with entry credits, and let a valid
  record (version 2 or later) be made at minute 1. Whatever the order in which the miners take their
  turns up to minute 9, and they, the writer and the coordinator after it, if every miner has taken the
  command to start before minute 9 and the command to end after it: nothing fails, and the entries that
  factomd takes (or the forwarder hands on) for the block are those of the best nonces of all that all
  miners have hashed for the record, the most difficult first, as many as the miners keep; the graders of
  the record's version accept each entry and count it as honest; the statistics have the hashes of every
  miner; and the coordinator rests again. It does so when it is new (\<open>coordinator_rested\<close>), and a record
  of \<open>NewOpr\<close> is one that can be mined (\<open>fresh_record_for\<close>).
\<close>

theorem mined_block:
  fixes c :: "'w MiningCoordinator"
  defines "N \<equiv> length (Miners c)" and "n \<equiv> length (writers c)"
    and "fw \<equiv> forwards (writers c ! FactomEntryWriter c)"
  assumes "nonce_sort (nsort env)" "hash_ok (lx env)" "fw \<or> factomd_takes env"
    and "rested env keeps c" "Miners c \<noteq> []"
    and "ECBalance env (writers c ! FactomEntryWriter c) (outside c) = Inr bal" "bal \<noteq> 0"
    and "new_opr env h (outside c) = (Inr r, w')" "record_for env r content"
    and "\<forall>e \<in> set before. \<exists>i < N. e = Turn i" "\<forall>i < N. Turn i \<in> set before"
    and "\<forall>e \<in> set after. block_event N n e" "\<forall>i < N. Turn i \<in> set after"
    and "ValidateOPR isValidAddress net (sint h) r = Inr True" "OraclePriceRecord.WinPreviousOPR r = map hexEncode ws"
      "verifyWinnerFormat (map hexEncode ws) 25"
      "NewGrader (OraclePriceRecord.Version r) (OraclePriceRecord.Dbht r) (map hexEncode ws) = Inr g"
    and "\<And>a. isValidAddress a \<Longrightarrow> take 2 a = ''FA'' \<Longrightarrow> Valid a = Inr ()"
    and "\<And>m bs. mpmarshal env m = Inr bs \<Longrightarrow> Unmarshal zero_V2Content bs = Inr (V2_of_proto m)"
  shows "\<exists>c' vs gs. LaunchMiners env (Alert h 1 # before @ Alert h' 9 # after
         @ replicate N (Write n) @ replicate N Collected) c = Inr c'
     \<and> best_of (nat keeps) (\<Sum>i < N. found (lx env) (sha256 content) (OprMinimumDifficulty r) (int i)
         (hashes_in before i)) (mset vs)
     \<and> sorted_wrt (\<lambda>u v. UDifficulty v \<le> UDifficulty u) vs
     \<and> delivered fw (records c') = delivered fw (records c) @ map (entry_of env r content) vs
     \<and> (\<forall>v \<in> set vs. \<forall>eh. length eh = 32 \<longrightarrow> (\<exists>x g'.
          AddOPR json g eh (FactomEntry.ExtIDs (entry_of env r content v)) content = Inr g'
        \<and> oprs (base_of g') = oprs (base_of g) @ [x] \<and> GradingOPR.Nonce x = UNonce v \<and> honest (lx env) x))
     \<and> MiningStatsChannel c' = MiningStatsChannel c @ [gs] \<and> BlockHeight gs = sint h'
     \<and> (\<forall>i < N. \<exists>s. map_of (GroupMinerStats.Miners gs) (int i) = Some s
          \<and> TotalHashes s = wrap64 (int (hashes_in before i)))
     \<and> rested env keeps c' \<and> outside c' = w'"
proof -
  let ?found = "\<lambda>i. found (lx env) (sha256 content) (OprMinimumDifficulty r) (int i) (hashes_in before i)"
  obtain c' vs gs where run: "LaunchMiners env (Alert h 1 # before @ Alert h' 9 # after
         @ replicate N (Write n) @ replicate N Collected) c = Inr c'"
    and best: "best_of (nat keeps) (\<Sum>i < N. ?found i) (mset vs)"
    and rest: "sorted_wrt (\<lambda>u v. UDifficulty v \<le> UDifficulty u) vs"
      "delivered fw (records c') = delivered fw (records c) @ map (entry_of env r content) vs"
      "MiningStatsChannel c' = MiningStatsChannel c @ [gs]" "BlockHeight gs = sint h'"
      "\<forall>i < N. \<exists>s. map_of (GroupMinerStats.Miners gs) (int i) = Some s
          \<and> TotalHashes s = wrap64 (int (hashes_in before i))"
      "rested env keeps c'" "outside c' = w'"
    using block_mined [OF assms(4,5) assms(6-12) [unfolded fw_def]] assms(13-16)
    unfolding N_def n_def fw_def by blast
  have "OraclePriceRecord.Version r \<noteq> 1" and made: "marshals_to env r content"
    using assms(12) by (auto simp: record_for_def marshals_to_def proto_version_def)
  have "\<exists>x g'. AddOPR json g eh (FactomEntry.ExtIDs (entry_of env r content v)) content = Inr g'
      \<and> oprs (base_of g') = oprs (base_of g) @ [x] \<and> GradingOPR.Nonce x = UNonce v \<and> honest (lx env) x"
    if v: "v \<in> set vs" and eh: "length eh = 32" for v eh
  proof -
    have "v \<in># (\<Sum>i < N. ?found i)" using best v by (auto simp: best_of_def dest: mset_subset_eqD)
    then obtain i where "v \<in># ?found i" by (auto simp: in_Union_mset_iff set_mset_sum)
    then have "Mining.ComputeDifficulty (lx env) (sha256 content) (UNonce v) = Inr (UDifficulty v)"
      using found_honest assms(5) by blast
    then show ?thesis
      using mined_entry_accepted [OF assms(17) \<open>OraclePriceRecord.Version r \<noteq> 1\<close> assms(18,19,21,22)
          mine_entry_made(1) [OF made, of v, unfolded mine_entry_def] assms(20) eh, of json "lx env"]
      by (simp add: entry_of_def) blast
  qed
  with run best rest show ?thesis by blast
qed

text \<open>A new coordinator rests; a record of \<open>NewOpr\<close> is one that a block can be mined for.\<close>

lemma res_map_nth: "res_map f xs = Inr ys \<Longrightarrow> i < length ys \<Longrightarrow> f (xs ! i) = Inr (ys ! i)"
proof (induction xs arbitrary: ys i)
  case (Cons x xs)
  then show ?case by (cases i) (auto simp: res_simps)
qed simp

lemma coordinator_rested:
  assumes "NewMiningCoordinatorFromConfig env w = Inr c" "InitMinters env c = Inr c'"
    and "mconfig_int env ''Miner.RecordsPerBlock'' = Inr keeps" "0 < keeps"
  shows "rested env keeps c'"
proof -
  obtain writer where "PopulateECAddress (mconfig env) (fetch_ec env) (NewEntryWriter keeps) = Inr writer"
    and c: "c = coordinator_with writer w"
    using assms(1,3) by (auto simp: NewMiningCoordinatorFromConfig_def check_panic_def res_simps split: sum.splits)
  then have w: "Next writer = None" "wKeep writer = keeps"
    by (auto simp: PopulateECAddress_def res_simps NewEntryWriter_def)
  obtain n ms where ms: "res_map (NewMiner env) [0..n - 1] = Inr ms" "c' = c\<lparr>Miners := ms\<rparr>"
    using assms(2) by (auto simp: InitMinters_def res_simps)
  have "belongs keeps i (ms ! i) \<and> phase (ms ! i) \<in> {Starting, Waiting} \<and> CommandChannel (ms ! i) = []"
    if "i < length ms" for i
  proof -
    have "0 + int i \<le> n - 1" using that length_res_map [OF ms(1)] by simp
    then have i: "NewMiner env (int i) = Inr (ms ! i)" using res_map_nth [OF ms(1) that] by (simp only: nth_upto add_0)
    obtain r where "NewNonceRanking keeps = Inr r" using NewNonceRanking_ok [OF assms(4)] by metis
    with i have "ms ! i = \<lparr>phase = Starting, Miner = \<lparr>PegnetMiner.ID = int i,
        MiningState = \<lparr>oprhash = [], Incrementer = NewNonceIncrementer (int i), minimumDifficulty = 0,
          rankings = r, stats = None, writeChannel = None, statsChannel = None, keep = keeps\<rparr>,
        paused = False, outbox = [], statsbox = []\<rparr>, CommandChannel = []\<rparr>"
      by (simp add: NewMiner_def NewPegnetMinerFromConfig_def assms(3))
    then show ?thesis by (simp add: belongs_def)
  qed
  then show ?thesis using w assms(4) by (simp add: rested_def c ms(2) coordinator_with_def)
qed

lemma fresh_record_for:
  assumes "fresh_opr oenv cfg dbht winners prices r" "OraclePriceRecord.Version r \<noteq> 1"
    and "mjson_float env = ojson_float oenv" "mjson_record env = ojson_record oenv" "mpmarshal env = opmarshal oenv"
  shows "\<exists>content. record_for env r content"
proof -
  let ?price = "\<lambda>(a, i). peg_price (poob_u64 (opoll oenv)) (OraclePriceRecord.Version r) (a, ItemValue i)"
  have f: "ValidateOPR (oIsValidAddress oenv) (network_or_empty (LoadConfigNetwork cfg)) (sint dbht) r = Inr True"
    "distinct (map fst prices)" "OraclePriceRecord.Assets r = Some (map ?price prices)"
    using assms(1) unfolding fresh_opr_def by blast+
  obtain content where content: "fst (opr_marshal oenv r) = Inr content" "OraclePriceRecord.OPRHash r = sha256 content"
    using assms(1) unfolding fresh_opr_def by blast
  have "proto_version (OraclePriceRecord.Version r)" using ValidateOPR_True [OF f(1) assms(2)] by blast
  moreover have "map fst (map ?price prices) = map fst prices" by (auto simp: peg_price_def)
  ultimately have "record_for env r content"
    using content f(2) unfolding record_for_def marshals_to_def assms(3-5) f(3) entries_def option.case by metis
  then show ?thesis ..
qed

text \<open>Without miners the coordinator never comes back from minute 9.\<close>

lemma no_miners_stuck:
  "LaunchMiners env es c = Inr c' \<Longrightarrow> Miners c = [] \<Longrightarrow> collecting c \<noteq> None \<Longrightarrow>
     statsLists c ! statsAggregate c = [] \<Longrightarrow> collecting c' = collecting c"
proof (induction es arbitrary: c)
  case (Cons e es)
  obtain c1 where c1: "mining_step env c e = Inr c1" "LaunchMiners env es c1 = Inr c'"
    using Cons.prems(1) by (auto simp: LaunchMiners_Cons res_simps)
  have "Miners c1 = [] \<and> collecting c1 = collecting c \<and> statsLists c1 ! statsAggregate c1 = []"
    using c1(1) Cons.prems(2-4)
    by (cases e) (auto simp: mining_step_def alert_step_def miner_turn_def collect_turn_def res_simps
        split: if_splits option.splits)
  with Cons.IH [OF c1(2)] Cons.prems show ?case by simp
qed simp

section \<open>An example\<close>

text \<open>Two miners that keep three records, the block 258800, and events of the miners in some order.\<close>

definition sample_mined :: OraclePriceRecord where
  "sample_mined = sample_record\<lparr>OraclePriceRecord.OPRHash := sha256 sample_content\<rparr>"

definition sample_mining :: "unit mining_env" where
  "sample_mining = \<lparr>lx = sample_hash, nsort = sort_stable, mconfig = (\<lambda>_. Inr ''EC''),
     mconfig_int = (\<lambda>key. Inr (if key = ''Miner.RecordsPerBlock'' then 3 else 2)), fetch_ec = Inr,
     balance = (\<lambda>_ _. Inr 1), new_opr = (\<lambda>_ w. (Inr sample_mined, w)), mdec = (\<lambda>_. []),
     mjson_float = (\<lambda>_. Inr []), mjson_record = (\<lambda>_ _. Inr []), mpmarshal = module_pmarshal,
     submit_ok = (\<lambda>_. True), tries = (\<lambda>_. 0), clock = (\<lambda>_. (0, 0))\<rparr>"

definition sample_miner_at :: "int \<Rightarrow> ControlledMiner" where
  "sample_miner_at i = \<lparr>phase = Starting, Miner = \<lparr>PegnetMiner.ID = i,
     MiningState = \<lparr>oprhash = [], Incrementer = NewNonceIncrementer i, minimumDifficulty = 0,
       rankings = \<lparr>Keep = 3, RankList = replicate 3 None, MinimumDifficulty = 0, WorstDiff = 0, WorstIndex = 0,
         taken = 0\<rparr>, stats = None, writeChannel = None, statsChannel = None, keep = 3\<rparr>,
     paused = False, outbox = [], statsbox = []\<rparr>, CommandChannel = []\<rparr>"

definition sample_coordinator :: "unit MiningCoordinator" where
  "sample_coordinator = (coordinator_with ((NewEntryWriter 3)\<lparr>ec := ''EC''\<rparr>) ())
     \<lparr>Miners := [sample_miner_at 0, sample_miner_at 1]\<rparr>"

lemma sample_mining_sel [simp]:
  "lx sample_mining = sample_hash" "nsort sample_mining = sort_stable" "mpmarshal sample_mining = module_pmarshal"
  "tries sample_mining n = 0" "submit_ok sample_mining n" "new_opr sample_mining h w = (Inr sample_mined, w)" "balance sample_mining e w = Inr 1"
  "mconfig_int sample_mining ''Miner.RecordsPerBlock'' = Inr 3" "mconfig_int sample_mining ''Miner.NumberOfMiners'' = Inr 2"
  by (simp_all add: sample_mining_def)

lemma sample_start:
  "NewMiningCoordinatorFromConfig sample_mining () = Inr (coordinator_with ((NewEntryWriter 3)\<lparr>ec := ''EC''\<rparr>) ())"
  "InitMinters sample_mining (coordinator_with ((NewEntryWriter 3)\<lparr>ec := ''EC''\<rparr>) ()) = Inr sample_coordinator"
proof -
  have "NewMiner sample_mining i = Inr (sample_miner_at i)" for i
    by (simp add: NewMiner_def NewPegnetMinerFromConfig_def NewNonceRanking_def sample_miner_at_def numeral_3_eq_3)
  moreover have "[0..1] = [0 :: int, 1]" by code_simp
  ultimately show "InitMinters sample_mining (coordinator_with ((NewEntryWriter 3)\<lparr>ec := ''EC''\<rparr>) ()) = Inr sample_coordinator"
    by (simp add: InitMinters_def sample_coordinator_def)
  show "NewMiningCoordinatorFromConfig sample_mining () = Inr (coordinator_with ((NewEntryWriter 3)\<lparr>ec := ''EC''\<rparr>) ())"
    by (simp add: NewMiningCoordinatorFromConfig_def check_panic_def PopulateECAddress_def)
      (simp add: sample_mining_def)
qed

lemma sample_record_for: "record_for sample_mining sample_mined sample_content"
proof -
  have "mine_entry sample_mining sample_record \<lparr>UNonce = [1], UDifficulty = 5\<rparr> = Inr sample_entry"
    using sample_entry_created by (simp add: mine_entry_def sample_mining_def)
  then have "fst (SafeMarshal (mjson_float sample_mining) (mjson_record sample_mining) module_pmarshal sample_record)
      = Inr sample_content"
    by (auto simp: mine_entry_def CreateOPREntry_def res_simps sample_entry_def)
  then have "marshals_to sample_mining sample_mined sample_content"
    using SafeMarshal_hash [of sample_record] by (simp add: marshals_to_def sample_mined_def proto_version_def)
  moreover have "distinct (map fst (entries (Some (map (\<lambda>a. (a, 7 :: u64)) AssetsV5))))" by code_simp
  ultimately show ?thesis by (simp add: record_for_def sample_mined_def)
qed

theorem mined_block_witness:
  "\<exists>c' vs. LaunchMiners sample_mining (Alert 258800 1 # [Turn 0, Turn 1, Turn 0, Turn 0] @ Alert 258800 9
        # [Turn 1, Collected, Turn 0] @ [Write 1, Write 1] @ [Collected, Collected]) sample_coordinator = Inr c'
     \<and> best_of 3 (\<Sum>i < 2. found sample_hash (sha256 sample_content) 0 (int i)
         (hashes_in [Turn 0, Turn 1, Turn 0, Turn 0] i)) (mset vs)
     \<and> delivered False (records c') = map (entry_of sample_mining sample_mined sample_content) vs
     \<and> rested sample_mining 3 c'"
proof -
  have win: "verifyWinnerFormat (map hexEncode (replicate 25 [])) 25" by code_simp
  have low: "OprMinimumDifficulty sample_mined = 0" "OraclePriceRecord.Version sample_mined = 5"
    "OraclePriceRecord.Dbht sample_mined = 258800" "OraclePriceRecord.WinPreviousOPR sample_mined = replicate 25 []"
    by (simp_all add: sample_mined_def) (simp add: sample_record_def NewOraclePriceRecord_def)
  have g: "NewGrader 5 258800 (map hexEncode (replicate 25 [])) = Inr (V5BlockGrader (new_base 258800 (replicate 25 [])))"
    using win by (simp add: NewGrader_def)
  have "ValidateOPR (\<lambda>a. Valid a = Inr ()) MainNetwork 258800 sample_mined
      = ValidateOPR (\<lambda>a. Valid a = Inr ()) MainNetwork 258800 sample_record"
    by (simp add: ValidateOPR_def sample_mined_def)
  then have valid: "ValidateOPR (\<lambda>a. Valid a = Inr ()) MainNetwork (sint (258800 :: 32 word)) sample_mined = Inr True"
    using sample_record_valid by simp
  have c: "length (Miners sample_coordinator) = 2" "length (writers sample_coordinator) = 1"
    "outside sample_coordinator = ()" "\<not> forwards (writers sample_coordinator ! FactomEntryWriter sample_coordinator)"
    "delivered False (records sample_coordinator) = []" "Miners sample_coordinator \<noteq> []"
    by (simp_all add: sample_coordinator_def coordinator_with_def NewEntryWriter_def delivered_def no_output_def)
  have less: "(\<forall>i < (2 :: nat). P i) \<longleftrightarrow> P 0 \<and> P 1" for P by (auto simp: less_2_cases_iff)
  have "sort_stable = nsort sample_mining" by simp
  have "rested sample_mining 3 sample_coordinator"
    by (rule coordinator_rested [OF sample_start]) simp_all
  note block = mined_block [where env = sample_mining and keeps = 3 and c = sample_coordinator and h = 258800
      and h' = 258800 and r = sample_mined and content = sample_content and w' = "()" and bal = 1
      and before = "[Turn 0, Turn 1, Turn 0, Turn 0]" and after = "[Turn 1, Collected, Turn 0]"
      and isValidAddress = "\<lambda>a. Valid a = Inr ()" and net = MainNetwork and ws = "replicate 25 []"
      and g = "V5BlockGrader (new_base 258800 (replicate 25 []))"
      and json = "\<lambda>_. Inl (GoError [])", OF _ _ _ this c(6) _ _ _ sample_record_for _ _ _ _ valid]
  have "\<exists>c' vs gs. LaunchMiners sample_mining (Alert 258800 1 # [Turn 0, Turn 1, Turn 0, Turn 0] @ Alert 258800 9
        # [Turn 1, Collected, Turn 0] @ replicate 2 (Write 1) @ replicate 2 Collected) sample_coordinator = Inr c'
     \<and> best_of (nat 3) (\<Sum>i < 2. found sample_hash (sha256 sample_content) 0 (int i)
         (hashes_in [Turn 0, Turn 1, Turn 0, Turn 0] i)) (mset vs)
     \<and> delivered False (records c') = map (entry_of sample_mining sample_mined sample_content) vs
     \<and> rested sample_mining 3 c'"
    using block win g module_decode
    by (simp add: c low less sample_hash_ok stable_nonces.nonce_sort_axioms factomd_takes_def ECBalance_def block_event_def) blast
  then show ?thesis by (simp add: numeral_2_eq_2)
qed

end
