(* ===== verification/Monitor.thy ===== *)
theory Monitor
  imports Go_Strings
begin

text \<open>
  The monitor of factomd: common/monitor.go, and the monitor of a network miner, common/monitor_fake.go.

  The answers of factomd, each after the retries of its backoff, are a list. A listener is a channel with
  room for ten events, an error listener has room for one error; what does not fit is dropped. Nothing is
  read from them here: what a run leaves in a channel is what a reader would find.
\<close>

record CurrentMinuteInfo =
  DirectoryBlockHeight :: int
  InfoMinute :: int

record MonitorEvent =
  EventMinute :: int
  EventDbht :: "32 word"

record Monitor =
  listeners :: "MonitorEvent list list"
  errorListeners :: "go_error list list"

definition NewMonitor :: Monitor where "NewMonitor = \<lparr>listeners = [], errorListeners = []\<rparr>"

definition NewListener :: "Monitor \<Rightarrow> nat \<times> Monitor" where
  "NewListener m = (length (listeners m), m\<lparr>listeners := listeners m @ [[]]\<rparr>)"

definition NewErrorListener :: "Monitor \<Rightarrow> nat \<times> Monitor" where
  "NewErrorListener m = (length (errorListeners m), m\<lparr>errorListeners := errorListeners m @ [[]]\<rparr>)"

definition offer :: "nat \<Rightarrow> 'a \<Rightarrow> 'a list \<Rightarrow> 'a list" where
  "offer room x q = (if length q < room then q @ [x] else q)"

definition notifyError :: "go_error \<Rightarrow> Monitor \<Rightarrow> Monitor" where
  "notifyError e m = m\<lparr>errorListeners := map (offer 1 e) (errorListeners m)\<rparr>"

definition FakeNotifyEvt :: "MonitorEvent \<Rightarrow> Monitor \<Rightarrow> Monitor" where
  "FakeNotifyEvt fds m = m\<lparr>listeners := map (offer 10 fds) (listeners m)\<rparr>"

definition FakeNotify :: "int \<Rightarrow> int \<Rightarrow> Monitor \<Rightarrow> Monitor" where
  "FakeNotify dbht minute = FakeNotifyEvt \<lparr>EventMinute = minute, EventDbht = word_of_int dbht\<rparr>"

definition event_of :: "CurrentMinuteInfo \<Rightarrow> MonitorEvent" where
  "event_of info = \<lparr>EventMinute = InfoMinute info, EventDbht = word_of_int (DirectoryBlockHeight info)\<rparr>"

definition notify :: "CurrentMinuteInfo \<Rightarrow> Monitor \<Rightarrow> Monitor" where
  "notify info m = m\<lparr>listeners := map (offer 10 (event_of info)) (listeners m)\<rparr>"

text \<open>The height announced is that of the block being built. \<open>None\<close>: it still waits.\<close>

fun waitForNextMinute :: "CurrentMinuteInfo \<Rightarrow> CurrentMinuteInfo res list
     \<Rightarrow> (CurrentMinuteInfo res \<times> CurrentMinuteInfo res list) option" where
  "waitForNextMinute current [] = None"
| "waitForNextMinute current (Inl e # as) = Some (Inl e, as)"
| "waitForNextMinute current (Inr i # as) =
     (let info = i\<lparr>DirectoryBlockHeight := wrap64 (DirectoryBlockHeight i + 1)\<rparr> in
      if DirectoryBlockHeight info > DirectoryBlockHeight current then Some (Inr info, as)
      else if DirectoryBlockHeight info = DirectoryBlockHeight current \<and> InfoMinute current \<noteq> InfoMinute info
      then Some (Inr info, as)
      else waitForNextMinute current as)"

lemma waitForNextMinute_shorter: "waitForNextMinute current as = Some (r, bs) \<Longrightarrow> length bs < length as"
  by (induction current as rule: waitForNextMinute.induct) (auto simp: Let_def less_Suc_eq split: if_splits)

text \<open>
  An error leaves the zero value as the information of the loop, so that the next answer is announced
  even if it was before.
\<close>

definition no_info :: CurrentMinuteInfo where
  "no_info = \<lparr>DirectoryBlockHeight = 0, InfoMinute = 0\<rparr>"

function poll :: "CurrentMinuteInfo \<Rightarrow> CurrentMinuteInfo res list \<Rightarrow> Monitor \<Rightarrow> Monitor" where
  "poll info as m = (case waitForNextMinute info as of
     None \<Rightarrow> m
   | Some (Inl e, bs) \<Rightarrow> poll no_info bs (notifyError e m)
   | Some (Inr i, bs) \<Rightarrow> poll i bs (notify i m))"
  by pat_completeness auto

termination
  by (relation "measure (\<lambda>(info, as, m). length as)") (auto dest: waitForNextMinute_shorter)

declare poll.simps [simp del]

section \<open>What is announced\<close>

text \<open>The outcomes of the loop, one after the other.\<close>

function outcomes :: "CurrentMinuteInfo \<Rightarrow> CurrentMinuteInfo res list \<Rightarrow> CurrentMinuteInfo res list" where
  "outcomes info as = (case waitForNextMinute info as of
     None \<Rightarrow> []
   | Some (Inl e, bs) \<Rightarrow> Inl e # outcomes no_info bs
   | Some (Inr i, bs) \<Rightarrow> Inr i # outcomes i bs)"
  by pat_completeness auto

termination
  by (relation "measure (\<lambda>(info, as). length as)") (auto dest: waitForNextMinute_shorter)

declare outcomes.simps [simp del]

definition announced :: "CurrentMinuteInfo res list \<Rightarrow> MonitorEvent list" where
  "announced os = concat (map (\<lambda>o'. case o' of Inl _ \<Rightarrow> [] | Inr i \<Rightarrow> [event_of i]) os)"

definition failures :: "CurrentMinuteInfo res list \<Rightarrow> go_error list" where
  "failures os = concat (map (\<lambda>o'. case o' of Inl e \<Rightarrow> [e] | Inr _ \<Rightarrow> []) os)"

definition later :: "CurrentMinuteInfo res \<Rightarrow> CurrentMinuteInfo res \<Rightarrow> bool" where
  "later x y = (case (x, y) of
     (Inr i, Inr j) \<Rightarrow> DirectoryBlockHeight i < DirectoryBlockHeight j
       \<or> DirectoryBlockHeight i = DirectoryBlockHeight j \<and> InfoMinute i \<noteq> InfoMinute j
   | _ \<Rightarrow> True)"

lemma wait_later: "waitForNextMinute info as = Some (Inr j, bs) \<Longrightarrow> later (Inr info) (Inr j)"
  by (induction info as rule: waitForNextMinute.induct) (auto simp: later_def Let_def split: if_splits)

lemma offers: "fold (offer room) xs q = q @ take (room - length q) xs"
proof (induction xs arbitrary: q)
  case (Cons x xs)
  then show ?case by (cases "length q < room") (simp_all add: offer_def take_Cons' not_less)
qed simp

lemma poll_outcomes:
  "poll info as m = m\<lparr>listeners := map (fold (offer 10) (announced (outcomes info as))) (listeners m),
     errorListeners := map (fold (offer 1) (failures (outcomes info as))) (errorListeners m)\<rparr>"
proof (induction info as m rule: poll.induct)
  case (1 info as m)
  show ?case
  proof (cases "waitForNextMinute info as")
    case None
    then show ?thesis
      by (subst poll.simps, subst outcomes.simps, subst outcomes.simps) (simp add: announced_def failures_def)
  next
    case (Some p)
    obtain r bs where p: "p = (r, bs)" by (cases p)
    show ?thesis
    proof (cases r)
      case (Inl e)
      have "poll info as m = poll no_info bs (notifyError e m)"
        "outcomes info as = Inl e # outcomes no_info bs"
        by (subst poll.simps, simp add: Some p Inl) (subst outcomes.simps, simp add: Some p Inl)
      then show ?thesis
        using "1.IH"(1) [OF Some p [symmetric] Inl] by (simp add: announced_def failures_def notifyError_def comp_def)
    next
      case (Inr i)
      have "poll info as m = poll i bs (notify i m)" "outcomes info as = Inr i # outcomes i bs"
        by (subst poll.simps, simp add: Some p Inr) (subst outcomes.simps, simp add: Some p Inr)
      then show ?thesis
        using "1.IH"(2) [OF Some p [symmetric] Inr] by (simp add: announced_def failures_def notify_def comp_def)
    qed
  qed
qed

lemma outcomes_later: "successively later (Inr info # outcomes info as)"
proof (induction info as rule: outcomes.induct)
  case (1 info as)
  show ?case
  proof (cases "waitForNextMinute info as")
    case None
    then show ?thesis by (subst outcomes.simps) simp
  next
    case (Some p)
    obtain r bs where p: "p = (r, bs)" by (cases p)
    show ?thesis
    proof (cases r)
      case (Inl e)
      have "outcomes info as = Inl e # outcomes no_info bs"
        by (subst outcomes.simps, simp add: Some p Inl)
      moreover have "successively later (outcomes no_info bs)"
        using "1.IH"(1) [OF Some p [symmetric] Inl] by (cases "outcomes no_info bs") simp_all
      ultimately show ?thesis by (cases "outcomes no_info bs") (simp_all add: later_def)
    next
      case (Inr i)
      have "outcomes info as = Inr i # outcomes i bs"
        by (subst outcomes.simps, simp add: Some p Inr)
      then show ?thesis
        using "1.IH"(2) [OF Some p [symmetric] Inr] wait_later [of info as i bs] Some p Inr by simp
    qed
  qed
qed

lemma wait_from:
  "waitForNextMinute info as = Some (r, bs) \<Longrightarrow> set bs \<subseteq> set as \<and> (\<forall>i. r = Inr i \<longrightarrow> (\<exists>j. Inr j \<in> set as
     \<and> i = j\<lparr>DirectoryBlockHeight := wrap64 (DirectoryBlockHeight j + 1)\<rparr>))"
  by (induction info as rule: waitForNextMinute.induct) (auto simp: Let_def split: if_splits)

lemma outcomes_from:
  "Inr i \<in> set (outcomes info as) \<Longrightarrow>
     \<exists>j. Inr j \<in> set as \<and> i = j\<lparr>DirectoryBlockHeight := wrap64 (DirectoryBlockHeight j + 1)\<rparr>"
proof (induction info as rule: outcomes.induct)
  case (1 info as)
  show ?case
  proof (cases "waitForNextMinute info as")
    case None
    then show ?thesis using "1.prems" by (subst (asm) outcomes.simps) simp
  next
    case (Some p)
    obtain r bs where p: "p = (r, bs)" by (cases p)
    note src = wait_from [OF Some [unfolded p]]
    show ?thesis
    proof (cases r)
      case (Inl e)
      have "outcomes info as = Inl e # outcomes no_info bs"
        by (subst outcomes.simps, simp add: Some p Inl)
      then show ?thesis using "1.IH"(1) [OF Some p [symmetric] Inl] "1.prems" src by auto
    next
      case (Inr k)
      have "outcomes info as = Inr k # outcomes k bs"
        by (subst outcomes.simps, simp add: Some p Inr)
      then show ?thesis using "1.IH"(2) [OF Some p [symmetric] Inr] "1.prems" src Inr by fastforce
    qed
  qed
qed


text \<open>Minute 1 is seen twice, then an error comes, then minute 1 is announced again, and minute 2.\<close>

definition sample_answers :: "CurrentMinuteInfo res list" where
  "sample_answers = map (\<lambda>minute. Inr \<lparr>DirectoryBlockHeight = 5, InfoMinute = minute\<rparr>) [1, 1]
     @ [Inl (GoError ''timeout'')] @ map (\<lambda>minute. Inr \<lparr>DirectoryBlockHeight = 5, InfoMinute = minute\<rparr>) [1, 2]"


end
