(* ===== verification/NetworkMiner.thy ===== *)
theory NetworkMiner
  imports MinerCoordinator NewOpr Monitor
begin

text \<open>
  Mining over the network: networkMiner/server.go, client.go, tcpServer.go and version.go, with the
  grader of a network miner, opr/grader_fake.go.

  Connections are objects, kept in a list and named by their position; a message that is sent is put in
  \<open>received\<close> of the other side. The encoding of package gob delivers a message as it was sent, or ends the
  connection. The goroutines run one step at a time: a step handles one message, or one event of the
  monitor or the grader. The writing of an entry, in a goroutine of its own, is part of the step that
  starts it.
\<close>

section \<open>Messages\<close>

datatype network_command =
    Ping
  | Pong
  | FactomEvent
  | GraderEvent
  | ConstructedOPR
  | FactomEntry
  | MiningStatistics
  | AddTag
  | SecretChallenge
  | RejectedConnection
  | CoordinatorError
  | OtherCommand int

text \<open>The data of a message is an interface value: one of the types registered, a string, or nothing.\<close>

datatype network_data =
    NoData
  | TagData string string
  | EventData MonitorEvent
  | ErrorData string
  | ChallengeData string string
  | EntryData FactomEntry
  | StatsData GroupMinerStats
  | OprData OraclePriceRecord
  | OPRsData OPRs
  | TextData string

record NetworkMessage =
  NetworkCommand :: network_command
  MessageData :: network_data
  MessageVersion :: string

definition NewNetworkMessage :: "network_command \<Rightarrow> network_data \<Rightarrow> NetworkMessage" where
  "NewNetworkMessage cmd d = \<lparr>NetworkCommand = cmd, MessageData = d, MessageVersion = ''0.1.0''\<rparr>"

text \<open>The answer to a challenge.\<close>

definition challenge_response :: "string \<Rightarrow> string \<Rightarrow> string" where
  "challenge_response secret challenge = hexEncode (sha256 (bytes_of_string (secret @ challenge)))"

section \<open>tcpServer.go\<close>

text \<open>\<open>broken\<close>: the network or the other side has given the connection up.\<close>

record TCPClient =
  client_id :: int
  remote :: string
  tags :: "string \<rightharpoonup> string"
  received :: "NetworkMessage list"
  broken :: bool
  client_closed :: bool
  accepted :: bool
  listening :: bool

definition NewTCPClient :: "int \<Rightarrow> string \<Rightarrow> TCPClient" where
  "NewTCPClient i addr = \<lparr>client_id = i, remote = addr, tags = Map.empty, received = [], broken = False,
     client_closed = False, accepted = False, listening = True\<rparr>"

definition sendable :: "TCPClient \<Rightarrow> bool" where
  "sendable c \<longleftrightarrow> \<not> broken c \<and> \<not> client_closed c"

definition SendNetworkCommand :: "NetworkMessage \<Rightarrow> TCPClient \<Rightarrow> TCPClient" where
  "SendNetworkCommand m c = (if sendable c then c\<lparr>received := received c @ [m]\<rparr> else c)"

section \<open>server.go\<close>

text \<open>
  \<open>clients\<close> is the map from the ids to the connections. What is written, and the statistics, are
  recorded with the connection they came from.
\<close>

record 'w MiningServer =
  tcp :: "TCPClient list"
  clients :: "(int \<times> nat) list"
  numClients :: nat
  salt :: int
  secret :: string
  useAuth :: bool
  mining :: bool
  last_event :: MonitorEvent
  submitted :: "(nat \<times> FactomEntry \<times> bool) list"
  collected :: "(nat \<times> GroupMinerStats) list"
  EC :: string
  world :: "'w poller"

record 'w server_env =
  sconfig :: config
  sbool :: "string \<Rightarrow> bool res"
  sfetch_ec :: "string \<Rightarrow> string res"
  sbalance :: "string \<Rightarrow> 'w \<Rightarrow> int res"
  sopr :: "'w opr_env"
  ssubmit_ok :: "nat \<Rightarrow> bool"
  stries :: "nat \<Rightarrow> nat"

text \<open>A setting that is missing, or an entry credit address that factomd does not know, ends the process.\<close>

definition NewMiningServer :: "'w server_env \<Rightarrow> int \<Rightarrow> 'w poller \<Rightarrow> 'w MiningServer res" where
  "NewMiningServer env r w =
     rbind (check_panic (sconfig env ''Miner.MiningCoordinatorPort'')) (\<lambda>_.
     rbind (check_panic (sconfig env ''Miner.ECAddress'')) (\<lambda>ec.
     rbind (check_panic (sfetch_ec env ec)) (\<lambda>addr.
     rbind (check_panic (sbool env ''Miner.UseCoordinatorAuthentication'')) (\<lambda>auth.
     rbind (check_panic (sconfig env ''Miner.CoordinatorSecret'')) (\<lambda>sec.
     Inr \<lparr>tcp = [], clients = [], numClients = 0, salt = r, secret = sec, useAuth = auth, mining = False,
          last_event = \<lparr>EventMinute = 0, EventDbht = 0\<rparr>, submitted = [], collected = [], EC = addr, world = w\<rparr>)))))"

definition update_client :: "nat \<Rightarrow> (TCPClient \<Rightarrow> TCPClient) \<Rightarrow> 'w MiningServer \<Rightarrow> 'w MiningServer" where
  "update_client i f s = s\<lparr>tcp := (tcp s)[i := f (tcp s ! i)]\<rparr>"

definition Accept :: "nat \<Rightarrow> 'w MiningServer \<Rightarrow> 'w MiningServer" where
  "Accept i s = (let s1 = update_client i (\<lambda>c. c\<lparr>accepted := True\<rparr>) s;
       cs = AList.update (client_id (tcp s ! i)) i (clients s1)
     in s1\<lparr>clients := cs, numClients := length cs\<rparr>)"

definition onClientConnectionClosed :: "nat \<Rightarrow> 'w MiningServer \<Rightarrow> 'w MiningServer" where
  "onClientConnectionClosed i s = (let cs = AList.delete (client_id (tcp s ! i)) (clients s)
     in s\<lparr>clients := cs, numClients := length cs\<rparr>)"

definition Close :: "nat \<Rightarrow> 'w MiningServer \<Rightarrow> 'w MiningServer" where
  "Close i s = (if client_closed (tcp s ! i) then s
     else onClientConnectionClosed i (update_client i (\<lambda>c. c\<lparr>client_closed := True\<rparr>) s))"

definition SendToClients :: "NetworkMessage \<Rightarrow> 'w MiningServer \<Rightarrow> 'w MiningServer" where
  "SendToClients m s = fold (\<lambda>(_, i). update_client i (SendNetworkCommand m)) (clients s) s"

definition GetAuthenticationChallenge :: "'w MiningServer \<Rightarrow> nat \<Rightarrow> string" where
  "GetAuthenticationChallenge s i = itoa (salt s) @ itoa (client_id (tcp s ! i))"

definition onNewClient :: "nat \<Rightarrow> 'w MiningServer \<Rightarrow> 'w MiningServer" where
  "onNewClient i s =
     (if useAuth s
      then update_client i (SendNetworkCommand
             (NewNetworkMessage SecretChallenge (ChallengeData (GetAuthenticationChallenge s i) ''''))) s
      else if \<not> sendable (tcp s ! i) then s
      else Accept i (update_client i (SendNetworkCommand (NewNetworkMessage Ping NoData)) s))"

text \<open>\<open>WriteEntry\<close>: \<open>stries\<close> is how many more attempts the backoff allows after the first.\<close>

fun retry_submit :: "nat \<Rightarrow> 'w server_env \<Rightarrow> nat \<Rightarrow> FactomEntry \<Rightarrow> (nat \<times> FactomEntry \<times> bool) list
     \<Rightarrow> (nat \<times> FactomEntry \<times> bool) list" where
  "retry_submit 0 env i e past = past @ [(i, e, ssubmit_ok env (length past))]"
| "retry_submit (Suc n) env i e past =
     (if ssubmit_ok env (length past) then past @ [(i, e, True)]
      else retry_submit n env i e (past @ [(i, e, False)]))"

definition WriteEntry :: "'w server_env \<Rightarrow> nat \<Rightarrow> FactomEntry \<Rightarrow> 'w MiningServer \<Rightarrow> 'w MiningServer" where
  "WriteEntry env i e s =
     s\<lparr>submitted := retry_submit (stries env (length (submitted s))) env i e (submitted s)\<rparr>"

definition reject :: "nat \<Rightarrow> string \<Rightarrow> 'w MiningServer \<Rightarrow> 'w MiningServer" where
  "reject i why s = Close i (update_client i (SendNetworkCommand (NewNetworkMessage RejectedConnection (TextData why))) s)"

definition check_response :: "nat \<Rightarrow> string \<Rightarrow> string \<Rightarrow> 'w MiningServer \<Rightarrow> 'w MiningServer" where
  "check_response i challenge response s =
     (let expected = GetAuthenticationChallenge s i in
      if challenge \<noteq> expected then reject i ''challenge data did not match expected'' s
      else if response \<noteq> challenge_response (secret s) expected then reject i ''challenge response is incorrect'' s
      else Accept i s)"

definition add_stats :: "nat \<Rightarrow> GroupMinerStats \<Rightarrow> 'w MiningServer \<Rightarrow> 'w MiningServer res" where
  "add_stats i g s =
     (let c = tcp s ! i in
      case Tags g of
        None \<Rightarrow> Inl (Panic ''assignment to entry in nil map'')
      | Some t \<Rightarrow> Inr (s\<lparr>collected := collected s
          @ [(i, g\<lparr>GroupID := ''Net-'' @ itoa (client_id c), Tags := Some (t(''src'' \<mapsto> remote c) ++ tags c)\<rparr>)]\<rparr>))"

definition onNewMessage :: "'w server_env \<Rightarrow> nat \<Rightarrow> NetworkMessage \<Rightarrow> 'w MiningServer \<Rightarrow> 'w MiningServer res" where
  "onNewMessage env i m s =
     (if \<not> accepted (tcp s ! i) \<and> NetworkCommand m \<notin> {SecretChallenge, AddTag, Ping, Pong} then Inr s
      else case NetworkCommand m of
        AddTag \<Rightarrow> (case MessageData m of
            TagData k v \<Rightarrow> Inr (update_client i (\<lambda>c. c\<lparr>tags := (tags c)(k \<mapsto> v, ''version'' \<mapsto> MessageVersion m)\<rparr>) s)
          | _ \<Rightarrow> Inr s)
      | Ping \<Rightarrow> Inr (update_client i (SendNetworkCommand (NewNetworkMessage Pong NoData)) s)
      | FactomEntry \<Rightarrow> (case MessageData m of
            EntryData e \<Rightarrow> Inr (WriteEntry env i e s)
          | _ \<Rightarrow> Inr s)
      | MiningStatistics \<Rightarrow> (case MessageData m of
            StatsData g \<Rightarrow> add_stats i g s
          | _ \<Rightarrow> Inr s)
      | SecretChallenge \<Rightarrow> (case MessageData m of
            ChallengeData challenge response \<Rightarrow> Inr (check_response i challenge response s)
          | _ \<Rightarrow> Inr s)
      | _ \<Rightarrow> Inr s)"

text \<open>\<open>ForwardMonitorEvents\<close>: what it does with an event of the monitor, and with one of the grader.\<close>

definition coordinator_error :: "string \<Rightarrow> 'w MiningServer \<Rightarrow> 'w MiningServer" where
  "coordinator_error msg = SendToClients (NewNetworkMessage CoordinatorError (ErrorData msg))"

definition forward_minute :: "MonitorEvent \<Rightarrow> 'w MiningServer \<Rightarrow> 'w MiningServer" where
  "forward_minute fds s =
     (let s1 = s\<lparr>mining := (if EventMinute fds = 9 \<and> mining s then False
                     else if EventMinute fds = 1 then True else mining s), last_event := fds\<rparr>
      in SendToClients (\<lparr>NetworkCommand = FactomEvent, MessageData = EventData fds, MessageVersion = []\<rparr>) s1)"

definition monitor_alert :: "'w server_env \<Rightarrow> MonitorEvent \<Rightarrow> 'w MiningServer \<Rightarrow> 'w MiningServer" where
  "monitor_alert env fds s =
     (if EventMinute fds = 1
      then (case sbalance env (EC s) (snd (world s)) of
              Inl _ \<Rightarrow> coordinator_error ''balance query failed on net coordinator'' s
            | Inr bal \<Rightarrow> if bal = 0 then coordinator_error (''you do not have any ECs left to mine, '' @ EC s @ '' balance is 0'') s
                else forward_minute fds s)
      else forward_minute fds s)"

definition grader_alert :: "'w server_env \<Rightarrow> OPRs \<Rightarrow> 'w MiningServer \<Rightarrow> 'w MiningServer res" where
  "grader_alert env g s =
     (if \<not> mining s then Inr s
      else case NewOpr (sopr env) (sconfig env) 0 (EventDbht (last_event s)) (Some g) (world s) of
        (r, w) \<Rightarrow>
          (if is_panic r then Inl (Panic ''panic in NewOpr'')
           else Inr (SendToClients \<lparr>NetworkCommand = ConstructedOPR,
             MessageData = (case r of Inl _ \<Rightarrow> NoData | Inr x \<Rightarrow> OprData x), MessageVersion = []\<rparr> (s\<lparr>world := w\<rparr>))))"

text \<open>
  The events of a run. A decoder may still have messages of a connection that was closed; the loop over
  them ends with its first error.
\<close>

datatype server_event =
    Connect int string
  | Message nat NetworkMessage
  | DecodeError nat
  | Break nat
  | MonitorAlert MonitorEvent
  | GraderAlert OPRs

definition server_step :: "'w server_env \<Rightarrow> 'w MiningServer \<Rightarrow> server_event \<Rightarrow> 'w MiningServer res" where
  "server_step env s e = (case e of
     Connect i addr \<Rightarrow> Inr (onNewClient (length (tcp s)) (s\<lparr>tcp := tcp s @ [NewTCPClient i addr]\<rparr>))
   | Message i m \<Rightarrow>
       (if i < length (tcp s) \<and> listening (tcp s ! i) then onNewMessage env i m s else Inr s)
   | DecodeError i \<Rightarrow>
       Inr (if i < length (tcp s) \<and> listening (tcp s ! i)
            then update_client i (\<lambda>c. c\<lparr>listening := False\<rparr>) (Close i s) else s)
   | Break i \<Rightarrow> Inr (if i < length (tcp s) then update_client i (\<lambda>c. c\<lparr>broken := True\<rparr>) s else s)
   | MonitorAlert fds \<Rightarrow> Inr (monitor_alert env fds s)
   | GraderAlert g \<Rightarrow> grader_alert env g s)"

definition server_run :: "'w server_env \<Rightarrow> server_event list \<Rightarrow> 'w MiningServer \<Rightarrow> 'w MiningServer res" where
  "server_run env es s = res_fold (server_step env) s es"

section \<open>client.go\<close>

definition EmitFakeEvent :: "OPRs \<Rightarrow> alerts \<Rightarrow> alerts" where
  "EmitFakeEvent event f = f\<lparr>channels := map (\<lambda>(cid, q). (cid, if length q < 10 then q @ [event] else q)) (channels f)\<rparr>"

text \<open>\<open>wire_ok\<close>: what is encoded arrives. \<open>running\<close>: the loop of \<open>Listen\<close> goes on.\<close>

record MiningClient =
  cconfig :: config
  FactomDigitalID :: string
  client_monitor :: Monitor
  client_grader :: alerts
  OPRMaker :: BlockingOPRMaker
  sent :: "NetworkMessage list"
  wire_ok :: bool
  cancelled :: bool
  running :: bool

definition NewMiningClient :: "config \<Rightarrow> MiningClient res" where
  "NewMiningClient c =
     rbind (check_panic (c ''Miner.MiningCoordinatorHost'')) (\<lambda>_.
     rbind (check_panic (c ''Miner.IdentityChain'')) (\<lambda>did.
     Inr \<lparr>cconfig = c, FactomDigitalID = did, client_monitor = NewMonitor,
          client_grader = \<lparr>channels = [], closed = []\<rparr>, OPRMaker = [], sent = [], wire_ok = True,
          cancelled = False, running = True\<rparr>))"

definition encode :: "NetworkMessage \<Rightarrow> MiningClient \<Rightarrow> MiningClient" where
  "encode m c = (if wire_ok c then c\<lparr>sent := sent c @ [m]\<rparr> else c)"

definition Connected :: "MiningClient \<Rightarrow> MiningClient" where
  "Connected c = encode (NewNetworkMessage AddTag (TagData ''id'' (FactomDigitalID c))) (c\<lparr>wire_ok := True\<rparr>)"

definition setting_or_empty :: "config \<Rightarrow> string \<Rightarrow> string" where
  "setting_or_empty c key = (case c key of Inl _ \<Rightarrow> [] | Inr v \<Rightarrow> v)"

text \<open>The record of the coordinator, with the data of the client; its hash has to be computed again.\<close>

definition own_record :: "config \<Rightarrow> OraclePriceRecord \<Rightarrow> OraclePriceRecord" where
  "own_record c r = r\<lparr>OraclePriceRecord.FactomDigitalID := setting_or_empty c ''Miner.IdentityChain'',
     OraclePriceRecord.CoinbaseAddress := setting_or_empty c ''Miner.CoinbaseAddress'',
     OraclePriceRecord.OPRHash := []\<rparr>"

definition Listen_step :: "NetworkMessage \<Rightarrow> MiningClient \<Rightarrow> MiningClient res" where
  "Listen_step m c = (case NetworkCommand m of
     FactomEvent \<Rightarrow> (case MessageData m of
         EventData evt \<Rightarrow>
           (let c1 = (if EventMinute evt = 1 then c\<lparr>OPRMaker := Drain (OPRMaker c)\<rparr> else c)
            in Inr (c1\<lparr>client_monitor := FakeNotifyEvt evt (client_monitor c1)\<rparr>))
       | _ \<Rightarrow> Inl (Panic ''interface conversion''))
   | GraderEvent \<Rightarrow> (case MessageData m of
         OPRsData evt \<Rightarrow> Inr (c\<lparr>client_grader := EmitFakeEvent evt (client_grader c)\<rparr>)
       | _ \<Rightarrow> Inl (Panic ''interface conversion''))
   | ConstructedOPR \<Rightarrow> Inr (c\<lparr>OPRMaker := RecOPR (case MessageData m of
         OprData r \<Rightarrow> Some (own_record (cconfig c) r) | _ \<Rightarrow> None) (OPRMaker c)\<rparr>)
   | Ping \<Rightarrow> Inr (encode (NewNetworkMessage Pong NoData) c)
   | SecretChallenge \<Rightarrow> (case MessageData m of
         ChallengeData challenge _ \<Rightarrow>
           (if wire_ok c
            then Inr (encode (NewNetworkMessage SecretChallenge (ChallengeData challenge
              (challenge_response (setting_or_empty (cconfig c) ''Miner.CoordinatorSecret'') challenge))) c)
            else Inr (c\<lparr>cancelled := True, running := False\<rparr>))
       | _ \<Rightarrow> Inr (c\<lparr>cancelled := True, running := False\<rparr>))
   | RejectedConnection \<Rightarrow> Inr (c\<lparr>cancelled := True, running := False\<rparr>)
   | _ \<Rightarrow> Inr c)"

text \<open>
  The events of a client: a message, the loss of the connection (a new one is made, and the message that
  was not decoded has no command), and what \<open>Forwarder\<close> finds in its two channels.
\<close>

datatype client_event =
    FromServer NetworkMessage
  | ConnectionLost
  | WireBroken
  | EntryToForward FactomEntry
  | StatsToForward GroupMinerStats

definition client_step :: "MiningClient \<Rightarrow> client_event \<Rightarrow> MiningClient res" where
  "client_step c e = (case e of
     FromServer m \<Rightarrow> (if running c then Listen_step m c else Inr c)
   | ConnectionLost \<Rightarrow> Inr (if running c then Connected c else c)
   | WireBroken \<Rightarrow> Inr (c\<lparr>wire_ok := False\<rparr>)
   | EntryToForward ent \<Rightarrow> Inr (encode (NewNetworkMessage FactomEntry (EntryData ent)) c)
   | StatsToForward s \<Rightarrow> Inr (encode (NewNetworkMessage MiningStatistics (StatsData s)) c))"

definition client_run :: "client_event list \<Rightarrow> MiningClient \<Rightarrow> MiningClient res" where
  "client_run es c = res_fold client_step c es"

text \<open>The writer that the coordinator of the client starts with.\<close>

definition Client_NewEntryForwarder :: "(string \<Rightarrow> int res) \<Rightarrow> EntryWriter res" where
  "Client_NewEntryForwarder config_int =
     rbind (check_panic (config_int ''Miner.RecordsPerBlock'')) (\<lambda>k. Inr (NewEntryForwarder k))"

end
