(* ===== verification/NetworkMiner_Correct.thy ===== *)
theory NetworkMiner_Correct
  imports NetworkMiner "HOL-Library.Sublist"
begin

text \<open>
  What the coordinator of network miners guarantees: only who has answered its challenge gets its events,
  and has entries written; and the answer of a client is right exactly when it knows the secret.
\<close>

section \<open>What a step leaves alone\<close>

definition confidential :: "NetworkMessage \<Rightarrow> bool" where
  "confidential m \<longleftrightarrow> NetworkCommand m \<in> {FactomEvent, ConstructedOPR, CoordinatorError}"

text \<open>A change of a connection that keeps who it is, and sends nothing confidential to who is not accepted.\<close>

definition harmless :: "(TCPClient \<Rightarrow> TCPClient) \<Rightarrow> bool" where
  "harmless f \<longleftrightarrow> (\<forall>c. client_id (f c) = client_id c \<and> accepted (f c) = accepted c
     \<and> (\<forall>m \<in> set (received (f c)) - set (received c). confidential m \<longrightarrow> accepted c))"

text \<open>\<open>P\<close> holds of the connections that may be accepted.\<close>

definition safe :: "(nat \<Rightarrow> bool) \<Rightarrow> 'w MiningServer \<Rightarrow> bool" where
  "safe P s \<longleftrightarrow> (\<forall>i < length (tcp s). accepted (tcp s ! i) \<longrightarrow> P i)
     \<and> (\<forall>(k, i) \<in> set (clients s). i < length (tcp s) \<and> accepted (tcp s ! i))
     \<and> (\<forall>i < length (tcp s). \<forall>m \<in> set (received (tcp s ! i)). confidential m \<longrightarrow> accepted (tcp s ! i))"

definition same_server :: "'w MiningServer \<Rightarrow> 'w MiningServer \<Rightarrow> bool" where
  "same_server s s' \<longleftrightarrow> salt s' = salt s \<and> secret s' = secret s \<and> useAuth s' = useAuth s
     \<and> length (tcp s) \<le> length (tcp s')
     \<and> (\<forall>i < length (tcp s). client_id (tcp s' ! i) = client_id (tcp s ! i)
          \<and> (accepted (tcp s ! i) \<longrightarrow> accepted (tcp s' ! i)))"

lemma same_server_refl [simp]: "same_server s s"
  by (simp add: same_server_def)

lemma same_server_trans: "same_server s s' \<Longrightarrow> same_server s' s'' \<Longrightarrow> same_server s s''"
  unfolding same_server_def by (metis order_trans order_less_le_trans)

lemma update_client_fields [simp]:
  "clients (update_client i f s) = clients s" "salt (update_client i f s) = salt s"
  "secret (update_client i f s) = secret s" "useAuth (update_client i f s) = useAuth s"
  "submitted (update_client i f s) = submitted s" "collected (update_client i f s) = collected s"
  "length (tcp (update_client i f s)) = length (tcp s)"
  by (simp_all add: update_client_def)

lemma nth_update_client:
  "j < length (tcp s) \<Longrightarrow> tcp (update_client i f s) ! j = (if i = j then f (tcp s ! j) else tcp s ! j)"
  by (simp add: update_client_def nth_list_update)

lemma harmless_send: "\<not> confidential m \<Longrightarrow> harmless (SendNetworkCommand m)"
  by (auto simp: harmless_def SendNetworkCommand_def)

lemma safe_update:
  assumes "safe P s" "harmless f"
  shows "safe P (update_client i f s)" "same_server s (update_client i f s)"
proof -
  have f: "client_id (f c) = client_id c" "accepted (f c) = accepted c"
    "m \<in> set (received (f c)) \<Longrightarrow> m \<notin> set (received c) \<Longrightarrow> confidential m \<Longrightarrow> accepted c" for c m
    using assms(2) by (auto simp: harmless_def)
  then show "same_server s (update_client i f s)"
    by (auto simp: same_server_def nth_update_client)
  have acc: "accepted (tcp (update_client i f s) ! j) = accepted (tcp s ! j)" if "j < length (tcp s)" for j
    using that f(2) by (simp add: nth_update_client)
  have "confidential m \<longrightarrow> accepted (tcp s ! j)"
    if "j < length (tcp s)" "m \<in> set (received (tcp (update_client i f s) ! j))" for j m
  proof (cases "m \<in> set (received (tcp s ! j))")
    case True
    then show ?thesis using assms(1) that(1) unfolding safe_def by blast
  next
    case False
    then show ?thesis using that f(3) [of m "tcp s ! j"] by (auto simp: nth_update_client split: if_splits)
  qed
  then show "safe P (update_client i f s)"
    using assms(1) acc by (fastforce simp: safe_def)
qed

lemma safe_accepted_send:
  assumes "safe P s" "i < length (tcp s) \<longrightarrow> accepted (tcp s ! i)"
  shows "safe P (update_client i (SendNetworkCommand m) s)" "same_server s (update_client i (SendNetworkCommand m) s)"
proof -
  have sel: "client_id (SendNetworkCommand m c) = client_id c" "accepted (SendNetworkCommand m c) = accepted c"
    "set (received (SendNetworkCommand m c)) \<subseteq> insert m (set (received c))" for c
    by (auto simp: SendNetworkCommand_def)
  then show "same_server s (update_client i (SendNetworkCommand m) s)"
    by (auto simp: same_server_def nth_update_client)
  have acc: "accepted (tcp (update_client i (SendNetworkCommand m) s) ! j) = accepted (tcp s ! j)"
    if "j < length (tcp s)" for j
    using that sel(2) by (simp add: nth_update_client)
  have "confidential x \<longrightarrow> accepted (tcp s ! j)"
    if "j < length (tcp s)" "x \<in> set (received (tcp (update_client i (SendNetworkCommand m) s) ! j))" for j x
    using that assms sel(3) [of "tcp s ! j"] by (cases "i = j") (auto simp: nth_update_client safe_def)
  then show "safe P (update_client i (SendNetworkCommand m) s)"
    using assms(1) acc by (fastforce simp: safe_def)
qed

lemma safe_SendToClients:
  assumes "safe P s"
  shows "safe P (SendToClients m s) \<and> same_server s (SendToClients m s)
     \<and> submitted (SendToClients m s) = submitted s \<and> collected (SendToClients m s) = collected s"
proof -
  let ?f = "\<lambda>(_, i). update_client i (SendNetworkCommand m)"
  have sends: "safe P (fold ?f cs s) \<and> same_server s (fold ?f cs s) \<and> submitted (fold ?f cs s) = submitted s
      \<and> collected (fold ?f cs s) = collected s"
    if "safe P s" "\<forall>(k :: int, i) \<in> set cs. i < length (tcp s) \<and> accepted (tcp s ! i)" for cs s
    using that
  proof (induction cs arbitrary: s)
    case (Cons kc cs)
    obtain k i where kc: "kc = (k, i)" by (cases kc)
    let ?s = "update_client i (SendNetworkCommand m) s"
    have s: "safe P ?s" "same_server s ?s"
      using safe_accepted_send [OF Cons.prems(1)] Cons.prems(2) by (auto simp: kc)
    moreover have "\<forall>(k, i) \<in> set cs. i < length (tcp ?s) \<and> accepted (tcp ?s ! i)"
      using Cons.prems(2) s(2) by (fastforce simp: same_server_def)
    ultimately show ?case using Cons.IH [of ?s] same_server_trans by (fastforce simp: kc)
  qed simp
  have "\<forall>(k, i) \<in> set (clients s). i < length (tcp s) \<and> accepted (tcp s ! i)"
    using assms by (simp add: safe_def)
  from sends [OF assms this] show ?thesis by (simp add: SendToClients_def)
qed

lemma set_update_sub: "set (AList.update k v xs) \<subseteq> insert (k, v) (set xs)"
  by (induction xs) auto

lemma safe_Accept:
  assumes "safe P s" "P i" "i < length (tcp s)"
  shows "safe P (Accept i s) \<and> same_server s (Accept i s)
     \<and> submitted (Accept i s) = submitted s \<and> collected (Accept i s) = collected s"
proof -
  let ?s = "update_client i (\<lambda>c. c\<lparr>accepted := True\<rparr>) s"
  have nth: "tcp ?s ! j = (if i = j then (tcp s ! j)\<lparr>accepted := True\<rparr> else tcp s ! j)" if "j < length (tcp s)" for j
    using that by (simp add: nth_update_client)
  have acc: "accepted (tcp ?s ! j) \<longleftrightarrow> i = j \<or> accepted (tcp s ! j)" "received (tcp ?s ! j) = received (tcp s ! j)"
    if "j < length (tcp s)" for j
    using nth [OF that] by auto
  let ?cs = "AList.update (client_id (tcp s ! i)) i (clients s)"
  have cs: "j < length (tcp s) \<and> accepted (tcp ?s ! j)" if "(k, j) \<in> set ?cs" for k j
  proof (cases "j = i")
    case False
    with that have "(k, j) \<in> set (clients s)" using set_update_sub by fastforce
    then show ?thesis using assms(1) acc(1) [of j] unfolding safe_def by blast
  qed (use assms(3) acc(1) in simp)
  have "safe P (?s\<lparr>clients := ?cs, numClients := length ?cs\<rparr>)"
    unfolding safe_def
  proof (intro conjI allI impI ballI)
    fix j assume "j < length (tcp (?s\<lparr>clients := ?cs, numClients := length ?cs\<rparr>))"
      "accepted (tcp (?s\<lparr>clients := ?cs, numClients := length ?cs\<rparr>) ! j)"
    then show "P j" using acc(1) [of j] assms(1,2) unfolding safe_def by auto
  next
    fix j m assume "j < length (tcp (?s\<lparr>clients := ?cs, numClients := length ?cs\<rparr>))"
      "m \<in> set (received (tcp (?s\<lparr>clients := ?cs, numClients := length ?cs\<rparr>) ! j))" "confidential m"
    then show "accepted (tcp (?s\<lparr>clients := ?cs, numClients := length ?cs\<rparr>) ! j)"
      using acc [of j] assms(1) unfolding safe_def by auto
  qed (use cs in auto)
  moreover have "same_server s (?s\<lparr>clients := ?cs, numClients := length ?cs\<rparr>)"
    using nth by (simp add: same_server_def)
  ultimately show ?thesis by (simp add: Accept_def Let_def)
qed

lemma safe_Close:
  assumes "safe P s"
  shows "safe P (Close i s) \<and> same_server s (Close i s)
     \<and> submitted (Close i s) = submitted s \<and> collected (Close i s) = collected s"
proof -
  have "harmless (\<lambda>c. c\<lparr>client_closed := True\<rparr>)" by (simp add: harmless_def)
  note u = safe_update [OF assms this, of i]
  have drop: "safe P (t\<lparr>clients := AList.delete k (clients t), numClients := n\<rparr>)" if "safe P t" for t :: "'w MiningServer" and k n
  proof -
    have "set (AList.delete k (clients t)) \<subseteq> set (clients t)" by (auto simp: AList.delete_eq)
    then show ?thesis using that unfolding safe_def by (auto dest: subsetD)
  qed
  have keep: "same_server s (t\<lparr>clients := cs, numClients := n\<rparr>)" if "same_server s t" for t cs n
    using that by (simp add: same_server_def)
  show ?thesis
  proof (cases "client_closed (tcp s ! i)")
    case True
    then show ?thesis using assms by (simp add: Close_def)
  next
    case False
    define t where "t = update_client i (\<lambda>c. c\<lparr>client_closed := True\<rparr>) s"
    have "submitted t = submitted s" "collected t = collected s" by (simp_all add: t_def)
    with False drop [OF u(1)] keep [OF u(2)] show ?thesis
      unfolding Close_def onClientConnectionClosed_def Let_def t_def [symmetric] by simp
  qed
qed

section \<open>Steps\<close>

definition challenge_of :: "'w MiningServer \<Rightarrow> nat \<Rightarrow> string" where
  "challenge_of s i = itoa (salt s) @ itoa (client_id (tcp s ! i))"

text \<open>The message answers the challenge of the connection.\<close>

definition answers :: "'w MiningServer \<Rightarrow> nat \<Rightarrow> NetworkMessage \<Rightarrow> bool" where
  "answers s i m \<longleftrightarrow> NetworkCommand m = SecretChallenge
     \<and> MessageData m = ChallengeData (challenge_of s i) (challenge_response (secret s) (challenge_of s i))"

lemma check_response_safe:
  assumes "safe P s" "i < length (tcp s)" "answers s i m \<Longrightarrow> P i"
    and "NetworkCommand m = SecretChallenge" "MessageData m = ChallengeData challenge response"
  shows "safe P (check_response i challenge response s) \<and> same_server s (check_response i challenge response s)
     \<and> submitted (check_response i challenge response s) = submitted s
     \<and> collected (check_response i challenge response s) = collected s"
proof -
  have reject: "safe P (reject i why s) \<and> same_server s (reject i why s)
      \<and> submitted (reject i why s) = submitted s \<and> collected (reject i why s) = collected s" for why
  proof -
    let ?m = "NewNetworkMessage RejectedConnection (TextData why)"
    have "\<not> confidential ?m" by (simp add: confidential_def NewNetworkMessage_def)
    note u = safe_update [OF assms(1) harmless_send [OF this], of i]
    show ?thesis using safe_Close [OF u(1), of i] same_server_trans [OF u(2)] by (auto simp: reject_def)
  qed
  show ?thesis
  proof (cases "challenge = GetAuthenticationChallenge s i
      \<and> response = challenge_response (secret s) (GetAuthenticationChallenge s i)")
    case True
    then have "answers s i m"
      using assms(4,5) by (simp add: answers_def challenge_of_def GetAuthenticationChallenge_def)
    from safe_Accept [OF assms(1) assms(3) [OF this] assms(2)] True show ?thesis
      by (simp add: check_response_def Let_def)
  next
    case False
    then show ?thesis using reject by (auto simp: check_response_def Let_def)
  qed
qed

text \<open>What is written for a message, and the statistics that are taken from it.\<close>

definition written_by :: "'w MiningServer \<Rightarrow> nat \<Rightarrow> NetworkMessage \<Rightarrow> nat \<times> FactomEntry \<times> bool \<Rightarrow> bool" where
  "written_by s i m x \<longleftrightarrow> (case x of (j, e, ok) \<Rightarrow> j = i \<and> accepted (tcp s ! i)
     \<and> NetworkCommand m = FactomEntry \<and> MessageData m = EntryData e)"

definition taken_from :: "'w MiningServer \<Rightarrow> nat \<Rightarrow> NetworkMessage \<Rightarrow> nat \<times> GroupMinerStats \<Rightarrow> bool" where
  "taken_from s i m x \<longleftrightarrow> (case x of (j, g) \<Rightarrow> j = i \<and> accepted (tcp s ! i)
     \<and> NetworkCommand m = MiningStatistics \<and> GroupID g = ''Net-'' @ itoa (client_id (tcp s ! i))
     \<and> (\<exists>g'. MessageData m = StatsData g' \<and> BlockHeight g = BlockHeight g' \<and> GroupMinerStats.Miners g = GroupMinerStats.Miners g'))"

lemma retry_submit_new: "\<exists>new. retry_submit n env i e past = past @ new \<and> (\<forall>x \<in> set new. \<exists>ok. x = (i, e, ok))"
proof (induction n arbitrary: past)
  case (Suc n)
  obtain new where new: "retry_submit n env i e (past @ [(i, e, False)]) = (past @ [(i, e, False)]) @ new"
    "\<forall>x \<in> set new. \<exists>ok. x = (i, e, ok)" using Suc by blast
  show ?case
    by (cases "ssubmit_ok env (length past)") (use new in \<open>auto intro: exI [of _ "(i, e, False) # new"]\<close>)
qed simp

lemma message_safe:
  assumes "onNewMessage env i m s = Inr s'" "safe P s" "i < length (tcp s)" "answers s i m \<Longrightarrow> P i"
  shows "safe P s' \<and> same_server s s'
     \<and> (\<exists>new. submitted s' = submitted s @ new \<and> (\<forall>x \<in> set new. written_by s i m x))
     \<and> (\<exists>new. collected s' = collected s @ new \<and> (\<forall>x \<in> set new. taken_from s i m x))"
proof (cases "\<not> accepted (tcp s ! i) \<and> NetworkCommand m \<notin> {SecretChallenge, AddTag, Ping, Pong}")
  case True
  then have "s' = s" using assms(1) by (simp add: onNewMessage_def)
  then show ?thesis using assms(2) by simp
next
  case acc: False
  have pong: "harmless (SendNetworkCommand (NewNetworkMessage Pong NoData))"
    by (rule harmless_send) (simp add: confidential_def NewNetworkMessage_def)
  have tag: "harmless (\<lambda>c. c\<lparr>tags := (tags c)(k \<mapsto> v, ''version'' \<mapsto> MessageVersion m)\<rparr>)" for k v
    by (simp add: harmless_def)
  consider (same) "s' = s"
    | (tagged) k v where "s' = update_client i (\<lambda>c. c\<lparr>tags := (tags c)(k \<mapsto> v, ''version'' \<mapsto> MessageVersion m)\<rparr>) s"
    | (pinged) "s' = update_client i (SendNetworkCommand (NewNetworkMessage Pong NoData)) s"
    | (entry) e where "NetworkCommand m = FactomEntry" "MessageData m = EntryData e" "s' = WriteEntry env i e s"
    | (stats) g where "NetworkCommand m = MiningStatistics" "MessageData m = StatsData g" "add_stats i g s = Inr s'"
    | (answer) ch r where "NetworkCommand m = SecretChallenge" "MessageData m = ChallengeData ch r"
        "s' = check_response i ch r s"
    using assms(1) acc
    by (cases "NetworkCommand m"; cases "MessageData m") (auto simp: onNewMessage_def)
  then show ?thesis
  proof cases
    case same
    then show ?thesis using assms(2) by simp
  next
    case tagged
    then show ?thesis using safe_update [OF assms(2) tag] by simp
  next
    case pinged
    then show ?thesis using safe_update [OF assms(2) pong] by simp
  next
    case entry
    then have "accepted (tcp s ! i)" using acc by auto
    moreover obtain new where "submitted s' = submitted s @ new" "\<forall>x \<in> set new. \<exists>ok. x = (i, e, ok)"
      using retry_submit_new [of "stries env (length (submitted s))" env i e "submitted s"] entry(3)
      by (auto simp: WriteEntry_def)
    ultimately show ?thesis
      using entry assms(2) by (auto simp: written_by_def WriteEntry_def safe_def same_server_def)
  next
    case stats
    then have "accepted (tcp s ! i)" using acc by auto
    then show ?thesis
      using stats assms(2)
      by (auto simp: add_stats_def Let_def taken_from_def safe_def same_server_def split: option.splits)
  next
    case answer
    then show ?thesis using check_response_safe [OF assms(2,3,4) answer(1,2)] by simp
  qed
qed

section \<open>Runs\<close>

lemma safe_Connect:
  assumes "safe P s" "useAuth s" "server_step env s (Connect k addr) = Inr s'"
  shows "safe P s' \<and> same_server s s' \<and> submitted s' = submitted s \<and> collected s' = collected s"
proof -
  let ?t = "s\<lparr>tcp := tcp s @ [NewTCPClient k addr]\<rparr>"
  have t: "safe P ?t" using assms(1) by (auto simp: safe_def nth_append NewTCPClient_def split: if_splits)
  have st: "same_server s ?t" by (simp add: same_server_def nth_append)
  let ?m = "NewNetworkMessage SecretChallenge (ChallengeData (GetAuthenticationChallenge ?t (length (tcp s))) [])"
  have "harmless (SendNetworkCommand ?m)"
    by (rule harmless_send) (simp add: confidential_def NewNetworkMessage_def)
  note u = safe_update [OF t this, of "length (tcp s)"]
  have "s' = update_client (length (tcp s)) (SendNetworkCommand ?m) ?t"
    using assms(2,3) by (simp add: server_step_def onNewClient_def)
  then show ?thesis using u same_server_trans [OF st u(2)] by simp
qed

lemma safe_monitor:
  assumes "safe P s"
  shows "safe P (monitor_alert env fds s) \<and> same_server s (monitor_alert env fds s)
     \<and> submitted (monitor_alert env fds s) = submitted s \<and> collected (monitor_alert env fds s) = collected s"
proof -
  have "safe P (forward_minute fds s) \<and> same_server s (forward_minute fds s)
     \<and> submitted (forward_minute fds s) = submitted s \<and> collected (forward_minute fds s) = collected s"
  proof -
    define t where "t = s\<lparr>mining := (if EventMinute fds = 9 \<and> mining s then False
                     else if EventMinute fds = 1 then True else mining s), last_event := fds\<rparr>"
    have t: "safe P t" "same_server s t" "submitted t = submitted s" "collected t = collected s"
      using assms by (simp_all add: t_def safe_def same_server_def)
    from safe_SendToClients [OF t(1)] t same_server_trans [OF t(2)] show ?thesis
      unfolding forward_minute_def t_def [symmetric] Let_def by auto
  qed
  moreover have "safe P (coordinator_error why s) \<and> same_server s (coordinator_error why s)
     \<and> submitted (coordinator_error why s) = submitted s \<and> collected (coordinator_error why s) = collected s" for why
    unfolding coordinator_error_def by (rule safe_SendToClients [OF assms])
  ultimately show ?thesis by (simp add: monitor_alert_def split: sum.splits)
qed

lemma safe_grader:
  assumes "grader_alert env g s = Inr s'" "safe P s"
  shows "safe P s' \<and> same_server s s' \<and> submitted s' = submitted s \<and> collected s' = collected s"
proof (cases "mining s")
  case True
  obtain r w where rw: "NewOpr (sopr env) (sconfig env) 0 (EventDbht (last_event s)) (Some g) (world s) = (r, w)"
    by (rule prod.exhaust)
  define t where "t = s\<lparr>world := w\<rparr>"
  have t: "safe P t" "same_server s t" "submitted t = submitted s" "collected t = collected s"
    using assms(2) by (simp_all add: t_def safe_def same_server_def)
  obtain m where "s' = SendToClients m t"
    using assms(1) True rw by (auto simp: grader_alert_def t_def split: if_splits)
  then show ?thesis using safe_SendToClients [OF t(1), of m] t same_server_trans [OF t(2)] by auto
qed (use assms in \<open>simp add: grader_alert_def\<close>)

text \<open>One step: a message is all that a new acceptance, entry or statistics come from.\<close>

lemma step_safe:
  assumes "server_step env s e = Inr s'" "safe P s" "useAuth s"
    and "\<And>i m. e = Message i m \<Longrightarrow> i < length (tcp s) \<Longrightarrow> answers s i m \<Longrightarrow> P i"
  shows "safe P s' \<and> same_server s s'
     \<and> (\<exists>new. submitted s' = submitted s @ new \<and> (\<forall>x \<in> set new. \<exists>i m. e = Message i m \<and> i < length (tcp s) \<and> written_by s i m x))
     \<and> (\<exists>new. collected s' = collected s @ new \<and> (\<forall>x \<in> set new. \<exists>i m. e = Message i m \<and> i < length (tcp s) \<and> taken_from s i m x))"
proof (cases e)
  case (Connect k addr)
  with safe_Connect [OF assms(2,3)] assms(1) show ?thesis by force
next
  case (Message i m)
  show ?thesis
  proof (cases "i < length (tcp s) \<and> listening (tcp s ! i)")
    case True
    then have "onNewMessage env i m s = Inr s'" using assms(1) Message by (simp add: server_step_def)
    from message_safe [OF this assms(2)] True assms(4) [OF Message] Message show ?thesis by blast
  next
    case False
    then have "s' = s" using assms(1) Message by (auto simp: server_step_def)
    then show ?thesis using assms(2) by simp
  qed
next
  case (DecodeError i)
  have l: "harmless (\<lambda>c. c\<lparr>listening := False\<rparr>)" by (simp add: harmless_def)
  from safe_Close [OF assms(2), of i] have c: "safe P (Close i s)" "same_server s (Close i s)"
    "submitted (Close i s) = submitted s" "collected (Close i s) = collected s" by auto
  show ?thesis
    using assms(1,2) DecodeError safe_update [OF c(1) l, of i] c same_server_trans [OF c(2)]
    by (auto simp: server_step_def split: if_splits)
next
  case (Break i)
  have "harmless (\<lambda>c. c\<lparr>broken := True\<rparr>)" by (simp add: harmless_def)
  from safe_update [OF assms(2) this, of i] Break assms(1,2) show ?thesis
    by (auto simp: server_step_def split: if_splits)
next
  case (MonitorAlert fds)
  with safe_monitor [OF assms(2), of env fds] assms(1) show ?thesis by (auto simp: server_step_def)
next
  case (GraderAlert g)
  then have "grader_alert env g s = Inr s'" using assms(1) by (simp add: server_step_def)
  from safe_grader [OF this assms(2)] show ?thesis by simp
qed

lemma safe_mono: "safe P s \<Longrightarrow> (\<And>i. i < length (tcp s) \<Longrightarrow> P i \<Longrightarrow> Q i) \<Longrightarrow> safe Q s"
  by (simp add: safe_def)

text \<open>What a run has to do with the messages it has seen.\<close>

definition admitted :: "server_event list \<Rightarrow> 'w MiningServer \<Rightarrow> nat \<Rightarrow> (NetworkMessage \<Rightarrow> bool) \<Rightarrow> bool" where
  "admitted es s i Q \<longleftrightarrow> i < length (tcp s)
     \<and> (\<exists>m m'. subseq [Message i m, Message i m'] es \<and> answers s i m \<and> Q m')"

definition authenticated :: "server_event list \<Rightarrow> 'w MiningServer \<Rightarrow> bool" where
  "authenticated es s \<longleftrightarrow> useAuth s \<and> safe (\<lambda>i. i < length (tcp s) \<and> (\<exists>m. Message i m \<in> set es \<and> answers s i m)) s
     \<and> (\<forall>(i, e, ok) \<in> set (submitted s).
          admitted es s i (\<lambda>m. NetworkCommand m = FactomEntry \<and> MessageData m = EntryData e))
     \<and> (\<forall>(i, g) \<in> set (collected s).
          admitted es s i (\<lambda>m. NetworkCommand m = MiningStatistics \<and> (\<exists>g'. MessageData m = StatsData g'
            \<and> GroupMinerStats.Miners g = GroupMinerStats.Miners g')))"

lemma answers_same:
  "same_server s s' \<Longrightarrow> i < length (tcp s) \<Longrightarrow> answers s' i m \<longleftrightarrow> answers s i m"
  by (simp add: same_server_def answers_def challenge_of_def)

lemma admitted_later:
  assumes "admitted es s i Q" "same_server s s'"
  shows "admitted (es @ [e]) s' i Q"
proof -
  obtain m m' where m: "i < length (tcp s)" "subseq [Message i m, Message i m'] es" "answers s i m" "Q m'"
    using assms(1) by (auto simp: admitted_def)
  have "subseq [Message i m, Message i m'] (es @ [e])" by (rule list_emb_prefix [OF m(2)])
  then show ?thesis
    using m assms(2) answers_same [OF assms(2) m(1)] by (auto simp: admitted_def same_server_def)
qed

lemma admitted_new:
  assumes "safe (\<lambda>i. i < length (tcp s) \<and> (\<exists>m. Message i m \<in> set es \<and> answers s i m)) s" "same_server s s'"
    and "i < length (tcp s)" "accepted (tcp s ! i)" "Q m'"
  shows "admitted (es @ [Message i m']) s' i Q"
proof -
  obtain m where m: "Message i m \<in> set es" "answers s i m" using assms unfolding safe_def by blast
  have "subseq ([Message i m] @ [Message i m']) (es @ [Message i m'])"
    by (rule list_emb_append_mono) (use m(1) in \<open>simp_all add: subseq_singleton_left\<close>)
  then show ?thesis
    using m(2) assms answers_same [OF assms(2,3)] by (auto simp: admitted_def same_server_def)
qed

lemma authenticated_step:
  assumes "authenticated es s" "server_step env s e = Inr s'"
  shows "authenticated (es @ [e]) s'"
proof -
  let ?P = "\<lambda>es i. i < length (tcp s) \<and> (\<exists>m. Message i m \<in> set es \<and> answers s i m)"
  have auth: "useAuth s" and old: "safe (?P es) s" using assms(1) by (auto simp: authenticated_def)
  have "safe (?P (es @ [e])) s" by (rule safe_mono [OF old]) auto
  from step_safe [OF assms(2) this auth] obtain new new' where
    step: "safe (?P (es @ [e])) s'" "same_server s s'"
      "submitted s' = submitted s @ new" "\<forall>x \<in> set new. \<exists>i m. e = Message i m \<and> i < length (tcp s) \<and> written_by s i m x"
      "collected s' = collected s @ new'" "\<forall>x \<in> set new'. \<exists>i m. e = Message i m \<and> i < length (tcp s) \<and> taken_from s i m x"
    by fastforce
  show ?thesis
    unfolding authenticated_def
  proof (intro conjI ballI)
    show "useAuth s'" using auth step(2) by (simp add: same_server_def)
  next
    show "safe (\<lambda>i. i < length (tcp s') \<and> (\<exists>m. Message i m \<in> set (es @ [e]) \<and> answers s' i m)) s'"
      by (rule safe_mono [OF step(1)]) (use answers_same [OF step(2)] in auto)
  next
    fix x assume x: "x \<in> set (submitted s')"
    show "case x of (i, f, ok) \<Rightarrow>
        admitted (es @ [e]) s' i (\<lambda>m. NetworkCommand m = FactomEntry \<and> MessageData m = EntryData f)"
    proof (cases "x \<in> set (submitted s)")
      case True
      then show ?thesis using assms(1) admitted_later [OF _ step(2)] unfolding authenticated_def by fastforce
    next
      case False
      then obtain i m where "e = Message i m" "i < length (tcp s)" "written_by s i m x" using x step(3,4) by auto
      then show ?thesis using admitted_new [OF old step(2)] by (auto simp: written_by_def)
    qed
  next
    fix x assume x: "x \<in> set (collected s')"
    show "case x of (i, g) \<Rightarrow> admitted (es @ [e]) s' i (\<lambda>m. NetworkCommand m = MiningStatistics \<and> (\<exists>g'. MessageData m = StatsData g'
            \<and> GroupMinerStats.Miners g = GroupMinerStats.Miners g'))"
    proof (cases "x \<in> set (collected s)")
      case True
      then show ?thesis using assms(1) admitted_later [OF _ step(2)] unfolding authenticated_def by fastforce
    next
      case False
      then obtain i m where "e = Message i m" "i < length (tcp s)" "taken_from s i m x" using x step(5,6) by auto
      then show ?thesis using admitted_new [OF old step(2)] by (auto simp: taken_from_def)
    qed
  qed
qed

lemma run_authenticated:
  "server_run env es s0 = Inr s \<Longrightarrow> authenticated [] s0 \<Longrightarrow> authenticated es s"
proof (induction es arbitrary: s rule: rev_induct)
  case (snoc e es)
  have unit: "rbind m Inr = m" for m :: "'a MiningServer res" by (cases m) simp_all
  have "res_fold f t (xs @ [x]) = rbind (res_fold f t xs) (\<lambda>t'. f t' x)"
    for f and t :: "'a MiningServer" and xs and x :: server_event
    by (induction xs arbitrary: t) (simp_all add: unit rbind_assoc)
  with snoc.prems(1) obtain t where "server_run env es s0 = Inr t" "server_step env t e = Inr s"
    by (auto simp: server_run_def res_simps)
  with snoc show ?case using authenticated_step by blast
qed (simp add: server_run_def)

lemma started_authenticated: "NewMiningServer env r w = Inr s0 \<Longrightarrow> useAuth s0 \<Longrightarrow> authenticated [] s0"
  by (auto simp: NewMiningServer_def authenticated_def safe_def res_simps)

text \<open>
  C6. When the coordinator demands authentication, whatever its clients, its monitor and its grader do
  and in whatever order: every connection it has accepted, and so every one that its map of clients names,
  has sent the right answer to its own challenge; nobody else is sent an event, a record or an error of
  the coordinator; and every entry that was handed to factomd, and every statistic that was collected,
  came from a connection that had answered before it sent that very entry or statistic.
\<close>

theorem network_authenticated:
  assumes "NewMiningServer env r w = Inr s0" "useAuth s0" "server_run env es s0 = Inr s"
  shows "(\<forall>i < length (tcp s). accepted (tcp s ! i) \<longrightarrow> (\<exists>m. Message i m \<in> set es \<and> answers s i m))
    \<and> (\<forall>(k, i) \<in> set (clients s). i < length (tcp s) \<and> accepted (tcp s ! i))
    \<and> (\<forall>i < length (tcp s). \<forall>m \<in> set (received (tcp s ! i)). confidential m \<longrightarrow> accepted (tcp s ! i))
    \<and> (\<forall>(i, e, ok) \<in> set (submitted s). i < length (tcp s) \<and> (\<exists>m m'. subseq [Message i m, Message i m'] es
         \<and> answers s i m \<and> NetworkCommand m' = FactomEntry \<and> MessageData m' = EntryData e))
    \<and> (\<forall>(i, g) \<in> set (collected s). i < length (tcp s) \<and> (\<exists>m m' g'. subseq [Message i m, Message i m'] es
         \<and> answers s i m \<and> NetworkCommand m' = MiningStatistics \<and> MessageData m' = StatsData g'
         \<and> GroupMinerStats.Miners g = GroupMinerStats.Miners g'))"
  using run_authenticated [OF assms(3) started_authenticated [OF assms(1,2)]]
  by (auto simp: authenticated_def safe_def admitted_def split_beta)

text \<open>A client that knows the secret, one that does not, and one that never answers.\<close>

definition sample_server_env :: "nat server_env" where
  "sample_server_env = \<lparr>sconfig = (\<lambda>key. Inr (if key = ''Miner.CoordinatorSecret'' then ''s'' else ''x'')),
     sbool = (\<lambda>_. Inr True), sfetch_ec = (\<lambda>_. Inr []), sbalance = (\<lambda>_ _. Inr 1),
     sopr = \<lparr>opoll = sample_env, oenc = (\<lambda>_. []), odec = (\<lambda>_. []), ojson_float = (\<lambda>_. Inr []),
       ojson_record = (\<lambda>_ _. Inr []), opmarshal = (\<lambda>_. Inr []), oIsValidAddress = (\<lambda>_. False)\<rparr>, ssubmit_ok = (\<lambda>_. True), stries = (\<lambda>_. 0)\<rparr>"

definition sample_server :: "nat MiningServer" where
  "sample_server = \<lparr>tcp = [], clients = [], numClients = 0, salt = 1, secret = ''s'', useAuth = True, mining = False,
     last_event = \<lparr>EventMinute = 0, EventDbht = 0\<rparr>, submitted = [], collected = [], EC = [], world = (None, 0)\<rparr>"

definition sample_entry :: FactomEntry where
  "sample_entry = \<lparr>FactomEntry.ChainID = [], FactomEntry.ExtIDs = [], FactomEntry.Content = []\<rparr>"

definition sample_answer :: "string \<Rightarrow> NetworkMessage" where
  "sample_answer k = NewNetworkMessage SecretChallenge (ChallengeData (''1'' @ k) (challenge_response ''s'' (''1'' @ k)))"

definition sample_events :: "server_event list" where
  "sample_events = [Connect 7 ''a'', Connect 8 ''b'', Message 1 (NewNetworkMessage FactomEntry (EntryData sample_entry)),
     Message 0 (sample_answer ''7''), Message 0 (NewNetworkMessage FactomEntry (EntryData sample_entry)),
     MonitorAlert \<lparr>EventMinute = 1, EventDbht = 3\<rparr>]"

lemma sample_server_started: "NewMiningServer sample_server_env 1 (None, 0) = Inr sample_server"
  by (simp add: NewMiningServer_def sample_server_env_def sample_server_def check_panic_def)

definition sample_after :: "nat MiningServer" where
  "sample_after = sample_server\<lparr>tcp :=
     [(NewTCPClient 7 ''a'')\<lparr>accepted := True, received :=
         [NewNetworkMessage SecretChallenge (ChallengeData ''17'' []),
          \<lparr>NetworkCommand = FactomEvent, MessageData = EventData \<lparr>EventMinute = 1, EventDbht = 3\<rparr>, MessageVersion = []\<rparr>]\<rparr>,
      (NewTCPClient 8 ''b'')\<lparr>received := [NewNetworkMessage SecretChallenge (ChallengeData ''18'' [])]\<rparr>],
     clients := [(7, 0)], numClients := 1, submitted := [(0, sample_entry, True)],
     last_event := \<lparr>EventMinute = 1, EventDbht = 3\<rparr>, mining := True\<rparr>"

lemma sample_itoa: "itoa 1 = ''1''" "itoa 7 = ''7''" "itoa 8 = ''8''"
  by code_simp+

lemma sample_server_run: "server_run sample_server_env sample_events sample_server = Inr sample_after"
  by (simp add: server_run_def sample_events_def sample_server_env_def sample_server_def sample_after_def
      server_step_def onNewClient_def onNewMessage_def NewTCPClient_def update_client_def SendNetworkCommand_def
      sendable_def GetAuthenticationChallenge_def NewNetworkMessage_def check_response_def Accept_def Let_def
      sample_answer_def WriteEntry_def monitor_alert_def forward_minute_def SendToClients_def sample_itoa)

theorem network_authenticated_witness:
  "(\<exists>m. Message 0 m \<in> set sample_events \<and> answers sample_after 0 m)
   \<and> (\<exists>m m'. subseq [Message 0 m, Message 0 m'] sample_events \<and> answers sample_after 0 m
        \<and> MessageData m' = EntryData sample_entry)"
  using network_authenticated [OF sample_server_started _ sample_server_run]
  by (fastforce simp: sample_server_def sample_after_def)

section \<open>The handshake\<close>

text \<open>
  A connection is made to a coordinator that demands authentication, which sends it one message, the
  challenge; the client answers it, with one message. The coordinator that gets the answer accepts the
  client, and enters it in its map, exactly when the client's setting and its own secret give the same hash
  with the challenge; otherwise it closes the connection and the map does not hold it, the client is told, and
  ends.
\<close>

theorem handshake:
  assumes "useAuth s" "wire_ok c" "running c"
  shows "\<exists>s1 s2 c1 challenge answer ch. server_step env s (Connect k addr) = Inr s1
    \<and> received (tcp s1 ! length (tcp s)) = [challenge]
    \<and> client_step c (FromServer challenge) = Inr c1 \<and> sent c1 = sent c @ [answer]
    \<and> server_step env s1 (Message (length (tcp s)) answer) = Inr s2
    \<and> ch = itoa (salt s) @ itoa k
    \<and> (if sha256 (bytes_of_string (setting_or_empty (cconfig c) ''Miner.CoordinatorSecret'' @ ch))
           = sha256 (bytes_of_string (secret s @ ch))
       then accepted (tcp s2 ! length (tcp s)) \<and> map_of (clients s2) k = Some (length (tcp s))
       else \<not> accepted (tcp s2 ! length (tcp s)) \<and> client_closed (tcp s2 ! length (tcp s))
         \<and> map_of (clients s2) k = None
         \<and> (\<exists>rejection c2. received (tcp s2 ! length (tcp s)) = [challenge, rejection]
              \<and> client_step c1 (FromServer rejection) = Inr c2 \<and> cancelled c2 \<and> \<not> running c2))"
proof -
  let ?i = "length (tcp s)" and ?ch = "itoa (salt s) @ itoa k"
  let ?sec = "setting_or_empty (cconfig c) ''Miner.CoordinatorSecret''"
  define challenge where "challenge = NewNetworkMessage SecretChallenge (ChallengeData ?ch [])"
  define answer where "answer = NewNetworkMessage SecretChallenge (ChallengeData ?ch (challenge_response ?sec ?ch))"
  define s1 where "s1 = s\<lparr>tcp := tcp s @ [(NewTCPClient k addr)\<lparr>received := [challenge]\<rparr>]\<rparr>"
  define c1 where "c1 = c\<lparr>sent := sent c @ [answer]\<rparr>"
  have new: "tcp s1 ! ?i = (NewTCPClient k addr)\<lparr>received := [challenge]\<rparr>" by (simp add: s1_def)
  have s1: "server_step env s (Connect k addr) = Inr s1" "received (tcp s1 ! ?i) = [challenge]"
    using assms(1)
    by (simp_all add: s1_def server_step_def onNewClient_def update_client_def SendNetworkCommand_def
        sendable_def NewTCPClient_def GetAuthenticationChallenge_def challenge_def)
  have c1: "client_step c (FromServer challenge) = Inr c1" "sent c1 = sent c @ [answer]"
    using assms(2,3)
    by (simp_all add: c1_def client_step_def Listen_step_def encode_def challenge_def answer_def NewNetworkMessage_def)
  have expected: "GetAuthenticationChallenge s1 ?i = ?ch"
    by (simp add: GetAuthenticationChallenge_def new NewTCPClient_def) (simp add: s1_def)
  have "server_step env s1 (Message ?i answer) = Inr (check_response ?i ?ch (challenge_response ?sec ?ch) s1)"
    by (simp add: server_step_def onNewMessage_def new NewTCPClient_def answer_def NewNetworkMessage_def)
      (simp add: s1_def)
  moreover have "challenge_response ?sec ?ch = challenge_response (secret s1) ?ch
      \<longleftrightarrow> sha256 (bytes_of_string (?sec @ ?ch)) = sha256 (bytes_of_string (secret s @ ?ch))"
    by (simp add: challenge_response_def hexEncode_inject s1_def)
  moreover have "accepted (tcp (Accept ?i s1) ! ?i)" "map_of (clients (Accept ?i s1)) k = Some ?i"
    by (simp_all add: Accept_def Let_def update_client_def s1_def NewTCPClient_def AList.update_conv')
  moreover define why where "why = ''challenge response is incorrect''"
  moreover define rejection where "rejection = NewNetworkMessage RejectedConnection (TextData why)"
  moreover have "\<not> accepted (tcp (reject ?i why s1) ! ?i)" "client_closed (tcp (reject ?i why s1) ! ?i)"
      "map_of (clients (reject ?i why s1)) k = None" "received (tcp (reject ?i why s1) ! ?i) = [challenge, rejection]"
    by (simp_all add: reject_def Close_def onClientConnectionClosed_def Let_def update_client_def s1_def
        NewTCPClient_def AList.delete_conv' SendNetworkCommand_def sendable_def rejection_def)
  moreover have "\<exists>c2. client_step c1 (FromServer rejection) = Inr c2 \<and> cancelled c2 \<and> \<not> running c2"
    using assms(3) by (simp add: client_step_def Listen_step_def rejection_def NewNetworkMessage_def c1_def)
  ultimately show ?thesis
    using s1 c1 expected by (auto simp: check_response_def Let_def why_def [symmetric])
qed

definition sample_client :: "string \<Rightarrow> MiningClient" where
  "sample_client sec = \<lparr>cconfig = (\<lambda>_. Inr sec), FactomDigitalID = [], client_monitor = NewMonitor,
     client_grader = \<lparr>channels = [], closed = []\<rparr>, OPRMaker = [], sent = [], wire_ok = True,
     cancelled = False, running = True\<rparr>"

theorem handshake_witness:
  "\<exists>s1 s2 c1 challenge answer. server_step sample_server_env sample_server (Connect 7 ''a'') = Inr s1
    \<and> client_step (sample_client ''s'') (FromServer challenge) = Inr c1 \<and> sent c1 = [answer]
    \<and> server_step sample_server_env s1 (Message 0 answer) = Inr s2 \<and> accepted (tcp s2 ! 0)"
  using handshake [of sample_server "sample_client ''s''" sample_server_env 7 "''a''"]
  by (auto simp: sample_server_def sample_client_def setting_or_empty_def)

end
