(* ===== verification/Api.thy ===== *)
theory Api
  imports QuickGrader MiningStats Config Polling
begin

text \<open>
  The HTTP API of a node, package api, and its control panel, package controlPanel: what a request is
  answered, from the grader's blocks, the balances and the statistics.

  The JSON coder is an argument: \<open>aperformance\<close> and \<open>ageneric\<close> decode the parameters of a request, of a type
  that stays open. \<open>aheights\<close> is the answer of factomd when a handler asks it for its heights. A panic in
  a handler is an outcome, \<open>Inl\<close>; the server of package net/http drops the connection and lives on. A
  handler that never returns has the outcome \<open>None\<close>.
\<close>

section \<open>errors.go, apiStructs.go\<close>

record ApiError =
  Code :: int
  Reason :: string

definition NewMethodNotFoundError :: ApiError where
  "NewMethodNotFoundError = \<lparr>Code = 1, Reason = ''Method Not Found''\<rparr>"

definition NewInvalidParametersError :: ApiError where
  "NewInvalidParametersError = \<lparr>Code = 2, Reason = ''Invalid parameters''\<rparr>"

definition NewJSONDecodingError :: ApiError where
  "NewJSONDecodingError = \<lparr>Code = 3, Reason = ''Unable to parse JSON body''\<rparr>"

definition NewInternalError :: ApiError where
  "NewInternalError = \<lparr>Code = 4, Reason = ''Internal error''\<rparr>"

text \<open>A pointer that may be nil is an option.\<close>

record BlockRange =
  RangeStart :: "int option"
  RangeEnd :: "int option"

record PerformanceParameters =
  ParamRange :: BlockRange
  ParamID :: string

record GenericParameters =
  ParamAddress :: "string option"
  ParamHeight :: "int option"
  ParamDigitalID :: string
  ParamHash :: string

record PerformanceResult =
  ResultRange :: BlockRange
  Submissions :: int
  Rewards :: int
  DifficultyPlacements :: "(string \<times> int) list"
  GradingPlacements :: "(string \<times> int) list"

record GenericResult =
  ResBalance :: int
  ResChainID :: string
  ResLeaderHeight :: int
  ResOPRBlocks :: "OprBlock list"
  ResWinners :: "string list"
  ResWinner :: string
  ResOPRBlock :: "OprBlock option"
  ResOPRs :: "OraclePriceRecord list"
  ResOPR :: "OraclePriceRecord option"

definition no_result :: GenericResult where
  "no_result = \<lparr>ResBalance = 0, ResChainID = [], ResLeaderHeight = 0, ResOPRBlocks = [], ResWinners = [],
     ResWinner = [], ResOPRBlock = None, ResOPRs = [], ResOPR = None\<rparr>"

datatype api_result = Performance PerformanceResult | Generic GenericResult

record PostResponse =
  Res :: "api_result option"
  Err :: "ApiError option"

record 'p PostRequest =
  Method :: string
  Params :: 'p

text \<open>What a handler comes to: an error of the API, or a result.\<close>

type_synonym 'a handled = "(ApiError + 'a) res"

record 'p api_env =
  aconfig :: config
  aheights :: "int res"
  aperformance :: "'p \<Rightarrow> PerformanceParameters res"
  ageneric :: "'p \<Rightarrow> GenericParameters res"
  adec :: "string \<Rightarrow> byte list"

section \<open>The performance of a miner\<close>

definition getLeaderHeight :: "'p api_env \<Rightarrow> int" where
  "getLeaderHeight env = (case aheights env of Inl _ \<Rightarrow> 0 | Inr h \<Rightarrow> h)"

text \<open>The heights that are asked for. A start below zero counts back from the leader's height.\<close>

definition block_range :: "'p api_env \<Rightarrow> int \<Rightarrow> int option \<Rightarrow> (int \<times> int) option" where
  "block_range env s e =
     (let start = (if s < 0 then wrap64 (getLeaderHeight env + s) else s) in
      if s < 0 \<and> start < 0 then None
      else case e of
          None \<Rightarrow> (if start > getLeaderHeight env then None else Some (start, getLeaderHeight env))
        | Some x \<Rightarrow> (if start < 0 then None else if start > x then None else Some (start, x)))"

text \<open>
  The counters. The ranges of the numbers they count are far below 2^63; the rewards are added with
  wrap-around.
\<close>

record tally =
  submissions :: int
  rewards :: int
  difficultyCount :: int
  difficultySum :: int
  difficultyPlaces :: "(nat \<times> int) list"
  gradingCount :: int
  gradingSum :: int
  gradingPlaces :: "(nat \<times> int) list"

definition no_tally :: tally where
  "no_tally = \<lparr>submissions = 0, rewards = 0, difficultyCount = 0, difficultySum = 0,
     difficultyPlaces = map (\<lambda>k. (k, 0)) [1, 5, 10, 25, 50], gradingCount = 0, gradingSum = 0,
     gradingPlaces = map (\<lambda>k. (k, 0)) [1..<51]\<rparr>"

definition made_by :: "string \<Rightarrow> OraclePriceRecord \<Rightarrow> bool" where
  "made_by did r \<longleftrightarrow> FactomDigitalID r = did \<or> CoinbaseAddress r = did"

definition tally_difficulty :: "string \<Rightarrow> tally \<Rightarrow> nat \<times> OraclePriceRecord \<Rightarrow> tally" where
  "tally_difficulty did t x = (case x of (i, r) \<Rightarrow>
     if made_by did r
     then (let t1 = t\<lparr>submissions := submissions t + 1\<rparr> in
           if i < 50
           then t1\<lparr>difficultyCount := difficultyCount t + 1, difficultySum := difficultySum t + int (i + 1),
                  difficultyPlaces := map (\<lambda>(k, v). (k, if i \<le> k then v + 1 else v)) (difficultyPlaces t)\<rparr>
           else t1)
     else t)"

definition tally_grading :: "string \<Rightarrow> string \<Rightarrow> tally \<Rightarrow> nat \<times> OraclePriceRecord \<Rightarrow> tally res" where
  "tally_grading net did t x = (case x of (i, r) \<Rightarrow>
     if made_by did r
     then rbind (GetRewardFromPlace (int i) net (sint (Dbht r))) (\<lambda>reward.
       Inr (t\<lparr>rewards := wrap64 (rewards t + reward), gradingCount := gradingCount t + 1,
              gradingSum := gradingSum t + int (i + 1),
              gradingPlaces := map (\<lambda>(k, v). (k, if i + 1 \<le> k then v + 1 else v)) (gradingPlaces t)\<rparr>))
     else Inr t)"

definition tally_block :: "'d QuickGrader \<Rightarrow> string \<Rightarrow> string \<Rightarrow> int \<Rightarrow> tally \<Rightarrow> tally res" where
  "tally_block g net did i t = (case OprBlockByHeight g i of
     None \<Rightarrow> Inr t
   | Some b \<Rightarrow> res_fold (tally_grading net did)
       (foldl (tally_difficulty did) t (enumerate 0 (BlockOPRs b))) (enumerate 0 (GradedOPRs b)))"

text \<open>The loop over the heights: after the greatest height of 64 bits comes the least.\<close>

partial_function (option) tally_loop :: "(int \<Rightarrow> tally \<Rightarrow> tally res) \<Rightarrow> int \<Rightarrow> int \<Rightarrow> tally \<Rightarrow> tally res option"
  where
  "tally_loop f i e t =
     (if i \<le> e
      then case f i t of Inl x \<Rightarrow> Some (Inl x) | Inr t' \<Rightarrow> tally_loop f (wrap64 (i + 1)) e t'
      else Some (Inr t))"

definition placements :: "int \<Rightarrow> int \<Rightarrow> (nat \<times> int) list \<Rightarrow> (string \<times> int) list" where
  "placements n s ps = [(''count'', n), (''sum'', s)] @ map (\<lambda>(k, v). (itoa (int k), v)) ps"

definition performance_of :: "int \<Rightarrow> int \<Rightarrow> tally \<Rightarrow> PerformanceResult" where
  "performance_of start e t = \<lparr>ResultRange = \<lparr>RangeStart = Some start, RangeEnd = Some e\<rparr>,
     Submissions = submissions t, Rewards = rewards t,
     DifficultyPlacements = placements (difficultyCount t) (difficultySum t) (difficultyPlaces t),
     GradingPlacements = placements (gradingCount t) (gradingSum t) (gradingPlaces t)\<rparr>"

definition getPerformance :: "'p api_env \<Rightarrow> 'd QuickGrader \<Rightarrow> 'p \<Rightarrow> PerformanceResult handled option" where
  "getPerformance env g params =
     (case LoadConfigNetwork (aconfig env) of
        Inl _ \<Rightarrow> Some (Inr (Inl NewInternalError))
      | Inr net \<Rightarrow> (case aperformance env params of
          Inl _ \<Rightarrow> Some (Inr (Inl NewJSONDecodingError))
        | Inr p \<Rightarrow> (case (if ParamID p = [] then None else RangeStart (ParamRange p)) of
            None \<Rightarrow> Some (Inr (Inl NewInvalidParametersError))
          | Some s \<Rightarrow> (case block_range env s (RangeEnd (ParamRange p)) of
              None \<Rightarrow> Some (Inr (Inl NewInvalidParametersError))
            | Some (start, e) \<Rightarrow>
                (case tally_loop (tally_block g net (ParamID p)) start e no_tally of
                   None \<Rightarrow> None
                 | Some (Inl x) \<Rightarrow> Some (Inl x)
                 | Some (Inr t) \<Rightarrow> Some (Inr (Inr (performance_of start e t))))))))"

section \<open>The other handlers\<close>

definition with_params :: "'p api_env \<Rightarrow> 'p \<Rightarrow> (GenericParameters \<Rightarrow> GenericResult res option) \<Rightarrow> GenericResult handled"
  where
  "with_params env params f = (case ageneric env params of
     Inl _ \<Rightarrow> Inr (Inl NewInvalidParametersError)
   | Inr p \<Rightarrow> (case f p of
       None \<Rightarrow> Inr (Inl NewInvalidParametersError)
     | Some r \<Rightarrow> rbind r (\<lambda>x. Inr (Inr x))))"

definition getCurrentOPRs :: "'p api_env \<Rightarrow> 'd QuickGrader \<Rightarrow> GenericResult" where
  "getCurrentOPRs env g = no_result\<lparr>ResOPRBlock := OprBlockByHeight g (getLeaderHeight env)\<rparr>"

definition getOprByHash :: "'p api_env \<Rightarrow> 'd QuickGrader \<Rightarrow> 'p \<Rightarrow> GenericResult handled" where
  "getOprByHash env g params = with_params env params (\<lambda>p. if ParamHash p = [] then None
     else Some (Inr (no_result\<lparr>ResOPR := Some (OprByHash g (ParamHash p))\<rparr>)))"

definition getOprByShortHash :: "'p api_env \<Rightarrow> 'd QuickGrader \<Rightarrow> 'p \<Rightarrow> GenericResult handled" where
  "getOprByShortHash env g params = with_params env params (\<lambda>p. if ParamHash p = [] then None
     else Some (rbind (OprByShortHash g (ParamHash p)) (\<lambda>r. Inr (no_result\<lparr>ResOPR := Some r\<rparr>))))"

definition getOprsByDigitalID :: "'p api_env \<Rightarrow> 'd QuickGrader \<Rightarrow> 'p \<Rightarrow> GenericResult handled" where
  "getOprsByDigitalID env g params = with_params env params (\<lambda>p. if ParamDigitalID p = [] then None
     else Some (Inr (no_result\<lparr>ResOPRs := OprsByDigitalID g (ParamDigitalID p)\<rparr>)))"

definition getOPRsByHeight :: "'p api_env \<Rightarrow> 'd QuickGrader \<Rightarrow> 'p \<Rightarrow> GenericResult handled" where
  "getOPRsByHeight env g params = with_params env params (\<lambda>p. map_option
     (\<lambda>h. Inr (no_result\<lparr>ResOPRBlock := OprBlockByHeight g h\<rparr>)) (ParamHeight p))"

definition getBalance :: "'p api_env \<Rightarrow> BalanceTracker \<Rightarrow> 'p \<Rightarrow> GenericResult handled" where
  "getBalance env b params = with_params env params (\<lambda>p. map_option
     (\<lambda>a. rbind (GetBalance (adec env) b a) (\<lambda>n. Inr (no_result\<lparr>ResBalance := n\<rparr>))) (ParamAddress p))"

definition getWinners :: "'p api_env \<Rightarrow> 'd QuickGrader \<Rightarrow> string list res" where
  "getWinners env g = (case OprBlockByHeight g (getLeaderHeight env) of
     None \<Rightarrow> Inl (Panic ''nil pointer dereference'')
   | Some b \<Rightarrow> (case BlockOPRs b of
       [] \<Rightarrow> Inl (Panic ''index out of range'')
     | r # _ \<Rightarrow> Inr (WinPreviousOPR r)))"

definition getWinner :: "'p api_env \<Rightarrow> 'd QuickGrader \<Rightarrow> string res" where
  "getWinner env g = rbind (getWinners env g) (\<lambda>ws. case ws of
     [] \<Rightarrow> Inl (Panic ''index out of range'') | w # _ \<Rightarrow> Inr w)"

section \<open>server.go\<close>

text \<open>The variable \<open>OPRChainID\<close> of package opr: nothing assigns it.\<close>

definition OPRChainID_var :: string where "OPRChainID_var = []"

definition generic :: "GenericResult \<Rightarrow> api_result handled option" where
  "generic r = Some (Inr (Inr (Generic r)))"

definition as_generic :: "GenericResult handled \<Rightarrow> api_result handled option" where
  "as_generic r = Some (rbind r (\<lambda>x. Inr (map_sum (\<lambda>e. e) Generic x)))"

definition dispatch :: "'p api_env \<Rightarrow> 'd QuickGrader \<Rightarrow> BalanceTracker \<Rightarrow> 'p PostRequest
     \<Rightarrow> api_result handled option" where
  "dispatch env g b req =
     (let m = Method req in
      if m = ''performance''
      then map_option (\<lambda>r. rbind r (\<lambda>x. Inr (map_sum (\<lambda>e. e) Performance x))) (getPerformance env g (Params req))
      else if m = ''all-oprs'' then generic (no_result\<lparr>ResOPRBlocks := oprBlks g\<rparr>)
      else if m = ''balance'' then as_generic (getBalance env b (Params req))
      else if m = ''chainid'' then generic (no_result\<lparr>ResChainID := OPRChainID_var\<rparr>)
      else if m = ''current-oprs'' then generic (getCurrentOPRs env g)
      else if m = ''leaderheight'' then generic (no_result\<lparr>ResLeaderHeight := getLeaderHeight env\<rparr>)
      else if m = ''oprs-by-height'' then as_generic (getOPRsByHeight env g (Params req))
      else if m = ''oprs-by-id'' then as_generic (getOprsByDigitalID env g (Params req))
      else if m = ''opr-by-hash'' then as_generic (getOprByHash env g (Params req))
      else if m = ''opr-by-shorthash'' then as_generic (getOprByShortHash env g (Params req))
      else if m = ''winners''
      then as_generic (rbind (getWinners env g) (\<lambda>ws. Inr (Inr (no_result\<lparr>ResWinners := ws\<rparr>))))
      else if m = ''winner''
      then as_generic (rbind (getWinner env g) (\<lambda>w. Inr (Inr (no_result\<lparr>ResWinner := w\<rparr>))))
      else if m = ''winning-opr''
      then as_generic (rbind (getWinner env g) (\<lambda>w. rbind (OprByShortHash g w) (\<lambda>r.
             Inr (Inr (no_result\<lparr>ResOPR := Some r\<rparr>)))))
      else Some (Inr (Inl NewMethodNotFoundError)))"

text \<open>A request that is no JSON is \<open>None\<close>.\<close>

definition apiHandler :: "'p api_env \<Rightarrow> 'd QuickGrader \<Rightarrow> BalanceTracker \<Rightarrow> 'p PostRequest option
     \<Rightarrow> PostResponse res option" where
  "apiHandler env g b request = (case request of
     None \<Rightarrow> Some (Inr \<lparr>Res = None, Err = Some NewJSONDecodingError\<rparr>)
   | Some req \<Rightarrow> map_option (\<lambda>r. rbind r (\<lambda>x. case x of
         Inl e \<Rightarrow> Inr \<lparr>Res = None, Err = Some e\<rparr>
       | Inr v \<Rightarrow> Inr \<lparr>Res = Some v, Err = None\<rparr>)) (dispatch env g b req))"

text \<open>The reply to a request: its status, and the response if there is one.\<close>

definition ServeHTTP :: "'p api_env \<Rightarrow> 'd QuickGrader \<Rightarrow> BalanceTracker \<Rightarrow> string \<Rightarrow> 'p PostRequest option
     \<Rightarrow> (int \<times> PostResponse option) res option" where
  "ServeHTTP env g b http_method request =
     (if http_method = ''POST''
      then map_option (\<lambda>r. rbind r (\<lambda>x. Inr (200, Some x))) (apiHandler env g b request)
      else Some (Inr (405, None)))"

section \<open>The control panel\<close>

record CommonResponse =
  CommonMinute :: int
  CommonDbht :: "32 word"
  CommonBalance :: int
  HashRate :: u64
  CommonDifficulty :: u64

datatype cp_event = Minute int "32 word" | Statistics GroupMinerStats

datatype cp_message = Common CommonResponse | Gstats GroupMinerStats

definition HandleControlPanelRequest :: "GlobalStatTracker \<Rightarrow> StatisticBucket list" where
  "HandleControlPanelRequest t = FetchAllStats t"

text \<open>What is sent for an event. The hash rate and the difficulty are never set.\<close>

definition panel_step :: "(string \<Rightarrow> byte list) \<Rightarrow> string \<Rightarrow> BalanceTracker \<Rightarrow> cp_event \<Rightarrow> cp_message res" where
  "panel_step dec addr b e = (case e of
     Minute minute dbht \<Rightarrow> rbind (GetBalance dec b addr) (\<lambda>n.
       Inr (Common \<lparr>CommonMinute = minute, CommonDbht = dbht, CommonBalance = n, HashRate = 0, CommonDifficulty = 0\<rparr>))
   | Statistics s \<Rightarrow> Inr (Gstats s))"

definition panel_address :: "(byte list \<Rightarrow> string) \<Rightarrow> (string \<Rightarrow> byte list) \<Rightarrow> config \<Rightarrow> string res" where
  "panel_address enc dec c =
     rbind (check_panic (LoadConfigNetwork c)) (\<lambda>network.
     rbind (check_panic (c ''Miner.CoinbaseAddress'')) (\<lambda>addr.
       check_panic (ConvertFCTtoPegNetAsset enc dec network ''PEG'' addr)))"

definition ServeControlPanel :: "(byte list \<Rightarrow> string) \<Rightarrow> (string \<Rightarrow> byte list) \<Rightarrow> config
     \<Rightarrow> (string \<Rightarrow> int res) \<Rightarrow> (BalanceTracker \<times> cp_event) list \<Rightarrow> cp_message list res" where
  "ServeControlPanel enc dec c config_int es =
     rbind (panel_address enc dec c) (\<lambda>addr.
     rbind (check_panic (config_int ConfigControlPanelPort)) (\<lambda>_.
       res_map (\<lambda>(b, e). panel_step dec addr b e) es))"

end
