(* ===== verification/Api_Correct.thy ===== *)
theory Api_Correct
  imports Api
begin

text \<open>
  What the API answers: the report on a miner is the count of its records, and every answer has either the
  result of its method or an error.
\<close>

section \<open>The report\<close>

text \<open>The records of a miner in some blocks, with their places counted from 0.\<close>

definition marked :: "'d QuickGrader \<Rightarrow> (OprBlock \<Rightarrow> OraclePriceRecord list) \<Rightarrow> string \<Rightarrow> int list
     \<Rightarrow> (nat \<times> OraclePriceRecord) list" where
  "marked g f did hs = concat (map (\<lambda>h. case OprBlockByHeight g h of
     None \<Rightarrow> [] | Some b \<Rightarrow> filter (\<lambda>(i, r). made_by did r) (enumerate 0 (f b))) hs)"

definition reward :: "string \<Rightarrow> nat \<times> OraclePriceRecord \<Rightarrow> int" where
  "reward net x = (case GetRewardFromPlace (int (fst x)) net (sint (Dbht (snd x))) of Inl _ \<Rightarrow> 0 | Inr v \<Rightarrow> v)"

definition tally_of :: "string \<Rightarrow> (nat \<times> OraclePriceRecord) list \<Rightarrow> (nat \<times> OraclePriceRecord) list \<Rightarrow> tally" where
  "tally_of net D G = \<lparr>submissions = int (length D),
     rewards = wrap64 (\<Sum>x \<leftarrow> G. reward net x),
     difficultyCount = int (length (filter (\<lambda>x. fst x < 50) D)),
     difficultySum = (\<Sum>x \<leftarrow> filter (\<lambda>x. fst x < 50) D. int (fst x + 1)),
     difficultyPlaces = map (\<lambda>k. (k, int (length (filter (\<lambda>x. fst x < 50 \<and> fst x \<le> k) D)))) [1, 5, 10, 25, 50],
     gradingCount = int (length G), gradingSum = (\<Sum>x \<leftarrow> G. int (fst x + 1)),
     gradingPlaces = map (\<lambda>k. (k, int (length (filter (\<lambda>x. fst x + 1 \<le> k) G)))) [1..<51]\<rparr>"

lemma wrap64_add: "wrap64 (wrap64 a + b) = wrap64 (a + b)"
  by (simp add: wrap64_def)

lemma no_tally_of: "no_tally = tally_of net [] []"
  by (simp add: no_tally_def tally_of_def wrap64_def)

lemma tally_difficulty_of:
  "tally_difficulty did (tally_of net D G) x = tally_of net (D @ filter (\<lambda>(i, r). made_by did r) [x]) G"
  by (cases x) (auto simp: tally_difficulty_def tally_of_def Let_def)

lemma fold_difficulty_of:
  "foldl (tally_difficulty did) (tally_of net D G) xs = tally_of net (D @ filter (\<lambda>(i, r). made_by did r) xs) G"
  by (induction xs arbitrary: D) (simp_all add: tally_difficulty_of split: prod.splits)

lemma tally_grading_of:
  assumes "\<exists>v. GetRewardFromPlace (int (fst x)) net (sint (Dbht (snd x))) = Inr v"
  shows "tally_grading net did (tally_of net D G) x
     = Inr (tally_of net D (G @ filter (\<lambda>(i, r). made_by did r) [x]))"
  using assms
  by (cases x) (auto simp: tally_grading_def tally_of_def reward_def wrap64_add)

lemma fold_grading_of:
  assumes "\<forall>x \<in> set xs. \<exists>v. GetRewardFromPlace (int (fst x)) net (sint (Dbht (snd x))) = Inr v"
  shows "res_fold (tally_grading net did) (tally_of net D G) xs
     = Inr (tally_of net D (G @ filter (\<lambda>(i, r). made_by did r) xs))"
  using assms
proof (induction xs arbitrary: G)
  case (Cons x xs)
  then have "tally_grading net did (tally_of net D G) x
      = Inr (tally_of net D (G @ filter (\<lambda>(i, r). made_by did r) [x]))"
    by (intro tally_grading_of) simp
  then show ?case using Cons by (auto split: prod.splits)
qed simp

text \<open>The rewards of the blocks are known: their heights have a version.\<close>

definition rewarding :: "'d QuickGrader \<Rightarrow> string \<Rightarrow> bool" where
  "rewarding g net \<longleftrightarrow> (\<forall>b \<in> set (oprBlks g). \<forall>x \<in> set (enumerate 0 (GradedOPRs b)).
     \<exists>v. GetRewardFromPlace (int (fst x)) net (sint (Dbht (snd x))) = Inr v)"

lemma tally_block_of:
  assumes "rewarding g net"
  shows "tally_block g net did h (tally_of net D G)
     = Inr (tally_of net (D @ marked g BlockOPRs did [h]) (G @ marked g GradedOPRs did [h]))"
proof (cases "OprBlockByHeight g h")
  case None
  then show ?thesis by (simp add: tally_block_def marked_def)
next
  case (Some b)
  then have "b \<in> set (oprBlks g)" by (auto simp: OprBlockByHeight_def find_Some_iff)
  then have "\<forall>x \<in> set (enumerate 0 (GradedOPRs b)).
      \<exists>v. GetRewardFromPlace (int (fst x)) net (sint (Dbht (snd x))) = Inr v"
    using assms by (simp add: rewarding_def)
  from fold_grading_of [OF this] Some show ?thesis
    by (simp add: tally_block_def marked_def fold_difficulty_of)
qed

lemma marked_Cons: "marked g f did (h # hs) = marked g f did [h] @ marked g f did hs"
  by (simp add: marked_def)

lemma tally_loop_of:
  assumes "rewarding g net" "0 \<le> i" "i \<le> e + 1" "e < 2 ^ 63 - 1"
  shows "tally_loop (tally_block g net did) i e (tally_of net D G)
     = Some (Inr (tally_of net (D @ marked g BlockOPRs did [i..e]) (G @ marked g GradedOPRs did [i..e])))"
  using assms(2,3)
proof (induction "nat (e + 1 - i)" arbitrary: i D G)
  case 0
  then have "\<not> i \<le> e" by simp
  then show ?case by (subst tally_loop.simps) (simp add: marked_def)
next
  case (Suc n)
  then have le: "i \<le> e" by simp
  have "wrap64 (i + 1) = i + 1" using Suc.prems(1) le assms(4) by (intro wrap64_id) simp_all
  moreover have "n = nat (e + 1 - (i + 1))" "0 \<le> i + 1" "i + 1 \<le> e + 1" using Suc.hyps(2) Suc.prems le by auto
  note Suc.hyps(1) [OF this]
  moreover have "[i..e] = i # [i + 1..e]" using le by (simp add: upto.simps)
  ultimately show ?case
    using le by (subst tally_loop.simps) (simp add: tally_block_of [OF assms(1)] marked_Cons [of _ _ _ i "[i + 1..e]"])
qed

text \<open>A loop up to the greatest height passes it and goes on from the least.\<close>

lemma tally_loop_endless:
  assumes total: "\<And>i t. Q t \<Longrightarrow> \<exists>t'. f i t = Inr t' \<and> Q t'" and "Q t" "i < 2 ^ 63"
  shows "tally_loop f i (2 ^ 63 - 1) t = None"
proof -
  have "f' = f \<longrightarrow> e = 2 ^ 63 - 1 \<longrightarrow> i \<le> e \<longrightarrow> \<not> Q t" if "tally_loop f' i e t = Some r" for f' i e t r
  proof (rule tally_loop.raw_induct
      [where P = "\<lambda>f' i e t _. f' = f \<longrightarrow> e = 2 ^ 63 - 1 \<longrightarrow> i \<le> e \<longrightarrow> \<not> Q t", OF _ that], intro impI notI)
    fix loop f' i e t r
    assume IH: "\<And>f' i e t r. loop f' i e t = Some r \<Longrightarrow> f' = f \<longrightarrow> e = 2 ^ 63 - 1 \<longrightarrow> i \<le> e \<longrightarrow> \<not> Q t"
      and run: "(if i \<le> e then case f' i t of Inl x \<Rightarrow> Some (Inl x) | Inr t' \<Rightarrow> loop f' (wrap64 (i + 1)) e t'
          else Some (Inr t)) = Some r"
      and a: "f' = f" "e = 2 ^ 63 - 1" "i \<le> e" "Q t"
    obtain t' where t': "f i t = Inr t'" "Q t'" using total [OF a(4)] by blast
    have "loop f (wrap64 (i + 1)) e t' = Some r" using run a t' by simp
    moreover have "wrap64 (i + 1) \<le> e"
      using sint_lt [of "word_of_int (i + 1) :: 64 word"] by (simp add: a(2) wrap64_def)
    ultimately show False using IH a(2) t'(2) by blast
  qed
  from this [of f i "2 ^ 63 - 1" t] assms(2,3) show ?thesis
    by (cases "tally_loop f i (2 ^ 63 - 1) t") auto
qed

lemma block_range_start:
  "block_range env s x = Some (start, e) \<Longrightarrow> 0 \<le> start \<and> start \<le> e"
  by (auto simp: block_range_def Let_def split: if_splits option.splits)

text \<open>
  C30. The report on a miner, for parameters with its id and a range of heights from \<open>start\<close> to \<open>e\<close>: the
  submissions are the number of its records in the blocks of these heights, the rewards are what the
  graded ones earn at their places, the sums and counts are those of the places; but for the placements by
  difficulty the place before the one that is counted is compared, so that the first \<open>k\<close> are the first
  \<open>k + 1\<close> (up to 50). A range that ends with the greatest height of 64 bits is never finished.
\<close>

theorem performance_report:
  assumes "LoadConfigNetwork (aconfig env) = Inr net" "aperformance env params = Inr p"
    and "ParamID p \<noteq> []" "RangeStart (ParamRange p) = Some s"
    and "block_range env s (RangeEnd (ParamRange p)) = Some (start, e)" "e < 2 ^ 63" "rewarding g net"
  defines "D \<equiv> marked g BlockOPRs (ParamID p) [start..e]" and "G \<equiv> marked g GradedOPRs (ParamID p) [start..e]"
  shows "if e = 2 ^ 63 - 1 then getPerformance env g params = None
    else getPerformance env g params = Some (Inr (Inr
      \<lparr>ResultRange = \<lparr>RangeStart = Some start, RangeEnd = Some e\<rparr>,
       Submissions = int (length D), Rewards = wrap64 (\<Sum>x \<leftarrow> G. reward net x),
       DifficultyPlacements = [(''count'', int (length (filter (\<lambda>x. fst x < 50) D))),
           (''sum'', \<Sum>x \<leftarrow> filter (\<lambda>x. fst x < 50) D. int (fst x + 1))]
         @ map (\<lambda>k. (itoa (int k), int (length (filter (\<lambda>x. fst x < 50 \<and> fst x \<le> k) D)))) [1, 5, 10, 25, 50],
       GradingPlacements = [(''count'', int (length G)), (''sum'', \<Sum>x \<leftarrow> G. int (fst x + 1))]
         @ map (\<lambda>k. (itoa (int k), int (length (filter (\<lambda>x. fst x + 1 \<le> k) G)))) [1..<51]\<rparr>))"
proof -
  let ?did = "ParamID p"
  have range: "0 \<le> start" "start \<le> e" using block_range_start [OF assms(5)] by auto
  have perf: "getPerformance env g params = (case tally_loop (tally_block g net ?did) start e no_tally of
       None \<Rightarrow> None | Some (Inl x) \<Rightarrow> Some (Inl x) | Some (Inr t) \<Rightarrow> Some (Inr (Inr (performance_of start e t))))"
    using assms(1-5) by (simp add: getPerformance_def)
  show ?thesis
  proof (cases "e = 2 ^ 63 - 1")
    case True
    have "tally_loop (tally_block g net ?did) start (2 ^ 63 - 1) no_tally = None"
    proof (rule tally_loop_endless [where Q = "\<lambda>t. \<exists>D G. t = tally_of net D G"])
      show "\<exists>t'. tally_block g net ?did i t = Inr t' \<and> (\<exists>D G. t' = tally_of net D G)"
        if "\<exists>D G. t = tally_of net D G" for i t
        using that tally_block_of [OF assms(7)] by blast
      show "\<exists>D G. no_tally = tally_of net D G" using no_tally_of by blast
      show "start < 2 ^ 63" using range assms(6) by linarith
    qed
    then show ?thesis using True by (simp only: perf) simp
  next
    case False
    then have "tally_loop (tally_block g net ?did) start e no_tally = Some (Inr (tally_of net D G))"
      using tally_loop_of [OF assms(7) range(1), of e ?did "[]" "[]"] range assms(6)
      by (simp add: no_tally_of [of net] D_def G_def)
    then have "getPerformance env g params = Some (Inr (Inr (performance_of start e (tally_of net D G))))"
      by (simp only: perf) simp
    moreover have "map (\<lambda>(k, v). (itoa (int k), v)) (map (\<lambda>k. (k, h k)) ks) = map (\<lambda>k. (itoa (int k), h k)) ks"
      for h :: "nat \<Rightarrow> int" and ks by simp
    ultimately show ?thesis
      using False by (simp only: performance_of_def placements_def tally_of_def tally.simps if_False)
  qed
qed

definition sample_opr :: "string \<Rightarrow> OraclePriceRecord" where
  "sample_opr did = NewOraclePriceRecord\<lparr>FactomDigitalID := did, Dbht := 7\<rparr>"

definition sample_api_grader :: "unit QuickGrader" where
  "sample_api_grader = (NewQuickGrader MainNetwork ''PegNet'' () NewBalanceTracker)\<lparr>oprBlks :=
     [\<lparr>BlockOPRs = [sample_opr ''a'', sample_opr ''b''], GradedOPRs = [sample_opr ''b''], BlockDbht = 7,
       TotalNumberRecords = 2, EmptyOPRBlock = False\<rparr>]\<rparr>"

definition sample_api_env :: "unit api_env" where
  "sample_api_env = \<lparr>aconfig = (\<lambda>_. Inr ''MainNet''), aheights = Inr 9,
     aperformance = (\<lambda>_. Inr \<lparr>ParamRange = \<lparr>RangeStart = Some (- 2), RangeEnd = None\<rparr>, ParamID = ''b''\<rparr>),
     ageneric = (\<lambda>_. Inl (GoError [])), adec = (\<lambda>_. [])\<rparr>"

text \<open>The miner has the second record of the block, which the report counts among the first one.\<close>

theorem performance_report_witness:
  "\<exists>r. getPerformance sample_api_env sample_api_grader () = Some (Inr (Inr r))
     \<and> Submissions r = 1 \<and> Rewards r = 800 * 100000000 \<and> map_of (DifficultyPlacements r) ''sum'' = Some 2
     \<and> map_of (DifficultyPlacements r) (itoa 1) = Some 1"
proof -
  have blocks: "oprBlks sample_api_grader = [\<lparr>BlockOPRs = [sample_opr ''a'', sample_opr ''b''],
      GradedOPRs = [sample_opr ''b''], BlockDbht = 7, TotalNumberRecords = 2, EmptyOPRBlock = False\<rparr>]"
    by (simp add: sample_api_grader_def)
  have reward: "GetRewardFromPlace 0 MainNetwork 7 = Inr (800 * 100000000)" by code_simp
  have net: "LoadConfigNetwork (aconfig sample_api_env) = Inr MainNetwork"
    by (simp add: sample_api_env_def LoadConfigNetwork_def) code_simp
  have range: "block_range sample_api_env (- 2) None = Some (7, 9)"
    by (simp add: block_range_def getLeaderHeight_def sample_api_env_def wrap64_id Let_def)
  have "rewarding sample_api_grader MainNetwork"
    by (simp add: rewarding_def blocks sample_opr_def reward)
  note report = performance_report [OF net _ _ _ _ _ this, of "()" "\<lparr>ParamRange = \<lparr>RangeStart = Some (- 2), RangeEnd = None\<rparr>, ParamID = ''b''\<rparr>" "- 2" 7 9]
  have upto: "[7..9 :: int] = [7, 8, 9]" by (simp add: upto.simps)
  have m: "marked sample_api_grader BlockOPRs ''b'' [7..9] = [(1, sample_opr ''b'')]"
    "marked sample_api_grader GradedOPRs ''b'' [7..9] = [(0, sample_opr ''b'')]"
    unfolding upto
    by (simp_all add: marked_def OprBlockByHeight_def blocks made_by_def sample_opr_def NewOraclePriceRecord_def)
  have "reward MainNetwork (0, sample_opr ''b'') = 800 * 100000000"
    by (simp add: reward_def sample_opr_def reward)
  moreover have "itoa 1 = ''1''" by code_simp
  ultimately show ?thesis
    using report range m by (simp add: sample_api_env_def wrap64_id)
qed

section \<open>The answers\<close>

definition api_methods :: "string list" where
  "api_methods = [''performance'', ''all-oprs'', ''balance'', ''chainid'', ''current-oprs'', ''leaderheight'',
     ''oprs-by-height'', ''oprs-by-id'', ''opr-by-hash'', ''opr-by-shorthash'', ''winners'', ''winner'', ''winning-opr'']"

text \<open>What may come of a method: its kind of result, or one of the errors of its parameters.\<close>

definition typed :: "string \<Rightarrow> ApiError + api_result \<Rightarrow> bool" where
  "typed m x = (case x of
     Inl e \<Rightarrow> (if m \<notin> set api_methods then e = NewMethodNotFoundError
       else if m = ''performance'' then e \<in> {NewInternalError, NewJSONDecodingError, NewInvalidParametersError}
       else e = NewInvalidParametersError)
   | Inr (Performance _) \<Rightarrow> m = ''performance''
   | Inr (Generic _) \<Rightarrow> m \<in> set api_methods - {''performance''})"

lemma typed_as_generic:
  assumes "as_generic r = Some (Inr x)" "m \<in> set api_methods - {''performance''}"
    and "\<And>e. r = Inr (Inl e) \<Longrightarrow> e = NewInvalidParametersError"
  shows "typed m x"
  using assms by (cases r; cases "projr r") (auto simp: as_generic_def typed_def)

lemma typed_generic: "generic r = Some (Inr x) \<Longrightarrow> m \<in> set api_methods - {''performance''} \<Longrightarrow> typed m x"
  by (auto simp: generic_def typed_def)

lemma with_params_error: "with_params env params f = Inr (Inl e) \<Longrightarrow> e = NewInvalidParametersError"
  by (auto simp: with_params_def res_simps split: sum.splits option.splits)

lemma typed_params:
  "as_generic (with_params env params f) = Some (Inr x) \<Longrightarrow> m \<in> set api_methods - {''performance''} \<Longrightarrow> typed m x"
  by (rule typed_as_generic, assumption, assumption) (rule with_params_error)

lemma typed_winner:
  "as_generic (rbind r (\<lambda>w. Inr (Inr (f w)))) = Some (Inr x) \<Longrightarrow> m \<in> set api_methods - {''performance''} \<Longrightarrow> typed m x"
  by (erule typed_as_generic) (auto simp: res_simps)

lemma getPerformance_error:
  "getPerformance env g params = Some (Inr (Inl e))
     \<Longrightarrow> e \<in> {NewInternalError, NewJSONDecodingError, NewInvalidParametersError}"
  by (auto simp: getPerformance_def split: sum.splits option.splits prod.splits)

lemma dispatch_typed:
  assumes "dispatch env g b req = Some (Inr x)"
  shows "typed (Method req) x"
proof -
  consider "Method req = ''performance''" | "Method req \<notin> set api_methods"
    | "Method req \<in> set api_methods - {''performance''}" by blast
  then show ?thesis
  proof cases
    case 1
    then obtain r where "getPerformance env g (Params req) = Some (Inr r)" "x = map_sum (\<lambda>e. e) Performance r"
      using assms by (auto simp: dispatch_def res_simps)
    then show ?thesis
      using 1 getPerformance_error [of env g "Params req"]
      by (cases r) (auto simp: typed_def api_methods_def)
  next
    case 2
    then have "x = Inl NewMethodNotFoundError" using assms by (simp add: dispatch_def Let_def api_methods_def)
    then show ?thesis using 2 by (simp add: typed_def)
  next
    case 3
    have assoc: "rbind r (\<lambda>w. rbind (h w) (\<lambda>y. Inr (Inr (f y)))) = rbind (rbind r h) (\<lambda>y. Inr (Inr (f y)))"
      for r :: "string res" and h :: "string \<Rightarrow> OraclePriceRecord res" and f :: "OraclePriceRecord \<Rightarrow> GenericResult"
      by (cases r) simp_all
    note defs = getBalance_def getOPRsByHeight_def getOprsByDigitalID_def getOprByHash_def getOprByShortHash_def
    show ?thesis
      using assms 3 unfolding dispatch_def Let_def defs assoc
      by (simp_all only: split: if_splits)
        (simp; fail | (simp add: api_methods_def; fail) | (erule typed_generic typed_params typed_winner, assumption))+
  qed
qed


lemma sample_requests:
  "apiHandler sample_api_env sample_api_grader NewBalanceTracker (Some \<lparr>Method = ''winner'', Params = ()\<rparr>)
     = Some (Inl (Panic ''nil pointer dereference''))"
  "apiHandler sample_api_env sample_api_grader NewBalanceTracker (Some \<lparr>Method = ''leaderheight'', Params = ()\<rparr>)
     = Some (Inr \<lparr>Res = Some (Generic (no_result\<lparr>ResLeaderHeight := 9\<rparr>)), Err = None\<rparr>)"
proof -
  have h: "getLeaderHeight sample_api_env = 9" by (simp add: getLeaderHeight_def sample_api_env_def)
  have "OprBlockByHeight sample_api_grader 9 = None"
    by (simp add: OprBlockByHeight_def sample_api_grader_def)
  then show "apiHandler sample_api_env sample_api_grader NewBalanceTracker (Some \<lparr>Method = ''winner'', Params = ()\<rparr>)
     = Some (Inl (Panic ''nil pointer dereference''))"
    by (simp add: apiHandler_def dispatch_def as_generic_def getWinner_def getWinners_def h)
  show "apiHandler sample_api_env sample_api_grader NewBalanceTracker (Some \<lparr>Method = ''leaderheight'', Params = ()\<rparr>)
     = Some (Inr \<lparr>Res = Some (Generic (no_result\<lparr>ResLeaderHeight := 9\<rparr>)), Err = None\<rparr>)"
    by (simp add: apiHandler_def dispatch_def generic_def h)
qed


end
