(* ===== verification/CommandLine.thy ===== *)
theory CommandLine
  imports Config CryptoSources TransactionId QuickGrader Api
begin

text \<open>
  The command line, package cmd: the checks of arguments (cmd/args.go), the settings that flags give
  (cmd/cmdProvider.go), the check of the configuration (cmd/root.go), the choice of the database
  (cmd/services.go), and what the commands of cmd/cmd.go compute before they print: the encodings of an
  address, the requests to the API, and the decoding of entries.

  Printing and the parser of flags are third-party. A fatal log line, \<open>CmdError\<close> and \<open>os.Exit\<close> end the
  process; they are written as a panic.
\<close>

section \<open>args.go\<close>

type_synonym validator = "string \<Rightarrow> unit res"

definition CombineCobraArgs :: "(string list \<Rightarrow> unit res) list \<Rightarrow> string list \<Rightarrow> unit res" where
  "CombineCobraArgs funcs args = res_fold (\<lambda>_ f. f args) () funcs"

fun check_in_order :: "validator list \<Rightarrow> string list \<Rightarrow> unit res" where
  "check_in_order valids [] = Inr ()"
| "check_in_order [] (arg # args) = Inl (Panic ''index out of range'')"
| "check_in_order (v # valids) (arg # args) = rbind (v arg) (\<lambda>_. check_in_order valids args)"

definition CustomArgOrderValidationBuilder :: "bool \<Rightarrow> validator list \<Rightarrow> string list \<Rightarrow> unit res" where
  "CustomArgOrderValidationBuilder strict valids args =
     guard_res (strict \<and> length valids \<noteq> length args)
       (GoError (''accepts '' @ itoa (int (length valids)) @ '' arg(s), received '' @ itoa (int (length args))))
       (check_in_order valids args)"

text \<open>\<open>is_valid\<close> is \<open>factom.IsValidAddress\<close>.\<close>

definition address_validator :: "string \<Rightarrow> string \<Rightarrow> (string \<Rightarrow> bool) \<Rightarrow> validator" where
  "address_validator kind prefix is_valid arg =
     (if length arg > 2 \<and> take 2 arg \<noteq> prefix then Inl (GoError (kind @ '' addresses start with '' @ prefix))
      else if is_valid arg then Inr ()
      else Inl (GoError (arg @ '' is not a valid '' @ kind @ '' address'')))"

definition ArgValidatorFCTAddress :: "(string \<Rightarrow> bool) \<Rightarrow> validator" where
  "ArgValidatorFCTAddress = address_validator ''FCT'' ''FA''"

definition ArgValidatorECAddress :: "(string \<Rightarrow> bool) \<Rightarrow> validator" where
  "ArgValidatorECAddress = address_validator ''EC'' ''EC''"

definition show_list :: "string list \<Rightarrow> string" where
  "show_list xs = ''['' @ Join xs '' '' @ '']''"

definition ArgValidatorAssetAndAll :: validator where
  "ArgValidatorAssetAndAll arg = (let list = ''all'' # AllAssets in
     if list_ex (\<lambda>an. ToLower arg = ToLower an) list then Inr ()
     else Inl (GoError (''not a valid asset. Options include: '' @ show_list list)))"

definition ArgValidatorAssetOrExchange :: validator where
  "ArgValidatorAssetOrExchange arg = (let list = AllAssets @ AllDataSourcesList in
     if list_ex (\<lambda>an. ToLower arg = ToLower an) list then Inr ()
     else Inl (GoError (''not a valid asset/datasource. Options include: '' @ show_list list)))"

definition ArgValidatorAsset :: validator where
  "ArgValidatorAsset arg =
     (if list_ex (\<lambda>an. ToLower arg = ToLower an) AllAssets then Inr ()
      else Inl (GoError (''not a valid asset. Assets include: '' @ show_list AllAssets)))"

definition ArgValidatorHexHash :: validator where
  "ArgValidatorHexHash arg =
     (if length arg \<noteq> 64 then Inl (GoError ''a hash is a 64 character hex string'')
      else rbind (hexDecode arg) (\<lambda>_. Inr ()))"

text \<open>
  Amounts. The regular expression allows digits, then a point with digits, and either part may be
  missing. A number that does not fit 64 bits is read as the greatest, the error is not looked at.
\<close>

definition amount_pieces :: "string \<Rightarrow> (string \<times> string option) option" where
  "amount_pieces amt =
     (let whole = takeWhile (\<lambda>c. digit_val c \<noteq> None) amt; rest = dropWhile (\<lambda>c. digit_val c \<noteq> None) amt in
      case rest of
        [] \<Rightarrow> Some (whole, None)
      | c # ds \<Rightarrow>
          (if c = CHR ''.'' \<and> ds \<noteq> [] \<and> list_all (\<lambda>c. digit_val c \<noteq> None) ds
           then Some (whole, Some ds) else None))"

definition atoi_or_max :: "string \<Rightarrow> int" where
  "atoi_or_max ds = (case parse_digits ds 0 of None \<Rightarrow> 0 | Some n \<Rightarrow> min n (2 ^ 63 - 1))"

definition factoidToFactoshi :: "string \<Rightarrow> u64 res" where
  "factoidToFactoshi amt = (case amount_pieces amt of
     None \<Rightarrow> Inr 0
   | Some (whole, part) \<Rightarrow>
       (let total = (word_of_int (atoi_or_max whole) :: u64) * 100000000 in
        case part of
          None \<Rightarrow> Inr total
        | Some ds \<Rightarrow>
            (if length ds > 8
             then Inl (GoError ''factoids are only subdivisible up to 1e-8, trim back on the number of decimal places'')
             else Inr (total + word_of_int (atoi_or_max ds * 100000000 sdiv 10 ^ length ds)))))"

definition ArgValidatorFCTAmount :: validator where
  "ArgValidatorFCTAmount arg = rbind (factoidToFactoshi arg) (\<lambda>_. Inr ())"

section \<open>cmdProvider.go\<close>

text \<open>The flags that are read, with the defaults of cmd/root.go.\<close>

record cmd_flags =
  flag_miners :: int
  flag_top :: int
  flag_identity :: string
  flag_factomd :: string
  flag_walletd :: string
  flag_caddr :: string
  flag_network :: string
  flag_dbtype :: string
  flag_db :: string
  flag_override :: "string list"

definition default_flags :: cmd_flags where
  "default_flags = \<lparr>flag_miners = - 1, flag_top = - 1, flag_identity = [], flag_factomd = ''localhost:8088'',
     flag_walletd = ''localhost:8089'', flag_caddr = [], flag_network = [], flag_dbtype = [], flag_db = [],
     flag_override = []\<rparr>"

definition set_if :: "bool \<Rightarrow> string \<Rightarrow> string \<Rightarrow> (string \<rightharpoonup> string) \<Rightarrow> (string \<rightharpoonup> string)" where
  "set_if b k v settings = (if b then settings(k \<mapsto> v) else settings)"

definition override_setting :: "(string \<rightharpoonup> string) \<Rightarrow> string \<Rightarrow> (string \<rightharpoonup> string)" where
  "override_setting settings v = (case Split (CHR ''='') v of
     [key, val] \<Rightarrow> settings(key \<mapsto> val) | _ \<Rightarrow> settings)"

definition flag_settings :: "cmd_flags \<Rightarrow> (string \<rightharpoonup> string)" where
  "flag_settings f =
     set_if (flag_caddr f \<noteq> []) ''Miner.MiningCoordinatorPort'' (flag_caddr f)
    (set_if (flag_caddr f \<noteq> []) ''Miner.MiningCoordinatorHost'' (flag_caddr f)
    (set_if (flag_walletd f \<noteq> ''localhost:8089'') ''Miner.WalletdLocation'' (flag_walletd f)
    (set_if (flag_factomd f \<noteq> ''localhost:8088'') ''Miner.FactomdLocation'' (flag_factomd f)
    (set_if (flag_identity f \<noteq> []) ''Miner.IdentityChain'' (flag_identity f)
    (set_if (flag_top f \<noteq> - 1) ''Miner.RecordsPerBlock'' (itoa (flag_top f))
    (set_if (flag_miners f \<noteq> - 1) ''Miner.NumberOfMiners'' (itoa (flag_miners f)) Map.empty))))))"

definition CmdFlagProvider_Load :: "cmd_flags \<Rightarrow> (string \<rightharpoonup> string) \<times> unit res" where
  "CmdFlagProvider_Load f =
     (let s = flag_settings f;
          network = GetNetwork (flag_network f);
          s1 = set_if (flag_network f \<noteq> []) ConfigPegnetNetwork (network_or_empty network) s
      in if flag_network f \<noteq> [] \<and> isl network then (s1, rbind network (\<lambda>_. Inr ()))
         else (foldl override_setting
             (set_if (flag_db f \<noteq> []) ConfigMinerDBPath (flag_db f)
             (set_if (flag_dbtype f \<noteq> []) ConfigMinerDBType (flag_dbtype f) s1)) (flag_override f), Inr ()))"

section \<open>root.go, services.go\<close>

definition identity_char :: "char \<Rightarrow> bool" where
  "identity_char c \<longleftrightarrow> (let n = of_char c :: nat in
     97 \<le> n \<and> n \<le> 122 \<or> 65 \<le> n \<and> n \<le> 90 \<or> 48 \<le> n \<and> n \<le> 57 \<or> c = CHR '','')"

definition ValidIdentity :: "string \<Rightarrow> unit res" where
  "ValidIdentity identity = guard_res (identity = [] \<or> \<not> list_all identity_char identity)
     (GoError ''only alphanumeric characters and commas are allowed in the identity'') (Inr ())"

definition ValidateConfig :: "config \<Rightarrow> (string \<Rightarrow> int res) \<Rightarrow> unit res" where
  "ValidateConfig c config_int =
     rbind (check_panic (c ''Miner.Protocol'')) (\<lambda>_.
     rbind (check_panic (config_int ''Miner.NumberOfMiners'')) (\<lambda>_.
     rbind (check_panic (c ''Miner.IdentityChain'')) (\<lambda>identity.
       check_panic (ValidIdentity identity))))"

definition ValidateStakingConfig :: "config \<Rightarrow> unit res" where
  "ValidateStakingConfig c =
     rbind (check_panic (c ''Staker.Protocol'')) (\<lambda>_.
     rbind (check_panic (c ''Staker.Network'')) (\<lambda>_. Inr ()))"

datatype database_choice = MapDb | LevelDb string

definition OpenDB :: "config \<Rightarrow> database_choice res" where
  "OpenDB c =
     rbind (check_panic (c ConfigMinerDBType)) (\<lambda>t.
       if ToLower t = ''map'' then Inr MapDb
       else if ToLower t = ''ldb'' then rbind (check_panic (c ConfigMinerDBPath)) (\<lambda>path. Inr (LevelDb path))
       else Inl (Panic (t @ '' is not a valid db type'')))"

section \<open>cmd.go\<close>

fun string_less :: "string \<Rightarrow> string \<Rightarrow> bool" where
  "string_less s [] = False"
| "string_less [] (b # t) = True"
| "string_less (a # s) (b # t) =
     ((of_char a :: nat) < of_char b \<or> a = b \<and> string_less s t)"

text \<open>A line of \<open>getencoding\<close>: the ticker that is printed, and the address.\<close>

definition encoding_line :: "string \<Rightarrow> string \<Rightarrow> (string \<times> string) list res" where
  "encoding_line asset s =
     guard_res (length s < 4) (Panic ''slice bounds out of range'')
       (Inr (if asset = ''all'' \<or> asset = ToLower (take 3 (drop 1 s)) \<or> asset = ''peg'' \<and> take 3 s = ''PEG''
             then [(if 0 \<le> Index s ''PEG_'' then ''PEG'' else take 3 (drop 1 s), s)] else []))"

definition getEncoding :: "(byte list \<Rightarrow> string) \<Rightarrow> (string \<Rightarrow> byte list) \<Rightarrow> string list
     \<Rightarrow> (string \<times> string) list res" where
  "getEncoding enc dec args =
     (let asset = (if length args = 2 then ToLower (args ! 1) else ''all'') in
      rbind (ConvertFCTtoAllPegNetAssets enc dec (args ! 0)) (\<lambda>assets.
      rbind (res_map (encoding_line asset) (sort_stable string_less assets)) (\<lambda>ls. Inr (concat ls))))"

text \<open>The parameters of the requests. An error is printed, and the request is sent all the same.\<close>

definition performance_request :: "int \<Rightarrow> int \<Rightarrow> string \<Rightarrow> PerformanceParameters" where
  "performance_request blockRangeStart blockRangeEnd i =
     \<lparr>ParamRange = \<lparr>RangeStart = Some blockRangeStart,
        RangeEnd = (if blockRangeEnd > 0 then Some blockRangeEnd else None)\<rparr>, ParamID = i\<rparr>"

definition balance_request :: "(byte list \<Rightarrow> string) \<Rightarrow> (string \<Rightarrow> byte list) \<Rightarrow> config \<Rightarrow> string \<Rightarrow> string
     \<Rightarrow> GenericParameters res" where
  "balance_request enc dec c ticker address =
     (case ConvertFCTtoPegNetAsset enc dec (network_or_empty (LoadConfigNetwork c)) ticker address of
        Inl (Panic m) \<Rightarrow> Inl (Panic m)
      | r \<Rightarrow> Inr \<lparr>ParamAddress = Some (network_or_empty r), ParamHeight = None, ParamDigitalID = [], ParamHash = []\<rparr>)"

text \<open>\<open>decode entry\<close>: the record of an entry, whose asset map is given a field for the printing.\<close>

definition decodeEntry :: "'d codecs \<Rightarrow> factomd \<Rightarrow> string list \<Rightarrow> OraclePriceRecord res" where
  "decodeEntry c f args =
     rbind (check_panic (GetEntry f (args ! 0))) (\<lambda>entry.
     guard_res (length (FactomEntry.ExtIDs entry) \<noteq> 3) (Panic ''not an opr entry'')
    (guard_res (length (FactomEntry.ExtIDs entry ! 2) \<noteq> 1)
       (Panic (''opr version must be 1 byte in length, found '' @ itoa (int (length (FactomEntry.ExtIDs entry ! 0)))))
    (rbind (check_panic (SafeUnmarshal (Oob c) (JsonDecode c) (PUnmarshal c) (FactomEntry.Content entry)
         (NewOraclePriceRecord\<lparr>OraclePriceRecord.Version := FactomEntry.ExtIDs entry ! 2 ! 0\<rparr>))) (\<lambda>r.
     case OraclePriceRecord.Assets r of
       None \<Rightarrow> Inl (Panic ''assignment to entry in nil map'')
     | Some as \<Rightarrow> Inr (r\<lparr>OraclePriceRecord.Assets := Some (AList.update ''version'' 2 as)\<rparr>)))))"

text \<open>\<open>decode eblock\<close>: a height is replaced by the last block of the mining chain in its directory block.\<close>

definition eblock_keymr :: "(int \<Rightarrow> (string \<times> string) list res) \<Rightarrow> (string \<Rightarrow> int option) \<Rightarrow> string \<Rightarrow> string res" where
  "eblock_keymr dblock atoi arg = (case atoi arg of
     None \<Rightarrow> Inr arg
   | Some height \<Rightarrow>
       rbind (check_panic (dblock height)) (\<lambda>es.
         let key = foldl (\<lambda>k (chain, keymr). if chain =
             ''a642a8674f46696cc47fdb6b65f9c87b2a19c5ea8123b3d2f0c13b6f33a9d5ef'' then keymr else k) arg es
         in guard_res (length key \<noteq> 64) (Panic ''no eblock found in the opr chain at that height'') (Inr key)))"

definition decodeEblock :: "'d codecs \<Rightarrow> factomd \<Rightarrow> (int \<Rightarrow> (string \<times> string) list res)
     \<Rightarrow> (string \<Rightarrow> int option) \<Rightarrow> config \<Rightarrow> (string \<Rightarrow> int res) \<Rightarrow> 'd QuickGrader \<Rightarrow> string list
     \<Rightarrow> OraclePriceRecord list res" where
  "decodeEblock c f dblock atoi cfg config_int g args =
     rbind (ValidateConfig cfg config_int) (\<lambda>_.
     rbind (check_panic (LoadConfigNetwork cfg)) (\<lambda>network.
     rbind (check_panic (cfg ''Miner.Protocol'')) (\<lambda>protocol.
     rbind (eblock_keymr dblock atoi (args ! 0)) (\<lambda>keymr.
     rbind (check_panic (GetEBlock f keymr)) (\<lambda>eb.
     rbind (ParallelFetchOPRsFromEBlock c f (g\<lparr>GraderNetwork := network, GraderProtocol := protocol, oprBlks := []\<rparr>)
        eb False) (\<lambda>(rs, e).
       case e of
         Some e \<Rightarrow> Inl (Panic (err_msg e))
       | None \<Rightarrow> res_map (\<lambda>r. case OraclePriceRecord.Assets r of
             None \<Rightarrow> Inl (Panic ''assignment to entry in nil map'')
           | Some as \<Rightarrow> Inr (r\<lparr>OraclePriceRecord.Assets :=
               Some (AList.update ''version'' (ucast (OraclePriceRecord.Version r)) as)\<rparr>)) rs))))))"

section \<open>Amounts\<close>

text \<open>The value of a decimal number, in parts of 10^-8, with at most eight places.\<close>

definition digits_value :: "string \<Rightarrow> int" where
  "digits_value ds = (case parse_digits ds 0 of None \<Rightarrow> 0 | Some n \<Rightarrow> n)"

lemma parse_digits_bound:
  assumes "parse_digits ds acc = Some n" "0 \<le> acc"
  shows "0 \<le> n \<and> n < (acc + 1) * 10 ^ length ds"
  using assms
proof (induction ds arbitrary: acc)
  case (Cons c ds)
  then obtain d where d: "digit_val c = Some d" "parse_digits ds (acc * 10 + int d) = Some n"
    by (auto split: option.splits)
  then have "d < 10" by (auto simp: digit_val_def Let_def split: if_splits)
  then have "(acc * 10 + int d + 1) * 10 ^ length ds \<le> ((acc + 1) * 10) * 10 ^ length ds"
    by (intro mult_right_mono) simp_all
  also have "\<dots> = (acc + 1) * 10 ^ length (c # ds)" by simp
  finally show ?case using Cons.IH [OF d(2)] Cons.prems(2) by (auto elim: order_less_le_trans)
qed simp

lemma digits_value_bound: "0 \<le> digits_value ds \<and> digits_value ds < 10 ^ length ds"
  using parse_digits_bound [of ds 0] by (auto simp: digits_value_def split: option.splits)

lemma amount_exact:
  assumes "amount_pieces amt = Some (whole, part)" "digits_value whole < 2 ^ 63 div 10 ^ 8"
    and "case part of None \<Rightarrow> True | Some ds \<Rightarrow> length ds \<le> 8"
  shows "\<exists>n. factoidToFactoshi amt = Inr n \<and> uint n = digits_value whole * 10 ^ 8
     + (case part of None \<Rightarrow> 0 | Some ds \<Rightarrow> digits_value ds * 10 ^ (8 - length ds))"
proof -
  have atoi: "atoi_or_max ds = digits_value ds" if "digits_value ds < 2 ^ 63" for ds
    using that by (auto simp: atoi_or_max_def digits_value_def split: option.splits)
  have w: "0 \<le> digits_value whole" "digits_value whole * 10 ^ 8 < 2 ^ 63" "digits_value whole < 2 ^ 63"
    using digits_value_bound [of whole] assms(2) by auto
  have word: "uint (word_of_int x :: u64) = x" if "0 \<le> x" "x < 2 ^ 64" for x
    using that by (simp add: uint_word_of_int)
  show ?thesis
  proof (cases part)
    case None
    then have "factoidToFactoshi amt = Inr (word_of_int (digits_value whole * 10 ^ 8))"
      using assms(1) atoi [OF w(3)] by (simp add: factoidToFactoshi_def)
    then show ?thesis using word [of "digits_value whole * 10 ^ 8"] w None by simp
  next
    case (Some ds)
    define f where "f = digits_value ds * 10 ^ (8 - length ds)"
    have len: "length ds \<le> 8" using assms(3) Some by simp
    then have p: "(10 :: int) ^ 8 = 10 ^ (8 - length ds) * 10 ^ length ds" by (simp flip: power_add)
    have "digits_value ds < 10 ^ 8"
      using digits_value_bound [of ds] power_increasing [OF len, of "10 :: int"] by linarith
    then have d: "atoi_or_max ds = digits_value ds" by (intro atoi) simp
    have "digits_value ds * 10 ^ (8 - length ds) < 10 ^ length ds * 10 ^ (8 - length ds)"
      using digits_value_bound [of ds] by (intro mult_strict_right_mono) simp_all
    also have "\<dots> = 10 ^ 8" using p by (simp only: mult.commute)
    finally have f: "0 \<le> f" "f < 10 ^ 8" using digits_value_bound [of ds] by (simp_all only: f_def) simp
    have "digits_value ds * 100000000 = f * 10 ^ length ds" using p by (simp add: f_def)
    moreover have "(f * 10 ^ length ds) sdiv 10 ^ length ds = f" using f(1) by (cases "f = 0") (simp_all add: signed_divide_int_def sgn_mult)
    ultimately have "factoidToFactoshi amt = Inr (word_of_int (digits_value whole * 10 ^ 8 + f))"
      using assms(1) Some len atoi [OF w(3)] d by (simp add: factoidToFactoshi_def)
    then show ?thesis
      using word [of "digits_value whole * 10 ^ 8 + f"] w f Some by (simp add: f_def)
  qed
qed

text \<open>What is no amount is read as nothing, without an error.\<close>

lemma no_amount: "amount_pieces amt = None \<Longrightarrow> factoidToFactoshi amt = Inr 0 \<and> ArgValidatorFCTAmount amt = Inr ()"
  by (simp add: factoidToFactoshi_def ArgValidatorFCTAmount_def)

text \<open>\<open>datasources\<close> checks its arguments with one validator and any number of arguments.\<close>

lemma two_arguments_panic:
  "ArgValidatorAssetOrExchange a = Inr () \<Longrightarrow>
     is_panic (CustomArgOrderValidationBuilder False [ArgValidatorAssetOrExchange] [a, b])"
  by (simp add: CustomArgOrderValidationBuilder_def guard_res_def)

text \<open>A ticker of four letters names no line of \<open>getencoding\<close>.\<close>

lemma long_ticker_unlisted:
  "length asset > 3 \<Longrightarrow> \<not> length s < 4 \<Longrightarrow> encoding_line asset s = Inr []"
  by (auto simp: encoding_line_def guard_res_def ToLower_def)

end
