(* ===== verification/WalletCommands.thy ===== *)
theory WalletCommands
  imports CommandLine Burns
begin

text \<open>
  Commands that spend: \<open>burn\<close> of cmd/cmd.go, and the creation of the chains of a network,
  initialization/main.go; with the list of functions to call at the end of the process, common/close.go.

  What is asked of the wallet and of factomd is recorded in order; their answers are arguments.
\<close>

section \<open>Burning Factoids\<close>

datatype wallet_call =
    DeleteTransaction
  | NewTransaction
  | AddTransactionInput string u64
  | AddTransactionECOutput string u64
  | SignTransaction bool
  | ComposeTransaction
  | SendTransaction

record wallet_env =
  wconfig :: config
  owned :: "string \<Rightarrow> unit res"
  factoid_balance :: "string \<Rightarrow> int res"
  factoshis :: "string \<Rightarrow> u64"
  factoids :: "u64 \<Rightarrow> string"
  answer :: "wallet_call \<Rightarrow> unit res"

text \<open>
  A command's calls, and how it ended: \<open>CmdError\<close> exits at once, and what was deferred is not done.
\<close>

type_synonym command_run = "wallet_call list \<times> unit res"

text \<open>Calls in a row, up to the first one that fails. Only one error of the unforced signature counts.\<close>

definition fails :: "wallet_env \<Rightarrow> wallet_call \<Rightarrow> go_error option" where
  "fails env c = (case answer env c of
     Inr _ \<Rightarrow> None
   | Inl e \<Rightarrow> if c = SignTransaction False \<and> Index (err_msg e) ''Insufficient Fee'' < 0 then None else Some e)"

fun call_all :: "wallet_env \<Rightarrow> wallet_call list \<Rightarrow> command_run" where
  "call_all env [] = ([], Inr ())"
| "call_all env (c # cs) = (case fails env c of
     Some e \<Rightarrow> ([c], Inl (Panic (err_msg e)))
   | None \<Rightarrow> (case call_all env cs of (tr, r) \<Rightarrow> (c # tr, r)))"

definition burn_plan :: "string \<Rightarrow> string \<Rightarrow> u64 \<Rightarrow> wallet_call list" where
  "burn_plan network addr n =
     [NewTransaction, AddTransactionInput addr n, AddTransactionECOutput (BurnAddresses network) 0,
      SignTransaction False, SignTransaction True]"

definition burn_checks :: "wallet_env \<Rightarrow> string \<Rightarrow> string \<Rightarrow> (string \<times> u64) res" where
  "burn_checks env addr amount =
     rbind (check_panic (LoadConfigNetwork (wconfig env))) (\<lambda>network.
     rbind (check_panic (owned env addr)) (\<lambda>_.
     rbind (check_panic (factoid_balance env addr)) (\<lambda>bal.
     let n = factoshis env amount in
     guard_res (n > word_of_int bal) (Panic (''You only have '' @ factoids env (word_of_int bal) @ '' FCT, you specified to burn '' @ amount))
       (Inr (network, n)))))"

text \<open>A dry run exits after it has printed the transaction.\<close>

definition burn :: "wallet_env \<Rightarrow> bool \<Rightarrow> string \<Rightarrow> string \<Rightarrow> command_run" where
  "burn env dryrun addr amount =
     (case burn_checks env addr amount of
        Inl e \<Rightarrow> ([DeleteTransaction], Inl e)
      | Inr (network, n) \<Rightarrow>
         (case call_all env (burn_plan network addr n @ [if dryrun then ComposeTransaction else SendTransaction]) of
            (tr, Inl e) \<Rightarrow> (DeleteTransaction # tr, Inl e)
          | (tr, Inr _) \<Rightarrow> (DeleteTransaction # tr @ (if dryrun then [] else [DeleteTransaction]), Inr ())))"

text \<open>The arguments are checked before the command runs.\<close>

definition burn_command :: "(string \<Rightarrow> bool) \<Rightarrow> wallet_env \<Rightarrow> bool \<Rightarrow> string list \<Rightarrow> command_run" where
  "burn_command is_valid env dryrun args =
     (case CombineCobraArgs [CustomArgOrderValidationBuilder True
         [ArgValidatorFCTAddress is_valid, ArgValidatorFCTAmount]] args of
        Inl e \<Rightarrow> ([], Inl e)
      | Inr _ \<Rightarrow> burn env dryrun (args ! 0) (args ! 1))"

section \<open>Creating the chains\<close>

text \<open>
  The answers of factomd to the commits and the reveals, numbered from 0. \<open>commit_err\<close> and \<open>reveal_err\<close>
  are the variables of the loop.
\<close>

record chain_env =
  chain_exists :: "string \<Rightarrow> bool"
  commit :: "nat \<Rightarrow> unit res"
  reveal :: "nat \<Rightarrow> string res"

record attempts =
  commits :: nat
  reveals :: nat
  commit_err :: "go_error option"
  reveal_err :: "go_error option"
  txID :: string

definition no_attempts :: attempts where
  "no_attempts = \<lparr>commits = 0, reveals = 0, commit_err = None, reveal_err = None, txID = []\<rparr>"

definition commit_turn :: "chain_env \<Rightarrow> attempts \<Rightarrow> attempts" where
  "commit_turn env a = a\<lparr>commits := commits a + 1,
     commit_err := (case commit env (commits a) of Inl e \<Rightarrow> Some e | Inr _ \<Rightarrow> None)\<rparr>"

definition reveal_turn :: "chain_env \<Rightarrow> attempts \<Rightarrow> attempts" where
  "reveal_turn env a = (case reveal env (reveals a) of
     Inl e \<Rightarrow> a\<lparr>reveals := reveals a + 1, reveal_err := Some e, txID := []\<rparr>
   | Inr t \<Rightarrow> a\<lparr>reveals := reveals a + 1, reveal_err := None, txID := t\<rparr>)"

text \<open>The turns that are left; the first one makes both calls.\<close>

fun create_turns :: "nat \<Rightarrow> chain_env \<Rightarrow> bool \<Rightarrow> attempts \<Rightarrow> attempts" where
  "create_turns 0 env first a = a"
| "create_turns (Suc n) env first a =
     (let a1 = (if first \<or> commit_err a \<noteq> None then commit_turn env a else a);
          a2 = (if first \<or> reveal_err a1 = None then reveal_turn env a1 else a1)
      in if commit_err a2 = None \<and> reveal_err a2 = None then a2 else create_turns n env False a2)"

text \<open>The chain id, and the id of the transaction: empty for a chain that exists.\<close>

definition CreateChain :: "chain_env \<Rightarrow> string list \<Rightarrow> (string \<times> string) res" where
  "CreateChain env chainName =
     (if chainName = [] then Inl (GoError ''chain name must be at least length 1'')
      else let chainID = hexEncode (ComputeChainIDFromStrings chainName) in
        if chain_exists env chainID then Inr (chainID, [])
        else let a = create_turns 1000 env True no_attempts in
          case commit_err a of
            Some e \<Rightarrow> Inl e
          | None \<Rightarrow> (case reveal_err a of Some e \<Rightarrow> Inl e | None \<Rightarrow> Inr (chainID, txID a)))"

text \<open>The five chains; their order is that of the range over a map.\<close>

definition chainNames :: "string \<Rightarrow> string \<Rightarrow> (string \<times> string list) list" where
  "chainNames protocol network =
     [(''ProtocolChain'', [protocol, network]),
      (''TransactionChain'', [protocol, network, ''Transactions'']),
      (''MinerChain'', [protocol, network, ''Miners'']),
      (''OraclePriceRecordChain'', [protocol, network, OPRChainTag]),
      (''StakingPriceRecordChain'', [protocol, network, SPRChainTag])]"

definition create_chains :: "(string list \<Rightarrow> chain_env) \<Rightarrow> (string \<times> string list) list
     \<Rightarrow> (string \<times> string \<times> string) list res" where
  "create_chains env_of names = res_map (\<lambda>(tag, name).
     rbind (check_panic (CreateChain (env_of name) name)) (\<lambda>(chain, tx). Inr (tag, chain, tx))) names"

text \<open>\<open>main\<close> of initialization/main.go: a flag goes before the configuration, and that before the default.\<close>

definition location :: "string \<Rightarrow> string res \<Rightarrow> string \<Rightarrow> string" where
  "location fl setting dflt = (let l = (if fl \<noteq> [] then fl else network_or_empty setting) in
     if l = [] then dflt else l)"

definition initialize :: "config \<Rightarrow> (string \<Rightarrow> string res) \<Rightarrow> string \<Rightarrow> (string list \<Rightarrow> chain_env)
     \<Rightarrow> ((string \<times> string list) list \<Rightarrow> (string \<times> string list) list) \<Rightarrow> (string \<times> string \<times> string) list res" where
  "initialize c fetch_ec ec_flag env_of visit =
     rbind (check_panic (c ''Miner.Protocol'')) (\<lambda>protocol.
     rbind (check_panic (LoadConfigNetwork c)) (\<lambda>network.
     rbind (check_panic (c ''Miner.ECAddress'')) (\<lambda>ec.
     rbind (check_panic (fetch_ec (if ec_flag = [] then ec else ec_flag))) (\<lambda>_.
       create_chains env_of (visit (chainNames protocol network))))))"

section \<open>Ending the process\<close>

text \<open>The functions are called in the order in which they were added, whatever one of them returns.\<close>

type_synonym 's ExitHandler = "('s \<Rightarrow> 's \<times> unit res) list"

definition AddExit :: "('s \<Rightarrow> 's \<times> unit res) \<Rightarrow> 's ExitHandler \<Rightarrow> 's ExitHandler" where
  "AddExit f e = e @ [f]"

definition AddCancel :: "('s \<Rightarrow> 's) \<Rightarrow> 's ExitHandler \<Rightarrow> 's ExitHandler" where
  "AddCancel cancel e = e @ [\<lambda>s. (cancel s, Inr ())]"

definition exit_all :: "'s ExitHandler \<Rightarrow> 's \<Rightarrow> 's" where
  "exit_all e s = foldl (\<lambda>s f. fst (f s)) s e"

section \<open>What a burn does\<close>

lemma call_all_Inr: "call_all env cs = (tr, Inr u) \<Longrightarrow> tr = cs"
  by (induction cs arbitrary: tr) (auto split: option.splits prod.splits)

lemma call_all_prefix: "call_all env cs = (tr, r) \<Longrightarrow> \<exists>rest. cs = tr @ rest"
  by (induction cs arbitrary: tr) (fastforce split: option.splits prod.splits)+

lemma burn_checks_Inr:
  assumes "burn_checks env addr amount = Inr (network, n)"
  obtains bal where "LoadConfigNetwork (wconfig env) = Inr network" "owned env addr = Inr ()"
    "factoid_balance env addr = Inr bal" "n = factoshis env amount" "n \<le> word_of_int bal"
proof -
  have ok: "check_panic r = Inr x \<longleftrightarrow> r = Inr x" for r :: "'a res" and x by (cases r) (simp_all add: check_panic_def)
  obtain bal where "LoadConfigNetwork (wconfig env) = Inr network" "owned env addr = Inr ()"
    "factoid_balance env addr = Inr bal" "n = factoshis env amount" "\<not> n > word_of_int bal"
    using assms unfolding burn_checks_def Let_def res_simps guard_res_Inr_iff
    by (auto simp: check_panic_def split: sum.splits)
  then show ?thesis using that by (simp add: not_less)
qed

lemma burn_sends:
  assumes "burn env dryrun addr amount = (calls, r)" "SendTransaction \<in> set calls"
  obtains network bal rest where "LoadConfigNetwork (wconfig env) = Inr network" "owned env addr = Inr ()"
    "factoid_balance env addr = Inr bal" "factoshis env amount \<le> word_of_int bal" "\<not> dryrun"
    "calls = DeleteTransaction # burn_plan network addr (factoshis env amount) @ SendTransaction # rest"
    "set rest \<subseteq> {DeleteTransaction}"
proof -
  obtain network n where c: "burn_checks env addr amount = Inr (network, n)"
    using assms by (cases "burn_checks env addr amount") (auto simp: burn_def)
  let ?last = "if dryrun then ComposeTransaction else SendTransaction" and ?plan = "burn_plan network addr n"
  obtain tr q where tr: "call_all env (?plan @ [?last]) = (tr, q)" by fastforce
  obtain more where more: "?plan @ [?last] = tr @ more" using call_all_prefix [OF tr] by blast
  obtain rest where calls: "calls = DeleteTransaction # tr @ rest" "set rest \<subseteq> {DeleteTransaction}"
    using assms(1) c tr by (cases q) (auto simp: burn_def split: if_splits)
  then have send: "SendTransaction \<in> set tr" using assms(2) by auto
  have plan: "SendTransaction \<notin> set ?plan" by (simp add: burn_plan_def)
  have "SendTransaction \<in> set (?plan @ [?last])" unfolding more using send by simp
  then have dry: "\<not> dryrun" using plan by (auto split: if_splits)
  have "more = []"
  proof (cases more rule: rev_cases)
    case (snoc front l)
    then have "tr @ front = ?plan" using more by simp
    then have "set tr \<subseteq> set ?plan" by (metis Un_upper1 set_append)
    then show ?thesis using send plan by blast
  qed
  then have "tr = ?plan @ [SendTransaction]" using more dry by simp
  moreover obtain bal where "LoadConfigNetwork (wconfig env) = Inr network" "owned env addr = Inr ()"
    "factoid_balance env addr = Inr bal" "n = factoshis env amount" "n \<le> word_of_int bal"
    using burn_checks_Inr [OF c] by blast
  ultimately show ?thesis using that [of network bal rest] dry calls by simp
qed


section \<open>What creating a chain does\<close>

lemma create_turns_stuck:
  "reveal_err a \<noteq> None \<Longrightarrow> reveal_err (create_turns n env False a) = reveal_err a"
proof (induction n arbitrary: a)
  case (Suc n)
  have "reveal_err (commit_turn env a) = reveal_err a" by (simp add: commit_turn_def)
  with Suc show ?case by (auto simp: Let_def)
qed simp

text \<open>The calls in pairs, from the \<open>i\<close>-th on, until a commit succeeds; all reveals have to.\<close>

fun goes_through :: "chain_env \<Rightarrow> nat \<Rightarrow> nat \<Rightarrow> string option" where
  "goes_through env i 0 = None"
| "goes_through env i (Suc n) = (case reveal env i of
     Inl _ \<Rightarrow> None
   | Inr t \<Rightarrow> if isl (commit env i) then goes_through env (i + 1) n else Some t)"

definition outcome :: "attempts \<Rightarrow> string option" where
  "outcome a = (if commit_err a = None \<and> reveal_err a = None then Some (txID a) else None)"

lemma create_turns_outcome:
  assumes "first \<or> commit_err a \<noteq> None" "n = 0 \<longrightarrow> commit_err a \<noteq> None" "reveal_err a = None"
    "commits a = i" "reveals a = i"
  shows "outcome (create_turns n env first a) = goes_through env i n"
  using assms
proof (induction n arbitrary: first a i)
  case 0
  then show ?case by (simp add: outcome_def)
next
  case (Suc n)
  let ?a = "reveal_turn env (commit_turn env a)"
  have turn: "create_turns (Suc n) env first a
      = (if commit_err ?a = None \<and> reveal_err ?a = None then ?a else create_turns n env False ?a)"
    using Suc.prems by (simp add: commit_turn_def Let_def)
  have at: "commits (commit_turn env a) = i + 1" "reveals (commit_turn env a) = i"
    "commit_err (commit_turn env a) = (case commit env i of Inl x \<Rightarrow> Some x | Inr _ \<Rightarrow> None)"
    using Suc.prems by (simp_all add: commit_turn_def)
  show ?case
  proof (cases "reveal env i")
    case (Inl x)
    then have "reveal_err ?a = Some x" using at(2) by (simp add: reveal_turn_def)
    then have "reveal_err (create_turns (Suc n) env first a) \<noteq> None"
      unfolding turn using create_turns_stuck [of ?a n env] by simp
    then show ?thesis using Inl by (simp add: outcome_def)
  next
    case (Inr t)
    then have a: "reveal_err ?a = None" "txID ?a = t" "commits ?a = i + 1" "reveals ?a = i + 1"
      "commit_err ?a = commit_err (commit_turn env a)"
      using at by (simp_all add: reveal_turn_def)
    show ?thesis
    proof (cases "commit env i")
      case (Inl x)
      then have "commit_err ?a \<noteq> None" using a(5) at(3) by simp
      moreover from Suc.IH [of False ?a "i + 1"] this a
      have "outcome (create_turns n env False ?a) = goes_through env (i + 1) n" by simp
      ultimately show ?thesis unfolding turn using Inr Inl by auto
    next
      case (Inr u)
      then have "commit_err ?a = None" using a(5) at(3) by simp
      then show ?thesis unfolding turn using a Inr \<open>reveal env i = Inr t\<close> by (simp add: outcome_def)
    qed
  qed
qed

lemma goes_through_iff:
  "goes_through env i n = Some t \<longleftrightarrow> (\<exists>k. i \<le> k \<and> k < i + n \<and> \<not> isl (commit env k) \<and> reveal env k = Inr t
     \<and> (\<forall>j. i \<le> j \<and> j < k \<longrightarrow> isl (commit env j) \<and> \<not> isl (reveal env j)))"
proof (induction n arbitrary: i)
  case (Suc n)
  let ?ok = "\<lambda>i n k. i \<le> k \<and> k < i + n \<and> \<not> isl (commit env k) \<and> reveal env k = Inr t
     \<and> (\<forall>j. i \<le> j \<and> j < k \<longrightarrow> isl (commit env j) \<and> \<not> isl (reveal env j))"
  have head: "(\<exists>k. ?ok i (Suc n) k) \<longleftrightarrow> ?ok i (Suc n) i
      \<or> isl (commit env i) \<and> \<not> isl (reveal env i) \<and> (\<exists>k. ?ok (i + 1) n k)"
  proof
    assume "\<exists>k. ?ok i (Suc n) k"
    then obtain k where k: "?ok i (Suc n) k" by blast
    show "?ok i (Suc n) i \<or> isl (commit env i) \<and> \<not> isl (reveal env i) \<and> (\<exists>k. ?ok (i + 1) n k)"
    proof (cases "k = i")
      case False
      then have "i < k" using k by simp
      then have "isl (commit env i) \<and> \<not> isl (reveal env i)" "?ok (i + 1) n k" using k by auto
      then show ?thesis by blast
    qed (use k in simp)
  next
    assume "?ok i (Suc n) i \<or> isl (commit env i) \<and> \<not> isl (reveal env i) \<and> (\<exists>k. ?ok (i + 1) n k)"
    then consider "?ok i (Suc n) i" | k where "isl (commit env i)" "\<not> isl (reveal env i)" "?ok (i + 1) n k" by blast
    then show "\<exists>k. ?ok i (Suc n) k"
    proof cases
      case (2 k)
      have "isl (commit env j) \<and> \<not> isl (reveal env j)" if "i \<le> j" "j < k" for j
        using 2 that by (cases "j = i") auto
      then have "?ok i (Suc n) k" using 2 by auto
      then show ?thesis by blast
    qed blast
  qed
  show ?case unfolding head using Suc [of "i + 1"] by (cases "reveal env i") auto
qed simp

text \<open>
  C32. A chain that does not exist is created, and its id returned with that of the transaction, exactly
  when one of the first thousand commits succeeds and every reveal up to then does, the first of them
  included: a commit that fails is tried again, but after a reveal that fails none is ever made, and all
  that is left of the thousand turns is waited for to return the error.
\<close>

theorem chain_created:
  assumes "chainName \<noteq> []" "chainID = hexEncode (ComputeChainIDFromStrings chainName)" "\<not> chain_exists env chainID"
  shows "CreateChain env chainName = Inr (chainID, t)
    \<longleftrightarrow> (\<exists>k < 1000. \<not> isl (commit env k) \<and> reveal env k = Inr t
          \<and> (\<forall>j < k. isl (commit env j) \<and> \<not> isl (reveal env j)))"
proof -
  let ?a = "create_turns 1000 env True no_attempts"
  have "CreateChain env chainName = Inr (chainID, t) \<longleftrightarrow> outcome ?a = Some t"
    using assms by (auto simp: CreateChain_def Let_def outcome_def split: option.splits)
  moreover have "outcome ?a = goes_through env 0 1000"
    by (rule create_turns_outcome) (simp_all add: no_attempts_def)
  ultimately show ?thesis using goes_through_iff [of env 0 1000 t] by simp
qed

text \<open>The first commit fails, the second one succeeds, and so do both reveals.\<close>

theorem chain_created_witness:
  "CreateChain \<lparr>chain_exists = (\<lambda>_. False), commit = (\<lambda>n. if n = 0 then Inl (GoError ''busy'') else Inr ()),
     reveal = (\<lambda>n. Inr (itoa (int n)))\<rparr> [''PegNet''] = Inr (hexEncode (ComputeChainIDFromStrings [''PegNet'']), itoa 1)"
proof -
  let ?env = "\<lparr>chain_exists = (\<lambda>_. False), commit = (\<lambda>n. if n = 0 then Inl (GoError ''busy'') else Inr ()),
     reveal = (\<lambda>n. Inr (itoa (int n)))\<rparr>"
  have "\<exists>k < 1000. \<not> isl (commit ?env k) \<and> reveal ?env k = Inr (itoa 1)
      \<and> (\<forall>j < k. isl (commit ?env j) \<and> \<not> isl (reveal ?env j))"
    by (intro exI [of _ 1]) simp
  then show ?thesis using chain_created [of "[''PegNet'']" _ ?env "itoa 1"] by simp
qed

definition sample_wallet :: wallet_env where
  "sample_wallet = \<lparr>wconfig = (\<lambda>_. Inr ''MainNet''), owned = (\<lambda>_. Inr ()), factoid_balance = (\<lambda>_. Inr 500),
     factoshis = (\<lambda>_. 300), factoids = (\<lambda>_. []), answer = (\<lambda>_. Inr ())\<rparr>"

definition burnt_tx :: "string \<Rightarrow> FactoidTransaction" where
  "burnt_tx addr = \<lparr>Millitimestamp = 0, Inputs = [\<lparr>Amount = 300, TxAddress = [], Useraddress = addr\<rparr>], Outputs = [],
     Outecs = [\<lparr>Amount = 0, TxAddress = [], Useraddress = BurnAddresses MainNetwork\<rparr>], Rcds = [], Sigblocks = [],
     Blockheight = 0\<rparr>"

lemma sample_wallet_burns:
  "burn sample_wallet False addr amount
     = (DeleteTransaction # burn_plan MainNetwork addr 300 @ [SendTransaction, DeleteTransaction], Inr ())"
proof -
  have net: "LoadConfigNetwork (wconfig sample_wallet) = Inr MainNetwork"
    by (simp add: sample_wallet_def LoadConfigNetwork_def) code_simp
  have "burn_checks sample_wallet addr amount = Inr (MainNetwork, 300)"
    unfolding burn_checks_def net by (simp add: sample_wallet_def check_panic_def guard_res_def)
  moreover have "call_all sample_wallet cs = (cs, Inr ())" for cs
    by (induction cs) (simp_all add: fails_def sample_wallet_def)
  ultimately show ?thesis by (simp add: burn_def)
qed


end
