(* ===== verification/Spec2Isabelle.thy ===== *)
theory Spec2Isabelle
  imports Grader_Correct Conversions StakeGrader_Correct TransactionId OprEntry GraderFetch
    OprGrading_Equiv Polling_Correct Markets Staking_Correct MinerCoordinator_Correct NetworkMiner_Correct Api_Correct WalletCommands
begin

text \<open>
  A verification development of PegNet, the Go implementation of a network that pegs assets to prices
  and runs on top of the Factom blockchain. This theory has no definitions of its own: it imports the
  others, and its text says what they hold.

  \<^bold>\<open>The program.\<close> Every ten minutes Factom completes a block. During a block, miners
  (package mining) poll exchange rates (package polling), put them into an oracle price record, an OPR
  (package opr), hash its content with nonces, and write the best of the hashes as entries to the
  mining chain. Stakers (packages spr and staking) write signed staking price records, SPRs. When the
  block is complete, everybody grades its records: a record counts if it is well formed and names the
  winners of the block before, the most difficult ones are kept, the records whose prices are furthest
  from the average are eliminated one by one, and the last ones standing win PEG. The packages under
  modules/ are the consensus rules as a library; package opr has the miner's own, older copy of the
  grading, and its synchronisation with the chain. Conversions between assets (modules/conversions) and
  the burning of Factoids (package balances) move the balances.

  \<^bold>\<open>Theories and code.\<close> Each theory models the files it names, with the names of the source
  (suffixed or prefixed where Isabelle or another package has the name).
    \<^item> Prelude: machine integers as words, \<open>uint64\<close> and \<open>int64\<close> arithmetic, byte strings,
      hexadecimal and decimal printing, stable sorting, and the type of results: \<open>Inl (GoError m)\<close> is a
      returned error, \<open>Inl (GoPanic m)\<close> a panic, \<open>Inr v\<close> a value.
    \<^item> Go_Float, Go_Sha256: the parts of Go and its standard library that the code computes with:
      float64 as the IEEE binary64 values with their rounding, and SHA-256.
    \<^item> Base58, FactoidAddress: modules/factoidaddress. TransactionId: modules/transactionid.
    \<^item> V2Proto, Assets, OprContent: modules/opr, that is the generated protobuf coder (V2Content.pb.go),
      the asset lists and named prices, and the price records behind their interface.
    \<^item> Grader_Base, Grader_Algo, Graders, Grader_Correct: modules/grader, the five versions.
    \<^item> StakeGrader, StakeGrader_Correct: modules/spr and modules/graderStake, three versions.
    \<^item> Conversions: modules/conversions.
    \<^item> Common: package common (activation heights, asset lists, addresses, chain ids).
    \<^item> OprRecord, OprEntry, OprGrading, OprGrading_Equiv: package opr's record, its Factom entry, and its
      grading with the proof that it agrees with modules/grader.
    \<^item> Difficulty, Poller, NewOpr, NewOpr_Correct: the making of a record (opr/opr.go): the estimate of
      the least difficulty (opr/difficulty.go), the polling of prices, and \<open>NewOpr\<close>.
    \<^item> Nonces, Mining: opr/aggregator.go and mining/miner.go (the miner as a function over the events it
      sees, the batches of the coordinator, the collection of the rankings).
    \<^item> MiningStats, MinerCoordinator, MinerCoordinator_Correct: the rest of package mining: the statistics,
      and the coordinator, its miners and its writers as goroutines that take turns.
    \<^item> Monitor: common/monitor.go, the events that drive the coordinators. NetworkMiner,
      NetworkMiner_Correct: package networkMiner, mining for a coordinator at the other end of a connection.
    \<^item> BlockSync, BlockStore, QuickGrader, GraderSync, GraderSync_Correct, GraderFetch: the miner's
      grader: which entry blocks are missing (opr/entryblocksync.go), where graded blocks are kept
      (opr/oprblocks.go over package database), and how blocks are fetched, graded, stored, paid and
      announced (opr/grader.go).
    \<^item> Balances, Burns: package balances.
    \<^item> Go_Strings, Config: searching and splitting strings, and common/config.go with the networks.
    \<^item> PriceSource, Kitco, CryptoSources, Polling, Polling_Correct, Markets: package polling: the sources of
      prices from the decoded answer of a web service on (for kitco.com, from the text of the page on),
      their caches, and polling/assets.go, which reads the sources from the configuration and chooses a
      price for each asset. Float_Eval holds the rules that evaluate floats in the examples.
    \<^item> Api, Api_Correct: packages api and controlPanel, the requests that a node answers. CommandLine:
      package cmd, the arguments, settings and requests of the commands. WalletCommands: the burning of
      Factoids (cmd/cmd.go), the creation of the chains of a network (initialization/main.go) and
      common/close.go.
    \<^item> SprRecord, SprRecord_Correct, Staking, Staking_Correct: packages spr and staking, from the
      configuration and the poll to the signed entries of a block.

  \<^bold>\<open>How the parts rely on each other.\<close> The interfaces are locales, each interpreted on the
  model's own definitions: \<open>ledger\<close> (Balances) for the tracker that the grader pays into, \<open>database\<close> and
  \<open>block_store\<close> (BlockStore) for the key-value store below the graded blocks. The grading theories share
  one algorithm (Grader_Algo), parametrised by how a record gives its prices; mining, staking and the
  miner's grader instantiate it. OprEntry composes the miner with the graders: an entry that it creates
  is one that they accept.

  \<^bold>\<open>Code that is not in the repository\<close> is an argument of the definitions: the LX hash, the
  Factom client, its signature check and its base58 coder, the JSON coder, golang/protobuf, LevelDB, and
  the orders that Go leaves open (the iteration over a map, \<open>sort.Slice\<close> on equal elements, the
  completion of workers). What the code relies on of it is a named hypothesis (for example that decoding
  inverts encoding), and each property that has one has a witness with a concrete instance.

  \<^bold>\<open>What is shown.\<close> The properties are marked with their number in a text before them.
    \<^item> Graders: no input makes them panic within the stated conditions; which records are kept and in
      which order; which are eliminated; what is paid to whom; that a block with winners can follow every
      block that graded; that the order of adding records cannot matter.
    \<^item> Encodings: the protobuf coder decodes what it encodes and never panics, addresses, transaction
      ids, prices and records survive a round trip.
    \<^item> Conversions: the payouts of a block sum to the bank when more was asked than there is, their order
      does not matter, nobody gains by converting there and back.
    \<^item> Miners: whatever the order of the goroutines, what is written for a block are the best of all nonces
      that all miners tried, in entries that the graders accept; a record that is made is the right one for
      its block; the estimate of the difficulty is the exact one up to a bound, or panics; the minutes that
      the monitor announces go forward; the statistics are the last of each group.
    \<^item> Network miners: only clients that have answered the challenge of the coordinator get its events and
      have entries written, and who knows the secret is accepted.
    \<^item> The miner's grader: after any run of synchronisations with a chain that grows and calls that fail,
      every block was paid exactly once, and a grader that restarts on its store is as if it had not
      stopped; but one malformed entry can end the process.
    \<^item> Balances: the tracker is a map of unbounded sums as long as nothing overflows; each burn is paid
      once.
    \<^item> Prices: the choice of sources does not depend on the order of the settings; all prices of a pull
      that come from one source come from one answer; which quote version 5 takes.
    \<^item> Stakers: a record is made once for a block and written once, in whatever order the monitor's
      events come; its entries are accepted by the grader with the prices that were polled.

    \<^item> Users: the report of the API on a miner counts its records (with the places by difficulty one off),
      every answer has a result or an error of its method; a burn that is sent is one that is credited; a
      chain is created unless a reveal fails.

  \<^bold>\<open>Bounds and fuel.\<close> There is no fuel for loops of the code that are structural or have a
  measure (base58, varints, eliminations, the passes over a block). The walk along the chain back to a
  known block may not end if the network lies, and is a \<open>partial_function\<close> into options; that it returns on
  a chain is proved with the property of the queue. Integers are words wherever the code can wrap around,
  and hypotheses state the ranges in which nothing wraps.

  \<^bold>\<open>Not modelled.\<close>
    \<^item> Input, output and glue: printing, the parser of flags, the files of the configuration, logging, and the encoding
      and transport of messages. What a goroutine does with its events is modelled where it is the
      program's logic (miner, staker, grader, coordinators, monitor), with the events as arguments.
    \<^item> Time: retries with backoff are a number of attempts, the pauses of loops have no length.
    \<^item> The initialisation of the LX hash (modules/lxr30), the recorder of prices (opr/recorder.go, which
      writes tables for inspection), the simulation and tools of utilities, and random test data (testutils).
\<close>

end
